(* ===== verification/Prelude.thy ===== *)
theory Prelude
  imports Main "HOL-Library.Word" "HOL-Library.AList" "HOL-Library.List_Lexorder"
    "HOL-Library.Monad_Syntax"
begin

text \<open>
  Shared vocabulary of the development.

  \<^item> Go's unsigned and signed machine integers are words: a conversion between the signed and the
    unsigned type of one width is the identity on the word, \<open>sint\<close> and \<open>uint\<close> read it.
  \<^item> A Go string and a byte slice are lists of bytes; Go orders strings byte by byte, which is
    the lexicographic order of HOL-Library.List_Lexorder.
  \<^item> A Go map is an association list with distinct keys. The order of the list stands for the
    order in which one \<open>range\<close> loop visits the map, which Go leaves open; a theorem about every
    well-formed list therefore covers every order.
  \<^item> A Go panic is \<open>None\<close>; a returned \<open>error\<close> is the left part of a sum.
\<close>

unbundle bit_operations_syntax

section \<open>Types\<close>

type_synonym byte = "8 word"
type_synonym uint16 = "16 word"
type_synonym uint32 = "32 word"
type_synonym uint64 = "64 word"
type_synonym gostring = "byte list"
type_synonym ('k, 'v) gomap = "('k \<times> 'v) list"

text \<open>The bytes of a string literal of the source.\<close>

definition gs :: "string \<Rightarrow> gostring" where
  "gs s = map of_char s"

section \<open>Collections of rewrite rules\<close>

named_theorems go_defs \<open>definitions of model operations that proofs unfold\<close>
named_theorems writer_append \<open>what each operation of the writer appends\<close>
named_theorems id_accessors \<open>the segment that each accessor of an id wrapper reads\<close>
named_theorems reads_intros \<open>decoding what was encoded\<close>

section \<open>Go maps\<close>

definition gm_wf :: "('k, 'v) gomap \<Rightarrow> bool" where
  "gm_wf m \<longleftrightarrow> distinct (map fst m)"

definition gm_get :: "('k, 'v) gomap \<Rightarrow> 'k \<Rightarrow> 'v option" where
  "gm_get m k = map_of m k"

definition gm_set :: "'k \<Rightarrow> 'v \<Rightarrow> ('k, 'v) gomap \<Rightarrow> ('k, 'v) gomap" where
  "gm_set k v m = AList.update k v m"

definition gm_del :: "'k \<Rightarrow> ('k, 'v) gomap \<Rightarrow> ('k, 'v) gomap" where
  "gm_del k m = AList.delete k m"

lemma gm_wf_Nil [simp]: "gm_wf []"
  by (simp add: gm_wf_def)

lemma gm_wf_set [simp]: "gm_wf m \<Longrightarrow> gm_wf (gm_set k v m)"
  by (simp add: gm_wf_def gm_set_def distinct_update)

lemma gm_wf_del [simp]: "gm_wf m \<Longrightarrow> gm_wf (gm_del k m)"
  by (simp add: gm_wf_def gm_del_def distinct_delete)

lemma gm_get_Nil [simp]: "gm_get [] k = None"
  by (simp add: gm_get_def)

lemma gm_get_set [simp]: "gm_get (gm_set k v m) k' = (if k' = k then Some v else gm_get m k')"
  by (simp add: gm_get_def gm_set_def update_conv')

lemma gm_get_del [simp]: "gm_get (gm_del k m) k' = (if k' = k then None else gm_get m k')"
  by (simp add: gm_get_def gm_del_def delete_conv')

lemma gm_get_empty_iff: "(\<forall>k. gm_get m k = None) \<longleftrightarrow> m = []"
proof (cases m)
  case (Cons p ps)
  then have "gm_get m (fst p) \<noteq> None" by (cases p) (simp add: gm_get_def)
  with Cons show ?thesis by auto
qed simp

lemma gm_get_in_set: "gm_wf m \<Longrightarrow> gm_get m k = Some v \<longleftrightarrow> (k, v) \<in> set m"
  by (simp add: gm_wf_def gm_get_def)

lemma gm_get_SomeD: "gm_get m k = Some v \<Longrightarrow> (k, v) \<in> set m"
  by (simp add: gm_get_def map_of_SomeD)

lemma gm_get_keys: "k \<in> fst ` set m \<longleftrightarrow> gm_get m k \<noteq> None"
  by (simp add: gm_get_def map_of_eq_None_iff)

lemma gm_del_Nil [simp]: "gm_del k [] = []"
  by (simp add: gm_del_def)

lemma gm_set_not_Nil [simp]: "gm_set k v m \<noteq> []"
  by (cases m) (auto simp: gm_set_def)

lemma gm_ball: "gm_wf m \<Longrightarrow> (\<forall>(k, v) \<in> set m. P k v) \<longleftrightarrow> (\<forall>k v. gm_get m k = Some v \<longrightarrow> P k v)"
  by (auto simp: gm_get_in_set)

lemma gm_del_eq_Nil_iff: "gm_del k m = [] \<longleftrightarrow> (\<forall>k'. k' \<noteq> k \<longrightarrow> gm_get m k' = None)"
proof -
  have "gm_del k m = [] \<longleftrightarrow> (\<forall>k'. gm_get (gm_del k m) k' = None)"
    by (simp only: gm_get_empty_iff)
  then show ?thesis by auto
qed

lemma gm_del_NilD: "gm_del k m = [] \<Longrightarrow> k' \<noteq> k \<Longrightarrow> gm_get m k' = None"
  by (simp add: gm_del_eq_Nil_iff)

section \<open>Lists of a fixed length\<close>

lemma length_eq_1: "length xs = Suc 0 \<longleftrightarrow> (\<exists>a. xs = [a])"
  and length_eq_2: "length xs = 2 \<longleftrightarrow> (\<exists>a b. xs = [a, b])"
  and length_eq_3: "length xs = 3 \<longleftrightarrow> (\<exists>a b c. xs = [a, b, c])"
  by (auto simp: length_Suc_conv numeral_2_eq_2 numeral_3_eq_3)

lemmas length_eqs = length_eq_1 length_eq_2 length_eq_3

section \<open>Reading words as numbers\<close>

lemma unat_less [simp]: "unat (w :: 'a::len word) < 2 ^ LENGTH('a)"
  by (rule unsigned_less)

lemma unat_shr [simp]: "unat (drop_bit n (w :: 'a::len word)) = unat w div 2 ^ n"
  by (simp only: unat_drop_bit_eq) (simp only: drop_bit_eq_div)

lemma unat_ucast_byte: "unat (ucast (v :: 'a::len word) :: byte) = unat v mod 256"
  by (simp add: unsigned_ucast_eq take_bit_eq_mod)

section \<open>Bits of words\<close>

lemma take_or_push_drop: "take_bit n (v :: 'a::len word) OR push_bit n (drop_bit n v) = v"
  by (rule bit_word_eqI) (auto simp: bit_simps, metis add_diff_inverse_nat)

lemma take_or_push_take:
  "take_bit n (v :: 'a::len word) OR push_bit n (take_bit m (drop_bit n v)) = take_bit (n + m) v"
  by (rule bit_word_eqI) (auto simp: bit_simps)

lemma bit_imp_unat_ge: "bit (w :: 'a::len word) n \<Longrightarrow> 2 ^ n \<le> unat w"
proof (rule ccontr)
  assume "bit w n" and "\<not> 2 ^ n \<le> unat w"
  then have "bit (unat w) n" and "unat w div 2 ^ n = 0" by (simp_all add: bit_unsigned_iff)
  then show False by (simp add: bit_iff_odd)
qed

lemma sint_neg_iff_bit: "sint (w :: 'a::len word) < 0 \<longleftrightarrow> bit w (LENGTH('a) - 1)"
  by (simp add: sint_uint bit_unsigned_iff)

lemma uint_add_half:
  fixes x :: "'a::len word"
  shows "uint (x + 2 ^ (LENGTH('a) - 1)) = sint x + 2 ^ (LENGTH('a) - 1)"
proof -
  let ?h = "2 ^ (LENGTH('a) - 1) :: int"
  have two: "2 * ?h = 2 ^ LENGTH('a)"
    by (metis len_gt_0 power_minus_mult mult.commute)
  have range: "- ?h \<le> sint x" "sint x < ?h"
    using sint_greater_eq [of x] sint_less [of x] by simp_all
  have "x + 2 ^ (LENGTH('a) - 1) = word_of_int (sint x + ?h)" by simp
  then have "uint (x + 2 ^ (LENGTH('a) - 1)) = (sint x + ?h) mod 2 ^ LENGTH('a)"
    by (simp only: uint_word_of_int)
  with range two show ?thesis by simp
qed

end
