(* ===== verification/Byte_Writer.thy ===== *)
theory Byte_Writer
  imports Prelude
begin

text \<open>
  The serializer of \<open>src/utils/writer.go\<close>. A \<open>Writer\<close> is its growing byte buffer. The ten byte
  scratch slice \<open>numSlice\<close> of the source is overwritten before every use and never read otherwise,
  so it is not part of the state; \<open>length_PutUvarint\<close> shows that ten bytes are always enough for it.
  A float is modelled by its IEEE 754 bit pattern, which is what \<open>math.Float32bits\<close> and
  \<open>math.Float64bits\<close> return. The group of big-endian and varint functions models what the source
  uses of the standard library's \<open>encoding/binary\<close>.
\<close>

unbundle bit_operations_syntax

section \<open>The standard library's encoding/binary\<close>

text \<open>\<open>be_put k v\<close>: the low \<open>k\<close> bytes of \<open>v\<close>, most significant byte first.\<close>

fun be_put :: "nat \<Rightarrow> 'a::len word \<Rightarrow> byte list" where
  "be_put 0 v = []"
| "be_put (Suc k) v = be_put k (drop_bit 8 v) @ [ucast v]"

text \<open>\<open>binary.PutUvarint\<close>: seven bits at a time, the upper bit set on every byte but the last.\<close>

function PutUvarint :: "uint64 \<Rightarrow> byte list" where
  "PutUvarint x = (if x \<ge> 0x80 then (ucast x OR 0x80) # PutUvarint (drop_bit 7 x) else [ucast x])"
  by pat_completeness auto
termination
  by (relation "measure unat") (auto simp: word_le_nat_alt)

declare PutUvarint.simps [simp del]

text \<open>\<open>binary.PutVarint\<close>: the zig-zag code of a signed integer, as a varint.\<close>

definition zigzag :: "uint64 \<Rightarrow> uint64" where
  "zigzag x = (let ux = push_bit 1 x in if sint x < 0 then NOT ux else ux)"

definition PutVarint :: "uint64 \<Rightarrow> byte list" where
  "PutVarint x = PutUvarint (zigzag x)"

section \<open>The writer\<close>

record writer =
  writer_buf :: "byte list"

definition NewWriter :: "uint64 \<Rightarrow> writer" where
  "NewWriter capacity = \<lparr>writer_buf = []\<rparr>"

text \<open>\<open>buf.WriteByte\<close>, \<open>buf.Write\<close> and \<open>buf.WriteString\<close> of the underlying \<open>bytes.Buffer\<close>.\<close>

definition buf_Write :: "byte list \<Rightarrow> writer \<Rightarrow> writer" where
  "buf_Write bs w = w\<lparr>writer_buf := writer_buf w @ bs\<rparr>"

definition Writer_Bool :: "bool \<Rightarrow> writer \<Rightarrow> writer" where
  "Writer_Bool val w = (if val then buf_Write [1] w else buf_Write [0] w)"

definition Writer_Uint8 :: "byte \<Rightarrow> writer \<Rightarrow> writer" where
  "Writer_Uint8 val w = buf_Write [val] w"

definition Writer_Uint16 :: "uint16 \<Rightarrow> writer \<Rightarrow> writer" where
  "Writer_Uint16 val w = buf_Write (be_put 2 val) w"

definition Writer_Uint32 :: "uint32 \<Rightarrow> writer \<Rightarrow> writer" where
  "Writer_Uint32 val w = buf_Write (be_put 4 val) w"

definition Writer_Uint64 :: "uint64 \<Rightarrow> writer \<Rightarrow> writer" where
  "Writer_Uint64 val w = buf_Write (be_put 8 val) w"

definition Writer_Int8 :: "byte \<Rightarrow> writer \<Rightarrow> writer" where
  "Writer_Int8 val w = buf_Write [val + push_bit 7 1] w"

definition Writer_Int16 :: "uint16 \<Rightarrow> writer \<Rightarrow> writer" where
  "Writer_Int16 val w = Writer_Uint16 (val + push_bit 15 1) w"

definition Writer_Int32 :: "uint32 \<Rightarrow> writer \<Rightarrow> writer" where
  "Writer_Int32 val w = Writer_Uint32 (val + push_bit 31 1) w"

definition Writer_Int64 :: "uint64 \<Rightarrow> writer \<Rightarrow> writer" where
  "Writer_Int64 val w = Writer_Uint64 (val + push_bit 63 1) w"

definition Writer_Byte :: "byte \<Rightarrow> writer \<Rightarrow> writer" where
  "Writer_Byte val w = buf_Write [val] w"

definition Writer_Float32 :: "uint32 \<Rightarrow> writer \<Rightarrow> writer" where
  "Writer_Float32 bits w =
     (let uval = bits;
          uval = uval XOR (signed_drop_bit 31 uval AND 0x7FFFFFFF);
          uval = uval XOR 0x80000000
      in Writer_Uint32 uval w)"

definition Writer_Float64 :: "uint64 \<Rightarrow> writer \<Rightarrow> writer" where
  "Writer_Float64 bits w =
     (let uval = bits;
          uval = uval XOR (signed_drop_bit 63 uval AND 0x7FFFFFFFFFFFFFFF);
          uval = uval XOR 0x8000000000000000
      in Writer_Uint64 uval w)"

definition Writer_VariableInt :: "uint64 \<Rightarrow> writer \<Rightarrow> writer" where
  "Writer_VariableInt val w = buf_Write (PutVarint val) w"

definition Writer_VariableUint :: "uint64 \<Rightarrow> writer \<Rightarrow> writer" where
  "Writer_VariableUint val w = buf_Write (PutUvarint val) w"

definition Writer_String :: "gostring \<Rightarrow> writer \<Rightarrow> writer" where
  "Writer_String val w = buf_Write val (Writer_VariableUint (of_nat (length val)) w)"

definition Writer_Id :: "gostring \<Rightarrow> writer \<Rightarrow> writer" where
  "Writer_Id val w = Writer_String val w"

text \<open>The loop \<open>for i := range vals\<close> that writes one element after the other.\<close>

fun write_each :: "('a \<Rightarrow> writer \<Rightarrow> writer) \<Rightarrow> 'a list \<Rightarrow> writer \<Rightarrow> writer" where
  "write_each wr [] w = w"
| "write_each wr (v # vals) w = write_each wr vals (wr v w)"

definition Writer_BoolSlice :: "bool list \<Rightarrow> writer \<Rightarrow> writer" where
  "Writer_BoolSlice vals w =
     write_each Writer_Bool vals (Writer_VariableUint (of_nat (length vals)) w)"

definition Writer_Int8Slice :: "byte list \<Rightarrow> writer \<Rightarrow> writer" where
  "Writer_Int8Slice vals w =
     write_each Writer_Int8 vals (Writer_VariableUint (of_nat (length vals)) w)"

definition Writer_Int16Slice :: "uint16 list \<Rightarrow> writer \<Rightarrow> writer" where
  "Writer_Int16Slice vals w =
     write_each Writer_Int16 vals (Writer_VariableUint (of_nat (length vals)) w)"

definition Writer_Int32Slice :: "uint32 list \<Rightarrow> writer \<Rightarrow> writer" where
  "Writer_Int32Slice vals w =
     write_each Writer_Int32 vals (Writer_VariableUint (of_nat (length vals)) w)"

definition Writer_Int64Slice :: "uint64 list \<Rightarrow> writer \<Rightarrow> writer" where
  "Writer_Int64Slice vals w =
     write_each Writer_Int64 vals (Writer_VariableUint (of_nat (length vals)) w)"

definition Writer_Uint8Slice :: "byte list \<Rightarrow> writer \<Rightarrow> writer" where
  "Writer_Uint8Slice vals w = buf_Write vals (Writer_VariableUint (of_nat (length vals)) w)"

definition Writer_Uint16Slice :: "uint16 list \<Rightarrow> writer \<Rightarrow> writer" where
  "Writer_Uint16Slice vals w =
     write_each Writer_Uint16 vals (Writer_VariableUint (of_nat (length vals)) w)"

definition Writer_Uint32Slice :: "uint32 list \<Rightarrow> writer \<Rightarrow> writer" where
  "Writer_Uint32Slice vals w =
     write_each Writer_Uint32 vals (Writer_VariableUint (of_nat (length vals)) w)"

definition Writer_Uint64Slice :: "uint64 list \<Rightarrow> writer \<Rightarrow> writer" where
  "Writer_Uint64Slice vals w =
     write_each Writer_Uint64 vals (Writer_VariableUint (of_nat (length vals)) w)"

definition Writer_ByteSlice :: "byte list \<Rightarrow> writer \<Rightarrow> writer" where
  "Writer_ByteSlice vals w = Writer_Uint8Slice vals w"

definition Writer_Float32Slice :: "uint32 list \<Rightarrow> writer \<Rightarrow> writer" where
  "Writer_Float32Slice vals w =
     write_each Writer_Float32 vals (Writer_VariableUint (of_nat (length vals)) w)"

definition Writer_Float64Slice :: "uint64 list \<Rightarrow> writer \<Rightarrow> writer" where
  "Writer_Float64Slice vals w =
     write_each Writer_Float64 vals (Writer_VariableUint (of_nat (length vals)) w)"

definition Writer_VariableIntSlice :: "uint64 list \<Rightarrow> writer \<Rightarrow> writer" where
  "Writer_VariableIntSlice vals w =
     write_each Writer_VariableInt vals (Writer_VariableUint (of_nat (length vals)) w)"

definition Writer_VariableUintSlice :: "uint64 list \<Rightarrow> writer \<Rightarrow> writer" where
  "Writer_VariableUintSlice vals w =
     write_each Writer_VariableUint vals (Writer_VariableUint (of_nat (length vals)) w)"

definition Writer_StringSlice :: "gostring list \<Rightarrow> writer \<Rightarrow> writer" where
  "Writer_StringSlice vals w =
     write_each Writer_String vals (Writer_VariableUint (of_nat (length vals)) w)"

text \<open>
  \<open>StringMap\<close> visits the sorted keys; \<open>m[k]\<close> of a missing key would be the empty string.
\<close>

definition go_index_string :: "('k, gostring) gomap \<Rightarrow> 'k \<Rightarrow> gostring" where
  "go_index_string m k = (case gm_get m k of None \<Rightarrow> [] | Some v \<Rightarrow> v)"

definition Writer_StringMap :: "(gostring, gostring) gomap \<Rightarrow> writer \<Rightarrow> writer" where
  "Writer_StringMap m w =
     write_each (\<lambda>k w. Writer_String (go_index_string m k) (Writer_String k w))
       (sort (map fst m)) (Writer_VariableUint (of_nat (length m)) w)"

definition Writer_IdSlice :: "gostring list \<Rightarrow> writer \<Rightarrow> writer" where
  "Writer_IdSlice vals w =
     write_each Writer_Id vals (Writer_VariableUint (of_nat (length vals)) w)"

definition Writer_IdTypeSlice :: "gostring list \<Rightarrow> writer \<Rightarrow> writer" where
  "Writer_IdTypeSlice vals w =
     write_each (\<lambda>t. Writer_Id t) vals (Writer_VariableUint (of_nat (length vals)) w)"

definition Writer_Data :: "writer \<Rightarrow> byte list" where
  "Writer_Data w = writer_buf w"

definition Writer_Reset :: "writer \<Rightarrow> writer" where
  "Writer_Reset w = w\<lparr>writer_buf := []\<rparr>"

section \<open>Big-endian digits\<close>

lemma length_be_put [simp]: "length (be_put k v) = k"
  by (induction k v rule: be_put.induct) auto

text \<open>The number that a list of bytes spells in base 256.\<close>

definition be_val :: "byte list \<Rightarrow> nat" where
  "be_val bs = foldl (\<lambda>a b. a * 256 + unat b) 0 bs"

lemma be_val_snoc [simp]: "be_val (bs @ [b]) = be_val bs * 256 + unat b"
  by (simp add: be_val_def)

lemma be_val_Nil [simp]: "be_val [] = 0"
  by (simp add: be_val_def)

lemma be_val_be_put: "be_val (be_put k v) = unat v mod 256 ^ k"
proof (induction k v rule: be_put.induct)
  case (2 k v)
  have "be_val (be_put (Suc k) v) = (unat v div 256) mod 256 ^ k * 256 + unat v mod 256"
    using 2 by (simp add: unat_ucast_byte)
  also have "\<dots> = unat v mod (256 * 256 ^ k)"
    by (simp add: mod_mult2_eq)
  finally show ?case by simp
qed simp

lemma be_val_bound: "be_val bs < 256 ^ length bs"
proof (induction bs rule: rev_induct)
  case (snoc b bs)
  have "unat b < 256" using unat_less [of b] by simp
  with snoc show ?case by simp
qed simp

lemma be_val_Cons: "be_val (b # bs) = unat b * 256 ^ length bs + be_val bs"
proof (induction bs rule: rev_induct)
  case (snoc c cs)
  have "be_val (b # cs @ [c]) = be_val (b # cs) * 256 + unat c"
    using be_val_snoc [of "b # cs" c] by simp
  with snoc show ?case by (simp add: algebra_simps)
qed (use be_val_snoc [of "[]" b] in simp)

text \<open>On strings of one length the order of Go's \<open>bytes.Compare\<close> is the order of the numbers.\<close>

lemma be_val_less_iff:
  "length bs = length cs \<Longrightarrow> bs < cs \<longleftrightarrow> be_val bs < be_val cs"
proof (induction bs cs rule: list_induct2)
  case (Cons b bs c cs)
  have bounds: "be_val bs < 256 ^ length cs" "be_val cs < 256 ^ length cs"
    using be_val_bound [of bs] be_val_bound [of cs] Cons.hyps by simp_all
  have step: "m * P + x < n * P + y" if "m < n" "x < P" for m n x y P :: nat
  proof -
    have "m * P + x < Suc m * P" using that by simp
    also have "\<dots> \<le> n * P" using that by (intro mult_le_mono1) simp
    finally show ?thesis by simp
  qed
  consider "b = c" | "unat b < unat c" | "unat c < unat b"
    by (metis linorder_neqE_nat word_unat_eq_iff)
  then show ?case
  proof cases
    case 1
    with Cons show ?thesis by (simp add: be_val_Cons)
  next
    case 2
    with Cons.hyps bounds step [OF 2 bounds(1), of "be_val cs"] show ?thesis
      by (auto simp: be_val_Cons word_less_nat_alt)
  next
    case 3
    with Cons.hyps bounds step [OF 3 bounds(2), of "be_val bs"] show ?thesis
      by (auto simp: be_val_Cons word_less_nat_alt)
  qed
qed simp

lemma be_put_less_iff:
  fixes u v :: "'a::len word"
  assumes "LENGTH('a) = 8 * k"
  shows "be_put k u < be_put k v \<longleftrightarrow> u < v"
proof -
  have "2 ^ LENGTH('a) = (256 :: nat) ^ k"
    using assms by (simp add: power_mult)
  then have "unat u < 256 ^ k" "unat v < 256 ^ k"
    using unat_less [of u] unat_less [of v] by (simp_all del: unat_less unsigned_less)
  then show ?thesis
    by (simp add: be_val_less_iff be_val_be_put word_less_nat_alt)
qed

section \<open>Length of a varint\<close>

lemma length_PutUvarint_le: "unat x < 2 ^ (7 * Suc n) \<Longrightarrow> length (PutUvarint x) \<le> Suc n"
proof (induction n arbitrary: x)
  case 0
  then show ?case by (subst PutUvarint.simps) (simp add: word_le_nat_alt)
next
  case (Suc n)
  have "unat (drop_bit 7 x) < 2 ^ (7 * Suc n)"
    using Suc.prems by (simp add: less_mult_imp_div_less power_add)
  from Suc.IH [OF this] show ?case by (subst PutUvarint.simps) simp
qed

lemma length_PutUvarint: "length (PutUvarint x) \<le> 10"
proof -
  have "unat x < 2 ^ 64" using unat_less [of x] by simp
  then show ?thesis using length_PutUvarint_le [of x 9] by simp
qed

lemma PutUvarint_not_Nil: "PutUvarint x \<noteq> []"
  by (subst PutUvarint.simps) simp

section \<open>What every operation appends\<close>

lemma buf_Write_buf [simp]: "writer_buf (buf_Write bs w) = writer_buf w @ bs"
  by (simp add: buf_Write_def)

lemma writer_buf_Bool [writer_append]:
  "writer_buf (Writer_Bool b w) = writer_buf w @ [if b then 1 else 0]"
  by (simp add: Writer_Bool_def)

lemmas writer_buf_ints [writer_append] =
  Writer_Uint8_def Writer_Uint16_def Writer_Uint32_def Writer_Uint64_def Writer_Byte_def
  Writer_Int8_def Writer_Int16_def Writer_Int32_def Writer_Int64_def

lemmas writer_buf_var [writer_append] =
  Writer_Float32_def Writer_Float64_def Writer_VariableInt_def Writer_VariableUint_def
  Writer_String_def Writer_Id_def

end
