(* ===== verification/Byte_Reader.thy ===== *)
theory Byte_Reader
  imports Byte_Writer
begin

text \<open>
  The deserializer of \<open>src/utils/reader.go\<close>. A \<open>Reader\<close> is the slice it reads and an unsigned 64 bit
  offset that moves forward and can wrap around. \<open>reader_spare\<close> holds the bytes between the length and
  the capacity of the slice: a Go slice expression with two bounds may reach into them, an index or
  a slice expression that ends at the length may not. Every operation returns the value with the
  moved reader, or \<open>None\<close> where the source panics on a bound.
\<close>

unbundle bit_operations_syntax

section \<open>Indexing and slicing\<close>

definition go_index :: "byte list \<Rightarrow> uint64 \<Rightarrow> byte option" where
  "go_index buf i = (if unat i < length buf then Some (buf ! unat i) else None)"

definition go_slice_from :: "byte list \<Rightarrow> uint64 \<Rightarrow> byte list option" where
  "go_slice_from buf lo = (if unat lo \<le> length buf then Some (drop (unat lo) buf) else None)"

definition go_slice :: "byte list \<Rightarrow> byte list \<Rightarrow> uint64 \<Rightarrow> uint64 \<Rightarrow> byte list option" where
  "go_slice buf spare lo hi =
     (if unat lo \<le> unat hi \<and> unat hi \<le> length buf + length spare
      then Some (take (unat hi - unat lo) (drop (unat lo) (buf @ spare))) else None)"

text \<open>\<open>binary.BigEndian.Uint16\<close> and its kin, which panic on a slice that is too short.\<close>

definition be_get :: "nat \<Rightarrow> byte list \<Rightarrow> 'a::len word option" where
  "be_get k bs = (if length bs < k then None else Some (of_nat (be_val (take k bs))))"

section \<open>The reader\<close>

record reader =
  reader_buf :: "byte list"
  reader_spare :: "byte list"
  reader_offset :: uint64

type_synonym 'a rd = "reader \<Rightarrow> ('a \<times> reader) option"

definition NewReader :: "byte list \<Rightarrow> byte list \<Rightarrow> reader" where
  "NewReader data spare = \<lparr>reader_buf = data, reader_spare = spare, reader_offset = 0\<rparr>"

definition advance :: "uint64 \<Rightarrow> reader \<Rightarrow> reader" where
  "advance n r = r\<lparr>reader_offset := reader_offset r + n\<rparr>"

definition Reader_Bool :: "bool rd" where
  "Reader_Bool r = do {
     let r = advance 1 r;
     b \<leftarrow> go_index (reader_buf r) (reader_offset r - 1);
     Some (if b = 1 then True else False, r)
   }"

definition Reader_Uint8 :: "byte rd" where
  "Reader_Uint8 r = do {
     let r = advance 1 r;
     b \<leftarrow> go_index (reader_buf r) (reader_offset r - 1);
     Some (b, r)
   }"

definition Reader_Uint16 :: "uint16 rd" where
  "Reader_Uint16 r = do {
     let r = advance 2 r;
     bs \<leftarrow> go_slice_from (reader_buf r) (reader_offset r - 2);
     v \<leftarrow> be_get 2 bs;
     Some (v, r)
   }"

definition Reader_Uint32 :: "uint32 rd" where
  "Reader_Uint32 r = do {
     let r = advance 4 r;
     bs \<leftarrow> go_slice_from (reader_buf r) (reader_offset r - 4);
     v \<leftarrow> be_get 4 bs;
     Some (v, r)
   }"

definition Reader_Uint64 :: "uint64 rd" where
  "Reader_Uint64 r = do {
     let r = advance 8 r;
     bs \<leftarrow> go_slice_from (reader_buf r) (reader_offset r - 8);
     v \<leftarrow> be_get 8 bs;
     Some (v, r)
   }"

definition Reader_Int8 :: "byte rd" where
  "Reader_Int8 r = do { (u, r) \<leftarrow> Reader_Uint8 r; Some (u - push_bit 7 1, r) }"

definition Reader_Int16 :: "uint16 rd" where
  "Reader_Int16 r = do { (u, r) \<leftarrow> Reader_Uint16 r; Some (u - push_bit 15 1, r) }"

definition Reader_Int32 :: "uint32 rd" where
  "Reader_Int32 r = do { (u, r) \<leftarrow> Reader_Uint32 r; Some (u - push_bit 31 1, r) }"

definition Reader_Int64 :: "uint64 rd" where
  "Reader_Int64 r = do { (u, r) \<leftarrow> Reader_Uint64 r; Some (u - push_bit 63 1, r) }"

definition Reader_Byte :: "byte rd" where
  "Reader_Byte r = Reader_Uint8 r"

definition Reader_Float32 :: "uint32 rd" where
  "Reader_Float32 r = do {
     (uval, r) \<leftarrow> Reader_Uint32 r;
     let uval = uval XOR 0x80000000;
     let uval = uval XOR (signed_drop_bit 31 uval AND 0x7FFFFFFF);
     Some (uval, r)
   }"

definition Reader_Float64 :: "uint64 rd" where
  "Reader_Float64 r = do {
     (uval, r) \<leftarrow> Reader_Uint64 r;
     let uval = uval XOR 0x8000000000000000;
     let uval = uval XOR (signed_drop_bit 63 uval AND 0x7FFFFFFFFFFFFFFF);
     Some (uval, r)
   }"

text \<open>The unrolled varint decoder.\<close>

definition Reader_VariableUint :: "uint64 rd" where
  "Reader_VariableUint r = do {
     b \<leftarrow> map_option ucast (go_index (reader_buf r) (reader_offset r));
     if b < 0x80 then Some (b, advance 1 r) else do {
     let x = b AND 0x7f;
     b \<leftarrow> map_option ucast (go_index (reader_buf r) (reader_offset r + 1));
     if b < 0x80 then Some (x OR push_bit 7 b, advance 2 r) else do {
     let x = x OR push_bit 7 (b AND 0x7f);
     b \<leftarrow> map_option ucast (go_index (reader_buf r) (reader_offset r + 2));
     if b < 0x80 then Some (x OR push_bit 14 b, advance 3 r) else do {
     let x = x OR push_bit 14 (b AND 0x7f);
     b \<leftarrow> map_option ucast (go_index (reader_buf r) (reader_offset r + 3));
     if b < 0x80 then Some (x OR push_bit 21 b, advance 4 r) else do {
     let x = x OR push_bit 21 (b AND 0x7f);
     b \<leftarrow> map_option ucast (go_index (reader_buf r) (reader_offset r + 4));
     if b < 0x80 then Some (x OR push_bit 28 b, advance 5 r) else do {
     let x = x OR push_bit 28 (b AND 0x7f);
     b \<leftarrow> map_option ucast (go_index (reader_buf r) (reader_offset r + 5));
     if b < 0x80 then Some (x OR push_bit 35 b, advance 6 r) else do {
     let x = x OR push_bit 35 (b AND 0x7f);
     b \<leftarrow> map_option ucast (go_index (reader_buf r) (reader_offset r + 6));
     if b < 0x80 then Some (x OR push_bit 42 b, advance 7 r) else do {
     let x = x OR push_bit 42 (b AND 0x7f);
     b \<leftarrow> map_option ucast (go_index (reader_buf r) (reader_offset r + 7));
     if b < 0x80 then Some (x OR push_bit 49 b, advance 8 r) else do {
     let x = x OR push_bit 49 (b AND 0x7f);
     b \<leftarrow> map_option ucast (go_index (reader_buf r) (reader_offset r + 8));
     if b < 0x80 then Some (x OR push_bit 56 b, advance 9 r) else do {
     let x = x OR push_bit 56 (b AND 0x7f);
     b \<leftarrow> map_option ucast (go_index (reader_buf r) (reader_offset r + 9));
     if b < 0x80 then Some (x OR push_bit 63 b, advance 10 r) else do {
     Some (0xffffffffffffffff, advance 10 r)
     }}}}}}}}}}}"

definition Reader_VariableInt :: "uint64 rd" where
  "Reader_VariableInt r = do {
     (uval, r) \<leftarrow> Reader_VariableUint r;
     let val = drop_bit 1 uval;
     Some (if uval AND 1 \<noteq> 0 then NOT val else val, r)
   }"

definition Reader_String :: "gostring rd" where
  "Reader_String r = do {
     (len, r) \<leftarrow> Reader_VariableUint r;
     let r = advance len r;
     s \<leftarrow> go_slice (reader_buf r) (reader_spare r) (reader_offset r - len) (reader_offset r);
     Some (s, r)
   }"

definition Reader_Id :: "gostring rd" where
  "Reader_Id r = Reader_String r"

text \<open>The loop that fills a slice of \<open>count\<close> elements.\<close>

fun read_n :: "'a rd \<Rightarrow> nat \<Rightarrow> 'a list rd" where
  "read_n rd 0 r = Some ([], r)"
| "read_n rd (Suc n) r = do { (v, r) \<leftarrow> rd r; (vs, r) \<leftarrow> read_n rd n r; Some (v # vs, r) }"

definition Reader_BoolSlice :: "bool list rd" where
  "Reader_BoolSlice r = do { (count, r) \<leftarrow> Reader_VariableUint r; read_n Reader_Bool (unat count) r }"

definition Reader_Int8Slice :: "byte list rd" where
  "Reader_Int8Slice r = do { (count, r) \<leftarrow> Reader_VariableUint r; read_n Reader_Int8 (unat count) r }"

definition Reader_Int16Slice :: "uint16 list rd" where
  "Reader_Int16Slice r = do { (count, r) \<leftarrow> Reader_VariableUint r; read_n Reader_Int16 (unat count) r }"

definition Reader_Int32Slice :: "uint32 list rd" where
  "Reader_Int32Slice r = do { (count, r) \<leftarrow> Reader_VariableUint r; read_n Reader_Int32 (unat count) r }"

definition Reader_Int64Slice :: "uint64 list rd" where
  "Reader_Int64Slice r = do { (count, r) \<leftarrow> Reader_VariableUint r; read_n Reader_Int64 (unat count) r }"

definition Reader_Uint8Slice :: "byte list rd" where
  "Reader_Uint8Slice r = do {
     (count, r) \<leftarrow> Reader_VariableUint r;
     vals \<leftarrow> go_slice (reader_buf r) (reader_spare r) (reader_offset r) (reader_offset r + count);
     Some (vals, advance count r)
   }"

definition Reader_Uint16Slice :: "uint16 list rd" where
  "Reader_Uint16Slice r = do { (count, r) \<leftarrow> Reader_VariableUint r; read_n Reader_Uint16 (unat count) r }"

definition Reader_Uint32Slice :: "uint32 list rd" where
  "Reader_Uint32Slice r = do { (count, r) \<leftarrow> Reader_VariableUint r; read_n Reader_Uint32 (unat count) r }"

definition Reader_Uint64Slice :: "uint64 list rd" where
  "Reader_Uint64Slice r = do { (count, r) \<leftarrow> Reader_VariableUint r; read_n Reader_Uint64 (unat count) r }"

definition Reader_ByteSlice :: "byte list rd" where
  "Reader_ByteSlice r = Reader_Uint8Slice r"

definition Reader_Float32Slice :: "uint32 list rd" where
  "Reader_Float32Slice r = do { (count, r) \<leftarrow> Reader_VariableUint r; read_n Reader_Float32 (unat count) r }"

definition Reader_Float64Slice :: "uint64 list rd" where
  "Reader_Float64Slice r = do { (count, r) \<leftarrow> Reader_VariableUint r; read_n Reader_Float64 (unat count) r }"

definition Reader_VariableIntSlice :: "uint64 list rd" where
  "Reader_VariableIntSlice r = do { (count, r) \<leftarrow> Reader_VariableUint r; read_n Reader_VariableInt (unat count) r }"

definition Reader_VariableUintSlice :: "uint64 list rd" where
  "Reader_VariableUintSlice r = do { (count, r) \<leftarrow> Reader_VariableUint r; read_n Reader_VariableUint (unat count) r }"

definition Reader_StringSlice :: "gostring list rd" where
  "Reader_StringSlice r = do { (count, r) \<leftarrow> Reader_VariableUint r; read_n Reader_String (unat count) r }"

definition Reader_IdSlice :: "gostring list rd" where
  "Reader_IdSlice r = do { (count, r) \<leftarrow> Reader_VariableUint r; read_n Reader_Id (unat count) r }"

definition Reader_IdTypeSlice :: "gostring list rd" where
  "Reader_IdTypeSlice r = do { (count, r) \<leftarrow> Reader_VariableUint r; read_n (\<lambda>r. Reader_Id r) (unat count) r }"

fun read_map_n :: "nat \<Rightarrow> (gostring, gostring) gomap \<Rightarrow> (gostring, gostring) gomap rd" where
  "read_map_n 0 vals r = Some (vals, r)"
| "read_map_n (Suc n) vals r = do {
     (key, r) \<leftarrow> Reader_String r;
     (v, r) \<leftarrow> Reader_String r;
     read_map_n n (gm_set key v vals) r
   }"

definition Reader_StringMap :: "(gostring, gostring) gomap rd" where
  "Reader_StringMap r = do { (count, r) \<leftarrow> Reader_VariableUint r; read_map_n (unat count) [] r }"

definition Reader_IsEmpty :: "reader \<Rightarrow> bool" where
  "Reader_IsEmpty r \<longleftrightarrow> reader_offset r \<ge> of_nat (length (reader_buf r))"

definition Reader_RemainingBytes :: "reader \<Rightarrow> uint64" where
  "Reader_RemainingBytes r =
     (if Reader_IsEmpty r then 0 else of_nat (length (reader_buf r)) - reader_offset r)"

definition Reader_BytesRead :: "reader \<Rightarrow> uint64" where
  "Reader_BytesRead r = reader_offset r"

text \<open>The branchless limit of \<open>AdvanceReader\<close>, and the whole function.\<close>

definition advance_limit :: "uint64 \<Rightarrow> uint64 \<Rightarrow> uint64" where
  "advance_limit maxN n =
     (let delta = n - maxN;
          mask = signed_drop_bit 63 delta XOR signed_drop_bit 63 (n AND 0x8000000000000000)
      in (n AND mask) OR (maxN AND NOT mask))"

definition AdvanceReader :: "uint64 \<Rightarrow> byte list rd" where
  "AdvanceReader n r = do {
     let maxN = of_nat (length (reader_buf r)) - reader_offset r;
     let n = advance_limit maxN n;
     let r = advance n r;
     bs \<leftarrow> go_slice (reader_buf r) (reader_spare r) (reader_offset r - n) (reader_offset r);
     Some (bs, r)
   }"

end
