(* ===== verification/Codec.thy ===== *)
theory Codec
  imports Byte_Reader
begin

text \<open>
  The contract between \<open>Writer\<close> and \<open>Reader\<close>. \<open>reads rd bs x\<close> says that the operation \<open>rd\<close>, started
  anywhere in a buffer that continues with \<open>bs\<close>, returns \<open>x\<close> and stops right behind \<open>bs\<close>. The locale
  \<open>codec\<close> pairs a writing operation with a reading one under that contract, and proves once that the
  loops for slices keep it; every pair of operations of the two components is an interpretation.
\<close>

unbundle bit_operations_syntax

section \<open>Reading what was written\<close>

definition reader_at :: "byte list \<Rightarrow> byte list \<Rightarrow> byte list \<Rightarrow> reader" where
  "reader_at pre post spare =
     \<lparr>reader_buf = pre @ post, reader_spare = spare, reader_offset = of_nat (length pre)\<rparr>"

definition reads :: "'a rd \<Rightarrow> byte list \<Rightarrow> 'a \<Rightarrow> bool" where
  "reads rd bs x \<longleftrightarrow> (\<forall>pre post spare. length pre + length bs + length post < 2 ^ 63 \<longrightarrow>
     rd (reader_at pre (bs @ post) spare) = Some (x, reader_at (pre @ bs) post spare))"

lemma readsD:
  "reads rd bs x \<Longrightarrow> length pre + length bs + length post < 2 ^ 63 \<Longrightarrow>
   rd (reader_at pre (bs @ post) spare) = Some (x, reader_at (pre @ bs) post spare)"
  by (simp add: reads_def)

lemma NewReader_at: "NewReader data spare = reader_at [] data spare"
  by (simp add: NewReader_def reader_at_def)

lemma reads_return [reads_intros]: "reads (\<lambda>r. Some (x, r)) [] x"
  by (simp add: reads_def)

lemma reads_bind [reads_intros]:
  assumes "reads rd bs x" and "reads (k x) cs y"
  shows "reads (\<lambda>r. Option.bind (rd r) (\<lambda>(x, r). k x r)) (bs @ cs) y"
proof -
  have "rd (reader_at pre (bs @ cs @ post) spare) = Some (x, reader_at (pre @ bs) (cs @ post) spare)"
    if "length pre + length bs + length cs + length post < 2 ^ 63" for pre post spare
    using readsD [OF assms(1), of pre "cs @ post" spare] that by simp
  moreover have "k x (reader_at (pre @ bs) (cs @ post) spare) = Some (y, reader_at (pre @ bs @ cs) post spare)"
    if "length pre + length bs + length cs + length post < 2 ^ 63" for pre post spare
    using readsD [OF assms(2), of "pre @ bs" post spare] that by simp
  ultimately show ?thesis by (simp add: reads_def add.assoc)
qed

lemma reads_map:
  assumes "reads rd bs x" and "y = f x"
  shows "reads (\<lambda>r. Option.bind (rd r) (\<lambda>(x, r). Some (f x, r))) bs y"
  using reads_bind [OF assms(1), where k = "\<lambda>x r. Some (f x, r)" and cs = "[]"]
    reads_return [of "f x"] assms(2) by simp

lemma reads_bound: "reads rd bs x \<Longrightarrow> reads rd bs y \<Longrightarrow> length bs < 2 ^ 63 \<Longrightarrow> x = y"
  using readsD [of rd bs x "[]" "[]" "[]"] readsD [of rd bs y "[]" "[]" "[]"] by simp

lemma unat_of_len: "n < 2 ^ 63 \<Longrightarrow> unat (of_nat n :: uint64) = n"
  by (simp add: unsigned_of_nat take_bit_eq_mod)

text \<open>A whole buffer: the reader ends empty, having read all of it.\<close>

lemma reads_whole:
  assumes "reads rd bs x" and "length bs < 2 ^ 63"
  shows "rd (NewReader bs spare) = Some (x, reader_at bs [] spare)"
    and "Reader_IsEmpty (reader_at bs [] spare)"
  using readsD [OF assms(1), of "[]" "[]" spare] assms(2)
  by (simp_all add: NewReader_at Reader_IsEmpty_def reader_at_def)

section \<open>The contract as a locale\<close>

locale codec =
  fixes wr :: "'a \<Rightarrow> writer \<Rightarrow> writer"
    and rd :: "'a rd"
    and enc :: "'a \<Rightarrow> byte list"
    and ok :: "'a \<Rightarrow> bool"
  assumes wr_enc: "writer_buf (wr x w) = writer_buf w @ enc x"
    and rd_enc: "ok x \<Longrightarrow> reads rd (enc x) x"
    and enc_nonempty: "ok x \<Longrightarrow> enc x \<noteq> []"
begin

lemma write_each_enc: "writer_buf (write_each wr xs w) = writer_buf w @ concat (map enc xs)"
  by (induction xs arbitrary: w) (simp_all add: wr_enc)

lemma read_n_enc:
  "\<forall>x \<in> set xs. ok x \<Longrightarrow> reads (read_n rd (length xs)) (concat (map enc xs)) xs"
proof (induction xs)
  case Nil
  show ?case by (simp add: reads_def)
next
  case (Cons x xs)
  have tail: "reads (\<lambda>r. Option.bind (read_n rd (length xs) r) (\<lambda>(vs, r). Some (x # vs, r)))
      (concat (map enc xs)) (x # xs)"
    using Cons by (intro reads_map) auto
  have "reads (\<lambda>r. Option.bind (rd r) (\<lambda>(v, r).
      Option.bind (read_n rd (length xs) r) (\<lambda>(vs, r). Some (v # vs, r))))
      (enc x @ concat (map enc xs)) (x # xs)"
    using Cons.prems by (intro reads_bind [where x = x] rd_enc tail) simp
  then show ?case by simp
qed

lemma length_enc_le: "\<forall>x \<in> set xs. ok x \<Longrightarrow> length xs \<le> length (concat (map enc xs))"
proof (induction xs)
  case (Cons x xs)
  from Cons.prems have "0 < length (enc x)" using enc_nonempty by simp
  moreover from Cons have "length xs \<le> length (concat (map enc xs))" by simp
  ultimately show ?case unfolding concat.simps list.map length_append list.size by linarith
qed simp

lemma codec_round_trip:
  assumes "ok x" and "length (enc x) < 2 ^ 63"
  shows "\<exists>r. rd (NewReader (Writer_Data (wr x (NewWriter c))) spare) = Some (x, r) \<and> Reader_IsEmpty r"
  using reads_whole [OF rd_enc [OF assms(1)] assms(2), of spare]
  by (simp add: Writer_Data_def wr_enc NewWriter_def)

end

section \<open>Fixed-width values\<close>

lemma reads_index:
  assumes "\<And>r. rd r = (let r = advance 1 r in
    Option.bind (go_index (reader_buf r) (reader_offset r - 1)) (\<lambda>b. Some (f b, r)))"
  shows "reads rd [b] (f b)"
  unfolding reads_def assms
  by (auto simp: reader_at_def advance_def go_index_def Let_def unat_of_len nth_append)

lemma reads_be:
  assumes "\<And>r. rd r = (let r = advance (of_nat k) r in
    Option.bind (go_slice_from (reader_buf r) (reader_offset r - of_nat k)) (\<lambda>bs.
    Option.bind (be_get k bs) (\<lambda>v. Some (v, r))))"
    and "length bs = k"
  shows "reads rd bs (of_nat (be_val bs) :: 'a::len word)"
  unfolding reads_def assms(1) using assms(2)
  by (auto simp: reader_at_def advance_def go_slice_from_def be_get_def Let_def unat_of_len)

lemma of_nat_be_val_be_put:
  assumes "LENGTH('a) = 8 * k"
  shows "of_nat (be_val (be_put k v)) = (v :: 'a::len word)"
proof -
  have "2 ^ LENGTH('a) = (256 :: nat) ^ k"
    using assms by (simp add: power_mult)
  then have "unat v < 256 ^ k"
    using unat_less [of v] by (simp del: unat_less unsigned_less)
  then show ?thesis by (simp add: be_val_be_put)
qed

section \<open>Varints\<close>

text \<open>The bytes of a varint.\<close>

lemma bit_128: "bit (0x80 :: 'a::len word) n \<longleftrightarrow> n = 7 \<and> 7 < LENGTH('a)"
  using bit_exp_iff [where m = 7 and n = n and 'a = "'a word"] by (auto simp: possible_bit_def)

lemma varint_byte_low:
  fixes x :: uint64
  shows "(ucast (ucast x OR 0x80 :: byte) :: uint64) AND 0x7f = take_bit 7 x"
proof -
  define b where "b = (ucast x OR 0x80 :: byte)"
  have low: "bit b n \<longleftrightarrow> bit x n" if "n < 7" for n
    unfolding b_def bit_or_iff bit_ucast_iff bit_128 using that by simp
  have "(ucast b :: uint64) AND mask 7 = take_bit 7 x"
    by (rule bit_word_eqI) (auto simp: bit_simps low)
  then show ?thesis by (simp add: b_def mask_eq_exp_minus_1)
qed

lemma varint_byte_high:
  fixes x :: uint64
  shows "\<not> (ucast (ucast x OR 0x80 :: byte) :: uint64) < 0x80"
proof -
  have "bit (ucast (ucast x OR 0x80 :: byte) :: uint64) 7" by (simp add: bit_simps)
  from bit_imp_unat_ge [OF this] show ?thesis by (simp add: word_less_nat_alt)
qed

lemma varint_byte_last:
  fixes x :: uint64
  assumes "x < 0x80"
  shows "ucast (ucast x :: byte) = x"
proof -
  have "n < 8" if "bit x n" for n
  proof (rule ccontr)
    assume "\<not> n < 8"
    then have "(2::nat) ^ 8 \<le> 2 ^ n" by (intro power_increasing) auto
    with bit_imp_unat_ge [OF that] assms show False by (simp add: word_less_nat_alt)
  qed
  then show ?thesis by (intro bit_word_eqI) (auto simp: bit_simps)
qed

text \<open>
  The reference decoder: one byte per round. The unrolled decoder of the source computes it.
\<close>

function uvarint_loop :: "nat \<Rightarrow> uint64 \<Rightarrow> uint64 rd" where
  "uvarint_loop k x r =
     (if k \<ge> 10 then Some (0xffffffffffffffff, advance 10 r)
      else do {
        b \<leftarrow> map_option ucast (go_index (reader_buf r) (reader_offset r + of_nat k));
        if b < 0x80 then Some (x OR push_bit (7 * k) b, advance (of_nat (k + 1)) r)
        else uvarint_loop (k + 1) (x OR push_bit (7 * k) (b AND 0x7f)) r
      })"
  by pat_completeness auto
termination
  by (relation "measure (\<lambda>(k, x, r). 10 - k)") auto

declare uvarint_loop.simps [simp del]

lemmas uvarint_unroll =
  uvarint_loop.simps [of 0] uvarint_loop.simps [of 1] uvarint_loop.simps [of 2]
  uvarint_loop.simps [of 3] uvarint_loop.simps [of 4] uvarint_loop.simps [of 5]
  uvarint_loop.simps [of 6] uvarint_loop.simps [of 7] uvarint_loop.simps [of 8]
  uvarint_loop.simps [of 9] uvarint_loop.simps [of 10]

lemma Reader_VariableUint_loop: "Reader_VariableUint r = uvarint_loop 0 0 r"
  unfolding Reader_VariableUint_def
  by (simp add: uvarint_unroll Let_def del: One_nat_def cong: if_cong)


lemma uvarint_loop_PutUvarint:
  assumes "PutUvarint v = front @ PutUvarint rest" "length front = k" "rest = drop_bit (7 * k) v"
    and "length pre + length (PutUvarint v) + length post < 2 ^ 63"
  shows "uvarint_loop k (take_bit (7 * k) v) (reader_at pre (PutUvarint v @ post) spare)
     = Some (v, reader_at (pre @ PutUvarint v) post spare)"
  using assms
proof (induction rest arbitrary: k front rule: PutUvarint.induct)
  case (1 rest)
  let ?r = "reader_at pre (PutUvarint v @ post) spare"
  have "k < 10" using length_PutUvarint [of v] PutUvarint_not_Nil [of rest] 1 by (cases "PutUvarint rest") auto
  have idx: "go_index (reader_buf ?r) (reader_offset ?r + of_nat k) = Some (hd (PutUvarint rest))"
  proof -
    have "unat (of_nat (length pre) + of_nat k :: uint64) = length pre + k"
      using 1 unat_of_len [of "length pre + k"] by simp
    then show ?thesis using 1 PutUvarint_not_Nil [of rest]
      by (auto simp: reader_at_def go_index_def nth_append hd_conv_nth)
  qed
  show ?case
  proof (cases "rest \<ge> 0x80")
    case True
    then have ph: "PutUvarint rest = (ucast rest OR 0x80) # PutUvarint (drop_bit 7 rest)"
      by (subst PutUvarint.simps) simp
    have "uvarint_loop k (take_bit (7 * k) v) ?r =
        uvarint_loop (Suc k) (take_bit (7 * k) v OR push_bit (7 * k) (take_bit 7 rest)) ?r"
      using \<open>k < 10\<close> idx ph
      by (subst uvarint_loop.simps) (simp add: varint_byte_low varint_byte_high del: unsigned_or_eq)
    also have "take_bit (7 * k) v OR push_bit (7 * k) (take_bit 7 rest) = take_bit (7 * Suc k) v"
      using "1.prems"(3) by (simp add: take_or_push_take add.commute)
    also have "uvarint_loop (Suc k) (take_bit (7 * Suc k) v) ?r = Some (v, reader_at (pre @ PutUvarint v) post spare)"
      using 1 True ph by (intro "1.IH" [where front = "front @ [ucast rest OR 0x80]"]) (auto simp: add.commute)
    finally show ?thesis .
  next
    case False
    then have ph: "PutUvarint rest = [ucast rest]" by (subst PutUvarint.simps) simp
    have "take_bit (7 * k) v OR push_bit (7 * k) rest = v"
      using "1.prems"(3) by (simp add: take_or_push_drop)
    moreover have "length (PutUvarint v) = Suc k" using 1 ph by simp
    ultimately show ?thesis
      using \<open>k < 10\<close> idx ph False
      by (subst uvarint_loop.simps) (simp add: varint_byte_last reader_at_def advance_def not_le)
  qed
qed

lemma reads_VariableUint: "reads Reader_VariableUint (PutUvarint v) v"
  unfolding reads_def Reader_VariableUint_loop
  using uvarint_loop_PutUvarint [of v "[]" v 0] by simp

lemma bit_zigzag:
  "n < 64 \<Longrightarrow> bit (zigzag v) n \<longleftrightarrow> (if n = 0 then bit v 63 else bit v (n - 1) \<noteq> bit v 63)"
  unfolding zigzag_def Let_def sint_neg_iff_bit
  by (cases "bit v 63") (auto simp: bit_not_iff bit_push_bit_iff possible_bit_def simp del: push_bit_eq_mult
    push_bit_numeral_minus_1 push_bit_Suc push_bit_of_1)

lemma zigzag_undo:
  "(if zigzag v AND 1 \<noteq> 0 then NOT (drop_bit 1 (zigzag v)) else drop_bit 1 (zigzag v)) = v"
proof -
  have "zigzag v AND 1 \<noteq> 0 \<longleftrightarrow> bit v 63"
    using bit_zigzag [of 0 v] by (simp add: and_one_eq bit_0 odd_iff_mod_2_eq_one)
  moreover have "NOT (drop_bit 1 (zigzag v)) = v" if "bit v 63"
  proof (rule bit_word_eqI)
    fix n assume "n < LENGTH(64)"
    then show "bit (NOT (drop_bit 1 (zigzag v))) n \<longleftrightarrow> bit v n"
      using that bit_zigzag [of "Suc n" v] bit_imp_le_length [of "zigzag v" 64]
      by (cases "n = 63") (auto simp: bit_not_iff bit_drop_bit_eq)
  qed
  moreover have "drop_bit 1 (zigzag v) = v" if "\<not> bit v 63"
  proof (rule bit_word_eqI)
    fix n assume "n < LENGTH(64)"
    then show "bit (drop_bit 1 (zigzag v)) n \<longleftrightarrow> bit v n"
      using that bit_zigzag [of "Suc n" v] bit_imp_le_length [of "zigzag v" 64]
      by (cases "n = 63") (auto simp: bit_drop_bit_eq)
  qed
  ultimately show ?thesis by simp
qed

section \<open>Floats\<close>

text \<open>What the writer and the reader do to the bit pattern.\<close>

lemma bit_float32_sign: "bit (0x80000000 :: uint32) n \<longleftrightarrow> n = 31"
  using bit_exp_iff [where m = 31 and n = n and 'a = uint32] by (auto simp: possible_bit_def)

lemma bit_float64_sign: "bit (0x8000000000000000 :: uint64) n \<longleftrightarrow> n = 63"
  using bit_exp_iff [where m = 63 and n = n and 'a = uint64] by (auto simp: possible_bit_def)

lemma bit_float32_rest: "bit (0x7FFFFFFF :: uint32) n \<longleftrightarrow> n < 31"
  using bit_mask_iff [where m = 31 and n = n and 'a = uint32]
  by (auto simp: possible_bit_def mask_eq_exp_minus_1)

lemma bit_float64_rest: "bit (0x7FFFFFFFFFFFFFFF :: uint64) n \<longleftrightarrow> n < 63"
  using bit_mask_iff [where m = 63 and n = n and 'a = uint64]
  by (auto simp: possible_bit_def mask_eq_exp_minus_1)

definition float32_enc :: "uint32 \<Rightarrow> uint32" where
  "float32_enc u = (u XOR (signed_drop_bit 31 u AND 0x7FFFFFFF)) XOR 0x80000000"

definition float64_enc :: "uint64 \<Rightarrow> uint64" where
  "float64_enc u = (u XOR (signed_drop_bit 63 u AND 0x7FFFFFFFFFFFFFFF)) XOR 0x8000000000000000"

lemma bit_float32_enc:
  "n < 32 \<Longrightarrow> bit (float32_enc u) n \<longleftrightarrow> (if n = 31 then \<not> bit u 31 else bit u n \<noteq> bit u 31)"
  unfolding float32_enc_def bit_xor_iff bit_and_iff bit_float32_sign bit_float32_rest
    bit_signed_drop_bit_iff by (cases "n = 0") auto

lemma bit_float64_enc:
  "n < 64 \<Longrightarrow> bit (float64_enc u) n \<longleftrightarrow> (if n = 63 then \<not> bit u 63 else bit u n \<noteq> bit u 63)"
  unfolding float64_enc_def bit_xor_iff bit_and_iff bit_float64_sign bit_float64_rest
    bit_signed_drop_bit_iff by (cases "n = 0") auto

lemma float32_undo:
  "(let u = float32_enc x XOR 0x80000000 in u XOR (signed_drop_bit 31 u AND 0x7FFFFFFF)) = x"
proof (rule bit_word_eqI)
  fix n assume "n < LENGTH(32)"
  then show "bit (let u = float32_enc x XOR 0x80000000 in u XOR (signed_drop_bit 31 u AND 0x7FFFFFFF)) n
      \<longleftrightarrow> bit x n"
    unfolding Let_def bit_xor_iff bit_and_iff bit_signed_drop_bit_iff bit_float32_sign bit_float32_rest
    by (auto simp: bit_float32_enc)
qed

lemma float64_undo:
  "(let u = float64_enc x XOR 0x8000000000000000 in
      u XOR (signed_drop_bit 63 u AND 0x7FFFFFFFFFFFFFFF)) = x"
proof (rule bit_word_eqI)
  fix n assume "n < LENGTH(64)"
  then show "bit (let u = float64_enc x XOR 0x8000000000000000 in
      u XOR (signed_drop_bit 63 u AND 0x7FFFFFFFFFFFFFFF)) n \<longleftrightarrow> bit x n"
    unfolding Let_def bit_xor_iff bit_and_iff bit_signed_drop_bit_iff bit_float64_sign bit_float64_rest
    by (auto simp: bit_float64_enc)
qed

end
