(* ===== verification/Codec_Instances.thy ===== *)
theory Codec_Instances
  imports Codec
begin

text \<open>
  The contract \<open>codec\<close> discharged for every pair of operations of \<open>src/utils/writer.go\<close> and
  \<open>src/utils/reader.go\<close>: scalars, strings, ids, slices and string maps.
\<close>

unbundle bit_operations_syntax

section \<open>Slices of any element\<close>

context codec
begin

lemma slice_write:
  "writer_buf (write_each wr xs (Writer_VariableUint (of_nat (length xs)) w))
     = writer_buf w @ PutUvarint (of_nat (length xs)) @ concat (map enc xs)"
  by (simp add: write_each_enc Writer_VariableUint_def)

lemma slice_read:
  assumes "\<forall>x \<in> set xs. ok x"
  shows "reads (\<lambda>r. Option.bind (Reader_VariableUint r) (\<lambda>(count, r). read_n rd (unat count) r))
     (PutUvarint (of_nat (length xs)) @ concat (map enc xs)) xs"
proof (cases "length xs < 2 ^ 63")
  case True
  show ?thesis
    using True assms by (intro reads_bind [OF reads_VariableUint]) (simp add: unat_of_len read_n_enc)
next
  case False
  then have "\<not> length (concat (map enc xs)) < 2 ^ 63"
    using length_enc_le [OF assms] by simp
  then show ?thesis by (simp add: reads_def)
qed

lemma slice_codec:
  assumes "\<And>xs w. wslice xs w = write_each wr xs (Writer_VariableUint (of_nat (length xs)) w)"
    and "\<And>r. rslice r = Option.bind (Reader_VariableUint r) (\<lambda>(count, r). read_n rd (unat count) r)"
  shows "codec wslice rslice (\<lambda>xs. PutUvarint (of_nat (length xs)) @ concat (map enc xs))
     (\<lambda>xs. \<forall>x \<in> set xs. ok x)"
proof
  fix xs w
  show "writer_buf (wslice xs w) = writer_buf w @ PutUvarint (of_nat (length xs)) @ concat (map enc xs)"
    by (simp add: assms(1) slice_write)
  show "PutUvarint (of_nat (length xs)) @ concat (map enc xs) \<noteq> []"
    by (simp add: PutUvarint_not_Nil)
  assume "\<forall>x \<in> set xs. ok x"
  from slice_read [OF this]
  show "reads rslice (PutUvarint (of_nat (length xs)) @ concat (map enc xs)) xs"
    by (simp add: assms(2) [abs_def])
qed

end

section \<open>Scalars\<close>

lemma be_put_not_Nil: "0 < k \<Longrightarrow> be_put k v \<noteq> []"
  by (metis length_be_put list.size(3) less_irrefl)

interpretation bool_codec: codec Writer_Bool Reader_Bool "\<lambda>b. [if b then 1 else 0]" "\<lambda>_. True"
proof unfold_locales
  fix x
  show "reads Reader_Bool [if x then 1 else 0] x"
    using reads_index [of Reader_Bool "\<lambda>b. if b = 1 then True else False" "if x then 1 else 0"]
    by (simp add: Reader_Bool_def split: if_splits)
qed (simp_all add: Writer_Bool_def)

interpretation uint8_codec: codec Writer_Uint8 Reader_Uint8 "\<lambda>v. [v]" "\<lambda>_. True"
  using reads_index [of Reader_Uint8 "\<lambda>b. b"]
  by unfold_locales (simp_all add: Writer_Uint8_def Reader_Uint8_def)

interpretation byte_codec: codec Writer_Byte Reader_Byte "\<lambda>v. [v]" "\<lambda>_. True"
  using uint8_codec.rd_enc
  by unfold_locales (simp_all add: Writer_Byte_def Reader_Byte_def [abs_def])

interpretation uint16_codec: codec Writer_Uint16 Reader_Uint16 "be_put 2" "\<lambda>_. True"
  using reads_be [of Reader_Uint16 2 "be_put 2 (_ :: uint16)", OF _ length_be_put]
  by unfold_locales
    (simp_all add: Writer_Uint16_def Reader_Uint16_def of_nat_be_val_be_put be_put_not_Nil)

interpretation uint32_codec: codec Writer_Uint32 Reader_Uint32 "be_put 4" "\<lambda>_. True"
  using reads_be [of Reader_Uint32 4 "be_put 4 (_ :: uint32)", OF _ length_be_put]
  by unfold_locales
    (simp_all add: Writer_Uint32_def Reader_Uint32_def of_nat_be_val_be_put be_put_not_Nil)

interpretation uint64_codec: codec Writer_Uint64 Reader_Uint64 "be_put 8" "\<lambda>_. True"
  using reads_be [of Reader_Uint64 8 "be_put 8 (_ :: uint64)", OF _ length_be_put]
  by unfold_locales
    (simp_all add: Writer_Uint64_def Reader_Uint64_def of_nat_be_val_be_put be_put_not_Nil)

interpretation int8_codec: codec Writer_Int8 Reader_Int8 "\<lambda>v. [v + push_bit 7 1]" "\<lambda>_. True"
proof unfold_locales
  fix x
  show "reads Reader_Int8 ([x + push_bit 7 1]) x"
    unfolding Reader_Int8_def [abs_def]
    by (rule reads_map [OF uint8_codec.rd_enc]) simp_all
qed (simp_all add: Writer_Int8_def uint8_codec.wr_enc be_put_not_Nil)

interpretation int16_codec: codec Writer_Int16 Reader_Int16 "\<lambda>v. be_put 2 (v + push_bit 15 1)" "\<lambda>_. True"
proof unfold_locales
  fix x
  show "reads Reader_Int16 (be_put 2 (x + push_bit 15 1)) x"
    unfolding Reader_Int16_def [abs_def]
    by (rule reads_map [OF uint16_codec.rd_enc]) simp_all
qed (simp_all add: Writer_Int16_def uint16_codec.wr_enc be_put_not_Nil)

interpretation int32_codec: codec Writer_Int32 Reader_Int32 "\<lambda>v. be_put 4 (v + push_bit 31 1)" "\<lambda>_. True"
proof unfold_locales
  fix x
  show "reads Reader_Int32 (be_put 4 (x + push_bit 31 1)) x"
    unfolding Reader_Int32_def [abs_def]
    by (rule reads_map [OF uint32_codec.rd_enc]) simp_all
qed (simp_all add: Writer_Int32_def uint32_codec.wr_enc be_put_not_Nil)

interpretation int64_codec: codec Writer_Int64 Reader_Int64 "\<lambda>v. be_put 8 (v + push_bit 63 1)" "\<lambda>_. True"
proof unfold_locales
  fix x
  show "reads Reader_Int64 (be_put 8 (x + push_bit 63 1)) x"
    unfolding Reader_Int64_def [abs_def]
    by (rule reads_map [OF uint64_codec.rd_enc]) simp_all
qed (simp_all add: Writer_Int64_def uint64_codec.wr_enc be_put_not_Nil)

interpretation float32_codec: codec Writer_Float32 Reader_Float32 "\<lambda>u. be_put 4 (float32_enc u)" "\<lambda>_. True"
proof unfold_locales
  fix x
  show "reads Reader_Float32 (be_put 4 (float32_enc x)) x"
    unfolding Reader_Float32_def [abs_def] Let_def
    by (rule reads_map [OF uint32_codec.rd_enc]) (simp_all only: float32_undo [unfolded Let_def])
qed (simp_all add: Writer_Float32_def uint32_codec.wr_enc float32_enc_def Let_def be_put_not_Nil)

interpretation float64_codec: codec Writer_Float64 Reader_Float64 "\<lambda>u. be_put 8 (float64_enc u)" "\<lambda>_. True"
proof unfold_locales
  fix x
  show "reads Reader_Float64 (be_put 8 (float64_enc x)) x"
    unfolding Reader_Float64_def [abs_def] Let_def
    by (rule reads_map [OF uint64_codec.rd_enc]) (simp_all only: float64_undo [unfolded Let_def])
qed (simp_all add: Writer_Float64_def uint64_codec.wr_enc float64_enc_def Let_def be_put_not_Nil)

interpretation variable_uint_codec: codec Writer_VariableUint Reader_VariableUint PutUvarint "\<lambda>_. True"
  by unfold_locales (simp_all add: Writer_VariableUint_def reads_VariableUint PutUvarint_not_Nil)

interpretation variable_int_codec: codec Writer_VariableInt Reader_VariableInt PutVarint "\<lambda>_. True"
proof unfold_locales
  fix x
  show "reads Reader_VariableInt (PutVarint x) x"
    unfolding Reader_VariableInt_def [abs_def] Let_def PutVarint_def
    by (rule reads_map [OF reads_VariableUint]) (simp only: zigzag_undo)
qed (simp_all add: Writer_VariableInt_def PutVarint_def PutUvarint_not_Nil)

section \<open>Strings and ids\<close>

text \<open>A run of bytes behind its length, which \<open>String\<close> and \<open>Uint8Slice\<close> share.\<close>

definition string_enc :: "byte list \<Rightarrow> byte list" where
  "string_enc s = PutUvarint (of_nat (length s)) @ s"

lemma go_slice_at:
  assumes "length pre + length s + length post < 2 ^ 63"
  shows "go_slice (pre @ s @ post) spare (of_nat (length pre)) (of_nat (length pre + length s)) = Some s"
proof -
  have "unat (of_nat (length pre + length s) :: uint64) = length pre + length s"
    "unat (of_nat (length pre) :: uint64) = length pre"
    using assms unat_of_len [of "length pre + length s"] unat_of_len [of "length pre"] by simp_all
  then show ?thesis unfolding go_slice_def by simp
qed

lemma reads_string:
  assumes "\<And>s pre post spare. length pre + length s + length post < 2 ^ 63 \<Longrightarrow>
     k (of_nat (length s)) (reader_at pre (s @ post) spare) = Some (s, reader_at (pre @ s) post spare)"
  shows "reads (\<lambda>r. Option.bind (Reader_VariableUint r) (\<lambda>(len, r). k len r)) (string_enc s) s"
  unfolding string_enc_def
  by (rule reads_bind [OF reads_VariableUint]) (simp add: reads_def assms)

interpretation string_codec: codec Writer_String Reader_String string_enc "\<lambda>_. True"
proof unfold_locales
  fix x
  show "reads Reader_String (string_enc x) x"
    unfolding Reader_String_def [abs_def] Let_def
    by (rule reads_string) (simp add: reader_at_def advance_def go_slice_at [unfolded of_nat_add])
qed (simp_all add: Writer_String_def variable_uint_codec.wr_enc string_enc_def PutUvarint_not_Nil)

interpretation id_codec: codec Writer_Id Reader_Id string_enc "\<lambda>_. True"
  using string_codec.rd_enc string_codec.wr_enc string_codec.enc_nonempty
  by unfold_locales (simp_all add: Writer_Id_def Reader_Id_def [abs_def])

interpretation uint8_slice_codec: codec Writer_Uint8Slice Reader_Uint8Slice string_enc "\<lambda>_. True"
proof unfold_locales
  fix x
  show "reads Reader_Uint8Slice (string_enc x) x"
    unfolding Reader_Uint8Slice_def [abs_def]
    by (rule reads_string) (simp add: reader_at_def advance_def go_slice_at [unfolded of_nat_add])
qed (simp_all add: Writer_Uint8Slice_def variable_uint_codec.wr_enc string_enc_def PutUvarint_not_Nil)

interpretation byte_slice_codec: codec Writer_ByteSlice Reader_ByteSlice string_enc "\<lambda>_. True"
  using uint8_slice_codec.rd_enc uint8_slice_codec.wr_enc uint8_slice_codec.enc_nonempty
  by unfold_locales (simp_all add: Writer_ByteSlice_def Reader_ByteSlice_def [abs_def])

section \<open>Slices\<close>

abbreviation slice_enc :: "('a \<Rightarrow> byte list) \<Rightarrow> 'a list \<Rightarrow> byte list" where
  "slice_enc enc xs \<equiv> PutUvarint (of_nat (length xs)) @ concat (map enc xs)"

interpretation bool_slice_codec: codec Writer_BoolSlice Reader_BoolSlice
  "slice_enc (\<lambda>b. [if b then 1 else 0])" "\<lambda>xs. \<forall>x \<in> set xs. True"
  by (rule bool_codec.slice_codec) (simp_all add: Writer_BoolSlice_def Reader_BoolSlice_def)

interpretation int8_slice_codec: codec Writer_Int8Slice Reader_Int8Slice
  "slice_enc (\<lambda>v. [v + push_bit 7 1])" "\<lambda>xs. \<forall>x \<in> set xs. True"
  by (rule int8_codec.slice_codec) (simp_all add: Writer_Int8Slice_def Reader_Int8Slice_def)

interpretation int16_slice_codec: codec Writer_Int16Slice Reader_Int16Slice
  "slice_enc (\<lambda>v. be_put 2 (v + push_bit 15 1))" "\<lambda>xs. \<forall>x \<in> set xs. True"
  by (rule int16_codec.slice_codec) (simp_all add: Writer_Int16Slice_def Reader_Int16Slice_def)

interpretation int32_slice_codec: codec Writer_Int32Slice Reader_Int32Slice
  "slice_enc (\<lambda>v. be_put 4 (v + push_bit 31 1))" "\<lambda>xs. \<forall>x \<in> set xs. True"
  by (rule int32_codec.slice_codec) (simp_all add: Writer_Int32Slice_def Reader_Int32Slice_def)

interpretation int64_slice_codec: codec Writer_Int64Slice Reader_Int64Slice
  "slice_enc (\<lambda>v. be_put 8 (v + push_bit 63 1))" "\<lambda>xs. \<forall>x \<in> set xs. True"
  by (rule int64_codec.slice_codec) (simp_all add: Writer_Int64Slice_def Reader_Int64Slice_def)

interpretation uint16_slice_codec: codec Writer_Uint16Slice Reader_Uint16Slice
  "slice_enc (be_put 2)" "\<lambda>xs. \<forall>x \<in> set xs. True"
  by (rule uint16_codec.slice_codec) (simp_all add: Writer_Uint16Slice_def Reader_Uint16Slice_def)

interpretation uint32_slice_codec: codec Writer_Uint32Slice Reader_Uint32Slice
  "slice_enc (be_put 4)" "\<lambda>xs. \<forall>x \<in> set xs. True"
  by (rule uint32_codec.slice_codec) (simp_all add: Writer_Uint32Slice_def Reader_Uint32Slice_def)

interpretation uint64_slice_codec: codec Writer_Uint64Slice Reader_Uint64Slice
  "slice_enc (be_put 8)" "\<lambda>xs. \<forall>x \<in> set xs. True"
  by (rule uint64_codec.slice_codec) (simp_all add: Writer_Uint64Slice_def Reader_Uint64Slice_def)

interpretation float32_slice_codec: codec Writer_Float32Slice Reader_Float32Slice
  "slice_enc (\<lambda>u. be_put 4 (float32_enc u))" "\<lambda>xs. \<forall>x \<in> set xs. True"
  by (rule float32_codec.slice_codec) (simp_all add: Writer_Float32Slice_def Reader_Float32Slice_def)

interpretation float64_slice_codec: codec Writer_Float64Slice Reader_Float64Slice
  "slice_enc (\<lambda>u. be_put 8 (float64_enc u))" "\<lambda>xs. \<forall>x \<in> set xs. True"
  by (rule float64_codec.slice_codec) (simp_all add: Writer_Float64Slice_def Reader_Float64Slice_def)

interpretation variable_int_slice_codec: codec Writer_VariableIntSlice Reader_VariableIntSlice
  "slice_enc PutVarint" "\<lambda>xs. \<forall>x \<in> set xs. True"
  by (rule variable_int_codec.slice_codec) (simp_all add: Writer_VariableIntSlice_def Reader_VariableIntSlice_def)

interpretation variable_uint_slice_codec: codec Writer_VariableUintSlice Reader_VariableUintSlice
  "slice_enc PutUvarint" "\<lambda>xs. \<forall>x \<in> set xs. True"
  by (rule variable_uint_codec.slice_codec) (simp_all add: Writer_VariableUintSlice_def Reader_VariableUintSlice_def)

interpretation string_slice_codec: codec Writer_StringSlice Reader_StringSlice
  "slice_enc string_enc" "\<lambda>xs. \<forall>x \<in> set xs. True"
  by (rule string_codec.slice_codec) (simp_all add: Writer_StringSlice_def Reader_StringSlice_def)

interpretation id_slice_codec: codec Writer_IdSlice Reader_IdSlice
  "slice_enc string_enc" "\<lambda>xs. \<forall>x \<in> set xs. True"
  by (rule id_codec.slice_codec) (simp_all add: Writer_IdSlice_def Reader_IdSlice_def)

interpretation id_type_slice_codec: codec Writer_IdTypeSlice Reader_IdTypeSlice
  "slice_enc string_enc" "\<lambda>xs. \<forall>x \<in> set xs. True"
  by (rule id_codec.slice_codec) (simp_all add: Writer_IdTypeSlice_def Reader_IdTypeSlice_def)

section \<open>String maps\<close>

text \<open>
  The map is written in the order of its keys, so it is read back in that order: the same map,
  visited in the order of the keys.
\<close>

definition key_sorted :: "('k::linorder, 'v) gomap \<Rightarrow> ('k, 'v) gomap" where
  "key_sorted m = map (\<lambda>k. (k, the (gm_get m k))) (sort (map fst m))"

lemma map_of_const: "map_of (map (\<lambda>k. (k, f k)) ks) k = (if k \<in> set ks then Some (f k) else None)"
  by (induction ks) auto

lemma key_sorted_get: "gm_get (key_sorted m) k = gm_get m k"
proof (cases "gm_get m k")
  case None
  then have "k \<notin> fst ` set m" by (simp add: gm_get_def map_of_eq_None_iff)
  with None show ?thesis by (simp add: key_sorted_def gm_get_def map_of_const)
next
  case (Some v)
  then have "k \<in> fst ` set m" by (metis gm_get_SomeD fst_conv image_eqI)
  with Some show ?thesis by (simp add: key_sorted_def gm_get_def map_of_const)
qed

lemma key_sorted_wf: "gm_wf m \<Longrightarrow> gm_wf (key_sorted m)"
  by (simp add: gm_wf_def key_sorted_def comp_def)

definition pair_enc :: "gostring \<times> gostring \<Rightarrow> byte list" where
  "pair_enc p = string_enc (fst p) @ string_enc (snd p)"

definition string_map_enc :: "(gostring, gostring) gomap \<Rightarrow> byte list" where
  "string_map_enc m = PutUvarint (of_nat (length m)) @ concat (map pair_enc (key_sorted m))"

lemma Writer_StringMap_enc:
  "writer_buf (Writer_StringMap m w) = writer_buf w @ string_map_enc m"
proof -
  have "writer_buf (write_each (\<lambda>k w. Writer_String (go_index_string m k) (Writer_String k w)) ks w) =
      writer_buf w @ concat (map pair_enc (map (\<lambda>k. (k, the (gm_get m k))) ks))"
    if "set ks \<subseteq> fst ` set m" for ks and w :: writer
    using that
  proof (induction ks arbitrary: w)
    case (Cons k ks)
    then obtain v where "gm_get m k = Some v"
      by (metis (no_types, lifting) gm_get_def insert_subset list.simps(15) map_of_eq_None_iff option.exhaust)
    with Cons show ?case by (simp add: string_codec.wr_enc pair_enc_def go_index_string_def)
  qed simp
  then show ?thesis
    by (simp add: Writer_StringMap_def key_sorted_def string_map_enc_def variable_uint_codec.wr_enc)
qed

lemma update_fresh: "k \<notin> fst ` set m \<Longrightarrow> gm_set k v m = m @ [(k, v)]"
  unfolding gm_set_def by (induction m) auto

lemma read_map_n_enc:
  "distinct (map fst (acc @ ps)) \<Longrightarrow>
   reads (read_map_n (length ps) acc) (concat (map pair_enc ps)) (acc @ ps)"
proof (induction ps arbitrary: acc)
  case Nil
  show ?case by (simp add: reads_def)
next
  case (Cons p ps)
  obtain k v where p: "p = (k, v)" by (cases p)
  have "gm_set k v acc = acc @ [(k, v)]"
    using Cons.prems p by (intro update_fresh) auto
  moreover have "reads (read_map_n (length ps) (acc @ [(k, v)])) (concat (map pair_enc ps)) (acc @ (k, v) # ps)"
    using Cons.IH [of "acc @ [(k, v)]"] Cons.prems p by simp
  ultimately have "reads (\<lambda>r. Option.bind (Reader_String r) (\<lambda>(v, r). read_map_n (length ps) (gm_set k v acc) r))
      (string_enc v @ concat (map pair_enc ps)) (acc @ (k, v) # ps)"
    by (intro reads_bind [OF string_codec.rd_enc]) simp_all
  then have "reads (\<lambda>r. Option.bind (Reader_String r) (\<lambda>(key, r). Option.bind (Reader_String r)
      (\<lambda>(v, r). read_map_n (length ps) (gm_set key v acc) r)))
      (string_enc k @ string_enc v @ concat (map pair_enc ps)) (acc @ (k, v) # ps)"
    by (rule reads_bind [OF string_codec.rd_enc [OF TrueI]])
  moreover have "pair_enc p = string_enc k @ string_enc v" by (simp add: p pair_enc_def)
  ultimately show ?case by (simp add: p)
qed

lemma reads_StringMap:
  assumes "gm_wf m"
  shows "reads Reader_StringMap (string_map_enc m) (key_sorted m)"
proof (cases "length m < 2 ^ 63")
  case True
  have len: "length m = length (key_sorted m)" by (simp add: key_sorted_def)
  show ?thesis
    unfolding Reader_StringMap_def [abs_def] string_map_enc_def
    using True assms read_map_n_enc [of "[]" "key_sorted m"] key_sorted_wf [OF assms]
    by (intro reads_bind [OF reads_VariableUint]) (simp add: unat_of_len len gm_wf_def)
next
  case False
  have "length ps \<le> length (concat (map pair_enc ps))" for ps
  proof (induction ps)
    case (Cons p ps)
    have "0 < length (pair_enc p)" by (simp add: pair_enc_def string_enc_def PutUvarint_not_Nil)
    with Cons show ?case unfolding concat.simps list.map length_append list.size by linarith
  qed simp
  from this [of "key_sorted m"] False have "\<not> length (concat (map pair_enc (key_sorted m))) < 2 ^ 63"
    by (simp add: key_sorted_def)
  then show ?thesis by (simp add: reads_def string_map_enc_def)
qed

section \<open>Bundles for the clients of the codec\<close>

lemmas codec_writes = bool_codec.wr_enc uint8_codec.wr_enc uint16_codec.wr_enc uint32_codec.wr_enc
  uint64_codec.wr_enc int32_codec.wr_enc int64_codec.wr_enc byte_slice_codec.wr_enc variable_uint_codec.wr_enc string_codec.wr_enc id_codec.wr_enc

lemmas codec_reads = bool_codec.rd_enc uint8_codec.rd_enc uint16_codec.rd_enc uint32_codec.rd_enc
  uint64_codec.rd_enc int32_codec.rd_enc int64_codec.rd_enc byte_slice_codec.rd_enc variable_uint_codec.rd_enc string_codec.rd_enc id_codec.rd_enc

end
