(* ===== verification/Codec_Order.thy ===== *)
theory Codec_Order
  imports Codec_Instances Complex_Main
begin

text \<open>
  The serialized forms of booleans, integers and floats are byte-comparable, as the comment on
  \<open>Writer\<close> promises, and the branchless limit of \<open>AdvanceReader\<close>.
\<close>

unbundle bit_operations_syntax

section \<open>Integers\<close>

lemma biased_less_iff:
  fixes x y :: "'a::len word"
  shows "x + 2 ^ (LENGTH('a) - 1) < y + 2 ^ (LENGTH('a) - 1) \<longleftrightarrow> sint x < sint y"
  by (simp only: word_less_def uint_add_half add_less_cancel_right)

lemma byte_list_less: "[a :: byte] < [b] \<longleftrightarrow> a < b"
  by simp

section \<open>Floats\<close>

text \<open>
  The bit pattern of a float: a sign bit, then exponent and mantissa, which together are the
  magnitude. \<open>float_key\<close> is the position of the pattern in the order of all patterns.
\<close>

definition magnitude :: "'a::len word \<Rightarrow> nat" where
  "magnitude u = unat (take_bit (LENGTH('a) - 1) u)"

definition float_key :: "'a::len word \<Rightarrow> int" where
  "float_key u = (if bit u (LENGTH('a) - 1) then - 1 - int (magnitude u) else int (magnitude u))"

lemma uint_magnitude:
  fixes u :: "'a::len word"
  shows "uint u = int (magnitude u) + (if bit u (LENGTH('a) - 1) then 2 ^ (LENGTH('a) - 1) else 0)"
proof -
  let ?n = "LENGTH('a) - 1"
  have "unat u < 2 * 2 ^ ?n"
    using unat_less [of u] by (metis len_gt_0 power_minus_mult mult.commute)
  then have "unat u div 2 ^ ?n < 2" by (simp add: less_mult_imp_div_less)
  moreover have "bit u ?n \<longleftrightarrow> odd (unat u div 2 ^ ?n)"
  proof -
    have "bit (unat u) ?n \<longleftrightarrow> bit u ?n" by (simp add: bit_unsigned_iff)
    then show ?thesis by (simp only: bit_iff_odd [of "unat u"])
  qed
  ultimately have "unat u div 2 ^ ?n = (if bit u ?n then 1 else 0)" by (auto simp: less_2_cases_iff)
  moreover have "magnitude u = unat u mod 2 ^ ?n"
    by (simp only: magnitude_def unsigned_take_bit_eq) (simp only: take_bit_eq_mod)
  ultimately have "unat u = magnitude u + (if bit u ?n then 2 ^ ?n else 0)"
    by (metis div_mult_mod_eq add.commute mult_1 mult_zero_left)
  then have "int (unat u) = int (magnitude u) + (if bit u ?n then 2 ^ ?n else 0)" by simp
  then show ?thesis by simp
qed

lemma uint_NOT: "uint (NOT u) = 2 ^ LENGTH('a) - 1 - uint (u :: 'a::len word)"
proof -
  have "NOT u = - 1 - u" by (simp add: not_eq_complement)
  moreover have "uint (- 1 :: 'a word) = 2 ^ LENGTH('a) - 1" by (simp add: mask_eq_exp_minus_1 unsigned_minus_1_eq_mask)
  moreover have "uint u < 2 ^ LENGTH('a)" by (rule uint_lt2p)
  ultimately show ?thesis by (simp add: uint_sub_if')
qed

lemma float_enc_key:
  fixes u e :: "'a::len word"
  assumes "\<And>n. n < LENGTH('a) \<Longrightarrow>
      bit e n \<longleftrightarrow> (if n = LENGTH('a) - 1 then \<not> bit u (LENGTH('a) - 1) else bit u n \<noteq> bit u (LENGTH('a) - 1))"
  shows "uint e = float_key u + 2 ^ (LENGTH('a) - 1)"
proof -
  have two: "2 * 2 ^ (LENGTH('a) - 1) = (2 ^ LENGTH('a) :: int)"
    by (metis len_gt_0 power_minus_mult mult.commute)
  show ?thesis
  proof (cases "bit u (LENGTH('a) - 1)")
    case True
    have "e = NOT u" by (rule bit_word_eqI) (use True in \<open>auto simp: assms bit_not_iff\<close>)
    then have "uint e = 2 ^ LENGTH('a) - 1 - uint u" by (simp only: uint_NOT)
    with True two uint_magnitude [of u] show ?thesis by (simp add: float_key_def)
  next
    case False
    have "bit e (LENGTH('a) - 1)" using False assms [of "LENGTH('a) - 1"] by simp
    moreover have "take_bit (LENGTH('a) - 1) e = take_bit (LENGTH('a) - 1) u"
      by (rule bit_word_eqI) (use False in \<open>auto simp: assms bit_take_bit_iff\<close>)
    ultimately show ?thesis
      using False uint_magnitude [of e] by (simp add: float_key_def magnitude_def)
  qed
qed

lemma float32_enc_less: "float32_enc u < float32_enc v \<longleftrightarrow> float_key u < float_key v"
  using float_enc_key [of "float32_enc u" u] float_enc_key [of "float32_enc v" v]
  by (simp add: bit_float32_enc word_less_def)

lemma float64_enc_less: "float64_enc u < float64_enc v \<longleftrightarrow> float_key u < float_key v"
  using float_enc_key [of "float64_enc u" u] float_enc_key [of "float64_enc v" v]
  by (simp add: bit_float64_enc word_less_def)

text \<open>
  The value of a finite float whose mantissa has \<open>p\<close> bits, in units of the smallest positive float:
  a subnormal magnitude is the mantissa, a normal one has the implicit leading bit and is scaled by
  its exponent.
\<close>

definition float_scaled :: "nat \<Rightarrow> nat \<Rightarrow> nat" where
  "float_scaled p m = (if m < 2 ^ p then m else (2 ^ p + m mod 2 ^ p) * 2 ^ (m div 2 ^ p - 1))"

definition float_units :: "nat \<Rightarrow> 'a::len word \<Rightarrow> int" where
  "float_units p u =
     (if bit u (LENGTH('a) - 1) then - int (float_scaled p (magnitude u))
      else int (float_scaled p (magnitude u)))"

definition float32_value :: "uint32 \<Rightarrow> real" where
  "float32_value u = of_int (float_units 23 u) / 2 ^ 149"

definition float64_value :: "uint64 \<Rightarrow> real" where
  "float64_value u = of_int (float_units 52 u) / 2 ^ 1074"

lemma float_scaled_Suc: "float_scaled p m < float_scaled p (Suc m)"
proof -
  let ?P = "2 ^ p :: nat"
  have P: "0 < ?P" by simp
  consider "Suc m < ?P" | "Suc m = ?P" | "?P \<le> m" by linarith
  then show ?thesis
  proof cases
    case 1
    then show ?thesis by (simp add: float_scaled_def)
  next
    case 2
    then have "m < ?P" by simp
    with 2 show ?thesis by (simp add: float_scaled_def)
  next
    case 3
    then have e: "0 < m div ?P" by (simp add: div_greater_zero_iff)
    show ?thesis
    proof (cases "Suc (m mod ?P) = ?P")
      case True
      then have d: "Suc m div ?P = Suc (m div ?P)" "Suc m mod ?P = 0"
        by (simp_all add: div_Suc mod_Suc)
      obtain k where k: "m div ?P = Suc k" using e by (cases "m div ?P") auto
      have "?P + m mod ?P < 2 * ?P" using P by (metis add_less_cancel_left mod_less_divisor mult_2)
      then have "(?P + m mod ?P) * 2 ^ k < 2 * ?P * 2 ^ k" by simp
      with 3 d k show ?thesis by (simp add: float_scaled_def algebra_simps)
    next
      case False
      then have d: "Suc m div ?P = m div ?P" "Suc m mod ?P = Suc (m mod ?P)"
        by (simp_all add: div_Suc mod_Suc)
      with 3 show ?thesis by (simp add: float_scaled_def)
    qed
  qed
qed

lemma float_scaled_less_iff: "float_scaled p m < float_scaled p n \<longleftrightarrow> m < n"
  by (rule strict_mono_less, rule strict_mono_Suc_iff [THEN iffD2]) (simp add: float_scaled_Suc)

lemma float_scaled_le_iff: "float_scaled p m \<le> float_scaled p n \<longleftrightarrow> m \<le> n"
  by (metis float_scaled_less_iff not_less)

lemma float_scaled_0 [simp]: "float_scaled p 0 = 0"
  by (simp add: float_scaled_def)

lemma float_units_key:
  "float_units p u < float_units p v \<Longrightarrow> float_key u < float_key v"
  "float_key u < float_key v \<Longrightarrow> float_units p u \<le> float_units p v"
  using float_scaled_less_iff [of p "magnitude u" "magnitude v"]
    float_scaled_less_iff [of p "magnitude v" "magnitude u"]
  by (auto simp: float_units_def float_key_def split: if_splits)

section \<open>AdvanceReader\<close>

lemma signed_drop_bit_63: "signed_drop_bit 63 (d :: uint64) = (if bit d 63 then - 1 else 0)"
  by (rule bit_word_eqI) (auto simp: bit_signed_drop_bit_iff Suc_le_eq)

lemma advance_limit_cases:
  "advance_limit maxN n = (if bit (n - maxN) 63 \<longleftrightarrow> bit n 63 then maxN else n)"
proof -
  have "bit (n AND 0x8000000000000000) 63 \<longleftrightarrow> bit n 63"
    by (simp only: bit_and_iff bit_float64_sign) simp
  then show ?thesis by (simp add: advance_limit_def signed_drop_bit_63)
qed

lemma bit_63_iff: "bit (n :: uint64) 63 \<longleftrightarrow> 2 ^ 63 \<le> uint n"
proof -
  have "uint n = int (magnitude n) + (if bit n 63 then 2 ^ 63 else 0)"
    using uint_magnitude [of n] by simp
  moreover have "magnitude n < 2 ^ 63"
    by (simp only: magnitude_def unsigned_take_bit_eq) (simp add: take_bit_eq_mod)
  ultimately show ?thesis by auto
qed

lemma advance_limit_small:
  assumes "n < 2 ^ 63" and "maxN < 2 ^ 63"
  shows "advance_limit maxN n = min n maxN"
proof -
  have u: "uint n < 2 ^ 63" "uint maxN < 2 ^ 63"
    using assms by (simp_all add: word_less_def)
  have "2 ^ 63 \<le> (if b \<le> a then a - b else a - b + 2 ^ 64) \<longleftrightarrow> a < b"
    if "0 \<le> a" "a < 2 ^ 63" "0 \<le> b" "b < 2 ^ 63" for a b :: int
    using that by auto
  from this [OF uint_ge_0 u(1) uint_ge_0 u(2)] have "bit (n - maxN) 63 \<longleftrightarrow> n < maxN"
    by (simp add: bit_63_iff uint_sub_if' word_less_def split: if_splits)
  moreover have "\<not> bit n 63" using u by (simp add: bit_63_iff)
  ultimately show ?thesis by (auto simp: advance_limit_cases min_def)
qed

lemma advance_limit_huge:
  assumes "2 ^ 63 \<le> n" and "n - 2 ^ 63 < maxN" and "maxN < 2 ^ 63"
  shows "advance_limit maxN n = n"
proof -
  have u: "2 ^ 63 \<le> uint n" "uint n < 2 ^ 63 + uint maxN" "uint maxN < 2 ^ 63"
    using assms by (simp_all add: word_less_def word_le_def uint_sub_if')
  then have "\<not> bit (n - maxN) 63" "bit n 63"
    by (simp_all add: bit_63_iff uint_sub_if')
  then show ?thesis by (simp add: advance_limit_cases)
qed

lemma go_slice_panics:
  "length buf + length spare < unat hi \<Longrightarrow> go_slice buf spare lo hi = None"
  by (simp add: go_slice_def)

end
