(* ===== verification/Codec_Stream.thy ===== *)
theory Codec_Stream
  imports Codec_Order
begin

text \<open>
  A serialized object is a sequence of writes, read back by the same sequence of reads. \<open>value\<close> is one
  write with its argument, \<open>kind\<close> names the operation alone, and the theorems of this theory speak of
  any sequence of them.
\<close>

section \<open>Sequences of operations\<close>

datatype kind =
    KBool | KInt8 | KInt16 | KInt32 | KInt64 | KUint8
  | KUint16 | KUint32 | KUint64 | KByte | KFloat32 | KFloat64
  | KVariableInt | KVariableUint | KString | KId | KBoolSlice | KInt8Slice
  | KInt16Slice | KInt32Slice | KInt64Slice | KUint8Slice | KUint16Slice | KUint32Slice
  | KUint64Slice | KByteSlice | KFloat32Slice | KFloat64Slice | KVariableIntSlice | KVariableUintSlice
  | KStringSlice | KIdSlice | KIdTypeSlice | KStringMap

datatype item =
    VBool "bool" | VInt8 "byte" | VInt16 "uint16" | VInt32 "uint32"
  | VInt64 "uint64" | VUint8 "byte" | VUint16 "uint16" | VUint32 "uint32"
  | VUint64 "uint64" | VByte "byte" | VFloat32 "uint32" | VFloat64 "uint64"
  | VVariableInt "uint64" | VVariableUint "uint64" | VString "gostring" | VId "gostring"
  | VBoolSlice "bool list" | VInt8Slice "byte list" | VInt16Slice "uint16 list" | VInt32Slice "uint32 list"
  | VInt64Slice "uint64 list" | VUint8Slice "byte list" | VUint16Slice "uint16 list" | VUint32Slice "uint32 list"
  | VUint64Slice "uint64 list" | VByteSlice "byte list" | VFloat32Slice "uint32 list" | VFloat64Slice "uint64 list"
  | VVariableIntSlice "uint64 list" | VVariableUintSlice "uint64 list" | VStringSlice "gostring list" | VIdSlice "gostring list"
  | VIdTypeSlice "gostring list"
  | VStringMap "(gostring, gostring) gomap"

fun kind_of :: "item \<Rightarrow> kind" where
  "kind_of (VBool _) = KBool"
| "kind_of (VInt8 _) = KInt8"
| "kind_of (VInt16 _) = KInt16"
| "kind_of (VInt32 _) = KInt32"
| "kind_of (VInt64 _) = KInt64"
| "kind_of (VUint8 _) = KUint8"
| "kind_of (VUint16 _) = KUint16"
| "kind_of (VUint32 _) = KUint32"
| "kind_of (VUint64 _) = KUint64"
| "kind_of (VByte _) = KByte"
| "kind_of (VFloat32 _) = KFloat32"
| "kind_of (VFloat64 _) = KFloat64"
| "kind_of (VVariableInt _) = KVariableInt"
| "kind_of (VVariableUint _) = KVariableUint"
| "kind_of (VString _) = KString"
| "kind_of (VId _) = KId"
| "kind_of (VBoolSlice _) = KBoolSlice"
| "kind_of (VInt8Slice _) = KInt8Slice"
| "kind_of (VInt16Slice _) = KInt16Slice"
| "kind_of (VInt32Slice _) = KInt32Slice"
| "kind_of (VInt64Slice _) = KInt64Slice"
| "kind_of (VUint8Slice _) = KUint8Slice"
| "kind_of (VUint16Slice _) = KUint16Slice"
| "kind_of (VUint32Slice _) = KUint32Slice"
| "kind_of (VUint64Slice _) = KUint64Slice"
| "kind_of (VByteSlice _) = KByteSlice"
| "kind_of (VFloat32Slice _) = KFloat32Slice"
| "kind_of (VFloat64Slice _) = KFloat64Slice"
| "kind_of (VVariableIntSlice _) = KVariableIntSlice"
| "kind_of (VVariableUintSlice _) = KVariableUintSlice"
| "kind_of (VStringSlice _) = KStringSlice"
| "kind_of (VIdSlice _) = KIdSlice"
| "kind_of (VIdTypeSlice _) = KIdTypeSlice"
| "kind_of (VStringMap _) = KStringMap"

fun write_item :: "item \<Rightarrow> writer \<Rightarrow> writer" where
  "write_item (VBool x) w = Writer_Bool x w"
| "write_item (VInt8 x) w = Writer_Int8 x w"
| "write_item (VInt16 x) w = Writer_Int16 x w"
| "write_item (VInt32 x) w = Writer_Int32 x w"
| "write_item (VInt64 x) w = Writer_Int64 x w"
| "write_item (VUint8 x) w = Writer_Uint8 x w"
| "write_item (VUint16 x) w = Writer_Uint16 x w"
| "write_item (VUint32 x) w = Writer_Uint32 x w"
| "write_item (VUint64 x) w = Writer_Uint64 x w"
| "write_item (VByte x) w = Writer_Byte x w"
| "write_item (VFloat32 x) w = Writer_Float32 x w"
| "write_item (VFloat64 x) w = Writer_Float64 x w"
| "write_item (VVariableInt x) w = Writer_VariableInt x w"
| "write_item (VVariableUint x) w = Writer_VariableUint x w"
| "write_item (VString x) w = Writer_String x w"
| "write_item (VId x) w = Writer_Id x w"
| "write_item (VBoolSlice x) w = Writer_BoolSlice x w"
| "write_item (VInt8Slice x) w = Writer_Int8Slice x w"
| "write_item (VInt16Slice x) w = Writer_Int16Slice x w"
| "write_item (VInt32Slice x) w = Writer_Int32Slice x w"
| "write_item (VInt64Slice x) w = Writer_Int64Slice x w"
| "write_item (VUint8Slice x) w = Writer_Uint8Slice x w"
| "write_item (VUint16Slice x) w = Writer_Uint16Slice x w"
| "write_item (VUint32Slice x) w = Writer_Uint32Slice x w"
| "write_item (VUint64Slice x) w = Writer_Uint64Slice x w"
| "write_item (VByteSlice x) w = Writer_ByteSlice x w"
| "write_item (VFloat32Slice x) w = Writer_Float32Slice x w"
| "write_item (VFloat64Slice x) w = Writer_Float64Slice x w"
| "write_item (VVariableIntSlice x) w = Writer_VariableIntSlice x w"
| "write_item (VVariableUintSlice x) w = Writer_VariableUintSlice x w"
| "write_item (VStringSlice x) w = Writer_StringSlice x w"
| "write_item (VIdSlice x) w = Writer_IdSlice x w"
| "write_item (VIdTypeSlice x) w = Writer_IdTypeSlice x w"
| "write_item (VStringMap x) w = Writer_StringMap x w"

fun read_item :: "kind \<Rightarrow> item rd" where
  "read_item KBool r = do { (x, r) \<leftarrow> Reader_Bool r; Some (VBool x, r) }"
| "read_item KInt8 r = do { (x, r) \<leftarrow> Reader_Int8 r; Some (VInt8 x, r) }"
| "read_item KInt16 r = do { (x, r) \<leftarrow> Reader_Int16 r; Some (VInt16 x, r) }"
| "read_item KInt32 r = do { (x, r) \<leftarrow> Reader_Int32 r; Some (VInt32 x, r) }"
| "read_item KInt64 r = do { (x, r) \<leftarrow> Reader_Int64 r; Some (VInt64 x, r) }"
| "read_item KUint8 r = do { (x, r) \<leftarrow> Reader_Uint8 r; Some (VUint8 x, r) }"
| "read_item KUint16 r = do { (x, r) \<leftarrow> Reader_Uint16 r; Some (VUint16 x, r) }"
| "read_item KUint32 r = do { (x, r) \<leftarrow> Reader_Uint32 r; Some (VUint32 x, r) }"
| "read_item KUint64 r = do { (x, r) \<leftarrow> Reader_Uint64 r; Some (VUint64 x, r) }"
| "read_item KByte r = do { (x, r) \<leftarrow> Reader_Byte r; Some (VByte x, r) }"
| "read_item KFloat32 r = do { (x, r) \<leftarrow> Reader_Float32 r; Some (VFloat32 x, r) }"
| "read_item KFloat64 r = do { (x, r) \<leftarrow> Reader_Float64 r; Some (VFloat64 x, r) }"
| "read_item KVariableInt r = do { (x, r) \<leftarrow> Reader_VariableInt r; Some (VVariableInt x, r) }"
| "read_item KVariableUint r = do { (x, r) \<leftarrow> Reader_VariableUint r; Some (VVariableUint x, r) }"
| "read_item KString r = do { (x, r) \<leftarrow> Reader_String r; Some (VString x, r) }"
| "read_item KId r = do { (x, r) \<leftarrow> Reader_Id r; Some (VId x, r) }"
| "read_item KBoolSlice r = do { (x, r) \<leftarrow> Reader_BoolSlice r; Some (VBoolSlice x, r) }"
| "read_item KInt8Slice r = do { (x, r) \<leftarrow> Reader_Int8Slice r; Some (VInt8Slice x, r) }"
| "read_item KInt16Slice r = do { (x, r) \<leftarrow> Reader_Int16Slice r; Some (VInt16Slice x, r) }"
| "read_item KInt32Slice r = do { (x, r) \<leftarrow> Reader_Int32Slice r; Some (VInt32Slice x, r) }"
| "read_item KInt64Slice r = do { (x, r) \<leftarrow> Reader_Int64Slice r; Some (VInt64Slice x, r) }"
| "read_item KUint8Slice r = do { (x, r) \<leftarrow> Reader_Uint8Slice r; Some (VUint8Slice x, r) }"
| "read_item KUint16Slice r = do { (x, r) \<leftarrow> Reader_Uint16Slice r; Some (VUint16Slice x, r) }"
| "read_item KUint32Slice r = do { (x, r) \<leftarrow> Reader_Uint32Slice r; Some (VUint32Slice x, r) }"
| "read_item KUint64Slice r = do { (x, r) \<leftarrow> Reader_Uint64Slice r; Some (VUint64Slice x, r) }"
| "read_item KByteSlice r = do { (x, r) \<leftarrow> Reader_ByteSlice r; Some (VByteSlice x, r) }"
| "read_item KFloat32Slice r = do { (x, r) \<leftarrow> Reader_Float32Slice r; Some (VFloat32Slice x, r) }"
| "read_item KFloat64Slice r = do { (x, r) \<leftarrow> Reader_Float64Slice r; Some (VFloat64Slice x, r) }"
| "read_item KVariableIntSlice r = do { (x, r) \<leftarrow> Reader_VariableIntSlice r; Some (VVariableIntSlice x, r) }"
| "read_item KVariableUintSlice r = do { (x, r) \<leftarrow> Reader_VariableUintSlice r; Some (VVariableUintSlice x, r) }"
| "read_item KStringSlice r = do { (x, r) \<leftarrow> Reader_StringSlice r; Some (VStringSlice x, r) }"
| "read_item KIdSlice r = do { (x, r) \<leftarrow> Reader_IdSlice r; Some (VIdSlice x, r) }"
| "read_item KIdTypeSlice r = do { (x, r) \<leftarrow> Reader_IdTypeSlice r; Some (VIdTypeSlice x, r) }"
| "read_item KStringMap r = do { (x, r) \<leftarrow> Reader_StringMap r; Some (VStringMap x, r) }"

fun write_items :: "item list \<Rightarrow> writer \<Rightarrow> writer" where
  "write_items [] w = w"
| "write_items (v # vs) w = write_items vs (write_item v w)"

fun read_items :: "kind list \<Rightarrow> item list rd" where
  "read_items [] r = Some ([], r)"
| "read_items (k # ks) r = do { (v, r) \<leftarrow> read_item k r; (vs, r) \<leftarrow> read_items ks r; Some (v # vs, r) }"

text \<open>The map kept by a \<open>StringMap\<close> comes back visited in the order of its keys.\<close>

fun read_back :: "item \<Rightarrow> item" where
  "read_back (VStringMap m) = VStringMap (key_sorted m)"
| "read_back v = v"

fun item_ok :: "item \<Rightarrow> bool" where
  "item_ok (VStringMap m) = gm_wf m"
| "item_ok _ = True"

fun item_enc :: "item \<Rightarrow> byte list" where
  "item_enc (VBool x) = (\<lambda>b. [if b then 1 else 0]) x"
| "item_enc (VInt8 x) = (\<lambda>v. [v + push_bit 7 1]) x"
| "item_enc (VInt16 x) = (\<lambda>v. be_put 2 (v + push_bit 15 1)) x"
| "item_enc (VInt32 x) = (\<lambda>v. be_put 4 (v + push_bit 31 1)) x"
| "item_enc (VInt64 x) = (\<lambda>v. be_put 8 (v + push_bit 63 1)) x"
| "item_enc (VUint8 x) = (\<lambda>v. [v]) x"
| "item_enc (VUint16 x) = be_put 2 x"
| "item_enc (VUint32 x) = be_put 4 x"
| "item_enc (VUint64 x) = be_put 8 x"
| "item_enc (VByte x) = (\<lambda>v. [v]) x"
| "item_enc (VFloat32 x) = (\<lambda>u. be_put 4 (float32_enc u)) x"
| "item_enc (VFloat64 x) = (\<lambda>u. be_put 8 (float64_enc u)) x"
| "item_enc (VVariableInt x) = PutVarint x"
| "item_enc (VVariableUint x) = PutUvarint x"
| "item_enc (VString x) = string_enc x"
| "item_enc (VId x) = string_enc x"
| "item_enc (VBoolSlice x) = slice_enc (\<lambda>b. [if b then 1 else 0]) x"
| "item_enc (VInt8Slice x) = slice_enc (\<lambda>v. [v + push_bit 7 1]) x"
| "item_enc (VInt16Slice x) = slice_enc (\<lambda>v. be_put 2 (v + push_bit 15 1)) x"
| "item_enc (VInt32Slice x) = slice_enc (\<lambda>v. be_put 4 (v + push_bit 31 1)) x"
| "item_enc (VInt64Slice x) = slice_enc (\<lambda>v. be_put 8 (v + push_bit 63 1)) x"
| "item_enc (VUint8Slice x) = string_enc x"
| "item_enc (VUint16Slice x) = slice_enc (be_put 2) x"
| "item_enc (VUint32Slice x) = slice_enc (be_put 4) x"
| "item_enc (VUint64Slice x) = slice_enc (be_put 8) x"
| "item_enc (VByteSlice x) = string_enc x"
| "item_enc (VFloat32Slice x) = slice_enc (\<lambda>u. be_put 4 (float32_enc u)) x"
| "item_enc (VFloat64Slice x) = slice_enc (\<lambda>u. be_put 8 (float64_enc u)) x"
| "item_enc (VVariableIntSlice x) = slice_enc PutVarint x"
| "item_enc (VVariableUintSlice x) = slice_enc PutUvarint x"
| "item_enc (VStringSlice x) = slice_enc string_enc x"
| "item_enc (VIdSlice x) = slice_enc string_enc x"
| "item_enc (VIdTypeSlice x) = slice_enc string_enc x"
| "item_enc (VStringMap m) = string_map_enc m"

section \<open>The sequence comes back\<close>

lemmas item_writes =
  bool_codec.wr_enc int8_codec.wr_enc int16_codec.wr_enc int32_codec.wr_enc
  int64_codec.wr_enc uint8_codec.wr_enc uint16_codec.wr_enc uint32_codec.wr_enc
  uint64_codec.wr_enc byte_codec.wr_enc float32_codec.wr_enc float64_codec.wr_enc
  variable_int_codec.wr_enc variable_uint_codec.wr_enc string_codec.wr_enc id_codec.wr_enc
  bool_slice_codec.wr_enc int8_slice_codec.wr_enc int16_slice_codec.wr_enc int32_slice_codec.wr_enc
  int64_slice_codec.wr_enc uint8_slice_codec.wr_enc uint16_slice_codec.wr_enc uint32_slice_codec.wr_enc
  uint64_slice_codec.wr_enc byte_slice_codec.wr_enc float32_slice_codec.wr_enc float64_slice_codec.wr_enc
  variable_int_slice_codec.wr_enc variable_uint_slice_codec.wr_enc string_slice_codec.wr_enc id_slice_codec.wr_enc
  id_type_slice_codec.wr_enc
  Writer_StringMap_enc

context codec
begin

lemma reads_tagged:
  assumes "\<And>r. ritem r = Option.bind (rd r) (\<lambda>(x, r). Some (V x, r))" and "ok x"
  shows "reads ritem (enc x) (V x)"
proof -
  have "ritem = (\<lambda>r. Option.bind (rd r) (\<lambda>(x, r). Some (V x, r)))"
    by (rule ext) (rule assms(1))
  then show ?thesis by (simp add: reads_map [OF rd_enc [OF assms(2)] refl])
qed

end

lemmas item_reads =
  bool_codec.reads_tagged [OF read_item.simps(1)]
  int8_codec.reads_tagged [OF read_item.simps(2)]
  int16_codec.reads_tagged [OF read_item.simps(3)]
  int32_codec.reads_tagged [OF read_item.simps(4)]
  int64_codec.reads_tagged [OF read_item.simps(5)]
  uint8_codec.reads_tagged [OF read_item.simps(6)]
  uint16_codec.reads_tagged [OF read_item.simps(7)]
  uint32_codec.reads_tagged [OF read_item.simps(8)]
  uint64_codec.reads_tagged [OF read_item.simps(9)]
  byte_codec.reads_tagged [OF read_item.simps(10)]
  float32_codec.reads_tagged [OF read_item.simps(11)]
  float64_codec.reads_tagged [OF read_item.simps(12)]
  variable_int_codec.reads_tagged [OF read_item.simps(13)]
  variable_uint_codec.reads_tagged [OF read_item.simps(14)]
  string_codec.reads_tagged [OF read_item.simps(15)]
  id_codec.reads_tagged [OF read_item.simps(16)]
  bool_slice_codec.reads_tagged [OF read_item.simps(17)]
  int8_slice_codec.reads_tagged [OF read_item.simps(18)]
  int16_slice_codec.reads_tagged [OF read_item.simps(19)]
  int32_slice_codec.reads_tagged [OF read_item.simps(20)]
  int64_slice_codec.reads_tagged [OF read_item.simps(21)]
  uint8_slice_codec.reads_tagged [OF read_item.simps(22)]
  uint16_slice_codec.reads_tagged [OF read_item.simps(23)]
  uint32_slice_codec.reads_tagged [OF read_item.simps(24)]
  uint64_slice_codec.reads_tagged [OF read_item.simps(25)]
  byte_slice_codec.reads_tagged [OF read_item.simps(26)]
  float32_slice_codec.reads_tagged [OF read_item.simps(27)]
  float64_slice_codec.reads_tagged [OF read_item.simps(28)]
  variable_int_slice_codec.reads_tagged [OF read_item.simps(29)]
  variable_uint_slice_codec.reads_tagged [OF read_item.simps(30)]
  string_slice_codec.reads_tagged [OF read_item.simps(31)]
  id_slice_codec.reads_tagged [OF read_item.simps(32)]
  id_type_slice_codec.reads_tagged [OF read_item.simps(33)]

lemma reads_item_map:
  assumes "gm_wf m"
  shows "reads (read_item KStringMap) (string_map_enc m) (VStringMap (key_sorted m))"
  unfolding read_item.simps(34) [abs_def]
  by (rule reads_map [OF reads_StringMap [OF assms] refl])

lemma write_item_enc: "writer_buf (write_item v w) = writer_buf w @ item_enc v"
  by (cases v) (simp_all add: item_writes)

lemma reads_item:
  assumes "item_ok v"
  shows "reads (read_item (kind_of v)) (item_enc v) (read_back v)"
  using assms
  by (cases v)
    (simp_all only: item_enc.simps kind_of.simps read_back.simps item_ok.simps,
     (rule item_reads reads_item_map, simp)+)

lemma write_items_enc: "writer_buf (write_items vs w) = writer_buf w @ concat (map item_enc vs)"
  by (induction vs arbitrary: w) (simp_all add: write_item_enc)

lemma reads_items:
  "\<forall>v \<in> set vs. item_ok v \<Longrightarrow>
   reads (read_items (map kind_of vs)) (concat (map item_enc vs)) (map read_back vs)"
proof (induction vs)
  case Nil
  show ?case by (simp add: reads_def)
next
  case (Cons v vs)
  have "reads (\<lambda>r. Option.bind (read_items (map kind_of vs) r) (\<lambda>(vs', r). Some (read_back v # vs', r)))
      (concat (map item_enc vs)) (map read_back (v # vs))"
    using Cons by (intro reads_map) auto
  then have "reads (\<lambda>r. Option.bind (read_item (kind_of v) r) (\<lambda>(v', r).
      Option.bind (read_items (map kind_of vs) r) (\<lambda>(vs', r). Some (v' # vs', r))))
      (item_enc v @ concat (map item_enc vs)) (map read_back (v # vs))"
    using Cons.prems by (intro reads_bind [where x = "read_back v"] reads_item) simp_all
  then show ?case by simp
qed

end
