(* ===== verification/Codec_Props.thy ===== *)
theory Codec_Props
  imports Codec_Stream
begin

text \<open>
  The properties of the serializer and the deserializer of \<open>src/utils\<close>.
\<close>

section \<open>Properties\<close>

lemma Writer_Data_New: "Writer_Data (NewWriter c) = []"
  by (simp add: Writer_Data_def NewWriter_def)

lemmas data_of = Writer_Data_def NewWriter_def

text \<open>
  C20. Any sequence of writes through a \<open>Writer\<close> is read back, by the same sequence of reads, as the
  values that were written (a map of strings comes back as the same map), and the reader has then
  consumed exactly the bytes that were written. This holds for every operation of the two files and
  whatever bytes lie between the length and the capacity of the slice.
\<close>

theorem stream_round_trip:
  assumes "\<forall>v \<in> set vs. item_ok v"
    and "length (Writer_Data (write_items vs (NewWriter c))) < 2 ^ 63"
  shows "\<exists>r. read_items (map kind_of vs) (NewReader (Writer_Data (write_items vs (NewWriter c))) spare)
      = Some (map read_back vs, r) \<and> Reader_IsEmpty r
      \<and> Reader_BytesRead r = of_nat (length (Writer_Data (write_items vs (NewWriter c))))"
proof -
  have data: "Writer_Data (write_items vs (NewWriter c)) = concat (map item_enc vs)"
    by (simp add: data_of write_items_enc)
  from reads_whole [OF reads_items [OF assms(1)], of spare] assms(2) show ?thesis
    by (simp add: data Reader_BytesRead_def reader_at_def)
qed

theorem stream_round_trip_witness:
  "\<exists>r. read_items [KInt16, KStringMap, KVariableUint]
      (NewReader (Writer_Data (write_items [VInt16 7, VStringMap [([2], [9]), ([1], [])], VVariableUint 300]
        (NewWriter 0))) [5])
      = Some ([VInt16 7, VStringMap [([1], []), ([2], [9])], VVariableUint 300], r) \<and> Reader_IsEmpty r
      \<and> Reader_BytesRead r = 12"
proof -
  let ?vs = "[VInt16 7, VStringMap [([2], [9]), ([1], [])], VVariableUint 300]"
  have data: "Writer_Data (write_items ?vs (NewWriter 0)) = [128, 7, 2, 1, 1, 0, 1, 2, 1, 9, 172, 2]"
    by code_simp
  show ?thesis
    using stream_round_trip [of ?vs 0 "[5]"] unfolding data
    by (simp add: gm_wf_def key_sorted_def gm_get_def)
qed

text \<open>
  The serialized forms of booleans, unsigned and signed integers are byte-comparable: comparing
  the bytes, as \<open>bytes.Compare\<close> does, compares the values.
\<close>

theorem integers_byte_comparable:
  "(Writer_Data (Writer_Bool a (NewWriter c)) < Writer_Data (Writer_Bool b (NewWriter c)) \<longleftrightarrow> a < b) \<and>
   (Writer_Data (Writer_Uint8 u8 (NewWriter c)) < Writer_Data (Writer_Uint8 v8 (NewWriter c)) \<longleftrightarrow> u8 < v8) \<and>
   (Writer_Data (Writer_Uint16 u16 (NewWriter c)) < Writer_Data (Writer_Uint16 v16 (NewWriter c)) \<longleftrightarrow> u16 < v16) \<and>
   (Writer_Data (Writer_Uint32 u32 (NewWriter c)) < Writer_Data (Writer_Uint32 v32 (NewWriter c)) \<longleftrightarrow> u32 < v32) \<and>
   (Writer_Data (Writer_Uint64 u64 (NewWriter c)) < Writer_Data (Writer_Uint64 v64 (NewWriter c)) \<longleftrightarrow> u64 < v64) \<and>
   (Writer_Data (Writer_Int8 u8 (NewWriter c)) < Writer_Data (Writer_Int8 v8 (NewWriter c)) \<longleftrightarrow> sint u8 < sint v8) \<and>
   (Writer_Data (Writer_Int16 u16 (NewWriter c)) < Writer_Data (Writer_Int16 v16 (NewWriter c)) \<longleftrightarrow> sint u16 < sint v16) \<and>
   (Writer_Data (Writer_Int32 u32 (NewWriter c)) < Writer_Data (Writer_Int32 v32 (NewWriter c)) \<longleftrightarrow> sint u32 < sint v32) \<and>
   (Writer_Data (Writer_Int64 u64 (NewWriter c)) < Writer_Data (Writer_Int64 v64 (NewWriter c)) \<longleftrightarrow> sint u64 < sint v64)"
  using biased_less_iff [of u8 v8] biased_less_iff [of u16 v16] biased_less_iff [of u32 v32]
    biased_less_iff [of u64 v64]
  by (auto simp: data_of item_writes be_put_less_iff)

text \<open>
  The serialized forms of floats are byte-comparable: a smaller number has smaller bytes, and
  smaller bytes never belong to a larger number (only the two zeros share a value). The value of the
  bit pattern is the one of IEEE 754; read as a number, the pattern of an infinity is larger than
  every finite one.
\<close>

theorem floats_byte_comparable:
  "(float32_value x < float32_value y \<longrightarrow>
      Writer_Data (Writer_Float32 x (NewWriter c)) < Writer_Data (Writer_Float32 y (NewWriter c))) \<and>
   (Writer_Data (Writer_Float32 x (NewWriter c)) < Writer_Data (Writer_Float32 y (NewWriter c)) \<longrightarrow>
      float32_value x \<le> float32_value y) \<and>
   (float64_value u < float64_value v \<longrightarrow>
      Writer_Data (Writer_Float64 u (NewWriter c)) < Writer_Data (Writer_Float64 v (NewWriter c))) \<and>
   (Writer_Data (Writer_Float64 u (NewWriter c)) < Writer_Data (Writer_Float64 v (NewWriter c)) \<longrightarrow>
      float64_value u \<le> float64_value v)"
proof -
  have bytes: "Writer_Data (Writer_Float32 x (NewWriter c)) < Writer_Data (Writer_Float32 y (NewWriter c))
      \<longleftrightarrow> float_key x < float_key y"
    "Writer_Data (Writer_Float64 u (NewWriter c)) < Writer_Data (Writer_Float64 v (NewWriter c))
      \<longleftrightarrow> float_key u < float_key v"
    by (simp_all add: data_of item_writes be_put_less_iff float32_enc_less float64_enc_less)
  have vals: "float32_value x < float32_value y \<longleftrightarrow> float_units 23 x < float_units 23 y"
    "float32_value x \<le> float32_value y \<longleftrightarrow> float_units 23 x \<le> float_units 23 y"
    "float64_value u < float64_value v \<longleftrightarrow> float_units 52 u < float_units 52 v"
    "float64_value u \<le> float64_value v \<longleftrightarrow> float_units 52 u \<le> float_units 52 v"
    by (simp_all add: float32_value_def float64_value_def divide_less_cancel divide_le_cancel)
  show ?thesis unfolding bytes vals by (simp add: float_units_key)
qed

text \<open>The pattern of -1.0 against that of 2.0.\<close>

theorem floats_byte_comparable_witness:
  "float32_value 0xBF800000 = - 1 \<and> float32_value 0x40000000 = 2 \<and>
   Writer_Data (Writer_Float32 0xBF800000 (NewWriter 0)) < Writer_Data (Writer_Float32 0x40000000 (NewWriter 0)) \<and>
   float64_value 0xBFF0000000000000 = - 1 \<and> float64_value 0x4000000000000000 = 2 \<and>
   Writer_Data (Writer_Float64 0xBFF0000000000000 (NewWriter 0))
     < Writer_Data (Writer_Float64 0x4000000000000000 (NewWriter 0))"
proof -
  have "float_units 23 (0xBF800000 :: uint32) = - (2 ^ 149)" "float_units 23 (0x40000000 :: uint32) = 2 ^ 150"
    "float_units 52 (0xBFF0000000000000 :: uint64) = - (2 ^ 1074)"
    "float_units 52 (0x4000000000000000 :: uint64) = 2 ^ 1075"
    by (simp_all add: float_units_def magnitude_def float_scaled_def)
  then have v: "float32_value 0xBF800000 = - 1" "float32_value 0x40000000 = 2"
    "float64_value 0xBFF0000000000000 = - 1" "float64_value 0x4000000000000000 = 2"
    by (simp_all add: float32_value_def float64_value_def)
  then show ?thesis
    using floats_byte_comparable [of "0xBF800000" "0x40000000" 0 "0xBFF0000000000000" "0x4000000000000000"]
    by simp
qed

text \<open>
  The hand-unrolled decoder \<open>VariableUint\<close> of the reader computes the plain byte-by-byte loop, on
  every buffer and offset, panics included.
\<close>

theorem variable_uint_unrolled: "Reader_VariableUint r = uvarint_loop 0 0 r"
  by (rule Reader_VariableUint_loop)

text \<open>
  A variable-length integer never needs more than the ten bytes of the writer's scratch slice.
\<close>

theorem variable_length_fits:
  "length (PutUvarint v) \<le> 10 \<and> length (PutVarint v) \<le> 10 \<and>
   length (Writer_Data (Writer_VariableInt v w)) \<le> length (Writer_Data w) + 10"
  using length_PutUvarint [of "zigzag v"]
  by (simp add: length_PutUvarint PutVarint_def Writer_Data_def item_writes)

section \<open>AdvanceReader\<close>

text \<open>
  On a reader that is within its buffer, \<open>AdvanceReader\<close> returns the next \<open>n\<close> bytes, limited to what is
  left, and moves past them, for every \<open>n\<close> below \<open>2 ^ 63\<close>.
\<close>

theorem advance_reader_limits:
  assumes "length pre + length post < 2 ^ 63" and "n < 2 ^ 63"
  shows "AdvanceReader n (reader_at pre post spare) =
    Some (take (unat n) post, reader_at (pre @ take (unat n) post) (drop (unat n) post) spare)"
proof -
  have max: "of_nat (length (pre @ post)) - of_nat (length pre) = (of_nat (length post) :: uint64)"
    by simp
  have len: "unat (of_nat (length post) :: uint64) = length post" using assms by (simp add: unat_of_len)
  have "(of_nat (length post) :: uint64) < 2 ^ 63" using assms len by (simp add: word_less_nat_alt)
  then have lim: "advance_limit (of_nat (length post)) n = of_nat (length (take (unat n) post))"
    using assms(2) len by (simp add: advance_limit_small min_def word_le_nat_alt)
  have split: "pre @ post = pre @ take (unat n) post @ drop (unat n) post" by simp
  have "go_slice (pre @ post) spare (of_nat (length pre))
      (of_nat (length pre) + of_nat (length (take (unat n) post))) = Some (take (unat n) post)"
    using go_slice_at [of pre "take (unat n) post" "drop (unat n) post" spare] assms(1)
    by (simp add: min_def)
  then show ?thesis
    by (simp only: AdvanceReader_def reader_at_def advance_def Let_def max lim reader.select_convs
      reader.update_convs add_diff_cancel_right' Option.bind.simps) simp
qed

theorem advance_reader_limits_witness:
  "AdvanceReader 9 (reader_at [1] [2, 3] []) = Some ([2, 3], reader_at [1, 2, 3] [] [])"
  using advance_reader_limits [of "[1]" "[2, 3]" 9 "[]"] by simp

text \<open>
  The comment on \<open>AdvanceReader\<close> says that an \<open>n\<close> of at least \<open>2 ^ 63\<close> is limited to what is left
  as well. It is not: when \<open>n\<close> is \<open>2 ^ 63\<close> or exceeds it by less than the number of bytes left, the
  branchless mask keeps \<open>n\<close> as it is and the slice expression panics.
\<close>

theorem advance_reader_huge_panics:
  assumes "length pre + length post + length spare < 2 ^ 63" and "2 ^ 63 \<le> n"
    and "n - 2 ^ 63 < of_nat (length post)"
  shows "AdvanceReader n (reader_at pre post spare) = None"
proof -
  have max: "of_nat (length (pre @ post)) - of_nat (length pre) = (of_nat (length post) :: uint64)"
    by simp
  have len: "unat (of_nat (length post) :: uint64) = length post" using assms(1) by (simp add: unat_of_len)
  have "(of_nat (length post) :: uint64) < 2 ^ 63" using assms(1) len by (simp add: word_less_nat_alt)
  then have lim: "advance_limit (of_nat (length post)) n = n"
    using advance_limit_huge [OF assms(2,3)] by simp
  have n: "unat n < 2 ^ 63 + length post" "2 ^ 63 \<le> unat n"
    using assms(2,3) len by (simp_all add: word_less_nat_alt word_le_nat_alt unat_sub)
  then have "unat (of_nat (length pre) + n) = length pre + unat n"
    using assms(1) by (subst unat_plus_simple [THEN iffD1]) (simp_all add: unat_of_len word_le_nat_alt unat_word_ariths)
  then have "length (pre @ post) + length spare < unat (of_nat (length pre) + n)"
    using n assms(1) by simp
  then show ?thesis
    by (simp add: AdvanceReader_def reader_at_def advance_def Let_def max lim go_slice_panics)
qed

theorem advance_reader_huge_panics_witness:
  "AdvanceReader 0x8000000000000000 (reader_at [1] [2, 3] []) = None"
  using advance_reader_huge_panics [of "[1]" "[2, 3]" "[]" "0x8000000000000000"] by simp

end
