(* ===== verification/Ids.thy ===== *)
theory Ids
  imports Byte_Reader
begin

text \<open>
  Internal ids: \<open>src/core/id/id.go\<close> and \<open>src/core/id/section.go\<close>. An \<open>Id\<close> is a string of bytes in one of
  two formats. The first has a section byte, a count byte, one length byte per segment and the
  segments; the second has the section byte with its upper bit set and the segments joined by a
  separator byte. Reading an arbitrary string as an id can run over its end, which is \<open>None\<close>.
\<close>

unbundle bit_operations_syntax

section \<open>Sections\<close>

type_synonym section_id = byte

abbreviation (input) Section_Null :: section_id where
  "Section_Null \<equiv> 0"

abbreviation (input) Section_AccessMethod :: section_id where
  "Section_AccessMethod \<equiv> 1"

abbreviation (input) Section_Cast :: section_id where
  "Section_Cast \<equiv> 2"

abbreviation (input) Section_Check :: section_id where
  "Section_Check \<equiv> 3"

abbreviation (input) Section_Collation :: section_id where
  "Section_Collation \<equiv> 4"

abbreviation (input) Section_ColumnDefault :: section_id where
  "Section_ColumnDefault \<equiv> 5"

abbreviation (input) Section_Database :: section_id where
  "Section_Database \<equiv> 6"

abbreviation (input) Section_EnumLabel :: section_id where
  "Section_EnumLabel \<equiv> 7"

abbreviation (input) Section_EventTrigger :: section_id where
  "Section_EventTrigger \<equiv> 8"

abbreviation (input) Section_ExclusionConstraint :: section_id where
  "Section_ExclusionConstraint \<equiv> 9"

abbreviation (input) Section_Extension :: section_id where
  "Section_Extension \<equiv> 10"

abbreviation (input) Section_ForeignKey :: section_id where
  "Section_ForeignKey \<equiv> 11"

abbreviation (input) Section_ForeignDataWrapper :: section_id where
  "Section_ForeignDataWrapper \<equiv> 12"

abbreviation (input) Section_ForeignServer :: section_id where
  "Section_ForeignServer \<equiv> 13"

abbreviation (input) Section_ForeignTable :: section_id where
  "Section_ForeignTable \<equiv> 14"

abbreviation (input) Section_Function :: section_id where
  "Section_Function \<equiv> 15"

abbreviation (input) Section_FunctionLanguage :: section_id where
  "Section_FunctionLanguage \<equiv> 16"

abbreviation (input) Section_Index :: section_id where
  "Section_Index \<equiv> 17"

abbreviation (input) Section_Namespace :: section_id where
  "Section_Namespace \<equiv> 18"

abbreviation (input) Section_OID :: section_id where
  "Section_OID \<equiv> 19"

abbreviation (input) Section_Operator :: section_id where
  "Section_Operator \<equiv> 20"

abbreviation (input) Section_OperatorClass :: section_id where
  "Section_OperatorClass \<equiv> 21"

abbreviation (input) Section_OperatorFamily :: section_id where
  "Section_OperatorFamily \<equiv> 22"

abbreviation (input) Section_PrimaryKey :: section_id where
  "Section_PrimaryKey \<equiv> 23"

abbreviation (input) Section_Procedure :: section_id where
  "Section_Procedure \<equiv> 24"

abbreviation (input) Section_Publication :: section_id where
  "Section_Publication \<equiv> 25"

abbreviation (input) Section_RowLevelSecurity :: section_id where
  "Section_RowLevelSecurity \<equiv> 26"

abbreviation (input) Section_Sequence :: section_id where
  "Section_Sequence \<equiv> 27"

abbreviation (input) Section_Subscription :: section_id where
  "Section_Subscription \<equiv> 28"

abbreviation (input) Section_Table :: section_id where
  "Section_Table \<equiv> 29"

abbreviation (input) Section_TextSearchConfig :: section_id where
  "Section_TextSearchConfig \<equiv> 30"

abbreviation (input) Section_TextSearchDictionary :: section_id where
  "Section_TextSearchDictionary \<equiv> 31"

abbreviation (input) Section_TextSearchParser :: section_id where
  "Section_TextSearchParser \<equiv> 32"

abbreviation (input) Section_TextSearchTemplate :: section_id where
  "Section_TextSearchTemplate \<equiv> 33"

abbreviation (input) Section_Trigger :: section_id where
  "Section_Trigger \<equiv> 34"

abbreviation (input) Section_Type :: section_id where
  "Section_Type \<equiv> 35"

abbreviation (input) Section_UniqueKey :: section_id where
  "Section_UniqueKey \<equiv> 36"

abbreviation (input) Section_User :: section_id where
  "Section_User \<equiv> 37"

abbreviation (input) Section_View :: section_id where
  "Section_View \<equiv> 38"

abbreviation (input) Section_Tablespace :: section_id where
  "Section_Tablespace \<equiv> 39"

abbreviation (input) Section_Inheritance :: section_id where
  "Section_Inheritance \<equiv> 40"

text \<open>The number of listener slots of the registry.\<close>

definition section_count :: byte where
  "section_count = 40"

definition section_names :: "(section_id \<times> string) list" where
  "section_names = [
     (Section_Null, ''Null''),
     (Section_AccessMethod, ''AccessMethod''),
     (Section_Cast, ''Cast''),
     (Section_Check, ''Check''),
     (Section_Collation, ''Collation''),
     (Section_ColumnDefault, ''ColumnDefault''),
     (Section_Database, ''Database''),
     (Section_EnumLabel, ''EnumLabel''),
     (Section_EventTrigger, ''EventTrigger''),
     (Section_ExclusionConstraint, ''ExclusionConstraint''),
     (Section_Extension, ''Extension''),
     (Section_ForeignKey, ''ForeignKey''),
     (Section_ForeignDataWrapper, ''ForeignDataWrapper''),
     (Section_ForeignServer, ''ForeignServer''),
     (Section_ForeignTable, ''ForeignTable''),
     (Section_Function, ''Function''),
     (Section_FunctionLanguage, ''FunctionLanguage''),
     (Section_Index, ''Index''),
     (Section_Namespace, ''Namespace''),
     (Section_OID, ''OID''),
     (Section_Operator, ''Operator''),
     (Section_OperatorClass, ''OperatorClass''),
     (Section_OperatorFamily, ''OperatorFamily''),
     (Section_PrimaryKey, ''PrimaryKey''),
     (Section_Procedure, ''Procedure''),
     (Section_Publication, ''Publication''),
     (Section_RowLevelSecurity, ''RowLevelSecurity''),
     (Section_Sequence, ''Sequence''),
     (Section_Subscription, ''Subscription''),
     (Section_Table, ''Table''),
     (Section_TextSearchConfig, ''TextSearchConfig''),
     (Section_TextSearchDictionary, ''TextSearchDictionary''),
     (Section_TextSearchParser, ''TextSearchParser''),
     (Section_TextSearchTemplate, ''TextSearchTemplate''),
     (Section_Trigger, ''Trigger''),
     (Section_Type, ''Type''),
     (Section_UniqueKey, ''UniqueKey''),
     (Section_User, ''User''),
     (Section_View, ''View''),
     (Section_Tablespace, ''Tablespace'')]"

definition Section_String :: "section_id \<Rightarrow> gostring" where
  "Section_String s = (case map_of section_names s of
     Some n \<Rightarrow> gs n | None \<Rightarrow> gs ''UNKNOWN_SECTION'')"

section \<open>Making ids\<close>

type_synonym Id = gostring

definition formatMask :: byte where
  "formatMask = 0x80"

definition idSeparator :: byte where
  "idSeparator = 0"

definition Null_Id :: Id where
  "Null_Id = []"

text \<open>The segments behind the first one are written with a separator in front.\<close>

fun join_segments :: "gostring list \<Rightarrow> gostring" where
  "join_segments [] = []"
| "join_segments [s] = s"
| "join_segments (s # ss) = s @ idSeparator # join_segments ss"

definition newIdSecondFormat :: "section_id \<Rightarrow> gostring list \<Rightarrow> Id" where
  "newIdSecondFormat sec data = (sec OR formatMask) # join_segments data"

text \<open>The loop that writes the length bytes, which stops at a segment that is too long.\<close>

fun segment_lengths :: "gostring list \<Rightarrow> byte list option" where
  "segment_lengths [] = Some []"
| "segment_lengths (s # ss) =
     (if length s > 255 then None
      else do { ls \<leftarrow> segment_lengths ss; Some (of_nat (length s) # ls) })"

definition NewId :: "section_id \<Rightarrow> gostring list \<Rightarrow> Id" where
  "NewId sec data =
     (if sec = Section_Null then Null_Id
      else if length data > 255 then newIdSecondFormat sec data
      else (case segment_lengths data of
        None \<Rightarrow> newIdSecondFormat sec data
      | Some ls \<Rightarrow> [sec, of_nat (length data)] @ ls @ concat data))"

section \<open>Reading ids\<close>

definition Id_IsValid :: "Id \<Rightarrow> bool" where
  "Id_IsValid i \<longleftrightarrow> length i > 0"

definition Id_Section :: "Id \<Rightarrow> section_id" where
  "Id_Section i = (if length i = 0 then Section_Null else hd i AND NOT formatMask)"

definition usesSecondFormat :: "Id \<Rightarrow> bool" where
  "usesSecondFormat i \<longleftrightarrow> length i > 0 \<and> hd i AND formatMask = formatMask"

text \<open>\<open>strings.Split\<close> at a separator of one byte: always at least one segment.\<close>

fun go_split :: "byte \<Rightarrow> gostring \<Rightarrow> gostring list" where
  "go_split sep [] = [[]]"
| "go_split sep (b # bs) =
     (if b = sep then [] # go_split sep bs
      else (case go_split sep bs of [] \<Rightarrow> [[b]] | s # ss \<Rightarrow> (b # s) # ss))"

text \<open>
  The first format: the count byte, the length bytes \<open>id[2+i]\<close> and the data behind them. \<open>None\<close> when
  the string ends before the last length byte.
\<close>

definition first_format_parts :: "Id \<Rightarrow> (byte list \<times> gostring) option" where
  "first_format_parts i =
     (let segmentCount = unat (i ! 1) in
      if 2 + segmentCount \<le> length i
      then Some (take segmentCount (drop 2 i), drop (2 + segmentCount) i) else None)"

fun cut_segments :: "byte list \<Rightarrow> gostring \<Rightarrow> gostring list option" where
  "cut_segments [] data = Some []"
| "cut_segments (l # ls) data =
     (if unat l \<le> length data
      then do { ss \<leftarrow> cut_segments ls (drop (unat l) data); Some (take (unat l) data # ss) }
      else None)"

definition Id_Data :: "Id \<Rightarrow> gostring list option" where
  "Id_Data i =
     (if length i \<le> 1 then Some []
      else if hd i AND formatMask = formatMask then Some (go_split idSeparator (drop 1 i))
      else do { (ls, data) \<leftarrow> first_format_parts i; cut_segments ls data })"

definition Id_SegmentCount :: "Id \<Rightarrow> nat option" where
  "Id_SegmentCount i =
     (if length i \<le> 1 then Some 0
      else if hd i AND formatMask = formatMask then map_option length (Id_Data i)
      else Some (unat (i ! 1)))"

text \<open>The loop of \<open>Segment\<close> adds up the lengths in front of the segment.\<close>

definition Id_Segment :: "Id \<Rightarrow> int \<Rightarrow> gostring option" where
  "Id_Segment i index =
     (if index < 0 \<or> length i \<le> 1 then Some []
      else if hd i AND formatMask = formatMask
      then do {
        data \<leftarrow> Id_Data i;
        if index \<ge> int (length data) then Some [] else Some (data ! nat index)
      }
      else do {
        (ls, data) \<leftarrow> first_format_parts i;
        if index \<ge> int (length ls) then Some []
        else do {
          let start = sum_list (map unat (take (nat index) ls));
          let currentLength = unat (ls ! nat index);
          if start + currentLength \<le> length data
          then Some (take currentLength (drop start data)) else None
        }
      })"

text \<open>\<open>strings.Join(data, sep)\<close> and the display form.\<close>

fun go_join :: "gostring \<Rightarrow> gostring list \<Rightarrow> gostring" where
  "go_join sep [] = []"
| "go_join sep [s] = s"
| "go_join sep (s # ss) = s @ sep @ go_join sep ss"

definition Id_String :: "Id \<Rightarrow> gostring option" where
  "Id_String i = do {
     data \<leftarrow> Id_Data i;
     if length data = 0 then Some (gs ''{'' @ Section_String (Id_Section i) @ gs '':[]}'')
     else Some (gs ''{'' @ Section_String (Id_Section i) @ gs '':['' @ [34] @ go_join [34, 44, 34] data
       @ [34] @ gs '']}'')
   }"

text \<open>\<open>strings.ReplaceAll\<close> of one byte, \<open>%02x\<close> with the escape in front, and the quoted form of an id.\<close>

definition replace_byte :: "byte \<Rightarrow> gostring \<Rightarrow> gostring \<Rightarrow> gostring" where
  "replace_byte b new s = concat (map (\<lambda>c. if c = b then new else [c]) s)"

definition hex_digit :: "nat \<Rightarrow> byte" where
  "hex_digit n = of_nat (if n < 10 then 48 + n else 87 + n)"

definition hex_escape :: "byte \<Rightarrow> gostring" where
  "hex_escape b = [92, 120, hex_digit (unat b div 16), hex_digit (unat b mod 16)]"

definition Id_CaseString :: "Id \<Rightarrow> gostring option" where
  "Id_CaseString i =
     (if length i = 0 then Some [34, 34]
      else if hd i AND formatMask = formatMask
      then (let data = replace_byte 34 (hex_escape 34) (replace_byte 0 (hex_escape 0) (drop 1 i)) in
        Some ([34] @ hex_escape (hd i) @ data @ [34]))
      else if length i = 1 then None
      else do {
        (ls, data) \<leftarrow> first_format_parts i;
        Some ([34] @ hex_escape (hd i) @ hex_escape (i ! 1) @ concat (map hex_escape ls)
          @ replace_byte 34 (hex_escape 34) data @ [34])
      })"

section \<open>Lemmas on segments\<close>

text \<open>The segments that the first format can hold.\<close>

definition fits_first :: "gostring list \<Rightarrow> bool" where
  "fits_first data \<longleftrightarrow> length data \<le> 255 \<and> (\<forall>s \<in> set data. length s \<le> 255)"

lemma segment_lengths_eq:
  "segment_lengths data =
     (if \<forall>s \<in> set data. length s \<le> 255 then Some (map (\<lambda>s. of_nat (length s)) data) else None)"
  by (induction data) auto

lemma NewId_eq:
  "sec \<noteq> 0 \<Longrightarrow> NewId sec data =
     (if fits_first data
      then [sec, of_nat (length data)] @ map (\<lambda>s. of_nat (length s)) data @ concat data
      else newIdSecondFormat sec data)"
  by (auto simp: NewId_def segment_lengths_eq fits_first_def)

lemma unat_len_byte: "n \<le> 255 \<Longrightarrow> unat (of_nat n :: byte) = n"
  by (simp add: unsigned_of_nat take_bit_eq_mod)

lemma cut_segments_concat:
  "\<forall>s \<in> set data. length s \<le> 255 \<Longrightarrow>
   cut_segments (map (\<lambda>s. of_nat (length s)) data) (concat data) = Some data"
  by (induction data) (auto simp: unat_len_byte)

lemma go_split_not_Nil [simp]: "go_split sep s \<noteq> []"
  by (induction s) (auto split: list.splits)

lemma go_split_append:
  "sep \<notin> set s \<Longrightarrow> go_split sep (s @ sep # t) = s # go_split sep t"
  by (induction s) auto

lemma go_split_plain: "sep \<notin> set s \<Longrightarrow> go_split sep s = [s]"
  by (induction s) auto

lemma go_split_join:
  "data \<noteq> [] \<Longrightarrow> \<forall>s \<in> set data. idSeparator \<notin> set s \<Longrightarrow> go_split idSeparator (join_segments data) = data"
  by (induction data rule: join_segments.induct) (auto simp: go_split_plain go_split_append)

lemma go_split_no_separator: "t \<in> set (go_split sep s) \<Longrightarrow> sep \<notin> set t"
  by (induction s arbitrary: t) (auto split: list.splits if_splits)

lemma first_format_NewId:
  assumes "sec \<noteq> 0" and "fits_first data"
  shows "first_format_parts (NewId sec data) = Some (map (\<lambda>s. of_nat (length s)) data, concat data)"
  using assms
  by (simp add: NewId_eq first_format_parts_def unat_len_byte fits_first_def)

lemma low_section_bits:
  assumes "(sec :: byte) < 0x80"
  shows "sec AND formatMask \<noteq> formatMask" and "(sec OR formatMask) AND formatMask = formatMask"
    and "sec AND NOT formatMask = sec" and "(sec OR formatMask) AND NOT formatMask = sec"
proof -
  have "\<not> bit sec n" if "n = 7" for n
    using bit_imp_unat_ge [of sec 7] assms that by (auto simp: word_less_nat_alt)
  then have no: "bit sec n \<Longrightarrow> n \<noteq> 7" for n by auto
  have f: "bit formatMask n \<longleftrightarrow> n = 7" for n
    unfolding formatMask_def using bit_exp_iff [where m = 7 and n = n and 'a = byte]
    by (auto simp: possible_bit_def)
  have "\<not> bit (sec AND formatMask) 7" "bit formatMask 7" using no by (auto simp: bit_and_iff f)
  then show "sec AND formatMask \<noteq> formatMask" by metis
  show "(sec OR formatMask) AND formatMask = formatMask" "sec AND NOT formatMask = sec"
    "(sec OR formatMask) AND NOT formatMask = sec"
    by (rule bit_word_eqI; auto simp: bit_and_iff bit_or_iff bit_not_iff f dest: no)+
qed

lemma join_segments_length:
  "\<not> fits_first data \<Longrightarrow> 0 < length (join_segments data)"
proof -
  have "length data + sum_list (map length data) \<le> Suc (length (join_segments data))"
    by (induction data rule: join_segments.induct) auto
  moreover assume "\<not> fits_first data"
  then have "255 < length data \<or> (\<exists>s \<in> set data. 255 < length s)" by (auto simp: fits_first_def not_le)
  then have "1 < length data + sum_list (map length data)"
  proof
    assume "\<exists>s \<in> set data. 255 < length s"
    then obtain s where "s \<in> set data" "255 < length s" by auto
    moreover have "length s \<le> sum_list (map length data)"
      using \<open>s \<in> set data\<close> by (simp add: member_le_sum_list)
    ultimately show ?thesis by simp
  qed simp
  ultimately show ?thesis by linarith
qed

text \<open>What an id can hold: segments for the first format, or segments without the separator.\<close>

definition id_data_ok :: "gostring list \<Rightarrow> bool" where
  "id_data_ok data \<longleftrightarrow> fits_first data \<or> (\<forall>s \<in> set data. idSeparator \<notin> set s)"

lemma Id_Data_NewId:
  assumes "sec \<noteq> 0" "sec < 0x80" "id_data_ok data"
  shows "Id_Data (NewId sec data) = Some data"
proof (cases "fits_first data")
  case True
  then show ?thesis
    using assms first_format_NewId [OF assms(1) True]
    by (simp add: Id_Data_def NewId_eq low_section_bits cut_segments_concat fits_first_def)
next
  case False
  then have "data \<noteq> []" by (auto simp: fits_first_def)
  with False assms show ?thesis
    by (auto simp: Id_Data_def NewId_eq newIdSecondFormat_def low_section_bits go_split_join id_data_ok_def
      dest!: join_segments_length)
qed

lemma Id_SegmentCount_NewId:
  assumes "sec \<noteq> 0" "sec < 0x80" "id_data_ok data"
  shows "Id_SegmentCount (NewId sec data) = Some (length data)"
proof (cases "fits_first data")
  case True
  then show ?thesis
    using assms by (simp add: Id_SegmentCount_def NewId_eq low_section_bits unat_len_byte fits_first_def)
next
  case False
  then show ?thesis
    using assms Id_Data_NewId [OF assms] join_segments_length [OF False]
    by (simp add: Id_SegmentCount_def NewId_eq newIdSecondFormat_def low_section_bits)
qed

lemma take_drop_concat:
  assumes "k < length data"
  shows "take (length (data ! k)) (drop (sum_list (map length (take k data))) (concat data)) = data ! k"
    and "sum_list (map length (take k data)) + length (data ! k) \<le> length (concat data)"
proof -
  have split: "concat data = concat (take k data) @ (data ! k) @ concat (drop (Suc k) data)"
    using assms by (metis id_take_nth_drop concat_append concat.simps(2))
  have len: "sum_list (map length (take k data)) = length (concat (take k data))"
    by (simp add: length_concat)
  show "take (length (data ! k)) (drop (sum_list (map length (take k data))) (concat data)) = data ! k"
    unfolding len by (subst split) simp
  show "sum_list (map length (take k data)) + length (data ! k) \<le> length (concat data)"
    unfolding len using arg_cong [OF split, of length] by simp
qed

lemma Id_Segment_NewId:
  assumes "sec \<noteq> 0" "sec < 0x80" "id_data_ok data"
  shows "Id_Segment (NewId sec data) index =
     Some (if 0 \<le> index \<and> index < int (length data) then data ! nat index else [])"
proof (cases "fits_first data")
  case True
  let ?k = "nat index"
  have lens: "map unat (take ?k (map (\<lambda>s. of_nat (length s) :: byte) data)) = map length (take ?k data)"
    using True by (auto simp: fits_first_def unat_len_byte take_map dest!: in_set_takeD)
  have "length (NewId sec data) > 1" "hd (NewId sec data) = sec"
    using True assms by (simp_all add: NewId_eq)
  then show ?thesis
    using True assms first_format_NewId [OF assms(1) True] take_drop_concat [of ?k data] lens
    by (auto simp: Id_Segment_def low_section_bits unat_len_byte fits_first_def Let_def nat_less_iff not_le)
next
  case False
  then have "hd (NewId sec data) = sec OR formatMask" "length (NewId sec data) > 1"
    using assms join_segments_length [OF False] by (simp_all add: NewId_eq newIdSecondFormat_def)
  then show ?thesis
    using assms Id_Data_NewId [OF assms] by (auto simp: Id_Segment_def low_section_bits not_le)
qed

lemma Id_Section_NewId:
  assumes "sec \<noteq> 0" "sec < 0x80"
  shows "Id_Section (NewId sec data) = sec"
  using assms by (auto simp: Id_Section_def NewId_eq newIdSecondFormat_def low_section_bits)

lemma NewId_valid: "sec \<noteq> 0 \<Longrightarrow> Id_IsValid (NewId sec data)"
  by (simp add: Id_IsValid_def NewId_eq newIdSecondFormat_def)

end
