(* ===== verification/Id_Wrappers.thy ===== *)
theory Id_Wrappers
  imports Ids
begin

text \<open>
  The typed ids of \<open>src/core/id/id_wrappers.go\<close>: one constructor per kind, which gives the null id when
  it has nothing to name, and one accessor per segment. Every wrapper type is the type of ids itself,
  so \<open>AsId\<close> is the identity and \<open>IsValid\<close> is the one of ids.
\<close>

section \<open>Constructors\<close>

definition NewAccessMethod :: "gostring \<Rightarrow> Id" where
  "NewAccessMethod methodName =
     (if length methodName = 0 then Null_Id
      else NewId Section_AccessMethod [methodName])"

definition NewCast :: "gostring \<Rightarrow> gostring \<Rightarrow> Id" where
  "NewCast sourceType targetType =
     (if length sourceType = 0 \<and> length targetType = 0 then Null_Id
      else NewId Section_Cast [sourceType, targetType])"

definition NewCheck :: "gostring \<Rightarrow> gostring \<Rightarrow> gostring \<Rightarrow> Id" where
  "NewCheck schemaName tableName checkName =
     (if length schemaName = 0 \<and> length tableName = 0 \<and> length checkName = 0 then Null_Id
      else NewId Section_Check [schemaName, tableName, checkName])"

definition NewCollation :: "gostring \<Rightarrow> gostring \<Rightarrow> Id" where
  "NewCollation schemaName collationName =
     (if length schemaName = 0 \<and> length collationName = 0 then Null_Id
      else NewId Section_Collation [schemaName, collationName])"

definition NewColumnDefault :: "gostring \<Rightarrow> gostring \<Rightarrow> gostring \<Rightarrow> Id" where
  "NewColumnDefault schemaName tableName columnName =
     (if length schemaName = 0 \<and> length tableName = 0 \<and> length columnName = 0 then Null_Id
      else NewId Section_ColumnDefault [schemaName, tableName, columnName])"

definition NewDatabase :: "gostring \<Rightarrow> Id" where
  "NewDatabase dbName =
     (if length dbName = 0 then Null_Id
      else NewId Section_Database [dbName])"

definition NewEnumLabel :: "gostring \<Rightarrow> gostring \<Rightarrow> Id" where
  "NewEnumLabel parent label =
     (if length parent = 0 \<and> length label = 0 then Null_Id
      else NewId Section_EnumLabel [parent, label])"

definition NewExtension :: "gostring \<Rightarrow> Id" where
  "NewExtension name =
     (if length name = 0 then Null_Id
      else NewId Section_Extension [name])"

definition NewForeignKey :: "gostring \<Rightarrow> gostring \<Rightarrow> gostring \<Rightarrow> Id" where
  "NewForeignKey schemaName tableName fkName =
     (if length schemaName = 0 \<and> length tableName = 0 \<and> length fkName = 0 then Null_Id
      else NewId Section_ForeignKey [schemaName, tableName, fkName])"

definition NewFunctionLanguage :: "gostring \<Rightarrow> Id" where
  "NewFunctionLanguage languageName =
     (if length languageName = 0 then Null_Id
      else NewId Section_FunctionLanguage [languageName])"

definition NewIndex :: "gostring \<Rightarrow> gostring \<Rightarrow> gostring \<Rightarrow> Id" where
  "NewIndex schemaName tableName indexName =
     (if length schemaName = 0 \<and> length tableName = 0 \<and> length indexName = 0 then Null_Id
      else NewId Section_Index [schemaName, tableName, indexName])"

definition NewNamespace :: "gostring \<Rightarrow> Id" where
  "NewNamespace schemaName =
     (if length schemaName = 0 then Null_Id
      else NewId Section_Namespace [schemaName])"

definition NewOperator :: "gostring \<Rightarrow> gostring \<Rightarrow> gostring \<Rightarrow> gostring \<Rightarrow> Id" where
  "NewOperator schemaName symbol leftType rightType =
     (if length symbol = 0 then Null_Id
      else NewId Section_Operator [schemaName, symbol, leftType, rightType])"

definition NewSequence :: "gostring \<Rightarrow> gostring \<Rightarrow> Id" where
  "NewSequence schemaName sequenceName =
     (if length schemaName = 0 \<and> length sequenceName = 0 then Null_Id
      else NewId Section_Sequence [schemaName, sequenceName])"

definition NewTable :: "gostring \<Rightarrow> gostring \<Rightarrow> Id" where
  "NewTable schemaName tableName =
     (if length schemaName = 0 \<and> length tableName = 0 then Null_Id
      else NewId Section_Table [schemaName, tableName])"

definition NewInheritance :: "gostring \<Rightarrow> gostring \<Rightarrow> Id" where
  "NewInheritance schemaName tableName =
     (if schemaName = [] \<and> tableName = [] then Null_Id
      else NewId Section_Inheritance [schemaName, tableName])"

definition NewTablespace :: "gostring \<Rightarrow> Id" where
  "NewTablespace tablespaceName =
     (if length tablespaceName = 0 then Null_Id
      else NewId Section_Tablespace [tablespaceName])"

definition NewTrigger :: "gostring \<Rightarrow> gostring \<Rightarrow> gostring \<Rightarrow> Id" where
  "NewTrigger schemaName tableName triggerName =
     (if length schemaName = 0 \<and> length tableName = 0 \<and> length triggerName = 0 then Null_Id
      else NewId Section_Trigger [schemaName, tableName, triggerName])"

definition NewType :: "gostring \<Rightarrow> gostring \<Rightarrow> Id" where
  "NewType schemaName typeName =
     (if length schemaName = 0 \<and> length typeName = 0 then Null_Id
      else NewId Section_Type [schemaName, typeName])"

definition NewView :: "gostring \<Rightarrow> gostring \<Rightarrow> Id" where
  "NewView schemaName viewName =
     (if length schemaName = 0 \<and> length viewName = 0 then Null_Id
      else NewId Section_View [schemaName, viewName])"

definition NewFunction :: "gostring \<Rightarrow> gostring \<Rightarrow> Id list \<Rightarrow> Id" where
  "NewFunction schemaName funcName params =
     (if length schemaName = 0 \<and> length funcName = 0 \<and> length params = 0 then Null_Id
      else NewId Section_Function ([schemaName, funcName] @ params))"

definition NewProcedure :: "gostring \<Rightarrow> gostring \<Rightarrow> Id list \<Rightarrow> Id" where
  "NewProcedure schemaName procName params =
     (if length schemaName = 0 \<and> length procName = 0 \<and> length params = 0 then Null_Id
      else NewId Section_Procedure ([schemaName, procName] @ params))"

text \<open>\<open>strconv.FormatUint\<close> and \<open>strconv.ParseUint(s, 10, 32)\<close>, whose error the caller drops: the number
  that comes with a syntax error is 0, with a range error the largest \<open>uint32\<close>.\<close>

definition digit_byte :: "nat \<Rightarrow> byte" where
  "digit_byte d = of_nat (48 + d)"

fun format_uint :: "nat \<Rightarrow> gostring" where
  "format_uint n =
     (if n < 10 then [digit_byte n] else format_uint (n div 10) @ [digit_byte (n mod 10)])"

declare format_uint.simps [simp del]

fun parse_digits :: "nat \<Rightarrow> gostring \<Rightarrow> nat" where
  "parse_digits n [] = n"
| "parse_digits n (c # cs) =
     (if 48 \<le> unat c \<and> unat c \<le> 57
      then let n1 = n * 10 + (unat c - 48) in
        if n1 > 2 ^ 32 - 1 then 2 ^ 32 - 1 else parse_digits n1 cs
      else 0)"

definition parse_uint32 :: "gostring \<Rightarrow> nat" where
  "parse_uint32 s = (if s = [] then 0 else parse_digits 0 s)"

definition NewOID :: "uint32 \<Rightarrow> Id" where
  "NewOID val = NewId Section_OID [format_uint (unat val)]"

section \<open>Accessors\<close>

definition Inheritance_SchemaName :: "Id \<Rightarrow> gostring option" where
  [id_accessors]: "Inheritance_SchemaName i = Id_Segment i 0"

definition Inheritance_TableName :: "Id \<Rightarrow> gostring option" where
  [id_accessors]: "Inheritance_TableName i = Id_Segment i 1"

definition AccessMethod_MethodName :: "Id \<Rightarrow> gostring option" where
  [id_accessors]: "AccessMethod_MethodName i = Id_Segment i 0"

definition Cast_SourceType :: "Id \<Rightarrow> gostring option" where
  [id_accessors]: "Cast_SourceType i = Id_Segment i 0"

definition Cast_TargetType :: "Id \<Rightarrow> gostring option" where
  [id_accessors]: "Cast_TargetType i = Id_Segment i 1"

definition Check_CheckName :: "Id \<Rightarrow> gostring option" where
  [id_accessors]: "Check_CheckName i = Id_Segment i 2"

definition Check_SchemaName :: "Id \<Rightarrow> gostring option" where
  [id_accessors]: "Check_SchemaName i = Id_Segment i 0"

definition Check_TableName :: "Id \<Rightarrow> gostring option" where
  [id_accessors]: "Check_TableName i = Id_Segment i 1"

definition Collation_CollationName :: "Id \<Rightarrow> gostring option" where
  [id_accessors]: "Collation_CollationName i = Id_Segment i 1"

definition Collation_SchemaName :: "Id \<Rightarrow> gostring option" where
  [id_accessors]: "Collation_SchemaName i = Id_Segment i 0"

definition ColumnDefault_ColumnName :: "Id \<Rightarrow> gostring option" where
  [id_accessors]: "ColumnDefault_ColumnName i = Id_Segment i 2"

definition ColumnDefault_SchemaName :: "Id \<Rightarrow> gostring option" where
  [id_accessors]: "ColumnDefault_SchemaName i = Id_Segment i 0"

definition ColumnDefault_TableName :: "Id \<Rightarrow> gostring option" where
  [id_accessors]: "ColumnDefault_TableName i = Id_Segment i 1"

definition Database_DatabaseName :: "Id \<Rightarrow> gostring option" where
  [id_accessors]: "Database_DatabaseName i = Id_Segment i 0"

definition EnumLabel_Parent :: "Id \<Rightarrow> gostring option" where
  [id_accessors]: "EnumLabel_Parent i = Id_Segment i 0"

definition EnumLabel_Label :: "Id \<Rightarrow> gostring option" where
  [id_accessors]: "EnumLabel_Label i = Id_Segment i 1"

definition Extension_Name :: "Id \<Rightarrow> gostring option" where
  [id_accessors]: "Extension_Name i = Id_Segment i 0"

definition ForeignKey_ForeignKeyName :: "Id \<Rightarrow> gostring option" where
  [id_accessors]: "ForeignKey_ForeignKeyName i = Id_Segment i 2"

definition ForeignKey_SchemaName :: "Id \<Rightarrow> gostring option" where
  [id_accessors]: "ForeignKey_SchemaName i = Id_Segment i 0"

definition ForeignKey_TableName :: "Id \<Rightarrow> gostring option" where
  [id_accessors]: "ForeignKey_TableName i = Id_Segment i 1"

definition Function_FunctionName :: "Id \<Rightarrow> gostring option" where
  [id_accessors]: "Function_FunctionName i = Id_Segment i 1"

definition Function_SchemaName :: "Id \<Rightarrow> gostring option" where
  [id_accessors]: "Function_SchemaName i = Id_Segment i 0"

definition FunctionLanguage_LanguageName :: "Id \<Rightarrow> gostring option" where
  [id_accessors]: "FunctionLanguage_LanguageName i = Id_Segment i 0"

definition Index_IndexName :: "Id \<Rightarrow> gostring option" where
  [id_accessors]: "Index_IndexName i = Id_Segment i 2"

definition Index_SchemaName :: "Id \<Rightarrow> gostring option" where
  [id_accessors]: "Index_SchemaName i = Id_Segment i 0"

definition Index_TableName :: "Id \<Rightarrow> gostring option" where
  [id_accessors]: "Index_TableName i = Id_Segment i 1"

definition Namespace_SchemaName :: "Id \<Rightarrow> gostring option" where
  [id_accessors]: "Namespace_SchemaName i = Id_Segment i 0"

definition Operator_LeftType :: "Id \<Rightarrow> gostring option" where
  [id_accessors]: "Operator_LeftType i = Id_Segment i 2"

definition Operator_RightType :: "Id \<Rightarrow> gostring option" where
  [id_accessors]: "Operator_RightType i = Id_Segment i 3"

definition Operator_SchemaName :: "Id \<Rightarrow> gostring option" where
  [id_accessors]: "Operator_SchemaName i = Id_Segment i 0"

definition Operator_Symbol :: "Id \<Rightarrow> gostring option" where
  [id_accessors]: "Operator_Symbol i = Id_Segment i 1"

definition Procedure_ProcedureName :: "Id \<Rightarrow> gostring option" where
  [id_accessors]: "Procedure_ProcedureName i = Id_Segment i 1"

definition Procedure_SchemaName :: "Id \<Rightarrow> gostring option" where
  [id_accessors]: "Procedure_SchemaName i = Id_Segment i 0"

definition Sequence_SchemaName :: "Id \<Rightarrow> gostring option" where
  [id_accessors]: "Sequence_SchemaName i = Id_Segment i 0"

definition Sequence_SequenceName :: "Id \<Rightarrow> gostring option" where
  [id_accessors]: "Sequence_SequenceName i = Id_Segment i 1"

definition Table_SchemaName :: "Id \<Rightarrow> gostring option" where
  [id_accessors]: "Table_SchemaName i = Id_Segment i 0"

definition Table_TableName :: "Id \<Rightarrow> gostring option" where
  [id_accessors]: "Table_TableName i = Id_Segment i 1"

definition Tablespace_TablespaceName :: "Id \<Rightarrow> gostring option" where
  [id_accessors]: "Tablespace_TablespaceName i = Id_Segment i 0"

definition Trigger_SchemaName :: "Id \<Rightarrow> gostring option" where
  [id_accessors]: "Trigger_SchemaName i = Id_Segment i 0"

definition Trigger_TableName :: "Id \<Rightarrow> gostring option" where
  [id_accessors]: "Trigger_TableName i = Id_Segment i 1"

definition Trigger_TriggerName :: "Id \<Rightarrow> gostring option" where
  [id_accessors]: "Trigger_TriggerName i = Id_Segment i 2"

definition Type_SchemaName :: "Id \<Rightarrow> gostring option" where
  [id_accessors]: "Type_SchemaName i = Id_Segment i 0"

definition Type_TypeName :: "Id \<Rightarrow> gostring option" where
  [id_accessors]: "Type_TypeName i = Id_Segment i 1"

definition View_SchemaName :: "Id \<Rightarrow> gostring option" where
  [id_accessors]: "View_SchemaName i = Id_Segment i 0"

definition View_ViewName :: "Id \<Rightarrow> gostring option" where
  [id_accessors]: "View_ViewName i = Id_Segment i 1"

definition Function_Parameters :: "Id \<Rightarrow> Id list option" where
  "Function_Parameters i = do {
     data \<leftarrow> Id_Data i;
     if 2 \<le> length data then Some (drop 2 data) else None
   }"

definition Function_ParameterCount :: "Id \<Rightarrow> int option" where
  "Function_ParameterCount i = map_option (\<lambda>n. int n - 2) (Id_SegmentCount i)"

definition Procedure_Parameters :: "Id \<Rightarrow> Id list option" where
  "Procedure_Parameters i = do {
     data \<leftarrow> Id_Data i;
     if 2 \<le> length data then Some (drop 2 data) else None
   }"

definition Procedure_ParameterCount :: "Id \<Rightarrow> int option" where
  "Procedure_ParameterCount i = map_option (\<lambda>n. int n - 2) (Id_SegmentCount i)"

text \<open>The slice of parameter names has \<open>ParameterCount\<close> places, which must be as many as \<open>Parameters\<close>
  returns or more; a negative size panics.\<close>

fun type_names :: "Id list \<Rightarrow> gostring list option" where
  "type_names [] = Some []"
| "type_names (t # ts) = do { n \<leftarrow> Type_TypeName t; ns \<leftarrow> type_names ts; Some (n # ns) }"

definition Function_DisplayString :: "Id \<Rightarrow> gostring option" where
  "Function_DisplayString i =
     (if \<not> Id_IsValid i then Some []
      else do {
        count \<leftarrow> Function_ParameterCount i;
        if count < 0 then None else do {
          parameters \<leftarrow> Function_Parameters i;
          names \<leftarrow> type_names parameters;
          if int (length names) > count then None else do {
            fname \<leftarrow> Function_FunctionName i;
            Some (fname @ gs ''('' @ go_join (gs '', '')
              (names @ replicate (nat count - length names) []) @ gs '')'')
          }
        }
      })"

definition Oid_OID :: "Id \<Rightarrow> uint32 option" where
  "Oid_OID i = map_option (\<lambda>s. of_nat (parse_uint32 s)) (Id_Segment i 0)"

end
