(* ===== verification/Id_Props.thy ===== *)
theory Id_Props
  imports Id_Wrappers
begin

text \<open>
  What holds of ids: the contract of one section as a locale, the contract of a wrapper of fixed
  arity as an extension of it, one interpretation per wrapper, and the properties of the component.
\<close>

section \<open>The contract of a section\<close>

locale id_section =
  fixes sec :: section_id
  assumes not_null: "sec \<noteq> 0"
    and low: "sec < 0x80"
begin

lemmas data_NewId = Id_Data_NewId [OF not_null low]
  and count_NewId = Id_SegmentCount_NewId [OF not_null low]
  and segment_NewId = Id_Segment_NewId [OF not_null low]
  and section_NewId = Id_Section_NewId [OF not_null low]
  and valid_NewId = NewId_valid [OF not_null]

lemma data_NewId_iff: "Id_Data (NewId sec data) = Some data \<longleftrightarrow> id_data_ok data"
proof
  assume eq: "Id_Data (NewId sec data) = Some data"
  show "id_data_ok data"
  proof (cases "fits_first data")
    case False
    then have split: "go_split idSeparator (join_segments data) = data"
      using eq not_null low join_segments_length [OF False]
      by (simp add: Id_Data_def NewId_eq newIdSecondFormat_def low_section_bits)
    have "idSeparator \<notin> set s" if "s \<in> set data" for s
      using that by (intro go_split_no_separator [of s _ "join_segments data"]) (simp only: split)
    then show ?thesis by (simp add: id_data_ok_def)
  qed (simp add: id_data_ok_def)
qed (rule data_NewId)

lemma NewId_inj: "id_data_ok a \<Longrightarrow> id_data_ok b \<Longrightarrow> NewId sec a = NewId sec b \<Longrightarrow> a = b"
  by (metis data_NewId option.inject)

end

section \<open>The contract of a wrapper\<close>

locale id_wrapper = id_section +
  fixes arity :: nat
    and mk :: "gostring list \<Rightarrow> Id"
  assumes mk: "length args = arity \<Longrightarrow>
      mk args = (if set args \<subseteq> {[]} then Null_Id else NewId sec args)"
begin

lemma segment_mk:
  assumes "length args = arity" and "id_data_ok args" and "k < arity"
  shows "Id_Segment (mk args) (int k) = Some (args ! k)"
proof (cases "set args \<subseteq> {[]}")
  case True
  then have "args ! k = []" using assms nth_mem [of k args] by blast
  then show ?thesis using True assms by (simp add: mk Null_Id_def Id_Segment_def)
next
  case False
  then show ?thesis using assms by (simp add: mk segment_NewId)
qed

lemma section_mk: "length args = arity \<Longrightarrow> Id_IsValid (mk args) \<Longrightarrow> Id_Section (mk args) = sec"
  by (auto simp: mk section_NewId Null_Id_def Id_IsValid_def split: if_splits)

lemma valid_mk: "length args = arity \<Longrightarrow> Id_IsValid (mk args) \<longleftrightarrow> (\<exists>a \<in> set args. a \<noteq> [])"
  using valid_NewId by (auto simp: mk Null_Id_def Id_IsValid_def)

end

interpretation access_method_ids: id_wrapper Section_AccessMethod 1 "\<lambda>args. NewAccessMethod (args ! 0)"
  by unfold_locales (auto simp: NewAccessMethod_def length_eqs)

interpretation cast_ids: id_wrapper Section_Cast 2 "\<lambda>args. NewCast (args ! 0) (args ! 1)"
  by unfold_locales (auto simp: NewCast_def length_eqs)

interpretation check_ids: id_wrapper Section_Check 3 "\<lambda>args. NewCheck (args ! 0) (args ! 1) (args ! 2)"
  by unfold_locales (auto simp: NewCheck_def length_eqs)

interpretation collation_ids: id_wrapper Section_Collation 2 "\<lambda>args. NewCollation (args ! 0) (args ! 1)"
  by unfold_locales (auto simp: NewCollation_def length_eqs)

interpretation column_default_ids: id_wrapper Section_ColumnDefault 3 "\<lambda>args. NewColumnDefault (args ! 0) (args ! 1) (args ! 2)"
  by unfold_locales (auto simp: NewColumnDefault_def length_eqs)

interpretation database_ids: id_wrapper Section_Database 1 "\<lambda>args. NewDatabase (args ! 0)"
  by unfold_locales (auto simp: NewDatabase_def length_eqs)

interpretation enum_label_ids: id_wrapper Section_EnumLabel 2 "\<lambda>args. NewEnumLabel (args ! 0) (args ! 1)"
  by unfold_locales (auto simp: NewEnumLabel_def length_eqs)

interpretation extension_ids: id_wrapper Section_Extension 1 "\<lambda>args. NewExtension (args ! 0)"
  by unfold_locales (auto simp: NewExtension_def length_eqs)

interpretation foreign_key_ids: id_wrapper Section_ForeignKey 3 "\<lambda>args. NewForeignKey (args ! 0) (args ! 1) (args ! 2)"
  by unfold_locales (auto simp: NewForeignKey_def length_eqs)

interpretation function_language_ids: id_wrapper Section_FunctionLanguage 1 "\<lambda>args. NewFunctionLanguage (args ! 0)"
  by unfold_locales (auto simp: NewFunctionLanguage_def length_eqs)

interpretation index_ids: id_wrapper Section_Index 3 "\<lambda>args. NewIndex (args ! 0) (args ! 1) (args ! 2)"
  by unfold_locales (auto simp: NewIndex_def length_eqs)

interpretation namespace_ids: id_wrapper Section_Namespace 1 "\<lambda>args. NewNamespace (args ! 0)"
  by unfold_locales (auto simp: NewNamespace_def length_eqs)

interpretation sequence_ids: id_wrapper Section_Sequence 2 "\<lambda>args. NewSequence (args ! 0) (args ! 1)"
  by unfold_locales (auto simp: NewSequence_def length_eqs)

interpretation table_ids: id_wrapper Section_Table 2 "\<lambda>args. NewTable (args ! 0) (args ! 1)"
  by unfold_locales (auto simp: NewTable_def length_eqs)

interpretation inheritance_ids: id_wrapper Section_Inheritance 2 "\<lambda>args. NewInheritance (args ! 0) (args ! 1)"
  by unfold_locales (auto simp: NewInheritance_def length_eqs)

interpretation tablespace_ids: id_wrapper Section_Tablespace 1 "\<lambda>args. NewTablespace (args ! 0)"
  by unfold_locales (auto simp: NewTablespace_def length_eqs)

interpretation trigger_ids: id_wrapper Section_Trigger 3 "\<lambda>args. NewTrigger (args ! 0) (args ! 1) (args ! 2)"
  by unfold_locales (auto simp: NewTrigger_def length_eqs)

interpretation type_ids: id_wrapper Section_Type 2 "\<lambda>args. NewType (args ! 0) (args ! 1)"
  by unfold_locales (auto simp: NewType_def length_eqs)

interpretation view_ids: id_wrapper Section_View 2 "\<lambda>args. NewView (args ! 0) (args ! 1)"
  by unfold_locales (auto simp: NewView_def length_eqs)

interpretation operator_ids: id_section Section_Operator
  by unfold_locales auto

interpretation function_ids: id_section Section_Function
  by unfold_locales auto

interpretation procedure_ids: id_section Section_Procedure
  by unfold_locales auto

interpretation oid_ids: id_section Section_OID
  by unfold_locales auto

section \<open>Decimal numbers\<close>

lemma unat_digit [simp]: "n < 10 \<Longrightarrow> unat (digit_byte n) = 48 + n"
  unfolding digit_byte_def by (rule unat_len_byte) simp

lemma parse_digits_append_digit:
  assumes "10 * parse_digits n ds + d < 2 ^ 32" and "d < 10" and "\<forall>c \<in> set ds. 48 \<le> unat c \<and> unat c \<le> 57"
    and "parse_digits n ds < 2 ^ 32 - 1"
  shows "parse_digits n (ds @ [digit_byte d]) = 10 * parse_digits n ds + d"
  using assms by (induction ds arbitrary: n) (auto simp: Let_def split: if_splits)

lemma format_uint_digits: "\<forall>c \<in> set (format_uint n). 48 \<le> unat c \<and> unat c \<le> 57"
proof (induction n rule: format_uint.induct)
  case (1 n)
  then show ?case by (subst format_uint.simps) auto
qed

lemma format_uint_not_Nil [simp]: "format_uint n \<noteq> []"
  by (subst format_uint.simps) simp

lemma parse_format_uint: "n < 2 ^ 32 \<Longrightarrow> parse_digits 0 (format_uint n) = n"
proof (induction n rule: format_uint.induct)
  case (1 n)
  show ?case
  proof (cases "n < 10")
    case True
    then show ?thesis by (subst format_uint.simps) (simp add: Let_def)
  next
    case False
    then have ih: "parse_digits 0 (format_uint (n div 10)) = n div 10" using 1 by simp
    have "n div 10 < 2 ^ 32 - 1" and "10 * (n div 10) + n mod 10 < 2 ^ 32" using "1.prems" by simp_all
    then show ?thesis
      using parse_digits_append_digit [of 0 "format_uint (n div 10)" "n mod 10"] ih False
        format_uint_digits [of "n div 10"]
      by (subst format_uint.simps) simp
  qed
qed

section \<open>Properties\<close>

text \<open>The wrappers of one name give back through their accessors what their constructor was given.
  The hypothesis holds for all names of at most 255 bytes, and for names of any length without a zero byte.\<close>

theorem one_name_wrappers: "id_data_ok [a] \<Longrightarrow>
   AccessMethod_MethodName (NewAccessMethod a) = Some a \<and>
   Database_DatabaseName (NewDatabase a) = Some a \<and>
   Extension_Name (NewExtension a) = Some a \<and>
   FunctionLanguage_LanguageName (NewFunctionLanguage a) = Some a \<and>
   Namespace_SchemaName (NewNamespace a) = Some a \<and>
   Tablespace_TablespaceName (NewTablespace a) = Some a"
  using access_method_ids.segment_mk [of "[a]" 0]
    database_ids.segment_mk [of "[a]" 0]
    extension_ids.segment_mk [of "[a]" 0]
    function_language_ids.segment_mk [of "[a]" 0]
    namespace_ids.segment_mk [of "[a]" 0]
    tablespace_ids.segment_mk [of "[a]" 0]
  by (simp add: id_accessors)

theorem one_name_wrappers_witness: "Namespace_SchemaName (NewNamespace (gs ''public'')) = Some (gs ''public'')"
  using one_name_wrappers [of "gs ''public''"] by (simp add: id_data_ok_def fits_first_def gs_def)

text \<open>The wrappers of two names give back through their accessors what their constructor was given.
  The hypothesis holds for all names of at most 255 bytes, and for names of any length without a zero byte.\<close>

theorem two_name_wrappers: "id_data_ok [a, b] \<Longrightarrow>
   Inheritance_SchemaName (NewInheritance a b) = Some a \<and>
   Inheritance_TableName (NewInheritance a b) = Some b \<and>
   Cast_SourceType (NewCast a b) = Some a \<and>
   Cast_TargetType (NewCast a b) = Some b \<and>
   Collation_CollationName (NewCollation a b) = Some b \<and>
   Collation_SchemaName (NewCollation a b) = Some a \<and>
   EnumLabel_Parent (NewEnumLabel a b) = Some a \<and>
   EnumLabel_Label (NewEnumLabel a b) = Some b \<and>
   Sequence_SchemaName (NewSequence a b) = Some a \<and>
   Sequence_SequenceName (NewSequence a b) = Some b \<and>
   Table_SchemaName (NewTable a b) = Some a \<and>
   Table_TableName (NewTable a b) = Some b \<and>
   Type_SchemaName (NewType a b) = Some a \<and>
   Type_TypeName (NewType a b) = Some b \<and>
   View_SchemaName (NewView a b) = Some a \<and>
   View_ViewName (NewView a b) = Some b"
  using inheritance_ids.segment_mk [of "[a, b]" 0]
    inheritance_ids.segment_mk [of "[a, b]" 1]
    cast_ids.segment_mk [of "[a, b]" 0]
    cast_ids.segment_mk [of "[a, b]" 1]
    collation_ids.segment_mk [of "[a, b]" 1]
    collation_ids.segment_mk [of "[a, b]" 0]
    enum_label_ids.segment_mk [of "[a, b]" 0]
    enum_label_ids.segment_mk [of "[a, b]" 1]
    sequence_ids.segment_mk [of "[a, b]" 0]
    sequence_ids.segment_mk [of "[a, b]" 1]
    table_ids.segment_mk [of "[a, b]" 0]
    table_ids.segment_mk [of "[a, b]" 1]
    type_ids.segment_mk [of "[a, b]" 0]
    type_ids.segment_mk [of "[a, b]" 1]
    view_ids.segment_mk [of "[a, b]" 0]
    view_ids.segment_mk [of "[a, b]" 1]
  by (simp add: id_accessors)

theorem two_name_wrappers_witness: "Table_TableName (NewTable (gs ''public'') (gs ''film'')) = Some (gs ''film'')"
  using two_name_wrappers [of "gs ''public''" "gs ''film''"] by (simp add: id_data_ok_def fits_first_def gs_def)

text \<open>The wrappers of three names give back through their accessors what their constructor was given.
  The hypothesis holds for all names of at most 255 bytes, and for names of any length without a zero byte.\<close>

theorem three_name_wrappers: "id_data_ok [a, b, c] \<Longrightarrow>
   Check_CheckName (NewCheck a b c) = Some c \<and>
   Check_SchemaName (NewCheck a b c) = Some a \<and>
   Check_TableName (NewCheck a b c) = Some b \<and>
   ColumnDefault_ColumnName (NewColumnDefault a b c) = Some c \<and>
   ColumnDefault_SchemaName (NewColumnDefault a b c) = Some a \<and>
   ColumnDefault_TableName (NewColumnDefault a b c) = Some b \<and>
   ForeignKey_ForeignKeyName (NewForeignKey a b c) = Some c \<and>
   ForeignKey_SchemaName (NewForeignKey a b c) = Some a \<and>
   ForeignKey_TableName (NewForeignKey a b c) = Some b \<and>
   Index_IndexName (NewIndex a b c) = Some c \<and>
   Index_SchemaName (NewIndex a b c) = Some a \<and>
   Index_TableName (NewIndex a b c) = Some b \<and>
   Trigger_SchemaName (NewTrigger a b c) = Some a \<and>
   Trigger_TableName (NewTrigger a b c) = Some b \<and>
   Trigger_TriggerName (NewTrigger a b c) = Some c"
  using check_ids.segment_mk [of "[a, b, c]" 2]
    check_ids.segment_mk [of "[a, b, c]" 0]
    check_ids.segment_mk [of "[a, b, c]" 1]
    column_default_ids.segment_mk [of "[a, b, c]" 2]
    column_default_ids.segment_mk [of "[a, b, c]" 0]
    column_default_ids.segment_mk [of "[a, b, c]" 1]
    foreign_key_ids.segment_mk [of "[a, b, c]" 2]
    foreign_key_ids.segment_mk [of "[a, b, c]" 0]
    foreign_key_ids.segment_mk [of "[a, b, c]" 1]
    index_ids.segment_mk [of "[a, b, c]" 2]
    index_ids.segment_mk [of "[a, b, c]" 0]
    index_ids.segment_mk [of "[a, b, c]" 1]
    trigger_ids.segment_mk [of "[a, b, c]" 0]
    trigger_ids.segment_mk [of "[a, b, c]" 1]
    trigger_ids.segment_mk [of "[a, b, c]" 2]
  by (simp add: id_accessors)

theorem three_name_wrappers_witness: "Index_IndexName (NewIndex (gs ''public'') (gs ''film'') (gs ''title'')) = Some (gs ''title'')"
  using three_name_wrappers [of "gs ''public''" "gs ''film''" "gs ''title''"] by (simp add: id_data_ok_def fits_first_def gs_def)

text \<open>Functions and procedures: schema, name, parameters and their number come back, unless nothing
  at all was given, which makes the null id.\<close>

theorem routine_ids_round_trip:
  assumes "id_data_ok ([s, n] @ ps)" and "s \<noteq> [] \<or> n \<noteq> [] \<or> ps \<noteq> []"
  shows "Function_SchemaName (NewFunction s n ps) = Some s \<and> Function_FunctionName (NewFunction s n ps) = Some n \<and>
    Function_Parameters (NewFunction s n ps) = Some ps \<and>
    Function_ParameterCount (NewFunction s n ps) = Some (int (length ps)) \<and>
    Procedure_SchemaName (NewProcedure s n ps) = Some s \<and>
    Procedure_ProcedureName (NewProcedure s n ps) = Some n \<and>
    Procedure_Parameters (NewProcedure s n ps) = Some ps \<and>
    Procedure_ParameterCount (NewProcedure s n ps) = Some (int (length ps))"
proof -
  have f: "NewFunction s n ps = NewId Section_Function ([s, n] @ ps)"
    and p: "NewProcedure s n ps = NewId Section_Procedure ([s, n] @ ps)"
    using assms(2) by (auto simp: NewFunction_def NewProcedure_def)
  show ?thesis
    unfolding f p using assms(1)
    by (simp add: id_accessors Function_Parameters_def Function_ParameterCount_def
        Procedure_Parameters_def Procedure_ParameterCount_def function_ids.segment_NewId
        function_ids.data_NewId function_ids.count_NewId procedure_ids.segment_NewId
        procedure_ids.data_NewId procedure_ids.count_NewId)
qed

theorem routine_ids_round_trip_witness:
  "Function_Parameters (NewFunction (gs ''public'') (gs ''f'') [NewType (gs ''pg_catalog'') (gs ''int4'')]) =
     Some [NewType (gs ''pg_catalog'') (gs ''int4'')]"
  using routine_ids_round_trip [of "gs ''public''" "gs ''f''" "[NewType (gs ''pg_catalog'') (gs ''int4'')]"]
  by (simp add: id_data_ok_def fits_first_def NewType_def NewId_eq gs_def)

lemma type_names_NewType:
  "\<forall>(a, b) \<in> set ts. id_data_ok [a, b] \<Longrightarrow> type_names (map (\<lambda>(a, b). NewType a b) ts) = Some (map snd ts)"
  using type_ids.segment_mk [of "[_, _]" 1] by (induction ts) (auto simp: Type_TypeName_def)

text \<open>The display form of a function is its name and the names of its parameter types.\<close>

theorem function_display_string:
  assumes "id_data_ok ([s, n] @ map (\<lambda>(a, b). NewType a b) ts)" and "n \<noteq> []"
    and "\<forall>(a, b) \<in> set ts. id_data_ok [a, b]"
  shows "Function_DisplayString (NewFunction s n (map (\<lambda>(a, b). NewType a b) ts)) =
    Some (n @ gs ''('' @ go_join (gs '', '') (map snd ts) @ gs '')'')"
proof -
  let ?ps = "map (\<lambda>(a, b). NewType a b) ts"
  have "NewFunction s n ?ps = NewId Section_Function ([s, n] @ ?ps)"
    using assms(2) by (simp add: NewFunction_def)
  then show ?thesis
    using assms type_names_NewType [OF assms(3)]
    by (simp add: Function_DisplayString_def Function_ParameterCount_def Function_Parameters_def
        Function_FunctionName_def function_ids.segment_NewId function_ids.data_NewId
        function_ids.count_NewId function_ids.valid_NewId)
qed

theorem function_display_string_witness:
  "Function_DisplayString (NewFunction (gs ''public'') (gs ''f'')
       [NewType (gs ''pg_catalog'') (gs ''int4''), NewType [] (gs ''text'')]) = Some (gs ''f(int4, text)'')"
  using function_display_string [of "gs ''public''" "gs ''f''"
      "[(gs ''pg_catalog'', gs ''int4''), ([], gs ''text'')]"]
  by (simp add: id_data_ok_def fits_first_def NewType_def NewId_eq gs_def)

lemma operator_accessors:
  assumes "id_data_ok [s, op, l, r]" and "op \<noteq> []"
  shows "Operator_SchemaName (NewOperator s op l r) = Some s" "Operator_Symbol (NewOperator s op l r) = Some op"
    "Operator_LeftType (NewOperator s op l r) = Some l" "Operator_RightType (NewOperator s op l r) = Some r"
  using assms by (simp_all add: id_accessors NewOperator_def operator_ids.segment_NewId)

text \<open>The number of an OID id comes back for every \<open>uint32\<close>.\<close>

theorem oid_round_trip: "Oid_OID (NewOID v) = Some v \<and> Id_Section (NewOID v) = Section_OID"
proof -
  have "0 \<notin> set (format_uint (unat v))"
  proof
    assume "0 \<in> set (format_uint (unat v))"
    then have "(48 :: nat) \<le> unat (0 :: byte)" using format_uint_digits by blast
    then show False by simp
  qed
  then have ok: "id_data_ok [format_uint (unat v)]" by (simp add: id_data_ok_def idSeparator_def)
  have "unat v < 2 ^ 32" using unat_less [of v] by simp
  then show ?thesis
    using parse_format_uint [of "unat v"] ok
    by (simp add: Oid_OID_def NewOID_def oid_ids.segment_NewId oid_ids.section_NewId parse_uint32_def)
qed

text \<open>C24. Ids of any section: the segments given to \<open>NewId\<close> come back exactly when they fit the first
  format (at most 255 segments of at most 255 bytes) or none of them has a zero byte; then the count,
  every single segment and the empty string outside them come back as well.\<close>

theorem id_round_trip:
  assumes "sec \<noteq> Section_Null" and "sec < 0x80"
  shows "(Id_Data (NewId sec data) = Some data \<longleftrightarrow>
      length data \<le> 255 \<and> (\<forall>s \<in> set data. length s \<le> 255) \<or> (\<forall>s \<in> set data. idSeparator \<notin> set s)) \<and>
    (Id_Data (NewId sec data) = Some data \<longrightarrow>
      Id_SegmentCount (NewId sec data) = Some (length data) \<and>
      (\<forall>index. Id_Segment (NewId sec data) index =
        Some (if 0 \<le> index \<and> index < int (length data) then data ! nat index else []))) \<and>
    Id_Section (NewId sec data) = sec \<and> Id_IsValid (NewId sec data)"
proof -
  have loc: "id_section sec" using assms by unfold_locales auto
  show ?thesis
    using id_section.data_NewId_iff [OF loc] id_section.count_NewId [OF loc] id_section.segment_NewId [OF loc]
      id_section.section_NewId [OF loc] id_section.valid_NewId [OF loc]
    by (simp add: id_data_ok_def fits_first_def)
qed

theorem id_round_trip_witness:
  "Id_Data (NewId Section_Table [[], [0]]) = Some [[], [0]] \<and>
   Id_Data (NewId Section_Table [replicate 256 0]) \<noteq> Some [replicate 256 0]"
  using id_round_trip [of Section_Table "[[], [0]]"] id_round_trip [of Section_Table "[replicate 256 0]"]
  by (simp add: idSeparator_def)

text \<open>Different sections or different segments give different ids.\<close>

theorem NewId_injective:
  assumes "sec \<noteq> Section_Null" "sec < 0x80" "sec' \<noteq> Section_Null" "sec' < 0x80"
    and "id_data_ok data" "id_data_ok data'" and "NewId sec data = NewId sec' data'"
  shows "sec = sec' \<and> data = data'"
  using assms Id_Section_NewId Id_Data_NewId by (metis option.inject)

theorem NewId_injective_witness:
  "NewId Section_Table [gs ''a'', gs ''bc''] \<noteq> NewId Section_Table [gs ''ab'', gs ''c'']"
  using NewId_injective [of Section_Table Section_Table "[gs ''a'', gs ''bc'']" "[gs ''ab'', gs ''c'']"]
  by (auto simp: id_data_ok_def fits_first_def gs_def)

end
