(* ===== verification/Id_Cache.thy ===== *)
theory Id_Cache
  imports Id_Wrappers
begin

text \<open>
  The server session's cache between ids and OIDs: \<open>src/core/id/cache.go\<close>. The state is the pair of
  maps of \<open>cacheStruct\<close>. \<open>ToOID\<close> takes the lock twice, once for reading and once for writing, so it is
  split there into two steps; a panic is \<open>None\<close>. The checksum is the one of \<open>hash/crc32\<close> with the
  Castagnoli table.
\<close>

unbundle bit_operations_syntax

section \<open>The checksum of hash/crc32\<close>

definition crc_bit :: "uint32 \<Rightarrow> uint32" where
  "crc_bit c = (if bit c 0 then drop_bit 1 c XOR 0x82F63B78 else drop_bit 1 c)"

definition crcTable :: "byte \<Rightarrow> uint32" where
  "crcTable b = (crc_bit ^^ 8) (ucast b)"

fun crc_update :: "uint32 \<Rightarrow> byte list \<Rightarrow> uint32" where
  "crc_update crc [] = crc"
| "crc_update crc (v # p) = crc_update (crcTable (ucast crc XOR v) XOR drop_bit 8 crc) p"

definition crc32_Checksum :: "byte list \<Rightarrow> uint32" where
  "crc32_Checksum p = NOT (crc_update (NOT 0) p)"

section \<open>State and operations\<close>

record cacheStruct =
  toOID :: "(Id, uint32) gomap"
  toInternal :: "(uint32, Id) gomap"

definition builtinOidLimit :: uint32 where
  "builtinOidLimit = 65535"

definition globalCache :: cacheStruct where
  "globalCache = \<lparr>toOID = [(Null_Id, 0)], toInternal = [(0, Null_Id)]\<rparr>"

text \<open>The assignments to both maps that every successful branch makes.\<close>

definition cache_assign :: "cacheStruct \<Rightarrow> Id \<Rightarrow> uint32 \<Rightarrow> cacheStruct" where
  "cache_assign cache i oid =
     \<lparr>toOID = gm_set i oid (toOID cache), toInternal = gm_set oid i (toInternal cache)\<rparr>"

text \<open>
  The two retry loops. The first counts a byte up to 255, writes it into \<open>modifiedBytes\<close> and takes the
  checksum of \<open>underlyingBytes\<close> again; the second counts \<open>i\<close> down to the limit and looks up \<open>oid\<close>.
\<close>

function retry_modified :: "cacheStruct \<Rightarrow> Id \<Rightarrow> nat \<Rightarrow> uint32 \<Rightarrow> (uint32 \<times> cacheStruct) + uint32" where
  "retry_modified cache i n oid =
     (if n < 255 then
        let oid = crc32_Checksum i in
        if gm_get (toInternal cache) oid = None \<and> oid > builtinOidLimit
        then Inl (oid, cache_assign cache i oid)
        else retry_modified cache i (n + 1) oid
      else Inr oid)"
  by pat_completeness auto
termination by (relation "measure (\<lambda>(_, _, n, _). 255 - n)") auto

declare retry_modified.simps [simp del]

function search_empty :: "cacheStruct \<Rightarrow> Id \<Rightarrow> nat \<Rightarrow> uint32 \<Rightarrow> (uint32 \<times> cacheStruct) option" where
  "search_empty cache i n oid =
     (if n > unat builtinOidLimit then
        if gm_get (toInternal cache) oid = None then Some (oid, cache_assign cache i oid)
        else search_empty cache i (n - 1) oid
      else None)"
  by pat_completeness auto
termination by (relation "measure (\<lambda>(_, _, n, _). n)") auto

declare search_empty.simps [simp del]

text \<open>The part of \<open>ToOID\<close> under the write lock.\<close>

definition ToOID_locked :: "cacheStruct \<Rightarrow> Id \<Rightarrow> (uint32 \<times> cacheStruct) option" where
  "ToOID_locked cache i =
     (let oid = crc32_Checksum i in
      if gm_get (toInternal cache) oid = None \<and> oid > builtinOidLimit
      then Some (oid, cache_assign cache i oid)
      else (case retry_modified cache i 0 oid of
        Inl r \<Rightarrow> Some r
      | Inr oid' \<Rightarrow> search_empty cache i 4294967295 oid'))"

definition ToOID :: "cacheStruct \<Rightarrow> Id \<Rightarrow> (uint32 \<times> cacheStruct) option" where
  "ToOID cache i =
     (case gm_get (toOID cache) i of
        Some oid \<Rightarrow> Some (oid, cache)
      | None \<Rightarrow>
          if Id_Section i = Section_OID then map_option (\<lambda>oid. (oid, cache)) (Oid_OID i)
          else ToOID_locked cache i)"

definition ToInternal :: "cacheStruct \<Rightarrow> uint32 \<Rightarrow> Id" where
  "ToInternal cache oid = (case gm_get (toInternal cache) oid of Some i \<Rightarrow> i | None \<Rightarrow> [])"

definition Exists :: "cacheStruct \<Rightarrow> Id \<Rightarrow> bool" where
  "Exists cache i \<longleftrightarrow> gm_get (toOID cache) i \<noteq> None"

definition setBuiltIn :: "cacheStruct \<Rightarrow> Id \<Rightarrow> uint32 \<Rightarrow> cacheStruct option" where
  "setBuiltIn cache i oid = (if oid > builtinOidLimit then None else Some (cache_assign cache i oid))"

definition cache_update :: "cacheStruct \<Rightarrow> Id \<Rightarrow> Id \<Rightarrow> cacheStruct" where
  "cache_update cache old new =
     (case gm_get (toOID cache) old of
        None \<Rightarrow> cache
      | Some oid \<Rightarrow>
          cache_assign \<lparr>toOID = gm_del old (toOID cache), toInternal = gm_del oid (toInternal cache)\<rparr> new oid)"

text \<open>
  \<open>src/core/id/cache_builtins.go\<close>: the ids of a section with a built-in OID, sorted by OID. The
  comparison reads \<open>toOID\<close>, where a missing key counts as 0.
\<close>

definition cached_oid :: "cacheStruct \<Rightarrow> Id \<Rightarrow> uint32" where
  "cached_oid cache i = (case gm_get (toOID cache) i of Some oid \<Rightarrow> oid | None \<Rightarrow> 0)"

definition BuiltIns :: "cacheStruct \<Rightarrow> section_id \<Rightarrow> Id list" where
  "BuiltIns cache sec =
     sort_key (cached_oid cache)
       (map snd (filter (\<lambda>(oid, i). oid \<le> builtinOidLimit \<and> Id_Section i = sec) (toInternal cache)))"

text \<open>\<open>src/core/id/cache_access_method_defaults.go\<close>, one of the files that fill the cache.\<close>

definition access_method_builtins :: "(Id \<times> uint32) list" where
  "access_method_builtins =
     map (\<lambda>(n, oid). (NewId Section_AccessMethod [gs n], oid))
       [(''heap'', 2), (''btree'', 403), (''hash'', 405), (''gist'', 783), (''gin'', 2742),
        (''brin'', 3580), (''spgist'', 4000)]"

fun set_builtins :: "cacheStruct \<Rightarrow> (Id \<times> uint32) list \<Rightarrow> cacheStruct option" where
  "set_builtins cache [] = Some cache"
| "set_builtins cache ((i, oid) # rest) = do { cache' \<leftarrow> setBuiltIn cache i oid; set_builtins cache' rest }"

section \<open>Concurrent callers\<close>

text \<open>
  A caller of \<open>ToOID\<close> is about to look the id up, or has missed and waits for the write lock, or has
  returned, or has panicked. One step of one caller is one critical section.
\<close>

datatype caller = Calling Id | Missed Id | Returned Id uint32 | Panicked Id

inductive caller_step :: "cacheStruct \<Rightarrow> caller \<Rightarrow> cacheStruct \<Rightarrow> caller \<Rightarrow> bool" where
  hit: "gm_get (toOID cache) i = Some oid \<Longrightarrow> caller_step cache (Calling i) cache (Returned i oid)"
| literal: "gm_get (toOID cache) i = None \<Longrightarrow> Id_Section i = Section_OID \<Longrightarrow> Oid_OID i = Some oid \<Longrightarrow>
    caller_step cache (Calling i) cache (Returned i oid)"
| literal_panic: "gm_get (toOID cache) i = None \<Longrightarrow> Id_Section i = Section_OID \<Longrightarrow> Oid_OID i = None \<Longrightarrow>
    caller_step cache (Calling i) cache (Panicked i)"
| miss: "gm_get (toOID cache) i = None \<Longrightarrow> Id_Section i \<noteq> Section_OID \<Longrightarrow>
    caller_step cache (Calling i) cache (Missed i)"
| insert: "ToOID_locked cache i = Some (oid, cache') \<Longrightarrow>
    caller_step cache (Missed i) cache' (Returned i oid)"
| insert_panic: "ToOID_locked cache i = None \<Longrightarrow> caller_step cache (Missed i) cache (Panicked i)"

inductive_cases caller_step_Calling [elim!]: "caller_step cache (Calling i) cache' t'"
inductive_cases caller_step_Missed [elim!]: "caller_step cache (Missed i) cache' t'"
inductive_cases caller_step_Returned [elim!]: "caller_step cache (Returned i oid) cache' t'"
inductive_cases caller_step_Panicked [elim!]: "caller_step cache (Panicked i) cache' t'"

inductive runs :: "cacheStruct \<times> caller list \<Rightarrow> cacheStruct \<times> caller list \<Rightarrow> bool" where
  runs_refl: "runs s s"
| runs_step: "runs s (cache, ts) \<Longrightarrow> k < length ts \<Longrightarrow> caller_step cache (ts ! k) cache' t' \<Longrightarrow>
    runs s (cache', ts[k := t'])"

section \<open>Lemmas on the operations\<close>

definition cache_inv :: "cacheStruct \<Rightarrow> bool" where
  "cache_inv cache \<longleftrightarrow>
     (\<forall>i oid. gm_get (toOID cache) i = Some oid \<longrightarrow> gm_get (toInternal cache) oid = Some i)"

lemma cache_inv_global: "cache_inv globalCache"
  by (simp add: cache_inv_def globalCache_def gm_get_def)

lemma cache_inv_assign:
  "cache_inv cache \<Longrightarrow> gm_get (toInternal cache) oid = None \<or> gm_get (toInternal cache) oid = Some i \<Longrightarrow>
   cache_inv (cache_assign cache i oid)"
  by (auto simp: cache_inv_def cache_assign_def)

lemma retry_modified_eq:
  "\<not> (gm_get (toInternal cache) (crc32_Checksum i) = None \<and> crc32_Checksum i > builtinOidLimit) \<Longrightarrow>
   n \<le> 255 \<Longrightarrow> oid = crc32_Checksum i \<Longrightarrow> retry_modified cache i n oid = Inr (crc32_Checksum i)"
proof (induction cache i n oid rule: retry_modified.induct)
  case (1 cache i n oid)
  then show ?case by (subst retry_modified.simps) (auto simp: Let_def)
qed

lemma search_empty_eq:
  "n > unat builtinOidLimit \<Longrightarrow> search_empty cache i n oid =
     (if gm_get (toInternal cache) oid = None then Some (oid, cache_assign cache i oid) else None)"
proof (induction cache i n oid rule: search_empty.induct)
  case (1 cache i n oid)
  show ?case
  proof (cases "n - 1 > unat builtinOidLimit")
    case True
    then show ?thesis using 1 by (subst search_empty.simps) auto
  next
    case False
    then have "search_empty cache i (n - 1) oid = None" by (subst search_empty.simps) simp
    then show ?thesis using 1 by (subst search_empty.simps) auto
  qed
qed

lemma ToOID_locked_eq:
  "ToOID_locked cache i =
     (if gm_get (toInternal cache) (crc32_Checksum i) = None
      then Some (crc32_Checksum i, cache_assign cache i (crc32_Checksum i)) else None)"
proof -
  have "search_empty cache i 4294967295 (crc32_Checksum i) =
    (if gm_get (toInternal cache) (crc32_Checksum i) = None
     then Some (crc32_Checksum i, cache_assign cache i (crc32_Checksum i)) else None)"
    by (rule search_empty_eq) (simp add: builtinOidLimit_def)
  then show ?thesis
    by (auto simp: ToOID_locked_def Let_def retry_modified_eq)
qed

lemma ToOID_locked_Some:
  assumes "ToOID_locked cache i = Some (oid, cache')"
  shows "oid = crc32_Checksum i" "gm_get (toInternal cache) oid = None" "cache' = cache_assign cache i oid"
  using assms by (auto simp: ToOID_locked_eq split: if_splits)

lemma cache_inv_setBuiltIn:
  "cache_inv cache \<Longrightarrow> gm_get (toInternal cache) oid = None \<Longrightarrow> setBuiltIn cache i oid = Some cache' \<Longrightarrow>
   cache_inv cache'"
  by (auto simp: setBuiltIn_def cache_inv_assign split: if_splits)

lemma set_builtins_inv:
  "cache_inv cache \<Longrightarrow> distinct (map snd bs) \<Longrightarrow> \<forall>oid \<in> set (map snd bs). gm_get (toInternal cache) oid = None \<Longrightarrow>
   set_builtins cache bs = Some cache' \<Longrightarrow> cache_inv cache'"
proof (induction cache bs rule: set_builtins.induct)
  case (2 cache i oid rest)
  then obtain c1 where c1: "setBuiltIn cache i oid = Some c1" "set_builtins c1 rest = Some cache'"
    by (auto split: bind_splits)
  then have "c1 = cache_assign cache i oid" by (auto simp: setBuiltIn_def split: if_splits)
  then have "\<forall>o' \<in> set (map snd rest). gm_get (toInternal c1) o' = None"
    using 2 by (auto simp: cache_assign_def image_iff)
  then show ?case using 2 c1 by (auto intro: cache_inv_setBuiltIn)
qed simp

lemma cache_inv_inj:
  "cache_inv cache \<Longrightarrow> gm_get (toOID cache) i = Some oid \<Longrightarrow> gm_get (toOID cache) j = Some oid \<Longrightarrow> i = j"
  by (metis cache_inv_def option.inject)

lemma cache_inv_update: "cache_inv cache \<Longrightarrow> cache_inv (cache_update cache old new)"
  using cache_inv_inj [of cache]
  by (fastforce simp: cache_inv_def cache_update_def cache_assign_def split: option.splits)

end
