(* ===== verification/Id_Registry.thy ===== *)
theory Id_Registry
  imports Ids
begin

text \<open>
  The listeners on changes of ids: \<open>src/core/id/registry.go\<close>. A listener is the pair of functions of the
  interface \<open>Listener\<close>; both may change the context \<open>'s\<close> of the session and return an error. The
  registry has one slot per section below \<open>section_count\<close>; an access outside panics (\<open>None\<close>).
\<close>

datatype Operation = Operation_Rename | Operation_Delete | Operation_Delete_Cascade

definition Operation_String :: "Operation \<Rightarrow> gostring" where
  "Operation_String op = (case op of
     Operation_Rename \<Rightarrow> gs ''Rename''
   | Operation_Delete \<Rightarrow> gs ''Delete''
   | Operation_Delete_Cascade \<Rightarrow> gs ''DeleteCascade'')"

type_synonym ('s, 'e) listener_fn = "Operation \<Rightarrow> gostring \<Rightarrow> Id \<Rightarrow> Id \<Rightarrow> 's \<Rightarrow> 's \<times> 'e option"

record ('s, 'e) Listener =
  OperationPerformer :: "('s, 'e) listener_fn"
  OperationValidator :: "('s, 'e) listener_fn"

type_synonym ('s, 'e) registry = "('s, 'e) Listener list list"

definition globalRegistry :: "('s, 'e) registry" where
  "globalRegistry = replicate (unat section_count) []"

fun RegisterListener :: "('s, 'e) registry \<Rightarrow> ('s, 'e) Listener \<Rightarrow> section_id list \<Rightarrow> ('s, 'e) registry option" where
  "RegisterListener reg l [] = Some reg"
| "RegisterListener reg l (sec # secs) =
     (if sec = Section_Null then RegisterListener reg l secs
      else if unat sec < length reg
      then RegisterListener (reg[unat sec := reg ! unat sec @ [l]]) l secs
      else None)"

text \<open>The loop of both operations: the first error ends it.\<close>

fun call_each :: "('s \<Rightarrow> 's \<times> 'e option) list \<Rightarrow> 's \<Rightarrow> 's \<times> 'e option" where
  "call_each [] ctx = (ctx, None)"
| "call_each (f # fs) ctx =
     (case f ctx of (ctx', Some err) \<Rightarrow> (ctx', Some err) | (ctx', None) \<Rightarrow> call_each fs ctx')"

definition PerformOperation ::
  "('s, 'e) registry \<Rightarrow> section_id \<Rightarrow> Operation \<Rightarrow> gostring \<Rightarrow> Id \<Rightarrow> Id \<Rightarrow> 's \<Rightarrow> ('s \<times> 'e option) option" where
  "PerformOperation reg sec op db orig new ctx =
     (if unat sec < length reg
      then Some (call_each (map (\<lambda>l. OperationPerformer l op db orig new) (reg ! unat sec)) ctx)
      else None)"

definition ValidateOperation ::
  "('s, 'e) registry \<Rightarrow> section_id \<Rightarrow> Operation \<Rightarrow> gostring \<Rightarrow> Id \<Rightarrow> Id \<Rightarrow> 's \<Rightarrow> ('s \<times> 'e option) option" where
  "ValidateOperation reg sec op db orig new ctx =
     (if unat sec < length reg
      then Some (call_each (map (\<lambda>l. OperationValidator l op db orig new) (reg ! unat sec)) ctx)
      else None)"

section \<open>Lemmas\<close>

lemma call_each_append:
  "call_each (fs @ hs) ctx =
     (case call_each fs ctx of (ctx', Some err) \<Rightarrow> (ctx', Some err) | (ctx', None) \<Rightarrow> call_each hs ctx')"
  by (induction fs arbitrary: ctx) (auto split: prod.splits option.splits)

lemma call_each_single: "call_each [f] ctx = f ctx"
  by (auto split: prod.splits option.splits)

lemma RegisterListener_Some:
  "RegisterListener reg l secs = Some reg' \<Longrightarrow>
   length reg' = length reg \<and>
   (\<forall>k < length reg. reg' ! k = reg ! k @ replicate (length (filter (\<lambda>s. s \<noteq> 0 \<and> unat s = k) secs)) l)"
proof (induction reg l secs rule: RegisterListener.induct)
  case (2 reg l sec secs)
  then show ?case
    by (auto split: if_splits simp: nth_list_update replicate_app_Cons_same)
qed simp

lemma RegisterListener_None_iff:
  "RegisterListener reg l secs = None \<longleftrightarrow> (\<exists>s \<in> set secs. s \<noteq> 0 \<and> length reg \<le> unat s)"
  by (induction reg l secs rule: RegisterListener.induct) (auto simp: not_less)

end
