(* ===== verification/Id_Cache_Props.thy ===== *)
theory Id_Cache_Props
  imports Id_Cache Id_Registry
begin

text \<open>
  Properties of the OID cache and of the listener registry: the invariant of the two maps, what
  sequential and concurrent callers of \<open>ToOID\<close> get, when it panics, and the order of listeners.
\<close>

section \<open>The invariant as a contract\<close>

text \<open>
  A session state with an invariant, an assignment that extends it and a lookup: what the callers of
  the cache rely on, independent of how a number is chosen.
\<close>

fun call_all :: "('c \<Rightarrow> Id \<Rightarrow> (uint32 \<times> 'c) option) \<Rightarrow> 'c \<Rightarrow> Id list \<Rightarrow> (uint32 list \<times> 'c) option" where
  "call_all call c [] = Some ([], c)"
| "call_all call c (i # is) =
     do { (n, c') \<leftarrow> call c i; (ns, c'') \<leftarrow> call_all call c' is; Some (n # ns, c'') }"

locale id_numbering =
  fixes inv :: "'c \<Rightarrow> bool"
    and oid_of :: "'c \<Rightarrow> Id \<Rightarrow> uint32 option"
    and call :: "'c \<Rightarrow> Id \<Rightarrow> (uint32 \<times> 'c) option"
    and cached :: "Id \<Rightarrow> bool"
  assumes inj: "inv c \<Longrightarrow> oid_of c i = Some n \<Longrightarrow> oid_of c j = Some n \<Longrightarrow> i = j"
    and call_inv: "inv c \<Longrightarrow> call c i = Some (n, c') \<Longrightarrow> inv c'"
    and call_assigns: "call c i = Some (n, c') \<Longrightarrow> cached i \<Longrightarrow> oid_of c' i = Some n"
    and call_keeps: "inv c \<Longrightarrow> call c i = Some (n, c') \<Longrightarrow> oid_of c j = Some m \<Longrightarrow> oid_of c' j = Some m"
    and call_known: "oid_of c i = Some n \<Longrightarrow> call c i = Some (n, c)"
begin

lemma calls_keep: "inv c \<Longrightarrow> call_all call c is = Some (ns, c') \<Longrightarrow> oid_of c j = Some m \<Longrightarrow> oid_of c' j = Some m"
proof (induction "is" arbitrary: c ns)
  case (Cons i "is")
  then obtain n c1 ms where "call c i = Some (n, c1)" "call_all call c1 is = Some (ms, c')"
    by (auto split: bind_splits)
  with Cons call_inv call_keeps show ?case by metis
qed simp

lemma calls_assign:
  "inv c \<Longrightarrow> call_all call c is = Some (ns, c') \<Longrightarrow> \<forall>i \<in> set is. cached i \<Longrightarrow>
   inv c' \<and> map (oid_of c') is = map Some ns"
proof (induction "is" arbitrary: c ns)
  case (Cons i "is")
  then obtain n c1 ms where c1: "call c i = Some (n, c1)" "call_all call c1 is = Some (ms, c')" "ns = n # ms"
    by (auto split: bind_splits)
  then have "inv c1" "oid_of c1 i = Some n" using Cons.prems call_inv call_assigns by auto
  with c1 have "oid_of c' i = Some n" by (blast intro: calls_keep)
  then show ?case using Cons.IH [OF \<open>inv c1\<close> c1(2)] Cons.prems c1(3) by simp
qed simp

lemma calls_agree:
  assumes "inv c" "call_all call c is = Some (ns, c')" "\<forall>i \<in> set is. cached i" "a < length is" "b < length is"
  shows "ns ! a = ns ! b \<longleftrightarrow> is ! a = is ! b"
proof -
  have len: "length ns = length is"
    using calls_assign [OF assms(1-3)] by (metis length_map)
  have at: "oid_of c' (is ! k) = Some (ns ! k)" if "k < length is" for k
    using calls_assign [OF assms(1-3)] that len by (metis nth_map)
  show ?thesis
    using at [OF assms(4)] at [OF assms(5)] inj calls_assign [OF assms(1-3)] by (metis option.inject)
qed

end

definition not_oid_id :: "Id \<Rightarrow> bool" where
  "not_oid_id i \<longleftrightarrow> Id_Section i \<noteq> Section_OID"

lemma ToOID_cases:
  assumes "ToOID cache i = Some (oid, cache')"
  obtains "gm_get (toOID cache) i = Some oid" "cache' = cache"
  | "gm_get (toOID cache) i = None" "Id_Section i = Section_OID" "Oid_OID i = Some oid" "cache' = cache"
  | "gm_get (toOID cache) i = None" "Id_Section i \<noteq> Section_OID" "oid = crc32_Checksum i"
    "gm_get (toInternal cache) oid = None" "cache' = cache_assign cache i oid"
  using assms by (auto simp: ToOID_def ToOID_locked_eq split: option.splits if_splits)

interpretation cache_numbering: id_numbering cache_inv "\<lambda>c. gm_get (toOID c)" ToOID not_oid_id
proof
  fix c c' i j n m
  show "cache_inv c \<Longrightarrow> gm_get (toOID c) i = Some n \<Longrightarrow> gm_get (toOID c) j = Some n \<Longrightarrow> i = j"
    by (rule cache_inv_inj)
  show "cache_inv c \<Longrightarrow> ToOID c i = Some (n, c') \<Longrightarrow> cache_inv c'"
    by (elim ToOID_cases) (auto intro: cache_inv_assign)
  show "ToOID c i = Some (n, c') \<Longrightarrow> not_oid_id i \<Longrightarrow> gm_get (toOID c') i = Some n"
    by (elim ToOID_cases) (auto simp: not_oid_id_def cache_assign_def)
  show "cache_inv c \<Longrightarrow> ToOID c i = Some (n, c') \<Longrightarrow> gm_get (toOID c) j = Some m \<Longrightarrow> gm_get (toOID c') j = Some m"
    by (elim ToOID_cases) (auto simp: cache_assign_def)
  show "gm_get (toOID c) i = Some n \<Longrightarrow> ToOID c i = Some (n, c)" by (simp add: ToOID_def)
qed

section \<open>Concurrent callers\<close>

definition settled :: "cacheStruct \<Rightarrow> caller \<Rightarrow> bool" where
  "settled cache t \<longleftrightarrow> (case t of
     Returned i oid \<Rightarrow> Id_Section i \<noteq> Section_OID \<longrightarrow> gm_get (toOID cache) i = Some oid
   | Missed i \<Rightarrow> Id_Section i \<noteq> Section_OID \<and> gm_get (toOID cache) i \<in> {None, Some (crc32_Checksum i)}
   | _ \<Rightarrow> True)"

definition system_inv :: "cacheStruct \<times> caller list \<Rightarrow> bool" where
  "system_inv s \<longleftrightarrow> cache_inv (fst s) \<and> list_all (settled (fst s)) (snd s)"

definition extends_cache :: "cacheStruct \<Rightarrow> cacheStruct \<Rightarrow> bool" where
  "extends_cache cache cache' \<longleftrightarrow> cache' = cache \<or>
     (\<exists>i. gm_get (toOID cache) i = None \<and> gm_get (toInternal cache) (crc32_Checksum i) = None \<and>
       cache' = cache_assign cache i (crc32_Checksum i))"

lemma caller_step_extends:
  assumes "caller_step cache t cache' t'" "cache_inv cache" "settled cache t"
  shows "extends_cache cache cache'"
  using assms
proof cases
  case (insert i oid)
  have "gm_get (toOID cache) i \<noteq> Some (crc32_Checksum i)"
    using ToOID_locked_Some [OF insert(3)] assms(2) by (auto simp: cache_inv_def)
  then show ?thesis
    using insert assms(3) ToOID_locked_Some [OF insert(3)] by (auto simp: extends_cache_def settled_def)
qed (auto simp: extends_cache_def)

lemma extends_cache_inv: "extends_cache cache cache' \<Longrightarrow> cache_inv cache \<Longrightarrow> cache_inv cache'"
  by (auto simp: extends_cache_def intro: cache_inv_assign)

lemma extends_settled: "extends_cache cache cache' \<Longrightarrow> settled cache t \<Longrightarrow> settled cache' t"
  by (auto simp: extends_cache_def settled_def cache_assign_def split: caller.splits if_splits)

lemma caller_step_settled:
  "caller_step cache t cache' t' \<Longrightarrow> settled cache' t'"
  by (induction rule: caller_step.induct)
    (auto simp: settled_def cache_assign_def dest: ToOID_locked_Some)

lemma runs_to:
  "runs s (cache, ts) \<Longrightarrow> k < length ts \<Longrightarrow> caller_step cache (ts ! k) cache' t' \<Longrightarrow> ts' = ts[k := t'] \<Longrightarrow>
   runs s (cache', ts')"
  using runs_step by blast

lemma runs_inv: "runs s s' \<Longrightarrow> system_inv s \<Longrightarrow> system_inv s'"
proof (induction rule: runs.induct)
  case (runs_step s cache ts k cache' t')
  then have inv: "cache_inv cache" "list_all (settled cache) ts" by (auto simp: system_inv_def)
  then have "extends_cache cache cache'"
    using runs_step by (auto intro!: caller_step_extends simp: list_all_length)
  then show ?case
    using inv runs_step.hyps caller_step_settled
    by (auto simp: system_inv_def list_all_length nth_list_update intro: extends_cache_inv extends_settled)
qed

lemma system_inv_initial: "cache_inv cache \<Longrightarrow> system_inv (cache, map Calling is)"
  by (simp add: system_inv_def list_all_length settled_def)

section \<open>Concrete ids\<close>

abbreviation public_table :: "string \<Rightarrow> Id" where
  "public_table n \<equiv> NewTable (gs ''public'') (gs n)"

lemma public_table_bytes:
  "public_table ''ezyv'' = [29, 2, 6, 4, 112, 117, 98, 108, 105, 99, 101, 122, 121, 118]"
  "public_table ''wcjifoae'' = [29, 2, 6, 8, 112, 117, 98, 108, 105, 99, 119, 99, 106, 105, 102, 111, 97, 101]"
  "public_table ''ccaoacux'' = [29, 2, 6, 8, 112, 117, 98, 108, 105, 99, 99, 99, 97, 111, 97, 99, 117, 120]"
  by (simp_all add: NewTable_def NewId_eq fits_first_def gs_def)

lemma crc_bit_eight:
  "(crc_bit ^^ 8) c = crc_bit (crc_bit (crc_bit (crc_bit (crc_bit (crc_bit (crc_bit (crc_bit c)))))))"
  by (simp add: numeral_eq_Suc)

lemma crc_start: "crc32_Checksum p = crc_update 0xFFFFFFFF p XOR 0xFFFFFFFF"
proof -
  have ones: "(0xFFFFFFFF :: uint32) = NOT 0" by simp
  show ?thesis unfolding ones by (simp add: crc32_Checksum_def)
qed

lemma table_checksums:
  "crc32_Checksum (public_table ''ezyv'') = 23117"
  "crc32_Checksum (public_table ''wcjifoae'') = 1966639533"
  "crc32_Checksum (public_table ''ccaoacux'') = 1966639533"
  unfolding public_table_bytes by (simp_all add: crc_start crcTable_def crc_bit_eight crc_bit_def)

lemma table_sections:
  "Id_Section (public_table ''ezyv'') \<noteq> Section_OID" "Id_Section (public_table ''wcjifoae'') \<noteq> Section_OID"
  "Id_Section (public_table ''ccaoacux'') \<noteq> Section_OID"
  unfolding public_table_bytes by (simp_all add: Id_Section_def formatMask_def)

lemma fresh_tables:
  "gm_get (toOID globalCache) (public_table ''ezyv'') = None" "gm_get (toOID globalCache) (public_table ''wcjifoae'') = None"
  unfolding public_table_bytes by (simp_all add: globalCache_def Null_Id_def gm_get_def)

lemmas concrete_ids = table_checksums table_sections globalCache_def cache_assign_def Null_Id_def gm_get_def
  gm_set_def

section \<open>Properties\<close>

text \<open>In one session the calls of \<open>ToOID\<close>, one after another, number the ids: two calls return the same
  OID exactly when they were given the same id (ids that are OIDs themselves apart), every OID leads back to
  its id through \<open>ToInternal\<close>, and the invariant of the two maps is kept.\<close>

theorem ToOID_sequence:
  assumes "cache_inv cache" and "call_all ToOID cache is = Some (oids, cache')"
    and "\<forall>i \<in> set is. Id_Section i \<noteq> Section_OID"
  shows "cache_inv cache' \<and> length oids = length is \<and>
    (\<forall>a < length is. ToInternal cache' (oids ! a) = is ! a \<and> Exists cache' (is ! a)) \<and>
    (\<forall>a < length is. \<forall>b < length is. oids ! a = oids ! b \<longleftrightarrow> is ! a = is ! b)"
proof -
  have ok: "\<forall>i \<in> set is. not_oid_id i" using assms(3) by (simp add: not_oid_id_def)
  have inv: "cache_inv cache'" and oids: "map (\<lambda>i. gm_get (toOID cache') i) is = map Some oids"
    using cache_numbering.calls_assign [OF assms(1,2) ok] by auto
  have len: "length oids = length is" using oids by (metis length_map)
  have at: "gm_get (toOID cache') (is ! a) = Some (oids ! a)" if "a < length is" for a
    using oids that len by (metis nth_map)
  have "ToInternal cache' (oids ! a) = is ! a \<and> Exists cache' (is ! a)" if "a < length is" for a
    using at [OF that] inv by (auto simp: cache_inv_def ToInternal_def Exists_def)
  then show ?thesis using inv len cache_numbering.calls_agree [OF assms(1,2) ok] by simp
qed

theorem ToOID_sequence_witness:
  "\<exists>cache'. call_all ToOID globalCache [public_table ''ezyv'', public_table ''wcjifoae'', public_table ''ezyv''] =
      Some ([23117, 1966639533, 23117], cache') \<and> ToInternal cache' 23117 = public_table ''ezyv''"
proof -
  let ?is = "[public_table ''ezyv'', public_table ''wcjifoae'', public_table ''ezyv'']"
  have "\<exists>cache'. call_all ToOID globalCache ?is = Some ([23117, 1966639533, 23117], cache')"
    by (simp add: ToOID_def ToOID_locked_eq concrete_ids) (simp add: public_table_bytes)
  then obtain cache' where run: "call_all ToOID globalCache ?is = Some ([23117, 1966639533, 23117], cache')" by blast
  have "ToInternal cache' ([23117, 1966639533, 23117] ! 0) = ?is ! 0"
    using ToOID_sequence [OF cache_inv_global run] table_sections by auto
  then show ?thesis using run by simp
qed

text \<open>C26. Under every interleaving of callers of \<open>ToOID\<close> on one cache, which at first leads back from every OID it
  has assigned, those callers that have returned agree, if their ids are not OID literals (ids of \<open>Section_OID\<close>, which
  only stand for the number they hold and are not cached): equal ids get equal OIDs, different ids get different
  OIDs, and the map from OIDs leads back to the id.\<close>

theorem ToOID_concurrent:
  assumes "cache_inv cache" and "runs (cache, map Calling is) (cache', ts)"
    and "Returned i m \<in> set ts" "Returned j n \<in> set ts"
    and "Id_Section i \<noteq> Section_OID" "Id_Section j \<noteq> Section_OID"
  shows "(m = n \<longleftrightarrow> i = j) \<and> ToInternal cache' m = i"
proof -
  have sys: "system_inv (cache', ts)" using runs_inv [OF assms(2) system_inv_initial [OF assms(1)]] .
  then have "gm_get (toOID cache') i = Some m" "gm_get (toOID cache') j = Some n" "cache_inv cache'"
    using assms(3-6) by (auto simp: system_inv_def list_all_iff settled_def)
  then show ?thesis using cache_inv_inj [of cache' i m j] by (auto simp: cache_inv_def ToInternal_def)
qed

theorem ToOID_concurrent_witness:
  "\<exists>cache'. runs (globalCache, map Calling [public_table ''ezyv'', public_table ''wcjifoae''])
      (cache', [Returned (public_table ''ezyv'') 23117, Returned (public_table ''wcjifoae'') 1966639533]) \<and>
    ToInternal cache' 23117 = public_table ''ezyv''"
proof -
  let ?a = "public_table ''ezyv''" and ?b = "public_table ''wcjifoae''"
  let ?c = "cache_assign globalCache ?a 23117"
  let ?s = "(globalCache, map Calling [?a, ?b])"
  let ?d = "cache_assign ?c ?b 1966639533"
  have miss: "caller_step globalCache (Calling ?a) globalCache (Missed ?a)"
    "caller_step globalCache (Calling ?b) globalCache (Missed ?b)"
    by (intro caller_step.miss fresh_tables table_sections)+
  have locked: "ToOID_locked globalCache ?a = Some (23117, ?c)" "ToOID_locked ?c ?b = Some (1966639533, ?d)"
    by (simp_all add: ToOID_locked_eq concrete_ids)
  have r1: "runs ?s (globalCache, [Missed ?a, Calling ?b])"
    by (rule runs_to [OF runs_refl, where k = 0 and t' = "Missed ?a"]) (simp_all add: miss)
  have r2: "runs ?s (globalCache, [Missed ?a, Missed ?b])"
    by (rule runs_to [OF r1, where k = 1 and t' = "Missed ?b"]) (simp_all add: miss)
  have r3: "runs ?s (?c, [Returned ?a 23117, Missed ?b])"
    by (rule runs_to [OF r2, where k = 0 and t' = "Returned ?a 23117"]) (simp_all add: caller_step.insert locked)
  have run: "runs ?s (?d, [Returned ?a 23117, Returned ?b 1966639533])"
    by (rule runs_to [OF r3, where k = 1 and t' = "Returned ?b 1966639533"]) (simp_all add: caller_step.insert locked)
  show ?thesis
    using run ToOID_concurrent [OF cache_inv_global run, of ?a 23117 ?b 1966639533] table_sections by auto
qed

text \<open>What \<open>ToOID\<close> does with an id that is not in the cache: it takes the checksum of the id as its OID,
  also one in the range reserved for built-in items, and panics as soon as the checksum belongs to another
  id, since none of the retries looks at another OID. The same happens to the slower one of two callers
  that look up one new id at the same time.\<close>

theorem ToOID_new_id:
  assumes "gm_get (toOID cache) i = None" and "Id_Section i \<noteq> Section_OID"
  shows "ToOID cache i =
      (if gm_get (toInternal cache) (crc32_Checksum i) = None
       then Some (crc32_Checksum i, cache_assign cache i (crc32_Checksum i)) else None) \<and>
    (gm_get (toInternal cache) (crc32_Checksum i) = None \<longrightarrow>
      (\<exists>cache'. runs (cache, [Calling i, Calling i]) (cache', [Returned i (crc32_Checksum i), Panicked i])))"
proof -
  let ?c = "cache_assign cache i (crc32_Checksum i)"
  have miss: "caller_step cache (Calling i) cache (Missed i)" using assms by (rule caller_step.miss)
  have "runs (cache, [Calling i, Calling i]) (?c, [Returned i (crc32_Checksum i), Panicked i])"
    if "gm_get (toInternal cache) (crc32_Checksum i) = None"
  proof -
    let ?s = "(cache, [Calling i, Calling i])" and ?r = "Returned i (crc32_Checksum i)"
    have locked: "ToOID_locked cache i = Some (crc32_Checksum i, ?c)" "ToOID_locked ?c i = None"
      using that by (simp_all add: ToOID_locked_eq cache_assign_def)
    have r1: "runs ?s (cache, [Missed i, Calling i])"
      by (rule runs_to [OF runs_refl, where k = 0 and t' = "Missed i"]) (simp_all add: miss)
    have r2: "runs ?s (cache, [Missed i, Missed i])"
      by (rule runs_to [OF r1, where k = 1 and t' = "Missed i"]) (simp_all add: miss)
    have r3: "runs ?s (?c, [?r, Missed i])"
      by (rule runs_to [OF r2, where k = 0 and t' = ?r]) (simp_all add: caller_step.insert locked)
    show ?thesis
      by (rule runs_to [OF r3, where k = 1 and t' = "Panicked i"]) (simp_all add: caller_step.insert_panic locked)
  qed
  then show ?thesis using assms by (auto simp: ToOID_def ToOID_locked_eq)
qed

theorem ToOID_new_id_witness:
  "map_option fst (ToOID globalCache (public_table ''ezyv'')) = Some 23117 \<and>
   ToOID (cache_assign globalCache (public_table ''wcjifoae'') 1966639533) (public_table ''ccaoacux'') = None"
proof -
  have "gm_get (toOID globalCache) (public_table ''ezyv'') = None"
    "gm_get (toOID (cache_assign globalCache (public_table ''wcjifoae'') 1966639533)) (public_table ''ccaoacux'') = None"
    by (simp_all add: globalCache_def cache_assign_def Null_Id_def gm_get_def gm_set_def public_table_bytes)
  from ToOID_new_id [OF this(1) table_sections(1)] ToOID_new_id [OF this(2) table_sections(3)]
  show ?thesis by (simp add: concrete_ids)
qed

text \<open>The cache that the built-in items fill: with every OID given at most once and none of them above
  the limit, filling it succeeds and establishes the invariant; changing an id keeps the OID and the
  invariant.\<close>

theorem cache_filled_and_updated:
  assumes "distinct (map snd bs)" and "\<forall>oid \<in> set (map snd bs). 0 < oid \<and> oid \<le> builtinOidLimit"
  shows "\<exists>cache. set_builtins globalCache bs = Some cache \<and> cache_inv cache \<and>
    (\<forall>old new oid. gm_get (toOID cache) old = Some oid \<longrightarrow>
      cache_inv (cache_update cache old new) \<and> ToInternal (cache_update cache old new) oid = new \<and>
      (new \<noteq> old \<longrightarrow> \<not> Exists (cache_update cache old new) old))"
proof -
  have "\<exists>cache. set_builtins c bs = Some cache" for c
    using assms(2) by (induction bs arbitrary: c) (auto simp: setBuiltIn_def)
  then obtain cache where cache: "set_builtins globalCache bs = Some cache" by blast
  have "\<forall>oid \<in> set (map snd bs). gm_get (toInternal globalCache) oid = None"
    using assms(2) by (force simp: globalCache_def gm_get_def)
  then have "cache_inv cache" using set_builtins_inv [OF cache_inv_global assms(1)] cache by blast
  moreover from this have "cache_inv (cache_update cache old new)" for old new by (rule cache_inv_update)
  moreover have "ToInternal (cache_update cache old new) oid = new \<and>
      (new \<noteq> old \<longrightarrow> \<not> Exists (cache_update cache old new) old)"
    if "gm_get (toOID cache) old = Some oid" for old new oid
    using that by (simp add: cache_update_def cache_assign_def ToInternal_def Exists_def)
  ultimately show ?thesis using cache by blast
qed

theorem cache_filled_and_updated_witness:
  "\<exists>cache. set_builtins globalCache access_method_builtins = Some cache \<and> cache_inv cache"
proof -
  have "distinct (map snd access_method_builtins)"
    "\<forall>oid \<in> set (map snd access_method_builtins). 0 < oid \<and> oid \<le> builtinOidLimit"
    by (simp_all add: access_method_builtins_def builtinOidLimit_def)
  from cache_filled_and_updated [OF this] show ?thesis by blast
qed

text \<open>A new listener of a section runs after those registered before it, and only when none of them
  returned an error, for performers and for validators alike; listeners of other sections are not touched.\<close>

theorem registry_order:
  assumes "RegisterListener reg l [sec] = Some reg'" and "sec \<noteq> Section_Null"
  shows "PerformOperation reg' sec op db orig new ctx =
      (case PerformOperation reg sec op db orig new ctx of
         Some (ctx', None) \<Rightarrow> Some (OperationPerformer l op db orig new ctx') | r \<Rightarrow> r) \<and>
    ValidateOperation reg' sec op db orig new ctx =
      (case ValidateOperation reg sec op db orig new ctx of
         Some (ctx', None) \<Rightarrow> Some (OperationValidator l op db orig new ctx') | r \<Rightarrow> r) \<and>
    (\<forall>sec'. sec' \<noteq> sec \<longrightarrow>
      PerformOperation reg' sec' op db orig new ctx = PerformOperation reg sec' op db orig new ctx \<and>
      ValidateOperation reg' sec' op db orig new ctx = ValidateOperation reg sec' op db orig new ctx)"
  using assms
  by (auto simp: PerformOperation_def ValidateOperation_def call_each_append call_each_single nth_list_update
      word_unat_eq_iff split: if_splits prod.splits option.splits)

definition count_listener :: "(nat, unit) Listener" where
  "count_listener = \<lparr>OperationPerformer = (\<lambda>op db orig new n. (n + 1, None)),
     OperationValidator = (\<lambda>op db orig new n. (n, Some ()))\<rparr>"

theorem registry_order_witness:
  "\<exists>reg. RegisterListener globalRegistry count_listener [Section_Table] = Some reg \<and>
     PerformOperation reg Section_Table Operation_Delete [] [] [] (4 :: nat) = Some (5, None)"
proof -
  have "\<exists>reg. RegisterListener globalRegistry count_listener [Section_Table] = Some reg"
    by (simp add: globalRegistry_def section_count_def)
  then obtain reg where reg: "RegisterListener globalRegistry count_listener [Section_Table] = Some reg" ..
  from registry_order [OF this, of Operation_Delete "[]" "[]" "[]" 4] show ?thesis
    using reg by (simp add: PerformOperation_def globalRegistry_def section_count_def count_listener_def)
qed

text \<open>The registry has no slot for \<open>Section_Inheritance\<close>, the last section: registering a listener for
  it, and performing or validating an operation on it, panics, whatever was registered before.\<close>

theorem inheritance_section_panics:
  assumes "RegisterListener globalRegistry l secs = Some reg"
  shows "RegisterListener reg l' [Section_Inheritance] = None \<and>
    PerformOperation reg Section_Inheritance op db orig new ctx = None \<and>
    ValidateOperation reg Section_Inheritance op db orig new ctx = None"
  using RegisterListener_Some [OF assms]
  by (simp add: PerformOperation_def ValidateOperation_def globalRegistry_def section_count_def)

theorem inheritance_section_panics_witness:
  "RegisterListener globalRegistry count_listener [] = Some globalRegistry \<and>
   PerformOperation globalRegistry Section_Inheritance Operation_Rename [] [] [] (0 :: nat) = (None :: (nat \<times> unit option) option)"
  using inheritance_section_panics [of count_listener "[]" globalRegistry] by simp

end
