(* ===== verification/Sequences.thy ===== *)
theory Sequences
  imports Id_Wrappers
begin

text \<open>
  Sequences: the state machine of \<open>src/core/sequences/collection.go\<close>, the three-way merge of
  \<open>src/core/sequences/collection_funcs.go\<close> with the helpers of \<open>src/core/merge\<close>, and \<open>Min\<close> and \<open>Max\<close> of
  \<open>src/utils\<close>. A Go \<open>int64\<close> is a 64 bit word compared as a signed number; its arithmetic wraps around.
\<close>

section \<open>Signed 64 bit integers\<close>

type_synonym int64 = "64 word"

definition lt64 :: "int64 \<Rightarrow> int64 \<Rightarrow> bool" where
  "lt64 a b \<longleftrightarrow> sint a < sint b"

definition MaxInt64 :: int64 where
  "MaxInt64 = 0x7FFFFFFFFFFFFFFF"

definition MinInt64 :: int64 where
  "MinInt64 = 0x8000000000000000"

text \<open>\<open>utils.Min\<close> and \<open>utils.Max\<close> over a comparison; without arguments they give the zero value.\<close>

definition utils_Min :: "('a \<Rightarrow> 'a \<Rightarrow> bool) \<Rightarrow> 'a \<Rightarrow> 'a list \<Rightarrow> 'a" where
  "utils_Min lt zero vals = (case vals of
     [] \<Rightarrow> zero
   | v # vs \<Rightarrow> foldl (\<lambda>minimum x. if lt x minimum then x else minimum) v vs)"

definition utils_Max :: "('a \<Rightarrow> 'a \<Rightarrow> bool) \<Rightarrow> 'a \<Rightarrow> 'a list \<Rightarrow> 'a" where
  "utils_Max lt zero vals = (case vals of
     [] \<Rightarrow> zero
   | v # vs \<Rightarrow> foldl (\<lambda>maximum x. if lt maximum x then x else maximum) v vs)"

definition min64 :: "int64 \<Rightarrow> int64 \<Rightarrow> int64" where
  "min64 a b = utils_Min lt64 0 [a, b]"

definition max64 :: "int64 \<Rightarrow> int64 \<Rightarrow> int64" where
  "max64 a b = utils_Max lt64 0 [a, b]"

section \<open>The state of a sequence\<close>

datatype seq_error =
    IncompatibleState
  | ReachedMaximum Id int64
  | ReachedMinimum Id int64
  | NoSuchSequence Id
  | OutOfBounds int64 Id int64 int64
  | AlreadyExists Id
  | MergeDifferent Id Id
  | UnsupportedVersion uint64
  | ExtraData
  | StoreError

record SequenceState =
  SeqId :: Id
  Start :: int64
  Current :: int64
  Increment :: int64
  Minimum :: int64
  Maximum :: int64
  Cache :: int64
  Cycle :: bool
  IsAtEnd :: bool
  HasBeenCalled :: bool

definition zero_state :: SequenceState where
  "zero_state = \<lparr>SeqId = Null_Id, Start = 0, Current = 0, Increment = 0, Minimum = 0, Maximum = 0, Cache = 0,
     Cycle = False, IsAtEnd = False, HasBeenCalled = False\<rparr>"

definition GreaterThan :: "SequenceState \<Rightarrow> SequenceState \<Rightarrow> bool" where
  "GreaterThan s other =
     (if lt64 0 (Increment s)
      then (let hasWrapped = lt64 (Current s) (Start s); otherHasWrapped = lt64 (Current other) (Start s) in
        if hasWrapped = otherHasWrapped then lt64 (Current other) (Current s) else hasWrapped)
      else (let hasWrapped = lt64 (Start s) (Current s); otherHasWrapped = lt64 (Start s) (Current other) in
        if hasWrapped = otherHasWrapped then lt64 (Current s) (Current other) else hasWrapped))"

definition Merge :: "SequenceState \<Rightarrow> SequenceState \<Rightarrow> SequenceState" where
  "Merge s other =
     (let up = lt64 0 (Increment s); otherUp = lt64 0 (Increment other) in
      if up \<noteq> otherUp then zero_state
      else s\<lparr>
        Increment := (if up then min64 (Increment s) (Increment other) else max64 (Increment s) (Increment other)),
        Start := (if up then min64 (Start s) (Start other) else max64 (Start s) (Start other)),
        Current := (if GreaterThan s other then Current s else Current other),
        Minimum := min64 (Minimum s) (Minimum other),
        Maximum := max64 (Maximum s) (Maximum other),
        Cycle := (Cycle s \<or> Cycle other),
        IsAtEnd := (IsAtEnd s \<and> IsAtEnd other),
        HasBeenCalled := (HasBeenCalled s \<or> HasBeenCalled other)\<rparr>)"

definition CurrentValue :: "SequenceState \<Rightarrow> int64" where
  "CurrentValue s = Current s"

definition WithValue :: "SequenceState \<Rightarrow> int64 \<Rightarrow> SequenceState" where
  "WithValue s v = s\<lparr>Current := v, IsAtEnd := False\<rparr>"

definition AtEnd :: "SequenceState \<Rightarrow> bool" where
  "AtEnd s = IsAtEnd s"

text \<open>The part of \<open>Next\<close> that runs when the end was reached, and the part that moves on.\<close>

definition next_wrap :: "SequenceState \<Rightarrow> seq_error + SequenceState" where
  "next_wrap s =
     (if IsAtEnd s then
        if \<not> Cycle s then
          if lt64 0 (Increment s) then Inl (ReachedMaximum (SeqId s) (Maximum s))
          else Inl (ReachedMinimum (SeqId s) (Minimum s))
        else Inr (s\<lparr>IsAtEnd := False, Current := (if lt64 0 (Increment s) then Minimum s else Maximum s)\<rparr>)
      else Inr s)"

definition next_advance :: "SequenceState \<Rightarrow> SequenceState" where
  "next_advance s =
     (if lt64 0 (Increment s) then
        if lt64 (MaxInt64 - Increment s) (Current s) \<or> lt64 (Maximum s) (Current s + Increment s)
        then s\<lparr>IsAtEnd := True\<rparr>
        else s\<lparr>Current := Current s + Increment s\<rparr>
      else
        if lt64 (Current s) (MinInt64 - Increment s) \<or> lt64 (Current s + Increment s) (Minimum s)
        then s\<lparr>IsAtEnd := True\<rparr>
        else s\<lparr>Current := Current s + Increment s\<rparr>)"

definition Next :: "SequenceState \<Rightarrow> seq_error + (int64 \<times> bool \<times> SequenceState)" where
  "Next s =
     (if s = zero_state then Inl IncompatibleState
      else (case next_wrap (s\<lparr>HasBeenCalled := True\<rparr>) of
        Inl e \<Rightarrow> Inl e
      | Inr s' \<Rightarrow> Inr (Current s', True, next_advance s')))"

section \<open>A sequence of pg\_sequence\<close>

text \<open>\<open>Persistence\<close> is a \<open>uint8\<close> with the named values 0 (permanent), 1 (temporary) and 2 (unlogged).\<close>

record Sequence =
  DataTypeID :: Id
  Persistence :: byte
  SeqState :: SequenceState
  OwnerTable :: Id
  OwnerColumn :: gostring

definition GetSequenceState :: "Sequence \<Rightarrow> SequenceState" where
  "GetSequenceState sq = SeqState sq"

definition SetSequenceState :: "Sequence \<Rightarrow> SequenceState \<Rightarrow> Sequence" where
  "SetSequenceState sq st = sq\<lparr>SeqState := st\<rparr>"

definition nextValForSequence :: "Sequence \<Rightarrow> seq_error + (int64 \<times> Sequence)" where
  "nextValForSequence sq = (case Next (SeqState sq) of
     Inl e \<Rightarrow> Inl e
   | Inr (result, _, newSequence) \<Rightarrow> Inr (result, sq\<lparr>SeqState := newSequence\<rparr>))"

text \<open>The part of \<open>Collection.SetVal\<close> behind the lookup. It assigns to the shared sequence before
  \<open>nextValForSequence\<close> can fail, so the assigned sequence is returned with the error.\<close>

definition SetVal_sequence ::
  "Sequence \<Rightarrow> Id \<Rightarrow> int64 \<Rightarrow> bool \<Rightarrow> bool \<Rightarrow> seq_error option \<times> Sequence" where
  "SetVal_sequence sq name newValue hasBeenCalled autoAdvance =
     (let st = SeqState sq in
      if lt64 newValue (Minimum st) \<or> lt64 (Maximum st) newValue
      then (Some (OutOfBounds newValue name (Minimum st) (Maximum st)), sq)
      else
        let sq1 = sq\<lparr>SeqState := st\<lparr>Current := newValue, IsAtEnd := False, HasBeenCalled := hasBeenCalled\<rparr>\<rparr> in
        if autoAdvance then (case nextValForSequence sq1 of
          Inl e \<Rightarrow> (Some e, sq1)
        | Inr (_, sq2) \<Rightarrow> (None, sq2))
        else (None, sq1))"

section \<open>Merging two branches\<close>

definition ResolveMergeValues :: "'a \<Rightarrow> 'a \<Rightarrow> 'a \<Rightarrow> bool \<Rightarrow> ('a \<Rightarrow> 'a \<Rightarrow> 'a) \<Rightarrow> 'a" where
  "ResolveMergeValues ourVal theirVal ancVal hasAncestorValue customResolve =
     (if hasAncestorValue \<and> ourVal = ancVal then theirVal
      else if hasAncestorValue \<and> theirVal = ancVal then ourVal
      else if ourVal = theirVal then ourVal
      else customResolve ourVal theirVal)"

definition ResolveMergeValuesVariadic :: "'a \<Rightarrow> 'a \<Rightarrow> 'a \<Rightarrow> bool \<Rightarrow> ('a list \<Rightarrow> 'a) \<Rightarrow> 'a" where
  "ResolveMergeValuesVariadic ourVal theirVal ancVal hasAncestorValue customResolve =
     ResolveMergeValues ourVal theirVal ancVal hasAncestorValue (\<lambda>t1 t2. customResolve [t1, t2])"

definition pg_type :: "string \<Rightarrow> Id" where
  "pg_type n = NewType (gs ''pg_catalog'') (gs n)"

definition resolve_type :: "Id \<Rightarrow> Id \<Rightarrow> Id" where
  "resolve_type ourID theirID =
     (if (ourID = pg_type ''int2'' \<and> (theirID = pg_type ''int4'' \<or> theirID = pg_type ''int8'')) \<or>
         (ourID = pg_type ''int4'' \<and> theirID = pg_type ''int8'')
      then theirID else ourID)"

text \<open>The resolution of the fields that depend on the direction: \<open>f\<close> when both sides count up (or not at
  all), \<open>g\<close> when both count down, our value otherwise.\<close>

definition by_direction ::
  "SequenceState \<Rightarrow> SequenceState \<Rightarrow> (int64 \<Rightarrow> int64 \<Rightarrow> int64) \<Rightarrow> (int64 \<Rightarrow> int64 \<Rightarrow> int64) \<Rightarrow> int64 \<Rightarrow> int64 \<Rightarrow> int64" where
  "by_direction our their f g a b =
     (if \<not> lt64 (Increment our) 0 \<and> \<not> lt64 (Increment their) 0 then f a b
      else if lt64 (Increment our) 0 \<and> lt64 (Increment their) 0 then g a b
      else a)"

definition zero_sequence :: Sequence where
  "zero_sequence = \<lparr>DataTypeID = Null_Id, Persistence = 0, SeqState = zero_state, OwnerTable = Null_Id, OwnerColumn = []\<rparr>"

definition HandleMerge :: "Sequence \<Rightarrow> Sequence \<Rightarrow> Sequence option \<Rightarrow> seq_error + Sequence" where
  "HandleMerge ourSeq theirSeq ancestor =
     (let our = SeqState ourSeq; their = SeqState theirSeq in
      if SeqId our \<noteq> SeqId their then Inl (MergeDifferent (SeqId our) (SeqId their))
      else
        let ancSeq = (case ancestor of Some a \<Rightarrow> a | None \<Rightarrow> zero_sequence);
            hasAncestor = (ancestor \<noteq> None);
            anc = SeqState ancSeq
        in Inr (ourSeq\<lparr>
          DataTypeID := ResolveMergeValues (DataTypeID ourSeq) (DataTypeID theirSeq) (DataTypeID ancSeq) hasAncestor
            resolve_type,
          SeqState := our\<lparr>
            Minimum := ResolveMergeValuesVariadic (Minimum our) (Minimum their) (Minimum anc) hasAncestor (utils_Min lt64 0),
            Maximum := ResolveMergeValuesVariadic (Maximum our) (Maximum their) (Maximum anc) hasAncestor (utils_Max lt64 0),
            Cache := ResolveMergeValuesVariadic (Cache our) (Cache their) (Cache anc) hasAncestor (utils_Min lt64 0),
            Cycle := ResolveMergeValues (Cycle our) (Cycle their) (Cycle anc) hasAncestor (\<lambda>a b. a \<or> b),
            Increment := ResolveMergeValues (Increment our) (Increment their) (Increment anc) hasAncestor
              (by_direction our their min64 max64),
            Start := ResolveMergeValues (Start our) (Start their) (Start anc) hasAncestor
              (by_direction our their min64 max64),
            Current := ResolveMergeValues (Current our) (Current their) (Current anc) hasAncestor
              (by_direction our their max64 min64),
            HasBeenCalled := ResolveMergeValues (HasBeenCalled our) (HasBeenCalled their) (HasBeenCalled anc)
              hasAncestor (\<lambda>a b. a \<or> b)\<rparr>\<rparr>))"

end
