(* ===== verification/Sequence_Props.thy ===== *)
theory Sequence_Props
  imports Sequences "HOL-Library.Product_Lexorder"
begin

text \<open>
  The contract of sequences over unbounded integers, the refinement of it by the wrapping arithmetic
  of \<open>Next\<close>, and what \<open>nextval\<close>, \<open>setval\<close> and the two merges do.
\<close>

section \<open>Signed arithmetic without overflow\<close>

lemma sint64_bounds: "- (2 ^ 63) \<le> sint (w :: int64)" "sint (w :: int64) < 2 ^ 63"
  using sint_greater_eq [of w] sint_less [of w] by simp_all

lemma sint64_of_int: "- (2 ^ 63) \<le> k \<Longrightarrow> k < 2 ^ 63 \<Longrightarrow> sint (word_of_int k :: int64) = k"
  by (simp add: int_word_sint)

lemma sint64_add:
  assumes "- (2 ^ 63) \<le> sint a + sint b" and "sint a + sint b < 2 ^ 63"
  shows "sint (a + b :: int64) = sint a + sint b"
proof -
  have "a + b = word_of_int (sint a + sint b)" by simp
  then show ?thesis by (simp only: sint64_of_int [OF assms])
qed

lemma sint_MaxInt64_minus: "0 < sint i \<Longrightarrow> sint (MaxInt64 - i) = 2 ^ 63 - 1 - sint i"
proof -
  assume "0 < sint i"
  moreover have "MaxInt64 - i = word_of_int (2 ^ 63 - 1 - sint i)" by (simp add: MaxInt64_def)
  ultimately show ?thesis using sint64_bounds [of i] by (simp only: sint64_of_int)
qed

lemma sint_MinInt64_minus: "sint i \<le> 0 \<Longrightarrow> sint (MinInt64 - i) = - (2 ^ 63) - sint i"
proof -
  assume "sint i \<le> 0"
  moreover have "MinInt64 - i = word_of_int (- (2 ^ 63) - sint i)" by (simp add: MinInt64_def)
  ultimately show ?thesis using sint64_bounds [of i] by (simp only: sint64_of_int)
qed

section \<open>The contract\<close>

text \<open>
  What a sequence promises: with an increment, bounds and a cycle flag, \<open>Some c\<close> is the value that
  comes next and \<open>None\<close> says that the end was reached.
\<close>

definition spec_after :: "int \<Rightarrow> int \<Rightarrow> int \<Rightarrow> int \<Rightarrow> int option" where
  "spec_after inc mn mx c = (if mn \<le> c + inc \<and> c + inc \<le> mx then Some (c + inc) else None)"

definition spec_next :: "int \<Rightarrow> int \<Rightarrow> int \<Rightarrow> bool \<Rightarrow> int option \<Rightarrow> (int \<times> int option) option" where
  "spec_next inc mn mx cyc v = (case v of
     Some c \<Rightarrow> Some (c, spec_after inc mn mx c)
   | None \<Rightarrow>
       if cyc then (let c = (if 0 < inc then mn else mx) in Some (c, spec_after inc mn mx c)) else None)"

definition seq_abs :: "SequenceState \<Rightarrow> int option" where
  "seq_abs s = (if IsAtEnd s then None else Some (sint (Current s)))"

definition seq_spec :: "SequenceState \<Rightarrow> int option \<Rightarrow> (int \<times> int option) option" where
  "seq_spec s = spec_next (sint (Increment s)) (sint (Minimum s)) (sint (Maximum s)) (Cycle s)"

definition same_parameters :: "SequenceState \<Rightarrow> SequenceState \<Rightarrow> bool" where
  "same_parameters s t \<longleftrightarrow> SeqId s = SeqId t \<and> Start s = Start t \<and> Increment s = Increment t \<and>
     Minimum s = Minimum t \<and> Maximum s = Maximum t \<and> Cache s = Cache t \<and> Cycle s = Cycle t"

definition in_bounds :: "SequenceState \<Rightarrow> bool" where
  "in_bounds s \<longleftrightarrow> sint (Minimum s) \<le> sint (Current s) \<and> sint (Current s) \<le> sint (Maximum s)"

text \<open>The state that two incompatible branches merge to is excluded: \<open>Next\<close> refuses it.\<close>

definition seq_ok :: "SequenceState \<Rightarrow> bool" where
  "seq_ok s \<longleftrightarrow> in_bounds s \<and> s \<noteq> zero_state"

lemma next_advance_spec:
  assumes "in_bounds s" and "\<not> IsAtEnd s"
  shows "seq_abs (next_advance s) =
      spec_after (sint (Increment s)) (sint (Minimum s)) (sint (Maximum s)) (sint (Current s))"
    and "in_bounds (next_advance s)" and "same_parameters (next_advance s) s"
    and "HasBeenCalled (next_advance s) = HasBeenCalled s"
proof -
  let ?i = "sint (Increment s)" and ?c = "sint (Current s)"
  have b: "sint (Minimum s) \<le> ?c" "?c \<le> sint (Maximum s)" using assms by (simp_all add: in_bounds_def)
  have up: "sint (Current s + Increment s) = ?c + ?i" if "0 < ?i" "\<not> lt64 (MaxInt64 - Increment s) (Current s)"
    using that sint64_bounds [of "Current s"] by (intro sint64_add) (auto simp: lt64_def sint_MaxInt64_minus)
  have down: "sint (Current s + Increment s) = ?c + ?i" if "\<not> 0 < ?i" "\<not> lt64 (Current s) (MinInt64 - Increment s)"
    using that sint64_bounds [of "Current s"] by (intro sint64_add) (auto simp: lt64_def sint_MinInt64_minus)
  have over: "sint (Maximum s) < ?c + ?i" if "0 < ?i" "lt64 (MaxInt64 - Increment s) (Current s)"
    using that sint64_bounds [of "Maximum s"] by (simp add: lt64_def sint_MaxInt64_minus)
  have under: "?c + ?i < sint (Minimum s)" if "\<not> 0 < ?i" "lt64 (Current s) (MinInt64 - Increment s)"
    using that sint64_bounds [of "Minimum s"] by (simp add: lt64_def sint_MinInt64_minus)
  have pos: "lt64 0 (Increment s) \<longleftrightarrow> 0 < ?i" by (simp add: lt64_def)
  show "seq_abs (next_advance s) = spec_after ?i (sint (Minimum s)) (sint (Maximum s)) ?c"
    using b up down over under assms(2)
    by (auto simp: next_advance_def seq_abs_def spec_after_def pos) (auto simp: lt64_def)
  show "in_bounds (next_advance s)"
    using b up down by (auto simp: next_advance_def in_bounds_def pos) (auto simp: lt64_def)
  show "same_parameters (next_advance s) s" "HasBeenCalled (next_advance s) = HasBeenCalled s"
    by (simp_all add: next_advance_def same_parameters_def)
qed

lemma called_not_zero: "HasBeenCalled s \<Longrightarrow> s \<noteq> zero_state"
  by (auto simp: zero_state_def)

text \<open>One call: the abstract step, or its failure.\<close>

lemma Next_Inr:
  assumes "seq_ok s" and "Next s = Inr (v, hasNext, s')"
  shows "hasNext" "seq_spec s (seq_abs s) = Some (sint v, seq_abs s')" "seq_ok s'" "same_parameters s' s"
    "HasBeenCalled s'" "sint (Minimum s) \<le> sint v" "sint v \<le> sint (Maximum s)"
proof -
  obtain s1 where s1: "next_wrap (s\<lparr>HasBeenCalled := True\<rparr>) = Inr s1" "v = Current s1" "hasNext" "s' = next_advance s1"
    using assms(2) by (auto simp: Next_def split: if_splits sum.splits)
  have w: "in_bounds s1" "\<not> IsAtEnd s1" "HasBeenCalled s1" "same_parameters s1 s"
    "sint (Current s1) = (case seq_abs s of Some c \<Rightarrow> c | None \<Rightarrow>
       if 0 < sint (Increment s) then sint (Minimum s) else sint (Maximum s))"
    "seq_abs s = None \<Longrightarrow> Cycle s"
    using s1(1) assms(1)
    by (auto simp: next_wrap_def seq_ok_def in_bounds_def same_parameters_def seq_abs_def lt64_def split: if_splits)
  note adv = next_advance_spec [OF w(1,2)]
  show "hasNext" "HasBeenCalled s'" using s1 w adv by simp_all
  show "same_parameters s' s" using s1 w(4) adv(3) by (auto simp: same_parameters_def)
  show "seq_ok s'" using called_not_zero [of s'] s1 w adv by (simp add: seq_ok_def)
  show "sint (Minimum s) \<le> sint v" "sint v \<le> sint (Maximum s)"
    using w(1,4) s1 by (simp_all add: in_bounds_def same_parameters_def)
  show "seq_spec s (seq_abs s) = Some (sint v, seq_abs s')"
    using s1 w adv(1) by (auto simp: seq_spec_def spec_next_def same_parameters_def Let_def split: option.splits)
qed

lemma Next_Inl:
  assumes "seq_ok s" and "Next s = Inl e"
  shows "seq_spec s (seq_abs s) = None"
    and "e = (if 0 < sint (Increment s) then ReachedMaximum (SeqId s) (Maximum s) else ReachedMinimum (SeqId s) (Minimum s))"
  using assms
  by (auto simp: Next_def next_wrap_def seq_ok_def seq_abs_def seq_spec_def spec_next_def lt64_def
      split: if_splits sum.splits)

section \<open>Many calls\<close>

fun nexts :: "nat \<Rightarrow> SequenceState \<Rightarrow> seq_error + (int64 list \<times> SequenceState)" where
  "nexts 0 s = Inr ([], s)"
| "nexts (Suc n) s = (case Next s of
     Inl e \<Rightarrow> Inl e
   | Inr (v, _, s') \<Rightarrow> (case nexts n s' of Inl e \<Rightarrow> Inl e | Inr (vs, s'') \<Rightarrow> Inr (v # vs, s'')))"

lemma Next_defined: "seq_ok s \<Longrightarrow> \<not> IsAtEnd s \<or> Cycle s \<Longrightarrow> \<exists>v s'. Next s = Inr (v, True, s')"
  by (auto simp: Next_def next_wrap_def seq_ok_def)

lemma Next_not_at_end:
  assumes "seq_ok s" "\<not> IsAtEnd s"
  shows "\<exists>s'. Next s = Inr (Current s, True, s') \<and> seq_ok s' \<and> same_parameters s' s \<and>
    seq_abs s' = spec_after (sint (Increment s)) (sint (Minimum s)) (sint (Maximum s)) (sint (Current s))"
proof -
  obtain v s' where n: "Next s = Inr (v, True, s')" using Next_defined assms by blast
  then have "v = Current s" using assms(2) by (auto simp: Next_def next_wrap_def split: if_splits)
  then show ?thesis
    using n Next_Inr(2-4) [OF assms(1) n] assms(2) by (simp add: seq_spec_def spec_next_def seq_abs_def)
qed

lemma nexts_progression:
  assumes "seq_ok s" "\<not> IsAtEnd s"
    and "\<forall>k < n. sint (Minimum s) \<le> sint (Current s) + int k * sint (Increment s) \<and>
      sint (Current s) + int k * sint (Increment s) \<le> sint (Maximum s)"
  shows "\<exists>vs s'. nexts n s = Inr (vs, s') \<and> map sint vs = map (\<lambda>k. sint (Current s) + int k * sint (Increment s)) [0..<n]"
  using assms
proof (induction n arbitrary: s)
  case (Suc n)
  obtain s' where s': "Next s = Inr (Current s, True, s')" "seq_ok s'" "same_parameters s' s"
    "seq_abs s' = spec_after (sint (Increment s)) (sint (Minimum s)) (sint (Maximum s)) (sint (Current s))"
    using Next_not_at_end Suc.prems by blast
  show ?case
  proof (cases n)
    case 0
    then show ?thesis using s' by simp
  next
    case (Suc m)
    then have "\<not> IsAtEnd s'" and cur: "sint (Current s') = sint (Current s) + sint (Increment s)"
      using s'(4) Suc.prems(3) by (auto simp: seq_abs_def spec_after_def dest: spec [of _ 1] split: if_splits)
    have "sint (Minimum s') \<le> sint (Current s') + int k * sint (Increment s') \<and>
      sint (Current s') + int k * sint (Increment s') \<le> sint (Maximum s')" if "k < n" for k
      using Suc.prems(3) [rule_format, of "Suc k"] that s'(3) cur
      by (simp add: same_parameters_def algebra_simps)
    then obtain vs s'' where "nexts n s' = Inr (vs, s'')"
      "map sint vs = map (\<lambda>k. sint (Current s') + int k * sint (Increment s')) [0..<n]"
      using Suc.IH [OF s'(2) \<open>\<not> IsAtEnd s'\<close>] by blast
    moreover have "map (\<lambda>k. sint (Current s) + int k * sint (Increment s)) [0..<Suc n] =
      sint (Current s) # map (\<lambda>k. sint (Current s) + int (Suc k) * sint (Increment s)) [0..<n]"
      by (subst upt_rec) (simp add: map_Suc_upt [symmetric] del: upt_Suc)
    ultimately show ?thesis using s' cur by (simp add: same_parameters_def algebra_simps)
  qed
qed simp

definition end_error :: "SequenceState \<Rightarrow> seq_error" where
  "end_error s =
     (if 0 < sint (Increment s) then ReachedMaximum (SeqId s) (Maximum s) else ReachedMinimum (SeqId s) (Minimum s))"

lemma Next_at_end: "seq_ok s \<Longrightarrow> IsAtEnd s \<Longrightarrow> \<not> Cycle s \<Longrightarrow> Next s = Inl (end_error s)"
  by (simp add: Next_def next_wrap_def seq_ok_def end_error_def lt64_def)

lemma nexts_beyond:
  assumes "seq_ok s" "\<not> IsAtEnd s" "\<not> Cycle s" "0 < n"
    and "\<not> (sint (Minimum s) \<le> sint (Current s) + int n * sint (Increment s) \<and>
      sint (Current s) + int n * sint (Increment s) \<le> sint (Maximum s))"
  shows "nexts (Suc n) s = Inl (end_error s)"
  using assms
proof (induction n arbitrary: s)
  case (Suc n)
  obtain s' where s': "Next s = Inr (Current s, True, s')" "seq_ok s'" "same_parameters s' s"
    "seq_abs s' = spec_after (sint (Increment s)) (sint (Minimum s)) (sint (Maximum s)) (sint (Current s))"
    using Next_not_at_end Suc.prems by blast
  then have p: "\<not> Cycle s'" "end_error s' = end_error s"
    using Suc.prems(3) by (simp_all add: same_parameters_def end_error_def)
  show ?case
  proof (cases "IsAtEnd s'")
    case True
    then show ?thesis using Next_at_end [OF s'(2) True p(1)] s'(1) p(2) by simp
  next
    case False
    then have cur: "sint (Current s') = sint (Current s) + sint (Increment s)"
      using s'(4) by (auto simp: seq_abs_def spec_after_def split: if_splits)
    then have "0 < n" using s' Suc.prems(5) False
      by (auto simp: seq_abs_def spec_after_def split: if_splits intro: Suc_lessI gr0I)
    have "nexts (Suc n) s' = Inl (end_error s')"
      using Suc.prems(5) s'(3) cur
      by (intro Suc.IH s'(2) False p(1) \<open>0 < n\<close>) (simp add: same_parameters_def algebra_simps)
    then show ?thesis using s'(1) p(2) by simp
  qed
qed simp

lemma nexts_cycle:
  "seq_ok s \<Longrightarrow> Cycle s \<Longrightarrow> \<exists>vs s'. nexts n s = Inr (vs, s') \<and> length vs = n \<and>
     (\<forall>v \<in> set vs. sint (Minimum s) \<le> sint v \<and> sint v \<le> sint (Maximum s))"
proof (induction n arbitrary: s)
  case (Suc n)
  obtain v s' where n: "Next s = Inr (v, True, s')" using Next_defined Suc.prems by blast
  note nx = Next_Inr [OF Suc.prems(1) n]
  then have p: "Cycle s'" "Minimum s' = Minimum s" "Maximum s' = Maximum s"
    using Suc.prems(2) by (simp_all add: same_parameters_def)
  show ?case using Suc.IH [OF nx(3) p(1)] n nx(6,7) p by auto
qed simp

section \<open>Properties of nextval and setval\<close>

text \<open>C4. \<open>Next\<close> implements the contract over unbounded integers: for a sequence whose current value is
  within its bounds, no addition wraps around, the returned value is within the bounds, the state after
  the call is the contract's and again within the bounds with unchanged parameters; it fails exactly when
  the contract has no next value, with the error of the direction.\<close>

theorem Next_refines:
  assumes "seq_ok s"
  shows "case Next s of
      Inr (v, hasNext, s') \<Rightarrow> hasNext \<and> seq_spec s (seq_abs s) = Some (sint v, seq_abs s') \<and>
        sint (Minimum s) \<le> sint v \<and> sint v \<le> sint (Maximum s) \<and> seq_ok s' \<and> same_parameters s' s \<and> HasBeenCalled s'
    | Inl e \<Rightarrow> seq_spec s (seq_abs s) = None \<and> IsAtEnd s \<and> \<not> Cycle s \<and> e = end_error s"
proof (cases "Next s")
  case (Inl e)
  then show ?thesis using Next_Inl [OF assms] Next_defined [OF assms] by (auto simp: end_error_def)
next
  case (Inr r)
  then obtain v h s' where r: "r = (v, h, s')" by (cases r)
  show ?thesis using Next_Inr [OF assms Inr [unfolded r]] Inr r by simp
qed

definition demo_state :: SequenceState where
  "demo_state = \<lparr>SeqId = NewSequence (gs ''public'') (gs ''s''), Start = 1, Current = 1, Increment = 3, Minimum = 1,
     Maximum = 8, Cache = 1, Cycle = False, IsAtEnd = False, HasBeenCalled = False\<rparr>"

lemma demo_ok: "seq_ok demo_state" "\<not> IsAtEnd demo_state"
  by (simp_all add: seq_ok_def in_bounds_def demo_state_def zero_state_def)

theorem Next_refines_witness:
  "\<exists>s'. Next demo_state = Inr (1, True, s') \<and> seq_spec demo_state (Some 1) = Some (1, Some 4) \<and> seq_abs s' = Some 4"
proof -
  have "Next demo_state = Inr (1, True, demo_state\<lparr>HasBeenCalled := True, Current := 4\<rparr>)"
    using demo_ok by (simp add: Next_def seq_ok_def next_wrap_def next_advance_def lt64_def MaxInt64_def demo_state_def)
  with Next_refines [OF demo_ok(1)] show ?thesis
    by (auto simp: seq_abs_def demo_state_def)
qed

text \<open>C25. \<open>n\<close> calls of \<open>nextval\<close> on a sequence that is not at its end return the arithmetic progression from
  the current value on, in either direction, as long as it stays within the bounds; the first call beyond
  the bounds of a sequence that does not cycle fails.\<close>

theorem nextval_progression:
  assumes "seq_ok s" and "\<not> IsAtEnd s"
    and "\<forall>k < n. sint (Minimum s) \<le> sint (Current s) + int k * sint (Increment s) \<and>
      sint (Current s) + int k * sint (Increment s) \<le> sint (Maximum s)"
  shows "(\<exists>vs s'. nexts n s = Inr (vs, s') \<and>
      map sint vs = map (\<lambda>k. sint (Current s) + int k * sint (Increment s)) [0..<n]) \<and>
    (0 < n \<and> \<not> Cycle s \<and> \<not> (sint (Minimum s) \<le> sint (Current s) + int n * sint (Increment s) \<and>
        sint (Current s) + int n * sint (Increment s) \<le> sint (Maximum s)) \<longrightarrow>
      nexts (Suc n) s = Inl (end_error s))"
  using nexts_progression [OF assms] nexts_beyond [OF assms(1,2)] by blast

theorem nextval_progression_witness:
  "(\<exists>vs s'. nexts 3 demo_state = Inr (vs, s') \<and> map sint vs = [1, 4, 7]) \<and>
   nexts 4 demo_state = Inl (ReachedMaximum (SeqId demo_state) 8)"
proof -
  have "\<forall>k < 3. sint (Minimum demo_state) \<le> sint (Current demo_state) + int k * sint (Increment demo_state) \<and>
      sint (Current demo_state) + int k * sint (Increment demo_state) \<le> sint (Maximum demo_state)"
    by (auto simp: demo_state_def less_Suc_eq numeral_3_eq_3)
  from nextval_progression [OF demo_ok this] show ?thesis
    by (simp add: demo_state_def end_error_def upt_rec eval_nat_numeral)
qed

text \<open>A sequence that cycles never fails, however often \<open>nextval\<close> is called, and every value is within the
  bounds.\<close>

theorem nextval_cycles:
  assumes "seq_ok s" and "Cycle s"
  shows "\<exists>vs s'. nexts n s = Inr (vs, s') \<and> length vs = n \<and>
    (\<forall>v \<in> set vs. sint (Minimum s) \<le> sint v \<and> sint v \<le> sint (Maximum s))"
  by (rule nexts_cycle [OF assms])

theorem nextval_cycles_witness:
  "\<exists>vs s'. nexts 1000 (demo_state\<lparr>Cycle := True\<rparr>) = Inr (vs, s') \<and> length vs = 1000"
proof -
  have "seq_ok (demo_state\<lparr>Cycle := True\<rparr>)"
    by (simp add: seq_ok_def in_bounds_def demo_state_def zero_state_def)
  from nextval_cycles [OF this, of 1000] show ?thesis by auto
qed

text \<open>The state that \<open>setval\<close> leaves.\<close>

lemma SetVal_state:
  assumes "seq_ok (SeqState sq)" and "SeqId (SeqState sq) \<noteq> Null_Id"
  shows "let st = SeqState sq; mn = sint (Minimum st); mx = sint (Maximum st); inc = sint (Increment st) in
    case SetVal_sequence sq name v called autoAdvance of
      (Some e, sq') \<Rightarrow> (sint v < mn \<or> mx < sint v) \<and> e = OutOfBounds v name (Minimum st) (Maximum st) \<and> sq' = sq
    | (None, sq') \<Rightarrow> mn \<le> sint v \<and> sint v \<le> mx \<and> seq_ok (SeqState sq') \<and> same_parameters (SeqState sq') st \<and>
        seq_abs (SeqState sq') = (if autoAdvance then spec_after inc mn mx (sint v) else Some (sint v)) \<and>
        HasBeenCalled (SeqState sq') = (called \<or> autoAdvance)"
proof -
  let ?st = "SeqState sq" and ?s1 = "(SeqState sq)\<lparr>Current := v, IsAtEnd := False, HasBeenCalled := called\<rparr>"
  have ok: "seq_ok ?s1" if "\<not> lt64 v (Minimum ?st)" "\<not> lt64 (Maximum ?st) v"
    using that assms(2) by (auto simp: seq_ok_def in_bounds_def lt64_def zero_state_def dest: arg_cong [of _ _ SeqId])
  show ?thesis
  proof (cases "lt64 v (Minimum ?st) \<or> lt64 (Maximum ?st) v")
    case False
    then have "seq_ok ?s1" using ok by blast
    from Next_not_at_end [OF this] obtain s' where s': "Next ?s1 = Inr (v, True, s')" "seq_ok s'" "same_parameters s' ?s1"
      "seq_abs s' = spec_after (sint (Increment ?st)) (sint (Minimum ?st)) (sint (Maximum ?st)) (sint v)" by auto
    have "HasBeenCalled s'" using Next_Inr(5) [OF \<open>seq_ok ?s1\<close> s'(1)] .
    with False s' \<open>seq_ok ?s1\<close> show ?thesis
      by (auto simp: SetVal_sequence_def Let_def nextValForSequence_def lt64_def seq_abs_def same_parameters_def)
  qed (auto simp: SetVal_sequence_def Let_def lt64_def)
qed

text \<open>The next value, from the abstract state.\<close>

lemma nextval_from_abs:
  assumes "seq_ok (SeqState sq)" and "same_parameters (SeqState sq) st"
  shows "case seq_abs (SeqState sq) of
      Some w \<Rightarrow> \<exists>u sq'. nextValForSequence sq = Inr (u, sq') \<and> sint u = w
    | None \<Rightarrow> if Cycle st then \<exists>sq'. nextValForSequence sq = Inr (if 0 < sint (Increment st) then Minimum st else Maximum st, sq')
        else nextValForSequence sq = Inl (end_error st)"
proof (cases "IsAtEnd (SeqState sq)")
  case False
  then show ?thesis using Next_not_at_end [OF assms(1)] by (auto simp: seq_abs_def nextValForSequence_def)
next
  case True
  show ?thesis
  proof (cases "Cycle st")
    case True
    then obtain v s' where n: "Next (SeqState sq) = Inr (v, True, s')" using Next_defined [OF assms(1)] assms(2) by (auto simp: same_parameters_def)
    have "v = (if 0 < sint (Increment st) then Minimum st else Maximum st)"
      using n \<open>IsAtEnd (SeqState sq)\<close> assms True by (auto simp: Next_def next_wrap_def same_parameters_def lt64_def split: if_splits)
    then show ?thesis using n True \<open>IsAtEnd (SeqState sq)\<close> by (auto simp: seq_abs_def nextValForSequence_def)
  next
    case False
    then have "\<not> Cycle (SeqState sq)" using assms(2) by (simp add: same_parameters_def)
    from Next_at_end [OF assms(1) \<open>IsAtEnd (SeqState sq)\<close> this] show ?thesis
      using False \<open>IsAtEnd (SeqState sq)\<close> assms(2) by (auto simp: seq_abs_def nextValForSequence_def end_error_def same_parameters_def)
  qed
qed

text \<open>C37. For a sequence whose current value is within its bounds and that has an id: \<open>setval\<close> refuses a value outside the bounds and then changes nothing. Otherwise it keeps the parameters, and the next \<open>nextval\<close>
  returns the value itself, or, with auto-advance, the value one increment further. When that is outside the bounds, \<open>nextval\<close> returns the start of the cycle (the minimum of an ascending, the maximum of a descending sequence)
  if the sequence cycles, and the error that the bound is reached if it does not.\<close>

theorem SetVal_then_nextval:
  assumes "seq_ok (SeqState sq)" and "SeqId (SeqState sq) \<noteq> Null_Id"
  shows "let st = SeqState sq; mn = sint (Minimum st); mx = sint (Maximum st); inc = sint (Increment st);
      w = (if autoAdvance then sint v + inc else sint v) in
    case SetVal_sequence sq name v called autoAdvance of
      (Some e, sq') \<Rightarrow> (sint v < mn \<or> mx < sint v) \<and> e = OutOfBounds v name (Minimum st) (Maximum st) \<and> sq' = sq
    | (None, sq') \<Rightarrow> mn \<le> sint v \<and> sint v \<le> mx \<and> same_parameters (SeqState sq') st \<and> HasBeenCalled (SeqState sq') = (called \<or> autoAdvance) \<and>
        (if mn \<le> w \<and> w \<le> mx then \<exists>u sq''. nextValForSequence sq' = Inr (u, sq'') \<and> sint u = w
         else if Cycle st then \<exists>sq''. nextValForSequence sq' = Inr (if 0 < inc then Minimum st else Maximum st, sq'')
         else nextValForSequence sq' = Inl (if 0 < inc then ReachedMaximum (SeqId st) (Maximum st) else ReachedMinimum (SeqId st) (Minimum st)))"
proof -
  note state = SetVal_state [OF assms, where name = name and v = v and called = called and autoAdvance = autoAdvance, unfolded Let_def]
  show ?thesis
  proof (cases "SetVal_sequence sq name v called autoAdvance")
    case (Pair err sq')
    show ?thesis
    proof (cases err)
      case None
      then have ok: "seq_ok (SeqState sq')" "same_parameters (SeqState sq') (SeqState sq)" using state Pair by simp_all
      show ?thesis using nextval_from_abs [OF ok] state Pair None
        by (auto simp: Let_def spec_after_def end_error_def split: if_splits)
    qed (use state Pair in \<open>simp add: Let_def\<close>)
  qed
qed

definition demo_sequence :: Sequence where
  "demo_sequence = \<lparr>DataTypeID = pg_type ''int8'', Persistence = 0, SeqState = demo_state, OwnerTable = Null_Id,
     OwnerColumn = []\<rparr>"

theorem SetVal_then_nextval_witness:
  "\<exists>sq' u sq''. SetVal_sequence demo_sequence (SeqId demo_state) 5 True True = (None, sq') \<and>
     nextValForSequence sq' = Inr (u, sq'') \<and> sint u = 8"
proof -
  have "SeqId demo_state \<noteq> Null_Id"
    by (simp add: demo_state_def NewSequence_def gs_def NewId_eq fits_first_def Null_Id_def)
  then have "seq_ok (SeqState demo_sequence)" "SeqId (SeqState demo_sequence) \<noteq> Null_Id"
    using demo_ok by (simp_all add: demo_sequence_def)
  from SetVal_then_nextval [OF this, where name = "SeqId demo_state" and v = 5 and called = True and autoAdvance = True] show ?thesis
    by (auto simp: Let_def demo_sequence_def demo_state_def SetVal_sequence_def lt64_def
        split: prod.splits option.splits)
qed

section \<open>Merging\<close>

lemma min64_max64:
  "sint (min64 a b) = min (sint a) (sint b)" "sint (max64 a b) = max (sint a) (sint b)"
  "min64 a a = a" "max64 a a = a"
  by (auto simp: min64_def max64_def utils_Min_def utils_Max_def lt64_def)

text \<open>How far a sequence has come: first whether it has wrapped around, then the distance.\<close>

definition seq_rank :: "SequenceState \<Rightarrow> bool \<times> int" where
  "seq_rank s =
     (if 0 < sint (Increment s) then (sint (Current s) < sint (Start s), sint (Current s))
      else (sint (Start s) < sint (Current s), - sint (Current s)))"

lemma GreaterThan_rank: "same_parameters a b \<Longrightarrow> GreaterThan a b \<longleftrightarrow> seq_rank b < seq_rank a"
  by (auto simp: GreaterThan_def seq_rank_def lt64_def same_parameters_def Let_def)

lemma seq_rank_Current: "same_parameters a b \<Longrightarrow> seq_rank a = seq_rank b \<Longrightarrow> Current a = Current b"
  by (auto simp: seq_rank_def same_parameters_def split: if_splits intro: signed_word_eqI)

lemma Merge_same_parameters:
  "same_parameters a b \<Longrightarrow> Merge a b =
     a\<lparr>Current := (if seq_rank b < seq_rank a then Current a else Current b),
       IsAtEnd := (IsAtEnd a \<and> IsAtEnd b), HasBeenCalled := (HasBeenCalled a \<or> HasBeenCalled b)\<rparr>"
  by (simp add: Merge_def GreaterThan_rank) (simp add: same_parameters_def min64_max64 Let_def)

lemma same_parameters_sym: "same_parameters a b \<longleftrightarrow> same_parameters b a"
  by (auto simp: same_parameters_def)

lemma same_parameters_Merge: "same_parameters a b \<Longrightarrow> same_parameters (Merge a b) a"
  by (simp add: Merge_same_parameters) (simp add: same_parameters_def)

lemma seq_rank_Merge:
  "same_parameters a b \<Longrightarrow>
   seq_rank (Merge a b) = (if seq_rank b < seq_rank a then seq_rank a else seq_rank b)"
  by (simp add: Merge_same_parameters) (simp add: seq_rank_def same_parameters_def)

lemma state_eqI:
  "same_parameters a b \<Longrightarrow> Current a = Current b \<Longrightarrow> IsAtEnd a = IsAtEnd b \<Longrightarrow> HasBeenCalled a = HasBeenCalled b \<Longrightarrow> a = b"
  for a b :: SequenceState
  by (simp add: same_parameters_def)

text \<open>Merging the states of one sequence on two branches is idempotent, commutative and associative, and
  the result is never behind either side (a wrapped sequence counts as further along).\<close>

theorem Merge_semilattice:
  assumes "same_parameters a b" and "same_parameters b c"
  shows "Merge a a = a \<and> Merge a b = Merge b a \<and> Merge (Merge a b) c = Merge a (Merge b c) \<and>
    \<not> GreaterThan a (Merge a b) \<and> \<not> GreaterThan b (Merge a b)"
proof -
  have ac: "same_parameters a c" using assms by (simp add: same_parameters_def)
  have ba: "same_parameters b a" using assms by (simp add: same_parameters_def)
  note pars = same_parameters_Merge [OF assms(1)] same_parameters_Merge [OF assms(2)]
  have ab_c: "same_parameters (Merge a b) c" "same_parameters a (Merge b c)" "same_parameters b (Merge a b)"
    "same_parameters a (Merge a b)"
    using pars assms by (simp_all add: same_parameters_def)
  have comm: "Merge a b = Merge b a"
    using seq_rank_Current [OF assms(1)] assms(1)
    by (intro state_eqI) (auto simp: Merge_same_parameters ba same_parameters_def not_less)
  have idem: "Merge a a = a"
    by (intro state_eqI) (simp_all add: Merge_same_parameters same_parameters_def)
  have cur: "Current (Merge s t) = (if seq_rank t < seq_rank s then Current s else Current t)"
    "IsAtEnd (Merge s t) = (IsAtEnd s \<and> IsAtEnd t)" "HasBeenCalled (Merge s t) = (HasBeenCalled s \<or> HasBeenCalled t)"
    if "same_parameters s t" for s t using that by (simp_all add: Merge_same_parameters)
  have "Merge (Merge a b) c = Merge a (Merge b c)"
  proof (rule state_eqI)
    show "same_parameters (Merge (Merge a b) c) (Merge a (Merge b c))"
      using same_parameters_Merge [OF ab_c(1)] same_parameters_Merge [OF ab_c(2)] pars by (simp add: same_parameters_def)
    show "Current (Merge (Merge a b) c) = Current (Merge a (Merge b c))"
      using assms ab_c by (auto simp: cur seq_rank_Merge)
  qed (use assms ab_c in \<open>auto simp: cur\<close>)
  moreover have "\<not> GreaterThan a (Merge a b)" "\<not> GreaterThan b (Merge a b)"
    using assms ab_c by (auto simp: GreaterThan_rank seq_rank_Merge)
  ultimately show ?thesis using idem comm by blast
qed

theorem Merge_semilattice_witness:
  "Current (Merge (demo_state\<lparr>Current := 4\<rparr>) (demo_state\<lparr>Current := 7\<rparr>)) = 7 \<and>
   Merge (demo_state\<lparr>Current := 4\<rparr>) (demo_state\<lparr>Current := 7\<rparr>) = Merge (demo_state\<lparr>Current := 7\<rparr>) (demo_state\<lparr>Current := 4\<rparr>)"
proof -
  have "same_parameters (demo_state\<lparr>Current := 4\<rparr>) (demo_state\<lparr>Current := 7\<rparr>)" "same_parameters (demo_state\<lparr>Current := 7\<rparr>) demo_state"
    by (simp_all add: same_parameters_def)
  from Merge_semilattice [OF this] show ?thesis
    by (simp add: Merge_def GreaterThan_def demo_state_def lt64_def Let_def)
qed

text \<open>A value can be handed out twice: a branch that has just returned its last value \<open>v\<close> is at its end,
  but merged with a branch that is behind it the state is not at its end any more and its next value is \<open>v\<close>
  again.\<close>

theorem Merge_repeats_last_value:
  assumes "seq_ok a0" and "Next a0 = Inr (v, True, a)" and "IsAtEnd a"
    and "same_parameters a b" and "\<not> IsAtEnd b" and "GreaterThan a b"
  shows "\<exists>s. Next (Merge a b) = Inr (v, True, s)"
proof -
  have "HasBeenCalled a" using Next_Inr(5) [OF assms(1,2)] .
  have "Current a = v"
    using assms(2,3) by (auto simp: Next_def next_wrap_def next_advance_def split: if_splits sum.splits)
  moreover have "Current (Merge a b) = Current a" "\<not> IsAtEnd (Merge a b)" "HasBeenCalled (Merge a b)"
    using assms(4-6) \<open>HasBeenCalled a\<close> by (simp_all add: Merge_same_parameters GreaterThan_rank)
  ultimately show ?thesis
    using called_not_zero [of "Merge a b"] by (simp add: Next_def next_wrap_def)
qed

theorem Merge_repeats_last_value_witness:
  "\<exists>a s. Next (demo_state\<lparr>Current := 7\<rparr>) = Inr (7, True, a) \<and> Next (Merge a demo_state) = Inr (7, True, s)"
proof -
  let ?s = "demo_state\<lparr>Current := 7\<rparr>" and ?a = "demo_state\<lparr>Current := 7, HasBeenCalled := True, IsAtEnd := True\<rparr>"
  have "?s \<noteq> zero_state" by (simp add: demo_state_def zero_state_def)
  then have "Next ?s = Inr (7, True, ?a)"
    by (simp add: Next_def next_wrap_def next_advance_def lt64_def MaxInt64_def) (simp add: demo_state_def)
  moreover have "seq_ok ?s" by (simp add: seq_ok_def in_bounds_def demo_state_def zero_state_def)
  moreover have "IsAtEnd ?a" "same_parameters ?a demo_state" "\<not> IsAtEnd demo_state" "GreaterThan ?a demo_state"
    by (simp_all add: same_parameters_def demo_state_def GreaterThan_def lt64_def Let_def)
  ultimately show ?thesis using Merge_repeats_last_value [of ?s 7 ?a demo_state] by auto
qed

lemma HandleMerge_fields:
  assumes "HandleMerge o1 t anc = Inr m"
  shows "Current (SeqState m) = ResolveMergeValues (Current (SeqState o1)) (Current (SeqState t))
      (Current (case anc of Some a \<Rightarrow> SeqState a | None \<Rightarrow> zero_state)) (anc \<noteq> None)
      (by_direction (SeqState o1) (SeqState t) max64 min64)"
    and "Increment (SeqState m) = ResolveMergeValues (Increment (SeqState o1)) (Increment (SeqState t))
      (Increment (case anc of Some a \<Rightarrow> SeqState a | None \<Rightarrow> zero_state)) (anc \<noteq> None)
      (by_direction (SeqState o1) (SeqState t) min64 max64)"
    and "Minimum (SeqState m) = ResolveMergeValues (Minimum (SeqState o1)) (Minimum (SeqState t))
      (Minimum (case anc of Some a \<Rightarrow> SeqState a | None \<Rightarrow> zero_state)) (anc \<noteq> None) min64"
    and "Maximum (SeqState m) = ResolveMergeValues (Maximum (SeqState o1)) (Maximum (SeqState t))
      (Maximum (case anc of Some a \<Rightarrow> SeqState a | None \<Rightarrow> zero_state)) (anc \<noteq> None) max64"
  using assms
  by (cases anc; force simp: HandleMerge_def Let_def zero_sequence_def ResolveMergeValuesVariadic_def
      min64_def [abs_def] max64_def [abs_def] split: if_splits)+

text \<open>The three-way merge of a sequence that both branches advanced from their common ancestor, in the
  same direction, keeps the furthest current value and the widest bounds, and a side that did not change a
  field takes the other side's value.\<close>

theorem HandleMerge_keeps_progress:
  assumes "SeqId (SeqState o1) = SeqId (SeqState t)"
    and "Increment (SeqState o1) = Increment (SeqState t)"
    and "anc = None \<or> (\<exists>a. anc = Some a \<and>
      (if 0 \<le> sint (Increment (SeqState t))
       then sint (Current (SeqState a)) \<le> min (sint (Current (SeqState o1))) (sint (Current (SeqState t)))
       else sint (Current (SeqState a)) \<ge> max (sint (Current (SeqState o1))) (sint (Current (SeqState t)))))"
  shows "\<exists>m. HandleMerge o1 t anc = Inr m \<and> Increment (SeqState m) = Increment (SeqState t) \<and>
    sint (Current (SeqState m)) =
      (if 0 \<le> sint (Increment (SeqState t)) then max (sint (Current (SeqState o1))) (sint (Current (SeqState t)))
       else min (sint (Current (SeqState o1))) (sint (Current (SeqState t)))) \<and>
    (anc = None \<longrightarrow> sint (Minimum (SeqState m)) = min (sint (Minimum (SeqState o1))) (sint (Minimum (SeqState t))) \<and>
      sint (Maximum (SeqState m)) = max (sint (Maximum (SeqState o1))) (sint (Maximum (SeqState t)))) \<and>
    (anc = Some o1 \<longrightarrow> m = o1\<lparr>DataTypeID := DataTypeID t, SeqState := (SeqState t)\<lparr>IsAtEnd := IsAtEnd (SeqState o1)\<rparr>\<rparr>)"
proof -
  obtain m where m: "HandleMerge o1 t anc = Inr m" using assms(1) by (simp add: HandleMerge_def Let_def)
  note fields = HandleMerge_fields [OF m]
  have "sint (by_direction (SeqState o1) (SeqState t) max64 min64 a b) =
      (if 0 \<le> sint (Increment (SeqState t)) then max (sint a) (sint b) else min (sint a) (sint b))" for a b
    using assms(2) by (simp add: by_direction_def lt64_def min64_max64)
  then have "sint (Current (SeqState m)) =
      (if 0 \<le> sint (Increment (SeqState t)) then max (sint (Current (SeqState o1))) (sint (Current (SeqState t)))
       else min (sint (Current (SeqState o1))) (sint (Current (SeqState t))))"
    using assms(3) unfolding fields by (auto simp: ResolveMergeValues_def split: if_splits)
  moreover have "Increment (SeqState m) = Increment (SeqState t)"
    using assms(2) unfolding fields by (simp add: ResolveMergeValues_def)
  moreover have "sint (Minimum (SeqState m)) = min (sint (Minimum (SeqState o1))) (sint (Minimum (SeqState t)))"
    "sint (Maximum (SeqState m)) = max (sint (Maximum (SeqState o1))) (sint (Maximum (SeqState t)))" if "anc = None"
    using that unfolding fields by (simp_all add: ResolveMergeValues_def min64_max64)
  moreover have "m = o1\<lparr>DataTypeID := DataTypeID t, SeqState := (SeqState t)\<lparr>IsAtEnd := IsAtEnd (SeqState o1)\<rparr>\<rparr>"
    if "anc = Some o1"
    using m that assms(1) by (auto simp: HandleMerge_def Let_def ResolveMergeValues_def ResolveMergeValuesVariadic_def)
  ultimately show ?thesis using m by blast
qed

theorem HandleMerge_keeps_progress_witness:
  "\<exists>m. HandleMerge (demo_sequence\<lparr>SeqState := demo_state\<lparr>Current := 4\<rparr>\<rparr>) (demo_sequence\<lparr>SeqState := demo_state\<lparr>Current := 7\<rparr>\<rparr>)
      (Some demo_sequence) = Inr m \<and> sint (Current (SeqState m)) = 7"
  using HandleMerge_keeps_progress [of "demo_sequence\<lparr>SeqState := demo_state\<lparr>Current := 4\<rparr>\<rparr>"
      "demo_sequence\<lparr>SeqState := demo_state\<lparr>Current := 7\<rparr>\<rparr>" "Some demo_sequence"]
  by (auto simp: demo_sequence_def demo_state_def)

end
