(* ===== verification/Sequence_Codec.thy ===== *)
theory Sequence_Codec
  imports Codec_Instances Sequence_Props
begin

text \<open>
  The stored form of a sequence: \<open>src/core/sequences/serialization.go\<close>. A nil sequence is \<open>None\<close>. The
  outer option of \<open>DeserializeSequence\<close> is \<open>None\<close> where the reader panics, the sum carries the returned error.
\<close>

section \<open>Operations\<close>

definition Sequence_Serialize :: "Sequence option \<Rightarrow> byte list" where
  "Sequence_Serialize sqo = (case sqo of None \<Rightarrow> [] | Some sq \<Rightarrow>
     let writer = NewWriter 256;
         writer = Writer_VariableUint 1 writer;
         writer = Writer_Id (SeqId (SeqState sq)) writer;
         writer = Writer_Id (DataTypeID sq) writer;
         writer = Writer_Uint8 (Persistence sq) writer;
         writer = Writer_Int64 (Start (SeqState sq)) writer;
         writer = Writer_Int64 (Current (SeqState sq)) writer;
         writer = Writer_Int64 (Increment (SeqState sq)) writer;
         writer = Writer_Int64 (Minimum (SeqState sq)) writer;
         writer = Writer_Int64 (Maximum (SeqState sq)) writer;
         writer = Writer_Int64 (Cache (SeqState sq)) writer;
         writer = Writer_Bool (Cycle (SeqState sq)) writer;
         writer = Writer_Bool (IsAtEnd (SeqState sq)) writer;
         writer = Writer_Bool (HasBeenCalled (SeqState sq)) writer;
         writer = Writer_Id (OwnerTable sq) writer;
         writer = Writer_String (OwnerColumn sq) writer
     in Writer_Data writer)"

definition read_called :: "uint64 \<Rightarrow> bool rd" where
  "read_called version r = (if version \<ge> 1 then Reader_Bool r else Some (False, r))"

definition read_sequence :: "uint64 \<Rightarrow> Sequence rd" where
  "read_sequence version r = do {
     (i, r) \<leftarrow> Reader_Id r;
     (ty, r) \<leftarrow> Reader_Id r;
     (pers, r) \<leftarrow> Reader_Uint8 r;
     (start, r) \<leftarrow> Reader_Int64 r;
     (cur, r) \<leftarrow> Reader_Int64 r;
     (inc, r) \<leftarrow> Reader_Int64 r;
     (mn, r) \<leftarrow> Reader_Int64 r;
     (mx, r) \<leftarrow> Reader_Int64 r;
     (cch, r) \<leftarrow> Reader_Int64 r;
     (cyc, r) \<leftarrow> Reader_Bool r;
     (atEnd, r) \<leftarrow> Reader_Bool r;
     (called, r) \<leftarrow> read_called version r;
     (owner, r) \<leftarrow> Reader_Id r;
     (col, r) \<leftarrow> Reader_String r;
     Some (\<lparr>DataTypeID = ty, Persistence = pers,
       SeqState = \<lparr>SeqId = i, Start = start, Current = cur, Increment = inc, Minimum = mn, Maximum = mx, Cache = cch,
         Cycle = cyc, IsAtEnd = atEnd, HasBeenCalled = called\<rparr>,
       OwnerTable = owner, OwnerColumn = col\<rparr>, r)
   }"

definition DeserializeSequence :: "byte list \<Rightarrow> byte list \<Rightarrow> (seq_error + Sequence option) option" where
  "DeserializeSequence data spare =
     (if length data = 0 then Some (Inr None) else do {
        let r = NewReader data spare;
        (version, r) \<leftarrow> Reader_VariableUint r;
        if version > 1 then Some (Inl (UnsupportedVersion version)) else do {
          (sq, r) \<leftarrow> read_sequence version r;
          if \<not> Reader_IsEmpty r then Some (Inl ExtraData) else Some (Inr (Some sq))
        }
      })"

section \<open>Lemmas\<close>

abbreviation int64_enc :: "int64 \<Rightarrow> byte list" where
  "int64_enc v \<equiv> be_put 8 (v + push_bit 63 1)"

abbreviation bool_enc :: "bool \<Rightarrow> byte list" where
  "bool_enc b \<equiv> [if b then 1 else 0]"

text \<open>The fields behind the version; \<open>called\<close> is what stands for \<open>HasBeenCalled\<close>, nothing in version 0.\<close>

definition sequence_enc :: "byte list \<Rightarrow> Sequence \<Rightarrow> byte list" where
  "sequence_enc called sq =
     string_enc (SeqId (SeqState sq)) @ string_enc (DataTypeID sq) @ [Persistence sq] @
     int64_enc (Start (SeqState sq)) @ int64_enc (Current (SeqState sq)) @ int64_enc (Increment (SeqState sq)) @
     int64_enc (Minimum (SeqState sq)) @ int64_enc (Maximum (SeqState sq)) @ int64_enc (Cache (SeqState sq)) @
     bool_enc (Cycle (SeqState sq)) @ bool_enc (IsAtEnd (SeqState sq)) @ called @
     string_enc (OwnerTable sq) @ string_enc (OwnerColumn sq)"

lemma Serialize_enc:
  "Sequence_Serialize (Some sq) = PutUvarint 1 @ sequence_enc (bool_enc (HasBeenCalled (SeqState sq))) sq"
  by (simp add: Sequence_Serialize_def Let_def Writer_Data_def codec_writes NewWriter_def sequence_enc_def
      del: push_bit_of_1)

lemma reads_called:
  "reads (read_called 1) (bool_enc b) b" "reads (read_called 0) [] False"
  unfolding read_called_def [abs_def] by (simp_all add: bool_codec.rd_enc reads_return)

lemma reads_sequence:
  assumes "reads (read_called v) called b"
  shows "reads (read_sequence v) (sequence_enc called sq) (sq\<lparr>SeqState := (SeqState sq)\<lparr>HasBeenCalled := b\<rparr>\<rparr>)"
  unfolding read_sequence_def [abs_def] sequence_enc_def
  by ((rule reads_bind, (rule assms | (rule codec_reads, rule TrueI)))+, rule reads_map, rule codec_reads, simp_all)

lemma DeserializeSequence_eq:
  assumes "length (PutUvarint v @ sequence_enc called sq @ extra) < 2 ^ 63" and "v \<le> 1"
    and "reads (read_called v) called b"
  shows "DeserializeSequence (PutUvarint v @ sequence_enc called sq @ extra) spare =
    Some (if extra = [] then Inr (Some (sq\<lparr>SeqState := (SeqState sq)\<lparr>HasBeenCalled := b\<rparr>\<rparr>)) else Inl ExtraData)"
proof -
  let ?p = "PutUvarint v" and ?s = "sequence_enc called sq"
  have "Reader_VariableUint (NewReader (?p @ ?s @ extra) spare) = Some (v, reader_at ?p (?s @ extra) spare)"
    using readsD [OF variable_uint_codec.rd_enc [OF TrueI], of "[]" v "?s @ extra" spare] assms(1)
    by (simp add: NewReader_at)
  moreover have "read_sequence v (reader_at ?p (?s @ extra) spare) =
      Some (sq\<lparr>SeqState := (SeqState sq)\<lparr>HasBeenCalled := b\<rparr>\<rparr>, reader_at (?p @ ?s) extra spare)"
    using readsD [OF reads_sequence [OF assms(3)], of ?p sq extra spare] assms(1) by simp
  moreover have "Reader_IsEmpty (reader_at (?p @ ?s) extra spare) \<longleftrightarrow> extra = []"
    using assms(1) unat_of_len [of "length (?p @ ?s)"] unat_of_len [of "length (?p @ ?s @ extra)"]
    by (auto simp: Reader_IsEmpty_def reader_at_def word_le_nat_alt word_unat_eq_iff)
  ultimately show ?thesis using assms(2) by (simp add: DeserializeSequence_def PutUvarint_not_Nil not_less)
qed

section \<open>Properties\<close>

text \<open>A stored sequence is read back as it was, and nil as nil; bytes behind it are an error.\<close>

theorem sequence_round_trip:
  assumes "length (Sequence_Serialize (Some sq) @ extra) < 2 ^ 63"
  shows "DeserializeSequence (Sequence_Serialize (Some sq)) spare = Some (Inr (Some sq)) \<and>
    DeserializeSequence (Sequence_Serialize None) spare = Some (Inr None) \<and>
    (extra \<noteq> [] \<longrightarrow> DeserializeSequence (Sequence_Serialize (Some sq) @ extra) spare = Some (Inl ExtraData))"
  using DeserializeSequence_eq [of 1 "bool_enc (HasBeenCalled (SeqState sq))" sq "[]" _ spare, OF _ _ reads_called(1)]
    DeserializeSequence_eq [of 1 "bool_enc (HasBeenCalled (SeqState sq))" sq extra _ spare, OF _ _ reads_called(1)] assms
  by (simp add: Serialize_enc) (simp add: Sequence_Serialize_def DeserializeSequence_def)

theorem sequence_round_trip_witness:
  "DeserializeSequence (Sequence_Serialize (Some demo_sequence)) [] = Some (Inr (Some demo_sequence)) \<and>
   DeserializeSequence (Sequence_Serialize (Some demo_sequence) @ [7]) [] = Some (Inl ExtraData)"
proof -
  have "length (Sequence_Serialize (Some demo_sequence)) < 200" by code_simp
  then show ?thesis using sequence_round_trip [of demo_sequence "[7]" "[]"] by simp
qed

text \<open>Older and newer forms: version 0, which has no \<open>HasBeenCalled\<close>, is read with it false; every version
  above 1 is refused, whatever follows it.\<close>

theorem sequence_versions:
  assumes "length (PutUvarint 0 @ sequence_enc [] sq) < 2 ^ 63"
    and "length (PutUvarint v @ rest) < 2 ^ 63" and "1 < v"
  shows "DeserializeSequence (PutUvarint 0 @ sequence_enc [] sq) spare =
      Some (Inr (Some (sq\<lparr>SeqState := (SeqState sq)\<lparr>HasBeenCalled := False\<rparr>\<rparr>))) \<and>
    DeserializeSequence (PutUvarint v @ rest) spare = Some (Inl (UnsupportedVersion v))"
proof -
  have "Reader_VariableUint (NewReader (PutUvarint v @ rest) spare) = Some (v, reader_at (PutUvarint v) rest spare)"
    using readsD [OF variable_uint_codec.rd_enc [OF TrueI], of "[]" v rest spare] assms(2)
    by (simp add: NewReader_at)
  then show ?thesis
    using DeserializeSequence_eq [of 0 "[]" sq "[]" False spare, OF _ _ reads_called(2)] assms
    by (simp add: DeserializeSequence_def PutUvarint_not_Nil)
qed

theorem sequence_versions_witness:
  "DeserializeSequence (PutUvarint 2 @ [1, 2, 3]) [] = Some (Inl (UnsupportedVersion 2))"
proof -
  have "length (PutUvarint 0 @ sequence_enc [] demo_sequence) < 200" "length (PutUvarint 2 @ [1, 2, 3]) < 200"
    by code_simp+
  then show ?thesis using sequence_versions [of demo_sequence 2 "[1, 2, 3]" "[]"] by simp
qed

end
