(* ===== verification/Auth_Roles.thy ===== *)
theory Auth_Roles
  imports Byte_Writer
begin

text \<open>
  Privileges, roles and the authorization database: \<open>src/server/auth/privileges.go\<close>, \<open>role.go\<close>, \<open>database.go\<close>
  and the data of \<open>role_membership.go\<close> and the five privilege tables. The database is one record; the
  operations of the source on \<open>globalDatabase\<close> take it and return it changed. The counter \<open>userIDCounter\<close> is
  part of the state. A time is its number of microseconds since the epoch.
\<close>

section \<open>Privileges\<close>

type_synonym RoleID = uint64
type_synonym Privilege = gostring

definition Privilege_SELECT :: Privilege where
  "Privilege_SELECT = gs ''r''"

definition Privilege_INSERT :: Privilege where
  "Privilege_INSERT = gs ''a''"

definition Privilege_UPDATE :: Privilege where
  "Privilege_UPDATE = gs ''w''"

definition Privilege_DELETE :: Privilege where
  "Privilege_DELETE = gs ''d''"

definition Privilege_TRUNCATE :: Privilege where
  "Privilege_TRUNCATE = gs ''D''"

definition Privilege_REFERENCES :: Privilege where
  "Privilege_REFERENCES = gs ''x''"

definition Privilege_TRIGGER :: Privilege where
  "Privilege_TRIGGER = gs ''t''"

definition Privilege_CREATE :: Privilege where
  "Privilege_CREATE = gs ''C''"

definition Privilege_CONNECT :: Privilege where
  "Privilege_CONNECT = gs ''c''"

definition Privilege_TEMPORARY :: Privilege where
  "Privilege_TEMPORARY = gs ''T''"

definition Privilege_EXECUTE :: Privilege where
  "Privilege_EXECUTE = gs ''X''"

definition Privilege_USAGE :: Privilege where
  "Privilege_USAGE = gs ''U''"

definition Privilege_SET :: Privilege where
  "Privilege_SET = gs ''s''"

definition Privilege_ALTER_SYSTEM :: Privilege where
  "Privilege_ALTER_SYSTEM = gs ''A''"

definition Privilege_DROP :: Privilege where
  "Privilege_DROP = gs ''Y''"

record GrantedPrivilege =
  gp_Privilege :: Privilege
  GrantedBy :: RoleID

datatype PrivilegeObject =
    PrivilegeObject_DATABASE
  | PrivilegeObject_DOMAIN
  | PrivilegeObject_FUNCTION
  | PrivilegeObject_FOREIGN_DATA_WRAPPER
  | PrivilegeObject_FOREIGN_SERVER
  | PrivilegeObject_LANGUAGE
  | PrivilegeObject_LARGE_OBJECT
  | PrivilegeObject_PARAMETER
  | PrivilegeObject_SCHEMA
  | PrivilegeObject_SEQUENCE
  | PrivilegeObject_TABLE
  | PrivilegeObject_TABLE_COLUMN
  | PrivilegeObject_TABLESPACE
  | PrivilegeObject_TYPE

definition GetAllPrivileges :: "Privilege list" where
  "GetAllPrivileges = [Privilege_SELECT,
     Privilege_INSERT,
     Privilege_UPDATE,
     Privilege_DELETE,
     Privilege_TRUNCATE,
     Privilege_REFERENCES,
     Privilege_TRIGGER,
     Privilege_CREATE,
     Privilege_CONNECT,
     Privilege_TEMPORARY,
     Privilege_EXECUTE,
     Privilege_USAGE,
     Privilege_SET,
     Privilege_ALTER_SYSTEM,
     Privilege_DROP]"

definition GetAllPrivilegeObjects :: "PrivilegeObject list" where
  "GetAllPrivilegeObjects = [PrivilegeObject_DATABASE,
     PrivilegeObject_DOMAIN,
     PrivilegeObject_FUNCTION,
     PrivilegeObject_FOREIGN_DATA_WRAPPER,
     PrivilegeObject_FOREIGN_SERVER,
     PrivilegeObject_LANGUAGE,
     PrivilegeObject_LARGE_OBJECT,
     PrivilegeObject_PARAMETER,
     PrivilegeObject_SCHEMA,
     PrivilegeObject_SEQUENCE,
     PrivilegeObject_TABLE,
     PrivilegeObject_TABLE_COLUMN,
     PrivilegeObject_TABLESPACE,
     PrivilegeObject_TYPE]"

definition ACLAbbreviation :: "Privilege \<Rightarrow> gostring" where
  "ACLAbbreviation p = p"

definition Privilege_String :: "Privilege \<Rightarrow> gostring" where
  "Privilege_String p =
     (if p = Privilege_SELECT then gs ''SELECT''
      else if p = Privilege_INSERT then gs ''INSERT''
      else if p = Privilege_UPDATE then gs ''UPDATE''
      else if p = Privilege_DELETE then gs ''DELETE''
      else if p = Privilege_TRUNCATE then gs ''TRUNCATE''
      else if p = Privilege_REFERENCES then gs ''REFERENCES''
      else if p = Privilege_TRIGGER then gs ''TRIGGER''
      else if p = Privilege_CREATE then gs ''CREATE''
      else if p = Privilege_CONNECT then gs ''CONNECT''
      else if p = Privilege_TEMPORARY then gs ''TEMPORARY''
      else if p = Privilege_EXECUTE then gs ''EXECUTE''
      else if p = Privilege_USAGE then gs ''USAGE''
      else if p = Privilege_SET then gs ''SET''
      else if p = Privilege_ALTER_SYSTEM then gs ''ALTER SYSTEM''
      else if p = Privilege_DROP then gs ''DROP''
      else gs ''UNKNOWN'')"

fun AllPrivileges :: "PrivilegeObject \<Rightarrow> Privilege list" where
  "AllPrivileges PrivilegeObject_DATABASE = [Privilege_CREATE, Privilege_TEMPORARY, Privilege_CONNECT, Privilege_DROP]"
| "AllPrivileges PrivilegeObject_DOMAIN = [Privilege_USAGE, Privilege_DROP]"
| "AllPrivileges PrivilegeObject_FUNCTION = [Privilege_EXECUTE, Privilege_DROP]"
| "AllPrivileges PrivilegeObject_FOREIGN_DATA_WRAPPER = [Privilege_USAGE, Privilege_DROP]"
| "AllPrivileges PrivilegeObject_FOREIGN_SERVER = [Privilege_USAGE, Privilege_DROP]"
| "AllPrivileges PrivilegeObject_LANGUAGE = [Privilege_USAGE, Privilege_DROP]"
| "AllPrivileges PrivilegeObject_LARGE_OBJECT = [Privilege_SELECT, Privilege_UPDATE, Privilege_DROP]"
| "AllPrivileges PrivilegeObject_PARAMETER = [Privilege_SET, Privilege_ALTER_SYSTEM, Privilege_DROP]"
| "AllPrivileges PrivilegeObject_SCHEMA = [Privilege_USAGE, Privilege_CREATE, Privilege_DROP]"
| "AllPrivileges PrivilegeObject_SEQUENCE = [Privilege_SELECT, Privilege_UPDATE, Privilege_USAGE, Privilege_DROP]"
| "AllPrivileges PrivilegeObject_TABLE = [Privilege_INSERT, Privilege_SELECT, Privilege_UPDATE, Privilege_DELETE, Privilege_TRUNCATE, Privilege_REFERENCES, Privilege_TRIGGER, Privilege_DROP]"
| "AllPrivileges PrivilegeObject_TABLE_COLUMN = [Privilege_INSERT, Privilege_SELECT, Privilege_UPDATE, Privilege_REFERENCES, Privilege_DROP]"
| "AllPrivileges PrivilegeObject_TABLESPACE = [Privilege_CREATE, Privilege_DROP]"
| "AllPrivileges PrivilegeObject_TYPE = [Privilege_USAGE, Privilege_DROP]"

fun DefaultPublicPrivileges :: "PrivilegeObject \<Rightarrow> Privilege list" where
  "DefaultPublicPrivileges PrivilegeObject_DATABASE = [Privilege_TEMPORARY, Privilege_CONNECT]"
| "DefaultPublicPrivileges PrivilegeObject_DOMAIN = [Privilege_USAGE]"
| "DefaultPublicPrivileges PrivilegeObject_FUNCTION = [Privilege_EXECUTE]"
| "DefaultPublicPrivileges PrivilegeObject_FOREIGN_DATA_WRAPPER = []"
| "DefaultPublicPrivileges PrivilegeObject_FOREIGN_SERVER = []"
| "DefaultPublicPrivileges PrivilegeObject_LANGUAGE = [Privilege_USAGE]"
| "DefaultPublicPrivileges PrivilegeObject_LARGE_OBJECT = []"
| "DefaultPublicPrivileges PrivilegeObject_PARAMETER = []"
| "DefaultPublicPrivileges PrivilegeObject_SCHEMA = []"
| "DefaultPublicPrivileges PrivilegeObject_SEQUENCE = []"
| "DefaultPublicPrivileges PrivilegeObject_TABLE = []"
| "DefaultPublicPrivileges PrivilegeObject_TABLE_COLUMN = []"
| "DefaultPublicPrivileges PrivilegeObject_TABLESPACE = []"
| "DefaultPublicPrivileges PrivilegeObject_TYPE = [Privilege_USAGE]"

definition PrivilegeObject_IsValid :: "PrivilegeObject \<Rightarrow> Privilege \<Rightarrow> bool" where
  "PrivilegeObject_IsValid po privilege \<longleftrightarrow> (\<exists>poPriv \<in> set (AllPrivileges po). privilege = poPriv)"

fun PrivilegeObject_String :: "PrivilegeObject \<Rightarrow> gostring" where
  "PrivilegeObject_String PrivilegeObject_DATABASE = gs ''DATABASE''"
| "PrivilegeObject_String PrivilegeObject_DOMAIN = gs ''DOMAIN''"
| "PrivilegeObject_String PrivilegeObject_FUNCTION = gs ''FUNCTION''"
| "PrivilegeObject_String PrivilegeObject_FOREIGN_DATA_WRAPPER = gs ''FOREIGN DATA WRAPPER''"
| "PrivilegeObject_String PrivilegeObject_FOREIGN_SERVER = gs ''FOREIGN SERVER''"
| "PrivilegeObject_String PrivilegeObject_LANGUAGE = gs ''LANGUAGE''"
| "PrivilegeObject_String PrivilegeObject_LARGE_OBJECT = gs ''LARGE_OBJECT''"
| "PrivilegeObject_String PrivilegeObject_PARAMETER = gs ''PARAMETER''"
| "PrivilegeObject_String PrivilegeObject_SCHEMA = gs ''SCHEMA''"
| "PrivilegeObject_String PrivilegeObject_SEQUENCE = gs ''SEQUENCE''"
| "PrivilegeObject_String PrivilegeObject_TABLE = gs ''TABLE''"
| "PrivilegeObject_String PrivilegeObject_TABLE_COLUMN = gs ''TABLE COLUMN''"
| "PrivilegeObject_String PrivilegeObject_TABLESPACE = gs ''TABLESPACE''"
| "PrivilegeObject_String PrivilegeObject_TYPE = gs ''TYPE''"

section \<open>Roles\<close>

record ScramSha256Password =
  Iterations :: uint32
  Salt :: "byte list"
  StoredKey :: "byte list"
  ServerKey :: "byte list"

record Role =
  role_Name :: gostring
  role_IsSuperUser :: bool
  InheritPrivileges :: bool
  CanCreateRoles :: bool
  CanCreateDB :: bool
  CanLogin :: bool
  IsReplicationRole :: bool
  CanBypassRowLevelSecurity :: bool
  ConnectionLimit :: uint32
  Password :: "ScramSha256Password option"
  ValidUntil :: "uint64 option"
  role_id :: RoleID

definition createDefaultRoleWithoutID :: "gostring \<Rightarrow> Role" where
  "createDefaultRoleWithoutID name = \<lparr>role_Name = name, role_IsSuperUser = False, InheritPrivileges = True,
     CanCreateRoles = False, CanCreateDB = False, CanLogin = False, IsReplicationRole = False,
     CanBypassRowLevelSecurity = False, ConnectionLimit = -1, Password = None, ValidUntil = None, role_id = 0\<rparr>"

text \<open>The zero value of the struct, which a missing key of a map of roles gives.\<close>

definition zero_role :: Role where
  "zero_role = \<lparr>role_Name = [], role_IsSuperUser = False, InheritPrivileges = False,
     CanCreateRoles = False, CanCreateDB = False, CanLogin = False, IsReplicationRole = False,
     CanBypassRowLevelSecurity = False, ConnectionLimit = 0, Password = None, ValidUntil = None, role_id = 0\<rparr>"

definition RoleID_IsValid :: "RoleID \<Rightarrow> bool" where
  "RoleID_IsValid i \<longleftrightarrow> i \<noteq> 0"

definition Role_IsValid :: "Role \<Rightarrow> bool" where
  "Role_IsValid r = RoleID_IsValid (role_id r)"

section \<open>The database\<close>

record RoleMembershipValue =
  mv_Member :: RoleID
  mv_Group :: RoleID
  WithAdminOption :: bool
  mv_GrantedBy :: RoleID

record DatabasePrivilegeKey =
  dk_Role :: RoleID
  dk_Name :: gostring

record SchemaPrivilegeKey =
  sk_Role :: RoleID
  sk_Schema :: gostring

text \<open>\<open>tk_Name\<close> and \<open>tk_Schema\<close> are the fields of the \<open>doltdb.TableName\<close> of the key.\<close>

record TablePrivilegeKey =
  tk_Role :: RoleID
  tk_Name :: gostring
  tk_Schema :: gostring

record SequencePrivilegeKey =
  qk_Role :: RoleID
  qk_Schema :: gostring
  qk_Name :: gostring

record RoutinePrivilegeKey =
  rk_Role :: RoleID
  rk_Schema :: gostring
  rk_Name :: gostring
  rk_ArgTypes :: gostring

type_synonym privilege_map = "(Privilege, (GrantedPrivilege, bool) gomap) gomap"

record 'k PrivilegeValue =
  pv_Key :: 'k
  Privileges :: privilege_map

type_synonym 'k privileges = "('k, 'k PrivilegeValue) gomap"
type_synonym membership = "(RoleID, (RoleID, RoleMembershipValue) gomap) gomap"

record Database =
  rolesByName :: "(gostring, RoleID) gomap"
  rolesByID :: "(RoleID, Role) gomap"
  databasePrivileges :: "DatabasePrivilegeKey privileges"
  schemaPrivileges :: "SchemaPrivilegeKey privileges"
  tablePrivileges :: "TablePrivilegeKey privileges"
  sequencePrivileges :: "SequencePrivilegeKey privileges"
  routinePrivileges :: "RoutinePrivilegeKey privileges"
  roleMembership :: membership

definition newEmptyDatabase :: Database where
  "newEmptyDatabase = \<lparr>rolesByName = [], rolesByID = [], databasePrivileges = [], schemaPrivileges = [],
     tablePrivileges = [], sequencePrivileges = [], routinePrivileges = [], roleMembership = []\<rparr>"

definition role_by_id :: "Database \<Rightarrow> RoleID \<Rightarrow> Role" where
  "role_by_id db i = (case gm_get (rolesByID db) i of Some r \<Rightarrow> r | None \<Rightarrow> zero_role)"

definition IsSuperUser :: "Database \<Rightarrow> RoleID \<Rightarrow> bool" where
  "IsSuperUser db i = role_IsSuperUser (role_by_id db i)"

definition AllRoles :: "Database \<Rightarrow> Role list" where
  "AllRoles db = sort_key role_Name (map snd (rolesByID db))"

definition DropRole :: "Database \<Rightarrow> gostring \<Rightarrow> Database" where
  "DropRole db name = (case gm_get (rolesByName db) name of
     None \<Rightarrow> db
   | Some roleID \<Rightarrow> db\<lparr>rolesByName := gm_del name (rolesByName db), rolesByID := gm_del roleID (rolesByID db)\<rparr>)"

definition GetRole :: "Database \<Rightarrow> gostring \<Rightarrow> Role" where
  "GetRole db name = (case gm_get (rolesByName db) name of
     None \<Rightarrow> createDefaultRoleWithoutID name
   | Some roleID \<Rightarrow> role_by_id db roleID)"

definition RenameRole :: "Database \<Rightarrow> gostring \<Rightarrow> gostring \<Rightarrow> Database" where
  "RenameRole db oldName newName = (case gm_get (rolesByName db) oldName of
     None \<Rightarrow> db
   | Some roleID \<Rightarrow> db\<lparr>
       rolesByName := gm_set newName roleID (gm_del oldName (rolesByName db)),
       rolesByID := gm_set roleID ((role_by_id db roleID)\<lparr>role_Name := newName\<rparr>) (rolesByID db)\<rparr>)"

definition RoleExists :: "Database \<Rightarrow> gostring \<Rightarrow> bool" where
  "RoleExists db name \<longleftrightarrow> gm_get (rolesByName db) name \<noteq> None"

definition SetRole :: "Database \<Rightarrow> Role \<Rightarrow> Database" where
  "SetRole db role =
     (if role_id role = 0 then db
      else
        let names = (case gm_get (rolesByID db) (role_id role) of
              Some existingRole \<Rightarrow> gm_del (role_Name existingRole) (rolesByName db)
            | None \<Rightarrow> rolesByName db)
        in db\<lparr>rolesByName := gm_set (role_Name role) (role_id role) names,
              rolesByID := gm_set (role_id role) role (rolesByID db)\<rparr>)"

text \<open>\<open>userIDCounter.Add(1)\<close> is an atomic increment of an unsigned 64 bit counter.\<close>

definition CreateDefaultRole :: "uint64 \<Rightarrow> gostring \<Rightarrow> Role \<times> uint64" where
  "CreateDefaultRole counter name =
     ((createDefaultRoleWithoutID name)\<lparr>role_id := counter + 1\<rparr>, counter + 1)"

text \<open>
  \<open>dbInitDefault\<close> and \<open>ClearDatabase\<close>; the name of the superuser comes from the environment, and the
  password from \<open>NewScramSha256Password\<close>, which draws a random salt.
\<close>

definition dbInitDefault :: "gostring \<Rightarrow> ScramSha256Password \<Rightarrow> Database \<times> uint64 \<Rightarrow> Database \<times> uint64" where
  "dbInitDefault user password s =
     (let (db, counter) = s;
          (public, counter) = CreateDefaultRole counter (gs ''public'');
          db = SetRole db public;
          (superUser, counter) = CreateDefaultRole counter user;
          superUser = superUser\<lparr>role_IsSuperUser := True, CanCreateRoles := True, CanCreateDB := True, CanLogin := True,
            Password := Some password\<rparr>
      in (SetRole db superUser, counter))"

definition ClearDatabase :: "gostring \<Rightarrow> ScramSha256Password \<Rightarrow> Database \<times> uint64 \<Rightarrow> Database \<times> uint64" where
  "ClearDatabase user password s = dbInitDefault user password (newEmptyDatabase, snd s)"

end
