(* ===== verification/Graph_Search.thy ===== *)
theory Graph_Search
  imports Prelude
begin

text \<open>
  The contract of the recursive checks of \<open>src/server/auth\<close>: each of them looks at one node (a role, or a
  key with its role) and calls itself on the children of that node. The fuel is the depth of calls that
  the stack has room for, \<open>None\<close> says that it did not suffice.
\<close>

section \<open>Loops with early exit\<close>

fun any_call :: "('a \<Rightarrow> bool option) \<Rightarrow> 'a list \<Rightarrow> bool option" where
  "any_call f [] = Some False"
| "any_call f (x # xs) = (case f x of
     None \<Rightarrow> None
   | Some True \<Rightarrow> Some True
   | Some False \<Rightarrow> any_call f xs)"

lemma any_call_True: "any_call f xs = Some True \<Longrightarrow> \<exists>x \<in> set xs. f x = Some True"
  by (induction xs) (auto split: option.splits bool.splits)

lemma any_call_False: "any_call f xs = Some False \<longleftrightarrow> (\<forall>x \<in> set xs. f x = Some False)"
  by (induction xs) (auto split: option.splits bool.splits)

lemma any_call_defined: "\<forall>x \<in> set xs. f x \<noteq> None \<Longrightarrow> any_call f xs \<noteq> None"
  by (induction xs) (auto split: option.splits bool.splits)

section \<open>The contract\<close>

locale graph_search =
  fixes children :: "'n \<Rightarrow> 'n list"
    and goal :: "'n \<Rightarrow> bool"
    and search :: "nat \<Rightarrow> 'n \<Rightarrow> bool option"
  assumes no_fuel: "search 0 x = None"
    and found: "search (Suc n) x = Some True \<Longrightarrow> goal x \<or> (\<exists>c \<in> set (children x). search n c = Some True)"
    and not_found: "search (Suc n) x = Some False \<Longrightarrow> \<not> goal x \<and> (\<forall>c \<in> set (children x). search n c = Some False)"
    and returns: "\<forall>c \<in> set (children x). search n c \<noteq> None \<Longrightarrow> search (Suc n) x \<noteq> None"
begin

abbreviation edge :: "'n \<Rightarrow> 'n \<Rightarrow> bool" where
  "edge x y \<equiv> y \<in> set (children x)"

lemma search_True: "search n x = Some True \<Longrightarrow> \<exists>y. edge\<^sup>*\<^sup>* x y \<and> goal y"
proof (induction n arbitrary: x)
  case (Suc n)
  from found [OF Suc.prems] show ?case
  proof
    assume "\<exists>c \<in> set (children x). search n c = Some True"
    then obtain c y where "edge x c" "edge\<^sup>*\<^sup>* c y" "goal y" using Suc.IH by blast
    then show ?thesis by (meson converse_rtranclp_into_rtranclp)
  qed blast
qed (simp add: no_fuel)

lemma search_False: "search n x = Some False \<Longrightarrow> edge\<^sup>*\<^sup>* x y \<Longrightarrow> \<not> goal y"
proof (induction n arbitrary: x)
  case (Suc n)
  from Suc.prems(2) show ?case
  proof (cases rule: converse_rtranclpE)
    case base
    then show ?thesis using not_found [OF Suc.prems(1)] by simp
  next
    case (step z)
    then show ?thesis using not_found [OF Suc.prems(1)] Suc.IH by blast
  qed
qed (simp add: no_fuel)

text \<open>Whatever is returned is the truth about reachable nodes.\<close>

lemma search_sound: "search n x = Some b \<Longrightarrow> b \<longleftrightarrow> (\<exists>y. edge\<^sup>*\<^sup>* x y \<and> goal y)"
  using search_True [of n x] search_False [of n x] by (cases b) auto

text \<open>A rank that falls along every edge bounds the fuel.\<close>

lemma search_returns:
  assumes "\<And>x c. edge x c \<Longrightarrow> rank c < rank x" and "rank x < n"
  shows "search n x \<noteq> None"
  using assms(2)
proof (induction n arbitrary: x)
  case (Suc n)
  then have "\<forall>c \<in> set (children x). search n c \<noteq> None" using assms(1) by fastforce
  then show ?case by (rule returns)
qed simp

lemma search_correct:
  assumes "\<And>x c. edge x c \<Longrightarrow> rank c < rank x" and "rank x < n"
  shows "search n x = Some (\<exists>y. edge\<^sup>*\<^sup>* x y \<and> goal y)"
  using search_returns [of rank, OF assms] search_sound by fastforce

text \<open>A node on a cycle with nothing to find on it is searched for ever.\<close>

lemma search_diverges:
  assumes "\<And>y. y \<in> S \<Longrightarrow> \<not> goal y \<and> set (children y) \<subseteq> S \<and> children y \<noteq> []" and "x \<in> S"
  shows "search n x = None"
  using assms(2)
proof (induction n arbitrary: x)
  case (Suc n)
  then obtain c where c: "c \<in> set (children x)" "search n c = None"
    using assms(1) by (metis list.set_sel(1) subsetD)
  show ?case
  proof (cases "search (Suc n) x")
    case (Some b)
    then have "b \<Longrightarrow> \<exists>c \<in> set (children x). search n c = Some True" using found Suc.prems assms(1) by auto
    moreover have "\<forall>c \<in> set (children x). search n c = None" using Suc assms(1) by blast
    ultimately show ?thesis using not_found [of n x] Some c by (cases b) auto
  qed
qed (rule no_fuel)

end

section \<open>Ranks of a graph without cycles\<close>

definition descendants :: "('r \<Rightarrow> 'r \<Rightarrow> bool) \<Rightarrow> 'r \<Rightarrow> 'r set" where
  "descendants R r = {x. R\<^sup>+\<^sup>+ r x}"

lemma descendants_less:
  assumes "\<And>x :: 'r::finite. \<not> R\<^sup>+\<^sup>+ x x" and "R r g"
  shows "card (descendants R g) < card (descendants R r)"
proof (rule psubset_card_mono)
  have "descendants R g \<subseteq> descendants R r" using assms(2) by (auto simp: descendants_def intro: tranclp_into_tranclp2)
  moreover have "g \<in> descendants R r" "g \<notin> descendants R g" using assms by (auto simp: descendants_def)
  ultimately show "descendants R g \<subset> descendants R r" by blast
qed simp

end
