(* ===== verification/Auth_Membership.thy ===== *)
theory Auth_Membership
  imports Auth_Roles Graph_Search
begin

text \<open>
  Memberships of roles in roles: \<open>src/server/auth/role_membership.go\<close>. \<open>IsRoleAMember\<close> calls itself on the groups
  of a member; the fuel bounds the depth of the calls. The order of the lists is the order in which the
  maps are visited.
\<close>

section \<open>Operations\<close>

text \<open>What calling a function of this component comes to.\<close>

datatype 'a outcome = Diverges | Panics | Done 'a

definition groups_of :: "Database \<Rightarrow> RoleID \<Rightarrow> (RoleID, RoleMembershipValue) gomap" where
  "groups_of db member = (case gm_get (roleMembership db) member of Some groupMap \<Rightarrow> groupMap | None \<Rightarrow> [])"

definition membership_before :: "RoleMembershipValue \<Rightarrow> RoleMembershipValue \<Rightarrow> bool" where
  "membership_before a b \<longleftrightarrow>
     (if mv_Group a \<noteq> mv_Group b then mv_Group a < mv_Group b else mv_Member a < mv_Member b)"

fun insert_membership :: "RoleMembershipValue \<Rightarrow> RoleMembershipValue list \<Rightarrow> RoleMembershipValue list" where
  "insert_membership v [] = [v]"
| "insert_membership v (w # ws) = (if membership_before w v then w # insert_membership v ws else v # w # ws)"

text \<open>\<open>AllRoleMemberships\<close>: all values, sorted by group and then by member.\<close>

definition AllRoleMemberships :: "Database \<Rightarrow> RoleMembershipValue list" where
  "AllRoleMemberships db = foldr insert_membership (concat (map (map snd \<circ> snd) (roleMembership db))) []"

fun member_loop :: "(RoleID \<Rightarrow> (RoleID \<times> bool \<times> bool) option) \<Rightarrow> RoleID \<Rightarrow> bool \<Rightarrow> RoleMembershipValue list
    \<Rightarrow> (RoleID \<times> bool \<times> bool) option option" where
  "member_loop rec grp inherits [] = Some None"
| "member_loop rec grp inherits (v # vs) =
     (if mv_Group v = grp then Some (Some (grp, inherits, WithAdminOption v))
      else (case rec (mv_Group v) of
        None \<Rightarrow> None
      | Some (groupID, _, hasWithAdminOption) \<Rightarrow>
          if RoleID_IsValid groupID then Some (Some (groupID, inherits, hasWithAdminOption))
          else member_loop rec grp inherits vs))"

primrec IsRoleAMember :: "nat \<Rightarrow> Database \<Rightarrow> RoleID \<Rightarrow> RoleID \<Rightarrow> (RoleID \<times> bool \<times> bool) option" where
  "IsRoleAMember 0 db member grp = None"
| "IsRoleAMember (Suc n) db member grp =
     (if member = grp then Some (grp, True, role_IsSuperUser (role_by_id db member))
      else (case member_loop (\<lambda>g. IsRoleAMember n db g grp) grp (InheritPrivileges (role_by_id db member))
          (map snd (groups_of db member)) of
        None \<Rightarrow> None
      | Some (Some r) \<Rightarrow> Some r
      | Some None \<Rightarrow>
          if role_IsSuperUser (role_by_id db member) then Some (grp, True, True) else Some (0, False, False)))"

definition set_membership :: "Database \<Rightarrow> RoleID \<Rightarrow> RoleID \<Rightarrow> RoleMembershipValue \<Rightarrow> Database" where
  "set_membership db member grp v =
     db\<lparr>roleMembership := gm_set member (gm_set grp v (groups_of db member)) (roleMembership db)\<rparr>"

definition AddMemberToGroup ::
  "nat \<Rightarrow> Database \<Rightarrow> RoleID \<Rightarrow> RoleID \<Rightarrow> bool \<Rightarrow> RoleID \<Rightarrow> Database outcome" where
  "AddMemberToGroup n db member grp withAdminOption grantedBy =
     (case IsRoleAMember n db grp member of
        None \<Rightarrow> Diverges
      | Some (groupID, _, _) \<Rightarrow>
          if (RoleID_IsValid groupID \<or> member = grp) \<and> \<not> role_IsSuperUser (role_by_id db grp) then Panics
          else Done (set_membership db member grp
            \<lparr>mv_Member = member, mv_Group = grp, WithAdminOption = withAdminOption, mv_GrantedBy = grantedBy\<rparr>))"

text \<open>The argument \<open>inheritsPrivilegesOnly\<close> is not used by the source either.\<close>

definition GetAllGroupsWithMember :: "Database \<Rightarrow> RoleID \<Rightarrow> bool \<Rightarrow> RoleID list" where
  "GetAllGroupsWithMember db member inheritsPrivilegesOnly =
     (case gm_get (rolesByID db) member of
        None \<Rightarrow> []
      | Some memberRole \<Rightarrow> if InheritPrivileges memberRole then map fst (groups_of db member) else [])"

definition zero_membership :: RoleMembershipValue where
  "zero_membership = \<lparr>mv_Member = 0, mv_Group = 0, WithAdminOption = False, mv_GrantedBy = 0\<rparr>"

definition RemoveMemberFromGroup :: "Database \<Rightarrow> RoleID \<Rightarrow> RoleID \<Rightarrow> bool \<Rightarrow> Database" where
  "RemoveMemberFromGroup db member grp adminOptionOnly =
     (case gm_get (roleMembership db) member of
        None \<Rightarrow> db
      | Some groupMap \<Rightarrow>
          let groupMap' =
            (if adminOptionOnly
             then let v = (case gm_get groupMap grp of Some v \<Rightarrow> v | None \<Rightarrow> zero_membership)
               in gm_set grp (v\<lparr>WithAdminOption := False\<rparr>) groupMap
             else gm_del grp groupMap)
          in db\<lparr>roleMembership :=
               (if length groupMap' = 0 then gm_del member (roleMembership db)
                else gm_set member groupMap' (roleMembership db))\<rparr>)"

section \<open>The graph of memberships\<close>

text \<open>The groups that \<open>IsRoleAMember\<close> follows.\<close>

definition member_groups :: "Database \<Rightarrow> RoleID \<Rightarrow> RoleID list" where
  "member_groups db member = map (mv_Group \<circ> snd) (groups_of db member)"

abbreviation member_edge :: "Database \<Rightarrow> RoleID \<Rightarrow> RoleID \<Rightarrow> bool" where
  "member_edge db m g \<equiv> g \<in> set (member_groups db m)"

definition no_cycles :: "Database \<Rightarrow> bool" where
  "no_cycles db \<longleftrightarrow> (\<forall>r. \<not> (member_edge db)\<^sup>+\<^sup>+ r r)"

text \<open>Every entry stands under its own member and group, and no member has an empty map.\<close>

definition membership_ok :: "Database \<Rightarrow> bool" where
  "membership_ok db \<longleftrightarrow> gm_wf (roleMembership db) \<and>
     (\<forall>(m, groupMap) \<in> set (roleMembership db). gm_wf groupMap \<and> groupMap \<noteq> [] \<and>
       (\<forall>(g, v) \<in> set groupMap. mv_Member v = m \<and> mv_Group v = g))"

lemma membership_ok_groups:
  assumes "membership_ok db"
  shows "gm_wf (groups_of db m)" "(g, v) \<in> set (groups_of db m) \<Longrightarrow> mv_Member v = m \<and> mv_Group v = g"
proof -
  have "gm_wf groupMap \<and> (\<forall>(g, v) \<in> set groupMap. mv_Member v = m \<and> mv_Group v = g)"
    if "gm_get (roleMembership db) m = Some groupMap" for groupMap
    using assms gm_get_SomeD [OF that] by (auto simp: membership_ok_def)
  then show "gm_wf (groups_of db m)" "(g, v) \<in> set (groups_of db m) \<Longrightarrow> mv_Member v = m \<and> mv_Group v = g"
    by (cases "gm_get (roleMembership db) m"; fastforce simp: groups_of_def)+
qed

lemma member_groups_keys: "membership_ok db \<Longrightarrow> member_groups db m = map fst (groups_of db m)"
  using membership_ok_groups(2) [of db] by (auto simp: member_groups_def)

section \<open>What IsRoleAMember finds\<close>

lemma member_loop_group:
  "\<forall>x r. rec x = Some r \<longrightarrow> fst r \<in> {0, grp} \<Longrightarrow> member_loop rec grp inh vs = Some (Some r) \<Longrightarrow> fst r = grp"
  by (induction vs) (fastforce simp: RoleID_IsValid_def split: if_splits option.splits)+

lemma IsRoleAMember_group: "IsRoleAMember n db m g = Some r \<Longrightarrow> fst r \<in> {0, g}"
proof (induction n arbitrary: m r)
  case (Suc n)
  then show ?case
    using member_loop_group [of "\<lambda>x. IsRoleAMember n db x g" g]
    by (auto split: if_splits option.splits)
qed simp

lemma member_loop_cases:
  assumes "\<forall>x r. rec x = Some r \<longrightarrow> fst r \<in> {0, grp}" and "grp \<noteq> 0"
  shows "member_loop rec grp inh vs = Some (Some r) \<Longrightarrow>
      \<exists>v \<in> set vs. mv_Group v = grp \<or> map_option fst (rec (mv_Group v)) = Some grp"
    and "member_loop rec grp inh vs = Some None \<Longrightarrow>
      \<forall>v \<in> set vs. mv_Group v \<noteq> grp \<and> map_option fst (rec (mv_Group v)) = Some 0"
    and "\<forall>v \<in> set vs. mv_Group v = grp \<or> rec (mv_Group v) \<noteq> None \<Longrightarrow> member_loop rec grp inh vs \<noteq> None"
  using assms
  by (induction vs) (fastforce simp: RoleID_IsValid_def split: if_splits option.splits)+

text \<open>The search behind \<open>IsRoleAMember\<close>: does it return the group?\<close>

definition member_search :: "Database \<Rightarrow> RoleID \<Rightarrow> nat \<Rightarrow> RoleID \<Rightarrow> bool option" where
  "member_search db g n m = map_option (\<lambda>(gid, _, _). gid = g) (IsRoleAMember n db m g)"

definition member_goal :: "Database \<Rightarrow> RoleID \<Rightarrow> RoleID \<Rightarrow> bool" where
  "member_goal db g m \<longleftrightarrow> m = g \<or> IsSuperUser db m \<or> member_edge db m g"

lemma member_search_graph:
  assumes "g \<noteq> 0"
  shows "graph_search (member_groups db) (member_goal db g) (member_search db g)"
proof
  fix n x
  let ?rec = "\<lambda>y. IsRoleAMember n db y g" and ?vs = "map snd (groups_of db x)"
  have rec_group: "\<forall>y r. ?rec y = Some r \<longrightarrow> fst r \<in> {0, g}" using IsRoleAMember_group by blast
  note loop = member_loop_cases [of ?rec g, OF rec_group assms]
  have children: "set (member_groups db x) = mv_Group ` set ?vs" by (force simp: member_groups_def)
  have step: "member_search db g (Suc n) x =
    (if x = g then Some True else
       (case member_loop ?rec g (InheritPrivileges (role_by_id db x)) ?vs of
          None \<Rightarrow> None | Some (Some r) \<Rightarrow> Some (fst r = g) | Some None \<Rightarrow> Some (IsSuperUser db x)))"
    using assms by (auto simp: member_search_def IsSuperUser_def split: option.splits)
  have rec: "member_search db g n y = map_option (\<lambda>r. r = g) (map_option fst (?rec y))" for y
    by (cases "?rec y") (auto simp: member_search_def)
  show "member_search db g 0 x = None" by (simp add: member_search_def)
  show "member_search db g (Suc n) x = Some True \<Longrightarrow>
      member_goal db g x \<or> (\<exists>c \<in> set (member_groups db x). member_search db g n c = Some True)"
    using loop(1) by (fastforce simp: step rec member_goal_def children split: if_splits option.splits)
  show "member_search db g (Suc n) x = Some False \<Longrightarrow>
      \<not> member_goal db g x \<and> (\<forall>c \<in> set (member_groups db x). member_search db g n c = Some False)"
    using loop(2) member_loop_group [of ?rec g, OF rec_group] assms
    by (fastforce simp: step rec member_goal_def children split: if_splits option.splits)
  show "\<forall>c \<in> set (member_groups db x). member_search db g n c \<noteq> None \<Longrightarrow> member_search db g (Suc n) x \<noteq> None"
    using loop(3) [where vs = ?vs and inh = "InheritPrivileges (role_by_id db x)"] by (auto simp: step rec children split: option.splits)
qed

text \<open>The roles that a role is a member of, directly or through others.\<close>

definition member_of :: "Database \<Rightarrow> RoleID \<Rightarrow> RoleID \<Rightarrow> bool" where
  "member_of db m g \<longleftrightarrow> (\<exists>x. (member_edge db)\<^sup>*\<^sup>* m x \<and> (x = g \<or> IsSuperUser db x))"

lemma member_goal_reachable:
  "(\<exists>x. (member_edge db)\<^sup>*\<^sup>* m x \<and> member_goal db g x) \<longleftrightarrow> member_of db m g"
  by (auto simp: member_goal_def member_of_def intro: rtranclp.rtrancl_into_rtrancl)

lemma member_search_correct:
  assumes "g \<noteq> 0" "no_cycles db" "card (descendants (member_edge db) m) < n"
  shows "member_search db g n m = Some (member_of db m g)"
  using graph_search.search_correct [OF member_search_graph [OF assms(1)],
      of db "\<lambda>r. card (descendants (member_edge db) r)" m n] assms(2,3) descendants_less [of "member_edge db"]
  by (simp add: member_goal_reachable no_cycles_def)

lemma IsRoleAMember_correct:
  assumes "g \<noteq> 0" "no_cycles db" "card (descendants (member_edge db) m) < n"
  shows "\<exists>inh adm. IsRoleAMember n db m g = Some (if member_of db m g then g else 0, inh, adm)"
  using member_search_correct [OF assms] IsRoleAMember_group [of n db m g]
  by (auto simp: member_search_def)

section \<open>How the operations change the graph\<close>

lemma membership_ok_get:
  "membership_ok db \<longleftrightarrow> gm_wf (roleMembership db) \<and>
     (\<forall>m groupMap. gm_get (roleMembership db) m = Some groupMap \<longrightarrow> gm_wf groupMap \<and> groupMap \<noteq> [] \<and>
       (\<forall>g v. gm_get groupMap g = Some v \<longrightarrow> mv_Member v = m \<and> mv_Group v = g))"
proof (cases "gm_wf (roleMembership db)")
  case True
  show ?thesis unfolding membership_ok_def gm_ball [OF True] by (simp add: gm_ball cong: conj_cong)
qed (simp add: membership_ok_def)

lemma member_edge_get: "membership_ok db \<Longrightarrow> member_edge db a b \<longleftrightarrow> gm_get (groups_of db a) b \<noteq> None"
  by (simp add: member_groups_keys gm_get_keys)

lemma groups_of_set_membership:
  "groups_of (set_membership db m g v) a = (if a = m then gm_set g v (groups_of db m) else groups_of db a)"
  by (simp add: groups_of_def set_membership_def)

lemma membership_ok_set_membership:
  assumes "membership_ok db" "mv_Group v = g" "mv_Member v = m"
  shows "membership_ok (set_membership db m g v)"
  using assms membership_ok_groups [OF assms(1)] unfolding membership_ok_get
  by (auto simp: set_membership_def groups_of_def split: option.splits if_splits)

lemma member_edge_set_membership:
  assumes "membership_ok db" "mv_Group v = g" "mv_Member v = m"
  shows "member_edge (set_membership db m g v) a b \<longleftrightarrow> member_edge db a b \<or> (a = m \<and> b = g)"
  using member_edge_get [OF assms(1)] member_edge_get [OF membership_ok_set_membership [OF assms]]
  by (simp add: groups_of_set_membership)

lemma rolesByID_set_membership [simp]: "rolesByID (set_membership db m g v) = rolesByID db"
  by (simp add: set_membership_def)

text \<open>An edge from the member to the group closes a cycle only if the group already leads to the member.\<close>

lemma no_cycles_extend:
  assumes "\<And>r. \<not> R\<^sup>+\<^sup>+ r r" and "\<not> R\<^sup>*\<^sup>* g m" and "\<And>a b. S a b \<longleftrightarrow> R a b \<or> (a = m \<and> b = g)"
  shows "\<not> S\<^sup>+\<^sup>+ r r"
proof -
  have S: "S = (\<lambda>a b. R a b \<or> (a = m \<and> b = g))" using assms(3) by auto
  have "S\<^sup>+\<^sup>+ a b \<Longrightarrow> R\<^sup>+\<^sup>+ a b \<or> (R\<^sup>*\<^sup>* a m \<and> R\<^sup>*\<^sup>* g b)" for a b
  proof (induction rule: tranclp_induct)
    case (base y)
    then show ?case using assms(3) by auto
  next
    case (step y z)
    then consider "R y z" | "y = m" "z = g" using assms(3) by blast
    then show ?case
    proof cases
      case 1
      with step.IH show ?thesis by (meson rtranclp.rtrancl_into_rtrancl tranclp.trancl_into_trancl)
    next
      case 2
      with step.IH show ?thesis using assms(2) by (auto dest: tranclp_into_rtranclp)
    qed
  qed
  then show ?thesis using assms(1,2) by (meson rtranclp_trans)
qed

lemma AddMemberToGroup_keeps:
  assumes "membership_ok db" "no_cycles db" "member \<noteq> 0" "\<not> IsSuperUser db grp"
    and "AddMemberToGroup n db member grp adm by' = Done db'"
  shows "membership_ok db'" "no_cycles db'" "rolesByID db' = rolesByID db"
    "member_edge db' a b \<longleftrightarrow> member_edge db a b \<or> (a = member \<and> b = grp)"
proof -
  let ?v = "\<lparr>mv_Member = member, mv_Group = grp, WithAdminOption = adm, mv_GrantedBy = by'\<rparr>"
  obtain gid inh ad where r: "IsRoleAMember n db grp member = Some (gid, inh, ad)" "\<not> RoleID_IsValid gid" "member \<noteq> grp"
    and db': "db' = set_membership db member grp ?v"
    using assms(4,5) by (auto simp: AddMemberToGroup_def IsSuperUser_def split: option.splits if_splits)
  have "member_search db member n grp = Some False"
    using r assms(3) by (auto simp: member_search_def RoleID_IsValid_def)
  then have "\<not> member_of db grp member"
    using graph_search.search_sound [OF member_search_graph [OF assms(3)], of db n grp False]
    by (simp add: member_goal_reachable)
  then have no: "\<not> (member_edge db)\<^sup>*\<^sup>* grp member" by (auto simp: member_of_def)
  show "membership_ok db'" unfolding db' using assms(1) by (intro membership_ok_set_membership) simp_all
  show edge: "member_edge db' a b \<longleftrightarrow> member_edge db a b \<or> (a = member \<and> b = grp)" for a b
    unfolding db' using assms(1) by (intro member_edge_set_membership) simp_all
  show "no_cycles db'"
    using no_cycles_extend [of "member_edge db" grp member "member_edge db'"] assms(2) no edge
    by (simp add: no_cycles_def)
  show "rolesByID db' = rolesByID db" by (simp add: db')
qed


end
