(* ===== verification/Auth_Privileges.thy ===== *)
theory Auth_Privileges
  imports Auth_Membership
begin

text \<open>
  The privilege tables: \<open>database_privileges.go\<close>, \<open>schema_privileges.go\<close>, \<open>table_privileges.go\<close>,
  \<open>sequence_privileges.go\<close> and \<open>routine_privileges.go\<close> of \<open>src/server/auth\<close>. The five files have the same code over
  different keys; it is written once here over the operations on a key (its role, the key of another
  role, and the key of all objects of the schema that the last three files search as well) and
  instantiated per file.
\<close>

section \<open>The shared code\<close>

record 'k key_ops =
  key_role :: "'k \<Rightarrow> RoleID"
  with_role :: "'k \<Rightarrow> RoleID \<Rightarrow> 'k"
  whole_schema :: "'k \<Rightarrow> 'k option"

definition add_privilege :: "'k \<Rightarrow> GrantedPrivilege \<Rightarrow> bool \<Rightarrow> 'k privileges \<Rightarrow> 'k privileges" where
  "add_privilege key privilege withGrantOption data =
     (let pvalue = (case gm_get data key of Some v \<Rightarrow> v | None \<Rightarrow> \<lparr>pv_Key = key, Privileges = []\<rparr>);
          privilegeMap = (case gm_get (Privileges pvalue) (gp_Privilege privilege) of Some m \<Rightarrow> m | None \<Rightarrow> [])
      in gm_set key (pvalue\<lparr>Privileges :=
           gm_set (gp_Privilege privilege) (gm_set privilege withGrantOption privilegeMap) (Privileges pvalue)\<rparr>) data)"

text \<open>The entry of the key itself: some grant of the privilege, or one with the grant option.\<close>

definition granted :: "'k privileges \<Rightarrow> 'k \<Rightarrow> Privilege \<Rightarrow> (GrantedPrivilege, bool) gomap" where
  "granted data key privilege = (case gm_get data key of
     None \<Rightarrow> []
   | Some v \<Rightarrow> (case gm_get (Privileges v) privilege of Some m \<Rightarrow> m | None \<Rightarrow> []))"

definition own_privilege :: "'k privileges \<Rightarrow> 'k \<Rightarrow> Privilege \<Rightarrow> bool" where
  "own_privilege data key privilege \<longleftrightarrow> length (granted data key privilege) > 0"

definition own_grant_option :: "'k privileges \<Rightarrow> 'k \<Rightarrow> Privilege \<Rightarrow> bool" where
  "own_grant_option data key privilege \<longleftrightarrow> (\<exists>(_, withGrantOption) \<in> set (granted data key privilege). withGrantOption)"

primrec has_privilege :: "nat \<Rightarrow> 'k key_ops \<Rightarrow> Database \<Rightarrow> 'k privileges \<Rightarrow> Privilege \<Rightarrow> 'k \<Rightarrow> bool option" where
  "has_privilege 0 ops db data privilege key = None"
| "has_privilege (Suc n) ops db data privilege key =
     (if IsSuperUser db (key_role ops key) then Some True
      else (case (case whole_schema ops key of
            None \<Rightarrow> Some False
          | Some key' \<Rightarrow> has_privilege n ops db data privilege key') of
        None \<Rightarrow> None
      | Some True \<Rightarrow> Some True
      | Some False \<Rightarrow>
          if own_privilege data key privilege then Some True
          else any_call (\<lambda>g. has_privilege n ops db data privilege (with_role ops key g))
            (GetAllGroupsWithMember db (key_role ops key) True)))"

text \<open>The loops that return the first valid role.\<close>

fun first_valid :: "('a \<Rightarrow> RoleID option) \<Rightarrow> 'a list \<Rightarrow> RoleID option" where
  "first_valid f [] = Some 0"
| "first_valid f (x # xs) = (case f x of
     None \<Rightarrow> None
   | Some returnedID \<Rightarrow> if RoleID_IsValid returnedID then Some returnedID else first_valid f xs)"

primrec has_grant_option :: "nat \<Rightarrow> 'k key_ops \<Rightarrow> Database \<Rightarrow> 'k privileges \<Rightarrow> Privilege \<Rightarrow> 'k \<Rightarrow> RoleID option" where
  "has_grant_option 0 ops db data privilege key = None"
| "has_grant_option (Suc n) ops db data privilege key =
     (if IsSuperUser db (key_role ops key) then Some (key_role ops key)
      else (case (case whole_schema ops key of
            None \<Rightarrow> Some 0
          | Some key' \<Rightarrow> has_grant_option n ops db data privilege key') of
        None \<Rightarrow> None
      | Some returnedID \<Rightarrow>
          if RoleID_IsValid returnedID then Some returnedID
          else if own_grant_option data key privilege then Some (key_role ops key)
          else first_valid (\<lambda>g. has_grant_option n ops db data privilege (with_role ops key g))
            (GetAllGroupsWithMember db (key_role ops key) True)))"

definition remove_privilege :: "'k \<Rightarrow> GrantedPrivilege \<Rightarrow> bool \<Rightarrow> 'k privileges \<Rightarrow> 'k privileges" where
  "remove_privilege key privilege grantOptionOnly data = (case gm_get data key of
     None \<Rightarrow> data
   | Some pvalue \<Rightarrow>
       let privs = (case gm_get (Privileges pvalue) (gp_Privilege privilege) of
           None \<Rightarrow> Privileges pvalue
         | Some privilegeMap \<Rightarrow>
             if grantOptionOnly then
               (if RoleID_IsValid (GrantedBy privilege)
                then (if gm_get privilegeMap privilege \<noteq> None
                  then gm_set (gp_Privilege privilege) (gm_set privilege False privilegeMap) (Privileges pvalue)
                  else Privileges pvalue)
                else gm_set (gp_Privilege privilege) (map (\<lambda>(k, _). (k, False)) privilegeMap) (Privileges pvalue))
             else
               (let privilegeMap' = (if RoleID_IsValid (GrantedBy privilege) then gm_del privilege privilegeMap else [])
                in if length privilegeMap' = 0 then gm_del (gp_Privilege privilege) (Privileges pvalue)
                   else gm_set (gp_Privilege privilege) privilegeMap' (Privileges pvalue)))
       in if length privs = 0 then gm_del key data else gm_set key (pvalue\<lparr>Privileges := privs\<rparr>) data)"

section \<open>The database privileges\<close>

definition database_key_ops :: "DatabasePrivilegeKey key_ops" where
  "database_key_ops = \<lparr>key_role = dk_Role, with_role = (\<lambda>key g. key\<lparr>dk_Role := g\<rparr>),
     whole_schema = (\<lambda>key. None)\<rparr>"

definition AddDatabasePrivilege :: "Database \<Rightarrow> DatabasePrivilegeKey \<Rightarrow> GrantedPrivilege \<Rightarrow> bool \<Rightarrow> Database" where
  "AddDatabasePrivilege db key privilege withGrantOption =
     db\<lparr>databasePrivileges := add_privilege key privilege withGrantOption (databasePrivileges db)\<rparr>"

definition HasDatabasePrivilege :: "nat \<Rightarrow> Database \<Rightarrow> DatabasePrivilegeKey \<Rightarrow> Privilege \<Rightarrow> bool option" where
  "HasDatabasePrivilege n db key privilege = has_privilege n database_key_ops db (databasePrivileges db) privilege key"

definition HasDatabasePrivilegeGrantOption :: "nat \<Rightarrow> Database \<Rightarrow> DatabasePrivilegeKey \<Rightarrow> Privilege \<Rightarrow> RoleID option" where
  "HasDatabasePrivilegeGrantOption n db key privilege = has_grant_option n database_key_ops db (databasePrivileges db) privilege key"

definition RemoveDatabasePrivilege :: "Database \<Rightarrow> DatabasePrivilegeKey \<Rightarrow> GrantedPrivilege \<Rightarrow> bool \<Rightarrow> Database" where
  "RemoveDatabasePrivilege db key privilege grantOptionOnly =
     db\<lparr>databasePrivileges := remove_privilege key privilege grantOptionOnly (databasePrivileges db)\<rparr>"

section \<open>The schema privileges\<close>

definition schema_key_ops :: "SchemaPrivilegeKey key_ops" where
  "schema_key_ops = \<lparr>key_role = sk_Role, with_role = (\<lambda>key g. key\<lparr>sk_Role := g\<rparr>),
     whole_schema = (\<lambda>key. None)\<rparr>"

definition AddSchemaPrivilege :: "Database \<Rightarrow> SchemaPrivilegeKey \<Rightarrow> GrantedPrivilege \<Rightarrow> bool \<Rightarrow> Database" where
  "AddSchemaPrivilege db key privilege withGrantOption =
     db\<lparr>schemaPrivileges := add_privilege key privilege withGrantOption (schemaPrivileges db)\<rparr>"

definition HasSchemaPrivilege :: "nat \<Rightarrow> Database \<Rightarrow> SchemaPrivilegeKey \<Rightarrow> Privilege \<Rightarrow> bool option" where
  "HasSchemaPrivilege n db key privilege = has_privilege n schema_key_ops db (schemaPrivileges db) privilege key"

definition HasSchemaPrivilegeGrantOption :: "nat \<Rightarrow> Database \<Rightarrow> SchemaPrivilegeKey \<Rightarrow> Privilege \<Rightarrow> RoleID option" where
  "HasSchemaPrivilegeGrantOption n db key privilege = has_grant_option n schema_key_ops db (schemaPrivileges db) privilege key"

definition RemoveSchemaPrivilege :: "Database \<Rightarrow> SchemaPrivilegeKey \<Rightarrow> GrantedPrivilege \<Rightarrow> bool \<Rightarrow> Database" where
  "RemoveSchemaPrivilege db key privilege grantOptionOnly =
     db\<lparr>schemaPrivileges := remove_privilege key privilege grantOptionOnly (schemaPrivileges db)\<rparr>"

section \<open>The table privileges\<close>

definition table_key_ops :: "TablePrivilegeKey key_ops" where
  "table_key_ops = \<lparr>key_role = tk_Role, with_role = (\<lambda>key g. key\<lparr>tk_Role := g\<rparr>),
     whole_schema = (\<lambda>key. if length (tk_Name key) > 0
       then Some \<lparr>tk_Role = tk_Role key, tk_Name = [], tk_Schema = tk_Schema key\<rparr> else None)\<rparr>"

definition AddTablePrivilege :: "Database \<Rightarrow> TablePrivilegeKey \<Rightarrow> GrantedPrivilege \<Rightarrow> bool \<Rightarrow> Database" where
  "AddTablePrivilege db key privilege withGrantOption =
     db\<lparr>tablePrivileges := add_privilege key privilege withGrantOption (tablePrivileges db)\<rparr>"

definition HasTablePrivilege :: "nat \<Rightarrow> Database \<Rightarrow> TablePrivilegeKey \<Rightarrow> Privilege \<Rightarrow> bool option" where
  "HasTablePrivilege n db key privilege = has_privilege n table_key_ops db (tablePrivileges db) privilege key"

definition HasTablePrivilegeGrantOption :: "nat \<Rightarrow> Database \<Rightarrow> TablePrivilegeKey \<Rightarrow> Privilege \<Rightarrow> RoleID option" where
  "HasTablePrivilegeGrantOption n db key privilege = has_grant_option n table_key_ops db (tablePrivileges db) privilege key"

definition RemoveTablePrivilege :: "Database \<Rightarrow> TablePrivilegeKey \<Rightarrow> GrantedPrivilege \<Rightarrow> bool \<Rightarrow> Database" where
  "RemoveTablePrivilege db key privilege grantOptionOnly =
     db\<lparr>tablePrivileges := remove_privilege key privilege grantOptionOnly (tablePrivileges db)\<rparr>"

section \<open>The sequence privileges\<close>

definition sequence_key_ops :: "SequencePrivilegeKey key_ops" where
  "sequence_key_ops = \<lparr>key_role = qk_Role, with_role = (\<lambda>key g. key\<lparr>qk_Role := g\<rparr>),
     whole_schema = (\<lambda>key. if length (qk_Name key) > 0
       then Some \<lparr>qk_Role = qk_Role key, qk_Schema = qk_Schema key, qk_Name = []\<rparr> else None)\<rparr>"

definition AddSequencePrivilege :: "Database \<Rightarrow> SequencePrivilegeKey \<Rightarrow> GrantedPrivilege \<Rightarrow> bool \<Rightarrow> Database" where
  "AddSequencePrivilege db key privilege withGrantOption =
     db\<lparr>sequencePrivileges := add_privilege key privilege withGrantOption (sequencePrivileges db)\<rparr>"

definition HasSequencePrivilege :: "nat \<Rightarrow> Database \<Rightarrow> SequencePrivilegeKey \<Rightarrow> Privilege \<Rightarrow> bool option" where
  "HasSequencePrivilege n db key privilege = has_privilege n sequence_key_ops db (sequencePrivileges db) privilege key"

definition HasSequencePrivilegeGrantOption :: "nat \<Rightarrow> Database \<Rightarrow> SequencePrivilegeKey \<Rightarrow> Privilege \<Rightarrow> RoleID option" where
  "HasSequencePrivilegeGrantOption n db key privilege = has_grant_option n sequence_key_ops db (sequencePrivileges db) privilege key"

definition RemoveSequencePrivilege :: "Database \<Rightarrow> SequencePrivilegeKey \<Rightarrow> GrantedPrivilege \<Rightarrow> bool \<Rightarrow> Database" where
  "RemoveSequencePrivilege db key privilege grantOptionOnly =
     db\<lparr>sequencePrivileges := remove_privilege key privilege grantOptionOnly (sequencePrivileges db)\<rparr>"

section \<open>The routine privileges\<close>

definition routine_key_ops :: "RoutinePrivilegeKey key_ops" where
  "routine_key_ops = \<lparr>key_role = rk_Role, with_role = (\<lambda>key g. key\<lparr>rk_Role := g\<rparr>),
     whole_schema = (\<lambda>key. if length (rk_Name key) > 0
       then Some \<lparr>rk_Role = rk_Role key, rk_Schema = rk_Schema key, rk_Name = [], rk_ArgTypes = []\<rparr> else None)\<rparr>"

definition AddRoutinePrivilege :: "Database \<Rightarrow> RoutinePrivilegeKey \<Rightarrow> GrantedPrivilege \<Rightarrow> bool \<Rightarrow> Database" where
  "AddRoutinePrivilege db key privilege withGrantOption =
     db\<lparr>routinePrivileges := add_privilege key privilege withGrantOption (routinePrivileges db)\<rparr>"

definition HasRoutinePrivilege :: "nat \<Rightarrow> Database \<Rightarrow> RoutinePrivilegeKey \<Rightarrow> Privilege \<Rightarrow> bool option" where
  "HasRoutinePrivilege n db key privilege = has_privilege n routine_key_ops db (routinePrivileges db) privilege key"

definition HasRoutinePrivilegeGrantOption :: "nat \<Rightarrow> Database \<Rightarrow> RoutinePrivilegeKey \<Rightarrow> Privilege \<Rightarrow> RoleID option" where
  "HasRoutinePrivilegeGrantOption n db key privilege = has_grant_option n routine_key_ops db (routinePrivileges db) privilege key"

definition RemoveRoutinePrivilege :: "Database \<Rightarrow> RoutinePrivilegeKey \<Rightarrow> GrantedPrivilege \<Rightarrow> bool \<Rightarrow> Database" where
  "RemoveRoutinePrivilege db key privilege grantOptionOnly =
     db\<lparr>routinePrivileges := remove_privilege key privilege grantOptionOnly (routinePrivileges db)\<rparr>"

end
