(* ===== verification/Auth_Serial.thy ===== *)
theory Auth_Serial
  imports Auth_Privileges Byte_Reader
begin

text \<open>
  The stored form of the authorization database: the \<open>serialize\<close> and \<open>deserialize\<close> methods of \<open>role.go\<close>,
  \<open>role_membership.go\<close> and the privilege tables, and \<open>serialization.go\<close>, all in \<open>src/server/auth\<close>. Maps are written
  in the order in which they are visited and read back by assigning key after key. A panic is \<open>None\<close>.
\<close>

section \<open>Maps\<close>

text \<open>Assigning the read entries one by one.\<close>

definition gm_of_list :: "('k \<times> 'v) list \<Rightarrow> ('k, 'v) gomap" where
  "gm_of_list ps = foldl (\<lambda>m (k, v). gm_set k v m) [] ps"

section \<open>Roles\<close>

definition write_password :: "ScramSha256Password option \<Rightarrow> writer \<Rightarrow> writer" where
  "write_password p writer = (case p of
     Some pw \<Rightarrow>
       let writer = Writer_Bool True writer;
           writer = Writer_Uint32 (Iterations pw) writer;
           writer = Writer_ByteSlice (Salt pw) writer;
           writer = Writer_ByteSlice (StoredKey pw) writer
       in Writer_ByteSlice (ServerKey pw) writer
   | None \<Rightarrow> Writer_Bool False writer)"

definition write_valid_until :: "uint64 option \<Rightarrow> writer \<Rightarrow> writer" where
  "write_valid_until t writer = (case t of
     Some micro \<Rightarrow> Writer_Int64 micro (Writer_Bool True writer)
   | None \<Rightarrow> Writer_Bool False writer)"

definition Role_serialize :: "Role \<Rightarrow> writer \<Rightarrow> writer" where
  "Role_serialize r writer =
     (let writer = Writer_String (role_Name r) writer;
          writer = Writer_Bool (role_IsSuperUser r) writer;
          writer = Writer_Bool (InheritPrivileges r) writer;
          writer = Writer_Bool (CanCreateRoles r) writer;
          writer = Writer_Bool (CanCreateDB r) writer;
          writer = Writer_Bool (CanLogin r) writer;
          writer = Writer_Bool (IsReplicationRole r) writer;
          writer = Writer_Bool (CanBypassRowLevelSecurity r) writer;
          writer = Writer_Int32 (ConnectionLimit r) writer;
          writer = write_password (Password r) writer;
          writer = write_valid_until (ValidUntil r) writer
      in Writer_Uint64 (role_id r) writer)"

definition read_password :: "ScramSha256Password option rd" where
  "read_password r = do {
     (present, r) \<leftarrow> Reader_Bool r;
     if present then do {
       (iter, r) \<leftarrow> Reader_Uint32 r;
       (salt, r) \<leftarrow> Reader_ByteSlice r;
       (stored, r) \<leftarrow> Reader_ByteSlice r;
       (server, r) \<leftarrow> Reader_ByteSlice r;
       Some (Some \<lparr>Iterations = iter, Salt = salt, StoredKey = stored, ServerKey = server\<rparr>, r)
     } else Some (None, r)
   }"

definition read_valid_until :: "uint64 option rd" where
  "read_valid_until r = do {
     (present, r) \<leftarrow> Reader_Bool r;
     if present then do { (micro, r) \<leftarrow> Reader_Int64 r; Some (Some micro, r) } else Some (None, r)
   }"

definition Role_deserialize :: "uint32 \<Rightarrow> Role rd" where
  "Role_deserialize version r =
     (if version = 0 \<or> version = 1 then do {
        (name, r) \<leftarrow> Reader_String r;
        (super, r) \<leftarrow> Reader_Bool r;
        (inh, r) \<leftarrow> Reader_Bool r;
        (createRoles, r) \<leftarrow> Reader_Bool r;
        (createDB, r) \<leftarrow> Reader_Bool r;
        (login, r) \<leftarrow> Reader_Bool r;
        (repl, r) \<leftarrow> Reader_Bool r;
        (bypass, r) \<leftarrow> Reader_Bool r;
        (lim, r) \<leftarrow> Reader_Int32 r;
        (pw, r) \<leftarrow> read_password r;
        (until, r) \<leftarrow> read_valid_until r;
        (i, r) \<leftarrow> Reader_Uint64 r;
        Some (\<lparr>role_Name = name, role_IsSuperUser = super, InheritPrivileges = inh, CanCreateRoles = createRoles,
          CanCreateDB = createDB, CanLogin = login, IsReplicationRole = repl, CanBypassRowLevelSecurity = bypass,
          ConnectionLimit = lim, Password = pw, ValidUntil = until, role_id = i\<rparr>, r)
      } else None)"

section \<open>Memberships\<close>

definition write_membership :: "RoleMembershipValue \<Rightarrow> writer \<Rightarrow> writer" where
  "write_membership v writer =
     Writer_Uint64 (mv_GrantedBy v) (Writer_Bool (WithAdminOption v)
       (Writer_Uint64 (mv_Group v) (Writer_Uint64 (mv_Member v) writer)))"

definition write_groups :: "(RoleID, RoleMembershipValue) gomap \<Rightarrow> writer \<Rightarrow> writer" where
  "write_groups groupMap writer =
     write_each write_membership (map snd groupMap) (Writer_Uint64 (of_nat (length groupMap)) writer)"

definition RoleMembership_serialize :: "membership \<Rightarrow> writer \<Rightarrow> writer" where
  "RoleMembership_serialize data writer =
     write_each write_groups (map snd data) (Writer_Uint64 (of_nat (length data)) writer)"

definition read_membership :: "RoleMembershipValue rd" where
  "read_membership r = do {
     (m, r) \<leftarrow> Reader_Uint64 r;
     (g, r) \<leftarrow> Reader_Uint64 r;
     (adm, r) \<leftarrow> Reader_Bool r;
     (granter, r) \<leftarrow> Reader_Uint64 r;
     Some (\<lparr>mv_Member = m, mv_Group = g, WithAdminOption = adm, mv_GrantedBy = granter\<rparr>, r)
   }"

text \<open>The map of one member; \<open>member\<close> is the one of the last value, or 0 when there is none.\<close>

definition read_groups :: "(RoleID \<times> (RoleID, RoleMembershipValue) gomap) rd" where
  "read_groups r = do {
     (groupCount, r) \<leftarrow> Reader_Uint64 r;
     (vs, r) \<leftarrow> read_n read_membership (unat groupCount) r;
     Some ((if vs = [] then 0 else mv_Member (last vs), gm_of_list (map (\<lambda>v. (mv_Group v, v)) vs)), r)
   }"

definition RoleMembership_deserialize :: "uint32 \<Rightarrow> membership rd" where
  "RoleMembership_deserialize version r =
     (if version = 0 \<or> version = 1 then do {
        (memberCount, r) \<leftarrow> Reader_Uint64 r;
        (ms, r) \<leftarrow> read_n read_groups (unat memberCount) r;
        Some (gm_of_list ms, r)
      } else None)"

section \<open>The privilege tables\<close>

definition write_grant :: "GrantedPrivilege \<times> bool \<Rightarrow> writer \<Rightarrow> writer" where
  "write_grant e writer = Writer_Bool (snd e) (Writer_Uint64 (GrantedBy (fst e)) writer)"

definition write_privilege :: "Privilege \<times> (GrantedPrivilege, bool) gomap \<Rightarrow> writer \<Rightarrow> writer" where
  "write_privilege e writer =
     write_each write_grant (snd e) (Writer_Uint32 (of_nat (length (snd e))) (Writer_String (fst e) writer))"

definition write_value :: "('k \<Rightarrow> writer \<Rightarrow> writer) \<Rightarrow> 'k PrivilegeValue \<Rightarrow> writer \<Rightarrow> writer" where
  "write_value write_key v writer =
     write_each write_privilege (Privileges v) (Writer_Uint64 (of_nat (length (Privileges v))) (write_key (pv_Key v) writer))"

definition write_table :: "('k \<Rightarrow> writer \<Rightarrow> writer) \<Rightarrow> 'k privileges \<Rightarrow> writer \<Rightarrow> writer" where
  "write_table write_key data writer =
     write_each (write_value write_key) (map snd data) (Writer_Uint64 (of_nat (length data)) writer)"

definition read_grant :: "Privilege \<Rightarrow> (GrantedPrivilege \<times> bool) rd" where
  "read_grant privilege r = do {
     (granter, r) \<leftarrow> Reader_Uint64 r;
     (withGrantOption, r) \<leftarrow> Reader_Bool r;
     Some ((\<lparr>gp_Privilege = privilege, GrantedBy = granter\<rparr>, withGrantOption), r)
   }"

definition read_privilege :: "(Privilege \<times> (GrantedPrivilege, bool) gomap) rd" where
  "read_privilege r = do {
     (privilege, r) \<leftarrow> Reader_String r;
     (grantedCount, r) \<leftarrow> Reader_Uint32 r;
     (gs, r) \<leftarrow> read_n (read_grant privilege) (unat grantedCount) r;
     Some ((privilege, gm_of_list gs), r)
   }"

definition read_value :: "'k rd \<Rightarrow> 'k PrivilegeValue rd" where
  "read_value read_key r = do {
     (key, r) \<leftarrow> read_key r;
     (privilegeCount, r) \<leftarrow> Reader_Uint64 r;
     (ps, r) \<leftarrow> read_n read_privilege (unat privilegeCount) r;
     Some (\<lparr>pv_Key = key, Privileges = gm_of_list ps\<rparr>, r)
   }"

definition read_table :: "'k rd \<Rightarrow> 'k privileges rd" where
  "read_table read_key r = do {
     (dataCount, r) \<leftarrow> Reader_Uint64 r;
     (vs, r) \<leftarrow> read_n (read_value read_key) (unat dataCount) r;
     Some (gm_of_list (map (\<lambda>v. (pv_Key v, v)) vs), r)
   }"

definition write_database_key :: "DatabasePrivilegeKey \<Rightarrow> writer \<Rightarrow> writer" where
  "write_database_key key writer =
     Writer_String (dk_Name key) (Writer_Uint64 (dk_Role key) writer)"

definition read_database_key :: "DatabasePrivilegeKey rd" where
  "read_database_key r = do {
     (role, r) \<leftarrow> Reader_Uint64 r;
     (a, r) \<leftarrow> Reader_String r;
     Some (\<lparr>dk_Role = role, dk_Name = a\<rparr>, r)
   }"

definition DatabasePrivileges_serialize :: "DatabasePrivilegeKey privileges \<Rightarrow> writer \<Rightarrow> writer" where
  "DatabasePrivileges_serialize data writer = write_table write_database_key data writer"

definition DatabasePrivileges_deserialize :: "uint32 \<Rightarrow> DatabasePrivilegeKey privileges rd" where
  "DatabasePrivileges_deserialize version r =
     (if version = 0 \<or> version = 1 then read_table read_database_key r else None)"

definition write_schema_key :: "SchemaPrivilegeKey \<Rightarrow> writer \<Rightarrow> writer" where
  "write_schema_key key writer =
     Writer_String (sk_Schema key) (Writer_Uint64 (sk_Role key) writer)"

definition read_schema_key :: "SchemaPrivilegeKey rd" where
  "read_schema_key r = do {
     (role, r) \<leftarrow> Reader_Uint64 r;
     (a, r) \<leftarrow> Reader_String r;
     Some (\<lparr>sk_Role = role, sk_Schema = a\<rparr>, r)
   }"

definition SchemaPrivileges_serialize :: "SchemaPrivilegeKey privileges \<Rightarrow> writer \<Rightarrow> writer" where
  "SchemaPrivileges_serialize data writer = write_table write_schema_key data writer"

definition SchemaPrivileges_deserialize :: "uint32 \<Rightarrow> SchemaPrivilegeKey privileges rd" where
  "SchemaPrivileges_deserialize version r =
     (if version = 0 \<or> version = 1 then read_table read_schema_key r else None)"

definition write_table_key :: "TablePrivilegeKey \<Rightarrow> writer \<Rightarrow> writer" where
  "write_table_key key writer =
     Writer_String (tk_Schema key) (Writer_String (tk_Name key) (Writer_Uint64 (tk_Role key) writer))"

definition read_table_key :: "TablePrivilegeKey rd" where
  "read_table_key r = do {
     (role, r) \<leftarrow> Reader_Uint64 r;
     (a, r) \<leftarrow> Reader_String r;
     (b, r) \<leftarrow> Reader_String r;
     Some (\<lparr>tk_Role = role, tk_Name = a, tk_Schema = b\<rparr>, r)
   }"

definition TablePrivileges_serialize :: "TablePrivilegeKey privileges \<Rightarrow> writer \<Rightarrow> writer" where
  "TablePrivileges_serialize data writer = write_table write_table_key data writer"

definition TablePrivileges_deserialize :: "uint32 \<Rightarrow> TablePrivilegeKey privileges rd" where
  "TablePrivileges_deserialize version r =
     (if version = 0 \<or> version = 1 then read_table read_table_key r else None)"

definition write_sequence_key :: "SequencePrivilegeKey \<Rightarrow> writer \<Rightarrow> writer" where
  "write_sequence_key key writer =
     Writer_String (qk_Name key) (Writer_String (qk_Schema key) (Writer_Uint64 (qk_Role key) writer))"

definition read_sequence_key :: "SequencePrivilegeKey rd" where
  "read_sequence_key r = do {
     (role, r) \<leftarrow> Reader_Uint64 r;
     (a, r) \<leftarrow> Reader_String r;
     (b, r) \<leftarrow> Reader_String r;
     Some (\<lparr>qk_Role = role, qk_Schema = a, qk_Name = b\<rparr>, r)
   }"

definition SequencePrivileges_serialize :: "SequencePrivilegeKey privileges \<Rightarrow> writer \<Rightarrow> writer" where
  "SequencePrivileges_serialize data writer = write_table write_sequence_key data writer"

definition SequencePrivileges_deserialize :: "uint32 \<Rightarrow> SequencePrivilegeKey privileges rd" where
  "SequencePrivileges_deserialize version r =
     (if version = 0 then Some ([], r)
      else if version = 1 then read_table read_sequence_key r else None)"

definition write_routine_key :: "RoutinePrivilegeKey \<Rightarrow> writer \<Rightarrow> writer" where
  "write_routine_key key writer =
     Writer_String (rk_ArgTypes key) (Writer_String (rk_Name key) (Writer_String (rk_Schema key) (Writer_Uint64 (rk_Role key) writer)))"

definition read_routine_key :: "RoutinePrivilegeKey rd" where
  "read_routine_key r = do {
     (role, r) \<leftarrow> Reader_Uint64 r;
     (a, r) \<leftarrow> Reader_String r;
     (b, r) \<leftarrow> Reader_String r;
     (c, r) \<leftarrow> Reader_String r;
     Some (\<lparr>rk_Role = role, rk_Schema = a, rk_Name = b, rk_ArgTypes = c\<rparr>, r)
   }"

definition RoutinePrivileges_serialize :: "RoutinePrivilegeKey privileges \<Rightarrow> writer \<Rightarrow> writer" where
  "RoutinePrivileges_serialize data writer = write_table write_routine_key data writer"

definition RoutinePrivileges_deserialize :: "uint32 \<Rightarrow> RoutinePrivilegeKey privileges rd" where
  "RoutinePrivileges_deserialize version r =
     (if version = 0 then Some ([], r)
      else if version = 1 then read_table read_routine_key r else None)"

section \<open>The database\<close>

definition Database_serialize :: "Database \<Rightarrow> byte list" where
  "Database_serialize db =
     (let writer = NewWriter 16384;
          writer = Writer_Uint32 1 writer;
          writer = Writer_Uint32 (of_nat (length (rolesByID db))) writer;
          writer = write_each Role_serialize (map snd (rolesByID db)) writer;
          writer = DatabasePrivileges_serialize (databasePrivileges db) writer;
          writer = SchemaPrivileges_serialize (schemaPrivileges db) writer;
          writer = TablePrivileges_serialize (tablePrivileges db) writer;
          writer = SequencePrivileges_serialize (sequencePrivileges db) writer;
          writer = RoutinePrivileges_serialize (routinePrivileges db) writer;
          writer = RoleMembership_serialize (roleMembership db) writer
      in Writer_Data writer)"

text \<open>The bodies of \<open>deserializeV0\<close> and \<open>deserializeV1\<close>, which differ in the version they pass on. All of the database is
  overwritten.\<close>

definition read_database :: "uint32 \<Rightarrow> Database rd" where
  "read_database version r = do {
     (roleCount, r) \<leftarrow> Reader_Uint32 r;
     (roles, r) \<leftarrow> read_n (Role_deserialize version) (unat roleCount) r;
     (dp, r) \<leftarrow> DatabasePrivileges_deserialize version r;
     (sp, r) \<leftarrow> SchemaPrivileges_deserialize version r;
     (tp, r) \<leftarrow> TablePrivileges_deserialize version r;
     (qp, r) \<leftarrow> SequencePrivileges_deserialize version r;
     (rp, r) \<leftarrow> RoutinePrivileges_deserialize version r;
     (ms, r) \<leftarrow> RoleMembership_deserialize version r;
     Some (\<lparr>rolesByName = gm_of_list (map (\<lambda>x. (role_Name x, role_id x)) roles),
       rolesByID = gm_of_list (map (\<lambda>x. (role_id x, x)) roles),
       databasePrivileges = dp, schemaPrivileges = sp, tablePrivileges = tp, sequencePrivileges = qp,
       routinePrivileges = rp, roleMembership = ms\<rparr>, r)
   }"

definition deserializeV0 :: "Database rd" where
  "deserializeV0 r = read_database 0 r"

definition deserializeV1 :: "Database rd" where
  "deserializeV1 r = read_database 1 r"

datatype auth_error = InvalidFormat | UnsupportedFormat uint32

text \<open>The loop that raises the counter to the largest id of a role; without other threads it ends at once.\<close>

definition max_role_id :: "Database \<Rightarrow> uint64" where
  "max_role_id db = foldl (\<lambda>mx i. if i > mx then i else mx) 0 (map fst (rolesByID db))"

definition Database_deserialize ::
  "byte list \<Rightarrow> byte list \<Rightarrow> uint64 \<Rightarrow> (auth_error + Database \<times> uint64) option" where
  "Database_deserialize data spare counter =
     (if length data < 4 then Some (Inl InvalidFormat)
      else do {
        (version, r) \<leftarrow> Reader_Uint32 (NewReader data spare);
        if version = 0 \<or> version = 1 then do {
          (db, r) \<leftarrow> (if version = 0 then deserializeV0 r else deserializeV1 r);
          let maxID = max_role_id db;
          Some (Inr (db, if counter \<ge> maxID then counter else maxID))
        } else Some (Inl (UnsupportedFormat version))
      })"

end
