(* ===== verification/Auth_Codec.thy ===== *)
theory Auth_Codec
  imports Auth_Serial Codec_Instances
begin

text \<open>
  Reading back what was stored: the contract \<open>codec\<close> for grants, privileges, tables, memberships and roles. The
  locale \<open>key_codec\<close> extends it by what the privilege tables build on the codec of their key.
\<close>

unbundle bit_operations_syntax

section \<open>Maps and counts\<close>

lemma gm_of_list_append:
  "gm_wf (acc @ ps) \<Longrightarrow> foldl (\<lambda>m (k, v). gm_set k v m) acc ps = acc @ ps"
proof (induction ps arbitrary: acc)
  case (Cons p ps)
  obtain k v where p: "p = (k, v)" by (cases p)
  have "k \<notin> fst ` set acc" using Cons.prems p by (auto simp: gm_wf_def)
  then have "gm_set k v acc = acc @ [p]" by (simp add: update_fresh p)
  then show ?case using Cons.IH [of "acc @ [p]"] Cons.prems p by simp
qed simp

lemma gm_of_list_wf: "gm_wf ps \<Longrightarrow> gm_of_list ps = ps"
  using gm_of_list_append [of "[]" ps] by (simp add: gm_of_list_def)

lemma unat_count:
  "n < 2 ^ 64 \<Longrightarrow> unat (of_nat n :: uint64) = n" "n < 2 ^ 32 \<Longrightarrow> unat (of_nat n :: uint32) = n"
  by (simp_all add: unsigned_of_nat take_bit_eq_mod)

lemma be_put_Nil [simp]: "be_put (Suc k) v \<noteq> []"
  by (rule be_put_not_Nil) simp

lemma be_put_widths [simp]: "be_put 8 v \<noteq> []" "be_put 4 v \<noteq> []"
  by (rule be_put_not_Nil; simp)+

lemma string_enc_not_Nil [simp]: "string_enc s \<noteq> []"
  by (simp add: string_enc_def PutUvarint_not_Nil)

section \<open>Grants and privileges\<close>

definition grant_enc :: "GrantedPrivilege \<times> bool \<Rightarrow> byte list" where
  "grant_enc e = be_put 8 (GrantedBy (fst e)) @ [if snd e then 1 else 0]"

interpretation grant_codec: codec write_grant "read_grant p" grant_enc "\<lambda>e. gp_Privilege (fst e) = p" for p
proof
  fix e :: "GrantedPrivilege \<times> bool" and w
  show "writer_buf (write_grant e w) = writer_buf w @ grant_enc e"
    by (simp add: write_grant_def grant_enc_def codec_writes)
  show "grant_enc e \<noteq> []" by (simp add: grant_enc_def)
  assume "gp_Privilege (fst e) = p"
  then have "e = (\<lparr>gp_Privilege = p, GrantedBy = GrantedBy (fst e)\<rparr>, snd e)" by (auto simp: prod_eq_iff)
  then show "reads (read_grant p) (grant_enc e) e"
    unfolding read_grant_def [abs_def] grant_enc_def
    by (intro reads_bind [OF uint64_codec.rd_enc [OF TrueI]] reads_map [OF bool_codec.rd_enc [OF TrueI]])
qed

definition priv_enc :: "Privilege \<times> (GrantedPrivilege, bool) gomap \<Rightarrow> byte list" where
  "priv_enc e = string_enc (fst e) @ be_put 4 (of_nat (length (snd e)) :: uint32) @ concat (map grant_enc (snd e))"

definition priv_ok :: "Privilege \<times> (GrantedPrivilege, bool) gomap \<Rightarrow> bool" where
  "priv_ok e \<longleftrightarrow> gm_wf (snd e) \<and> length (snd e) < 2 ^ 32 \<and> (\<forall>g \<in> set (snd e). gp_Privilege (fst g) = fst e)"

interpretation priv_codec: codec write_privilege read_privilege priv_enc priv_ok
proof
  fix e w
  show "writer_buf (write_privilege e w) = writer_buf w @ priv_enc e"
    by (simp add: write_privilege_def priv_enc_def grant_codec.write_each_enc codec_writes)
  show "priv_enc e \<noteq> []" by (simp add: priv_enc_def)
  assume ok: "priv_ok e"
  have grants: "reads (read_n (read_grant (fst e)) (unat (of_nat (length (snd e)) :: uint32))) (concat (map grant_enc (snd e))) (snd e)"
    using ok grant_codec.read_n_enc [of "snd e" "fst e"] by (simp add: priv_ok_def unat_count)
  show "reads read_privilege (priv_enc e) e"
    unfolding read_privilege_def [abs_def] priv_enc_def
    by ((rule reads_bind, rule codec_reads, rule TrueI)+, rule reads_map, rule grants)
      (use ok in \<open>simp add: priv_ok_def gm_of_list_wf\<close>)
qed

section \<open>Tables\<close>

definition value_enc :: "('k \<Rightarrow> byte list) \<Rightarrow> 'k PrivilegeValue \<Rightarrow> byte list" where
  "value_enc kenc v =
     kenc (pv_Key v) @ be_put 8 (of_nat (length (Privileges v)) :: uint64) @ concat (map priv_enc (Privileges v))"

definition value_ok :: "'k PrivilegeValue \<Rightarrow> bool" where
  "value_ok v \<longleftrightarrow> gm_wf (Privileges v) \<and> length (Privileges v) < 2 ^ 64 \<and> (\<forall>e \<in> set (Privileges v). priv_ok e)"

definition table_enc :: "('k \<Rightarrow> byte list) \<Rightarrow> 'k privileges \<Rightarrow> byte list" where
  "table_enc kenc data = be_put 8 (of_nat (length data) :: uint64) @ concat (map (value_enc kenc) (map snd data))"

text \<open>A table that can be stored: every value stands under its own key.\<close>

definition table_ok :: "'k privileges \<Rightarrow> bool" where
  "table_ok data \<longleftrightarrow> gm_wf data \<and> length data < 2 ^ 64 \<and> (\<forall>(k, v) \<in> set data. pv_Key v = k \<and> value_ok v)"

lemma keyed_values: "\<forall>(k, v) \<in> set data. f v = k \<Longrightarrow> map (\<lambda>v. (f v, v)) (map snd data) = data"
  by (induction data) auto

locale key_codec =
  fixes write_key :: "'k \<Rightarrow> writer \<Rightarrow> writer"
    and read_key :: "'k rd"
    and key_enc :: "'k \<Rightarrow> byte list"
  assumes key_writes: "writer_buf (write_key key w) = writer_buf w @ key_enc key"
    and key_reads: "reads read_key (key_enc key) key"
begin

sublocale val: codec "write_value write_key" "read_value read_key" "value_enc key_enc" value_ok
proof
  fix v :: "'k PrivilegeValue" and w
  show "writer_buf (write_value write_key v w) = writer_buf w @ value_enc key_enc v"
    by (simp add: write_value_def value_enc_def priv_codec.write_each_enc codec_writes key_writes)
  show "value_enc key_enc v \<noteq> []" by (simp add: value_enc_def)
  assume ok: "value_ok v"
  have privs: "reads (read_n read_privilege (unat (of_nat (length (Privileges v)) :: uint64)))
      (concat (map priv_enc (Privileges v))) (Privileges v)"
    using ok priv_codec.read_n_enc [of "Privileges v"] by (simp add: value_ok_def unat_count)
  show "reads (read_value read_key) (value_enc key_enc v) v"
    unfolding read_value_def [abs_def] value_enc_def
    by (rule reads_bind, rule key_reads, rule reads_bind, rule codec_reads, rule TrueI, rule reads_map, rule privs)
      (use ok in \<open>simp add: value_ok_def gm_of_list_wf\<close>)
qed

sublocale tab: codec "write_table write_key" "read_table read_key" "table_enc key_enc" table_ok
proof
  fix data :: "'k privileges" and w
  show "writer_buf (write_table write_key data w) = writer_buf w @ table_enc key_enc data"
    by (simp add: write_table_def table_enc_def val.write_each_enc codec_writes)
  show "table_enc key_enc data \<noteq> []" by (simp add: table_enc_def)
  assume ok: "table_ok data"
  have vals: "reads (read_n (read_value read_key) (unat (of_nat (length data) :: uint64)))
      (concat (map (value_enc key_enc) (map snd data))) (map snd data)"
    using ok val.read_n_enc [of "map snd data"] by (fastforce simp: table_ok_def unat_count)
  have "map (\<lambda>v. (pv_Key v, v)) (map snd data) = data" using ok by (intro keyed_values) (auto simp: table_ok_def)
  then show "reads (read_table read_key) (table_enc key_enc data) data"
    unfolding read_table_def [abs_def] table_enc_def
    by (intro reads_bind [OF uint64_codec.rd_enc [OF TrueI]] reads_map [OF vals])
      (use ok in \<open>simp add: table_ok_def gm_of_list_wf del: map_map\<close>)
qed

end

definition database_key_enc :: "DatabasePrivilegeKey \<Rightarrow> byte list" where
  "database_key_enc key = be_put 8 (dk_Role key) @ string_enc (dk_Name key)"

definition schema_key_enc :: "SchemaPrivilegeKey \<Rightarrow> byte list" where
  "schema_key_enc key = be_put 8 (sk_Role key) @ string_enc (sk_Schema key)"

definition table_key_enc :: "TablePrivilegeKey \<Rightarrow> byte list" where
  "table_key_enc key = be_put 8 (tk_Role key) @ string_enc (tk_Name key) @ string_enc (tk_Schema key)"

definition sequence_key_enc :: "SequencePrivilegeKey \<Rightarrow> byte list" where
  "sequence_key_enc key = be_put 8 (qk_Role key) @ string_enc (qk_Schema key) @ string_enc (qk_Name key)"

definition routine_key_enc :: "RoutinePrivilegeKey \<Rightarrow> byte list" where
  "routine_key_enc key =
     be_put 8 (rk_Role key) @ string_enc (rk_Schema key) @ string_enc (rk_Name key) @ string_enc (rk_ArgTypes key)"

interpretation database_codec: key_codec write_database_key read_database_key database_key_enc
proof
  show "reads read_database_key (database_key_enc key) key" for key
    unfolding read_database_key_def [abs_def] database_key_enc_def
    by ((rule reads_bind, rule codec_reads, rule TrueI)+, rule reads_map, rule codec_reads) simp_all
qed (simp add: write_database_key_def database_key_enc_def codec_writes)

interpretation schema_codec: key_codec write_schema_key read_schema_key schema_key_enc
proof
  show "reads read_schema_key (schema_key_enc key) key" for key
    unfolding read_schema_key_def [abs_def] schema_key_enc_def
    by ((rule reads_bind, rule codec_reads, rule TrueI)+, rule reads_map, rule codec_reads) simp_all
qed (simp add: write_schema_key_def schema_key_enc_def codec_writes)

interpretation table_codec: key_codec write_table_key read_table_key table_key_enc
proof
  show "reads read_table_key (table_key_enc key) key" for key
    unfolding read_table_key_def [abs_def] table_key_enc_def
    by ((rule reads_bind, rule codec_reads, rule TrueI)+, rule reads_map, rule codec_reads) simp_all
qed (simp add: write_table_key_def table_key_enc_def codec_writes)

interpretation sequence_codec: key_codec write_sequence_key read_sequence_key sequence_key_enc
proof
  show "reads read_sequence_key (sequence_key_enc key) key" for key
    unfolding read_sequence_key_def [abs_def] sequence_key_enc_def
    by ((rule reads_bind, rule codec_reads, rule TrueI)+, rule reads_map, rule codec_reads) simp_all
qed (simp add: write_sequence_key_def sequence_key_enc_def codec_writes)

interpretation routine_codec: key_codec write_routine_key read_routine_key routine_key_enc
proof
  show "reads read_routine_key (routine_key_enc key) key" for key
    unfolding read_routine_key_def [abs_def] routine_key_enc_def
    by ((rule reads_bind, rule codec_reads, rule TrueI)+, rule reads_map, rule codec_reads) simp_all
qed (simp add: write_routine_key_def routine_key_enc_def codec_writes)

section \<open>Roles\<close>

abbreviation (input) bool_byte :: "bool \<Rightarrow> byte list" where
  "bool_byte b \<equiv> [if b then 1 else 0]"

definition password_enc :: "ScramSha256Password option \<Rightarrow> byte list" where
  "password_enc p = (case p of
     Some pw \<Rightarrow> bool_byte True @ be_put 4 (Iterations pw) @ string_enc (Salt pw) @ string_enc (StoredKey pw) @ string_enc (ServerKey pw)
   | None \<Rightarrow> bool_byte False)"

definition valid_until_enc :: "uint64 option \<Rightarrow> byte list" where
  "valid_until_enc t = (case t of Some micro \<Rightarrow> bool_byte True @ be_put 8 (micro + push_bit 63 1) | None \<Rightarrow> bool_byte False)"

definition role_enc :: "Role \<Rightarrow> byte list" where
  "role_enc r = string_enc (role_Name r) @ bool_byte (role_IsSuperUser r) @ bool_byte (InheritPrivileges r) @
     bool_byte (CanCreateRoles r) @ bool_byte (CanCreateDB r) @ bool_byte (CanLogin r) @ bool_byte (IsReplicationRole r) @
     bool_byte (CanBypassRowLevelSecurity r) @ be_put 4 (ConnectionLimit r + push_bit 31 1) @ password_enc (Password r) @
     valid_until_enc (ValidUntil r) @ be_put 8 (role_id r)"

lemma password_reads: "reads read_password (password_enc p) p"
proof (cases p)
  case None
  have "reads read_password (bool_byte False @ []) None"
    unfolding read_password_def [abs_def] by (rule reads_bind, rule bool_codec.rd_enc, rule TrueI) (simp add: reads_return)
  then show ?thesis by (simp add: password_enc_def None)
next
  case (Some pw)
  have "reads (\<lambda>r. Option.bind (Reader_Uint32 r) (\<lambda>(iter, r). Option.bind (Reader_ByteSlice r) (\<lambda>(salt, r).
      Option.bind (Reader_ByteSlice r) (\<lambda>(stored, r). Option.bind (Reader_ByteSlice r) (\<lambda>(server, r).
        Some (Some \<lparr>Iterations = iter, Salt = salt, StoredKey = stored, ServerKey = server\<rparr>, r))))))
      (be_put 4 (Iterations pw) @ string_enc (Salt pw) @ string_enc (StoredKey pw) @ string_enc (ServerKey pw)) (Some pw)"
    by ((rule reads_bind, rule codec_reads, rule TrueI)+, rule reads_map, rule codec_reads) simp_all
  then show ?thesis
    unfolding read_password_def [abs_def] password_enc_def Some option.case
    by (intro reads_bind [OF bool_codec.rd_enc [OF TrueI, of True]]) simp
qed

lemma valid_until_reads: "reads read_valid_until (valid_until_enc t) t"
proof (cases t)
  case None
  have "reads read_valid_until (bool_byte False @ []) None"
    unfolding read_valid_until_def [abs_def] by (rule reads_bind, rule bool_codec.rd_enc, rule TrueI) (simp add: reads_return)
  then show ?thesis by (simp add: valid_until_enc_def None)
next
  case (Some micro)
  have "reads (\<lambda>r. Option.bind (Reader_Int64 r) (\<lambda>(micro, r). Some (Some micro, r))) (be_put 8 (micro + push_bit 63 1)) (Some micro)"
    by (rule reads_map, rule codec_reads) simp_all
  then show ?thesis
    unfolding read_valid_until_def [abs_def] valid_until_enc_def Some option.case
    by (intro reads_bind [OF bool_codec.rd_enc [OF TrueI, of True]]) simp
qed

interpretation role_codec: codec Role_serialize "Role_deserialize 1" role_enc "\<lambda>_. True"
proof
  fix r :: Role and w
  have pw: "writer_buf (write_password p w) = writer_buf w @ password_enc p" for p w
    by (simp add: write_password_def password_enc_def Let_def codec_writes split: option.splits)
  have vu: "writer_buf (write_valid_until t w) = writer_buf w @ valid_until_enc t" for t w
    by (simp add: write_valid_until_def valid_until_enc_def codec_writes del: push_bit_of_1 split: option.splits)
  show "writer_buf (Role_serialize r w) = writer_buf w @ role_enc r"
    by (simp add: Role_serialize_def role_enc_def Let_def codec_writes pw vu del: push_bit_of_1)
  show "role_enc r \<noteq> []" by (simp add: role_enc_def)
  have "reads (\<lambda>r. Role_deserialize 1 r) (role_enc r) r"
    unfolding Role_deserialize_def role_enc_def if_P [OF disjI2 [OF refl]]
    by ((rule reads_bind, (rule password_reads | rule valid_until_reads | (rule codec_reads, rule TrueI)))+,
        rule reads_map, rule codec_reads) simp_all
  then show "reads (Role_deserialize 1) (role_enc r) r" by simp
qed

section \<open>Memberships\<close>

definition membership_enc :: "RoleMembershipValue \<Rightarrow> byte list" where
  "membership_enc v = be_put 8 (mv_Member v) @ be_put 8 (mv_Group v) @ bool_byte (WithAdminOption v) @ be_put 8 (mv_GrantedBy v)"

interpretation membership_codec: codec write_membership read_membership membership_enc "\<lambda>_. True"
proof
  fix v w
  show "writer_buf (write_membership v w) = writer_buf w @ membership_enc v"
    by (simp add: write_membership_def membership_enc_def codec_writes)
  show "membership_enc v \<noteq> []" by (simp add: membership_enc_def)
  show "reads read_membership (membership_enc v) v"
    unfolding read_membership_def [abs_def] membership_enc_def
    by ((rule reads_bind, rule codec_reads, rule TrueI)+, rule reads_map, rule codec_reads) simp_all
qed

definition groups_enc :: "RoleID \<times> (RoleID, RoleMembershipValue) gomap \<Rightarrow> byte list" where
  "groups_enc e = be_put 8 (of_nat (length (snd e)) :: uint64) @ concat (map membership_enc (map snd (snd e)))"

definition groups_ok :: "RoleID \<times> (RoleID, RoleMembershipValue) gomap \<Rightarrow> bool" where
  "groups_ok e \<longleftrightarrow> gm_wf (snd e) \<and> snd e \<noteq> [] \<and> length (snd e) < 2 ^ 64 \<and>
     (\<forall>(g, v) \<in> set (snd e). mv_Member v = fst e \<and> mv_Group v = g)"

interpretation groups_codec: codec "\<lambda>e. write_groups (snd e)" read_groups groups_enc groups_ok
proof
  fix e w
  show "writer_buf (write_groups (snd e) w) = writer_buf w @ groups_enc e"
    by (simp add: write_groups_def groups_enc_def membership_codec.write_each_enc codec_writes)
  show "groups_enc e \<noteq> []" by (simp add: groups_enc_def)
  assume ok: "groups_ok e"
  have vals: "reads (read_n read_membership (unat (of_nat (length (snd e)) :: uint64)))
      (concat (map membership_enc (map snd (snd e)))) (map snd (snd e))"
    using ok membership_codec.read_n_enc [of "map snd (snd e)"] by (simp add: groups_ok_def unat_count)
  have "map (\<lambda>v. (mv_Group v, v)) (map snd (snd e)) = snd e" using ok by (intro keyed_values) (auto simp: groups_ok_def)
  moreover have "mv_Member (snd x) = fst e" if "x \<in> set (snd e)" for x
    using ok that by (auto simp: groups_ok_def)
  then have "mv_Member (last (map snd (snd e))) = fst e"
    using ok by (simp add: groups_ok_def last_map)
  ultimately have "e = (if map snd (snd e) = [] then 0 else mv_Member (last (map snd (snd e))),
      gm_of_list (map (\<lambda>v. (mv_Group v, v)) (map snd (snd e))))"
    using ok by (simp add: groups_ok_def gm_of_list_wf prod_eq_iff del: map_map)
  then show "reads read_groups (groups_enc e) e"
    unfolding read_groups_def [abs_def] groups_enc_def
    by (intro reads_bind [OF uint64_codec.rd_enc [OF TrueI]] reads_map [OF vals])
qed

lemma write_each_map: "write_each f (map h xs) w = write_each (\<lambda>x. f (h x)) xs w"
  by (induction xs arbitrary: w) simp_all

definition members_enc :: "membership \<Rightarrow> byte list" where
  "members_enc data = be_put 8 (of_nat (length data) :: uint64) @ concat (map groups_enc data)"

definition members_ok :: "membership \<Rightarrow> bool" where
  "members_ok data \<longleftrightarrow> gm_wf data \<and> length data < 2 ^ 64 \<and> (\<forall>e \<in> set data. groups_ok e)"

interpretation members_codec: codec RoleMembership_serialize "RoleMembership_deserialize 1" members_enc members_ok
proof
  fix data w
  show "writer_buf (RoleMembership_serialize data w) = writer_buf w @ members_enc data"
    by (simp add: RoleMembership_serialize_def members_enc_def write_each_map groups_codec.write_each_enc codec_writes)
  show "members_enc data \<noteq> []" by (simp add: members_enc_def)
  assume ok: "members_ok data"
  have vals: "reads (read_n read_groups (unat (of_nat (length data) :: uint64))) (concat (map groups_enc data)) data"
    using ok groups_codec.read_n_enc [of data] by (simp add: members_ok_def unat_count)
  have "reads (\<lambda>r. RoleMembership_deserialize 1 r) (members_enc data) data"
    unfolding RoleMembership_deserialize_def members_enc_def if_P [OF disjI2 [OF refl]]
    by (intro reads_bind [OF uint64_codec.rd_enc [OF TrueI]] reads_map [OF vals])
      (use ok in \<open>simp add: members_ok_def gm_of_list_wf\<close>)
  then show "reads (RoleMembership_deserialize 1) (members_enc data) data" by simp
qed

section \<open>The database\<close>

definition database_enc :: "Database \<Rightarrow> byte list" where
  "database_enc db = be_put 4 (of_nat (length (rolesByID db)) :: uint32) @ concat (map role_enc (map snd (rolesByID db))) @
     table_enc database_key_enc (databasePrivileges db) @ table_enc schema_key_enc (schemaPrivileges db) @
     table_enc table_key_enc (tablePrivileges db) @ table_enc sequence_key_enc (sequencePrivileges db) @
     table_enc routine_key_enc (routinePrivileges db) @ members_enc (roleMembership db)"

definition storable :: "Database \<Rightarrow> bool" where
  "storable db \<longleftrightarrow> gm_wf (rolesByID db) \<and> length (rolesByID db) < 2 ^ 32 \<and> (\<forall>(i, r) \<in> set (rolesByID db). role_id r = i) \<and>
     table_ok (databasePrivileges db) \<and> table_ok (schemaPrivileges db) \<and> table_ok (tablePrivileges db) \<and>
     table_ok (sequencePrivileges db) \<and> table_ok (routinePrivileges db) \<and> members_ok (roleMembership db)"

text \<open>The names are rebuilt from the roles.\<close>

definition rebuild_names :: "Database \<Rightarrow> Database" where
  "rebuild_names db = db\<lparr>rolesByName := gm_of_list (map (\<lambda>x. (role_Name x, role_id x)) (map snd (rolesByID db)))\<rparr>"

lemma Database_serialize_enc: "Database_serialize db = be_put 4 (1 :: uint32) @ database_enc db"
  by (simp add: Database_serialize_def database_enc_def Let_def Writer_Data_def NewWriter_def codec_writes
      role_codec.write_each_enc DatabasePrivileges_serialize_def SchemaPrivileges_serialize_def
      TablePrivileges_serialize_def SequencePrivileges_serialize_def RoutinePrivileges_serialize_def
      database_codec.tab.wr_enc schema_codec.tab.wr_enc table_codec.tab.wr_enc sequence_codec.tab.wr_enc
      routine_codec.tab.wr_enc members_codec.wr_enc)

lemma tables_read:
  "table_ok dp \<Longrightarrow> reads (DatabasePrivileges_deserialize 1) (table_enc database_key_enc dp) dp"
  "table_ok sp \<Longrightarrow> reads (SchemaPrivileges_deserialize 1) (table_enc schema_key_enc sp) sp"
  "table_ok tp \<Longrightarrow> reads (TablePrivileges_deserialize 1) (table_enc table_key_enc tp) tp"
  "table_ok qp \<Longrightarrow> reads (SequencePrivileges_deserialize 1) (table_enc sequence_key_enc qp) qp"
  "table_ok rp \<Longrightarrow> reads (RoutinePrivileges_deserialize 1) (table_enc routine_key_enc rp) rp"
  by (simp_all add: DatabasePrivileges_deserialize_def [abs_def] SchemaPrivileges_deserialize_def [abs_def]
      TablePrivileges_deserialize_def [abs_def] SequencePrivileges_deserialize_def [abs_def]
      RoutinePrivileges_deserialize_def [abs_def] database_codec.tab.rd_enc schema_codec.tab.rd_enc
      table_codec.tab.rd_enc sequence_codec.tab.rd_enc routine_codec.tab.rd_enc)

lemma reads_database:
  assumes "storable db"
  shows "reads deserializeV1 (database_enc db) (rebuild_names db)"
proof -
  have ok: "table_ok (databasePrivileges db)" "table_ok (schemaPrivileges db)" "table_ok (tablePrivileges db)"
    "table_ok (sequencePrivileges db)" "table_ok (routinePrivileges db)" "members_ok (roleMembership db)"
    using assms by (simp_all add: storable_def)
  have roles: "reads (read_n (Role_deserialize 1) (unat (of_nat (length (rolesByID db)) :: uint32)))
      (concat (map role_enc (map snd (rolesByID db)))) (map snd (rolesByID db))"
    using assms role_codec.read_n_enc [of "map snd (rolesByID db)"] by (simp add: storable_def unat_count)
  have by_id: "gm_of_list (map (\<lambda>x. (role_id x, x)) (map snd (rolesByID db))) = rolesByID db"
    using assms keyed_values [of "rolesByID db" role_id] by (auto simp: storable_def gm_of_list_wf simp del: map_map)
  have "reads (\<lambda>r. deserializeV1 r) (database_enc db) (rebuild_names db)"
    unfolding deserializeV1_def read_database_def database_enc_def
    by (rule reads_bind, rule uint32_codec.rd_enc, rule TrueI, rule reads_bind, rule roles,
        rule reads_bind, rule tables_read(1), rule ok(1), rule reads_bind, rule tables_read(2), rule ok(2),
        rule reads_bind, rule tables_read(3), rule ok(3), rule reads_bind, rule tables_read(4), rule ok(4),
        rule reads_bind, rule tables_read(5), rule ok(5), rule reads_map, rule members_codec.rd_enc, rule ok(6))
      (simp add: rebuild_names_def by_id del: map_map)
  then show ?thesis by simp
qed

end
