(* ===== verification/Auth_Access.thy ===== *)
theory Auth_Access
  imports Auth_Privileges
begin

text \<open>
  What the recursive checks of the privilege tables compute. The locale \<open>privilege_key\<close> states what the
  checks need of a key type; inside it, the check is an instance of the search contract, and its result is
  access through the groups whose privileges a role inherits. The five key types interpret it.
\<close>

section \<open>Adding and removing grants\<close>

lemma granted_add:
  "granted (add_privilege key privilege w data) key' q =
     (if key' = key \<and> q = gp_Privilege privilege then gm_set privilege w (granted data key q) else granted data key' q)"
  by (auto simp: granted_def add_privilege_def Let_def split: option.splits)

lemma granted_remove:
  "granted (remove_privilege key privilege grantOptionOnly data) key' q =
     (let m = granted data key' q in
      if key' \<noteq> key \<or> q \<noteq> gp_Privilege privilege then m
      else if grantOptionOnly then
        (if RoleID_IsValid (GrantedBy privilege)
         then (if gm_get m privilege \<noteq> None then gm_set privilege False m else m)
         else map (\<lambda>(k, _). (k, False)) m)
      else if RoleID_IsValid (GrantedBy privilege) then gm_del privilege m else [])"
proof (cases "gm_get data key")
  case None
  then show ?thesis by (auto simp: granted_def remove_privilege_def Let_def)
next
  case (Some v)
  show ?thesis
  proof (cases "gm_get (Privileges v) (gp_Privilege privilege)")
    case None
    with Some show ?thesis
      by (auto simp: granted_def remove_privilege_def Let_def split: option.splits)
  next
    case (Some m)
    with \<open>gm_get data key = Some v\<close> show ?thesis
      by (auto simp: granted_def remove_privilege_def Let_def split: option.splits dest: gm_del_NilD)
  qed
qed

section \<open>The contract of a key type\<close>

abbreviation priv_edge :: "Database \<Rightarrow> RoleID \<Rightarrow> RoleID \<Rightarrow> bool" where
  "priv_edge db r g \<equiv> g \<in> set (GetAllGroupsWithMember db r True)"

definition no_priv_cycles :: "Database \<Rightarrow> bool" where
  "no_priv_cycles db \<longleftrightarrow> (\<forall>r. \<not> (priv_edge db)\<^sup>+\<^sup>+ r r)"

definition key_children :: "'k key_ops \<Rightarrow> Database \<Rightarrow> 'k \<Rightarrow> 'k list" where
  "key_children ops db key =
     (case whole_schema ops key of Some key' \<Rightarrow> [key'] | None \<Rightarrow> []) @
     map (with_role ops key) (GetAllGroupsWithMember db (key_role ops key) True)"

definition key_goal :: "'k key_ops \<Rightarrow> Database \<Rightarrow> 'k privileges \<Rightarrow> Privilege \<Rightarrow> 'k \<Rightarrow> bool" where
  "key_goal ops db data p key \<longleftrightarrow> IsSuperUser db (key_role ops key) \<or> own_privilege data key p"

text \<open>
  Access to an object: the role or a group that it inherits from is a superuser, or was granted the
  privilege on the object or on its whole schema.
\<close>

definition access :: "'k key_ops \<Rightarrow> Database \<Rightarrow> 'k privileges \<Rightarrow> Privilege \<Rightarrow> 'k \<Rightarrow> bool" where
  "access ops db data p key \<longleftrightarrow> (\<exists>g. (priv_edge db)\<^sup>*\<^sup>* (key_role ops key) g \<and>
     (IsSuperUser db g \<or> own_privilege data (with_role ops key g) p \<or>
      (\<exists>key'. whole_schema ops key = Some key' \<and> own_privilege data (with_role ops key' g) p)))"

definition check_depth :: "'k key_ops \<Rightarrow> Database \<Rightarrow> 'k \<Rightarrow> nat" where
  "check_depth ops db key =
     2 * card (descendants (priv_edge db) (key_role ops key)) + (if whole_schema ops key = None then 0 else 1)"

locale privilege_key =
  fixes ops :: "'k key_ops"
  assumes role_with [simp]: "key_role ops (with_role ops key g) = g"
    and with_with [simp]: "with_role ops (with_role ops key g) h = with_role ops key h"
    and with_own [simp]: "with_role ops key (key_role ops key) = key"
    and schema_with [simp]: "whole_schema ops (with_role ops key g) =
      map_option (\<lambda>key'. with_role ops key' g) (whole_schema ops key)"
    and schema_role: "whole_schema ops key = Some key' \<Longrightarrow> key_role ops key' = key_role ops key"
    and schema_schema: "whole_schema ops key = Some key' \<Longrightarrow> whole_schema ops key' = None"
begin

sublocale check: graph_search "key_children ops db" "key_goal ops db data p" "\<lambda>n. has_privilege n ops db data p"
  for db data p
proof
  fix n and x :: 'k
  let ?rec = "has_privilege n ops db data p"
  show "has_privilege 0 ops db data p x = None" by simp
  show "has_privilege (Suc n) ops db data p x = Some True \<Longrightarrow>
      key_goal ops db data p x \<or> (\<exists>c \<in> set (key_children ops db x). ?rec c = Some True)"
    by (auto simp: key_goal_def key_children_def split: if_splits option.splits bool.splits dest: any_call_True)
  show "has_privilege (Suc n) ops db data p x = Some False \<Longrightarrow>
      \<not> key_goal ops db data p x \<and> (\<forall>c \<in> set (key_children ops db x). ?rec c = Some False)"
    by (auto simp: key_goal_def key_children_def any_call_False split: if_splits option.splits bool.splits)
  show "\<forall>c \<in> set (key_children ops db x). ?rec c \<noteq> None \<Longrightarrow> has_privilege (Suc n) ops db data p x \<noteq> None"
    using any_call_defined [of "GetAllGroupsWithMember db (key_role ops x) True" "\<lambda>g. ?rec (with_role ops x g)"]
    by (auto simp: key_children_def split: option.splits bool.splits)
qed

lemma reach_shape:
  "(check.edge db)\<^sup>*\<^sup>* key y \<Longrightarrow> \<exists>r. (priv_edge db)\<^sup>*\<^sup>* (key_role ops key) r \<and>
     (y = with_role ops key r \<or> (\<exists>key'. whole_schema ops key = Some key' \<and> y = with_role ops key' r))"
proof (induction rule: rtranclp_induct)
  case base
  show ?case by (rule exI [of _ "key_role ops key"]) simp
next
  case (step y z)
  then obtain r where r: "(priv_edge db)\<^sup>*\<^sup>* (key_role ops key) r"
    "y = with_role ops key r \<or> (\<exists>key'. whole_schema ops key = Some key' \<and> y = with_role ops key' r)" by blast
  from step.hyps(2) consider "whole_schema ops y = Some z" | g where "priv_edge db (key_role ops y) g" "z = with_role ops y g"
    by (auto simp: key_children_def split: option.splits)
  then show ?case
  proof cases
    case 1
    then obtain key' where "whole_schema ops key = Some key'" "z = with_role ops key' r"
      using r(2) schema_schema by auto
    then show ?thesis using r(1) by blast
  next
    case 2
    then have "(priv_edge db)\<^sup>*\<^sup>* (key_role ops key) g" using r by (auto intro: rtranclp.rtrancl_into_rtrancl)
    then show ?thesis using r(2) 2(2) by auto
  qed
qed

lemma reach_with:
  "(priv_edge db)\<^sup>*\<^sup>* (key_role ops key) g \<Longrightarrow> (check.edge db)\<^sup>*\<^sup>* key (with_role ops key g)"
proof (induction rule: rtranclp_induct)
  case (step y z)
  have "check.edge db (with_role ops key y) (with_role ops key z)"
    using step.hyps(2) by (auto simp: key_children_def image_iff)
  then show ?case using step.IH by (meson rtranclp.rtrancl_into_rtrancl)
qed simp

lemma reach_goal:
  "(\<exists>y. (check.edge db)\<^sup>*\<^sup>* key y \<and> key_goal ops db data p y) \<longleftrightarrow> access ops db data p key"
proof
  assume "\<exists>y. (check.edge db)\<^sup>*\<^sup>* key y \<and> key_goal ops db data p y"
  then obtain y r where "key_goal ops db data p y" "(priv_edge db)\<^sup>*\<^sup>* (key_role ops key) r"
    "y = with_role ops key r \<or> (\<exists>key'. whole_schema ops key = Some key' \<and> y = with_role ops key' r)"
    using reach_shape by blast
  then show "access ops db data p key" by (auto simp: access_def key_goal_def)
next
  assume "access ops db data p key"
  then obtain g where g: "(priv_edge db)\<^sup>*\<^sup>* (key_role ops key) g"
    "IsSuperUser db g \<or> own_privilege data (with_role ops key g) p \<or>
      (\<exists>key'. whole_schema ops key = Some key' \<and> own_privilege data (with_role ops key' g) p)"
    unfolding access_def by blast
  then consider "key_goal ops db data p (with_role ops key g)"
    | key' where "whole_schema ops key = Some key'" "own_privilege data (with_role ops key' g) p"
    by (auto simp: key_goal_def)
  then show "\<exists>y. (check.edge db)\<^sup>*\<^sup>* key y \<and> key_goal ops db data p y"
  proof cases
    case 1
    then show ?thesis using reach_with [OF g(1)] by blast
  next
    case 2
    then have "check.edge db key key'" "(priv_edge db)\<^sup>*\<^sup>* (key_role ops key') g"
      using g(1) schema_role by (auto simp: key_children_def)
    then have "(check.edge db)\<^sup>*\<^sup>* key (with_role ops key' g)"
      using reach_with by (meson converse_rtranclp_into_rtranclp)
    then show ?thesis using 2 by (auto simp: key_goal_def)
  qed
qed

lemma depth_falls:
  assumes "no_priv_cycles db" and "check.edge db key y"
  shows "check_depth ops db y < check_depth ops db key"
proof -
  have "whole_schema ops key = Some y \<or> (\<exists>g. priv_edge db (key_role ops key) g \<and> y = with_role ops key g)"
    using assms(2) by (auto simp: key_children_def split: option.splits)
  then show ?thesis
    using assms(1) descendants_less [of "priv_edge db" "key_role ops key"]
    by (auto simp: check_depth_def no_priv_cycles_def schema_role schema_schema)
qed

text \<open>The check returns with enough fuel, and what it returns is access.\<close>

lemma has_privilege_access:
  assumes "no_priv_cycles db" and "check_depth ops db key < n"
  shows "has_privilege n ops db data p key = Some (access ops db data p key)"
  using check.search_correct [where rank = "check_depth ops db", OF depth_falls [OF assms(1)] assms(2)]
  by (simp add: reach_goal)

lemma has_privilege_sound:
  assumes "has_privilege n ops db data p key = Some b"
  shows "b \<longleftrightarrow> access ops db data p key"
  using check.search_sound [OF assms] by (simp add: reach_goal)

end

interpretation database_access: privilege_key database_key_ops
  by unfold_locales (auto simp: database_key_ops_def)

interpretation schema_access: privilege_key schema_key_ops
  by unfold_locales (auto simp: schema_key_ops_def)

interpretation table_access: privilege_key table_key_ops
  by unfold_locales (auto simp: table_key_ops_def split: if_splits)

interpretation sequence_access: privilege_key sequence_key_ops
  by unfold_locales (auto simp: sequence_key_ops_def split: if_splits)

interpretation routine_access: privilege_key routine_key_ops
  by unfold_locales (auto simp: routine_key_ops_def split: if_splits)

end
