(* ===== verification/Auth_Props.thy ===== *)
theory Auth_Props
  imports Auth_Access
begin

text \<open>
  Properties of roles, memberships and privilege checks, with a small database for the concrete cases.
\<close>

section \<open>Lemmas\<close>

lemma priv_edge_member_edge: "membership_ok db \<Longrightarrow> priv_edge db r g \<Longrightarrow> member_edge db r g"
  by (auto simp: GetAllGroupsWithMember_def member_groups_keys split: option.splits if_splits)

lemma no_cycles_priv: "membership_ok db \<Longrightarrow> no_cycles db \<Longrightarrow> no_priv_cycles db"
proof -
  assume ok: "membership_ok db" "no_cycles db"
  have "(priv_edge db)\<^sup>+\<^sup>+ a b \<Longrightarrow> (member_edge db)\<^sup>+\<^sup>+ a b" for a b
  proof (induction rule: tranclp_induct)
    case (base y)
    then show ?case using priv_edge_member_edge [OF ok(1)] by blast
  next
    case (step y z)
    then show ?case using priv_edge_member_edge [OF ok(1)] by (meson tranclp.trancl_into_trancl)
  qed
  then show ?thesis using ok(2) by (auto simp: no_cycles_def no_priv_cycles_def)
qed

text \<open>The grant option: what is found, and that the search ends.\<close>

definition key_grants :: "'k key_ops \<Rightarrow> Database \<Rightarrow> 'k privileges \<Rightarrow> Privilege \<Rightarrow> 'k \<Rightarrow> bool" where
  "key_grants ops db data p key \<longleftrightarrow> IsSuperUser db (key_role ops key) \<or> own_grant_option data key p"

lemma first_valid_found: "first_valid f xs = Some r \<Longrightarrow> r \<noteq> 0 \<Longrightarrow> \<exists>x \<in> set xs. f x = Some r"
  and first_valid_none: "first_valid f xs = Some 0 \<Longrightarrow> \<forall>x \<in> set xs. f x = Some 0"
  by (induction xs) (auto simp: RoleID_IsValid_def split: option.splits if_splits)

lemma first_valid_defined: "\<forall>x \<in> set xs. f x \<noteq> None \<Longrightarrow> first_valid f xs \<noteq> None"
  by (induction xs) (auto split: option.splits if_splits)

context privilege_key
begin

lemma grant_option_found:
  "has_grant_option n ops db data p key = Some r \<Longrightarrow> r \<noteq> 0 \<Longrightarrow>
   \<exists>y. (check.edge db)\<^sup>*\<^sup>* key y \<and> key_role ops y = r \<and> key_grants ops db data p y"
proof (induction n arbitrary: key)
  case (Suc n)
  have "(key_role ops key = r \<and> key_grants ops db data p key) \<or>
      (\<exists>c \<in> set (key_children ops db key). has_grant_option n ops db data p c = Some r)"
    using Suc.prems first_valid_found [of "\<lambda>g. has_grant_option n ops db data p (with_role ops key g)" _ r]
    by (auto simp: key_grants_def key_children_def RoleID_IsValid_def split: if_splits option.splits)
  then show ?case
  proof
    assume "\<exists>c \<in> set (key_children ops db key). has_grant_option n ops db data p c = Some r"
    then obtain c where c: "c \<in> set (key_children ops db key)" "has_grant_option n ops db data p c = Some r" ..
    then obtain y where y: "(check.edge db)\<^sup>*\<^sup>* c y" "key_role ops y = r" "key_grants ops db data p y"
      using Suc.IH [OF _ Suc.prems(2)] by blast
    have "(check.edge db)\<^sup>*\<^sup>* key y" using c(1) y(1) by (rule converse_rtranclp_into_rtranclp)
    then show ?thesis using y by blast
  qed blast
qed simp

lemma grant_option_not_found:
  "has_grant_option n ops db data p key = Some 0 \<Longrightarrow> (check.edge db)\<^sup>*\<^sup>* key y \<Longrightarrow>
   \<forall>z. (check.edge db)\<^sup>*\<^sup>* key z \<longrightarrow> key_role ops z \<noteq> 0 \<Longrightarrow> \<not> key_grants ops db data p y"
proof (induction n arbitrary: key)
  case (Suc n)
  have "key_role ops key \<noteq> 0" using Suc.prems(3) by blast
  then have step: "\<not> key_grants ops db data p key" "\<forall>c \<in> set (key_children ops db key). has_grant_option n ops db data p c = Some 0"
    using Suc.prems(1) first_valid_none [of "\<lambda>g. has_grant_option n ops db data p (with_role ops key g)"]
    by (auto simp: key_grants_def key_children_def RoleID_IsValid_def split: if_splits option.splits)
  from Suc.prems(2) show ?case
  proof (cases rule: converse_rtranclpE)
    case base
    then show ?thesis using step(1) by simp
  next
    case (step z)
    then show ?thesis
      using Suc.IH [of z] Suc.prems(3) \<open>\<forall>c \<in> set (key_children ops db key). has_grant_option n ops db data p c = Some 0\<close>
      by (meson converse_rtranclp_into_rtranclp)
  qed
qed simp

lemma grant_option_returns:
  "no_priv_cycles db \<Longrightarrow> check_depth ops db key < n \<Longrightarrow> has_grant_option n ops db data p key \<noteq> None"
proof (induction n arbitrary: key)
  case (Suc n)
  then have "\<forall>c \<in> set (key_children ops db key). has_grant_option n ops db data p c \<noteq> None"
    using depth_falls [OF Suc.prems(1)] by (meson less_Suc_eq_le less_le_trans)
  then show ?case
    using first_valid_defined [of "GetAllGroupsWithMember db (key_role ops key) True"
        "\<lambda>g. has_grant_option n ops db data p (with_role ops key g)"]
    by (auto simp: key_children_def split: option.splits)
qed simp

text \<open>A role that may grant: a superuser, or one that holds the grant option on the object or its schema.\<close>

lemma grant_option_role:
  assumes "has_grant_option n ops db data p key = Some r" and "r \<noteq> 0"
  shows "(priv_edge db)\<^sup>*\<^sup>* (key_role ops key) r \<and> (IsSuperUser db r \<or> own_grant_option data (with_role ops key r) p \<or>
    (\<exists>key'. whole_schema ops key = Some key' \<and> own_grant_option data (with_role ops key' r) p))"
proof -
  obtain y where y: "(check.edge db)\<^sup>*\<^sup>* key y" "key_role ops y = r" "key_grants ops db data p y"
    using grant_option_found [OF assms] by blast
  from reach_shape [OF y(1)] y(2,3) show ?thesis by (auto simp: key_grants_def)
qed

lemma grant_option_none:
  assumes "has_grant_option n ops db data p key = Some 0" and "\<forall>g. (priv_edge db)\<^sup>*\<^sup>* (key_role ops key) g \<longrightarrow> g \<noteq> 0"
    and "(priv_edge db)\<^sup>*\<^sup>* (key_role ops key) g"
  shows "\<not> IsSuperUser db g \<and> \<not> own_grant_option data (with_role ops key g) p"
proof -
  have "key_role ops z \<noteq> 0" if "(check.edge db)\<^sup>*\<^sup>* key z" for z
    using reach_shape [OF that] assms(2) by auto
  then have "\<not> key_grants ops db data p (with_role ops key g)"
    using grant_option_not_found [OF assms(1) reach_with [OF assms(3)]] by blast
  then show ?thesis by (simp add: key_grants_def)
qed

end

section \<open>A small database\<close>

definition demo_role :: "RoleID \<Rightarrow> string \<Rightarrow> bool \<Rightarrow> Role" where
  "demo_role i n super = (createDefaultRoleWithoutID (gs n))\<lparr>role_id := i, role_IsSuperUser := super\<rparr>"

definition demo_roles :: Database where
  "demo_roles = foldl SetRole newEmptyDatabase
     [demo_role 1 ''public'' False, demo_role 2 ''alice'' False, demo_role 3 ''staff'' False, demo_role 4 ''root'' True]"

definition demo_grant :: GrantedPrivilege where
  "demo_grant = \<lparr>gp_Privilege = Privilege_SELECT, GrantedBy = 4\<rparr>"

text \<open>\<open>alice\<close> is a member of \<open>staff\<close>, and \<open>staff\<close> may read all tables of the schema.\<close>

definition demo_db :: Database where
  "demo_db = AddTablePrivilege
     (set_membership demo_roles 2 3 \<lparr>mv_Member = 2, mv_Group = 3, WithAdminOption = False, mv_GrantedBy = 4\<rparr>)
     \<lparr>tk_Role = 3, tk_Name = [], tk_Schema = gs ''public''\<rparr> demo_grant False"

definition alice_table :: TablePrivilegeKey where
  "alice_table = \<lparr>tk_Role = 2, tk_Name = gs ''film'', tk_Schema = gs ''public''\<rparr>"

lemma no_cycles_rank:
  assumes "\<And>r g. member_edge db r g \<Longrightarrow> rank g < (rank r :: nat)"
  shows "no_cycles db"
proof -
  have "(member_edge db)\<^sup>+\<^sup>+ a b \<Longrightarrow> rank b < rank a" for a b
    by (induction rule: tranclp_induct) (auto dest: assms)
  then show ?thesis unfolding no_cycles_def by blast
qed

lemma demo_membership: "roleMembership demo_db = [(2, [(3, \<lparr>mv_Member = 2, mv_Group = 3, WithAdminOption = False, mv_GrantedBy = 4\<rparr>)])]"
  by code_simp

lemma demo_edges: "member_edge demo_db r g \<longleftrightarrow> r = 2 \<and> g = 3"
  by (auto simp: member_groups_def groups_of_def demo_membership gm_get_def)

lemma demo_ok_db: "membership_ok demo_db" "no_cycles demo_db"
proof -
  show "membership_ok demo_db" by (simp add: membership_ok_def demo_membership gm_wf_def)
  show "no_cycles demo_db"
    by (rule no_cycles_rank [where rank = "\<lambda>r. if r = 2 then 1 else 0"]) (auto simp: demo_edges)
qed

lemma demo_superusers: "IsSuperUser demo_db r \<longleftrightarrow> r = 4"
proof -
  have "rolesByID demo_db = [(1, demo_role 1 ''public'' False), (2, demo_role 2 ''alice'' False),
      (3, demo_role 3 ''staff'' False), (4, demo_role 4 ''root'' True)]" by code_simp
  then show ?thesis
    by (simp add: IsSuperUser_def role_by_id_def gm_get_def demo_role_def zero_role_def createDefaultRoleWithoutID_def)
qed

lemma demo_priv_edges: "priv_edge demo_db r g \<longleftrightarrow> r = 2 \<and> g = 3"
proof -
  have "GetAllGroupsWithMember demo_db 2 True = [3]" by code_simp
  then show ?thesis using priv_edge_member_edge [OF demo_ok_db(1)] demo_edges by auto
qed

lemma demo_descendants: "descendants (priv_edge demo_db) r = (if r = 2 then {3} else {})"
proof -
  have edges: "priv_edge demo_db = (\<lambda>r g. r = 2 \<and> g = 3)" by (simp add: demo_priv_edges fun_eq_iff)
  have "(\<lambda>r g. r = 2 \<and> g = (3 :: RoleID))\<^sup>+\<^sup>+ = (\<lambda>r g. r = (2 :: RoleID) \<and> g = 3)"
    by (intro ext) (auto elim: tranclp.cases dest: tranclpD intro: tranclp.r_into_trancl)
  then show ?thesis unfolding descendants_def edges by auto
qed

section \<open>Properties\<close>

text \<open>C2. With memberships free of cycles, every privilege check returns, at a depth of calls that the groups
  of the role bound, and answers exactly the question of access: the role or a group it inherits from is a
  superuser or was granted the privilege on the object or, for tables, sequences and routines, on all of
  its schema. The answer does not depend on the order in which maps are visited.\<close>

theorem checks_decide_access:
  assumes "membership_ok db" and "no_cycles db"
    and "check_depth database_key_ops db dk < n" "check_depth schema_key_ops db sk < n" "check_depth table_key_ops db tk < n"
    and "check_depth sequence_key_ops db qk < n" "check_depth routine_key_ops db rk < n"
  shows "HasDatabasePrivilege n db dk p = Some (access database_key_ops db (databasePrivileges db) p dk) \<and>
    HasSchemaPrivilege n db sk p = Some (access schema_key_ops db (schemaPrivileges db) p sk) \<and>
    HasTablePrivilege n db tk p = Some (access table_key_ops db (tablePrivileges db) p tk) \<and>
    HasSequencePrivilege n db qk p = Some (access sequence_key_ops db (sequencePrivileges db) p qk) \<and>
    HasRoutinePrivilege n db rk p = Some (access routine_key_ops db (routinePrivileges db) p rk)"
  using assms(3-7) no_cycles_priv [OF assms(1,2)]
  by (simp add: HasDatabasePrivilege_def HasSchemaPrivilege_def HasTablePrivilege_def HasSequencePrivilege_def
      HasRoutinePrivilege_def database_access.has_privilege_access schema_access.has_privilege_access
      table_access.has_privilege_access sequence_access.has_privilege_access routine_access.has_privilege_access)

theorem checks_decide_access_witness:
  "HasTablePrivilege 4 demo_db alice_table Privilege_SELECT = Some True \<and>
   access table_key_ops demo_db (tablePrivileges demo_db) Privilege_SELECT alice_table"
proof -
  have depth: "check_depth table_key_ops demo_db alice_table < 4"
    "check_depth database_key_ops demo_db \<lparr>dk_Role = 2, dk_Name = []\<rparr> < 4"
    "check_depth schema_key_ops demo_db \<lparr>sk_Role = 2, sk_Schema = []\<rparr> < 4"
    "check_depth sequence_key_ops demo_db \<lparr>qk_Role = 2, qk_Schema = [], qk_Name = []\<rparr> < 4"
    "check_depth routine_key_ops demo_db \<lparr>rk_Role = 2, rk_Schema = [], rk_Name = [], rk_ArgTypes = []\<rparr> < 4"
    by (simp_all add: check_depth_def demo_descendants table_key_ops_def database_key_ops_def schema_key_ops_def
        sequence_key_ops_def routine_key_ops_def alice_table_def)
  have "HasTablePrivilege 4 demo_db alice_table Privilege_SELECT = Some True" by code_simp
  then show ?thesis
    using checks_decide_access [OF demo_ok_db depth(2,3,1,4,5), of Privilege_SELECT] by simp
qed

text \<open>Granting and revoking in a privilege table. A grant gives the privilege on its key and changes no
  other key or privilege. Revoking without a granter takes it away completely, revoking with a granter takes
  away only what that role granted, and revoking only the grant option keeps the privilege.\<close>

theorem grant_and_revoke:
  "(own_privilege (add_privilege key gp w data) key' q \<longleftrightarrow>
      own_privilege data key' q \<or> (key' = key \<and> q = gp_Privilege gp)) \<and>
   gm_get (granted (add_privilege key gp w data) key (gp_Privilege gp)) gp = Some w \<and>
   (GrantedBy gp = 0 \<longrightarrow>
      (own_privilege (remove_privilege key gp False data) key' q \<longleftrightarrow>
        own_privilege data key' q \<and> \<not> (key' = key \<and> q = gp_Privilege gp)) \<and>
      \<not> own_grant_option (remove_privilege key gp True data) key (gp_Privilege gp)) \<and>
   (GrantedBy gp \<noteq> 0 \<longrightarrow>
      gm_get (granted (remove_privilege key gp False data) key (gp_Privilege gp)) gp' =
        (if gp' = gp then None else gm_get (granted data key (gp_Privilege gp)) gp')) \<and>
   (own_privilege (remove_privilege key gp True data) key' q \<longleftrightarrow> own_privilege data key' q)"
  by (auto simp: own_privilege_def own_grant_option_def granted_add granted_remove Let_def RoleID_IsValid_def)

theorem grant_and_revoke_witness:
  "\<not> own_privilege (remove_privilege alice_table (demo_grant\<lparr>GrantedBy := 0\<rparr>) False
       (add_privilege alice_table demo_grant True [])) alice_table Privilege_SELECT"
  using grant_and_revoke [where gp = "demo_grant\<lparr>GrantedBy := 0\<rparr>" and key = alice_table and key' = alice_table
      and q = Privilege_SELECT and data = "add_privilege alice_table demo_grant True []"]
  by (simp add: demo_grant_def)

lemma priv_edges_unchanged:
  "rolesByID db' = rolesByID db \<Longrightarrow> roleMembership db' = roleMembership db \<Longrightarrow>
   GetAllGroupsWithMember db' = GetAllGroupsWithMember db \<and> IsSuperUser db' = IsSuperUser db"
  by (auto simp: fun_eq_iff GetAllGroupsWithMember_def groups_of_def IsSuperUser_def role_by_id_def split: option.splits)

text \<open>A role that was just granted a privilege on an object passes the check for it, whatever the rest of
  the database holds, in each of the five tables.\<close>

theorem grant_gives_access:
  assumes "membership_ok db" and "no_cycles db"
    and "check_depth database_key_ops db dk < n" "check_depth schema_key_ops db sk < n" "check_depth table_key_ops db tk < n"
    and "check_depth sequence_key_ops db qk < n" "check_depth routine_key_ops db rk < n"
  shows "HasDatabasePrivilege n (AddDatabasePrivilege db dk gp w) dk (gp_Privilege gp) = Some True \<and>
    HasSchemaPrivilege n (AddSchemaPrivilege db sk gp w) sk (gp_Privilege gp) = Some True \<and>
    HasTablePrivilege n (AddTablePrivilege db tk gp w) tk (gp_Privilege gp) = Some True \<and>
    HasSequencePrivilege n (AddSequencePrivilege db qk gp w) qk (gp_Privilege gp) = Some True \<and>
    HasRoutinePrivilege n (AddRoutinePrivilege db rk gp w) rk (gp_Privilege gp) = Some True"
proof -
  have nc: "no_priv_cycles db" by (rule no_cycles_priv [OF assms(1,2)])
  note unchanged = priv_edges_unchanged [of "AddDatabasePrivilege db dk gp w" db]
    priv_edges_unchanged [of "AddSchemaPrivilege db sk gp w" db] priv_edges_unchanged [of "AddTablePrivilege db tk gp w" db]
    priv_edges_unchanged [of "AddSequencePrivilege db qk gp w" db] priv_edges_unchanged [of "AddRoutinePrivilege db rk gp w" db]
  note adds = AddDatabasePrivilege_def AddSchemaPrivilege_def AddTablePrivilege_def AddSequencePrivilege_def
    AddRoutinePrivilege_def
  have acc: "access ops db' (add_privilege k gp w data) (gp_Privilege gp) k" if "with_role ops k (key_role ops k) = k"
    for ops :: "'k key_ops" and k data db'
    unfolding access_def using that by (intro exI [of _ "key_role ops k"]) (simp add: own_privilege_def granted_add)
  show ?thesis
    using unchanged nc assms(3-7)
    by (simp add: HasDatabasePrivilege_def HasSchemaPrivilege_def HasTablePrivilege_def HasSequencePrivilege_def
        HasRoutinePrivilege_def database_access.has_privilege_access schema_access.has_privilege_access
        table_access.has_privilege_access sequence_access.has_privilege_access routine_access.has_privilege_access
        no_priv_cycles_def check_depth_def adds acc)
qed

theorem grant_gives_access_witness:
  "HasTablePrivilege 4 (AddTablePrivilege demo_db alice_table demo_grant False) alice_table Privilege_SELECT = Some True"
proof -
  have depth: "check_depth table_key_ops demo_db alice_table < 4"
    "check_depth database_key_ops demo_db \<lparr>dk_Role = 2, dk_Name = []\<rparr> < 4"
    "check_depth schema_key_ops demo_db \<lparr>sk_Role = 2, sk_Schema = []\<rparr> < 4"
    "check_depth sequence_key_ops demo_db \<lparr>qk_Role = 2, qk_Schema = [], qk_Name = []\<rparr> < 4"
    "check_depth routine_key_ops demo_db \<lparr>rk_Role = 2, rk_Schema = [], rk_Name = [], rk_ArgTypes = []\<rparr> < 4"
    by (simp_all add: check_depth_def demo_descendants table_key_ops_def database_key_ops_def schema_key_ops_def
        sequence_key_ops_def routine_key_ops_def alice_table_def)
  show ?thesis using grant_gives_access [OF demo_ok_db depth(2,3,1,4,5), of demo_grant False] by (simp add: demo_grant_def)
qed

text \<open>The search for the grant option returns at the same depth. A valid role that it returns is the role
  itself or one it inherits from, and that role is a superuser or holds the grant option on the table or on
  all tables of the schema; the invalid role says that no role it inherits from has it on the table.\<close>

theorem grant_option_search:
  assumes "membership_ok db" and "no_cycles db" and "check_depth table_key_ops db key < n"
    and "\<forall>g. (priv_edge db)\<^sup>*\<^sup>* (tk_Role key) g \<longrightarrow> g \<noteq> 0"
  shows "\<exists>r. HasTablePrivilegeGrantOption n db key p = Some r \<and>
    (if r \<noteq> 0
     then (priv_edge db)\<^sup>*\<^sup>* (tk_Role key) r \<and>
       (IsSuperUser db r \<or> own_grant_option (tablePrivileges db) (key\<lparr>tk_Role := r\<rparr>) p \<or>
        own_grant_option (tablePrivileges db) (key\<lparr>tk_Name := [], tk_Role := r\<rparr>) p)
     else \<forall>g. (priv_edge db)\<^sup>*\<^sup>* (tk_Role key) g \<longrightarrow>
       \<not> IsSuperUser db g \<and> \<not> own_grant_option (tablePrivileges db) (key\<lparr>tk_Role := g\<rparr>) p)"
proof -
  obtain r where r: "has_grant_option n table_key_ops db (tablePrivileges db) p key = Some r"
    using table_access.grant_option_returns [OF no_cycles_priv [OF assms(1,2)] assms(3)] by blast
  have ops: "key_role table_key_ops = tk_Role" "with_role table_key_ops = (\<lambda>key g. key\<lparr>tk_Role := g\<rparr>)"
    "whole_schema table_key_ops key = Some key' \<Longrightarrow> key' = key\<lparr>tk_Name := []\<rparr>" for key key'
    by (auto simp: table_key_ops_def split: if_splits)
  show ?thesis
  proof (cases "r = 0")
    case True
    then show ?thesis
      using table_access.grant_option_none [OF r [unfolded True]] assms(4) r
      by (simp add: HasTablePrivilegeGrantOption_def ops)
  next
    case False
    then show ?thesis
      using table_access.grant_option_role [OF r False] r
      by (auto simp: HasTablePrivilegeGrantOption_def ops(1,2) dest!: ops(3))
  qed
qed

theorem grant_option_search_witness:
  "HasTablePrivilegeGrantOption 4 demo_db alice_table Privilege_SELECT = Some 0 \<and>
   \<not> own_grant_option (tablePrivileges demo_db) alice_table Privilege_SELECT"
proof -
  have "(priv_edge demo_db)\<^sup>*\<^sup>* 2 g \<Longrightarrow> g \<noteq> 0" for g
    by (induction rule: rtranclp_induct) (auto simp: demo_priv_edges)
  then have "\<forall>g. (priv_edge demo_db)\<^sup>*\<^sup>* (tk_Role alice_table) g \<longrightarrow> g \<noteq> 0" by (simp add: alice_table_def)
  moreover have "check_depth table_key_ops demo_db alice_table < 4"
    by (simp add: check_depth_def demo_descendants table_key_ops_def alice_table_def)
  moreover have "HasTablePrivilegeGrantOption 4 demo_db alice_table Privilege_SELECT = Some 0" by code_simp
  ultimately show ?thesis
    using grant_option_search [OF demo_ok_db, of alice_table 4 Privilege_SELECT]
    by (auto simp: alice_table_def)
qed

end
