(* ===== verification/Auth_Role_Props.thy ===== *)
theory Auth_Role_Props
  imports Auth_Props
begin

text \<open>
  Properties of memberships and of the maps of roles.
\<close>

section \<open>Lemmas\<close>

lemma groups_of_update:
  "groups_of (db\<lparr>roleMembership := gm_set m gm (roleMembership db)\<rparr>) a = (if a = m then gm else groups_of db a)"
  "groups_of (db\<lparr>roleMembership := gm_del m (roleMembership db)\<rparr>) a = (if a = m then [] else groups_of db a)"
  by (auto simp: groups_of_def)

lemma groups_of_remove:
  "groups_of (RemoveMemberFromGroup db m g False) a = (if a = m then gm_del g (groups_of db m) else groups_of db a)"
  by (auto simp: RemoveMemberFromGroup_def Let_def groups_of_update split: option.splits)
    (auto simp: groups_of_def)

lemma membership_ok_remove:
  assumes "membership_ok db"
  shows "membership_ok (RemoveMemberFromGroup db m g False)"
  using assms unfolding membership_ok_get
  by (auto simp: RemoveMemberFromGroup_def Let_def split: option.splits if_splits)

text \<open>The names and the ids of roles are inverse to each other, and no role has the id 0.\<close>

definition roles_ok :: "Database \<Rightarrow> bool" where
  "roles_ok db \<longleftrightarrow> gm_wf (rolesByName db) \<and> gm_wf (rolesByID db) \<and>
     (\<forall>name i. gm_get (rolesByName db) name = Some i \<longleftrightarrow>
        (\<exists>r. gm_get (rolesByID db) i = Some r \<and> role_Name r = name)) \<and>
     (\<forall>i r. gm_get (rolesByID db) i = Some r \<longrightarrow> role_id r = i \<and> i \<noteq> 0)"

lemma roles_okD:
  assumes "roles_ok db"
  shows "gm_wf (rolesByName db)" "gm_wf (rolesByID db)"
    "gm_get (rolesByName db) name = Some i \<longleftrightarrow> (\<exists>r. gm_get (rolesByID db) i = Some r \<and> role_Name r = name)"
    "gm_get (rolesByID db) i = Some r \<Longrightarrow> role_id r = i"
    "gm_get (rolesByID db) i = Some r \<Longrightarrow> i \<noteq> 0"
    "gm_get (rolesByID db) i = Some r \<Longrightarrow> gm_get (rolesByName db) (role_Name r) = Some i"
  using assms unfolding roles_ok_def by auto

text \<open>Replacing what one id and its name stand for keeps the maps inverse.\<close>

lemma inverse_maps_update:
  assumes inv: "\<And>name i. N name = Some i \<longleftrightarrow> (\<exists>r. I i = Some r \<and> f r = name)"
    and free: "N (f role) \<in> {None, Some k}"
    and N': "\<And>name. N' name = (if name = f role then Some k else if I k \<noteq> None \<and> name = f (the (I k)) then None else N name)"
    and I': "\<And>i. I' i = (if i = k then Some role else I i)"
  shows "N' name = Some i \<longleftrightarrow> (\<exists>r. I' i = Some r \<and> f r = name)"
proof (cases "i = k")
  case True
  have "N name = Some k \<Longrightarrow> I k \<noteq> None \<and> name = f (the (I k))" using inv by auto
  then show ?thesis using True by (auto simp: N' I')
next
  case False
  have "name \<noteq> f role" "\<not> (I k \<noteq> None \<and> name = f (the (I k)))" if "N name = Some i"
    using that False free inv [of name k] by auto
  then show ?thesis using False inv [of name i] by (auto simp: N' I')
qed

lemma roles_ok_SetRole:
  assumes "roles_ok db" and "role_id role \<noteq> 0"
    and "gm_get (rolesByName db) (role_Name role) \<in> {None, Some (role_id role)}"
  shows "roles_ok (SetRole db role)"
proof -
  note ok = roles_okD [OF assms(1)]
  have N: "gm_get (rolesByName (SetRole db role)) name = (if name = role_Name role then Some (role_id role)
      else if gm_get (rolesByID db) (role_id role) \<noteq> None \<and> name = role_Name (the (gm_get (rolesByID db) (role_id role)))
      then None else gm_get (rolesByName db) name)" for name
    using assms(2) by (auto simp: SetRole_def Let_def split: option.splits)
  have I: "gm_get (rolesByID (SetRole db role)) i = (if i = role_id role then Some role else gm_get (rolesByID db) i)" for i
    using assms(2) by (simp add: SetRole_def Let_def)
  have "gm_wf (rolesByName (SetRole db role))" "gm_wf (rolesByID (SetRole db role))"
    using ok(1,2) assms(2) by (simp_all add: SetRole_def Let_def split: option.splits)
  moreover have "gm_get (rolesByName (SetRole db role)) name = Some i \<longleftrightarrow>
      (\<exists>r. gm_get (rolesByID (SetRole db role)) i = Some r \<and> role_Name r = name)" for name i
    by (rule inverse_maps_update [OF ok(3) assms(3) N I])
  ultimately show ?thesis using ok(4,5) assms(2) by (auto simp: roles_ok_def I)
qed

lemma roles_ok_RenameRole:
  assumes "roles_ok db" and "gm_get (rolesByName db) old = Some i"
    and "gm_get (rolesByName db) new = None \<or> new = old"
  shows "roles_ok (RenameRole db old new)"
proof -
  note ok = roles_okD [OF assms(1)]
  obtain r where r: "gm_get (rolesByID db) i = Some r" "role_Name r = old" using ok(3) assms(2) by auto
  let ?role = "r\<lparr>role_Name := new\<rparr>"
  have N: "gm_get (rolesByName (RenameRole db old new)) name = (if name = role_Name ?role then Some i
      else if gm_get (rolesByID db) i \<noteq> None \<and> name = role_Name (the (gm_get (rolesByID db) i))
      then None else gm_get (rolesByName db) name)" for name
    using assms(2) r by (simp add: RenameRole_def)
  have I: "gm_get (rolesByID (RenameRole db old new)) j = (if j = i then Some ?role else gm_get (rolesByID db) j)" for j
    using assms(2) r by (simp add: RenameRole_def role_by_id_def)
  have free: "gm_get (rolesByName db) (role_Name ?role) \<in> {None, Some i}" using assms(2,3) by auto
  have "gm_wf (rolesByName (RenameRole db old new))" "gm_wf (rolesByID (RenameRole db old new))"
    using ok(1,2) assms(2) by (simp_all add: RenameRole_def)
  moreover have "gm_get (rolesByName (RenameRole db old new)) name = Some j \<longleftrightarrow>
      (\<exists>r. gm_get (rolesByID (RenameRole db old new)) j = Some r \<and> role_Name r = name)" for name j
    by (rule inverse_maps_update [OF ok(3) free N I])
  ultimately show ?thesis using ok(4,5) [of i r] ok(4,5) r by (auto simp: roles_ok_def I)
qed

lemma roles_ok_DropRole:
  assumes "roles_ok db"
  shows "roles_ok (DropRole db name)"
proof (cases "gm_get (rolesByName db) name")
  case (Some i)
  note ok = roles_okD [OF assms]
  have D: "DropRole db name = db\<lparr>rolesByName := gm_del name (rolesByName db), rolesByID := gm_del i (rolesByID db)\<rparr>"
    using Some by (simp add: DropRole_def)
  have "gm_get (gm_del name (rolesByName db)) n = Some j \<longleftrightarrow>
      (\<exists>r. gm_get (gm_del i (rolesByID db)) j = Some r \<and> role_Name r = n)" for n j
    using ok(3) [of n j] ok(3) [of name i] ok(3) [of n i] ok(3) [of name j] Some by auto
  then show ?thesis using ok(1,2,4,5) unfolding roles_ok_def D by (auto split: if_splits)
qed (use assms in \<open>simp add: DropRole_def\<close>)

section \<open>Properties of memberships\<close>

text \<open>C36. Without cycles \<open>IsRoleAMember\<close> returns, at a depth that the groups of the member bound: the group if
  the member reaches it, or a superuser, through memberships, and the invalid id otherwise.\<close>

theorem membership_decided:
  assumes "g \<noteq> 0" and "no_cycles db" and "card (descendants (member_edge db) m) < n"
  shows "\<exists>inherits admin. IsRoleAMember n db m g =
    Some (if \<exists>x. (member_edge db)\<^sup>*\<^sup>* m x \<and> (x = g \<or> IsSuperUser db x) then g else 0, inherits, admin)"
  using IsRoleAMember_correct [OF assms] by (simp add: member_of_def)

lemma demo_member_descendants: "card (descendants (member_edge demo_db) r) < 2"
proof -
  have "descendants (member_edge demo_db) r \<subseteq> {3}"
    unfolding descendants_def by (auto simp: demo_edges elim: tranclp.cases)
  then have "card (descendants (member_edge demo_db) r) \<le> card {3 :: RoleID}" by (rule card_mono [rotated]) simp
  then show ?thesis by simp
qed

theorem membership_decided_witness:
  "map_option fst (IsRoleAMember 2 demo_db 2 3) = Some 3 \<and> (\<exists>x. (member_edge demo_db)\<^sup>*\<^sup>* 2 x \<and> (x = 3 \<or> IsSuperUser demo_db x))"
proof -
  have "IsRoleAMember 2 demo_db 2 3 = Some (3, True, False)" by code_simp
  then show ?thesis
    using membership_decided [of 3 demo_db 2 2, OF _ demo_ok_db(2) demo_member_descendants] by (auto split: if_splits)
qed

text \<open>C35. Adding a member to a group that is not a superuser, when memberships are well-formed and free of cycles, the
  member is a valid id and the recursion is allowed more levels than there are roles reachable from the group: it is
  refused by a panic exactly if the group is or belongs, through any number of memberships, to the member itself, so that
  the membership would close a cycle, or to a superuser, which the test takes for a member of every role, so that
  this addition is refused although it closes no cycle. Every other addition is made, adds exactly that membership, leaves the
  roles alone and keeps memberships well-formed and free of cycles.\<close>

theorem add_member_keeps_acyclic:
  assumes "membership_ok db" and "no_cycles db" and "member \<noteq> 0" and "\<not> IsSuperUser db grp"
    and "card (descendants (member_edge db) grp) < n"
  shows "if \<exists>x. (member_edge db)\<^sup>*\<^sup>* grp x \<and> (x = member \<or> IsSuperUser db x)
    then AddMemberToGroup n db member grp admin granter = Panics
    else \<exists>db'. AddMemberToGroup n db member grp admin granter = Done db' \<and> membership_ok db' \<and> no_cycles db' \<and>
      rolesByID db' = rolesByID db \<and>
      (\<forall>a b. member_edge db' a b \<longleftrightarrow> member_edge db a b \<or> (a = member \<and> b = grp))"
proof -
  obtain inh adm where r: "IsRoleAMember n db grp member = Some (if member_of db grp member then member else 0, inh, adm)"
    using IsRoleAMember_correct [OF assms(3,2,5)] by blast
  show ?thesis
  proof (cases "member_of db grp member")
    case True
    then show ?thesis
      using r assms(3,4) by (simp add: AddMemberToGroup_def RoleID_IsValid_def IsSuperUser_def [symmetric] member_of_def)
  next
    case False
    then have "member \<noteq> grp" by (auto simp: member_of_def)
    then obtain db' where db': "AddMemberToGroup n db member grp admin granter = Done db'"
      using r False by (auto simp: AddMemberToGroup_def RoleID_IsValid_def)
    with AddMemberToGroup_keeps [OF assms(1-4) db'] False show ?thesis by (simp add: member_of_def)
  qed
qed

theorem add_member_keeps_acyclic_witness:
  "AddMemberToGroup 2 demo_db 3 2 False 4 = Panics \<and>
   (\<exists>db'. AddMemberToGroup 2 demo_db 1 3 False 4 = Done db' \<and> no_cycles db')"
proof -
  have panics: "AddMemberToGroup 2 demo_db 3 2 False 4 = Panics" by code_simp
  have only: "(member_edge demo_db)\<^sup>*\<^sup>* 3 x \<Longrightarrow> x = 3" for x
    by (induction rule: rtranclp_induct) (auto simp: demo_edges)
  have "\<not> (\<exists>x. (member_edge demo_db)\<^sup>*\<^sup>* 3 x \<and> (x = 1 \<or> IsSuperUser demo_db x))"
    using only [of 1] only [of 4] by (auto simp: demo_superusers)
  then show ?thesis
    using add_member_keeps_acyclic [of demo_db 1 3 2 False 4] demo_ok_db demo_member_descendants panics
    by (auto simp: demo_superusers split: if_splits)
qed

text \<open>Removing a member from a group removes exactly that membership and keeps memberships well-formed and
  free of cycles; revoking only the admin option of an existing membership keeps it and clears its option.\<close>

theorem remove_member:
  assumes "membership_ok db" and "no_cycles db"
  shows "membership_ok (RemoveMemberFromGroup db m g False) \<and> no_cycles (RemoveMemberFromGroup db m g False) \<and>
    (\<forall>a b. member_edge (RemoveMemberFromGroup db m g False) a b \<longleftrightarrow> member_edge db a b \<and> \<not> (a = m \<and> b = g)) \<and>
    (\<forall>v. gm_get (groups_of db m) g = Some v \<longrightarrow>
      groups_of (RemoveMemberFromGroup db m g True) m = gm_set g (v\<lparr>WithAdminOption := False\<rparr>) (groups_of db m))"
proof -
  let ?db = "RemoveMemberFromGroup db m g False"
  have ok: "membership_ok ?db" by (rule membership_ok_remove [OF assms(1)])
  have edges: "member_edge ?db a b \<longleftrightarrow> member_edge db a b \<and> \<not> (a = m \<and> b = g)" for a b
    using member_edge_get [OF ok] member_edge_get [OF assms(1)] by (simp add: groups_of_remove)
  have "(member_edge ?db)\<^sup>+\<^sup>+ a b \<Longrightarrow> (member_edge db)\<^sup>+\<^sup>+ a b" for a b
    by (induction rule: tranclp_induct) (auto simp: edges intro: tranclp.intros)
  then have "no_cycles ?db" using assms(2) by (auto simp: no_cycles_def)
  moreover have "groups_of (RemoveMemberFromGroup db m g True) m = gm_set g (v\<lparr>WithAdminOption := False\<rparr>) (groups_of db m)"
    if "gm_get (groups_of db m) g = Some v" for v
    using that by (auto simp: RemoveMemberFromGroup_def Let_def groups_of_update(1) groups_of_def split: option.splits)
  ultimately show ?thesis using ok edges by blast
qed

theorem remove_member_witness:
  "\<not> member_edge (RemoveMemberFromGroup demo_db 2 3 False) 2 3"
  using remove_member [OF demo_ok_db, of 2 3] by blast

text \<open>Revoking the admin option on a group that the member does not belong to makes it inherit from that
  group: the entry that it adds has no member and no group, but the checks take the groups from the keys.\<close>

theorem revoke_admin_option_adds_group:
  assumes "gm_get (rolesByID db) m = Some r" and "InheritPrivileges r"
    and "gm_get (roleMembership db) m \<noteq> None" and "gm_get (groups_of db m) g = None"
  shows "\<not> priv_edge db m g \<and> priv_edge (RemoveMemberFromGroup db m g True) m g"
proof -
  have "priv_edge db m g \<longleftrightarrow> gm_get (groups_of db m) g \<noteq> None"
    using assms(1,2) by (simp add: GetAllGroupsWithMember_def gm_get_keys)
  moreover have "groups_of (RemoveMemberFromGroup db m g True) m = gm_set g zero_membership (groups_of db m)"
    using assms(3,4)
    by (auto simp: RemoveMemberFromGroup_def Let_def groups_of_update(1) groups_of_def zero_membership_def split: option.splits)
  moreover have "rolesByID (RemoveMemberFromGroup db m g True) = rolesByID db"
    by (simp add: RemoveMemberFromGroup_def Let_def split: option.splits)
  ultimately show ?thesis using assms by (simp add: GetAllGroupsWithMember_def gm_get_keys)
qed

theorem revoke_admin_option_adds_group_witness:
  "HasTablePrivilege 4 demo_db alice_table Privilege_UPDATE = Some False \<and>
   HasTablePrivilege 4 (RemoveMemberFromGroup demo_db 2 4 True) alice_table Privilege_UPDATE = Some True \<and>
   priv_edge (RemoveMemberFromGroup demo_db 2 4 True) 2 4"
proof -
  have "gm_get (rolesByID demo_db) 2 = Some (demo_role 2 ''alice'' False)" by code_simp
  moreover have "InheritPrivileges (demo_role 2 ''alice'' False)" by code_simp
  moreover have "gm_get (roleMembership demo_db) 2 \<noteq> None" "gm_get (groups_of demo_db 2) 4 = None"
    by (simp_all add: demo_membership gm_get_def groups_of_def)
  moreover have "HasTablePrivilege 4 demo_db alice_table Privilege_UPDATE = Some False"
    "HasTablePrivilege 4 (RemoveMemberFromGroup demo_db 2 4 True) alice_table Privilege_UPDATE = Some True"
    by code_simp+
  ultimately show ?thesis using revoke_admin_option_adds_group [of demo_db 2 "demo_role 2 ''alice'' False" 4] by simp
qed

definition two_superusers :: Database where
  "two_superusers = foldl SetRole newEmptyDatabase [demo_role 4 ''root'' True, demo_role 5 ''admin'' True]"

definition mutual_members :: Database where
  "mutual_members = two_superusers\<lparr>roleMembership :=
     [(4, [(5, \<lparr>mv_Member = 4, mv_Group = 5, WithAdminOption = False, mv_GrantedBy = 4\<rparr>)]),
      (5, [(4, \<lparr>mv_Member = 5, mv_Group = 4, WithAdminOption = False, mv_GrantedBy = 4\<rparr>)])]\<rparr>"

definition former_superusers :: Database where
  "former_superusers = foldl SetRole mutual_members [demo_role 4 ''root'' False, demo_role 5 ''admin'' False]"

text \<open>
  Two superusers can be made members of each other, since the test against cycles exempts groups that
  are superusers. Once both have lost that attribute, no depth of calls is enough for a privilege check.
\<close>

theorem superuser_cycle_diverges:
  "AddMemberToGroup 3 two_superusers 4 5 False 4 =
     Done (two_superusers\<lparr>roleMembership :=
       [(4, [(5, \<lparr>mv_Member = 4, mv_Group = 5, WithAdminOption = False, mv_GrantedBy = 4\<rparr>)])]\<rparr>) \<and>
   AddMemberToGroup 3 (two_superusers\<lparr>roleMembership :=
       [(4, [(5, \<lparr>mv_Member = 4, mv_Group = 5, WithAdminOption = False, mv_GrantedBy = 4\<rparr>)])]\<rparr>) 5 4 False 4 =
     Done mutual_members \<and>
   HasTablePrivilege n former_superusers \<lparr>tk_Role = 4, tk_Name = gs ''film'', tk_Schema = gs ''public''\<rparr> Privilege_SELECT = None"
proof -
  have groups: "GetAllGroupsWithMember former_superusers 4 True = [5]" "GetAllGroupsWithMember former_superusers 5 True = [4]"
    by code_simp+
  have super: "\<not> IsSuperUser former_superusers 4" "\<not> IsSuperUser former_superusers 5" by code_simp+
  have empty: "tablePrivileges former_superusers = []" by code_simp
  let ?k = "\<lambda>r n. \<lparr>tk_Role = r, tk_Name = n, tk_Schema = gs ''public''\<rparr>"
  let ?S = "{?k r n | r n. r \<in> {4, 5}}"
  have children: "set (key_children table_key_ops former_superusers y) \<subseteq> ?S \<and> key_children table_key_ops former_superusers y \<noteq> []
      \<and> \<not> key_goal table_key_ops former_superusers [] Privilege_SELECT y" if "y \<in> ?S" for y
    using that groups super by (auto simp: key_children_def table_key_ops_def key_goal_def own_privilege_def granted_def)
  have "has_privilege n table_key_ops former_superusers [] Privilege_SELECT (?k 4 (gs ''film'')) = None"
    by (rule table_access.check.search_diverges [of ?S]) (use children in auto)
  then have "HasTablePrivilege n former_superusers (?k 4 (gs ''film'')) Privilege_SELECT = None"
    by (simp add: HasTablePrivilege_def empty)
  moreover have "AddMemberToGroup 3 two_superusers 4 5 False 4 =
     Done (two_superusers\<lparr>roleMembership :=
       [(4, [(5, \<lparr>mv_Member = 4, mv_Group = 5, WithAdminOption = False, mv_GrantedBy = 4\<rparr>)])]\<rparr>)" by code_simp
  moreover have "AddMemberToGroup 3 (two_superusers\<lparr>roleMembership :=
       [(4, [(5, \<lparr>mv_Member = 4, mv_Group = 5, WithAdminOption = False, mv_GrantedBy = 4\<rparr>)])]\<rparr>) 5 4 False 4 =
     Done mutual_members" by code_simp
  ultimately show ?thesis by blast
qed

section \<open>Properties of the maps of roles\<close>

text \<open>The maps of roles stay inverse to each other: setting a role under a name that is free or its own,
  renaming to a free name and dropping a role keep that, and what was set is what is found.\<close>

theorem role_maps_inverse:
  assumes "roles_ok db"
  shows "(role_id role \<noteq> 0 \<and> gm_get (rolesByName db) (role_Name role) \<in> {None, Some (role_id role)} \<longrightarrow>
      roles_ok (SetRole db role) \<and> GetRole (SetRole db role) (role_Name role) = role) \<and>
    (RoleExists db old \<and> (\<not> RoleExists db new \<or> new = old) \<longrightarrow>
      roles_ok (RenameRole db old new) \<and> GetRole (RenameRole db old new) new = (GetRole db old)\<lparr>role_Name := new\<rparr>) \<and>
    roles_ok (DropRole db old) \<and> \<not> RoleExists (DropRole db old) old"
proof (intro conjI impI)
  assume "role_id role \<noteq> 0 \<and> gm_get (rolesByName db) (role_Name role) \<in> {None, Some (role_id role)}"
  then show "roles_ok (SetRole db role)" "GetRole (SetRole db role) (role_Name role) = role"
    using roles_ok_SetRole [OF assms] by (simp_all add: GetRole_def SetRole_def Let_def role_by_id_def)
next
  assume *: "RoleExists db old \<and> (\<not> RoleExists db new \<or> new = old)"
  then obtain i where i: "gm_get (rolesByName db) old = Some i" by (auto simp: RoleExists_def)
  show "roles_ok (RenameRole db old new)"
    using roles_ok_RenameRole [OF assms i] * by (auto simp: RoleExists_def)
  show "GetRole (RenameRole db old new) new = (GetRole db old)\<lparr>role_Name := new\<rparr>"
    using i by (simp add: GetRole_def RenameRole_def role_by_id_def)
next
  show "roles_ok (DropRole db old)" by (rule roles_ok_DropRole [OF assms])
  show "\<not> RoleExists (DropRole db old) old" by (simp add: RoleExists_def DropRole_def split: option.splits)
qed

lemma roles_ok_empty: "roles_ok newEmptyDatabase"
  by (simp add: roles_ok_def newEmptyDatabase_def)

theorem role_maps_inverse_witness:
  "roles_ok (SetRole newEmptyDatabase (demo_role 7 ''bob'' False)) \<and>
   GetRole (SetRole newEmptyDatabase (demo_role 7 ''bob'' False)) (gs ''bob'') = demo_role 7 ''bob'' False"
  using role_maps_inverse [OF roles_ok_empty, of "demo_role 7 ''bob'' False"]
  by (simp add: newEmptyDatabase_def demo_role_def createDefaultRoleWithoutID_def)

end
