(* ===== verification/Auth_Store.thy ===== *)
theory Auth_Store
  imports Auth_Codec Auth_Role_Props
begin

text \<open>
  Properties of the stored authorization database: it is read back as it was, the counter of role ids ends up
  above every stored role, and the operations keep the database storable.
\<close>

section \<open>Lemmas\<close>

lemma option_eq_iff_Some: "(\<And>i. x = Some i \<longleftrightarrow> y = Some i) \<Longrightarrow> x = y"
  by (cases x; cases y) auto

lemma rebuilt_names:
  assumes "roles_ok db"
  shows "gm_get (rolesByName (rebuild_names db)) name = gm_get (rolesByName db) name"
proof -
  note ok = roles_okD [OF assms]
  let ?L = "map (\<lambda>x. (role_Name x, role_id x)) (map snd (rolesByID db))"
  have mem: "(i, r) \<in> set (rolesByID db) \<longleftrightarrow> gm_get (rolesByID db) i = Some r" for i r
    using gm_get_in_set [OF ok(2)] by simp
  have "inj_on (role_Name \<circ> snd) (set (rolesByID db))"
  proof (rule inj_onI, clarsimp)
    fix i r j s assume "(i, r) \<in> set (rolesByID db)" "(j, s) \<in> set (rolesByID db)" "role_Name r = role_Name s"
    then show "i = j \<and> r = s" using ok(6) mem by (metis option.inject)
  qed
  moreover have "distinct (rolesByID db)" using ok(2) by (simp add: gm_wf_def distinct_map)
  ultimately have "distinct (map (role_Name \<circ> snd) (rolesByID db))" by (simp add: distinct_map)
  then have wf: "gm_wf ?L" by (simp add: gm_wf_def comp_def)
  then have names: "rolesByName (rebuild_names db) = ?L" by (simp add: rebuild_names_def gm_of_list_wf del: map_map)
  have "gm_get ?L name = Some i \<longleftrightarrow> gm_get (rolesByName db) name = Some i" for i
  proof -
    have "gm_get ?L name = Some i \<longleftrightarrow> (\<exists>j r. (j, r) \<in> set (rolesByID db) \<and> role_Name r = name \<and> role_id r = i)"
      unfolding gm_get_in_set [OF wf] by force
    also have "\<dots> \<longleftrightarrow> (\<exists>r. gm_get (rolesByID db) i = Some r \<and> role_Name r = name)" using mem ok(4) by metis
    finally show ?thesis by (simp add: ok(3))
  qed
  then show ?thesis unfolding names by (rule option_eq_iff_Some)
qed

lemma max_role_id_fold: "i \<in> set (map fst ps) \<or> i \<le> acc \<Longrightarrow> i \<le> foldl (\<lambda>mx i. if i > mx then i else mx) acc (map fst ps)"
  for i :: uint64
proof (induction ps arbitrary: acc)
  case (Cons p ps)
  then show ?case using Cons.IH [of "if fst p > acc then fst p else acc"]
    by (auto simp: not_less intro: order.trans [OF _ less_imp_le])
qed simp

lemma max_role_id_ge: "gm_get (rolesByID db) i = Some r \<Longrightarrow> i \<le> max_role_id db"
  unfolding max_role_id_def by (rule max_role_id_fold) (force dest: gm_get_SomeD)

lemma Database_deserialize_serialize:
  assumes "storable db" and "length (Database_serialize db) < 2 ^ 63"
  shows "Database_deserialize (Database_serialize db) spare counter =
    Some (Inr (rebuild_names db, if counter \<ge> max_role_id db then counter else max_role_id db))"
proof -
  let ?v = "be_put 4 (1 :: uint32)"
  have len: "length ?v + length (database_enc db) < 2 ^ 63" using assms(2) by (simp add: Database_serialize_enc)
  have "Reader_Uint32 (NewReader (?v @ database_enc db) spare) = Some (1, reader_at ?v (database_enc db) spare)"
    using readsD [OF uint32_codec.rd_enc [OF TrueI], of "[]" 1 "database_enc db" spare] len by (simp add: NewReader_at)
  moreover have "deserializeV1 (reader_at ?v (database_enc db) spare) =
      Some (rebuild_names db, reader_at (?v @ database_enc db) [] spare)"
    using readsD [OF reads_database [OF assms(1)], of ?v "[]" spare] len by simp
  moreover have "max_role_id (rebuild_names db) = max_role_id db" by (simp add: max_role_id_def rebuild_names_def)
  moreover have "\<not> length (?v @ database_enc db) < 4" by (simp add: length_be_put)
  ultimately show ?thesis unfolding Database_serialize_enc by (simp add: Database_deserialize_def Let_def)
qed

section \<open>Well-formed tables\<close>

text \<open>
  The invariant of a privilege table: every value stands under its own key, every grant under its own
  privilege, and nothing that is empty is kept.
\<close>

definition grants_wf :: "Privilege \<Rightarrow> (GrantedPrivilege, bool) gomap \<Rightarrow> bool" where
  "grants_wf p m \<longleftrightarrow> gm_wf m \<and> m \<noteq> [] \<and> (\<forall>(gp, w) \<in> set m. gp_Privilege gp = p)"

definition privileges_wf :: "privilege_map \<Rightarrow> bool" where
  "privileges_wf ps \<longleftrightarrow> gm_wf ps \<and> (\<forall>(p, m) \<in> set ps. grants_wf p m)"

definition table_wf :: "'k privileges \<Rightarrow> bool" where
  "table_wf data \<longleftrightarrow> gm_wf data \<and> (\<forall>(k, v) \<in> set data. pv_Key v = k \<and> Privileges v \<noteq> [] \<and> privileges_wf (Privileges v))"

lemma gm_wf_ball:
  "gm_wf m \<and> (\<forall>(k, v) \<in> set m. P k v) \<longleftrightarrow> gm_wf m \<and> (\<forall>k v. gm_get m k = Some v \<longrightarrow> P k v)"
  using gm_ball by blast

lemma grants_wf_iff: "grants_wf p m \<longleftrightarrow> gm_wf m \<and> m \<noteq> [] \<and> (\<forall>gp w. gm_get m gp = Some w \<longrightarrow> gp_Privilege gp = p)"
  unfolding grants_wf_def using gm_ball [of m "\<lambda>gp w. gp_Privilege gp = p"] by blast

lemma privileges_wf_iff: "privileges_wf ps \<longleftrightarrow> gm_wf ps \<and> (\<forall>p m. gm_get ps p = Some m \<longrightarrow> grants_wf p m)"
  unfolding privileges_wf_def by (rule gm_wf_ball)

lemma table_wf_iff: "table_wf data \<longleftrightarrow> gm_wf data \<and>
    (\<forall>k v. gm_get data k = Some v \<longrightarrow> pv_Key v = k \<and> Privileges v \<noteq> [] \<and> privileges_wf (Privileges v))"
  unfolding table_wf_def by (rule gm_wf_ball)

lemma grants_wf_set: "grants_wf p m \<or> m = [] \<Longrightarrow> gp_Privilege gp = p \<Longrightarrow> grants_wf p (gm_set gp w m)"
  by (auto simp: grants_wf_iff)

lemma grants_wf_clear: "grants_wf p m \<Longrightarrow> grants_wf p (map (\<lambda>(k, _). (k, False)) m)"
  by (auto simp: grants_wf_def gm_wf_def comp_def case_prod_unfold)

lemma grants_wf_del: "grants_wf p m \<Longrightarrow> gm_del gp m \<noteq> [] \<Longrightarrow> grants_wf p (gm_del gp m)"
  by (auto simp: grants_wf_iff)

lemma privileges_wf_set: "privileges_wf ps \<Longrightarrow> grants_wf p m \<Longrightarrow> privileges_wf (gm_set p m ps)"
  by (auto simp: privileges_wf_iff)

lemma privileges_wf_del: "privileges_wf ps \<Longrightarrow> privileges_wf (gm_del p ps)"
  by (auto simp: privileges_wf_iff)

lemma table_wf_set:
  "table_wf data \<Longrightarrow> pv_Key v = key \<Longrightarrow> Privileges v \<noteq> [] \<Longrightarrow> privileges_wf (Privileges v) \<Longrightarrow> table_wf (gm_set key v data)"
  by (auto simp: table_wf_iff)

lemma table_wf_del: "table_wf data \<Longrightarrow> table_wf (gm_del key data)"
  by (auto simp: table_wf_iff)

lemma table_wf_add: 
  assumes "table_wf data"
  shows "table_wf (add_privilege key gp w data)"
proof -
  let ?v = "case gm_get data key of Some v \<Rightarrow> v | None \<Rightarrow> \<lparr>pv_Key = key, Privileges = []\<rparr>"
  let ?m = "case gm_get (Privileges ?v) (gp_Privilege gp) of Some m \<Rightarrow> m | None \<Rightarrow> []"
  have v: "pv_Key ?v = key" "privileges_wf (Privileges ?v)"
    using assms by (auto simp: table_wf_iff privileges_wf_iff split: option.split)
  then have "grants_wf (gp_Privilege gp) ?m \<or> ?m = []" by (auto simp: privileges_wf_iff split: option.split)
  then have "privileges_wf (gm_set (gp_Privilege gp) (gm_set gp w ?m) (Privileges ?v))"
    by (intro privileges_wf_set v(2) grants_wf_set) simp_all
  then show ?thesis unfolding add_privilege_def Let_def by (intro table_wf_set assms) (simp_all add: v(1))
qed

lemma table_wf_remove:
  assumes "table_wf data"
  shows "table_wf (remove_privilege key gp only data)"
proof (cases "gm_get data key")
  case (Some v)
  then have v: "pv_Key v = key" "privileges_wf (Privileges v)" using assms by (auto simp: table_wf_iff)
  show ?thesis
  proof (cases "gm_get (Privileges v) (gp_Privilege gp)")
    case None
    then show ?thesis using \<open>gm_get data key = Some v\<close> v assms
      by (auto simp: remove_privilege_def Let_def intro!: table_wf_set table_wf_del)
  next
    case (Some m)
    then have m: "grants_wf (gp_Privilege gp) m" using v(2) by (simp add: privileges_wf_iff)
    show ?thesis
      using \<open>gm_get data key = Some v\<close> Some v(1) assms
      by (auto simp: remove_privilege_def Let_def
          intro!: table_wf_set table_wf_del privileges_wf_set privileges_wf_del v(2) grants_wf_set grants_wf_clear
            grants_wf_del m disjI1 [OF m])
  qed
qed (simp add: remove_privilege_def assms)

section \<open>The small database is storable\<close>

lemma demo_roles_ok: "roles_ok demo_db"
proof -
  have "rolesByID demo_db = [(1, demo_role 1 ''public'' False), (2, demo_role 2 ''alice'' False),
      (3, demo_role 3 ''staff'' False), (4, demo_role 4 ''root'' True)]" by code_simp
  moreover have "rolesByName demo_db = [(gs ''public'', 1), (gs ''alice'', 2), (gs ''staff'', 3), (gs ''root'', 4)]" by code_simp
  ultimately show ?thesis
    by (auto simp: roles_ok_def gm_wf_def gm_get_def demo_role_def createDefaultRoleWithoutID_def gs_def)
qed

lemma demo_tables:
  "databasePrivileges demo_db = []" "schemaPrivileges demo_db = []" "sequencePrivileges demo_db = []"
  "routinePrivileges demo_db = []"
  "tablePrivileges demo_db = [(\<lparr>tk_Role = 3, tk_Name = [], tk_Schema = gs ''public''\<rparr>,
     \<lparr>pv_Key = \<lparr>tk_Role = 3, tk_Name = [], tk_Schema = gs ''public''\<rparr>, Privileges = [(Privilege_SELECT, [(demo_grant, False)])]\<rparr>)]"
  by code_simp+

lemma demo_storable: "storable demo_db"
proof -
  have "rolesByID demo_db = [(1, demo_role 1 ''public'' False), (2, demo_role 2 ''alice'' False),
      (3, demo_role 3 ''staff'' False), (4, demo_role 4 ''root'' True)]" by code_simp
  then show ?thesis
    by (simp add: storable_def demo_tables demo_membership table_ok_def value_ok_def priv_ok_def members_ok_def groups_ok_def
        gm_wf_def demo_role_def demo_grant_def)
qed

lemma demo_length: "length (Database_serialize demo_db) < 2 ^ 63"
proof -
  have "length (Database_serialize demo_db) < 1000" by code_simp
  then show ?thesis by simp
qed

section \<open>Properties\<close>

text \<open>C5. Storing and loading the authorization database: if its maps of roles by name and by id are inverse to each other,
  every role, privilege and membership stands under the key that it names itself, every count fits the 32 bits it is
  written with and the whole data is shorter than 2^63 bytes, then the bytes that \<open>serialize\<close> writes are read back by
  \<open>deserialize\<close> without error or panic, whatever the counter of role ids is. Roles, memberships and all
  privilege tables are the same, in the same order of the maps, and every name leads to the same role. A database with
  an entry under another key is not covered: revoking the admin option of a role that is no member leaves one.\<close>

theorem auth_round_trip:
  assumes "roles_ok db" and "storable db" and "length (Database_serialize db) < 2 ^ 63"
  shows "\<exists>db' counter'. Database_deserialize (Database_serialize db) spare counter = Some (Inr (db', counter')) \<and>
    db' = db\<lparr>rolesByName := rolesByName db'\<rparr> \<and>
    (\<forall>name. gm_get (rolesByName db') name = gm_get (rolesByName db) name)"
  using Database_deserialize_serialize [OF assms(2,3)] rebuilt_names [OF assms(1)]
  by (auto simp: rebuild_names_def)

theorem auth_round_trip_witness:
  "\<exists>db' counter'. Database_deserialize (Database_serialize demo_db) [] 0 = Some (Inr (db', counter')) \<and>
    db' = demo_db\<lparr>rolesByName := rolesByName db'\<rparr> \<and>
    (\<forall>name. gm_get (rolesByName db') name = gm_get (rolesByName demo_db) name)"
  by (rule auth_round_trip [OF demo_roles_ok demo_storable demo_length])

text \<open>Whatever bytes are loaded, the next role gets an id that no loaded role has (as long as the counter
  has not reached its last value), so that adding the role replaces none of them.\<close>

theorem load_gives_fresh_ids:
  assumes "Database_deserialize data spare counter = Some (Inr (db, counter'))" and "counter' \<noteq> -1"
  shows "counter \<le> counter' \<and> role_id (fst (CreateDefaultRole counter' name)) \<noteq> 0 \<and>
    gm_get (rolesByID db) (role_id (fst (CreateDefaultRole counter' name))) = None \<and>
    (\<forall>i. gm_get (rolesByID db) i \<noteq> None \<longrightarrow>
      gm_get (rolesByID (SetRole db (fst (CreateDefaultRole counter' name)))) i = gm_get (rolesByID db) i)"
proof -
  have c: "max_role_id db \<le> counter'" "counter \<le> counter'"
    using assms(1) by (auto simp: Database_deserialize_def Let_def split: if_splits bind_splits)
  have pos: "1 + counter' \<noteq> 0" using assms(2) by (simp add: add_eq_0_iff)
  have less: "counter' < counter' + 1" using unatSuc [OF pos] by (simp add: word_less_nat_alt add.commute)
  have "gm_get (rolesByID db) (counter' + 1) = None"
    using max_role_id_ge [of db "counter' + 1"] c(1) less by (metis not_None_eq leD order.trans)
  moreover have "counter' + 1 \<noteq> 0" using pos by (simp add: add.commute)
  ultimately show ?thesis using c by (auto simp: CreateDefaultRole_def SetRole_def Let_def)
qed

theorem load_gives_fresh_ids_witness:
  "\<exists>db counter. Database_deserialize (Database_serialize demo_db) [] 0 = Some (Inr (db, counter)) \<and>
    gm_get (rolesByID db) (role_id (fst (CreateDefaultRole counter (gs ''bob'')))) = None"
proof -
  have "max_role_id demo_db = 4" by code_simp
  then have load: "Database_deserialize (Database_serialize demo_db) [] 0 = Some (Inr (rebuild_names demo_db, 4))"
    using Database_deserialize_serialize [OF demo_storable demo_length, of "[]" 0] by simp
  show ?thesis using load_gives_fresh_ids [OF load, of "gs ''bob''"] load by auto
qed

text \<open>The operations keep the privilege tables well-formed: every value stands under its own key and
  every grant under its own privilege, and nothing empty stays behind after a revocation.\<close>

theorem tables_stay_well_formed:
  assumes "table_wf data"
  shows "table_wf (add_privilege key gp w data) \<and> table_wf (remove_privilege key gp only data)"
  using table_wf_add [OF assms] table_wf_remove [OF assms] by blast

theorem tables_stay_well_formed_witness:
  "table_wf (remove_privilege alice_table demo_grant False (tablePrivileges demo_db)) \<and>
   table_wf (add_privilege alice_table demo_grant True (tablePrivileges demo_db))"
proof -
  have "table_wf (tablePrivileges demo_db)"
    by (simp add: demo_tables table_wf_def privileges_wf_def grants_wf_def gm_wf_def demo_grant_def)
  from tables_stay_well_formed [OF this] show ?thesis by blast
qed

text \<open>Dropping a role keeps its privileges, and loading the stored database lowers the counter of a new
  process to the largest id that is left. So when the newest role is dropped and the server restarts, the
  next role that is created gets the id of the dropped role, and with it every privilege on tables that the
  dropped role had.\<close>

theorem dropped_role_id_reused:
  assumes "storable (DropRole db name)" and "length (Database_serialize (DropRole db name)) < 2 ^ 63"
    and "gm_get (rolesByName db) name = Some i" and "i = max_role_id (DropRole db name) + 1"
  shows "\<exists>db' counter'. Database_deserialize (Database_serialize (DropRole db name)) spare 0 = Some (Inr (db', counter')) \<and>
    role_id (fst (CreateDefaultRole counter' new)) = i \<and>
    (\<forall>t s p. own_privilege (tablePrivileges (SetRole db' (fst (CreateDefaultRole counter' new)))) \<lparr>tk_Role = i, tk_Name = t, tk_Schema = s\<rparr> p \<longleftrightarrow>
      own_privilege (tablePrivileges db) \<lparr>tk_Role = i, tk_Name = t, tk_Schema = s\<rparr> p)"
proof -
  have tables: "tablePrivileges (SetRole (rebuild_names (DropRole db name)) role) = tablePrivileges db" for role
    using assms(3) by (simp add: SetRole_def rebuild_names_def DropRole_def Let_def)
  show ?thesis
    using Database_deserialize_serialize [OF assms(1,2), of spare 0] assms(4)
    by (auto simp: tables CreateDefaultRole_def split: if_splits)
qed

definition temp_db :: Database where
  "temp_db = AddTablePrivilege (SetRole demo_db (demo_role 5 ''temp'' False))
     \<lparr>tk_Role = 5, tk_Name = gs ''film'', tk_Schema = gs ''public''\<rparr> demo_grant False"

theorem dropped_role_id_reused_witness:
  "\<exists>db' counter'. Database_deserialize (Database_serialize (DropRole temp_db (gs ''temp''))) [] 0 = Some (Inr (db', counter')) \<and>
    own_privilege (tablePrivileges (SetRole db' (fst (CreateDefaultRole counter' (gs ''bob'')))))
      \<lparr>tk_Role = role_id (fst (CreateDefaultRole counter' (gs ''bob''))), tk_Name = gs ''film'', tk_Schema = gs ''public''\<rparr> Privilege_SELECT"
proof -
  let ?db = "DropRole temp_db (gs ''temp'')"
  have tables: "databasePrivileges ?db = []" "schemaPrivileges ?db = []" "sequencePrivileges ?db = []"
    "routinePrivileges ?db = []" "roleMembership ?db = roleMembership demo_db" "rolesByID ?db = rolesByID demo_db" by code_simp+
  have table: "tablePrivileges ?db = add_privilege \<lparr>tk_Role = 5, tk_Name = gs ''film'', tk_Schema = gs ''public''\<rparr> demo_grant False
      (tablePrivileges demo_db)" by code_simp
  have "table_ok (tablePrivileges ?db)" unfolding table demo_tables
    by (simp add: table_ok_def value_ok_def priv_ok_def add_privilege_def Let_def gm_get_def gm_set_def gm_wf_def demo_grant_def)
  then have st: "storable ?db" using demo_storable by (simp add: storable_def tables) (simp add: table_ok_def)
  have "length (Database_serialize ?db) < 1000" by code_simp
  then have len: "length (Database_serialize ?db) < 2 ^ 63" by simp
  have i: "gm_get (rolesByName temp_db) (gs ''temp'') = Some 5" "5 = max_role_id ?db + 1" by code_simp+
  have "own_privilege (tablePrivileges temp_db) \<lparr>tk_Role = 5, tk_Name = gs ''film'', tk_Schema = gs ''public''\<rparr> Privilege_SELECT"
    by code_simp
  then show ?thesis using dropped_role_id_reused [OF st len i, of "[]" "gs ''bob''"] by auto
qed

end
