(* ===== verification/Auth_Handler.thy ===== *)
theory Auth_Handler
  imports Auth_Access
begin

text \<open>
  The authorization handler: \<open>src/server/auth/auth_handler.go\<close>, \<open>auth_information.go\<close> and \<open>src/core/schema.go\<close>. What
  the handler asks of the session, of the catalog of go-mysql-server and of Dolt is the record \<open>session\<close>. The
  record \<open>AuthInformation\<close> is what the parser attaches to a statement (\<open>vitess.AuthInformation\<close>). \<open>None\<close> as a
  result stands for a privilege check that does not return at the depth of calls; inside, \<open>None\<close> is
  permission and \<open>Some\<close> an error.
\<close>

section \<open>The session\<close>

datatype schema_error = NoSchemaSelected | SessionError

text \<open>
  \<open>LookupCurrentSchema\<close> is the result of the function of this name, which Dolt computes from the search path: an
  error, no schema, or a schema. \<open>system_function\<close> tells whether the lower-case form of a name is a key of
  \<open>framework.Catalog\<close>.
\<close>

record session =
  Client_User :: gostring
  GetCurrentDatabase :: gostring
  LookupCurrentSchema :: "schema_error + gostring option"
  HasDatabase :: "gostring \<Rightarrow> bool"
  system_function :: "gostring \<Rightarrow> bool"

definition GetCurrentSchema :: "session \<Rightarrow> schema_error + gostring" where
  "GetCurrentSchema ctx = (case LookupCurrentSchema ctx of
     Inl e \<Rightarrow> Inl e
   | Inr None \<Rightarrow> Inl NoSchemaSelected
   | Inr (Some schemaName) \<Rightarrow> Inr schemaName)"

text \<open>The callers here pass no database.\<close>

definition LookupSchemaName :: "session \<Rightarrow> gostring \<Rightarrow> schema_error + gostring option" where
  "LookupSchemaName ctx schemaName = (if schemaName = [] then LookupCurrentSchema ctx else Inr (Some schemaName))"

definition GetSchemaName :: "session \<Rightarrow> gostring \<Rightarrow> schema_error + gostring" where
  "GetSchemaName ctx schemaName = (case LookupSchemaName ctx schemaName of
     Inl e \<Rightarrow> Inl e
   | Inr None \<Rightarrow> Inl NoSchemaSelected
   | Inr (Some name) \<Rightarrow> Inr name)"

section \<open>What a statement needs\<close>

definition AuthType_IGNORE :: gostring where "AuthType_IGNORE = gs ''IGNORE''"
definition AuthType_CREATE :: gostring where "AuthType_CREATE = gs ''CREATE''"
definition AuthType_CREATEDATABASE :: gostring where "AuthType_CREATEDATABASE = gs ''CREATEDATABASE''"
definition AuthType_DELETE :: gostring where "AuthType_DELETE = gs ''DELETE''"
definition AuthType_DROPDATABASE :: gostring where "AuthType_DROPDATABASE = gs ''DROPDATABASE''"
definition AuthType_DROPTABLE :: gostring where "AuthType_DROPTABLE = gs ''DROPTABLE''"
definition AuthType_EXECUTE :: gostring where "AuthType_EXECUTE = gs ''EXECUTE''"
definition AuthType_INSERT :: gostring where "AuthType_INSERT = gs ''INSERT''"
definition AuthType_SELECT :: gostring where "AuthType_SELECT = gs ''SELECT''"
definition AuthType_TRUNCATE :: gostring where "AuthType_TRUNCATE = gs ''TRUNCATE''"
definition AuthType_UPDATE :: gostring where "AuthType_UPDATE = gs ''UPDATE''"
definition AuthType_USAGE :: gostring where "AuthType_USAGE = gs ''USAGE''"

definition AuthTargetType_Ignore :: gostring where "AuthTargetType_Ignore = gs ''IGNORE''"
definition AuthTargetType_DatabaseIdentifiers :: gostring where "AuthTargetType_DatabaseIdentifiers = gs ''DB_IDENTS''"
definition AuthTargetType_SchemaIdentifiers :: gostring where "AuthTargetType_SchemaIdentifiers = gs ''DB_SCH_IDENTS''"
definition AuthTargetType_TableIdentifiers :: gostring where "AuthTargetType_TableIdentifiers = gs ''DB_SCH_TABLE_IDENTS''"
definition AuthTargetType_FunctionIdentifiers :: gostring where "AuthTargetType_FunctionIdentifiers = gs ''DB_SCH_FUNCTION_IDENTS''"
definition AuthTargetType_SequenceIdentifiers :: gostring where "AuthTargetType_SequenceIdentifiers = gs ''DB_SCH_SEQUENCE_IDENTS''"
definition AuthTargetType_TODO :: gostring where "AuthTargetType_TODO = gs ''TODO''"

lemmas auth_type_defs = AuthType_IGNORE_def AuthType_CREATE_def AuthType_CREATEDATABASE_def AuthType_DELETE_def
  AuthType_DROPDATABASE_def AuthType_DROPTABLE_def AuthType_EXECUTE_def AuthType_INSERT_def AuthType_SELECT_def
  AuthType_TRUNCATE_def AuthType_UPDATE_def AuthType_USAGE_def

lemmas auth_target_defs = AuthTargetType_Ignore_def AuthTargetType_DatabaseIdentifiers_def
  AuthTargetType_SchemaIdentifiers_def AuthTargetType_TableIdentifiers_def AuthTargetType_FunctionIdentifiers_def
  AuthTargetType_SequenceIdentifiers_def AuthTargetType_TODO_def

record AuthInformation =
  AuthType :: gostring
  TargetType :: gostring
  TargetNames :: "gostring list"

text \<open>The cases of the first switch that name a privilege.\<close>

definition auth_privileges :: "gostring \<Rightarrow> Privilege list option" where
  "auth_privileges t =
     (if t = AuthType_CREATE then Some [Privilege_CREATE]
      else if t = AuthType_DELETE then Some [Privilege_DELETE]
      else if t = AuthType_DROPTABLE then Some [Privilege_DROP]
      else if t = AuthType_EXECUTE then Some [Privilege_EXECUTE]
      else if t = AuthType_INSERT then Some [Privilege_INSERT]
      else if t = AuthType_SELECT then Some [Privilege_SELECT]
      else if t = AuthType_TRUNCATE then Some [Privilege_TRUNCATE]
      else if t = AuthType_USAGE then Some [Privilege_USAGE]
      else if t = AuthType_UPDATE then Some [Privilege_UPDATE]
      else None)"

section \<open>The state of a query\<close>

datatype auth_failure =
    RoleDoesNotExist gostring
  | CreateDatabaseDenied
  | MustBeOwner gostring
  | AuthTypeEmpty
  | AuthTypeNotHandled gostring
  | DatabaseDenied gostring
  | SchemaDenied gostring
  | TableDenied gostring
  | SequenceDenied gostring
  | RoutineDenied gostring
  | UnsupportedCount nat
  | TargetTypeEmpty
  | TargetTypeNotHandled gostring

record AuthorizationQueryState =
  qs_role :: Role
  qs_public :: Role
  qs_err :: "auth_failure option"

definition NewQueryState :: "Database \<Rightarrow> session \<Rightarrow> AuthorizationQueryState" where
  "NewQueryState db ctx =
     (let role = GetRole db (Client_User ctx) in
      if \<not> Role_IsValid role
      then \<lparr>qs_role = role, qs_public = zero_role, qs_err = Some (RoleDoesNotExist (role_Name role))\<rparr>
      else
        let public = GetRole db (gs ''public'') in
        \<lparr>qs_role = role, qs_public = public,
         qs_err = (if \<not> Role_IsValid public then Some (RoleDoesNotExist (role_Name public)) else None)\<rparr>)"

text \<open>Every method starts with the given state of the query or, without one, with a new one.\<close>

definition query_state :: "Database \<Rightarrow> session \<Rightarrow> AuthorizationQueryState option \<Rightarrow> AuthorizationQueryState" where
  "query_state db ctx aqs = (case aqs of Some st \<Rightarrow> st | None \<Rightarrow> NewQueryState db ctx)"

definition HandleAuthNode :: "Database \<Rightarrow> session \<Rightarrow> AuthorizationQueryState option \<Rightarrow> auth_failure option" where
  "HandleAuthNode db ctx aqs = qs_err (query_state db ctx aqs)"

definition CheckDatabase :: "Database \<Rightarrow> session \<Rightarrow> AuthorizationQueryState option \<Rightarrow> gostring \<Rightarrow> auth_failure option" where
  "CheckDatabase db ctx aqs dbName = qs_err (query_state db ctx aqs)"

definition CheckSchema ::
  "Database \<Rightarrow> session \<Rightarrow> AuthorizationQueryState option \<Rightarrow> gostring \<Rightarrow> gostring \<Rightarrow> auth_failure option" where
  "CheckSchema db ctx aqs dbName schemaName = qs_err (query_state db ctx aqs)"

definition CheckTable ::
  "Database \<Rightarrow> session \<Rightarrow> AuthorizationQueryState option \<Rightarrow> gostring \<Rightarrow> gostring \<Rightarrow> gostring \<Rightarrow> auth_failure option" where
  "CheckTable db ctx aqs dbName schemaName tableName = qs_err (query_state db ctx aqs)"

section \<open>The checks on objects\<close>

definition handler_dbName :: "session \<Rightarrow> gostring \<Rightarrow> gostring" where
  "handler_dbName ctx dbName =
     takeWhile (\<lambda>c. c \<noteq> of_char (CHR ''/'')) (if dbName = [] then GetCurrentDatabase ctx else dbName)"

text \<open>The loop over the privileges: the role or the public role must have each.\<close>

fun check_each :: "(Privilege \<Rightarrow> bool option) \<Rightarrow> (Privilege \<Rightarrow> bool option) \<Rightarrow> auth_failure \<Rightarrow> Privilege list \<Rightarrow>
    auth_failure option option" where
  "check_each has_role has_public denied [] = Some None"
| "check_each has_role has_public denied (privilege # rest) = (case has_role privilege of
     None \<Rightarrow> None
   | Some True \<Rightarrow> check_each has_role has_public denied rest
   | Some False \<Rightarrow> (case has_public privilege of
       None \<Rightarrow> None
     | Some True \<Rightarrow> check_each has_role has_public denied rest
     | Some False \<Rightarrow> Some (Some denied)))"

definition check_database ::
  "nat \<Rightarrow> Database \<Rightarrow> AuthorizationQueryState \<Rightarrow> gostring \<Rightarrow> Privilege list \<Rightarrow> auth_failure option option" where
  "check_database n db st database =
     check_each (HasDatabasePrivilege n db \<lparr>dk_Role = role_id (qs_role st), dk_Name = database\<rparr>)
       (HasDatabasePrivilege n db \<lparr>dk_Role = role_id (qs_public st), dk_Name = database\<rparr>) (DatabaseDenied database)"

definition checkPrivilegeOnSchema ::
  "nat \<Rightarrow> Database \<Rightarrow> AuthorizationQueryState \<Rightarrow> gostring \<Rightarrow> Privilege list \<Rightarrow> auth_failure option option" where
  "checkPrivilegeOnSchema n db st schemaName =
     check_each (HasSchemaPrivilege n db \<lparr>sk_Role = role_id (qs_role st), sk_Schema = schemaName\<rparr>)
       (HasSchemaPrivilege n db \<lparr>sk_Role = role_id (qs_public st), sk_Schema = schemaName\<rparr>) (SchemaDenied schemaName)"

definition checkPrivilegeOnTable ::
  "nat \<Rightarrow> Database \<Rightarrow> AuthorizationQueryState \<Rightarrow> gostring \<Rightarrow> gostring \<Rightarrow> Privilege list \<Rightarrow> auth_failure option option" where
  "checkPrivilegeOnTable n db st schemaName tableName =
     check_each (HasTablePrivilege n db \<lparr>tk_Role = role_id (qs_role st), tk_Name = tableName, tk_Schema = schemaName\<rparr>)
       (HasTablePrivilege n db \<lparr>tk_Role = role_id (qs_public st), tk_Name = tableName, tk_Schema = schemaName\<rparr>)
       (TableDenied tableName)"

definition checkPrivilegeOnSequence ::
  "nat \<Rightarrow> Database \<Rightarrow> AuthorizationQueryState \<Rightarrow> gostring \<Rightarrow> gostring \<Rightarrow> Privilege list \<Rightarrow> auth_failure option option" where
  "checkPrivilegeOnSequence n db st schemaName seqName =
     check_each (HasSequencePrivilege n db \<lparr>qk_Role = role_id (qs_role st), qk_Schema = schemaName, qk_Name = seqName\<rparr>)
       (HasSequencePrivilege n db \<lparr>qk_Role = role_id (qs_public st), qk_Schema = schemaName, qk_Name = seqName\<rparr>)
       (SequenceDenied seqName)"

text \<open>The key of a routine is built without argument types. The first privilege that is missing ends the loop: with
  permission if the name is that of a system function and no schema was given.\<close>

definition checkPrivilegeOnRoutine ::
  "nat \<Rightarrow> Database \<Rightarrow> session \<Rightarrow> AuthorizationQueryState \<Rightarrow> gostring \<Rightarrow> gostring \<Rightarrow> Privilege list \<Rightarrow> auth_failure option option" where
  "checkPrivilegeOnRoutine n db ctx st schemaName routineName privileges = (case GetSchemaName ctx schemaName of
     Inl _ \<Rightarrow> Some None
   | Inr schName \<Rightarrow>
       (case check_each
           (HasRoutinePrivilege n db \<lparr>rk_Role = role_id (qs_role st), rk_Schema = schName, rk_Name = routineName, rk_ArgTypes = []\<rparr>)
           (HasRoutinePrivilege n db \<lparr>rk_Role = role_id (qs_public st), rk_Schema = schName, rk_Name = routineName, rk_ArgTypes = []\<rparr>)
           (RoutineDenied routineName) privileges of
         None \<Rightarrow> None
       | Some None \<Rightarrow> Some None
       | Some (Some e) \<Rightarrow> if system_function ctx routineName \<and> schemaName = [] then Some None else Some (Some e)))"

section \<open>The handler\<close>

text \<open>The loops over the names: the body goes on, or returns from the handler.\<close>

datatype loop_step = Continue | Return "auth_failure option"

fun each_target :: "('a \<Rightarrow> loop_step option) \<Rightarrow> 'a list \<Rightarrow> auth_failure option option" where
  "each_target body [] = Some None"
| "each_target body (x # xs) = (case body x of
     None \<Rightarrow> None
   | Some (Return r) \<Rightarrow> Some r
   | Some Continue \<Rightarrow> each_target body xs)"

definition return_error :: "auth_failure option option \<Rightarrow> loop_step option" where
  "return_error result = map_option (\<lambda>err. case err of None \<Rightarrow> Continue | Some e \<Rightarrow> Return (Some e)) result"

fun by_two :: "'a list \<Rightarrow> ('a \<times> 'a) list" where
  "by_two (a # b # xs) = (a, b) # by_two xs"
| "by_two _ = []"

fun by_three :: "'a list \<Rightarrow> ('a \<times> 'a \<times> 'a) list" where
  "by_three (a # b # c # xs) = (a, b, c) # by_three xs"
| "by_three _ = []"

definition check_sequence_or_schema ::
  "nat \<Rightarrow> Database \<Rightarrow> AuthorizationQueryState \<Rightarrow> bool \<Rightarrow> gostring \<Rightarrow> gostring \<Rightarrow> Privilege list \<Rightarrow> auth_failure option option" where
  "check_sequence_or_schema n db st checkSchemaForUsage schemaName seqName privileges =
     (case checkPrivilegeOnSequence n db st schemaName seqName privileges of
        Some (Some e) \<Rightarrow>
          if checkSchemaForUsage then checkPrivilegeOnSchema n db st schemaName privileges else Some (Some e)
      | r \<Rightarrow> r)"

definition in_schema :: "session \<Rightarrow> gostring \<Rightarrow> (gostring \<Rightarrow> auth_failure option option) \<Rightarrow> loop_step option" where
  "in_schema ctx name check = (case GetSchemaName ctx name of
     Inl _ \<Rightarrow> Some (Return None)
   | Inr schemaName \<Rightarrow> return_error (check schemaName))"

definition handle_targets ::
  "nat \<Rightarrow> Database \<Rightarrow> session \<Rightarrow> AuthorizationQueryState \<Rightarrow> bool \<Rightarrow> Privilege list \<Rightarrow> gostring \<Rightarrow> gostring list \<Rightarrow>
   auth_failure option option" where
  "handle_targets n db ctx st checkSchemaForUsage privileges target names =
     (if target = AuthTargetType_Ignore then Some None
      else if target = AuthTargetType_DatabaseIdentifiers then
        each_target (\<lambda>name. return_error (check_database n db st (handler_dbName ctx name) privileges)) names
      else if target = AuthTargetType_SchemaIdentifiers then
        if length names mod 2 \<noteq> 0 then Some (Some (UnsupportedCount (length names)))
        else each_target (\<lambda>(_, sch). in_schema ctx sch (\<lambda>s. checkPrivilegeOnSchema n db st s privileges)) (by_two names)
      else if target = AuthTargetType_TableIdentifiers then
        if length names mod 3 \<noteq> 0 then Some (Some (UnsupportedCount (length names)))
        else each_target (\<lambda>(_, sch, table). in_schema ctx sch (\<lambda>s. checkPrivilegeOnTable n db st s table privileges))
          (by_three names)
      else if target = AuthTargetType_FunctionIdentifiers then
        if length names mod 2 \<noteq> 0 then Some (Some (UnsupportedCount (length names)))
        else each_target (\<lambda>(sch, routine). return_error (checkPrivilegeOnRoutine n db ctx st sch routine privileges))
          (by_two names)
      else if target = AuthTargetType_SequenceIdentifiers then
        if length names mod 2 \<noteq> 0 then Some (Some (UnsupportedCount (length names)))
        else each_target (\<lambda>(sch, seq). in_schema ctx sch
            (\<lambda>s. check_sequence_or_schema n db st checkSchemaForUsage s seq privileges)) (by_two names)
      else if target = AuthTargetType_TODO then Some None
      else if target = [] then Some (Some TargetTypeEmpty)
      else Some (Some (TargetTypeNotHandled target)))"

definition drop_databases :: "session \<Rightarrow> Role \<Rightarrow> gostring list \<Rightarrow> auth_failure option option" where
  "drop_databases ctx role =
     each_target (\<lambda>database. Some (if \<not> HasDatabase ctx database then Continue
       else if \<not> role_IsSuperUser role then Return (Some (MustBeOwner database)) else Continue))"

definition HandleAuth ::
  "nat \<Rightarrow> Database \<Rightarrow> session \<Rightarrow> AuthorizationQueryState option \<Rightarrow> AuthInformation \<Rightarrow> auth_failure option option" where
  "HandleAuth n db ctx aqs auth =
     (if AuthType auth = [] \<and> TargetType auth = [] then Some None
      else
        let st = query_state db ctx aqs in
        case qs_err st of
          Some e \<Rightarrow> Some (Some e)
        | None \<Rightarrow>
            if AuthType auth = AuthType_IGNORE then Some None
            else if AuthType auth = AuthType_CREATEDATABASE then
              Some (if \<not> role_IsSuperUser (qs_role st) \<and> \<not> CanCreateDB (qs_role st) then Some CreateDatabaseDenied else None)
            else if AuthType auth = AuthType_DROPDATABASE then drop_databases ctx (qs_role st) (TargetNames auth)
            else (case auth_privileges (AuthType auth) of
              None \<Rightarrow> Some (Some (if AuthType auth = [] then AuthTypeEmpty else AuthTypeNotHandled (AuthType auth)))
            | Some privileges \<Rightarrow>
                handle_targets n db ctx st (AuthType auth = AuthType_USAGE) privileges (TargetType auth) (TargetNames auth)))"

end
