(* ===== verification/Auth_Handler_Props.thy ===== *)
theory Auth_Handler_Props
  imports Auth_Handler Auth_Role_Props
begin

text \<open>
  What the authorization handler decides: for every kind of target, permission is access of the role of the
  session or of the public role, in the sense of the theory \<open>Auth_Access\<close>.
\<close>

section \<open>The specification\<close>

definition may_database :: "Database \<Rightarrow> AuthorizationQueryState \<Rightarrow> Privilege \<Rightarrow> gostring \<Rightarrow> bool" where
  "may_database db st p d \<longleftrightarrow> (\<exists>r \<in> {qs_role st, qs_public st}.
     access database_key_ops db (databasePrivileges db) p \<lparr>dk_Role = role_id r, dk_Name = d\<rparr>)"

definition may_schema :: "Database \<Rightarrow> AuthorizationQueryState \<Rightarrow> Privilege \<Rightarrow> gostring \<Rightarrow> bool" where
  "may_schema db st p s \<longleftrightarrow> (\<exists>r \<in> {qs_role st, qs_public st}.
     access schema_key_ops db (schemaPrivileges db) p \<lparr>sk_Role = role_id r, sk_Schema = s\<rparr>)"

definition may_table :: "Database \<Rightarrow> AuthorizationQueryState \<Rightarrow> Privilege \<Rightarrow> gostring \<Rightarrow> gostring \<Rightarrow> bool" where
  "may_table db st p s t \<longleftrightarrow> (\<exists>r \<in> {qs_role st, qs_public st}.
     access table_key_ops db (tablePrivileges db) p \<lparr>tk_Role = role_id r, tk_Name = t, tk_Schema = s\<rparr>)"

definition may_sequence :: "Database \<Rightarrow> AuthorizationQueryState \<Rightarrow> Privilege \<Rightarrow> gostring \<Rightarrow> gostring \<Rightarrow> bool" where
  "may_sequence db st p s q \<longleftrightarrow> (\<exists>r \<in> {qs_role st, qs_public st}.
     access sequence_key_ops db (sequencePrivileges db) p \<lparr>qk_Role = role_id r, qk_Schema = s, qk_Name = q\<rparr>)"

definition may_routine :: "Database \<Rightarrow> AuthorizationQueryState \<Rightarrow> Privilege \<Rightarrow> gostring \<Rightarrow> gostring \<Rightarrow> bool" where
  "may_routine db st p s f \<longleftrightarrow> (\<exists>r \<in> {qs_role st, qs_public st}.
     access routine_key_ops db (routinePrivileges db) p \<lparr>rk_Role = role_id r, rk_Schema = s, rk_Name = f, rk_ArgTypes = []\<rparr>)"

text \<open>The names of a statement are permitted. A missing schema is the current one of the session; where that can not be found out, the loop over
  schemas, tables and sequences ends with permission, and a routine is permitted.\<close>

definition found_schema :: "session \<Rightarrow> gostring \<Rightarrow> gostring option" where
  "found_schema ctx s = (if s \<noteq> [] then Some s else case LookupCurrentSchema ctx of Inr (Some current) \<Rightarrow> Some current | _ \<Rightarrow> None)"

definition targets_permitted ::
  "Database \<Rightarrow> session \<Rightarrow> AuthorizationQueryState \<Rightarrow> bool \<Rightarrow> Privilege \<Rightarrow> gostring \<Rightarrow> gostring list \<Rightarrow> bool" where
  "targets_permitted db ctx st usage p target names =
     (let schema = (\<lambda>s. the (found_schema ctx s)); found = (\<lambda>s. found_schema ctx s \<noteq> None) in
      if target = AuthTargetType_Ignore then True
      else if target = AuthTargetType_DatabaseIdentifiers then \<forall>d \<in> set names. may_database db st p (handler_dbName ctx d)
      else if target = AuthTargetType_SchemaIdentifiers then
        length names mod 2 = 0 \<and> (\<forall>(_, s) \<in> set (takeWhile (\<lambda>(_, s). found s) (by_two names)). may_schema db st p (schema s))
      else if target = AuthTargetType_TableIdentifiers then
        length names mod 3 = 0 \<and> (\<forall>(_, s, t) \<in> set (takeWhile (\<lambda>(_, s, _). found s) (by_three names)). may_table db st p (schema s) t)
      else if target = AuthTargetType_FunctionIdentifiers then
        length names mod 2 = 0 \<and>
        (\<forall>(s, f) \<in> set (by_two names). found s \<longrightarrow> may_routine db st p (schema s) f \<or> (system_function ctx f \<and> s = []))
      else if target = AuthTargetType_SequenceIdentifiers then
        length names mod 2 = 0 \<and>
        (\<forall>(s, q) \<in> set (takeWhile (\<lambda>(s, _). found s) (by_two names)).
          may_sequence db st p (schema s) q \<or> (usage \<and> may_schema db st p (schema s)))
      else target = AuthTargetType_TODO)"

section \<open>The loops\<close>

lemma check_each_single:
  "has_role p = Some a \<Longrightarrow> has_public p = Some b \<Longrightarrow>
   check_each has_role has_public denied [p] = Some (if a \<or> b then None else Some denied)"
  by (cases a; cases b) simp_all

text \<open>A check that returns and gives permission exactly under a condition.\<close>

definition decides :: "auth_failure option option \<Rightarrow> bool \<Rightarrow> bool" where
  "decides result permitted \<longleftrightarrow> (\<exists>r. result = Some r \<and> (r = None \<longleftrightarrow> permitted))"

lemma decides_if:
  "decides (if c then a else b) (if c then A else B) \<longleftrightarrow> (c \<longrightarrow> decides a A) \<and> (\<not> c \<longrightarrow> decides b B)"
  by (cases c) auto

lemma decides_guard:
  "decides (if c \<noteq> 0 then Some (Some e) else b) (c = 0 \<and> B) \<longleftrightarrow> (c = 0 \<longrightarrow> decides b B)" for c :: nat
  by (auto simp: decides_def)

lemma decides_last:
  "decides (if c then Some None else if d then Some (Some e) else Some (Some e')) c" "decides (Some None) True"
  by (simp_all add: decides_def)

lemma each_target_decides:
  assumes "\<And>x. x \<in> set xs \<Longrightarrow> body x = Some (if permitted x then Continue else Return (Some (e x)))"
  shows "decides (each_target body xs) (\<forall>x \<in> set xs. permitted x)"
  using assms by (induction xs) (auto simp: decides_def)

lemma each_target_until_decides:
  assumes "\<And>x. x \<in> set xs \<Longrightarrow> body x = Some (if \<not> found x then Return None else if permitted x then Continue else Return (Some (e x)))"
  shows "decides (each_target body xs) (\<forall>x \<in> set (takeWhile found xs). permitted x)"
  using assms by (induction xs) (auto simp: decides_def)

lemma return_error_Some:
  "return_error (Some (if a then None else Some e)) = Some (if a then Continue else Return (Some e))"
  by (simp add: return_error_def)

lemma auth_privileges_kinds:
  "auth_privileges t = Some ps \<Longrightarrow> t \<noteq> [] \<and> t \<noteq> AuthType_IGNORE \<and> t \<noteq> AuthType_CREATEDATABASE \<and> t \<noteq> AuthType_DROPDATABASE"
proof -
  have "auth_privileges [] = None" "auth_privileges AuthType_IGNORE = None" "auth_privileges AuthType_CREATEDATABASE = None"
    "auth_privileges AuthType_DROPDATABASE = None" by code_simp+
  then show "auth_privileges t = Some ps \<Longrightarrow> ?thesis" by auto
qed

lemma GetSchemaName_found:
  "GetSchemaName ctx s = (case found_schema ctx s of
     Some name \<Rightarrow> Inr name
   | None \<Rightarrow> Inl (case LookupCurrentSchema ctx of Inl e \<Rightarrow> e | Inr _ \<Rightarrow> NoSchemaSelected))"
  by (simp add: GetSchemaName_def LookupSchemaName_def found_schema_def split: sum.split option.split)

lemma in_schema_found:
  assumes "\<And>s. check s = Some (if permitted s then None else Some (e s))"
  shows "in_schema ctx name check = Some (if found_schema ctx name = None then Return None
    else if permitted (the (found_schema ctx name)) then Continue else Return (Some (e (the (found_schema ctx name)))))"
  by (simp add: in_schema_def GetSchemaName_found assms return_error_def split: option.split)

section \<open>The checks\<close>

text \<open>A database whose checks return at depth \<open>n\<close> for every role.\<close>

definition checks_return :: "Database \<Rightarrow> nat \<Rightarrow> bool" where
  "checks_return db n \<longleftrightarrow> membership_ok db \<and> no_cycles db \<and> (\<forall>r. 2 * card (descendants (priv_edge db) r) + 1 < n)"

lemma checks_returnD: "checks_return db n \<Longrightarrow> no_priv_cycles db" "checks_return db n \<Longrightarrow> check_depth ops db key < n"
proof -
  assume *: "checks_return db n"
  show "no_priv_cycles db" using * no_cycles_priv by (auto simp: checks_return_def)
  have "2 * card (descendants (priv_edge db) (key_role ops key)) + 1 < n" using * by (simp add: checks_return_def)
  then show "check_depth ops db key < n" by (simp add: check_depth_def)
qed

lemma check_singles:
  assumes "checks_return db n"
  shows "check_database n db st d [p] = Some (if may_database db st p d then None else Some (DatabaseDenied d))"
    and "checkPrivilegeOnSchema n db st s [p] = Some (if may_schema db st p s then None else Some (SchemaDenied s))"
    and "checkPrivilegeOnTable n db st s t [p] = Some (if may_table db st p s t then None else Some (TableDenied t))"
    and "checkPrivilegeOnSequence n db st s q [p] = Some (if may_sequence db st p s q then None else Some (SequenceDenied q))"
  unfolding check_database_def may_database_def checkPrivilegeOnSchema_def may_schema_def checkPrivilegeOnTable_def
    may_table_def checkPrivilegeOnSequence_def may_sequence_def HasDatabasePrivilege_def HasSchemaPrivilege_def
    HasTablePrivilege_def HasSequencePrivilege_def
  by (simp_all add: checks_returnD [OF assms] database_access.has_privilege_access schema_access.has_privilege_access
      table_access.has_privilege_access sequence_access.has_privilege_access split: bool.split)

lemma check_routine_single:
  assumes "checks_return db n"
  shows "checkPrivilegeOnRoutine n db ctx st s f [p] =
    Some (if found_schema ctx s \<noteq> None \<longrightarrow> may_routine db st p (the (found_schema ctx s)) f \<or> (system_function ctx f \<and> s = []) then None
      else Some (RoutineDenied f))"
  unfolding checkPrivilegeOnRoutine_def may_routine_def HasRoutinePrivilege_def GetSchemaName_found
  by (simp add: checks_returnD [OF assms(1)] routine_access.has_privilege_access split: bool.split option.split)

lemma check_sequence_single:
  assumes "checks_return db n"
  shows "check_sequence_or_schema n db st usage s q [p] =
    Some (if may_sequence db st p s q \<or> (usage \<and> may_schema db st p s) then None
      else Some (if usage then SchemaDenied s else SequenceDenied q))"
  by (simp add: check_sequence_or_schema_def check_singles [OF assms])

lemma handle_targets_decides:
  assumes "checks_return db n"
  shows "decides (handle_targets n db ctx st usage [p] target names) (targets_permitted db ctx st usage p target names)"
proof -
  note single = check_singles [OF assms] check_sequence_single [OF assms]
  let ?sch = "\<lambda>s. the (found_schema ctx s)" and ?found = "\<lambda>s. found_schema ctx s \<noteq> None"
  have in_sch: "in_schema ctx s (\<lambda>s. checkPrivilegeOnSchema n db st s [p]) = Some (if \<not> ?found s then Return None
      else if may_schema db st p (?sch s) then Continue else Return (Some (SchemaDenied (?sch s))))"
    "in_schema ctx s (\<lambda>s. checkPrivilegeOnTable n db st s t [p]) = Some (if \<not> ?found s then Return None
      else if may_table db st p (?sch s) t then Continue else Return (Some (TableDenied t)))"
    "in_schema ctx s (\<lambda>s. check_sequence_or_schema n db st usage s q [p]) = Some (if \<not> ?found s then Return None
      else if may_sequence db st p (?sch s) q \<or> (usage \<and> may_schema db st p (?sch s)) then Continue
      else Return (Some (if usage then SchemaDenied (?sch s) else SequenceDenied q)))" for s t q
    by (subst in_schema_found, rule single, simp)+
  have loops:
    "decides (each_target (\<lambda>name. return_error (check_database n db st (handler_dbName ctx name) [p])) names)
      (\<forall>d \<in> set names. may_database db st p (handler_dbName ctx d))"
    "decides (each_target (\<lambda>(s, f). return_error (checkPrivilegeOnRoutine n db ctx st s f [p])) (by_two names))
      (\<forall>(s, f) \<in> set (by_two names). ?found s \<longrightarrow> may_routine db st p (?sch s) f \<or> (system_function ctx f \<and> s = []))"
    by (rule each_target_decides, simp only: single check_routine_single [OF assms] return_error_Some case_prod_unfold; fail)+
  have until:
    "decides (each_target (\<lambda>(_, s). in_schema ctx s (\<lambda>s. checkPrivilegeOnSchema n db st s [p])) (by_two names))
      (\<forall>(_, s) \<in> set (takeWhile (\<lambda>(_, s). ?found s) (by_two names)). may_schema db st p (?sch s))"
    "decides (each_target (\<lambda>(_, s, t). in_schema ctx s (\<lambda>s. checkPrivilegeOnTable n db st s t [p])) (by_three names))
      (\<forall>(_, s, t) \<in> set (takeWhile (\<lambda>(_, s, _). ?found s) (by_three names)). may_table db st p (?sch s) t)"
    "decides (each_target (\<lambda>(s, q). in_schema ctx s (\<lambda>s. check_sequence_or_schema n db st usage s q [p])) (by_two names))
      (\<forall>(s, q) \<in> set (takeWhile (\<lambda>(s, _). ?found s) (by_two names)). may_sequence db st p (?sch s) q \<or> (usage \<and> may_schema db st p (?sch s)))"
    by (rule each_target_until_decides, simp only: in_sch case_prod_unfold; fail)+
  show ?thesis
    unfolding handle_targets_def targets_permitted_def Let_def
    by (simp only: decides_if decides_guard decides_last loops until simp_thms)
qed

section \<open>Properties\<close>

text \<open>C3. For a statement that needs one of the privileges and whose depth of calls suffices (memberships without cycles), the handler returns. It permits the
  statement exactly if the roles of the session and of the public exist and one of them has access to every object the statement names: databases,
  schemas, tables, routines, which may also be system functions named without a schema, and sequences, for which \<open>USAGE\<close> on the schema is enough as well. Where a name has
  no schema and the session has no current one, the handler fails open: the rest of the schemas, tables or sequences is permitted unchecked, and so is that
  routine. The target kinds \<open>IGNORE\<close> and \<open>TODO\<close> are permitted without any access; a count of names that is not a multiple of the names per object, and an
  unknown kind of target, are refused.\<close>

theorem HandleAuth_decides:
  assumes "checks_return db n" and "auth_privileges (AuthType auth) = Some [p]"
  shows "\<exists>r. HandleAuth n db ctx aqs auth = Some r \<and>
    (r = None \<longleftrightarrow> qs_err (query_state db ctx aqs) = None \<and>
      targets_permitted db ctx (query_state db ctx aqs) (AuthType auth = AuthType_USAGE) p (TargetType auth) (TargetNames auth))"
  using handle_targets_decides [OF assms(1)] auth_privileges_kinds [OF assms(2)] assms(2)
  by (auto simp: HandleAuth_def decides_def Let_def split: option.split)

definition demo_session :: session where
  "demo_session = \<lparr>Client_User = gs ''alice'', GetCurrentDatabase = gs ''postgres'', LookupCurrentSchema = Inr (Some (gs ''public'')),
     HasDatabase = (\<lambda>d. d = gs ''postgres''), system_function = (\<lambda>f. f = gs ''length'')\<rparr>"

definition demo_select :: AuthInformation where
  "demo_select = \<lparr>AuthType = AuthType_SELECT, TargetType = AuthTargetType_TableIdentifiers, TargetNames = [[], [], gs ''film'']\<rparr>"

lemma demo_checks_return: "checks_return demo_db 4"
  by (simp add: checks_return_def demo_ok_db demo_descendants)

theorem HandleAuth_decides_witness:
  "HandleAuth 4 demo_db demo_session None demo_select = Some None \<and>
   targets_permitted demo_db demo_session (NewQueryState demo_db demo_session) False Privilege_SELECT
     AuthTargetType_TableIdentifiers [[], [], gs ''film'']"
proof -
  have "HandleAuth 4 demo_db demo_session None demo_select = Some None"
    "auth_privileges (AuthType demo_select) = Some [Privilege_SELECT]" "AuthType demo_select \<noteq> AuthType_USAGE" by code_simp+
  with HandleAuth_decides [OF demo_checks_return, of demo_select Privilege_SELECT demo_session None]
  show ?thesis by (simp add: demo_select_def query_state_def)
qed

text \<open>The statements on whole databases: creating one needs a superuser or the attribute \<open>CREATEDB\<close>, and
  dropping existing databases needs a superuser, no privilege being enough. A session whose user, or a
  server whose public role, does not exist is refused every statement that states what it needs.\<close>

theorem HandleAuth_databases:
  assumes "qs_err st = None"
  shows "(AuthType auth = AuthType_CREATEDATABASE \<longrightarrow>
      (HandleAuth n db ctx (Some st) auth = Some None \<longleftrightarrow> role_IsSuperUser (qs_role st) \<or> CanCreateDB (qs_role st))) \<and>
    (AuthType auth = AuthType_DROPDATABASE \<longrightarrow>
      (HandleAuth n db ctx (Some st) auth = Some None \<longleftrightarrow>
        role_IsSuperUser (qs_role st) \<or> (\<forall>d \<in> set (TargetNames auth). \<not> HasDatabase ctx d))) \<and>
    (\<not> (RoleExists db (Client_User ctx) \<and> RoleExists db (gs ''public'')) \<and> AuthType auth \<noteq> [] \<longrightarrow>
      (\<exists>name. HandleAuth n db ctx None auth = Some (Some (RoleDoesNotExist name))))"
proof -
  have kinds: "AuthType_CREATEDATABASE \<noteq> []" "AuthType_DROPDATABASE \<noteq> []" "AuthType_CREATEDATABASE \<noteq> AuthType_IGNORE"
    "AuthType_DROPDATABASE \<noteq> AuthType_IGNORE" "AuthType_DROPDATABASE \<noteq> AuthType_CREATEDATABASE" by code_simp+
  have drop: "drop_databases ctx role names = Some None \<longleftrightarrow> role_IsSuperUser role \<or> (\<forall>d \<in> set names. \<not> HasDatabase ctx d)"
    for role names
  proof -
    have "decides (drop_databases ctx role names) (\<forall>d \<in> set names. role_IsSuperUser role \<or> \<not> HasDatabase ctx d)"
      unfolding drop_databases_def by (rule each_target_decides [where e = MustBeOwner]) simp
    then show ?thesis by (auto simp: decides_def)
  qed
  have "\<exists>name. qs_err (NewQueryState db ctx) = Some (RoleDoesNotExist name)"
    if "\<not> (RoleExists db (Client_User ctx) \<and> RoleExists db (gs ''public''))"
    using that by (auto simp: NewQueryState_def RoleExists_def GetRole_def Let_def Role_IsValid_def RoleID_IsValid_def
        createDefaultRoleWithoutID_def)
  then show ?thesis
    using assms kinds by (auto simp: HandleAuth_def query_state_def Let_def drop)
qed

theorem HandleAuth_databases_witness:
  "HandleAuth 4 demo_db demo_session (Some (NewQueryState demo_db demo_session))
     \<lparr>AuthType = AuthType_DROPDATABASE, TargetType = [], TargetNames = [gs ''postgres'']\<rparr> \<noteq> Some None"
proof -
  have "qs_err (NewQueryState demo_db demo_session) = None" "\<not> role_IsSuperUser (qs_role (NewQueryState demo_db demo_session))"
    "HasDatabase demo_session (gs ''postgres'')" by code_simp+
  with HandleAuth_databases [of "NewQueryState demo_db demo_session"
      "\<lparr>AuthType = AuthType_DROPDATABASE, TargetType = [], TargetNames = [gs ''postgres'']\<rparr>" 4 demo_db demo_session]
  show ?thesis by simp
qed

end
