(* ===== verification/Auth_Server.thy ===== *)
theory Auth_Server
  imports Auth_Serial Auth_Handler
begin

text \<open>
  The state that the statements on roles and privileges change: the authorization database in memory, the
  counter of role ids and the file (\<open>src/server/auth/serialization.go\<close> and \<open>cluster.go\<close>). Writing the file and
  replicating to standbys is done by code outside of the repository and is a parameter; it tells whether it
  succeeded and what the file holds afterwards.
\<close>

record auth_server =
  server_db :: Database
  server_counter :: uint64
  auth_file :: "byte list option"

type_synonym writing = "byte list \<Rightarrow> bool \<times> byte list option"

record storage =
  clusterReplicator :: "writing option"
  fileSystem :: "writing option"

datatype stmt_error =
    StmtRoleMissing gostring
  | GrantedByNotCaller
  | NoGrantPermission gostring
  | NoRevokePermission gostring
  | NoGrantRolePermission gostring gostring
  | NoRevokeRolePermission gostring gostring
  | StmtSchemaError schema_error
  | StmtNotSupported
  | CascadeNotSupported
  | PersistFailed
  | StmtAuthFormat auth_error
  | RoleAlreadyExists gostring
  | NoCreatePermission gostring
  | NoAlterPermission gostring gostring
  | NoDropPermission gostring gostring
  | PasswordFailed
  | TimestampFailed
  | RoleOptionNotSupported gostring
  | UnknownRoleOption gostring

text \<open>How a statement ends: it may return an error, panic, or not return at the given depth of calls. The state is
  what it was made up to that point.\<close>

datatype ending = Ok | Error stmt_error | Panic | NoReturn

section \<open>Storing the database\<close>

definition write_with :: "writing \<Rightarrow> byte list \<Rightarrow> auth_server \<Rightarrow> ending \<times> auth_server" where
  "write_with wr data s = (let (success, file) = wr data
     in (if success then Ok else Error PersistFailed, s\<lparr>auth_file := file\<rparr>))"

definition PersistChanges :: "storage \<Rightarrow> auth_server \<Rightarrow> ending \<times> auth_server" where
  "PersistChanges st s = (case clusterReplicator st of
     Some replicator \<Rightarrow> write_with replicator (Database_serialize (server_db s)) s
   | None \<Rightarrow> (case fileSystem st of
       Some fs \<Rightarrow> write_with fs (Database_serialize (server_db s)) s
     | None \<Rightarrow> (Ok, s)))"

definition WriteSerializedDatabase :: "storage \<Rightarrow> byte list \<Rightarrow> auth_server \<Rightarrow> ending \<times> auth_server" where
  "WriteSerializedDatabase st data s = (case fileSystem st of
     Some fs \<Rightarrow> write_with fs data s
   | None \<Rightarrow> (Ok, s))"

text \<open>\<open>deserialize\<close> moves the counter even when the database it fills is dropped afterwards; it cannot fail after
  that. Bytes that end too early make the reader panic.\<close>

definition OverwriteDatabase :: "storage \<Rightarrow> byte list \<Rightarrow> byte list \<Rightarrow> auth_server \<Rightarrow> ending \<times> auth_server" where
  "OverwriteDatabase st data spare s = (case Database_deserialize data spare (server_counter s) of
     None \<Rightarrow> (Panic, s)
   | Some (Inl e) \<Rightarrow> (Error (StmtAuthFormat e), s)
   | Some (Inr (fresh, counter)) \<Rightarrow> WriteSerializedDatabase st data (s\<lparr>server_db := fresh, server_counter := counter\<rparr>))"

section \<open>Loops that stop at the first error\<close>

fun each_stmt :: "('a \<Rightarrow> 's \<Rightarrow> ending \<times> 's) \<Rightarrow> 'a list \<Rightarrow> 's \<Rightarrow> ending \<times> 's" where
  "each_stmt body [] s = (Ok, s)"
| "each_stmt body (x # xs) s = (case body x s of (Ok, s') \<Rightarrow> each_stmt body xs s' | r \<Rightarrow> r)"

lemma each_stmt_Ok_Cons:
  "each_stmt body (x # xs) s = (Ok, s') \<longleftrightarrow> (\<exists>s1. body x s = (Ok, s1) \<and> each_stmt body xs s1 = (Ok, s'))"
  by (cases "body x s"; cases "fst (body x s)") auto

text \<open>What every round keeps, the loop keeps; what every round adds to or removes from a set, the loop adds or
  removes.\<close>

lemma each_stmt_keeps:
  assumes "\<And>x s e s'. x \<in> set xs \<Longrightarrow> I s \<Longrightarrow> body x s = (e, s') \<Longrightarrow> I s'"
    and "I s" and "each_stmt body xs s = (e, s')"
  shows "I s'"
  using assms
proof (induction xs arbitrary: s)
  case (Cons x xs)
  obtain e1 s1 where b: "body x s = (e1, s1)" by (cases "body x s")
  have "I s1" using Cons.prems(1) [OF _ Cons.prems(2) b] by simp
  then show ?case using Cons.IH [of s1] Cons.prems(1,3) b by (cases e1) auto
qed simp

lemma each_stmt_keeps_Ok:
  assumes "\<And>x s s'. x \<in> set xs \<Longrightarrow> I s \<Longrightarrow> body x s = (Ok, s') \<Longrightarrow> I s'"
    and "I s" and "each_stmt body xs s = (Ok, s')"
  shows "I s'"
  using assms
proof (induction xs arbitrary: s)
  case (Cons x xs)
  obtain s1 where b: "body x s = (Ok, s1)" "each_stmt body xs s1 = (Ok, s')"
    using Cons.prems(3) unfolding each_stmt_Ok_Cons by blast
  have "I s1" using Cons.prems(1) [OF _ Cons.prems(2) b(1)] by simp
  then show ?case using Cons.IH [of s1] Cons.prems(1) b(2) by auto
qed simp

lemma each_stmt_adds:
  assumes "\<And>x s s'. x \<in> set xs \<Longrightarrow> body x s = (Ok, s') \<Longrightarrow> G s' = G s \<union> S x"
    and "each_stmt body xs s = (Ok, s')"
  shows "G s' = G s \<union> (\<Union>x \<in> set xs. S x)"
  using assms
proof (induction xs arbitrary: s)
  case (Cons x xs)
  obtain s1 where b: "body x s = (Ok, s1)" "each_stmt body xs s1 = (Ok, s')"
    using Cons.prems(2) unfolding each_stmt_Ok_Cons by blast
  with Cons.IH [OF _ b(2)] Cons.prems(1) [OF _ b(1)] Cons.prems(1) show ?case by auto
qed simp

lemma each_stmt_removes:
  assumes "\<And>x s s'. x \<in> set xs \<Longrightarrow> body x s = (Ok, s') \<Longrightarrow> G s' = G s - S x"
    and "each_stmt body xs s = (Ok, s')"
  shows "G s' = G s - (\<Union>x \<in> set xs. S x)"
  using assms
proof (induction xs arbitrary: s)
  case (Cons x xs)
  obtain s1 where b: "body x s = (Ok, s1)" "each_stmt body xs s1 = (Ok, s')"
    using Cons.prems(2) unfolding each_stmt_Ok_Cons by blast
  with Cons.IH [OF _ b(2)] Cons.prems(1) [OF _ b(1)] Cons.prems(1) show ?case by auto
qed simp

end
