(* ===== verification/Grant_Statements.thy ===== *)
theory Grant_Statements
  imports Auth_Server
begin

text \<open>
  The statements \<open>GRANT\<close> and \<open>REVOKE\<close>: \<open>src/server/node/grant.go\<close> and \<open>revoke.go\<close>. The fuel is the depth of calls of the
  searches of the grant option and of memberships. The parts of a statement that are pointers in the source
  are options.
\<close>

section \<open>GRANT\<close>

record TableName =
  tn_Name :: gostring
  tn_Schema :: gostring

record 'o object_grant =
  og_Privileges :: "Privilege list"
  og_Objects :: "'o list"

record Grant =
  GrantTable :: "TableName object_grant option"
  GrantSchema :: "gostring object_grant option"
  GrantDatabase :: "gostring object_grant option"
  GrantSequence :: "SequencePrivilegeKey object_grant option"
  GrantRoutine :: "RoutinePrivilegeKey object_grant option"
  GrantRole :: "gostring list option"
  ToRoles :: "gostring list"
  g_WithGrantOption :: bool
  g_GrantedBy :: gostring

text \<open>The loop that looks up roles by name and fails at the first that does not exist.\<close>

fun find_roles :: "Database \<Rightarrow> gostring list \<Rightarrow> stmt_error + Role list" where
  "find_roles db [] = Inr []"
| "find_roles db (name # names) =
     (let role = GetRole db name in
      if \<not> Role_IsValid role then Inl (StmtRoleMissing name)
      else (case find_roles db names of Inl e \<Rightarrow> Inl e | Inr roles \<Rightarrow> Inr (role # roles)))"

definition Grant_common :: "Database \<Rightarrow> session \<Rightarrow> Grant \<Rightarrow> stmt_error + Role list \<times> Role" where
  "Grant_common db ctx g = (case find_roles db (ToRoles g) of
     Inl e \<Rightarrow> Inl e
   | Inr roles \<Rightarrow>
       let userRole = GetRole db (Client_User ctx) in
       if \<not> Role_IsValid userRole then Inl (StmtRoleMissing (Client_User ctx))
       else if g_GrantedBy g \<noteq> [] then
         (let grantedByRole = GetRole db (g_GrantedBy g) in
          if \<not> Role_IsValid grantedByRole then Inl (StmtRoleMissing (g_GrantedBy g))
          else if role_id userRole \<noteq> role_id grantedByRole then Inl GrantedByNotCaller
          else Inr (roles, userRole))
       else Inr (roles, userRole))"

text \<open>The loop over the privileges, the same for the five kinds of objects: the search of the grant option, the
  operation that adds, and the key of the object for a role.\<close>

definition grant_object ::
  "(Database \<Rightarrow> 'k \<Rightarrow> Privilege \<Rightarrow> RoleID option) \<Rightarrow> (Database \<Rightarrow> 'k \<Rightarrow> GrantedPrivilege \<Rightarrow> bool \<Rightarrow> Database) \<Rightarrow>
   (RoleID \<Rightarrow> 'k) \<Rightarrow> Role \<Rightarrow> bool \<Rightarrow> Privilege list \<Rightarrow> Role \<Rightarrow> Database \<Rightarrow> ending \<times> Database" where
  "grant_object has_option add key userRole withGrantOption privileges role =
     each_stmt (\<lambda>privilege db. case has_option db (key (role_id userRole)) privilege of
         None \<Rightarrow> (NoReturn, db)
       | Some grantedBy \<Rightarrow>
           if \<not> RoleID_IsValid grantedBy then (Error (NoGrantPermission (role_Name userRole)), db)
           else (Ok, add db (key (role_id role)) \<lparr>gp_Privilege = privilege, GrantedBy = grantedBy\<rparr> withGrantOption))
       privileges"

definition in_stmt_schema :: "session \<Rightarrow> gostring \<Rightarrow> (gostring \<Rightarrow> 's \<Rightarrow> ending \<times> 's) \<Rightarrow> 's \<Rightarrow> ending \<times> 's" where
  "in_stmt_schema ctx schema body s = (case GetSchemaName ctx schema of
     Inl e \<Rightarrow> (Error (StmtSchemaError e), s)
   | Inr schemaName \<Rightarrow> body schemaName s)"

text \<open>The two outer loops, over the roles and the objects.\<close>

definition for_roles_and_objects ::
  "(stmt_error + Role list \<times> 'u) \<Rightarrow> ('u \<Rightarrow> 'o \<Rightarrow> Role \<Rightarrow> 's \<Rightarrow> ending \<times> 's) \<Rightarrow> 'o list \<Rightarrow> 's \<Rightarrow> ending \<times> 's" where
  "for_roles_and_objects common body objects s = (case common of
     Inl e \<Rightarrow> (Error e, s)
   | Inr (roles, user) \<Rightarrow> each_stmt (\<lambda>role. each_stmt (\<lambda>object. body user object role) objects) roles s)"

definition grantTable :: "nat \<Rightarrow> session \<Rightarrow> Grant \<Rightarrow> TableName object_grant \<Rightarrow> Database \<Rightarrow> ending \<times> Database" where
  "grantTable n ctx g t db = for_roles_and_objects (Grant_common db ctx g)
     (\<lambda>userRole table role. in_stmt_schema ctx (tn_Schema table) (\<lambda>schemaName.
        grant_object (HasTablePrivilegeGrantOption n) AddTablePrivilege
          (\<lambda>r. \<lparr>tk_Role = r, tk_Name = tn_Name table, tk_Schema = schemaName\<rparr>) userRole (g_WithGrantOption g) (og_Privileges t) role))
     (og_Objects t) db"

definition grantSchema :: "nat \<Rightarrow> session \<Rightarrow> Grant \<Rightarrow> gostring object_grant \<Rightarrow> Database \<Rightarrow> ending \<times> Database" where
  "grantSchema n ctx g t db = for_roles_and_objects (Grant_common db ctx g)
     (\<lambda>userRole schema. grant_object (HasSchemaPrivilegeGrantOption n) AddSchemaPrivilege
        (\<lambda>r. \<lparr>sk_Role = r, sk_Schema = schema\<rparr>) userRole (g_WithGrantOption g) (og_Privileges t))
     (og_Objects t) db"

definition grantDatabase :: "nat \<Rightarrow> session \<Rightarrow> Grant \<Rightarrow> gostring object_grant \<Rightarrow> Database \<Rightarrow> ending \<times> Database" where
  "grantDatabase n ctx g t db = for_roles_and_objects (Grant_common db ctx g)
     (\<lambda>userRole database. grant_object (HasDatabasePrivilegeGrantOption n) AddDatabasePrivilege
        (\<lambda>r. \<lparr>dk_Role = r, dk_Name = database\<rparr>) userRole (g_WithGrantOption g) (og_Privileges t))
     (og_Objects t) db"

definition grantSequence :: "nat \<Rightarrow> session \<Rightarrow> Grant \<Rightarrow> SequencePrivilegeKey object_grant \<Rightarrow> Database \<Rightarrow> ending \<times> Database" where
  "grantSequence n ctx g t db = for_roles_and_objects (Grant_common db ctx g)
     (\<lambda>userRole seq role. in_stmt_schema ctx (qk_Schema seq) (\<lambda>schemaName.
        grant_object (HasSequencePrivilegeGrantOption n) AddSequencePrivilege
          (\<lambda>r. \<lparr>qk_Role = r, qk_Schema = schemaName, qk_Name = qk_Name seq\<rparr>) userRole (g_WithGrantOption g) (og_Privileges t) role))
     (og_Objects t) db"

definition grantRoutine :: "nat \<Rightarrow> session \<Rightarrow> Grant \<Rightarrow> RoutinePrivilegeKey object_grant \<Rightarrow> Database \<Rightarrow> ending \<times> Database" where
  "grantRoutine n ctx g t db = for_roles_and_objects (Grant_common db ctx g)
     (\<lambda>userRole routine role. in_stmt_schema ctx (rk_Schema routine) (\<lambda>schemaName.
        grant_object (HasRoutinePrivilegeGrantOption n) AddRoutinePrivilege
          (\<lambda>r. \<lparr>rk_Role = r, rk_Schema = schemaName, rk_Name = rk_Name routine, rk_ArgTypes = rk_ArgTypes routine\<rparr>)
          userRole (g_WithGrantOption g) (og_Privileges t) role))
     (og_Objects t) db"

definition grantRole :: "nat \<Rightarrow> session \<Rightarrow> Grant \<Rightarrow> gostring list \<Rightarrow> Database \<Rightarrow> ending \<times> Database" where
  "grantRole n ctx g groupNames db = (case Grant_common db ctx g of
     Inl e \<Rightarrow> (Error e, db)
   | Inr (members, userRole) \<Rightarrow> (case find_roles db groupNames of
       Inl e \<Rightarrow> (Error e, db)
     | Inr groups \<Rightarrow>
         each_stmt (\<lambda>member. each_stmt (\<lambda>grp db. case IsRoleAMember n db (role_id userRole) (role_id grp) of
             None \<Rightarrow> (NoReturn, db)
           | Some (memberGroupID, _, withAdminOption) \<Rightarrow>
               if \<not> RoleID_IsValid memberGroupID \<or> \<not> withAdminOption
               then (Error (NoGrantRolePermission (role_Name userRole) (role_Name grp)), db)
               else (case AddMemberToGroup n db (role_id member) (role_id grp) (g_WithGrantOption g) memberGroupID of
                 Diverges \<Rightarrow> (NoReturn, db)
               | Panics \<Rightarrow> (Panic, db)
               | Done db' \<Rightarrow> (Ok, db'))) groups) members db))"

text \<open>The body of the write lock in \<open>RowIter\<close>: the change, and on success the file. Waiting for the replicas does not
  change the state.\<close>

definition persist_on_success :: "storage \<Rightarrow> (Database \<Rightarrow> ending \<times> Database) \<Rightarrow> auth_server \<Rightarrow> ending \<times> auth_server" where
  "persist_on_success st change s = (case change (server_db s) of
     (Ok, db) \<Rightarrow> PersistChanges st (s\<lparr>server_db := db\<rparr>)
   | (e, db) \<Rightarrow> (e, s\<lparr>server_db := db\<rparr>))"

definition Grant_change :: "nat \<Rightarrow> session \<Rightarrow> Grant \<Rightarrow> Database \<Rightarrow> ending \<times> Database" where
  "Grant_change n ctx g db = (case GrantTable g of
     Some t \<Rightarrow> grantTable n ctx g t db
   | None \<Rightarrow> (case GrantSchema g of
     Some t \<Rightarrow> grantSchema n ctx g t db
   | None \<Rightarrow> (case GrantDatabase g of
     Some t \<Rightarrow> grantDatabase n ctx g t db
   | None \<Rightarrow> (case GrantSequence g of
     Some t \<Rightarrow> grantSequence n ctx g t db
   | None \<Rightarrow> (case GrantRoutine g of
     Some t \<Rightarrow> grantRoutine n ctx g t db
   | None \<Rightarrow> (case GrantRole g of
     Some groups \<Rightarrow> grantRole n ctx g groups db
   | None \<Rightarrow> (Error StmtNotSupported, db)))))))"

definition Grant_RowIter :: "nat \<Rightarrow> storage \<Rightarrow> session \<Rightarrow> Grant \<Rightarrow> auth_server \<Rightarrow> ending \<times> auth_server" where
  "Grant_RowIter n st ctx g s = persist_on_success st (Grant_change n ctx g) s"

section \<open>REVOKE\<close>

record Revoke =
  RevokeTable :: "TableName object_grant option"
  RevokeSchema :: "gostring object_grant option"
  RevokeDatabase :: "gostring object_grant option"
  RevokeSequence :: "SequencePrivilegeKey object_grant option"
  RevokeRoutine :: "RoutinePrivilegeKey object_grant option"
  RevokeRole :: "gostring list option"
  FromRoles :: "gostring list"
  r_GrantedBy :: gostring
  GrantOptionFor :: bool
  Cascade :: bool

text \<open>\<open>grantedByID\<close> keeps its zero value when \<open>GRANTED BY\<close> is given. \<open>None\<close>: the search of the membership does not return.\<close>

definition Revoke_common :: "nat \<Rightarrow> Database \<Rightarrow> session \<Rightarrow> Revoke \<Rightarrow> (stmt_error + Role list \<times> Role \<times> RoleID) option" where
  "Revoke_common n db ctx r = (case find_roles db (FromRoles r) of
     Inl e \<Rightarrow> Some (Inl e)
   | Inr roles \<Rightarrow>
       let userRole = GetRole db (Client_User ctx) in
       if \<not> Role_IsValid userRole then Some (Inl (StmtRoleMissing (Client_User ctx)))
       else if r_GrantedBy r \<noteq> [] then
         (let grantedByRole = GetRole db (r_GrantedBy r) in
          if \<not> Role_IsValid grantedByRole then Some (Inl (StmtRoleMissing (r_GrantedBy r)))
          else (case IsRoleAMember n db (role_id userRole) (role_id grantedByRole) of
            None \<Rightarrow> None
          | Some (groupID, _, _) \<Rightarrow>
              if \<not> RoleID_IsValid groupID then Some (Inl (NoRevokePermission (role_Name userRole)))
              else Some (Inr (roles, userRole, 0))))
       else Some (Inr (roles, userRole, role_id userRole)))"

definition revoke_object ::
  "(Database \<Rightarrow> 'k \<Rightarrow> Privilege \<Rightarrow> RoleID option) \<Rightarrow> (Database \<Rightarrow> 'k \<Rightarrow> GrantedPrivilege \<Rightarrow> bool \<Rightarrow> Database) \<Rightarrow>
   (RoleID \<Rightarrow> 'k) \<Rightarrow> Role \<times> RoleID \<Rightarrow> bool \<Rightarrow> Privilege list \<Rightarrow> Role \<Rightarrow> Database \<Rightarrow> ending \<times> Database" where
  "revoke_object has_option remove key user grantOptionFor privileges role =
     each_stmt (\<lambda>privilege db. case has_option db (key (role_id (fst user))) privilege of
         None \<Rightarrow> (NoReturn, db)
       | Some i \<Rightarrow>
           if \<not> RoleID_IsValid i then (Error (NoRevokePermission (role_Name (fst user))), db)
           else (Ok, remove db (key (role_id role)) \<lparr>gp_Privilege = privilege, GrantedBy = snd user\<rparr> grantOptionFor))
       privileges"

definition with_common :: "'a option \<Rightarrow> ('a \<Rightarrow> 's \<Rightarrow> ending \<times> 's) \<Rightarrow> 's \<Rightarrow> ending \<times> 's" where
  "with_common common body s = (case common of None \<Rightarrow> (NoReturn, s) | Some c \<Rightarrow> body c s)"

definition revokeTable :: "nat \<Rightarrow> session \<Rightarrow> Revoke \<Rightarrow> TableName object_grant \<Rightarrow> Database \<Rightarrow> ending \<times> Database" where
  "revokeTable n ctx r t db = with_common (Revoke_common n db ctx r) (\<lambda>common. for_roles_and_objects common
     (\<lambda>user table role. in_stmt_schema ctx (tn_Schema table) (\<lambda>schemaName.
        revoke_object (HasTablePrivilegeGrantOption n) RemoveTablePrivilege
          (\<lambda>r. \<lparr>tk_Role = r, tk_Name = tn_Name table, tk_Schema = schemaName\<rparr>) user (GrantOptionFor r) (og_Privileges t) role))
     (og_Objects t)) db"

definition revokeSchema :: "nat \<Rightarrow> session \<Rightarrow> Revoke \<Rightarrow> gostring object_grant \<Rightarrow> Database \<Rightarrow> ending \<times> Database" where
  "revokeSchema n ctx r t db = with_common (Revoke_common n db ctx r) (\<lambda>common. for_roles_and_objects common
     (\<lambda>user schema. revoke_object (HasSchemaPrivilegeGrantOption n) RemoveSchemaPrivilege
        (\<lambda>r. \<lparr>sk_Role = r, sk_Schema = schema\<rparr>) user (GrantOptionFor r) (og_Privileges t))
     (og_Objects t)) db"

definition revokeDatabase :: "nat \<Rightarrow> session \<Rightarrow> Revoke \<Rightarrow> gostring object_grant \<Rightarrow> Database \<Rightarrow> ending \<times> Database" where
  "revokeDatabase n ctx r t db = with_common (Revoke_common n db ctx r) (\<lambda>common. for_roles_and_objects common
     (\<lambda>user database. revoke_object (HasDatabasePrivilegeGrantOption n) RemoveDatabasePrivilege
        (\<lambda>r. \<lparr>dk_Role = r, dk_Name = database\<rparr>) user (GrantOptionFor r) (og_Privileges t))
     (og_Objects t)) db"

definition revokeSequence :: "nat \<Rightarrow> session \<Rightarrow> Revoke \<Rightarrow> SequencePrivilegeKey object_grant \<Rightarrow> Database \<Rightarrow> ending \<times> Database" where
  "revokeSequence n ctx r t db = with_common (Revoke_common n db ctx r) (\<lambda>common. for_roles_and_objects common
     (\<lambda>user seq role. in_stmt_schema ctx (qk_Schema seq) (\<lambda>schemaName.
        revoke_object (HasSequencePrivilegeGrantOption n) RemoveSequencePrivilege
          (\<lambda>r. \<lparr>qk_Role = r, qk_Schema = schemaName, qk_Name = qk_Name seq\<rparr>) user (GrantOptionFor r) (og_Privileges t) role))
     (og_Objects t)) db"

definition revokeRoutine :: "nat \<Rightarrow> session \<Rightarrow> Revoke \<Rightarrow> RoutinePrivilegeKey object_grant \<Rightarrow> Database \<Rightarrow> ending \<times> Database" where
  "revokeRoutine n ctx r t db = with_common (Revoke_common n db ctx r) (\<lambda>common. for_roles_and_objects common
     (\<lambda>user routine role. in_stmt_schema ctx (rk_Schema routine) (\<lambda>schemaName.
        revoke_object (HasRoutinePrivilegeGrantOption n) RemoveRoutinePrivilege
          (\<lambda>r. \<lparr>rk_Role = r, rk_Schema = schemaName, rk_Name = rk_Name routine, rk_ArgTypes = rk_ArgTypes routine\<rparr>)
          user (GrantOptionFor r) (og_Privileges t) role))
     (og_Objects t)) db"

definition revokeRole :: "nat \<Rightarrow> session \<Rightarrow> Revoke \<Rightarrow> gostring list \<Rightarrow> Database \<Rightarrow> ending \<times> Database" where
  "revokeRole n ctx r groupNames db = (case Revoke_common n db ctx r of
     None \<Rightarrow> (NoReturn, db)
   | Some (Inl e) \<Rightarrow> (Error e, db)
   | Some (Inr (members, userRole, _)) \<Rightarrow> (case find_roles db groupNames of
       Inl e \<Rightarrow> (Error e, db)
     | Inr groups \<Rightarrow>
         each_stmt (\<lambda>member. each_stmt (\<lambda>grp db. case IsRoleAMember n db (role_id userRole) (role_id grp) of
             None \<Rightarrow> (NoReturn, db)
           | Some (memberGroupID, _, withAdminOption) \<Rightarrow>
               if \<not> RoleID_IsValid memberGroupID \<or> \<not> withAdminOption
               then (Error (NoRevokeRolePermission (role_Name userRole) (role_Name grp)), db)
               else (Ok, RemoveMemberFromGroup db (role_id member) (role_id grp) (GrantOptionFor r))) groups) members db))"

definition Revoke_change :: "nat \<Rightarrow> session \<Rightarrow> Revoke \<Rightarrow> Database \<Rightarrow> ending \<times> Database" where
  "Revoke_change n ctx r db = (case RevokeTable r of
     Some t \<Rightarrow> revokeTable n ctx r t db
   | None \<Rightarrow> (case RevokeSchema r of
     Some t \<Rightarrow> revokeSchema n ctx r t db
   | None \<Rightarrow> (case RevokeDatabase r of
     Some t \<Rightarrow> revokeDatabase n ctx r t db
   | None \<Rightarrow> (case RevokeSequence r of
     Some t \<Rightarrow> revokeSequence n ctx r t db
   | None \<Rightarrow> (case RevokeRoutine r of
     Some t \<Rightarrow> revokeRoutine n ctx r t db
   | None \<Rightarrow> (case RevokeRole r of
     Some groups \<Rightarrow> revokeRole n ctx r groups db
   | None \<Rightarrow> (Error StmtNotSupported, db)))))))"

definition Revoke_RowIter :: "nat \<Rightarrow> storage \<Rightarrow> session \<Rightarrow> Revoke \<Rightarrow> auth_server \<Rightarrow> ending \<times> auth_server" where
  "Revoke_RowIter n st ctx r s =
     (if Cascade r then (Error CascadeNotSupported, s) else persist_on_success st (Revoke_change n ctx r) s)"

end
