(* ===== verification/Grant_Store.thy ===== *)
theory Grant_Store
  imports Grant_Statements Auth_Props
begin

text \<open>
  What the loops of \<open>GRANT\<close> and \<open>REVOKE\<close> do to a privilege table. The locale \<open>privilege_store\<close> extends the contract of a
  key type by where the table stands in the database and by the three operations the statements call on it;
  the five tables interpret it.
\<close>

section \<open>Roles by name\<close>

lemma find_roles_find:
  "find_roles db names = (case List.find (\<lambda>name. \<not> Role_IsValid (GetRole db name)) names of
     Some name \<Rightarrow> Inl (StmtRoleMissing name) | None \<Rightarrow> Inr (map (GetRole db) names))"
  by (induction names) (simp_all add: Let_def split: option.split)

lemma find_roles_Inr:
  "find_roles db names = Inr roles \<longleftrightarrow> (\<forall>name \<in> set names. Role_IsValid (GetRole db name)) \<and> roles = map (GetRole db) names"
  by (auto simp: find_roles_find find_None_iff find_Some_iff split: option.splits)

lemma Grant_common_Inr:
  "Grant_common db ctx g = Inr (roles, userRole) \<Longrightarrow>
   roles = map (GetRole db) (ToRoles g) \<and> userRole = GetRole db (Client_User ctx) \<and> Role_IsValid userRole"
  by (auto simp: Grant_common_def find_roles_Inr Let_def split: sum.splits if_splits)

lemma Revoke_common_Inr:
  "Revoke_common n db ctx r = Some (Inr (roles, userRole, granter)) \<Longrightarrow>
   roles = map (GetRole db) (FromRoles r) \<and> userRole = GetRole db (Client_User ctx) \<and> Role_IsValid userRole \<and>
   granter = (if r_GrantedBy r = [] then role_id userRole else 0)"
  by (auto simp: Revoke_common_def find_roles_Inr Let_def split: sum.splits if_splits option.splits)

section \<open>What a table holds\<close>

text \<open>The privileges that keys have, and the single grants behind them.\<close>

definition own_pairs :: "'k privileges \<Rightarrow> ('k \<times> Privilege) set" where
  "own_pairs data = {(k, p). own_privilege data k p}"

definition grant_pairs :: "'k privileges \<Rightarrow> ('k \<times> GrantedPrivilege) set" where
  "grant_pairs data = {(k, gp). gm_get (granted data k (gp_Privilege gp)) gp \<noteq> None}"

text \<open>The grants that may be passed on.\<close>

definition option_pairs :: "'k privileges \<Rightarrow> ('k \<times> GrantedPrivilege) set" where
  "option_pairs data = {(k, gp). gm_get (granted data k (gp_Privilege gp)) gp = Some True}"

lemma own_pairs_add: "own_pairs (add_privilege key gp w data) = own_pairs data \<union> {(key, gp_Privilege gp)}"
  by (auto simp: own_pairs_def own_privilege_def granted_add)

lemma grant_pairs_add: "grant_pairs (add_privilege key gp w data) = grant_pairs data \<union> {(key, gp)}"
  by (auto simp: grant_pairs_def granted_add)

text \<open>The grants that a revocation takes away: all of the privilege when no granter is given.\<close>

definition revoked_pairs :: "'k \<Rightarrow> Privilege \<Rightarrow> RoleID \<Rightarrow> ('k \<times> GrantedPrivilege) set" where
  "revoked_pairs key p granter = {(key, gp) | gp. gp_Privilege gp = p \<and> (granter \<noteq> 0 \<longrightarrow> GrantedBy gp = granter)}"

lemma gm_get_clear: "gm_get (map (\<lambda>(k, _). (k, False)) m) k \<noteq> None \<longleftrightarrow> gm_get m k \<noteq> None"
  by (induction m) (auto simp: gm_get_def)

lemma grant_pairs_remove:
  "grant_pairs (remove_privilege key gp only data) =
     (if only then grant_pairs data else grant_pairs data - revoked_pairs key (gp_Privilege gp) (GrantedBy gp))"
proof -
  have "(k, g) \<in> grant_pairs (remove_privilege key gp only data) \<longleftrightarrow>
      (k, g) \<in> grant_pairs data \<and> (only \<or> (k, g) \<notin> revoked_pairs key (gp_Privilege gp) (GrantedBy gp))" for k g
  proof (cases "k = key \<and> gp_Privilege g = gp_Privilege gp")
    case True
    then have "g = gp \<longleftrightarrow> GrantedBy g = GrantedBy gp" by (auto intro: GrantedPrivilege.equality)
    with True show ?thesis using gm_get_clear [of "granted data key (gp_Privilege gp)" g]
      by (auto simp: grant_pairs_def revoked_pairs_def granted_remove Let_def RoleID_IsValid_def)
  next
    case False
    then show ?thesis by (auto simp: grant_pairs_def revoked_pairs_def granted_remove Let_def)
  qed
  then show ?thesis by auto
qed

lemma gm_get_cleared: "gm_get (map (\<lambda>(k, _). (k, False)) m) k \<noteq> Some True"
  by (induction m) (auto simp: gm_get_def)

lemma option_pairs_remove:
  "option_pairs (remove_privilege key gp only data) = option_pairs data - revoked_pairs key (gp_Privilege gp) (GrantedBy gp)"
proof -
  have "(k, g) \<in> option_pairs (remove_privilege key gp only data) \<longleftrightarrow>
      (k, g) \<in> option_pairs data \<and> (k, g) \<notin> revoked_pairs key (gp_Privilege gp) (GrantedBy gp)" for k g
  proof (cases "k = key \<and> gp_Privilege g = gp_Privilege gp")
    case True
    then have "g = gp \<longleftrightarrow> GrantedBy g = GrantedBy gp" by (auto intro: GrantedPrivilege.equality)
    with True show ?thesis using gm_get_cleared [of "granted data key (gp_Privilege gp)" g]
      by (auto simp: option_pairs_def revoked_pairs_def granted_remove Let_def RoleID_IsValid_def)
  next
    case False
    then show ?thesis by (auto simp: option_pairs_def revoked_pairs_def granted_remove Let_def)
  qed
  then show ?thesis by auto
qed

section \<open>The contract of a table in the database\<close>

locale privilege_store = privilege_key ops for ops :: "'k key_ops" +
  fixes get_table :: "Database \<Rightarrow> 'k privileges"
    and put_table :: "'k privileges \<Rightarrow> Database \<Rightarrow> Database"
    and has_option :: "nat \<Rightarrow> Database \<Rightarrow> 'k \<Rightarrow> Privilege \<Rightarrow> RoleID option"
    and add :: "Database \<Rightarrow> 'k \<Rightarrow> GrantedPrivilege \<Rightarrow> bool \<Rightarrow> Database"
    and remove :: "Database \<Rightarrow> 'k \<Rightarrow> GrantedPrivilege \<Rightarrow> bool \<Rightarrow> Database"
  assumes get_put [simp]: "get_table (put_table t db) = t"
    and put_put [simp]: "put_table t (put_table t' db) = put_table t db"
    and put_get [simp]: "put_table (get_table db) db = db"
    and put_roles [simp]: "rolesByID (put_table t db) = rolesByID db" "rolesByName (put_table t db) = rolesByName db"
      "roleMembership (put_table t db) = roleMembership db"
    and has_option_eq: "has_option n db key p = has_grant_option n ops db (get_table db) p key"
    and add_eq: "add db key gp w = put_table (add_privilege key gp w (get_table db)) db"
    and remove_eq: "remove db key gp only = put_table (remove_privilege key gp only (get_table db)) db"
begin

lemma grant_object_adds:
  assumes "grant_object (has_option n) add key user w ps role db = (Ok, db')"
  shows "own_pairs (get_table db') = own_pairs (get_table db) \<union> {key (role_id role)} \<times> set ps"
proof -
  have "own_pairs (get_table db') = own_pairs (get_table db) \<union> (\<Union>p \<in> set ps. {(key (role_id role), p)})"
    using assms unfolding grant_object_def
    by (rule each_stmt_adds [rotated]) (auto simp: add_eq own_pairs_add split: option.splits if_splits)
  then show ?thesis by auto
qed

text \<open>The rest of the database stays, whether the loop ends well or not.\<close>

lemma grant_object_frame:
  assumes "grant_object (has_option n) add key user w ps role db = (e, db')"
  shows "\<exists>t. db' = put_table t db"
  using assms unfolding grant_object_def
  by (rule each_stmt_keeps [where I = "\<lambda>d. \<exists>t. d = put_table t db", rotated 2])
    (auto simp: add_eq split: option.splits if_splits intro: exI [of _ "get_table db"])

lemma priv_edge_put [simp]: "GetAllGroupsWithMember (put_table t db) = GetAllGroupsWithMember db"
proof -
  have "groups_of (put_table t db) = groups_of db" by (simp add: fun_eq_iff groups_of_def)
  then show ?thesis by (intro ext) (simp add: GetAllGroupsWithMember_def split: option.split)
qed

text \<open>Every new grant names as its granter the caller or a role that the caller inherits from.\<close>

definition granters_known :: "Database \<Rightarrow> RoleID \<Rightarrow> Database \<Rightarrow> bool" where
  "granters_known db user d \<longleftrightarrow> (\<exists>t. d = put_table t db) \<and>
     (\<forall>(k, gp) \<in> grant_pairs (get_table d) - grant_pairs (get_table db). GrantedBy gp \<noteq> 0 \<and> (priv_edge db)\<^sup>*\<^sup>* user (GrantedBy gp))"

lemma grant_object_granters:
  assumes "grant_object (has_option n) add key user w ps role d = (e, d')" and "granters_known db (role_id user) d"
    and "key_role ops (key (role_id user)) = role_id user"
  shows "granters_known db (role_id user) d'"
  using assms(1) unfolding grant_object_def
proof (rule each_stmt_keeps [where I = "granters_known db (role_id user)", rotated 2])
  fix p s e s'
  assume known: "granters_known db (role_id user) s"
    and step: "(case has_option n s (key (role_id user)) p of None \<Rightarrow> (NoReturn, s)
      | Some grantedBy \<Rightarrow> if \<not> RoleID_IsValid grantedBy then (Error (NoGrantPermission (role_Name user)), s)
          else (Ok, add s (key (role_id role)) \<lparr>gp_Privilege = p, GrantedBy = grantedBy\<rparr> w)) = (e, s')"
  show "granters_known db (role_id user) s'"
  proof (cases "s' = s")
    case False
    then obtain g where g: "has_option n s (key (role_id user)) p = Some g" "g \<noteq> 0"
      "s' = add s (key (role_id role)) \<lparr>gp_Privilege = p, GrantedBy = g\<rparr> w"
      using step by (auto simp: RoleID_IsValid_def split: option.splits if_splits)
    obtain t where t: "s = put_table t db" using known by (auto simp: granters_known_def)
    have "(priv_edge s)\<^sup>*\<^sup>* (role_id user) g"
      using grant_option_role [OF g(1) [unfolded has_option_eq] g(2)] assms(3) by simp
    then have "(priv_edge db)\<^sup>*\<^sup>* (role_id user) g" by (simp add: t)
    then show ?thesis using known g(2) unfolding g(3) by (auto simp: granters_known_def add_eq grant_pairs_add)
  qed (use known in simp)
qed (use assms in simp)

text \<open>What a revocation takes from a set that is read off the table: all that it names, or nothing.\<close>

lemma revoke_object_removes:
  assumes "revoke_object (has_option n) remove key user only ps role db = (Ok, db')"
    and "\<And>key gp data. H (remove_privilege key gp only data) = H data - (if taken then revoked_pairs key (gp_Privilege gp) (GrantedBy gp) else {})"
  shows "H (get_table db') = H (get_table db) - (\<Union>p \<in> set ps. if taken then revoked_pairs (key (role_id role)) p (snd user) else {})"
  using assms(1) unfolding revoke_object_def
  by (rule each_stmt_removes [where G = "\<lambda>d. H (get_table d)", rotated]) (auto simp: remove_eq assms(2) split: option.splits if_splits)

lemma revoke_object_frame:
  assumes "revoke_object (has_option n) remove key user only ps role db = (e, db')"
  shows "\<exists>t. db' = put_table t db"
  using assms unfolding revoke_object_def
  by (rule each_stmt_keeps [where I = "\<lambda>d. \<exists>t. d = put_table t db", rotated 2])
    (auto simp: remove_eq split: option.splits if_splits intro: exI [of _ "get_table db"])

end

interpretation database_store: privilege_store database_key_ops databasePrivileges "\<lambda>t. databasePrivileges_update (\<lambda>_. t)"
  HasDatabasePrivilegeGrantOption AddDatabasePrivilege RemoveDatabasePrivilege
  by unfold_locales (simp_all add: HasDatabasePrivilegeGrantOption_def AddDatabasePrivilege_def RemoveDatabasePrivilege_def)

interpretation schema_store: privilege_store schema_key_ops schemaPrivileges "\<lambda>t. schemaPrivileges_update (\<lambda>_. t)"
  HasSchemaPrivilegeGrantOption AddSchemaPrivilege RemoveSchemaPrivilege
  by unfold_locales (simp_all add: HasSchemaPrivilegeGrantOption_def AddSchemaPrivilege_def RemoveSchemaPrivilege_def)

interpretation table_store: privilege_store table_key_ops tablePrivileges "\<lambda>t. tablePrivileges_update (\<lambda>_. t)"
  HasTablePrivilegeGrantOption AddTablePrivilege RemoveTablePrivilege
  by unfold_locales (simp_all add: HasTablePrivilegeGrantOption_def AddTablePrivilege_def RemoveTablePrivilege_def)

interpretation sequence_store: privilege_store sequence_key_ops sequencePrivileges "\<lambda>t. sequencePrivileges_update (\<lambda>_. t)"
  HasSequencePrivilegeGrantOption AddSequencePrivilege RemoveSequencePrivilege
  by unfold_locales (simp_all add: HasSequencePrivilegeGrantOption_def AddSequencePrivilege_def RemoveSequencePrivilege_def)

interpretation routine_store: privilege_store routine_key_ops routinePrivileges "\<lambda>t. routinePrivileges_update (\<lambda>_. t)"
  HasRoutinePrivilegeGrantOption AddRoutinePrivilege RemoveRoutinePrivilege
  by unfold_locales (simp_all add: HasRoutinePrivilegeGrantOption_def AddRoutinePrivilege_def RemoveRoutinePrivilege_def)

end
