(* ===== verification/Grant_Props.thy ===== *)
theory Grant_Props
  imports Grant_Store Auth_Store Auth_Handler_Props
begin

text \<open>
  What the statements \<open>GRANT\<close> and \<open>REVOKE\<close> do as a whole.
\<close>

section \<open>The outer loops\<close>

lemma in_stmt_schema_cases:
  "in_stmt_schema ctx schema body s = (e, s') \<Longrightarrow>
   (s' = s \<and> e \<noteq> Ok) \<or> (\<exists>name. GetSchemaName ctx schema = Inr name \<and> body name s = (e, s'))"
  by (auto simp: in_stmt_schema_def split: sum.splits)

lemma for_roles_Ok:
  assumes "for_roles_and_objects common body objs s = (Ok, s')"
  obtains roles user where "common = Inr (roles, user)"
    "each_stmt (\<lambda>role. each_stmt (\<lambda>object. body user object role) objs) roles s = (Ok, s')"
  using assms by (auto simp: for_roles_and_objects_def split: sum.splits)

lemma for_roles_keeps:
  assumes "for_roles_and_objects common body objs s = (e, s')" and "I s"
    and "\<And>roles user obj role s e s'. common = Inr (roles, user) \<Longrightarrow> I s \<Longrightarrow> body user obj role s = (e, s') \<Longrightarrow> I s'"
  shows "I s'"
proof (cases common)
  case (Inr p)
  obtain roles user where p: "p = (roles, user)" by (cases p)
  have loop: "each_stmt (\<lambda>role. each_stmt (\<lambda>object. body user object role) objs) roles s = (e, s')"
    using assms(1) by (simp add: for_roles_and_objects_def Inr p)
  have inner: "I s2" if "I s1" "each_stmt (\<lambda>object. body user object role) objs s1 = (e1, s2)" for role s1 e1 s2
    by (rule each_stmt_keeps [where I = I, OF _ that]) (use assms(3) Inr p in blast)
  show ?thesis by (rule each_stmt_keeps [where I = I, OF _ assms(2) loop]) (use inner in blast)
qed (use assms in \<open>simp add: for_roles_and_objects_def\<close>)

lemma for_roles_keeps_Ok:
  assumes "for_roles_and_objects common body objs s = (Ok, s')" and "I s"
    and "\<And>roles user obj role s s'. common = Inr (roles, user) \<Longrightarrow> I s \<Longrightarrow> body user obj role s = (Ok, s') \<Longrightarrow> I s'"
  shows "I s'"
proof -
  obtain roles user where c: "common = Inr (roles, user)"
    and loop: "each_stmt (\<lambda>role. each_stmt (\<lambda>object. body user object role) objs) roles s = (Ok, s')"
    using for_roles_Ok [OF assms(1)] .
  have inner: "I s2" if "I s1" "each_stmt (\<lambda>object. body user object role) objs s1 = (Ok, s2)" for role s1 s2
    by (rule each_stmt_keeps_Ok [where I = I, OF _ that]) (use assms(3) c in blast)
  show ?thesis by (rule each_stmt_keeps_Ok [where I = I, OF _ assms(2) loop]) (use inner in blast)
qed

text \<open>The schema of an object, and the pairs of key and privilege that a statement names.\<close>

definition resolved :: "session \<Rightarrow> gostring \<Rightarrow> gostring" where
  "resolved ctx schema = (case GetSchemaName ctx schema of Inr name \<Rightarrow> name | Inl _ \<Rightarrow> [])"

definition table_of :: "session \<Rightarrow> TableName \<Rightarrow> RoleID \<Rightarrow> TablePrivilegeKey" where
  "table_of ctx t r = \<lparr>tk_Role = r, tk_Name = tn_Name t, tk_Schema = resolved ctx (tn_Schema t)\<rparr>"

definition sequence_of :: "session \<Rightarrow> SequencePrivilegeKey \<Rightarrow> RoleID \<Rightarrow> SequencePrivilegeKey" where
  "sequence_of ctx q r = \<lparr>qk_Role = r, qk_Schema = resolved ctx (qk_Schema q), qk_Name = qk_Name q\<rparr>"

definition routine_of :: "session \<Rightarrow> RoutinePrivilegeKey \<Rightarrow> RoleID \<Rightarrow> RoutinePrivilegeKey" where
  "routine_of ctx f r = \<lparr>rk_Role = r, rk_Schema = resolved ctx (rk_Schema f), rk_Name = rk_Name f, rk_ArgTypes = rk_ArgTypes f\<rparr>"

definition schema_of :: "gostring \<Rightarrow> RoleID \<Rightarrow> SchemaPrivilegeKey" where
  "schema_of s r = \<lparr>sk_Role = r, sk_Schema = s\<rparr>"

definition database_of :: "gostring \<Rightarrow> RoleID \<Rightarrow> DatabasePrivilegeKey" where
  "database_of d r = \<lparr>dk_Role = r, dk_Name = d\<rparr>"

lemmas key_of_defs = table_of_def sequence_of_def routine_of_def schema_of_def database_of_def resolved_def

definition named_pairs :: "Database \<Rightarrow> gostring list \<Rightarrow> ('o \<Rightarrow> RoleID \<Rightarrow> 'k) \<Rightarrow> 'o object_grant \<Rightarrow> ('k \<times> Privilege) set" where
  "named_pairs db names key t =
     {(key obj (role_id (GetRole db name)), p) | name obj p. name \<in> set names \<and> obj \<in> set (og_Objects t) \<and> p \<in> set (og_Privileges t)}"

text \<open>The single grants that a \<open>REVOKE\<close> names: all granters, when it has a \<open>GRANTED BY\<close>.\<close>

definition revoked_grants ::
  "session \<Rightarrow> Revoke \<Rightarrow> Database \<Rightarrow> ('o \<Rightarrow> RoleID \<Rightarrow> 'k) \<Rightarrow> 'o object_grant \<Rightarrow> ('k \<times> GrantedPrivilege) set" where
  "revoked_grants ctx r db key t = {(k, gp). (k, gp_Privilege gp) \<in> named_pairs db (FromRoles r) key t \<and>
     (r_GrantedBy r = [] \<longrightarrow> GrantedBy gp = role_id (GetRole db (Client_User ctx)))}"

context privilege_store
begin

lemma grant_effect:
  assumes "for_roles_and_objects (Grant_common db ctx g) body (og_Objects t) db = (Ok, db')"
    and body: "\<And>user obj role s s'. body user obj role s = (Ok, s') \<Longrightarrow>
      grant_object (has_option n) add (key obj) user w (og_Privileges t) role s = (Ok, s')"
  shows "own_pairs (get_table db') = own_pairs (get_table db) \<union> named_pairs db (ToRoles g) key t \<and> db' = put_table (get_table db') db"
proof -
  obtain roles user where c: "Grant_common db ctx g = Inr (roles, user)"
    and loop: "each_stmt (\<lambda>role. each_stmt (\<lambda>object. body user object role) (og_Objects t)) roles db = (Ok, db')"
    using for_roles_Ok [OF assms(1)] .
  have roles: "roles = map (GetRole db) (ToRoles g)" using Grant_common_Inr [OF c] by blast
  let ?G = "\<lambda>d. own_pairs (get_table d)"
  have inner: "?G s' = ?G s \<union> (\<Union>obj \<in> set (og_Objects t). {key obj (role_id role)} \<times> set (og_Privileges t))"
    if "each_stmt (\<lambda>object. body user object role) (og_Objects t) s = (Ok, s')" for role s s'
    by (rule each_stmt_adds [where G = ?G, OF _ that]) (use body grant_object_adds in blast)
  have "?G db' = ?G db \<union> (\<Union>role \<in> set roles. \<Union>obj \<in> set (og_Objects t). {key obj (role_id role)} \<times> set (og_Privileges t))"
    by (rule each_stmt_adds [where G = ?G, OF _ loop]) (use inner in blast)
  moreover have "(\<Union>role \<in> set roles. \<Union>obj \<in> set (og_Objects t). {key obj (role_id role)} \<times> set (og_Privileges t)) =
      named_pairs db (ToRoles g) key t"
    by (auto simp: named_pairs_def roles)
  moreover have "\<exists>x. db' = put_table x db"
    by (rule for_roles_keeps_Ok [where I = "\<lambda>d. \<exists>x. d = put_table x db", OF assms(1)])
      (metis put_get, metis body grant_object_frame put_put)
  ultimately show ?thesis by auto
qed

lemma grant_granters:
  assumes "for_roles_and_objects (Grant_common db ctx g) body objs db = (e, db')"
    and body: "\<And>user obj role s e s'. body user obj role s = (e, s') \<Longrightarrow>
      s' = s \<or> (\<exists>key. key_role ops (key (role_id user)) = role_id user \<and> grant_object (has_option n) add key user w ps role s = (e, s'))"
  shows "\<forall>(k, gp) \<in> grant_pairs (get_table db') - grant_pairs (get_table db).
    GrantedBy gp \<noteq> 0 \<and> (priv_edge db)\<^sup>*\<^sup>* (role_id (GetRole db (Client_User ctx))) (GrantedBy gp)"
proof -
  let ?u = "role_id (GetRole db (Client_User ctx))"
  have "granters_known db ?u db" unfolding granters_known_def by (auto intro: exI [of _ "get_table db"])
  then have "granters_known db ?u db'"
  proof (rule for_roles_keeps [where I = "granters_known db ?u", OF assms(1)])
    fix roles user obj role s e s'
    assume c: "Grant_common db ctx g = Inr (roles, user)" and known: "granters_known db ?u s" and b: "body user obj role s = (e, s')"
    have u: "role_id user = ?u" using Grant_common_Inr [OF c] by simp
    from body [OF b] show "granters_known db ?u s'"
    proof (elim disjE exE conjE)
      fix key assume "key_role ops (key (role_id user)) = role_id user" "grant_object (has_option n) add key user w ps role s = (e, s')"
      then show ?thesis using grant_object_granters [of n key user w ps role s e s' db] known u by simp
    qed (use known in simp)
  qed
  then show ?thesis by (simp add: granters_known_def)
qed

lemma revoke_effect_on:
  assumes "with_common (Revoke_common n db ctx r) (\<lambda>common. for_roles_and_objects common body (og_Objects t)) db = (Ok, db')"
    and body: "\<And>user obj role s s'. body user obj role s = (Ok, s') \<Longrightarrow>
      revoke_object (has_option n) remove (key obj) user only (og_Privileges t) role s = (Ok, s')"
    and H: "\<And>key gp data. H (remove_privilege key gp only data) = H data - (if taken then revoked_pairs key (gp_Privilege gp) (GrantedBy gp) else {})"
  shows "H (get_table db') = H (get_table db) - (if taken then revoked_grants ctx r db key t else {}) \<and> (\<exists>x. db' = put_table x db)"
proof -
  obtain common where c: "Revoke_common n db ctx r = Some common" "for_roles_and_objects common body (og_Objects t) db = (Ok, db')"
    using assms(1) by (auto simp: with_common_def split: option.splits)
  obtain roles user where u: "common = Inr (roles, user)"
    and loop: "each_stmt (\<lambda>role. each_stmt (\<lambda>object. body user object role) (og_Objects t)) roles db = (Ok, db')"
    using for_roles_Ok [OF c(2)] .
  have com: "roles = map (GetRole db) (FromRoles r)" "fst user = GetRole db (Client_User ctx)" "role_id (fst user) \<noteq> 0"
    "snd user = (if r_GrantedBy r = [] then role_id (fst user) else 0)"
    using Revoke_common_Inr [of n db ctx r roles "fst user" "snd user"] c(1) u by (auto simp: Role_IsValid_def RoleID_IsValid_def)
  let ?G = "\<lambda>d. H (get_table d)"
  let ?S = "\<lambda>obj role. \<Union>p \<in> set (og_Privileges t). if taken then revoked_pairs (key obj (role_id role)) p (snd user) else {}"
  have inner: "?G s' = ?G s - (\<Union>obj \<in> set (og_Objects t). ?S obj role)"
    if "each_stmt (\<lambda>object. body user object role) (og_Objects t) s = (Ok, s')" for role s s'
    by (rule each_stmt_removes [where G = ?G, OF _ that]) (rule revoke_object_removes [where H = H, OF body H])
  have "?G db' = ?G db - (\<Union>role \<in> set roles. \<Union>obj \<in> set (og_Objects t). ?S obj role)"
    by (rule each_stmt_removes [where G = ?G, OF _ loop]) (use inner in blast)
  moreover have "(\<Union>role \<in> set roles. \<Union>obj \<in> set (og_Objects t). ?S obj role) = (if taken then revoked_grants ctx r db key t else {})"
    using com by (auto simp: revoked_grants_def named_pairs_def revoked_pairs_def)
  moreover have "\<exists>x. db' = put_table x db"
    by (rule for_roles_keeps_Ok [where I = "\<lambda>d. \<exists>x. d = put_table x db", OF c(2)])
      (metis put_get, metis body revoke_object_frame put_put)
  ultimately show ?thesis by auto
qed

lemma revoke_effect:
  assumes "with_common (Revoke_common n db ctx r) (\<lambda>common. for_roles_and_objects common body (og_Objects t)) db = (Ok, db')"
    and "\<And>user obj role s s'. body user obj role s = (Ok, s') \<Longrightarrow>
      revoke_object (has_option n) remove (key obj) user only (og_Privileges t) role s = (Ok, s')"
  shows "grant_pairs (get_table db') = grant_pairs (get_table db) - (if only then {} else revoked_grants ctx r db key t) \<and>
    option_pairs (get_table db') = option_pairs (get_table db) - revoked_grants ctx r db key t \<and> db' = put_table (get_table db') db"
proof -
  have "grant_pairs (get_table db') = grant_pairs (get_table db) - (if \<not> only then revoked_grants ctx r db key t else {}) \<and> (\<exists>x. db' = put_table x db)"
    by (rule revoke_effect_on [OF assms(1)]) (rule assms(2), simp_all add: grant_pairs_remove)
  moreover have "option_pairs (get_table db') = option_pairs (get_table db) - (if True then revoked_grants ctx r db key t else {}) \<and> (\<exists>x. db' = put_table x db)"
    by (rule revoke_effect_on [OF assms(1)]) (rule assms(2), simp_all add: option_pairs_remove)
  ultimately show ?thesis by auto
qed

end

lemma in_stmt_schema_Ok:
  "in_stmt_schema ctx schema body s = (Ok, s') \<Longrightarrow> body (resolved ctx schema) s = (Ok, s')"
  by (auto simp: in_stmt_schema_def resolved_def split: sum.splits)

lemma grantTable_effect:
  assumes "grantTable n ctx g t db = (Ok, db')"
  shows "own_pairs (tablePrivileges db') = own_pairs (tablePrivileges db) \<union> named_pairs db (ToRoles g) (table_of ctx) t \<and>
    db' = db\<lparr>tablePrivileges := tablePrivileges db'\<rparr>"
  by (rule table_store.grant_effect [where n = n and w = "g_WithGrantOption g", OF assms [unfolded grantTable_def]])
    (drule in_stmt_schema_Ok, simp add: table_of_def [abs_def])

lemma grantTable_granters:
  assumes "grantTable n ctx g t db = (e, db')"
  shows "\<forall>(k, gp) \<in> grant_pairs (tablePrivileges db') - grant_pairs (tablePrivileges db).
    GrantedBy gp \<noteq> 0 \<and> (priv_edge db)\<^sup>*\<^sup>* (role_id (GetRole db (Client_User ctx))) (GrantedBy gp)"
  by (rule table_store.grant_granters [where n = n and w = "g_WithGrantOption g" and ps = "og_Privileges t",
        OF assms [unfolded grantTable_def]]) (drule in_stmt_schema_cases, fastforce simp: table_key_ops_def)

lemma revokeTable_effect:
  assumes "revokeTable n ctx r t db = (Ok, db')"
  shows "grant_pairs (tablePrivileges db') = grant_pairs (tablePrivileges db) - (if GrantOptionFor r then {} else revoked_grants ctx r db (table_of ctx) t) \<and>
    option_pairs (tablePrivileges db') = option_pairs (tablePrivileges db) - revoked_grants ctx r db (table_of ctx) t \<and> db' = db\<lparr>tablePrivileges := tablePrivileges db'\<rparr>"
  by (rule table_store.revoke_effect [OF assms(1) [unfolded revokeTable_def]])
    (drule in_stmt_schema_Ok, simp add: table_of_def [abs_def])

lemma grantSchema_effect:
  assumes "grantSchema n ctx g t db = (Ok, db')"
  shows "own_pairs (schemaPrivileges db') = own_pairs (schemaPrivileges db) \<union> named_pairs db (ToRoles g) schema_of t \<and>
    db' = db\<lparr>schemaPrivileges := schemaPrivileges db'\<rparr>"
  by (rule schema_store.grant_effect [where n = n and w = "g_WithGrantOption g", OF assms [unfolded grantSchema_def]])
    (simp add: schema_of_def [abs_def])

lemma grantSchema_granters:
  assumes "grantSchema n ctx g t db = (e, db')"
  shows "\<forall>(k, gp) \<in> grant_pairs (schemaPrivileges db') - grant_pairs (schemaPrivileges db).
    GrantedBy gp \<noteq> 0 \<and> (priv_edge db)\<^sup>*\<^sup>* (role_id (GetRole db (Client_User ctx))) (GrantedBy gp)"
  by (rule schema_store.grant_granters [where n = n and w = "g_WithGrantOption g" and ps = "og_Privileges t",
        OF assms [unfolded grantSchema_def]]) (rule disjI2, rule exI, rule conjI [rotated], assumption, simp add: schema_key_ops_def)

lemma revokeSchema_effect:
  assumes "revokeSchema n ctx r t db = (Ok, db')"
  shows "grant_pairs (schemaPrivileges db') = grant_pairs (schemaPrivileges db) - (if GrantOptionFor r then {} else revoked_grants ctx r db schema_of t) \<and>
    option_pairs (schemaPrivileges db') = option_pairs (schemaPrivileges db) - revoked_grants ctx r db schema_of t \<and> db' = db\<lparr>schemaPrivileges := schemaPrivileges db'\<rparr>"
  by (rule schema_store.revoke_effect [OF assms(1) [unfolded revokeSchema_def]])
    (simp add: schema_of_def [abs_def])

lemma grantDatabase_effect:
  assumes "grantDatabase n ctx g t db = (Ok, db')"
  shows "own_pairs (databasePrivileges db') = own_pairs (databasePrivileges db) \<union> named_pairs db (ToRoles g) database_of t \<and>
    db' = db\<lparr>databasePrivileges := databasePrivileges db'\<rparr>"
  by (rule database_store.grant_effect [where n = n and w = "g_WithGrantOption g", OF assms [unfolded grantDatabase_def]])
    (simp add: database_of_def [abs_def])

lemma grantDatabase_granters:
  assumes "grantDatabase n ctx g t db = (e, db')"
  shows "\<forall>(k, gp) \<in> grant_pairs (databasePrivileges db') - grant_pairs (databasePrivileges db).
    GrantedBy gp \<noteq> 0 \<and> (priv_edge db)\<^sup>*\<^sup>* (role_id (GetRole db (Client_User ctx))) (GrantedBy gp)"
  by (rule database_store.grant_granters [where n = n and w = "g_WithGrantOption g" and ps = "og_Privileges t",
        OF assms [unfolded grantDatabase_def]]) (rule disjI2, rule exI, rule conjI [rotated], assumption, simp add: database_key_ops_def)

lemma revokeDatabase_effect:
  assumes "revokeDatabase n ctx r t db = (Ok, db')"
  shows "grant_pairs (databasePrivileges db') = grant_pairs (databasePrivileges db) - (if GrantOptionFor r then {} else revoked_grants ctx r db database_of t) \<and>
    option_pairs (databasePrivileges db') = option_pairs (databasePrivileges db) - revoked_grants ctx r db database_of t \<and> db' = db\<lparr>databasePrivileges := databasePrivileges db'\<rparr>"
  by (rule database_store.revoke_effect [OF assms(1) [unfolded revokeDatabase_def]])
    (simp add: database_of_def [abs_def])

lemma grantSequence_effect:
  assumes "grantSequence n ctx g t db = (Ok, db')"
  shows "own_pairs (sequencePrivileges db') = own_pairs (sequencePrivileges db) \<union> named_pairs db (ToRoles g) (sequence_of ctx) t \<and>
    db' = db\<lparr>sequencePrivileges := sequencePrivileges db'\<rparr>"
  by (rule sequence_store.grant_effect [where n = n and w = "g_WithGrantOption g", OF assms [unfolded grantSequence_def]])
    (drule in_stmt_schema_Ok, simp add: sequence_of_def [abs_def])

lemma grantSequence_granters:
  assumes "grantSequence n ctx g t db = (e, db')"
  shows "\<forall>(k, gp) \<in> grant_pairs (sequencePrivileges db') - grant_pairs (sequencePrivileges db).
    GrantedBy gp \<noteq> 0 \<and> (priv_edge db)\<^sup>*\<^sup>* (role_id (GetRole db (Client_User ctx))) (GrantedBy gp)"
  by (rule sequence_store.grant_granters [where n = n and w = "g_WithGrantOption g" and ps = "og_Privileges t",
        OF assms [unfolded grantSequence_def]]) (drule in_stmt_schema_cases, fastforce simp: sequence_key_ops_def)

lemma revokeSequence_effect:
  assumes "revokeSequence n ctx r t db = (Ok, db')"
  shows "grant_pairs (sequencePrivileges db') = grant_pairs (sequencePrivileges db) - (if GrantOptionFor r then {} else revoked_grants ctx r db (sequence_of ctx) t) \<and>
    option_pairs (sequencePrivileges db') = option_pairs (sequencePrivileges db) - revoked_grants ctx r db (sequence_of ctx) t \<and> db' = db\<lparr>sequencePrivileges := sequencePrivileges db'\<rparr>"
  by (rule sequence_store.revoke_effect [OF assms(1) [unfolded revokeSequence_def]])
    (drule in_stmt_schema_Ok, simp add: sequence_of_def [abs_def])

lemma grantRoutine_effect:
  assumes "grantRoutine n ctx g t db = (Ok, db')"
  shows "own_pairs (routinePrivileges db') = own_pairs (routinePrivileges db) \<union> named_pairs db (ToRoles g) (routine_of ctx) t \<and>
    db' = db\<lparr>routinePrivileges := routinePrivileges db'\<rparr>"
  by (rule routine_store.grant_effect [where n = n and w = "g_WithGrantOption g", OF assms [unfolded grantRoutine_def]])
    (drule in_stmt_schema_Ok, simp add: routine_of_def [abs_def])

lemma grantRoutine_granters:
  assumes "grantRoutine n ctx g t db = (e, db')"
  shows "\<forall>(k, gp) \<in> grant_pairs (routinePrivileges db') - grant_pairs (routinePrivileges db).
    GrantedBy gp \<noteq> 0 \<and> (priv_edge db)\<^sup>*\<^sup>* (role_id (GetRole db (Client_User ctx))) (GrantedBy gp)"
  by (rule routine_store.grant_granters [where n = n and w = "g_WithGrantOption g" and ps = "og_Privileges t",
        OF assms [unfolded grantRoutine_def]]) (drule in_stmt_schema_cases, fastforce simp: routine_key_ops_def)

lemma revokeRoutine_effect:
  assumes "revokeRoutine n ctx r t db = (Ok, db')"
  shows "grant_pairs (routinePrivileges db') = grant_pairs (routinePrivileges db) - (if GrantOptionFor r then {} else revoked_grants ctx r db (routine_of ctx) t) \<and>
    option_pairs (routinePrivileges db') = option_pairs (routinePrivileges db) - revoked_grants ctx r db (routine_of ctx) t \<and> db' = db\<lparr>routinePrivileges := routinePrivileges db'\<rparr>"
  by (rule routine_store.revoke_effect [OF assms(1) [unfolded revokeRoutine_def]])
    (drule in_stmt_schema_Ok, simp add: routine_of_def [abs_def])

section \<open>Properties of GRANT\<close>

text \<open>C8. A \<open>GRANT\<close> that succeeds gives every named role every named privilege on every named object, with a
  missing schema resolved by the session, and changes nothing else: no other role, object or privilege, and
  no other part of the database. This holds for tables, schemas, databases, sequences and routines.\<close>

theorem grant_statement_effect:
  "(grantTable n ctx g tt db = (Ok, db') \<longrightarrow>
      own_pairs (tablePrivileges db') = own_pairs (tablePrivileges db) \<union> named_pairs db (ToRoles g) (table_of ctx) tt \<and>
      db' = db\<lparr>tablePrivileges := tablePrivileges db'\<rparr>) \<and>
   (grantSchema n ctx g ts db = (Ok, db') \<longrightarrow>
      own_pairs (schemaPrivileges db') = own_pairs (schemaPrivileges db) \<union> named_pairs db (ToRoles g) schema_of ts \<and>
      db' = db\<lparr>schemaPrivileges := schemaPrivileges db'\<rparr>) \<and>
   (grantDatabase n ctx g td db = (Ok, db') \<longrightarrow>
      own_pairs (databasePrivileges db') = own_pairs (databasePrivileges db) \<union> named_pairs db (ToRoles g) database_of td \<and>
      db' = db\<lparr>databasePrivileges := databasePrivileges db'\<rparr>) \<and>
   (grantSequence n ctx g tq db = (Ok, db') \<longrightarrow>
      own_pairs (sequencePrivileges db') = own_pairs (sequencePrivileges db) \<union> named_pairs db (ToRoles g) (sequence_of ctx) tq \<and>
      db' = db\<lparr>sequencePrivileges := sequencePrivileges db'\<rparr>) \<and>
   (grantRoutine n ctx g tr db = (Ok, db') \<longrightarrow>
      own_pairs (routinePrivileges db') = own_pairs (routinePrivileges db) \<union> named_pairs db (ToRoles g) (routine_of ctx) tr \<and>
      db' = db\<lparr>routinePrivileges := routinePrivileges db'\<rparr>)"
  using grantTable_effect [of n ctx g tt db db'] grantSchema_effect [of n ctx g ts db db'] grantDatabase_effect [of n ctx g td db db']
    grantSequence_effect [of n ctx g tq db db'] grantRoutine_effect [of n ctx g tr db db'] by blast

definition root_session :: session where
  "root_session = demo_session\<lparr>Client_User := gs ''root''\<rparr>"

definition no_grant :: Grant where
  "no_grant = \<lparr>GrantTable = None, GrantSchema = None, GrantDatabase = None, GrantSequence = None, GrantRoutine = None,
     GrantRole = None, ToRoles = [], g_WithGrantOption = False, g_GrantedBy = []\<rparr>"

definition demo_tables_grant :: "TableName object_grant" where
  "demo_tables_grant = \<lparr>og_Privileges = [Privilege_INSERT, Privilege_UPDATE],
     og_Objects = [\<lparr>tn_Name = gs ''film'', tn_Schema = []\<rparr>]\<rparr>"

definition demo_grant_stmt :: Grant where
  "demo_grant_stmt = no_grant\<lparr>GrantTable := Some demo_tables_grant, ToRoles := [gs ''alice'']\<rparr>"

theorem grant_statement_effect_witness:
  "\<exists>db'. grantTable 4 root_session demo_grant_stmt demo_tables_grant demo_db = (Ok, db') \<and>
     own_pairs (tablePrivileges db') = own_pairs (tablePrivileges demo_db) \<union>
       named_pairs demo_db [gs ''alice''] (table_of root_session) demo_tables_grant"
proof -
  have "fst (grantTable 4 root_session demo_grant_stmt demo_tables_grant demo_db) = Ok" "ToRoles demo_grant_stmt = [gs ''alice'']"
    by code_simp+
  then obtain db' where "grantTable 4 root_session demo_grant_stmt demo_tables_grant demo_db = (Ok, db')"
    by (cases "grantTable 4 root_session demo_grant_stmt demo_tables_grant demo_db") auto
  then show ?thesis
    using grant_statement_effect [of 4 root_session demo_grant_stmt demo_tables_grant demo_db db'] \<open>ToRoles demo_grant_stmt = _\<close> by auto
qed

text \<open>However a \<open>GRANT\<close> ends, every grant that it added names as its granter the caller or a role the caller
  inherits privileges from, never the invalid role.\<close>

theorem grants_name_a_granter:
  "(grantTable n ctx g tt db = (e, db') \<longrightarrow>
      (\<forall>(k, gp) \<in> grant_pairs (tablePrivileges db') - grant_pairs (tablePrivileges db).
        GrantedBy gp \<noteq> 0 \<and> (priv_edge db)\<^sup>*\<^sup>* (role_id (GetRole db (Client_User ctx))) (GrantedBy gp))) \<and>
   (grantSchema n ctx g ts db = (e, db') \<longrightarrow>
      (\<forall>(k, gp) \<in> grant_pairs (schemaPrivileges db') - grant_pairs (schemaPrivileges db).
        GrantedBy gp \<noteq> 0 \<and> (priv_edge db)\<^sup>*\<^sup>* (role_id (GetRole db (Client_User ctx))) (GrantedBy gp))) \<and>
   (grantDatabase n ctx g td db = (e, db') \<longrightarrow>
      (\<forall>(k, gp) \<in> grant_pairs (databasePrivileges db') - grant_pairs (databasePrivileges db).
        GrantedBy gp \<noteq> 0 \<and> (priv_edge db)\<^sup>*\<^sup>* (role_id (GetRole db (Client_User ctx))) (GrantedBy gp))) \<and>
   (grantSequence n ctx g tq db = (e, db') \<longrightarrow>
      (\<forall>(k, gp) \<in> grant_pairs (sequencePrivileges db') - grant_pairs (sequencePrivileges db).
        GrantedBy gp \<noteq> 0 \<and> (priv_edge db)\<^sup>*\<^sup>* (role_id (GetRole db (Client_User ctx))) (GrantedBy gp))) \<and>
   (grantRoutine n ctx g tr db = (e, db') \<longrightarrow>
      (\<forall>(k, gp) \<in> grant_pairs (routinePrivileges db') - grant_pairs (routinePrivileges db).
        GrantedBy gp \<noteq> 0 \<and> (priv_edge db)\<^sup>*\<^sup>* (role_id (GetRole db (Client_User ctx))) (GrantedBy gp)))"
  by (intro conjI impI; rule grantTable_granters grantSchema_granters grantDatabase_granters grantSequence_granters
      grantRoutine_granters; assumption)

theorem grants_name_a_granter_witness:
  "\<exists>db'. grantTable 4 root_session demo_grant_stmt demo_tables_grant demo_db = (Ok, db') \<and>
     (\<forall>(k, gp) \<in> grant_pairs (tablePrivileges db') - grant_pairs (tablePrivileges demo_db). GrantedBy gp \<noteq> 0)"
proof -
  have "fst (grantTable 4 root_session demo_grant_stmt demo_tables_grant demo_db) = Ok" by code_simp
  then obtain db' where "grantTable 4 root_session demo_grant_stmt demo_tables_grant demo_db = (Ok, db')"
    by (cases "grantTable 4 root_session demo_grant_stmt demo_tables_grant demo_db") auto
  then show ?thesis
    using grants_name_a_granter [of 4 root_session demo_grant_stmt demo_tables_grant demo_db Ok db'] by fastforce
qed

section \<open>Properties of REVOKE\<close>

text \<open>C27. A \<open>REVOKE\<close> of privileges on tables, schemas, databases, sequences or routines that succeeds takes away, from every named role, the single grants of the named privileges on the named
  objects, and nothing else in the database changes. With \<open>GRANT OPTION FOR\<close> the grants stay and only the right to pass them on goes; otherwise both go. Without \<open>GRANTED BY\<close> this concerns the grants of
  the caller only. With it, the code does not use the granter it names (against the comment on \<open>common\<close>): the grants of every granter are concerned.\<close>

theorem revoke_statement_effect:
  "(revokeTable n ctx r tt db = (Ok, db') \<longrightarrow>
      grant_pairs (tablePrivileges db') = grant_pairs (tablePrivileges db) - (if GrantOptionFor r then {} else revoked_grants ctx r db (table_of ctx) tt) \<and>
      option_pairs (tablePrivileges db') = option_pairs (tablePrivileges db) - revoked_grants ctx r db (table_of ctx) tt \<and> db' = db\<lparr>tablePrivileges := tablePrivileges db'\<rparr>) \<and>
   (revokeSchema n ctx r ts db = (Ok, db') \<longrightarrow>
      grant_pairs (schemaPrivileges db') = grant_pairs (schemaPrivileges db) - (if GrantOptionFor r then {} else revoked_grants ctx r db schema_of ts) \<and>
      option_pairs (schemaPrivileges db') = option_pairs (schemaPrivileges db) - revoked_grants ctx r db schema_of ts \<and> db' = db\<lparr>schemaPrivileges := schemaPrivileges db'\<rparr>) \<and>
   (revokeDatabase n ctx r td db = (Ok, db') \<longrightarrow>
      grant_pairs (databasePrivileges db') = grant_pairs (databasePrivileges db) - (if GrantOptionFor r then {} else revoked_grants ctx r db database_of td) \<and>
      option_pairs (databasePrivileges db') = option_pairs (databasePrivileges db) - revoked_grants ctx r db database_of td \<and> db' = db\<lparr>databasePrivileges := databasePrivileges db'\<rparr>) \<and>
   (revokeSequence n ctx r tq db = (Ok, db') \<longrightarrow>
      grant_pairs (sequencePrivileges db') = grant_pairs (sequencePrivileges db) - (if GrantOptionFor r then {} else revoked_grants ctx r db (sequence_of ctx) tq) \<and>
      option_pairs (sequencePrivileges db') = option_pairs (sequencePrivileges db) - revoked_grants ctx r db (sequence_of ctx) tq \<and> db' = db\<lparr>sequencePrivileges := sequencePrivileges db'\<rparr>) \<and>
   (revokeRoutine n ctx r tr db = (Ok, db') \<longrightarrow>
      grant_pairs (routinePrivileges db') = grant_pairs (routinePrivileges db) - (if GrantOptionFor r then {} else revoked_grants ctx r db (routine_of ctx) tr) \<and>
      option_pairs (routinePrivileges db') = option_pairs (routinePrivileges db) - revoked_grants ctx r db (routine_of ctx) tr \<and> db' = db\<lparr>routinePrivileges := routinePrivileges db'\<rparr>)"
  using revokeTable_effect [of n ctx r tt db db'] revokeSchema_effect [of n ctx r ts db db'] revokeDatabase_effect [of n ctx r td db db']
    revokeSequence_effect [of n ctx r tq db db'] revokeRoutine_effect [of n ctx r tr db db'] by blast

text \<open>\<open>alice\<close> may read the table by a grant of \<open>root\<close> and by one of \<open>staff\<close>.\<close>

definition two_granters :: Database where
  "two_granters = AddTablePrivilege (AddTablePrivilege demo_db alice_table demo_grant False) alice_table
     \<lparr>gp_Privilege = Privilege_SELECT, GrantedBy = 3\<rparr> True"

definition demo_revoke :: "gostring \<Rightarrow> Revoke" where
  "demo_revoke grantedBy = \<lparr>RevokeTable = None, RevokeSchema = None, RevokeDatabase = None, RevokeSequence = None,
     RevokeRoutine = None, RevokeRole = None, FromRoles = [gs ''alice''], r_GrantedBy = grantedBy, GrantOptionFor = False,
     Cascade = False\<rparr>"

definition demo_select_film :: "TableName object_grant" where
  "demo_select_film = \<lparr>og_Privileges = [Privilege_SELECT], og_Objects = [\<lparr>tn_Name = gs ''film'', tn_Schema = []\<rparr>]\<rparr>"

theorem revoke_statement_effect_witness:
  "\<exists>db'. revokeTable 4 root_session (demo_revoke (gs ''staff'')) demo_select_film two_granters = (Ok, db') \<and>
     (alice_table, demo_grant) \<in> grant_pairs (tablePrivileges two_granters) \<and>
     (alice_table, demo_grant) \<notin> grant_pairs (tablePrivileges db')"
proof -
  let ?r = "demo_revoke (gs ''staff'')"
  have "fst (revokeTable 4 root_session ?r demo_select_film two_granters) = Ok" by code_simp
  then obtain db' where ok: "revokeTable 4 root_session ?r demo_select_film two_granters = (Ok, db')"
    by (cases "revokeTable 4 root_session ?r demo_select_film two_granters") auto
  have facts: "gm_get (granted (tablePrivileges two_granters) alice_table Privilege_SELECT) demo_grant = Some False"
    "alice_table = table_of root_session \<lparr>tn_Name = gs ''film'', tn_Schema = []\<rparr> (role_id (GetRole two_granters (gs ''alice'')))"
    "r_GrantedBy ?r \<noteq> []" "FromRoles ?r = [gs ''alice'']" "gp_Privilege demo_grant = Privilege_SELECT" by code_simp+
  have "\<not> GrantOptionFor ?r" by (simp add: demo_revoke_def)
  then have "grant_pairs (tablePrivileges db') = grant_pairs (tablePrivileges two_granters) -
      {(k, gp). (k, gp_Privilege gp) \<in> named_pairs two_granters [gs ''alice''] (table_of root_session) demo_select_film}"
    using conjunct1 [OF revoke_statement_effect [of 4 root_session ?r demo_select_film two_granters db']] ok facts(3,4) by (simp add: revoked_grants_def)
  moreover have "(alice_table, Privilege_SELECT) \<in> named_pairs two_granters [gs ''alice''] (table_of root_session) demo_select_film"
    using facts(2) by (auto simp: named_pairs_def demo_select_film_def)
  moreover have "(alice_table, demo_grant) \<in> grant_pairs (tablePrivileges two_granters)"
    using facts(1,5) by (auto simp: grant_pairs_def)
  ultimately show ?thesis using ok facts(5) by auto
qed

section \<open>Memory and file\<close>

text \<open>C30. A \<open>GRANT\<close> or \<open>REVOKE\<close> that succeeds on a server without a replicator and with a file, where a successful write leaves its bytes in the file, is durable, provided that the database it leaves can be stored at all: its maps of roles
  are inverse, every role, privilege and membership stands under the key it names, and the sizes fit their fields. (Revoking only the admin option of a membership that does not exist leaves one that can not.) The file then
  holds bytes that a new process loads as the database in memory, with every name leading to the same role.\<close>

theorem statements_are_durable:
  assumes "Grant_RowIter n st ctx g s = (Ok, s') \<or> Revoke_RowIter n st ctx r s = (Ok, s')"
    and "clusterReplicator st = None" and "fileSystem st = Some fs" and "\<forall>data. fst (fs data) \<longrightarrow> snd (fs data) = Some data"
    and "roles_ok (server_db s')" and "storable (server_db s')" and "length (Database_serialize (server_db s')) < 2 ^ 63"
  shows "\<exists>data db counter. auth_file s' = Some data \<and> Database_deserialize data spare 0 = Some (Inr (db, counter)) \<and>
    db = (server_db s')\<lparr>rolesByName := rolesByName db\<rparr> \<and>
    (\<forall>name. gm_get (rolesByName db) name = gm_get (rolesByName (server_db s')) name)"
proof -
  obtain change where "persist_on_success st change s = (Ok, s')"
    using assms(1) by (auto simp: Grant_RowIter_def Revoke_RowIter_def split: if_splits)
  then obtain db where "PersistChanges st (s\<lparr>server_db := db\<rparr>) = (Ok, s')"
    by (auto simp: persist_on_success_def split: prod.splits ending.splits)
  then have "auth_file s' = Some (Database_serialize (server_db s'))"
    using assms(2,3) spec [OF assms(4), of "Database_serialize db"]
    by (auto simp: PersistChanges_def write_with_def split: prod.splits if_splits)
  moreover obtain db' counter' where "Database_deserialize (Database_serialize (server_db s')) spare 0 = Some (Inr (db', counter'))"
    "db' = (server_db s')\<lparr>rolesByName := rolesByName db'\<rparr>"
    "\<forall>name. gm_get (rolesByName db') name = gm_get (rolesByName (server_db s')) name"
    using Database_deserialize_serialize [OF assms(6,7)] rebuilt_names [OF assms(5)]
    by (auto simp: rebuild_names_def)
  ultimately show ?thesis by blast
qed

definition demo_file :: "byte list \<Rightarrow> bool \<times> byte list option" where
  "demo_file data = (True, Some data)"

definition demo_storage :: storage where
  "demo_storage = \<lparr>clusterReplicator = None, fileSystem = Some demo_file\<rparr>"

definition demo_server :: auth_server where
  "demo_server = \<lparr>server_db = demo_db, server_counter = 4, auth_file = None\<rparr>"

text \<open>\<open>root\<close> grants two privileges on a table to \<open>alice\<close>.\<close>

theorem statements_are_durable_witness:
  "\<exists>s' data db counter. Grant_RowIter 4 demo_storage root_session demo_grant_stmt demo_server = (Ok, s') \<and>
     auth_file s' = Some data \<and> Database_deserialize data [] 0 = Some (Inr (db, counter)) \<and>
     own_privilege (tablePrivileges db) alice_table Privilege_INSERT"
proof -
  let ?db = "snd (Grant_change 4 root_session demo_grant_stmt demo_db)"
  have "databasePrivileges ?db = []" "schemaPrivileges ?db = []" "sequencePrivileges ?db = []" "routinePrivileges ?db = []"
    "roleMembership ?db = roleMembership demo_db" "rolesByID ?db = rolesByID demo_db" "rolesByName ?db = rolesByName demo_db"
    "tablePrivileges ?db = add_privilege alice_table \<lparr>gp_Privilege = Privilege_UPDATE, GrantedBy = 4\<rparr> False
      (add_privilege alice_table \<lparr>gp_Privilege = Privilege_INSERT, GrantedBy = 4\<rparr> False (tablePrivileges demo_db))"
    "length (Database_serialize ?db) < 1000" "own_privilege (tablePrivileges ?db) alice_table Privilege_INSERT"
    "fst (Grant_change 4 root_session demo_grant_stmt demo_db) = Ok" by code_simp+
  then obtain db where change: "Grant_change 4 root_session demo_grant_stmt demo_db = (Ok, db)" and
    tables: "databasePrivileges db = []" "schemaPrivileges db = []" "sequencePrivileges db = []" "routinePrivileges db = []"
      "roleMembership db = roleMembership demo_db" "rolesByID db = rolesByID demo_db" "rolesByName db = rolesByName demo_db" and
    table: "tablePrivileges db = add_privilege alice_table \<lparr>gp_Privilege = Privilege_UPDATE, GrantedBy = 4\<rparr> False
      (add_privilege alice_table \<lparr>gp_Privilege = Privilege_INSERT, GrantedBy = 4\<rparr> False (tablePrivileges demo_db))" and
    short: "length (Database_serialize db) < 1000" and own: "own_privilege (tablePrivileges db) alice_table Privilege_INSERT"
    by (metis prod.collapse)
  let ?s = "demo_server\<lparr>server_db := db, auth_file := Some (Database_serialize db)\<rparr>"
  have run: "Grant_RowIter 4 demo_storage root_session demo_grant_stmt demo_server = (Ok, ?s)"
    using change by (simp add: Grant_RowIter_def persist_on_success_def demo_server_def PersistChanges_def demo_storage_def write_with_def demo_file_def)
  have "table_ok (tablePrivileges db)" unfolding table demo_tables
    by (simp add: table_ok_def value_ok_def priv_ok_def add_privilege_def Let_def gm_get_def gm_set_def gm_wf_def demo_grant_def alice_table_def
        Privilege_INSERT_def Privilege_UPDATE_def)
  then have st: "storable db" using demo_storable by (simp add: storable_def tables) (simp add: table_ok_def)
  have ok: "roles_ok db" using demo_roles_ok by (simp add: roles_ok_def tables)
  obtain data db' counter where "auth_file ?s = Some data" "Database_deserialize data [] 0 = Some (Inr (db', counter))" "db' = db\<lparr>rolesByName := rolesByName db'\<rparr>"
    using statements_are_durable [of 4 demo_storage root_session demo_grant_stmt demo_server ?s _ demo_file "[]"] run ok st short
    by (auto simp: demo_storage_def demo_file_def)
  moreover from this(3) have "tablePrivileges db' = tablePrivileges db" by (metis Database.select_convs(5) Database.surjective Database.update_convs(1))
  ultimately show ?thesis using run own by metis
qed

text \<open>A \<open>GRANT\<close> is not atomic. When the caller may grant the first privilege and not the second, the statement
  returns an error, but the first privilege stays granted in memory, and is not in the file.\<close>

theorem grant_fails_halfway:
  assumes "GrantTable g = Some \<lparr>og_Privileges = [p, q], og_Objects = [t]\<rparr>"
    and "Grant_common (server_db s) ctx g = Inr ([role], user)" and "GetSchemaName ctx (tn_Schema t) = Inr sch"
    and "HasTablePrivilegeGrantOption n (server_db s) \<lparr>tk_Role = role_id user, tk_Name = tn_Name t, tk_Schema = sch\<rparr> p = Some granter"
    and "granter \<noteq> 0"
    and "HasTablePrivilegeGrantOption n (AddTablePrivilege (server_db s) \<lparr>tk_Role = role_id role, tk_Name = tn_Name t, tk_Schema = sch\<rparr>
        \<lparr>gp_Privilege = p, GrantedBy = granter\<rparr> (g_WithGrantOption g))
      \<lparr>tk_Role = role_id user, tk_Name = tn_Name t, tk_Schema = sch\<rparr> q = Some 0"
  shows "\<exists>s'. Grant_RowIter n st ctx g s = (Error (NoGrantPermission (role_Name user)), s') \<and> auth_file s' = auth_file s \<and>
    own_privilege (tablePrivileges (server_db s')) \<lparr>tk_Role = role_id role, tk_Name = tn_Name t, tk_Schema = sch\<rparr> p"
  using assms
  by (simp add: Grant_RowIter_def persist_on_success_def Grant_change_def grantTable_def for_roles_and_objects_def in_stmt_schema_def
      grant_object_def RoleID_IsValid_def)
    (simp add: AddTablePrivilege_def own_privilege_def granted_add)

text \<open>\<open>alice\<close> may pass on reading the table, and nothing else.\<close>

definition half_db :: Database where
  "half_db = AddTablePrivilege demo_db alice_table demo_grant True"

definition half_grant :: Grant where
  "half_grant = no_grant\<lparr>ToRoles := [gs ''staff''],
     GrantTable := Some \<lparr>og_Privileges = [Privilege_SELECT, Privilege_UPDATE], og_Objects = [\<lparr>tn_Name = gs ''film'', tn_Schema = []\<rparr>]\<rparr>\<rparr>"

theorem grant_fails_halfway_witness:
  "\<exists>s'. Grant_RowIter 4 demo_storage demo_session half_grant (demo_server\<lparr>server_db := half_db\<rparr>) =
      (Error (NoGrantPermission (gs ''alice'')), s') \<and> auth_file s' = None \<and>
    own_privilege (tablePrivileges (server_db s')) \<lparr>tk_Role = 3, tk_Name = gs ''film'', tk_Schema = gs ''public''\<rparr> Privilege_SELECT"
proof -
  let ?t = "\<lparr>tn_Name = gs ''film'', tn_Schema = []\<rparr>"
  let ?s = "demo_server\<lparr>server_db := half_db\<rparr>"
  have "GrantTable half_grant = Some \<lparr>og_Privileges = [Privilege_SELECT, Privilege_UPDATE], og_Objects = [?t]\<rparr>"
    "Grant_common (server_db ?s) demo_session half_grant = Inr ([demo_role 3 ''staff'' False], demo_role 2 ''alice'' False)"
    "GetSchemaName demo_session (tn_Schema ?t) = Inr (gs ''public'')"
    "HasTablePrivilegeGrantOption 4 (server_db ?s) \<lparr>tk_Role = role_id (demo_role 2 ''alice'' False), tk_Name = tn_Name ?t,
       tk_Schema = gs ''public''\<rparr> Privilege_SELECT = Some 2" "(2 :: RoleID) \<noteq> 0"
    "HasTablePrivilegeGrantOption 4 (AddTablePrivilege (server_db ?s) \<lparr>tk_Role = role_id (demo_role 3 ''staff'' False),
        tk_Name = tn_Name ?t, tk_Schema = gs ''public''\<rparr> \<lparr>gp_Privilege = Privilege_SELECT, GrantedBy = 2\<rparr> (g_WithGrantOption half_grant))
       \<lparr>tk_Role = role_id (demo_role 2 ''alice'' False), tk_Name = tn_Name ?t, tk_Schema = gs ''public''\<rparr> Privilege_UPDATE = Some 0"
    by code_simp+
  from grant_fails_halfway [OF this, of demo_storage] show ?thesis
    by (simp add: demo_role_def createDefaultRoleWithoutID_def demo_server_def)
qed

end
