(* ===== verification/Role_Statements.thy ===== *)
theory Role_Statements
  imports Auth_Server
begin

text \<open>
  The statements \<open>CREATE ROLE\<close>, \<open>ALTER ROLE\<close> and \<open>DROP ROLE\<close>: \<open>create_role.go\<close>, \<open>alter_role.go\<close> and \<open>drop_role.go\<close> of
  \<open>src/server/node\<close>. Each takes the lock of the authorization database several times, with checks in between; a
  step here is one critical section with the local work behind it, so that the steps of several sessions can
  be interleaved. Hashing a password and reading a timestamp are parameters.
\<close>

record role_env =
  new_password :: "gostring \<Rightarrow> ScramSha256Password option"
  parse_timestamp :: "gostring \<Rightarrow> uint64 option"

datatype phase = Start | Allowed | Storing Role | Dropping "Role list" | Ended ending

section \<open>CREATE ROLE\<close>

record CreateRole =
  cr_Name :: gostring
  IfNotExists :: bool
  cr_Password :: gostring
  IsPasswordNull :: bool
  cr_IsSuperUser :: bool
  cr_CanCreateDB :: bool
  cr_CanCreateRoles :: bool
  cr_InheritPrivileges :: bool
  cr_CanLogin :: bool
  cr_IsReplicationRole :: bool
  cr_CanBypassRowLevelSecurity :: bool
  cr_ConnectionLimit :: uint32
  cr_ValidUntil :: gostring
  IsValidUntilSet :: bool
  AddToRoles :: "gostring list"
  AddAsMembers :: "gostring list"
  AddAsAdminMembers :: "gostring list"

text \<open>The first part, under the read lock: it ends the statement or lets it go on.\<close>

definition CreateRole_check :: "Database \<Rightarrow> session \<Rightarrow> CreateRole \<Rightarrow> ending option" where
  "CreateRole_check db ctx c =
     (let roleExists = RoleExists db (cr_Name c); userRole = GetRole db (Client_User ctx) in
      if \<not> Role_IsValid userRole then Some (Error (StmtRoleMissing (Client_User ctx)))
      else if roleExists then
        if IfNotExists c then Some Ok else Some (Error (RoleAlreadyExists (cr_Name c)))
      else if \<not> role_IsSuperUser userRole \<and> (\<not> CanCreateRoles userRole \<or> cr_IsSuperUser c)
      then Some (Error (NoCreatePermission (role_Name userRole)))
      else None)"

text \<open>The local part that fills in the new role.\<close>

definition create_attributes :: "role_env \<Rightarrow> CreateRole \<Rightarrow> Role \<Rightarrow> stmt_error + Role" where
  "create_attributes env c role =
     (case (if IsPasswordNull c then Inr (Password role)
         else case new_password env (cr_Password c) of None \<Rightarrow> Inl PasswordFailed | Some p \<Rightarrow> Inr (Some p)) of
       Inl e \<Rightarrow> Inl e
     | Inr password \<Rightarrow>
       (case (if IsValidUntilSet c
           then case parse_timestamp env (cr_ValidUntil c) of None \<Rightarrow> Inl TimestampFailed | Some t \<Rightarrow> Inr (Some t)
           else Inr (ValidUntil role)) of
         Inl e \<Rightarrow> Inl e
       | Inr validUntil \<Rightarrow>
         if AddToRoles c \<noteq> [] then Inl (RoleOptionNotSupported (gs ''IN ROLE''))
         else if AddAsMembers c \<noteq> [] then Inl (RoleOptionNotSupported (gs ''ROLE''))
         else if AddAsAdminMembers c \<noteq> [] then Inl (RoleOptionNotSupported (gs ''ADMIN''))
         else Inr (role\<lparr>Password := password, role_IsSuperUser := cr_IsSuperUser c, CanCreateDB := cr_CanCreateDB c,
           CanCreateRoles := cr_CanCreateRoles c, InheritPrivileges := cr_InheritPrivileges c, CanLogin := cr_CanLogin c,
           IsReplicationRole := cr_IsReplicationRole c, CanBypassRowLevelSecurity := cr_CanBypassRowLevelSecurity c,
           ConnectionLimit := cr_ConnectionLimit c, ValidUntil := validUntil\<rparr>)))"

text \<open>The last critical section of \<open>CREATE ROLE\<close> and \<open>ALTER ROLE\<close>.\<close>

definition store_role :: "storage \<Rightarrow> Role \<Rightarrow> auth_server \<Rightarrow> auth_server \<times> phase" where
  "store_role st role s =
     (let (e, s') = PersistChanges st (s\<lparr>server_db := SetRole (server_db s) role\<rparr>) in (s', Ended e))"

definition create_step :: "role_env \<Rightarrow> storage \<Rightarrow> session \<Rightarrow> CreateRole \<Rightarrow> auth_server \<times> phase \<Rightarrow> auth_server \<times> phase" where
  "create_step env st ctx c sp = (let (s, ph) = sp in case ph of
     Start \<Rightarrow> (s, case CreateRole_check (server_db s) ctx c of Some e \<Rightarrow> Ended e | None \<Rightarrow> Allowed)
   | Allowed \<Rightarrow>
       (let (role, counter) = CreateDefaultRole (server_counter s) (cr_Name c)
        in (s\<lparr>server_counter := counter\<rparr>,
            case create_attributes env c role of Inl e \<Rightarrow> Ended (Error e) | Inr role' \<Rightarrow> Storing role'))
   | Storing role \<Rightarrow> store_role st role s
   | _ \<Rightarrow> sp)"

section \<open>ALTER ROLE\<close>

text \<open>The values of the options are of type \<open>any\<close>; the code asks for an \<open>int32\<close> or a pointer to a string.\<close>

datatype role_option = OptInt uint32 | OptString "gostring option" | OptOther

record AlterRole =
  ar_Name :: gostring
  ar_Options :: "(gostring, role_option) gomap"

definition opt_string :: "role_option \<Rightarrow> gostring option" where
  "opt_string v = (case v of OptString s \<Rightarrow> s | _ \<Rightarrow> None)"

text \<open>One option. The left result ends the statement.\<close>

definition superuser_only :: "Role \<Rightarrow> Role \<Rightarrow> Role \<Rightarrow> ending + Role" where
  "superuser_only userRole role changed =
     (if \<not> role_IsSuperUser userRole then Inl (Error (NoAlterPermission (role_Name userRole) (role_Name role))) else Inr changed)"

definition alter_option :: "role_env \<Rightarrow> Role \<Rightarrow> gostring \<times> role_option \<Rightarrow> Role \<Rightarrow> ending + Role" where
  "alter_option env userRole opt role = (let (optionName, optionValue) = opt in
     if optionName = gs ''BYPASSRLS'' then superuser_only userRole role (role\<lparr>CanBypassRowLevelSecurity := True\<rparr>)
     else if optionName = gs ''CONNECTION_LIMIT'' then
       (case optionValue of OptInt n \<Rightarrow> Inr (role\<lparr>ConnectionLimit := n\<rparr>) | _ \<Rightarrow> Inl Panic)
     else if optionName = gs ''CREATEDB'' then Inr (role\<lparr>CanCreateDB := True\<rparr>)
     else if optionName = gs ''CREATEROLE'' then Inr (role\<lparr>CanCreateRoles := True\<rparr>)
     else if optionName = gs ''INHERIT'' then Inr (role\<lparr>InheritPrivileges := True\<rparr>)
     else if optionName = gs ''LOGIN'' then Inr (role\<lparr>CanLogin := True\<rparr>)
     else if optionName = gs ''NOBYPASSRLS'' then superuser_only userRole role (role\<lparr>CanBypassRowLevelSecurity := False\<rparr>)
     else if optionName = gs ''NOCREATEDB'' then Inr (role\<lparr>CanCreateDB := False\<rparr>)
     else if optionName = gs ''NOCREATEROLE'' then Inr (role\<lparr>CanCreateRoles := False\<rparr>)
     else if optionName = gs ''NOINHERIT'' then Inr (role\<lparr>InheritPrivileges := False\<rparr>)
     else if optionName = gs ''NOLOGIN'' then Inr (role\<lparr>CanLogin := False\<rparr>)
     else if optionName = gs ''NOREPLICATION'' then superuser_only userRole role (role\<lparr>IsReplicationRole := False\<rparr>)
     else if optionName = gs ''NOSUPERUSER'' then superuser_only userRole role (role\<lparr>role_IsSuperUser := False\<rparr>)
     else if optionName = gs ''PASSWORD'' then
       (case opt_string optionValue of
          None \<Rightarrow> Inr (role\<lparr>Password := None\<rparr>)
        | Some password \<Rightarrow> (case new_password env password of
            None \<Rightarrow> Inl (Error PasswordFailed) | Some p \<Rightarrow> Inr (role\<lparr>Password := Some p\<rparr>)))
     else if optionName = gs ''REPLICATION'' then superuser_only userRole role (role\<lparr>IsReplicationRole := True\<rparr>)
     else if optionName = gs ''SUPERUSER'' then superuser_only userRole role (role\<lparr>role_IsSuperUser := True\<rparr>)
     else if optionName = gs ''VALID_UNTIL'' then
       (case opt_string optionValue of
          None \<Rightarrow> Inr (role\<lparr>ValidUntil := None\<rparr>)
        | Some timeString \<Rightarrow> (case parse_timestamp env timeString of
            None \<Rightarrow> Inl (Error TimestampFailed) | Some t \<Rightarrow> Inr (role\<lparr>ValidUntil := Some t\<rparr>)))
     else Inl (Error (UnknownRoleOption optionName)))"

fun alter_options :: "role_env \<Rightarrow> Role \<Rightarrow> (gostring \<times> role_option) list \<Rightarrow> Role \<Rightarrow> ending + Role" where
  "alter_options env userRole [] role = Inr role"
| "alter_options env userRole (opt # opts) role = (case alter_option env userRole opt role of
     Inl e \<Rightarrow> Inl e
   | Inr role' \<Rightarrow> alter_options env userRole opts role')"

definition AlterRole_check :: "role_env \<Rightarrow> Database \<Rightarrow> session \<Rightarrow> AlterRole \<Rightarrow> ending + Role" where
  "AlterRole_check env db ctx a =
     (let userRole = GetRole db (Client_User ctx); role = GetRole db (ar_Name a) in
      if \<not> Role_IsValid userRole then Inl (Error (StmtRoleMissing (role_Name userRole)))
      else if \<not> Role_IsValid role then Inl (Error (StmtRoleMissing (ar_Name a)))
      else if role_IsSuperUser role \<and> \<not> role_IsSuperUser userRole
      then Inl (Error (NoAlterPermission (role_Name userRole) (role_Name role)))
      else if \<not> role_IsSuperUser userRole \<and> \<not> CanCreateRoles userRole \<and> role_id role \<noteq> role_id userRole
      then Inl (Error (NoAlterPermission (role_Name userRole) (role_Name role)))
      else alter_options env userRole (ar_Options a) role)"

definition alter_step :: "role_env \<Rightarrow> storage \<Rightarrow> session \<Rightarrow> AlterRole \<Rightarrow> auth_server \<times> phase \<Rightarrow> auth_server \<times> phase" where
  "alter_step env st ctx a sp = (let (s, ph) = sp in case ph of
     Start \<Rightarrow> (s, case AlterRole_check env (server_db s) ctx a of Inl e \<Rightarrow> Ended e | Inr role \<Rightarrow> Storing role)
   | Storing role \<Rightarrow> store_role st role s
   | _ \<Rightarrow> sp)"

section \<open>DROP ROLE\<close>

record DropRoleStmt =
  dr_Names :: "gostring list"
  IfExists :: bool

text \<open>The loop over the names; a name that does not exist is skipped, but its default role is tested too.\<close>

fun drop_check :: "Database \<Rightarrow> Role \<Rightarrow> bool \<Rightarrow> gostring list \<Rightarrow> stmt_error + Role list" where
  "drop_check db userRole ifExists [] = Inr []"
| "drop_check db userRole ifExists (name # names) =
     (let role = GetRole db name in
      if \<not> Role_IsValid role \<and> \<not> ifExists then Inl (StmtRoleMissing name)
      else if \<not> role_IsSuperUser userRole \<and> (role_IsSuperUser role \<or> \<not> CanCreateRoles userRole)
      then Inl (NoDropPermission (role_Name userRole) (role_Name role))
      else (case drop_check db userRole ifExists names of
        Inl e \<Rightarrow> Inl e
      | Inr roles \<Rightarrow> Inr (if Role_IsValid role then role # roles else roles)))"

definition drop_step :: "storage \<Rightarrow> session \<Rightarrow> DropRoleStmt \<Rightarrow> auth_server \<times> phase \<Rightarrow> auth_server \<times> phase" where
  "drop_step st ctx d sp = (let (s, ph) = sp in case ph of
     Start \<Rightarrow> (s, case drop_check (server_db s) (GetRole (server_db s) (Client_User ctx)) (IfExists d) (dr_Names d) of
        Inl e \<Rightarrow> Ended (Error e)
      | Inr roles \<Rightarrow> Dropping roles)
   | Dropping roles \<Rightarrow>
       (let (e, s') = PersistChanges st (s\<lparr>server_db := foldl (\<lambda>db role. DropRole db (role_Name role)) (server_db s) roles\<rparr>)
        in (s', Ended e))
   | _ \<Rightarrow> sp)"

section \<open>A statement on its own\<close>

definition phase_end :: "auth_server \<times> phase \<Rightarrow> ending \<times> auth_server" where
  "phase_end sp = (case snd sp of Ended e \<Rightarrow> (e, fst sp) | _ \<Rightarrow> (NoReturn, fst sp))"

definition CreateRole_RowIter :: "role_env \<Rightarrow> storage \<Rightarrow> session \<Rightarrow> CreateRole \<Rightarrow> auth_server \<Rightarrow> ending \<times> auth_server" where
  "CreateRole_RowIter env st ctx c s =
     phase_end (create_step env st ctx c (create_step env st ctx c (create_step env st ctx c (s, Start))))"

definition AlterRole_RowIter :: "role_env \<Rightarrow> storage \<Rightarrow> session \<Rightarrow> AlterRole \<Rightarrow> auth_server \<Rightarrow> ending \<times> auth_server" where
  "AlterRole_RowIter env st ctx a s = phase_end (alter_step env st ctx a (alter_step env st ctx a (s, Start)))"

definition DropRole_RowIter :: "storage \<Rightarrow> session \<Rightarrow> DropRoleStmt \<Rightarrow> auth_server \<Rightarrow> ending \<times> auth_server" where
  "DropRole_RowIter st ctx d s = phase_end (drop_step st ctx d (drop_step st ctx d (s, Start)))"

section \<open>Statements of several sessions\<close>

datatype role_stmt = CreateStmt CreateRole | AlterStmt AlterRole | DropStmt DropRoleStmt

fun stmt_step :: "role_env \<Rightarrow> storage \<Rightarrow> session \<times> role_stmt \<Rightarrow> auth_server \<times> phase \<Rightarrow> auth_server \<times> phase" where
  "stmt_step env st (ctx, CreateStmt c) = create_step env st ctx c"
| "stmt_step env st (ctx, AlterStmt a) = alter_step env st ctx a"
| "stmt_step env st (ctx, DropStmt d) = drop_step st ctx d"

text \<open>Running a list of statements: the list of numbers says whose turn it is.\<close>

fun run_turns :: "role_env \<Rightarrow> storage \<Rightarrow> (session \<times> role_stmt) list \<Rightarrow> nat list \<Rightarrow> auth_server \<times> phase list \<Rightarrow> auth_server \<times> phase list" where
  "run_turns env st stmts [] sp = sp"
| "run_turns env st stmts (k # ks) sp =
     (if k < length stmts \<and> k < length (snd sp) then
        (let (s', ph') = stmt_step env st (stmts ! k) (fst sp, snd sp ! k)
         in run_turns env st stmts ks (s', (snd sp)[k := ph']))
      else run_turns env st stmts ks sp)"

end
