(* ===== verification/Role_Statement_Props.thy ===== *)
theory Role_Statement_Props
  imports Role_Statements Grant_Props
begin

text \<open>
  Properties of \<open>CREATE ROLE\<close>, \<open>ALTER ROLE\<close> and \<open>DROP ROLE\<close>, alone and interleaved.
\<close>

section \<open>Lemmas\<close>

lemma PersistChanges_db:
  "PersistChanges st s = (e, s') \<Longrightarrow> server_db s' = server_db s \<and> server_counter s' = server_counter s"
  by (auto simp: PersistChanges_def write_with_def split: option.splits prod.splits)

lemma PersistChanges_none: "clusterReplicator st = None \<Longrightarrow> fileSystem st = None \<Longrightarrow> PersistChanges st s = (Ok, s)"
  by (simp add: PersistChanges_def)

lemma store_role_end:
  "phase_end (store_role st role s) = (e, s') \<Longrightarrow>
   server_db s' = SetRole (server_db s) role \<and> server_counter s' = server_counter s"
  by (cases "PersistChanges st (s\<lparr>server_db := SetRole (server_db s) role\<rparr>)")
    (auto simp: store_role_def phase_end_def dest: PersistChanges_db)

lemma GetRole_valid:
  assumes "roles_ok db" and "Role_IsValid (GetRole db name)"
  shows "gm_get (rolesByName db) name = Some (role_id (GetRole db name))"
    and "gm_get (rolesByID db) (role_id (GetRole db name)) = Some (GetRole db name)" and "role_Name (GetRole db name) = name"
proof -
  obtain i where i: "gm_get (rolesByName db) name = Some i"
    using assms(2) by (auto simp: GetRole_def Role_IsValid_def RoleID_IsValid_def createDefaultRoleWithoutID_def split: option.splits)
  then obtain r where "gm_get (rolesByID db) i = Some r" "role_Name r = name" using roles_okD(3) [OF assms(1)] by blast
  moreover from this have "role_id r = i" using roles_okD(4) [OF assms(1)] by blast
  ultimately show "gm_get (rolesByName db) name = Some (role_id (GetRole db name))"
    "gm_get (rolesByID db) (role_id (GetRole db name)) = Some (GetRole db name)" "role_Name (GetRole db name) = name"
    using i by (simp_all add: GetRole_def role_by_id_def)
qed

text \<open>The role that a \<open>CREATE ROLE\<close> describes, under an id.\<close>

definition described_role :: "role_env \<Rightarrow> CreateRole \<Rightarrow> RoleID \<Rightarrow> Role" where
  "described_role env c i = \<lparr>role_Name = cr_Name c, role_IsSuperUser = cr_IsSuperUser c, InheritPrivileges = cr_InheritPrivileges c,
     CanCreateRoles = cr_CanCreateRoles c, CanCreateDB = cr_CanCreateDB c, CanLogin = cr_CanLogin c,
     IsReplicationRole = cr_IsReplicationRole c, CanBypassRowLevelSecurity = cr_CanBypassRowLevelSecurity c,
     ConnectionLimit = cr_ConnectionLimit c, Password = (if IsPasswordNull c then None else new_password env (cr_Password c)),
     ValidUntil = (if IsValidUntilSet c then parse_timestamp env (cr_ValidUntil c) else None), role_id = i\<rparr>"

lemma described_role_simps [simp]: "role_id (described_role env c i) = i" "role_Name (described_role env c i) = cr_Name c"
  by (simp_all add: described_role_def)

lemma create_attributes_Inr:
  "create_attributes env c (fst (CreateDefaultRole n (cr_Name c))) = Inr role \<Longrightarrow> role = described_role env c (n + 1)"
  by (auto simp: create_attributes_def CreateDefaultRole_def createDefaultRoleWithoutID_def described_role_def
      split: sum.splits if_splits option.splits)

text \<open>A successful \<open>CREATE ROLE\<close> that found no role of the name.\<close>

lemma CreateRole_RowIter_Ok:
  assumes "CreateRole_RowIter env st ctx c s = (Ok, s')" and "\<not> RoleExists (server_db s) (cr_Name c)"
  obtains role where "CreateRole_check (server_db s) ctx c = None"
    "create_attributes env c (fst (CreateDefaultRole (server_counter s) (cr_Name c))) = Inr role"
    "server_db s' = SetRole (server_db s) role" "server_counter s' = server_counter s + 1"
proof -
  have check: "CreateRole_check (server_db s) ctx c = None"
    using assms by (auto simp: CreateRole_RowIter_def create_step_def phase_end_def CreateRole_check_def Let_def split: if_splits)
  obtain role where role: "create_attributes env c (fst (CreateDefaultRole (server_counter s) (cr_Name c))) = Inr role"
    using assms(1) check by (cases "create_attributes env c (fst (CreateDefaultRole (server_counter s) (cr_Name c)))")
      (auto simp: CreateRole_RowIter_def create_step_def phase_end_def CreateDefaultRole_def)
  have "phase_end (store_role st role (s\<lparr>server_counter := server_counter s + 1\<rparr>)) = (Ok, s')"
    using assms(1) check role by (simp add: CreateRole_RowIter_def create_step_def CreateDefaultRole_def)
  then show ?thesis using that [OF check role] store_role_end by fastforce
qed

text \<open>The steps of \<open>CREATE ROLE\<close> when none fails and nothing is stored in a file.\<close>

lemma create_steps:
  "CreateRole_check (server_db s) ctx c = None \<Longrightarrow> create_step env st ctx c (s, Start) = (s, Allowed)"
  "create_attributes env c (fst (CreateDefaultRole (server_counter s) (cr_Name c))) = Inr role \<Longrightarrow>
     create_step env st ctx c (s, Allowed) = (s\<lparr>server_counter := server_counter s + 1\<rparr>, Storing role)"
  "clusterReplicator st = None \<Longrightarrow> fileSystem st = None \<Longrightarrow>
     create_step env st ctx c (s, Storing role) = (s\<lparr>server_db := SetRole (server_db s) role\<rparr>, Ended Ok)"
  by (simp_all add: create_step_def CreateDefaultRole_def store_role_def PersistChanges_none)

section \<open>Properties\<close>

lemma create_new_role:
  assumes "roles_ok (server_db s)" and "\<forall>i. gm_get (rolesByID (server_db s)) i \<noteq> None \<longrightarrow> i \<le> server_counter s"
    and "server_counter s \<noteq> -1" and "\<not> RoleExists (server_db s) (cr_Name c)" and "role = described_role env c (server_counter s + 1)"
    and "server_db s' = SetRole (server_db s) role" and "server_counter s' = server_counter s + 1"
  shows "GetRole (server_db s') (cr_Name c) = role" "name \<noteq> cr_Name c \<Longrightarrow> GetRole (server_db s') name = GetRole (server_db s) name"
    "server_db s' = (server_db s)\<lparr>rolesByName := rolesByName (server_db s'), rolesByID := rolesByID (server_db s')\<rparr>"
    "roles_ok (server_db s')" "gm_get (rolesByID (server_db s')) i \<noteq> None \<Longrightarrow> i \<le> server_counter s'"
proof -
  note db = assms(6)
  have pos: "1 + server_counter s \<noteq> 0" using assms(3) by (simp add: add_eq_0_iff)
  have less: "server_counter s < server_counter s + 1" using unatSuc [OF pos] by (simp add: word_less_nat_alt add.commute)
  have id: "role_id role = server_counter s + 1" "role_Name role = cr_Name c" using assms(5) by simp_all
  have fresh: "gm_get (rolesByID (server_db s)) (role_id role) = None" using assms(2) less id(1) by (metis leD)
  have free: "gm_get (rolesByName (server_db s)) (role_Name role) = None" using assms(4) id(2) by (simp add: RoleExists_def)
  have valid: "role_id role \<noteq> 0" using pos id(1) by (simp add: add.commute)
  have set: "SetRole (server_db s) role = (server_db s)\<lparr>rolesByName := gm_set (role_Name role) (role_id role) (rolesByName (server_db s)),
      rolesByID := gm_set (role_id role) role (rolesByID (server_db s))\<rparr>"
    using valid fresh by (simp add: SetRole_def Let_def)
  show "roles_ok (server_db s')" unfolding db using roles_ok_SetRole [OF assms(1)] valid free by simp
  show "GetRole (server_db s') (cr_Name c) = role" unfolding db set using id(2) by (simp add: GetRole_def role_by_id_def)
  show "server_db s' = (server_db s)\<lparr>rolesByName := rolesByName (server_db s'), rolesByID := rolesByID (server_db s')\<rparr>" by (simp add: db set)
  show "GetRole (server_db s') name = GetRole (server_db s) name" if "name \<noteq> cr_Name c"
  proof (cases "gm_get (rolesByName (server_db s)) name")
    case (Some i)
    then have "i \<noteq> role_id role" using roles_okD(3) [OF assms(1)] fresh by (metis option.distinct(1))
    with Some that id(2) show ?thesis by (simp add: db set GetRole_def role_by_id_def)
  qed (use that id(2) in \<open>simp add: db set GetRole_def\<close>)
  show "i \<le> server_counter s'" if "gm_get (rolesByID (server_db s')) i \<noteq> None"
    using that assms(2) less id(1) unfolding db set assms(7) by (auto split: if_splits intro: order.trans less_imp_le)
qed

text \<open>C9. \<open>CREATE ROLE\<close> on its own, on maps of roles that are inverse and with a counter that is above every role and not at its last value: when it succeeds and a role of the name
  exists already, it was \<open>IF NOT EXISTS\<close> and nothing has changed, whoever called. Otherwise the caller is a superuser or, when the new role is none, may create roles; the new role is then found under its name
  with exactly the given attributes (password and time limit as hashed and parsed, or none) and the next id, every other role is as before, nothing but the maps of roles has changed, the maps stay inverse,
  and the counter stays above every role.\<close>

theorem create_role_effect:
  assumes "roles_ok (server_db s)" and "\<forall>i. gm_get (rolesByID (server_db s)) i \<noteq> None \<longrightarrow> i \<le> server_counter s"
    and "server_counter s \<noteq> -1" and "CreateRole_RowIter env st ctx c s = (Ok, s')"
  shows "if RoleExists (server_db s) (cr_Name c) then IfNotExists c \<and> s' = s
    else (let user = GetRole (server_db s) (Client_User ctx) in role_IsSuperUser user \<or> CanCreateRoles user \<and> \<not> cr_IsSuperUser c) \<and>
      GetRole (server_db s') (cr_Name c) = \<lparr>role_Name = cr_Name c, role_IsSuperUser = cr_IsSuperUser c, InheritPrivileges = cr_InheritPrivileges c,
        CanCreateRoles = cr_CanCreateRoles c, CanCreateDB = cr_CanCreateDB c, CanLogin = cr_CanLogin c,
        IsReplicationRole = cr_IsReplicationRole c, CanBypassRowLevelSecurity = cr_CanBypassRowLevelSecurity c,
        ConnectionLimit = cr_ConnectionLimit c, Password = (if IsPasswordNull c then None else new_password env (cr_Password c)),
        ValidUntil = (if IsValidUntilSet c then parse_timestamp env (cr_ValidUntil c) else None), role_id = server_counter s + 1\<rparr> \<and>
      (\<forall>name. name \<noteq> cr_Name c \<longrightarrow> GetRole (server_db s') name = GetRole (server_db s) name) \<and>
      server_db s' = (server_db s)\<lparr>rolesByName := rolesByName (server_db s'), rolesByID := rolesByID (server_db s')\<rparr> \<and>
      roles_ok (server_db s') \<and> (\<forall>i. gm_get (rolesByID (server_db s')) i \<noteq> None \<longrightarrow> i \<le> server_counter s')"
proof (cases "RoleExists (server_db s) (cr_Name c)")
  case True
  then show ?thesis using assms(4)
    by (auto simp: CreateRole_RowIter_def create_step_def phase_end_def CreateRole_check_def Let_def split: if_splits)
next
  case False
  then obtain role where check: "CreateRole_check (server_db s) ctx c = None"
    and attrs: "create_attributes env c (fst (CreateDefaultRole (server_counter s) (cr_Name c))) = Inr role"
    and db: "server_db s' = SetRole (server_db s) role" "server_counter s' = server_counter s + 1"
    using CreateRole_RowIter_Ok [OF assms(4)] by blast
  note new = create_new_role [OF assms(1-3) False create_attributes_Inr [OF attrs] db]
  have "role_IsSuperUser (GetRole (server_db s) (Client_User ctx)) \<or>
      CanCreateRoles (GetRole (server_db s) (Client_User ctx)) \<and> \<not> cr_IsSuperUser c"
    using check by (auto simp: CreateRole_check_def Let_def split: if_splits)
  then show ?thesis using False new(2,4,5) new(1) [unfolded create_attributes_Inr [OF attrs] described_role_def] new(3)
    unfolding Let_def by simp
qed

definition demo_env :: role_env where
  "demo_env = \<lparr>new_password = (\<lambda>p. Some \<lparr>Iterations = 4096, Salt = [], StoredKey = p, ServerKey = []\<rparr>), parse_timestamp = (\<lambda>t. None)\<rparr>"

definition demo_create :: CreateRole where
  "demo_create = \<lparr>cr_Name = gs ''bob'', IfNotExists = False, cr_Password = gs ''x'', IsPasswordNull = False, cr_IsSuperUser = False,
     cr_CanCreateDB = True, cr_CanCreateRoles = False, cr_InheritPrivileges = True, cr_CanLogin = True, cr_IsReplicationRole = False,
     cr_CanBypassRowLevelSecurity = False, cr_ConnectionLimit = -1, cr_ValidUntil = [], IsValidUntilSet = False, AddToRoles = [],
     AddAsMembers = [], AddAsAdminMembers = []\<rparr>"

definition memory_only :: storage where
  "memory_only = \<lparr>clusterReplicator = None, fileSystem = None\<rparr>"

lemma demo_ids: "gm_get (rolesByID demo_db) i \<noteq> None \<Longrightarrow> i \<le> 4"
proof -
  have "rolesByID demo_db = [(1, demo_role 1 ''public'' False), (2, demo_role 2 ''alice'' False),
      (3, demo_role 3 ''staff'' False), (4, demo_role 4 ''root'' True)]" by code_simp
  then show "gm_get (rolesByID demo_db) i \<noteq> None \<Longrightarrow> i \<le> 4" by (auto simp: gm_get_def split: if_splits)
qed

theorem create_role_effect_witness:
  "\<exists>s'. CreateRole_RowIter demo_env memory_only root_session demo_create demo_server = (Ok, s') \<and> roles_ok (server_db s') \<and>
     role_id (GetRole (server_db s') (gs ''bob'')) = 5"
proof -
  have "fst (CreateRole_RowIter demo_env memory_only root_session demo_create demo_server) = Ok"
    "\<not> RoleExists demo_db (cr_Name demo_create)" by code_simp+
  moreover from this obtain s' where "CreateRole_RowIter demo_env memory_only root_session demo_create demo_server = (Ok, s')"
    by (cases "CreateRole_RowIter demo_env memory_only root_session demo_create demo_server") auto
  ultimately show ?thesis
    using create_role_effect [of demo_server demo_env memory_only root_session demo_create s'] demo_roles_ok demo_ids
    by (auto simp: demo_server_def demo_create_def Let_def)
qed

text \<open>Two sessions that create a role of the same name at the same time can both succeed, because the test for the name and
  the insertion are two critical sections. Two roles of one name are then stored, and the maps of roles are no
  longer inverse.\<close>

theorem create_role_race:
  assumes "CreateRole_check (server_db s) ctx1 c1 = None" and "CreateRole_check (server_db s) ctx2 c2 = None"
    and "cr_Name c1 = name" "cr_Name c2 = name"
    and "create_attributes env c1 (fst (CreateDefaultRole (server_counter s) name)) = Inr r1"
    and "create_attributes env c2 (fst (CreateDefaultRole (server_counter s + 1) name)) = Inr r2"
    and "clusterReplicator st = None" "fileSystem st = None" and "server_counter s + 1 \<noteq> 0" "server_counter s + 2 \<noteq> 0"
    and "gm_get (rolesByID (server_db s)) (server_counter s + 2) = None"
  shows "\<exists>s'. run_turns env st [(ctx1, CreateStmt c1), (ctx2, CreateStmt c2)] [0, 1, 0, 1, 0, 1] (s, [Start, Start]) =
      (s', [Ended Ok, Ended Ok]) \<and>
    gm_get (rolesByID (server_db s')) (server_counter s + 1) = Some r1 \<and> role_Name r1 = name \<and>
    gm_get (rolesByID (server_db s')) (server_counter s + 2) = Some r2 \<and> role_Name r2 = name \<and> \<not> roles_ok (server_db s')"
proof -
  let ?s' = "s\<lparr>server_counter := server_counter s + 2, server_db := SetRole (SetRole (server_db s) r1) r2\<rparr>"
  have two: "server_counter s + 1 + 1 = server_counter s + 2" by simp
  have r1: "role_id r1 = server_counter s + 1" "role_Name r1 = name" and r2: "role_id r2 = server_counter s + 2" "role_Name r2 = name"
    using create_attributes_Inr [of env c1 "server_counter s" r1] create_attributes_Inr [of env c2 "server_counter s + 1" r2] assms(3-6) two by simp_all
  have ids: "server_counter s + 1 \<noteq> server_counter s + 2" by simp
  have run: "run_turns env st [(ctx1, CreateStmt c1), (ctx2, CreateStmt c2)] [0, 1, 0, 1, 0, 1] (s, [Start, Start]) =
      (?s', [Ended Ok, Ended Ok])"
    using assms(1-8) two create_steps(2) [of env c2 "s\<lparr>server_counter := server_counter s + 1\<rparr>" r2 st ctx2]
    by (simp add: create_steps(1) create_steps(2) [of env c1 s r1] create_steps(3))
  have get1: "gm_get (rolesByID (server_db ?s')) (server_counter s + 1) = Some r1"
    and get2: "gm_get (rolesByID (server_db ?s')) (server_counter s + 2) = Some r2"
    using r1(1) r2(1) assms(9,10) ids by (simp_all add: SetRole_def Let_def)
  have "\<not> roles_ok (server_db ?s')"
  proof
    assume ok: "roles_ok (server_db ?s')"
    have "Some (server_counter s + 1) = Some (server_counter s + 2)"
      using roles_okD(6) [OF ok get1] roles_okD(6) [OF ok get2] r1(2) r2(2) by simp
    then show False using ids by simp
  qed
  then show ?thesis using run get1 get2 r1(2) r2(2) by blast
qed

theorem create_role_race_witness:
  "\<exists>s'. run_turns demo_env memory_only [(root_session, CreateStmt demo_create), (root_session, CreateStmt demo_create)] [0, 1, 0, 1, 0, 1]
      (demo_server, [Start, Start]) = (s', [Ended Ok, Ended Ok]) \<and> \<not> roles_ok (server_db s')"
proof -
  have check: "CreateRole_check (server_db demo_server) root_session demo_create = None" by code_simp
  obtain r1 r2 where r: "create_attributes demo_env demo_create (fst (CreateDefaultRole (server_counter demo_server) (gs ''bob''))) = Inr r1"
    "create_attributes demo_env demo_create (fst (CreateDefaultRole (server_counter demo_server + 1) (gs ''bob''))) = Inr r2"
    by (simp add: create_attributes_def demo_create_def demo_env_def)
  have rest: "cr_Name demo_create = gs ''bob''" "clusterReplicator memory_only = None" "fileSystem memory_only = None"
    "server_counter demo_server + 1 \<noteq> 0" "server_counter demo_server + 2 \<noteq> 0"
    "gm_get (rolesByID (server_db demo_server)) (server_counter demo_server + 2) = None" by code_simp+
  show ?thesis using create_role_race [OF check check rest(1,1) r rest(2-6)] by blast
qed

section \<open>ALTER ROLE\<close>

lemma alter_option_keeps:
  assumes "alter_option env userRole opt role = Inr role'"
  shows "role_id role' = role_id role \<and> role_Name role' = role_Name role \<and>
    (role_IsSuperUser userRole \<or> role_IsSuperUser role' = role_IsSuperUser role \<and>
      CanBypassRowLevelSecurity role' = CanBypassRowLevelSecurity role \<and> IsReplicationRole role' = IsReplicationRole role)"
  using assms unfolding alter_option_def Let_def superuser_only_def
  by (auto split: prod.splits if_splits option.splits role_option.splits)

lemma alter_options_keep:
  "alter_options env userRole opts role = Inr role' \<Longrightarrow>
   role_id role' = role_id role \<and> role_Name role' = role_Name role \<and>
    (role_IsSuperUser userRole \<or> role_IsSuperUser role' = role_IsSuperUser role \<and>
      CanBypassRowLevelSecurity role' = CanBypassRowLevelSecurity role \<and> IsReplicationRole role' = IsReplicationRole role)"
  by (induction opts arbitrary: role) (auto split: sum.splits dest!: alter_option_keeps)

lemma AlterRole_check_not_Ok: "AlterRole_check env db ctx a \<noteq> Inl Ok"
proof -
  have one: False if "alter_option env userRole opt role = Inl Ok" for userRole opt role
    using that unfolding alter_option_def Let_def superuser_only_def
    by (auto split: prod.splits if_splits option.splits role_option.splits)
  have "alter_options env userRole opts role \<noteq> Inl Ok" for userRole opts role
    by (induction opts arbitrary: role) (auto split: sum.splits dest: one)
  then show ?thesis by (simp add: AlterRole_check_def Let_def)
qed

lemma SetRole_same_name:
  assumes "roles_ok db" and "gm_get (rolesByID db) (role_id role) = Some old" and "role_Name role = role_Name old"
  shows "roles_ok (SetRole db role)" and "GetRole (SetRole db role) name = (if name = role_Name role then role else GetRole db name)"
proof -
  note ok = roles_okD [OF assms(1)]
  have id: "role_id role \<noteq> 0" using ok(5) assms(2) by blast
  have n: "gm_get (rolesByName db) (role_Name role) = Some (role_id role)" using ok(6) [OF assms(2)] assms(3) by simp
  show "roles_ok (SetRole db role)" using roles_ok_SetRole [OF assms(1) id] n by simp
  have set: "SetRole db role = db\<lparr>rolesByName := gm_set (role_Name role) (role_id role) (gm_del (role_Name role) (rolesByName db)),
      rolesByID := gm_set (role_id role) role (rolesByID db)\<rparr>"
    using id assms(2,3) by (simp add: SetRole_def Let_def)
  show "GetRole (SetRole db role) name = (if name = role_Name role then role else GetRole db name)"
  proof (cases "name = role_Name role")
    case False
    have "i \<noteq> role_id role" if "gm_get (rolesByName db) name = Some i" for i
    proof
      assume "i = role_id role"
      then have "role_Name old = name" using that ok(3) [of name i] assms(2) by auto
      then show False using False assms(3) by simp
    qed
    with False show ?thesis by (auto simp: set GetRole_def role_by_id_def split: option.split)
  qed (simp add: set GetRole_def role_by_id_def)
qed

lemma AlterRole_RowIter_cases:
  assumes "AlterRole_RowIter env st ctx a s = (e, s')"
  shows "(\<exists>e'. AlterRole_check env (server_db s) ctx a = Inl e' \<and> e = e' \<and> s' = s) \<or>
    (\<exists>role. AlterRole_check env (server_db s) ctx a = Inr role \<and> server_db s' = SetRole (server_db s) role)"
proof (cases "AlterRole_check env (server_db s) ctx a")
  case (Inr role)
  then have "phase_end (store_role st role s) = (e, s')" using assms by (simp add: AlterRole_RowIter_def alter_step_def)
  then show ?thesis using store_role_end Inr by blast
qed (use assms in \<open>simp add: AlterRole_RowIter_def alter_step_def phase_end_def\<close>)

text \<open>C28. \<open>ALTER ROLE\<close> changes the role of its name and no other, and keeps its id. Whether the role is a superuser, bypasses
  row level security or replicates changes only when the caller is a superuser; other callers can not alter a
  superuser at all, and alter another role only if they may create roles.\<close>

theorem alter_role_guard:
  assumes "roles_ok (server_db s)" and "AlterRole_RowIter env st ctx a s = (Ok, s')"
  shows "(let user = GetRole (server_db s) (Client_User ctx); old = GetRole (server_db s) (ar_Name a);
        new = GetRole (server_db s') (ar_Name a) in
      role_id new = role_id old \<and>
      (role_IsSuperUser user \<or> \<not> role_IsSuperUser old \<and> \<not> role_IsSuperUser new \<and>
        CanBypassRowLevelSecurity new = CanBypassRowLevelSecurity old \<and> IsReplicationRole new = IsReplicationRole old \<and>
        (CanCreateRoles user \<or> ar_Name a = Client_User ctx))) \<and>
    (\<forall>name. name \<noteq> ar_Name a \<longrightarrow> GetRole (server_db s') name = GetRole (server_db s) name) \<and> roles_ok (server_db s')"
proof -
  let ?user = "GetRole (server_db s) (Client_User ctx)" and ?old = "GetRole (server_db s) (ar_Name a)"
  obtain role where check: "AlterRole_check env (server_db s) ctx a = Inr role" and db: "server_db s' = SetRole (server_db s) role"
    using AlterRole_RowIter_cases [OF assms(2)] AlterRole_check_not_Ok by metis
  then have valid: "Role_IsValid ?user" "Role_IsValid ?old" and opts: "alter_options env ?user (ar_Options a) ?old = Inr role"
    and perm: "role_IsSuperUser ?old \<Longrightarrow> role_IsSuperUser ?user"
      "role_IsSuperUser ?user \<or> CanCreateRoles ?user \<or> role_id ?old = role_id ?user"
    by (auto simp: AlterRole_check_def Let_def split: if_splits)
  note kept = alter_options_keep [OF opts]
  note old = GetRole_valid [OF assms(1) valid(2)] and user = GetRole_valid [OF assms(1) valid(1)]
  have same: "role_id ?old = role_id ?user \<Longrightarrow> ar_Name a = Client_User ctx" using old(2,3) user(2,3) by (metis option.inject)
  have "roles_ok (server_db s')" "\<And>name. GetRole (server_db s') name = (if name = role_Name role then role else GetRole (server_db s) name)"
    using SetRole_same_name [OF assms(1), of role ?old] kept old(2) unfolding db by simp_all
  then show ?thesis using kept perm same old(3) by (auto simp: Let_def)
qed

theorem alter_role_guard_witness:
  "\<exists>s'. AlterRole_RowIter demo_env memory_only root_session \<lparr>ar_Name = gs ''alice'', ar_Options = [(gs ''SUPERUSER'', OptOther)]\<rparr> demo_server = (Ok, s') \<and>
     role_id (GetRole (server_db s') (gs ''alice'')) = 2 \<and> roles_ok (server_db s')"
proof -
  let ?a = "\<lparr>ar_Name = gs ''alice'', ar_Options = [(gs ''SUPERUSER'', OptOther)]\<rparr>"
  have "fst (AlterRole_RowIter demo_env memory_only root_session ?a demo_server) = Ok" "role_id (GetRole demo_db (gs ''alice'')) = 2"
    by code_simp+
  moreover from this obtain s' where "AlterRole_RowIter demo_env memory_only root_session ?a demo_server = (Ok, s')"
    by (cases "AlterRole_RowIter demo_env memory_only root_session ?a demo_server") auto
  ultimately show ?thesis
    using alter_role_guard [of demo_server demo_env memory_only root_session ?a s'] demo_roles_ok
    by (auto simp: demo_server_def Let_def)
qed

text \<open>Every role can give itself the right to create roles, and databases: a caller without any attribute alters
  itself, and only the attributes of superusers are guarded.\<close>

theorem alter_self_escalates:
  assumes "roles_ok (server_db s)" and "Role_IsValid (GetRole (server_db s) (Client_User ctx))"
    and "clusterReplicator st = None" "fileSystem st = None"
  shows "\<exists>s'. AlterRole_RowIter env st ctx
      \<lparr>ar_Name = Client_User ctx, ar_Options = [(gs ''CREATEROLE'', v), (gs ''CREATEDB'', w)]\<rparr> s = (Ok, s') \<and>
    CanCreateRoles (GetRole (server_db s') (Client_User ctx)) \<and> CanCreateDB (GetRole (server_db s') (Client_User ctx))"
proof -
  let ?user = "GetRole (server_db s) (Client_User ctx)"
  let ?role = "?user\<lparr>CanCreateRoles := True, CanCreateDB := True\<rparr>"
  let ?a = "\<lparr>ar_Name = Client_User ctx, ar_Options = [(gs ''CREATEROLE'', v), (gs ''CREATEDB'', w)]\<rparr>"
  have "alter_option env u (gs ''CREATEROLE'', v) r = Inr (r\<lparr>CanCreateRoles := True\<rparr>)"
    "alter_option env u (gs ''CREATEDB'', w) r = Inr (r\<lparr>CanCreateDB := True\<rparr>)" for u r
    by (simp_all add: alter_option_def gs_def)
  then have "AlterRole_check env (server_db s) ctx ?a = Inr ?role" using assms(2) by (simp add: AlterRole_check_def)
  then have "AlterRole_RowIter env st ctx ?a s = (Ok, s\<lparr>server_db := SetRole (server_db s) ?role\<rparr>)"
    using assms(3,4) by (simp add: AlterRole_RowIter_def alter_step_def store_role_def PersistChanges_none phase_end_def)
  moreover have "GetRole (SetRole (server_db s) ?role) (Client_User ctx) = ?role"
    using SetRole_same_name(2) [OF assms(1), of ?role ?user] GetRole_valid(2,3) [OF assms(1,2)] by simp
  ultimately show ?thesis by simp
qed

theorem alter_self_escalates_witness:
  "\<not> CanCreateRoles (GetRole demo_db (gs ''alice'')) \<and>
   (\<exists>s'. AlterRole_RowIter demo_env memory_only demo_session
      \<lparr>ar_Name = Client_User demo_session, ar_Options = [(gs ''CREATEROLE'', OptOther), (gs ''CREATEDB'', OptOther)]\<rparr> demo_server = (Ok, s') \<and>
    CanCreateRoles (GetRole (server_db s') (gs ''alice'')))"
proof -
  have "\<not> CanCreateRoles (GetRole demo_db (gs ''alice''))" "Role_IsValid (GetRole (server_db demo_server) (Client_User demo_session))"
    "clusterReplicator memory_only = None" "fileSystem memory_only = None" "Client_User demo_session = gs ''alice''" by code_simp+
  moreover have "roles_ok (server_db demo_server)" using demo_roles_ok by (simp add: demo_server_def)
  ultimately show ?thesis using alter_self_escalates [of demo_server demo_session memory_only demo_env OptOther OptOther] by auto
qed

section \<open>DROP ROLE\<close>

lemma drop_check_Inr:
  "drop_check db userRole ifExists names = Inr roles \<Longrightarrow>
   roles = filter Role_IsValid (map (GetRole db) names) \<and>
   (role_IsSuperUser userRole \<or> (\<forall>name \<in> set names. \<not> role_IsSuperUser (GetRole db name) \<and> CanCreateRoles userRole)) \<and>
   (ifExists \<or> (\<forall>name \<in> set names. Role_IsValid (GetRole db name)))"
  by (induction names arbitrary: roles) (auto simp: Let_def split: if_splits sum.splits)

lemma GetRole_DropRole:
  assumes "roles_ok db"
  shows "GetRole (DropRole db name) n = (if n = name then createDefaultRoleWithoutID n else GetRole db n)"
proof (cases "n = name")
  case True
  then show ?thesis by (cases "gm_get (rolesByName db) name") (simp_all add: DropRole_def GetRole_def)
next
  case False
  show ?thesis
  proof (cases "gm_get (rolesByName db) name")
    case (Some i)
    show ?thesis
    proof (cases "gm_get (rolesByName db) n")
      case (Some j)
      have "j \<noteq> i"
      proof
        assume "j = i"
        then have "gm_get (rolesByName db) n = gm_get (rolesByName db) name" using Some \<open>gm_get (rolesByName db) name = Some i\<close> by simp
        moreover obtain r where "gm_get (rolesByID db) i = Some r" "role_Name r = name"
          using iffD1 [OF roles_okD(3) [OF assms] \<open>gm_get (rolesByName db) name = Some i\<close>] by blast
        moreover obtain r' where "gm_get (rolesByID db) j = Some r'" "role_Name r' = n"
          using iffD1 [OF roles_okD(3) [OF assms] Some] by blast
        ultimately show False using False \<open>j = i\<close> by simp
      qed
      then show ?thesis using Some \<open>gm_get (rolesByName db) name = Some i\<close> False by (simp add: DropRole_def GetRole_def role_by_id_def)
    qed (use Some False in \<open>simp add: DropRole_def GetRole_def\<close>)
  qed (use False in \<open>simp add: DropRole_def\<close>)
qed

lemma drop_all_frame:
  "foldl (\<lambda>db role. DropRole db (role_Name role)) db roles =
     db\<lparr>rolesByName := rolesByName (foldl (\<lambda>db role. DropRole db (role_Name role)) db roles),
       rolesByID := rolesByID (foldl (\<lambda>db role. DropRole db (role_Name role)) db roles)\<rparr>"
proof (induction roles arbitrary: db)
  case (Cons r rs)
  let ?db = "DropRole db (role_Name r)" and ?all = "foldl (\<lambda>db role. DropRole db (role_Name role))"
  have "?all ?db rs = ?db\<lparr>rolesByName := rolesByName (?all ?db rs), rolesByID := rolesByID (?all ?db rs)\<rparr>" by (rule Cons.IH)
  also have "\<dots> = db\<lparr>rolesByName := rolesByName (?all ?db rs), rolesByID := rolesByID (?all ?db rs)\<rparr>"
    by (simp add: DropRole_def split: option.split)
  finally show ?case by simp
qed simp

lemma drop_all:
  "roles_ok db \<Longrightarrow> roles_ok (foldl (\<lambda>db role. DropRole db (role_Name role)) db roles) \<and>
   GetRole (foldl (\<lambda>db role. DropRole db (role_Name role)) db roles) n =
     (if n \<in> role_Name ` set roles then createDefaultRoleWithoutID n else GetRole db n)"
proof (induction roles arbitrary: db)
  case (Cons r rs)
  have "roles_ok (DropRole db (role_Name r))" by (rule roles_ok_DropRole [OF Cons.prems])
  then show ?case using Cons.IH [of "DropRole db (role_Name r)"] GetRole_DropRole [OF Cons.prems, of "role_Name r" n] by auto
qed simp

text \<open>C29. \<open>DROP ROLE\<close> that succeeds, on maps of roles that are inverse, leaves no role under any of the names and every other role as it was. A caller that
  is no superuser must be able to create roles and can not drop a superuser, when a role is named at all. Nothing but the maps of roles changes: all memberships and
  privileges, those of the dropped roles too, stay.\<close>

theorem drop_role_effect:
  assumes "roles_ok (server_db s)" and "DropRole_RowIter st ctx d s = (Ok, s')"
  shows "roles_ok (server_db s') \<and> (\<forall>name \<in> set (dr_Names d). \<not> Role_IsValid (GetRole (server_db s') name)) \<and>
    (\<forall>name. name \<notin> set (dr_Names d) \<longrightarrow> GetRole (server_db s') name = GetRole (server_db s) name) \<and>
    (let user = GetRole (server_db s) (Client_User ctx) in role_IsSuperUser user \<or>
      (\<forall>name \<in> set (dr_Names d). \<not> role_IsSuperUser (GetRole (server_db s) name) \<and> CanCreateRoles user)) \<and>
    server_db s' = (server_db s)\<lparr>rolesByName := rolesByName (server_db s'), rolesByID := rolesByID (server_db s')\<rparr>"
proof -
  let ?user = "GetRole (server_db s) (Client_User ctx)"
  obtain roles where roles: "drop_check (server_db s) ?user (IfExists d) (dr_Names d) = Inr roles"
    using assms(2) by (auto simp: DropRole_RowIter_def drop_step_def phase_end_def split: sum.splits)
  let ?db = "foldl (\<lambda>db role. DropRole db (role_Name role)) (server_db s) roles"
  have db: "server_db s' = ?db"
  proof -
    obtain e s1 where p: "PersistChanges st (s\<lparr>server_db := ?db\<rparr>) = (e, s1)" by fastforce
    have "drop_step st ctx d (s, Start) = (s, Dropping roles)" by (simp add: drop_step_def roles)
    moreover have "drop_step st ctx d (s, Dropping roles) = (s1, Ended e)" by (simp add: drop_step_def p)
    ultimately have "s1 = s'" using assms(2) by (simp add: DropRole_RowIter_def phase_end_def)
    then show ?thesis using PersistChanges_db [OF p] by simp
  qed
  note checked = drop_check_Inr [OF roles]
  have names: "role_Name ` set roles = {name \<in> set (dr_Names d). Role_IsValid (GetRole (server_db s) name)}"
  proof -
    have "role_Name ` set roles = (\<lambda>name. role_Name (GetRole (server_db s) name)) ` {name \<in> set (dr_Names d). Role_IsValid (GetRole (server_db s) name)}"
      unfolding conjunct1 [OF checked] by auto
    also have "\<dots> = (\<lambda>name. name) ` {name \<in> set (dr_Names d). Role_IsValid (GetRole (server_db s) name)}"
      by (rule image_cong [OF refl]) (use GetRole_valid(3) [OF assms(1)] in blast)
    finally show ?thesis by simp
  qed
  have dropped: "roles_ok ?db"
    "\<And>n. GetRole ?db n = (if n \<in> set (dr_Names d) \<and> Role_IsValid (GetRole (server_db s) n) then createDefaultRoleWithoutID n
      else GetRole (server_db s) n)"
    using drop_all [OF assms(1), of roles] unfolding names by simp_all
  have "\<not> Role_IsValid (createDefaultRoleWithoutID n)" for n
    by (simp add: Role_IsValid_def RoleID_IsValid_def createDefaultRoleWithoutID_def)
  moreover have "server_db s' = (server_db s)\<lparr>rolesByName := rolesByName (server_db s'), rolesByID := rolesByID (server_db s')\<rparr>"
    unfolding db by (rule drop_all_frame)
  ultimately show ?thesis using conjunct1 [OF conjunct2 [OF checked]] by (auto simp: db dropped Let_def)
qed

theorem drop_role_effect_witness:
  "\<exists>s'. DropRole_RowIter memory_only root_session \<lparr>dr_Names = [gs ''alice''], IfExists = False\<rparr> demo_server = (Ok, s') \<and>
     \<not> Role_IsValid (GetRole (server_db s') (gs ''alice'')) \<and> GetRole (server_db s') (gs ''staff'') = GetRole demo_db (gs ''staff'')"
proof -
  let ?d = "\<lparr>dr_Names = [gs ''alice''], IfExists = False\<rparr>"
  have "fst (DropRole_RowIter memory_only root_session ?d demo_server) = Ok" "gs ''staff'' \<noteq> gs ''alice''" by code_simp+
  moreover from this obtain s' where "DropRole_RowIter memory_only root_session ?d demo_server = (Ok, s')"
    by (cases "DropRole_RowIter memory_only root_session ?d demo_server") auto
  ultimately show ?thesis
    using drop_role_effect [of demo_server memory_only root_session ?d s'] demo_roles_ok by (auto simp: demo_server_def)
qed

end
