(* ===== verification/Copy_Loader.thy ===== *)
theory Copy_Loader
  imports Byte_Writer
begin

text \<open>
  What the loaders of \<open>COPY\<close> share (\<open>src/core/dataloader/dataloader.go\<close>) and how they are used by
  \<open>handleCopyDataHelper\<close> of \<open>src/server/connection_handler.go\<close>: each \<open>CopyData\<close> message is a chunk, whose rows are
  taken from the loader until its iterator returns \<open>io.EOF\<close>; any other error ends the statement. A chunk is the
  list of its bytes. The conversion of a field to a value of the type of its column (\<open>IoInput\<close> and \<open>CallReceive\<close>)
  is a parameter: a column is its name and that function. A NULL is \<open>None\<close>.
\<close>

section \<open>Columns and fields\<close>

datatype load_error =
    EndOfFile
  | ColumnNotFound gostring
  | UnsupportedColumnType gostring
  | ExtraColumn
  | MissingColumn gostring
  | InputError
  | PartialLineAtEnd
  | PartialRecordAtEnd
  | IncompleteRecord gostring
  | BadQuote
  | BadFieldCount
  | BadSignature
  | BadFlags
  | BadExtensionLength
  | BadRowFieldCount
  | BadFieldSize
  | DataAfterTrailer
  | MissingTrailer
  | TooManyColumns

type_synonym 'v io_input = "gostring \<Rightarrow> 'v option"
type_synonym 'v column = "gostring \<times> 'v io_input"

text \<open>A column of the table: its type is usable or not. The position of a name is found by go-mysql-server.\<close>

fun getColumnTypes :: "(gostring \<Rightarrow> nat option) \<Rightarrow> (gostring \<times> 'v io_input option) list \<Rightarrow> gostring list \<Rightarrow> load_error + 'v column list" where
  "getColumnTypes index sch [] = Inr []"
| "getColumnTypes index sch (colName # colNames) = (case index colName of
     None \<Rightarrow> Inl (ColumnNotFound colName)
   | Some colIdx \<Rightarrow> (case sch ! colIdx of
       (name, None) \<Rightarrow> Inl (UnsupportedColumnType name)
     | (name, Some t) \<Rightarrow> (case getColumnTypes index sch colNames of
         Inl e \<Rightarrow> Inl e
       | Inr cols \<Rightarrow> Inr ((name, t) # cols))))"

text \<open>The loop that converts the fields of a row.\<close>

fun input_row :: "'v column list \<Rightarrow> gostring option list \<Rightarrow> load_error + 'v option list" where
  "input_row ((_, t) # cols) (f # fs) = (case f of
     None \<Rightarrow> (case input_row cols fs of Inl e \<Rightarrow> Inl e | Inr row \<Rightarrow> Inr (None # row))
   | Some s \<Rightarrow> (case t s of
       None \<Rightarrow> Inl InputError
     | Some v \<Rightarrow> (case input_row cols fs of Inl e \<Rightarrow> Inl e | Inr row \<Rightarrow> Inr (Some v # row))))"
| "input_row _ _ = Inr []"

text \<open>The comparison of the number of fields with the number of columns.\<close>

definition check_columns :: "'v column list \<Rightarrow> 'f list \<Rightarrow> load_error option" where
  "check_columns cols fs =
     (if length fs > length cols then Some ExtraColumn
      else if length fs < length cols then Some (MissingColumn (fst (cols ! length fs)))
      else None)"

section \<open>What COPY TO sends\<close>

text \<open>The rows one after the other; the first that can not be written ends the statement.\<close>

fun write_rows :: "(gostring option list \<Rightarrow> load_error + byte list) \<Rightarrow> gostring option list list \<Rightarrow> load_error + byte list list" where
  "write_rows write_row [] = Inr []"
| "write_rows write_row (row # rows) = (case write_row row of
     Inl e \<Rightarrow> Inl e
   | Inr data \<Rightarrow> (case write_rows write_row rows of Inl e \<Rightarrow> Inl e | Inr chunks \<Rightarrow> Inr (data # chunks)))"

text \<open>The messages of \<open>handleCopyTo\<close>: the header goes with the first of them.\<close>

definition copy_to ::
  "byte list option \<Rightarrow> (gostring option list \<Rightarrow> load_error + byte list) \<Rightarrow> byte list option \<Rightarrow>
   gostring option list list \<Rightarrow> load_error + byte list list" where
  "copy_to header write_row footer rows = (case write_rows write_row rows of
     Inl e \<Rightarrow> Inl e
   | Inr chunks \<Rightarrow>
       let sent = chunks @ (case footer of None \<Rightarrow> [] | Some f \<Rightarrow> [f]) in
       Inr (case header of None \<Rightarrow> sent | Some h \<Rightarrow> (case sent of [] \<Rightarrow> [h] | c # cs \<Rightarrow> (h @ c) # cs)))"

lemma copy_to_concat:
  assumes "copy_to header write_row footer rows = Inr chunks"
  shows "\<exists>body. write_rows write_row rows = Inr body \<and>
    concat chunks = (case header of None \<Rightarrow> [] | Some h \<Rightarrow> h) @ concat body @ (case footer of None \<Rightarrow> [] | Some f \<Rightarrow> f)"
proof -
  have first: "concat (case sent of [] \<Rightarrow> [h] | c # cs \<Rightarrow> (h @ c) # cs) = h @ concat sent" for h :: "byte list" and sent
    by (cases sent) auto
  show ?thesis using assms by (auto simp: copy_to_def Let_def first split: sum.splits option.splits)
qed

section \<open>Taking the rows of a chunk\<close>

text \<open>The iterator gives a row or an error, the loader and the rest of the data. The number of rounds is bounded by the
  first argument; one more than the length of the data is always enough for the loaders of the program.\<close>

type_synonym ('s, 'v) next_row = "'s \<Rightarrow> byte list \<Rightarrow> (load_error + 'v option list) \<times> 's \<times> byte list"
type_synonym ('s, 'v) loaded = "'v option list list \<times> load_error \<times> 's"

fun drain :: "('s, 'v) next_row \<Rightarrow> nat \<Rightarrow> 's \<Rightarrow> byte list \<Rightarrow> ('s, 'v) loaded option" where
  "drain next 0 s data = None"
| "drain next (Suc n) s data = (case next s data of (r, s', rest) \<Rightarrow> (case r of
     Inl e \<Rightarrow> Some ([], e, s')
   | Inr row \<Rightarrow> (case drain next n s' rest of
       None \<Rightarrow> None
     | Some (rows, e, s'') \<Rightarrow> Some (row # rows, e, s''))))"

text \<open>\<open>RowIter\<close> of a loader prepares the reader of the chunk.\<close>

type_synonym 's row_iter = "'s \<Rightarrow> byte list \<Rightarrow> 's \<times> byte list"

definition load_chunk :: "'s row_iter \<Rightarrow> ('s, 'v) next_row \<Rightarrow> 's \<Rightarrow> byte list \<Rightarrow> ('s, 'v) loaded option" where
  "load_chunk row_iter next s chunk = (case row_iter s chunk of (s', data) \<Rightarrow> drain next (Suc (length data)) s' data)"

text \<open>The chunks one after the other, until one of them ends with another error than the end of its data.\<close>

fun load_chunks :: "'s row_iter \<Rightarrow> ('s, 'v) next_row \<Rightarrow> 's \<Rightarrow> byte list list \<Rightarrow> ('s, 'v) loaded option" where
  "load_chunks row_iter next s [] = Some ([], EndOfFile, s)"
| "load_chunks row_iter next s (c # cs) = (case load_chunk row_iter next s c of
     None \<Rightarrow> None
   | Some (rows, e, s') \<Rightarrow>
       if e \<noteq> EndOfFile then Some (rows, e, s')
       else (case load_chunks row_iter next s' cs of
         None \<Rightarrow> None
       | Some (rows', e', s'') \<Rightarrow> Some (rows @ rows', e', s'')))"

text \<open>Every row takes bytes off the data, so that the rounds suffice.\<close>

locale row_source =
  fixes next_row :: "('s, 'v) next_row"
  assumes row_shorter: "next_row s data = (Inr row, s', rest) \<Longrightarrow> length rest < length data"
begin

lemma drain_total: "length data < n \<Longrightarrow> \<exists>r. drain next_row n s data = Some r"
proof (induction n arbitrary: s data)
  case (Suc n)
  obtain r s' rest where nx: "next_row s data = (r, s', rest)" by (cases "next_row s data")
  show ?case
  proof (cases r)
    case (Inr row)
    then have "length rest < n" using row_shorter [of s data row s' rest] nx Suc.prems by simp
    then obtain rows e s'' where "drain next_row n s' rest = Some (rows, e, s'')" using Suc.IH [of rest s'] by auto
    then show ?thesis by (simp add: nx Inr)
  qed (simp add: nx)
qed simp

lemma drain_enough: "length data < n \<Longrightarrow> drain next_row n s data = drain next_row (Suc (length data)) s data"
proof (induction "length data" arbitrary: n s data rule: less_induct)
  case less
  then obtain m where n: "n = Suc m" by (cases n) auto
  obtain r s' rest where nx: "next_row s data = (r, s', rest)" by (cases "next_row s data")
  show ?case
  proof (cases r)
    case (Inr row)
    then have shorter: "length rest < length data" using row_shorter [of s data row s' rest] nx by simp
    have "drain next_row m s' rest = drain next_row (length data) s' rest"
      using less.hyps [OF shorter, of m s'] less.hyps [OF shorter, of "length data" s'] shorter less.prems n by simp
    then show ?thesis by (simp add: n nx Inr)
  qed (simp add: n nx)
qed

lemma drain_row:
  assumes "next_row s data = (Inr row, s', rest)"
  shows "drain next_row (Suc (length data)) s data =
    (case drain next_row (Suc (length rest)) s' rest of None \<Rightarrow> None | Some (rows, e, s'') \<Rightarrow> Some (row # rows, e, s''))"
  using assms drain_enough [of rest "length data" s'] row_shorter [OF assms] by (simp split: option.splits prod.splits)

end

text \<open>Loading a chunk and then another is loading both at once, if what is left over of the first is taken up again.
  The laws are asked for only where \<open>fit\<close> holds, the condition on the loader and the data that a format needs.\<close>

locale resumable = row_source next_row for next_row :: "('s, 'v) next_row" +
  fixes row_iter :: "'s row_iter"
    and fit :: "'s \<Rightarrow> byte list \<Rightarrow> bool"
  assumes iter_append: "row_iter s chunk = (s', data) \<Longrightarrow> row_iter s (chunk @ later) = (s', data @ later)"
    and row_append: "fit s data \<Longrightarrow> next_row s data = (Inr row, s', rest) \<Longrightarrow>
      next_row s (data @ later) = (Inr row, s', rest @ later) \<and> fit s' rest"
    and error_append: "fit s data \<Longrightarrow> next_row s data = (Inl e, s', rest) \<Longrightarrow> e \<noteq> EndOfFile \<Longrightarrow>
      \<exists>rest'. next_row s (data @ later) = (Inl e, s', rest')"
    and end_append: "fit s data \<Longrightarrow> next_row s data = (Inl EndOfFile, s', rest) \<Longrightarrow> row_iter s' later = (s'', data') \<Longrightarrow>
      next_row s (data @ later) = next_row s'' data'"
begin

lemma drain_same:
  assumes "next_row s data = next_row s' data'"
  shows "drain next_row (Suc (length data)) s data = drain next_row (Suc (length data')) s' data'"
proof -
  obtain r t rest where nx: "next_row s' data' = (r, t, rest)" by (cases "next_row s' data'")
  show ?thesis
  proof (cases r)
    case (Inr row)
    then show ?thesis using drain_row [of s data row t rest] drain_row [of s' data' row t rest] nx assms by simp
  qed (simp add: assms nx)
qed

lemma drain_append:
  assumes "fit s data"
  shows "drain next_row (Suc (length (data @ later))) s (data @ later) = (case drain next_row (Suc (length data)) s data of
      None \<Rightarrow> None
    | Some (rows, e, s') \<Rightarrow> if e \<noteq> EndOfFile then Some (rows, e, s')
        else (case load_chunk row_iter next_row s' later of
          None \<Rightarrow> None
        | Some (rows', e', s'') \<Rightarrow> Some (rows @ rows', e', s'')))"
  using assms
proof (induction "length data" arbitrary: s data rule: less_induct)
  case less
  obtain r s' rest where nx: "next_row s data = (r, s', rest)" by (cases "next_row s data")
  show ?case
  proof (cases r)
    case (Inl e)
    show ?thesis
    proof (cases "e = EndOfFile")
      case True
      obtain s'' data' where it: "row_iter s' later = (s'', data')" by (cases "row_iter s' later")
      have same: "drain next_row (Suc (length (data @ later))) s (data @ later) = drain next_row (Suc (length data')) s'' data'"
        by (rule drain_same) (use end_append [OF less.prems _ it, of rest] nx Inl True in simp)
      show ?thesis unfolding same by (simp add: load_chunk_def it nx Inl True split: option.split)
    next
      case False
      then obtain rest' where "next_row s (data @ later) = (Inl e, s', rest')"
        using error_append [OF less.prems, of e s' rest later] nx Inl by blast
      then show ?thesis by (simp add: nx Inl False)
    qed
  next
    case (Inr row)
    have app: "next_row s (data @ later) = (Inr row, s', rest @ later)" and fit: "fit s' rest"
      using row_append [OF less.prems, of row s' rest later] nx Inr by auto
    have shorter: "length rest < length data" using row_shorter [of s data row s' rest] nx Inr by simp
    show ?thesis
      unfolding drain_row [OF app] drain_row [OF nx [unfolded Inr]] less.hyps [OF shorter fit]
      by (auto split: option.splits)
  qed
qed

lemma load_chunk_append:
  assumes "fit (fst (row_iter s c)) (snd (row_iter s c))"
  shows "load_chunk row_iter next_row s (c @ later) = (case load_chunk row_iter next_row s c of
      None \<Rightarrow> None
    | Some (rows, e, s') \<Rightarrow> if e \<noteq> EndOfFile then Some (rows, e, s')
        else (case load_chunk row_iter next_row s' later of
          None \<Rightarrow> None
        | Some (rows', e', s'') \<Rightarrow> Some (rows @ rows', e', s'')))"
proof -
  obtain s' data where it: "row_iter s c = (s', data)" by (cases "row_iter s c")
  have "fit s' data" using assms it by simp
  then show ?thesis
    unfolding load_chunk_def [of row_iter next_row s] it iter_append [OF it] prod.case by (rule drain_append)
qed

lemma load_chunks_concat:
  assumes "cs \<noteq> []" and "good s (concat cs)"
    and fit: "\<And>s c later. good s (c @ later) \<Longrightarrow> c \<in> set cs \<Longrightarrow> fit (fst (row_iter s c)) (snd (row_iter s c))"
    and keep: "\<And>s c later rows s'. good s (c @ later) \<Longrightarrow> c \<in> set cs \<Longrightarrow>
      load_chunk row_iter next_row s c = Some (rows, EndOfFile, s') \<Longrightarrow> good s' later"
  shows "load_chunks row_iter next_row s cs = load_chunk row_iter next_row s (concat cs)"
  using assms
proof (induction cs arbitrary: s)
  case (Cons c cs)
  show ?case
  proof (cases "cs = []")
    case True
    show ?thesis by (auto simp: True split: option.splits)
  next
    case False
    have good: "good s (c @ concat cs)" using Cons.prems(2) by simp
    have rest: "load_chunks row_iter next_row s' cs = load_chunk row_iter next_row s' (concat cs)"
      if "load_chunk row_iter next_row s c = Some (rows, EndOfFile, s')" for rows s'
    proof (rule Cons.IH [OF False])
      show "good s' (concat cs)" using Cons.prems(4) [OF good _ that] by simp
      show "\<And>s c later. good s (c @ later) \<Longrightarrow> c \<in> set cs \<Longrightarrow> fit (fst (row_iter s c)) (snd (row_iter s c))"
        using Cons.prems(3) by simp
      show "\<And>s c later rows s'. good s (c @ later) \<Longrightarrow> c \<in> set cs \<Longrightarrow>
          load_chunk row_iter next_row s c = Some (rows, EndOfFile, s') \<Longrightarrow> good s' later"
        using Cons.prems(4) by simp
    qed
    show ?thesis
      using load_chunk_append [OF Cons.prems(3) [OF good], of "concat cs"] rest by (auto split: option.splits)
  qed
qed simp

end

end
