(* ===== verification/Copy_Text.thy ===== *)
theory Copy_Text
  imports Copy_Loader "HOL-Library.Sublist"
begin

text \<open>
  \<open>COPY\<close> in the text format: \<open>tabdataloader.go\<close> and \<open>tabdatawriter.go\<close> of \<open>src/core/dataloader\<close>. Reading from a
  chunk gives the rest of its bytes.
\<close>

section \<open>Lines\<close>

abbreviation (input) NL :: byte where
  "NL \<equiv> 10"

abbreviation (input) CR :: byte where
  "CR \<equiv> 13"

abbreviation (input) Backslash :: byte where
  "Backslash \<equiv> 92"

text \<open>\<open>bufio.Reader.ReadString\<close> up to a newline: whether there was one, what was read, and the rest.\<close>

definition ReadString :: "byte list \<Rightarrow> bool \<times> byte list \<times> byte list" where
  "ReadString data =
     (if NL \<in> set data
      then (True, takeWhile (\<lambda>b. b \<noteq> NL) data @ [NL], tl (dropWhile (\<lambda>b. b \<noteq> NL) data))
      else (False, data, []))"

definition TrimSuffix :: "byte \<Rightarrow> byte list \<Rightarrow> byte list" where
  "TrimSuffix b s = (if s \<noteq> [] \<and> last s = b then butlast s else s)"

section \<open>Fields\<close>

text \<open>\<open>splitTextFields\<close>: the part of the line from \<open>start\<close> to \<open>i\<close> is an argument. A delimiter is never empty.\<close>

function split_loop :: "gostring \<Rightarrow> gostring \<Rightarrow> gostring \<Rightarrow> gostring list" where
  "split_loop delimiter field [] = [field]"
| "split_loop delimiter field (c # cs) =
     (if c = Backslash then (case cs of [] \<Rightarrow> [field @ [c]] | d # ds \<Rightarrow> split_loop delimiter (field @ [c, d]) ds)
      else if delimiter \<noteq> [] \<and> prefix delimiter (c # cs)
      then field # split_loop delimiter [] (drop (length delimiter) (c # cs))
      else split_loop delimiter (field @ [c]) cs)"
  by pat_completeness auto
termination by (relation "measure (\<lambda>(_, _, line). length line)") auto

definition splitTextFields :: "gostring \<Rightarrow> gostring \<Rightarrow> gostring list" where
  "splitTextFields line delimiter = split_loop delimiter [] line"

definition unescape_byte :: "byte \<Rightarrow> byte" where
  "unescape_byte c =
     (if c = of_char (CHR ''b'') then 8
      else if c = of_char (CHR ''f'') then 12
      else if c = of_char (CHR ''n'') then 10
      else if c = of_char (CHR ''r'') then 13
      else if c = of_char (CHR ''t'') then 9
      else if c = of_char (CHR ''v'') then 11
      else c)"

text \<open>A field without a backslash is returned as it is, which the loop gives as well.\<close>

fun unescapeTextField :: "gostring \<Rightarrow> gostring" where
  "unescapeTextField [] = []"
| "unescapeTextField [c] = [c]"
| "unescapeTextField (c # d # cs) =
     (if c = Backslash then unescape_byte d # unescapeTextField cs else c # unescapeTextField (d # cs))"

section \<open>The loader\<close>

record 'v TabularDataLoader =
  tab_RowsLoaded :: uint32
  partialLine :: gostring
  tab_columns :: "'v column list"
  tab_delimiterChar :: gostring
  tab_nullChar :: gostring
  tab_removeHeader :: bool

definition defaultTextDelimiter :: gostring where
  "defaultTextDelimiter = [9]"

definition defaultNullChar :: gostring where
  "defaultNullChar = gs [CHR 0x5C, CHR ''N'']"

definition NewTabularDataLoader ::
  "(gostring \<Rightarrow> nat option) \<Rightarrow> (gostring \<times> 'v io_input option) list \<Rightarrow> gostring list \<Rightarrow> gostring \<Rightarrow> gostring \<Rightarrow> bool \<Rightarrow>
   load_error + 'v TabularDataLoader" where
  "NewTabularDataLoader index sch colNames delimiterChar nullChar header = (case getColumnTypes index sch colNames of
     Inl e \<Rightarrow> Inl e
   | Inr cols \<Rightarrow> Inr \<lparr>tab_RowsLoaded = 0, partialLine = [], tab_columns = cols,
       tab_delimiterChar = (if delimiterChar = [] then defaultTextDelimiter else delimiterChar),
       tab_nullChar = (if nullChar = [] then defaultNullChar else nullChar), tab_removeHeader = header\<rparr>)"

definition end_marker :: gostring where
  "end_marker = gs [CHR 0x5C, CHR ''.'']"

text \<open>The fields of a line, with the NULL marker recognised before the escapes are undone.\<close>

definition line_fields :: "'v TabularDataLoader \<Rightarrow> gostring \<Rightarrow> gostring list" where
  "line_fields tdl line = (if line = [] then [[]] else splitTextFields line (tab_delimiterChar tdl))"

definition text_value :: "'v TabularDataLoader \<Rightarrow> gostring \<Rightarrow> gostring option" where
  "text_value tdl f = (if f = tab_nullChar tdl then None else Some (unescapeTextField f))"

text \<open>The row of a line that is neither skipped nor the marker.\<close>

definition text_row :: "'v TabularDataLoader \<Rightarrow> gostring \<Rightarrow> load_error + 'v option list" where
  "text_row tdl line = (let fvals = line_fields tdl line in
     case check_columns (tab_columns tdl) fvals of
       Some e \<Rightarrow> Inl e
     | None \<Rightarrow> input_row (tab_columns tdl) (map (text_value tdl) fvals))"

text \<open>The loop of \<open>nextRow\<close>. It gives an error, no row (at the end of the chunk or at the marker), or a row, with the
  state and the rest of the chunk.\<close>

function tab_loop :: "'v TabularDataLoader \<Rightarrow> byte list \<Rightarrow> (load_error + 'v option list option) \<times> 'v TabularDataLoader \<times> byte list" where
  "tab_loop tdl data = (case ReadString data of (complete, raw, rest) \<Rightarrow>
     if \<not> complete then (Inr None, tdl\<lparr>partialLine := partialLine tdl @ raw\<rparr>, rest)
     else
       let line = partialLine tdl @ TrimSuffix CR (TrimSuffix NL raw); tdl' = tdl\<lparr>partialLine := []\<rparr> in
       if line = end_marker then (Inr None, tdl', rest)
       else if line = [] \<and> length (tab_columns tdl) \<noteq> 1 then tab_loop tdl' rest
       else (case text_row tdl line of
           Inl e \<Rightarrow> (Inl e, tdl', rest)
         | Inr row \<Rightarrow> (Inr (Some row), tdl', rest)))"
  by pat_completeness auto

lemma ReadString_shorter: "ReadString data = (True, raw, rest) \<Longrightarrow> length rest < length data"
proof -
  assume *: "ReadString data = (True, raw, rest)"
  then have "NL \<in> set data" and rest: "rest = tl (dropWhile (\<lambda>b. b \<noteq> NL) data)" by (auto simp: ReadString_def split: if_splits)
  then have "dropWhile (\<lambda>b. b \<noteq> NL) data \<noteq> []" by (auto simp: dropWhile_eq_Nil_conv)
  then show ?thesis using length_dropWhile_le [of "\<lambda>b. b \<noteq> NL" data] rest by (cases "dropWhile (\<lambda>b. b \<noteq> NL) data") auto
qed

termination tab_loop
  by (relation "measure (\<lambda>(_, data). length data)") (auto dest: ReadString_shorter [OF sym])

declare tab_loop.simps [simp del]

definition tab_nextRow :: "'v TabularDataLoader \<Rightarrow> byte list \<Rightarrow> (load_error + 'v option list option) \<times> 'v TabularDataLoader \<times> byte list" where
  "tab_nextRow tdl data =
     (if tab_removeHeader tdl then
        (case ReadString data of (complete, _, rest) \<Rightarrow>
           let tdl' = tdl\<lparr>tab_removeHeader := False\<rparr> in
           if \<not> complete then (Inl EndOfFile, tdl', rest) else tab_loop tdl' rest)
      else tab_loop tdl data)"

text \<open>\<open>Next\<close> of the row iterator.\<close>

definition tab_Next :: "'v TabularDataLoader \<Rightarrow> byte list \<Rightarrow> (load_error + 'v option list) \<times> 'v TabularDataLoader \<times> byte list" where
  "tab_Next tdl data = (case tab_nextRow tdl data of
     (Inl e, r) \<Rightarrow> (Inl e, r)
   | (Inr None, r) \<Rightarrow> (Inl EndOfFile, r)
   | (Inr (Some row), tdl', rest) \<Rightarrow> (Inr row, tdl'\<lparr>tab_RowsLoaded := tab_RowsLoaded tdl' + 1\<rparr>, rest))"

definition tab_Finish :: "'v TabularDataLoader \<Rightarrow> load_error + uint32" where
  "tab_Finish tdl = (if length (partialLine tdl) > 0 then Inl PartialLineAtEnd else Inr (tab_RowsLoaded tdl))"

lemma tab_loop_shorter: "tab_loop tdl data = (Inr (Some row), tdl', rest) \<Longrightarrow> length rest < length data"
proof (induction "length data" arbitrary: tdl data rule: less_induct)
  case less
  obtain complete raw rest0 where r: "ReadString data = (complete, raw, rest0)" by (cases "ReadString data")
  have shorter: "complete \<Longrightarrow> length rest0 < length data" using ReadString_shorter [of data raw rest0] r by simp
  have loop: "complete \<Longrightarrow> tab_loop (tdl\<lparr>partialLine := []\<rparr>) rest0 = (Inr (Some row), tdl', rest) \<Longrightarrow> length rest < length data"
    using less.hyps [OF shorter] shorter by fastforce
  have "complete \<and> (rest = rest0 \<or> tab_loop (tdl\<lparr>partialLine := []\<rparr>) rest0 = (Inr (Some row), tdl', rest))"
    using less.prems unfolding tab_loop.simps [of tdl data] r
    by (auto simp: Let_def split: if_splits option.splits sum.splits)
  then show ?case using shorter loop by blast
qed

lemma tab_nextRow_shorter:
  assumes "tab_nextRow tdl data = (Inr (Some row), tdl', rest)"
  shows "length rest < length data"
proof (cases "tab_removeHeader tdl")
  case True
  obtain complete raw rest0 where r: "ReadString data = (complete, raw, rest0)" by (cases "ReadString data")
  then have c: complete and loop: "tab_loop (tdl\<lparr>tab_removeHeader := False\<rparr>) rest0 = (Inr (Some row), tdl', rest)"
    using assms True by (auto simp: tab_nextRow_def Let_def split: if_splits)
  show ?thesis using less_trans [OF tab_loop_shorter [OF loop] ReadString_shorter [of data raw rest0]] r c by simp
next
  case False
  then show ?thesis using assms tab_loop_shorter [of tdl data row tdl' rest] by (simp add: tab_nextRow_def)
qed

lemma tab_Next_shorter: "tab_Next tdl data = (Inr row, tdl', rest) \<Longrightarrow> length rest < length data"
  by (auto simp: tab_Next_def split: prod.splits sum.splits option.splits dest: tab_nextRow_shorter)

definition tab_RowIter :: "'v TabularDataLoader row_iter" where
  "tab_RowIter tdl chunk = (tdl, chunk)"

section \<open>The writer\<close>

record TabularDataWriter =
  tdw_colNames :: "gostring list"
  tdw_delimiterChar :: gostring
  tdw_nullChar :: gostring
  tdw_header :: bool

definition NewTabularDataWriter :: "gostring list \<Rightarrow> gostring \<Rightarrow> gostring \<Rightarrow> bool \<Rightarrow> TabularDataWriter" where
  "NewTabularDataWriter colNames delimiterChar nullChar header = \<lparr>tdw_colNames = colNames,
     tdw_delimiterChar = (if delimiterChar = [] then defaultTextDelimiter else delimiterChar),
     tdw_nullChar = (if nullChar = [] then defaultNullChar else nullChar), tdw_header = header\<rparr>"

definition escape_byte :: "byte \<Rightarrow> byte \<Rightarrow> gostring" where
  "escape_byte delimiterByte b =
     (if b = Backslash then [Backslash, Backslash]
      else if b = 8 then [Backslash, of_char (CHR ''b'')]
      else if b = 12 then [Backslash, of_char (CHR ''f'')]
      else if b = 10 then [Backslash, of_char (CHR ''n'')]
      else if b = 13 then [Backslash, of_char (CHR ''r'')]
      else if b = 9 then [Backslash, of_char (CHR ''t'')]
      else if b = 11 then [Backslash, of_char (CHR ''v'')]
      else if b = delimiterByte then [Backslash, b]
      else [b])"

definition writeEscaped :: "TabularDataWriter \<Rightarrow> gostring \<Rightarrow> gostring" where
  "writeEscaped tdw val =
     concat (map (escape_byte (if length (tdw_delimiterChar tdw) = 1 then hd (tdw_delimiterChar tdw) else 0)) val)"

text \<open>The fields with the delimiter before all but the first.\<close>

fun delimited :: "gostring \<Rightarrow> gostring list \<Rightarrow> gostring" where
  "delimited delimiter [] = []"
| "delimited delimiter [f] = f"
| "delimited delimiter (f # fs) = f @ delimiter @ delimited delimiter fs"

definition tab_WriteHeader :: "TabularDataWriter \<Rightarrow> gostring option" where
  "tab_WriteHeader tdw =
     (if \<not> tdw_header tdw then None
      else Some (delimited (tdw_delimiterChar tdw) (map (writeEscaped tdw) (tdw_colNames tdw)) @ [NL]))"

definition tab_WriteRow :: "TabularDataWriter \<Rightarrow> gostring option list \<Rightarrow> load_error + gostring" where
  "tab_WriteRow tdw vals = Inr (delimited (tdw_delimiterChar tdw)
     (map (\<lambda>val. case val of None \<Rightarrow> tdw_nullChar tdw | Some v \<Rightarrow> writeEscaped tdw v) vals) @ [NL])"

definition tab_WriteFooter :: "TabularDataWriter \<Rightarrow> gostring option" where
  "tab_WriteFooter tdw = None"

end
