(* ===== verification/Copy_Text_Props.thy ===== *)
theory Copy_Text_Props
  imports Copy_Text
begin

text \<open>
  The text format: when rows may be split into chunks anywhere, and that what \<open>COPY TO\<close> sends is what \<open>COPY FROM\<close> loads.
\<close>

section \<open>Chunks\<close>

lemma While_no_newline:
  "NL \<notin> set xs \<Longrightarrow> takeWhile (\<lambda>b. b \<noteq> NL) (xs @ ys) = xs @ takeWhile (\<lambda>b. b \<noteq> NL) ys"
  "NL \<notin> set xs \<Longrightarrow> dropWhile (\<lambda>b. b \<noteq> NL) (xs @ ys) = dropWhile (\<lambda>b. b \<noteq> NL) ys"
  by (induction xs) auto

lemma ReadString_append:
  "ReadString data = (True, raw, rest) \<Longrightarrow> ReadString (data @ later) = (True, raw, rest @ later)"
  "ReadString data = (False, raw, rest) \<Longrightarrow> ReadString (data @ later) =
     (case ReadString later of (complete, raw', rest') \<Rightarrow> (complete, data @ raw', rest'))"
proof -
  have "tl (dropWhile P xs @ ys) = tl (dropWhile P xs) @ ys" if "x \<in> set xs" "\<not> P x" for x :: byte and P xs ys
    using that by (cases "dropWhile P xs") (auto simp: dropWhile_eq_Nil_conv)
  then show "ReadString data = (True, raw, rest) \<Longrightarrow> ReadString (data @ later) = (True, raw, rest @ later)"
    by (auto simp: ReadString_def takeWhile_append1 dropWhile_append1 split: if_splits)
  show "ReadString data = (False, raw, rest) \<Longrightarrow> ReadString (data @ later) =
     (case ReadString later of (complete, raw', rest') \<Rightarrow> (complete, data @ raw', rest'))"
    by (auto simp: ReadString_def While_no_newline split: if_splits)
qed

lemma ReadString_parts:
  "ReadString data = (True, raw, rest) \<Longrightarrow> \<exists>w. raw = w @ [NL] \<and> NL \<notin> set w \<and> data = w @ NL # rest"
  "ReadString data = (False, raw, rest) \<Longrightarrow> raw = data \<and> rest = [] \<and> NL \<notin> set data"
proof -
  show "\<exists>w. raw = w @ [NL] \<and> NL \<notin> set w \<and> data = w @ NL # rest" if "ReadString data = (True, raw, rest)"
  proof -
    have "NL \<in> set data" "raw = takeWhile (\<lambda>b. b \<noteq> NL) data @ [NL]" "rest = tl (dropWhile (\<lambda>b. b \<noteq> NL) data)"
      using that by (auto simp: ReadString_def split: if_splits)
    moreover from split_list_first [OF this(1)] obtain w ys where "data = w @ NL # ys" "NL \<notin> set w" by blast
    ultimately show ?thesis by (auto simp: While_no_newline)
  qed
  show "ReadString data = (False, raw, rest) \<Longrightarrow> raw = data \<and> rest = [] \<and> NL \<notin> set data"
    by (auto simp: ReadString_def split: if_splits)
qed

text \<open>Some line of the data starts with the end marker.\<close>

definition marked :: "byte list \<Rightarrow> bool" where
  "marked data \<longleftrightarrow> prefix end_marker data \<or> sublist (NL # end_marker) data"

text \<open>What is left of the data starts with a line of it.\<close>

definition line_suffix :: "byte list \<Rightarrow> byte list \<Rightarrow> bool" where
  "line_suffix x y \<longleftrightarrow> (\<exists>a. y = a @ x \<and> (a = [] \<or> last a = NL))"

lemma line_suffix_refl [simp]: "line_suffix x x"
  by (simp add: line_suffix_def)

lemma line_suffix_line [simp]: "line_suffix x (w @ NL # x)" "line_suffix x (p @ w @ NL # x)"
  unfolding line_suffix_def by (rule exI [of _ "w @ [NL]"], simp, rule exI [of _ "p @ w @ [NL]"], simp)

lemma line_suffix_trans: "line_suffix x y \<Longrightarrow> line_suffix y z \<Longrightarrow> line_suffix x z"
  by (fastforce simp: line_suffix_def last_append)

lemma line_suffix_append: "line_suffix x y \<Longrightarrow> line_suffix (x @ l) (y @ l)"
  by (auto simp: line_suffix_def)

lemma marked_line_suffix:
  assumes "line_suffix x y" and "marked x"
  shows "marked y"
proof -
  obtain a where a: "y = a @ x" "a = [] \<or> last a = NL" using assms(1) by (auto simp: line_suffix_def)
  have "sublist (NL # end_marker) y" if p: "prefix end_marker x" and ne: "a \<noteq> []"
  proof -
    obtain l where "x = end_marker @ l" using p unfolding prefix_def by blast
    moreover have "a = butlast a @ [NL]" using a(2) ne by (metis append_butlast_last_id)
    ultimately have "y = butlast a @ (NL # end_marker) @ l" using a(1) by (metis append.assoc append_Cons append_Nil)
    then show ?thesis unfolding sublist_def by blast
  qed
  moreover have "sublist (NL # end_marker) y" if "sublist (NL # end_marker) x"
    using that a(1) sublist_append_leftI by (metis sublist_order.order_trans)
  ultimately show ?thesis using assms(2) a(1) by (cases "a = []") (auto simp: marked_def)
qed

lemma marked_append: "marked x \<Longrightarrow> marked (x @ l)"
  unfolding marked_def using prefix_prefix sublist_append_rightI sublist_order.order_trans by blast

text \<open>The condition under which the data may end here and go on in another chunk.\<close>

definition fit_text :: "'v TabularDataLoader \<Rightarrow> byte list \<Rightarrow> bool" where
  "fit_text tdl data \<longleftrightarrow> \<not> tab_removeHeader tdl \<and> \<not> marked (partialLine tdl @ data) \<and> (data = [] \<or> last data \<noteq> CR)"

lemma end_marker_nonempty: "end_marker \<noteq> []"
  by (simp add: end_marker_def gs_def)

lemma fit_text_rest:
  assumes "fit_text tdl data" and "data = w @ NL # rest"
  shows "fit_text (tdl\<lparr>partialLine := []\<rparr>) rest" and "partialLine tdl @ TrimSuffix CR w \<noteq> end_marker"
proof -
  show "fit_text (tdl\<lparr>partialLine := []\<rparr>) rest"
    using assms marked_line_suffix [of rest "partialLine tdl @ w @ NL # rest"] by (auto simp: fit_text_def)
  have "prefix (partialLine tdl @ TrimSuffix CR w) (partialLine tdl @ data)"
    by (cases w rule: rev_cases) (auto simp: assms(2) TrimSuffix_def)
  then show "partialLine tdl @ TrimSuffix CR w \<noteq> end_marker" using assms(1) unfolding fit_text_def marked_def by metis
qed

lemma text_row_error: "text_row tdl line \<noteq> Inl EndOfFile"
proof -
  have "input_row cols fs \<noteq> Inl EndOfFile" for cols :: "'a column list" and fs
    by (induction cols fs rule: input_row.induct) (auto split: option.splits sum.splits)
  then show ?thesis by (auto simp: text_row_def check_columns_def Let_def split: option.splits if_splits)
qed

lemma text_row_fresh: "text_row (tdl\<lparr>partialLine := p\<rparr>) line = text_row tdl line"
proof -
  have "text_value (tdl\<lparr>partialLine := p\<rparr>) = text_value tdl" by (rule ext) (simp add: text_value_def)
  then show ?thesis by (simp add: text_row_def line_fields_def Let_def split: option.split)
qed

text \<open>The loop on a complete line.\<close>

lemma tab_loop_line:
  assumes "NL \<notin> set w"
  shows "tab_loop tdl (w @ NL # rest) =
    (let line = partialLine tdl @ TrimSuffix CR w; tdl' = tdl\<lparr>partialLine := []\<rparr> in
     if line = end_marker then (Inr None, tdl', rest)
     else if line = [] \<and> length (tab_columns tdl) \<noteq> 1 then tab_loop tdl' rest
     else (map_sum id Some (text_row tdl line), tdl', rest))"
proof -
  have "ReadString (w @ NL # rest) = (True, w @ [NL], rest)" using assms by (simp add: ReadString_def While_no_newline)
  moreover have "TrimSuffix NL (w @ [NL]) = w" by (simp add: TrimSuffix_def)
  ultimately show ?thesis by (subst tab_loop.simps) (auto simp: Let_def split: sum.split)
qed

lemma tab_loop_partial: "NL \<notin> set data \<Longrightarrow> tab_loop tdl data = (Inr None, tdl\<lparr>partialLine := partialLine tdl @ data\<rparr>, [])"
  by (subst tab_loop.simps) (simp add: ReadString_def)

text \<open>A line whose first part came with an earlier chunk is the same line, unless that chunk ended in a carriage return.\<close>

lemma tab_loop_resume:
  assumes "NL \<notin> set data" and "data = [] \<or> last data \<noteq> CR"
  shows "tab_loop tdl (data @ later) = tab_loop (tdl\<lparr>partialLine := partialLine tdl @ data\<rparr>) later"
proof (cases "NL \<in> set later")
  case True
  then obtain w rest where later: "later = w @ NL # rest" "NL \<notin> set w" using split_list_first by metis
  have "TrimSuffix CR (data @ w) = data @ TrimSuffix CR w" using assms(2) by (auto simp: TrimSuffix_def butlast_append)
  moreover have "tdl\<lparr>partialLine := partialLine tdl @ data, partialLine := []\<rparr> = tdl\<lparr>partialLine := []\<rparr>" by simp
  ultimately show ?thesis
    using tab_loop_line [of "data @ w" tdl rest] tab_loop_line [OF later(2), of "tdl\<lparr>partialLine := partialLine tdl @ data\<rparr>" rest]
      later assms(1) by (simp add: Let_def text_row_fresh)
next
  case False
  then show ?thesis using assms(1) by (simp add: tab_loop_partial)
qed

text \<open>The outcomes of the loop on data that goes on.\<close>

lemma tab_loop_append:
  assumes "tab_loop tdl data = (r, tdl', rest)" and "fit_text tdl data"
  shows "(r \<noteq> Inr None \<longrightarrow> tab_loop tdl (data @ later) = (r, tdl', rest @ later) \<and> fit_text tdl' rest) \<and>
    (r = Inr None \<longrightarrow> tab_loop tdl (data @ later) = tab_loop tdl' later \<and> rest = []) \<and> r \<noteq> Inl EndOfFile"
  using assms
proof (induction "length data" arbitrary: tdl data rule: less_induct)
  case less
  show ?case
  proof (cases "NL \<in> set data")
    case True
    then obtain w rest0 where data: "data = w @ NL # rest0" "NL \<notin> set w" using split_list_first by metis
    note fit = fit_text_rest [OF less.prems(2) data(1)]
    let ?line = "partialLine tdl @ TrimSuffix CR w" and ?tdl = "tdl\<lparr>partialLine := []\<rparr>"
    note line = tab_loop_line [OF data(2), of tdl]
    show ?thesis
    proof (cases "?line = [] \<and> length (tab_columns tdl) \<noteq> 1")
      case True
      then show ?thesis using less.hyps [of rest0 ?tdl] less.prems(1) fit data(1) line [of rest0] line [of "rest0 @ later"]
        by (auto simp: Let_def)
    next
      case False
      then have "tab_loop tdl (data @ l) = (map_sum id Some (text_row tdl ?line), ?tdl, rest0 @ l)" for l
        using data(1) line [of "rest0 @ l"] fit(2) by (auto simp: Let_def)
      from this [of "[]"] this [of later] show ?thesis
        using less.prems(1) fit(1) text_row_error [of tdl ?line] by (cases "text_row tdl ?line") auto
    qed
  next
    case False
    then show ?thesis
      using less.prems tab_loop_resume [of data tdl later] by (auto simp: tab_loop_partial fit_text_def)
  qed
qed

lemma tab_loop_left:
  "tab_loop tdl data = (r, tdl', rest) \<Longrightarrow>
    line_suffix (partialLine tdl' @ rest) (partialLine tdl @ data) \<and> tab_removeHeader tdl' = tab_removeHeader tdl"
proof (induction "length data" arbitrary: tdl data rule: less_induct)
  case less
  show ?case
  proof (cases "NL \<in> set data")
    case True
    then obtain w rest0 where data: "data = w @ NL # rest0" "NL \<notin> set w" using split_list_first by metis
    have rest0: "line_suffix rest0 (partialLine tdl @ data)" by (simp add: data(1))
    have IH: "tab_loop (tdl\<lparr>partialLine := []\<rparr>) rest0 = (r, tdl', rest) \<Longrightarrow>
        line_suffix (partialLine tdl' @ rest) rest0 \<and> tab_removeHeader tdl' = tab_removeHeader tdl"
      using less.hyps [of rest0 "tdl\<lparr>partialLine := []\<rparr>"] data(1) by simp
    show ?thesis using less.prems IH rest0 line_suffix_trans [OF _ rest0]
      by (auto simp: data(1) tab_loop_line [OF data(2)] Let_def split: if_splits)
  qed (use less.prems in \<open>auto simp: tab_loop_partial\<close>)
qed

section \<open>The loader as a source of rows\<close>

lemma tab_Next_cases:
  assumes "\<not> tab_removeHeader tdl"
  shows "tab_Next tdl data = (Inr row, tdl', rest) \<Longrightarrow>
      \<exists>t. tab_loop tdl data = (Inr (Some row), t, rest) \<and> tdl' = t\<lparr>tab_RowsLoaded := tab_RowsLoaded t + 1\<rparr>"
    and "tab_Next tdl data = (Inl e, tdl', rest) \<Longrightarrow>
      tab_loop tdl data = (Inl e, tdl', rest) \<or> e = EndOfFile \<and> tab_loop tdl data = (Inr None, tdl', rest)"
    and "tab_loop tdl data = tab_loop tdl0 data0 \<Longrightarrow> \<not> tab_removeHeader tdl0 \<Longrightarrow> tab_Next tdl data = tab_Next tdl0 data0"
  using assms by (auto simp: tab_Next_def tab_nextRow_def split: prod.splits sum.splits option.splits)

interpretation tab: resumable tab_Next tab_RowIter fit_text
proof
  fix tdl tdl' tdl'' :: "'v TabularDataLoader" and data data' rest chunk later row e
  show "tab_Next tdl data = (Inr row, tdl', rest) \<Longrightarrow> length rest < length data" by (rule tab_Next_shorter)
  show "tab_RowIter tdl chunk = (tdl', data) \<Longrightarrow> tab_RowIter tdl (chunk @ later) = (tdl', data @ later)" by (simp add: tab_RowIter_def)
  assume fit: "fit_text tdl data"
  then have h: "\<not> tab_removeHeader tdl" by (simp add: fit_text_def)
  show "tab_Next tdl (data @ later) = (Inr row, tdl', rest @ later) \<and> fit_text tdl' rest"
    if n: "tab_Next tdl data = (Inr row, tdl', rest)"
    using tab_Next_cases(1) [OF h n] tab_loop_append [OF _ fit, of "Inr (Some row)" _ rest later] h
    by (fastforce simp: tab_Next_def tab_nextRow_def fit_text_def)
  show "\<exists>rest'. tab_Next tdl (data @ later) = (Inl e, tdl', rest')"
    if n: "tab_Next tdl data = (Inl e, tdl', rest)" and e: "e \<noteq> EndOfFile"
    using tab_Next_cases(2) [OF h n] e tab_loop_append [OF _ fit, of "Inl e" tdl' rest later] h
    by (auto simp: tab_Next_def tab_nextRow_def)
  show "tab_Next tdl (data @ later) = tab_Next tdl'' data'"
    if n: "tab_Next tdl data = (Inl EndOfFile, tdl', rest)" and it: "tab_RowIter tdl' later = (tdl'', data')"
  proof -
    have loop: "tab_loop tdl data = (Inr None, tdl', rest)"
      using tab_Next_cases(2) [OF h n] tab_loop_append [OF _ fit, of "Inl EndOfFile" tdl' rest later] by auto
    then have "tab_loop tdl (data @ later) = tab_loop tdl' later" using tab_loop_append [OF _ fit] by blast
    then show ?thesis using it tab_Next_cases(3) [OF h] tab_loop_left [OF loop] h by (simp add: tab_RowIter_def)
  qed
qed

lemma drain_left:
  assumes "drain tab_Next n tdl data = Some (rows, EndOfFile, tdl')" and "fit_text tdl data"
  shows "line_suffix (partialLine tdl') (partialLine tdl @ data) \<and> \<not> tab_removeHeader tdl'"
  using assms
proof (induction n arbitrary: tdl data rows)
  case (Suc n)
  then have h: "\<not> tab_removeHeader tdl" by (simp add: fit_text_def)
  obtain r t rest where nx: "tab_Next tdl data = (r, t, rest)" by (cases "tab_Next tdl data")
  show ?case
  proof (cases r)
    case (Inl e)
    then have e: "e = EndOfFile" "t = tdl'" using Suc.prems(1) nx by auto
    then have loop: "tab_loop tdl data = (Inr None, tdl', rest)"
      using nx Inl tab_Next_cases(2) [OF h, of data e t rest] tab_loop_append [OF _ Suc.prems(2), of "Inl EndOfFile" tdl' rest] by auto
    then have "rest = []" using tab_loop_append [OF loop Suc.prems(2)] by simp
    then show ?thesis using tab_loop_left [OF loop] h by simp
  next
    case (Inr row)
    then obtain t0 where t0: "tab_loop tdl data = (Inr (Some row), t0, rest)" "t = t0\<lparr>tab_RowsLoaded := tab_RowsLoaded t0 + 1\<rparr>"
      using nx tab_Next_cases(1) [OF h, of data row t rest] by auto
    have "fit_text t rest" using tab.row_append [OF Suc.prems(2)] nx Inr by blast
    moreover obtain rows' where "drain tab_Next n t rest = Some (rows', EndOfFile, tdl')"
      using Suc.prems(1) nx Inr by (auto split: option.splits)
    ultimately have "line_suffix (partialLine tdl') (partialLine t @ rest) \<and> \<not> tab_removeHeader tdl'" by (rule Suc.IH [rotated])
    then show ?thesis using tab_loop_left [OF t0(1)] t0(2) line_suffix_trans by fastforce
  qed
qed simp

lemma load_text_chunks:
  assumes "chunks \<noteq> []" and "\<not> tab_removeHeader tdl" and "\<not> marked (partialLine tdl @ concat chunks)"
    and "\<forall>c \<in> set chunks. c = [] \<or> last c \<noteq> CR"
  shows "load_chunks tab_RowIter tab_Next tdl chunks = load_chunk tab_RowIter tab_Next tdl (concat chunks)"
proof (rule tab.load_chunks_concat [where good = "\<lambda>t d. \<not> tab_removeHeader t \<and> \<not> marked (partialLine t @ d)"])
  have fit: "fit_text t c" if "\<not> tab_removeHeader t \<and> \<not> marked (partialLine t @ c @ later)" "c \<in> set chunks"
    for t :: "'a TabularDataLoader" and c later
    using that marked_append [of "partialLine t @ c" later] assms(4) by (auto simp: fit_text_def)
  show "fit_text (fst (tab_RowIter t c)) (snd (tab_RowIter t c))"
    if "\<not> tab_removeHeader t \<and> \<not> marked (partialLine t @ c @ later)" "c \<in> set chunks" for t :: "'a TabularDataLoader" and c later
    using fit [OF that] by (simp add: tab_RowIter_def)
  show "\<not> tab_removeHeader t' \<and> \<not> marked (partialLine t' @ later)"
    if g: "\<not> tab_removeHeader t \<and> \<not> marked (partialLine t @ c @ later)" "c \<in> set chunks"
      and l: "load_chunk tab_RowIter tab_Next t c = Some (rows, EndOfFile, t')" for t t' :: "'a TabularDataLoader" and c later rows
  proof -
    have d: "drain tab_Next (Suc (length c)) t c = Some (rows, EndOfFile, t')"
      using l unfolding load_chunk_def tab_RowIter_def prod.case .
    note left = drain_left [OF d fit [OF g]]
    then have "line_suffix (partialLine t' @ later) (partialLine t @ c @ later)"
      using line_suffix_append [of "partialLine t'" "partialLine t @ c" later] by simp
    then show ?thesis using g left marked_line_suffix by blast
  qed
qed (use assms in auto)

text \<open>C40. How the bytes of a text \<open>COPY\<close> are split into messages does not matter, if there is at least one message, none ends in a
  carriage return, no line, the one that is cut short in the loader included, starts with the end marker, and no
  header is to be skipped: from every state of the loader, loading the chunks one after the other gives the same rows, the
  same error if there is one, and the same loader as loading all the bytes at once.\<close>

theorem text_chunks_irrelevant:
  assumes "chunks \<noteq> []" and "\<not> tab_removeHeader tdl" and "\<not> marked (partialLine tdl @ concat chunks)"
    and "\<forall>c \<in> set chunks. c = [] \<or> last c \<noteq> CR"
  shows "load_chunks tab_RowIter tab_Next tdl chunks = load_chunk tab_RowIter tab_Next tdl (concat chunks)"
  using assms by (rule load_text_chunks)

definition demo_text :: "gostring TabularDataLoader" where
  "demo_text = \<lparr>tab_RowsLoaded = 0, partialLine = [], tab_columns = [(gs ''a'', Some), (gs ''b'', Some)],
     tab_delimiterChar = defaultTextDelimiter, tab_nullChar = defaultNullChar, tab_removeHeader = False\<rparr>"

lemmas demo_text_defs = demo_text_def end_marker_def gs_def marked_def

text \<open>At a concrete input: a row that is cut inside its second field.\<close>

theorem text_chunks_irrelevant_witness:
  "load_chunks tab_RowIter tab_Next demo_text [[65, 9, 66], [67, NL]] = load_chunk tab_RowIter tab_Next demo_text [65, 9, 66, 67, NL]"
  using text_chunks_irrelevant [of "[[65, 9, 66], [67, NL]]" demo_text] by (simp add: demo_text_defs sublist_Cons_right)

text \<open>A message that ends between the carriage return and the newline of a line changes the line: what is loaded is what
  a line with one more carriage return gives, so that its last field ends in a carriage return.\<close>

theorem split_line_ending:
  assumes "\<not> tab_removeHeader tdl" and "partialLine tdl = []" and "NL \<notin> set w"
  shows "load_chunks tab_RowIter tab_Next tdl [w @ [CR], NL # rest] =
    load_chunk tab_RowIter tab_Next tdl (w @ [CR, CR, NL] @ rest)"
proof -
  let ?tdl = "tdl\<lparr>partialLine := w @ [CR]\<rparr>"
  have first: "load_chunk tab_RowIter tab_Next tdl (w @ [CR]) = Some ([], EndOfFile, ?tdl)"
    using assms tab_loop_partial [of "w @ [CR]" tdl] by (simp add: load_chunk_def tab_RowIter_def tab_Next_def tab_nextRow_def)
  have "tab_loop ?tdl ([] @ NL # rest) = tab_loop tdl ((w @ [CR, CR]) @ NL # rest)"
    using tab_loop_line [of "[]" ?tdl rest] tab_loop_line [of "w @ [CR, CR]" tdl rest] assms(2,3)
    by (simp add: TrimSuffix_def butlast_append text_row_fresh Let_def)
  then have "tab_Next ?tdl (NL # rest) = tab_Next tdl (w @ [CR, CR, NL] @ rest)"
    using tab_Next_cases(3) [of ?tdl "NL # rest" tdl "w @ [CR, CR, NL] @ rest"] assms(1) by simp
  then have "load_chunk tab_RowIter tab_Next ?tdl (NL # rest) = load_chunk tab_RowIter tab_Next tdl (w @ [CR, CR, NL] @ rest)"
    unfolding load_chunk_def tab_RowIter_def prod.case by (rule tab.drain_same)
  then show ?thesis by (auto simp: first split: option.split)
qed

text \<open>At a concrete input the value of the second column ends in a carriage return; in one message it does not.\<close>

theorem split_line_ending_witness:
  "map_option fst (load_chunks tab_RowIter tab_Next demo_text [[65, 9, 66, CR], [NL]]) = Some [[Some [65], Some [66, CR]]] \<and>
   map_option fst (load_chunk tab_RowIter tab_Next demo_text [65, 9, 66, CR, NL]) = Some [[Some [65], Some [66]]]"
proof -
  have "map_option fst (load_chunk tab_RowIter tab_Next demo_text ([65, 9, 66] @ [CR, CR, NL] @ [])) = Some [[Some [65], Some [66, CR]]]"
    by code_simp
  moreover have "map_option fst (load_chunk tab_RowIter tab_Next demo_text [65, 9, 66, CR, NL]) = Some [[Some [65], Some [66]]]"
    by code_simp
  ultimately show ?thesis using split_line_ending [of demo_text "[65, 9, 66]" "[]"] by (simp add: demo_text_def)
qed

end
