(* ===== verification/Copy_Text_Round.thy ===== *)
theory Copy_Text_Round
  imports Copy_Text_Props
begin

text \<open>
  The text format round trip: the fields that \<open>writeEscaped\<close> writes are what \<open>splitTextFields\<close> and \<open>unescapeTextField\<close> take
  apart, and so are the lines and the whole output of \<open>COPY TO\<close>, whatever chunks it arrives in.
\<close>

section \<open>Escaped bytes\<close>

text \<open>Delimiters for which an escaped delimiter is neither another escape, the end marker nor the NULL marker, and which are
  no part of a line ending. The program accepts every delimiter.\<close>

definition text_delimiter_ok :: "byte \<Rightarrow> bool" where
  "text_delimiter_ok d \<longleftrightarrow> d \<notin> set (Backslash # NL # CR # gs ''.Nbfnrtv'')"

definition escaped :: "byte \<Rightarrow> gostring \<Rightarrow> gostring" where
  "escaped d v = concat (map (escape_byte d) v)"

text \<open>An escaped byte is that byte, or a backslash and a byte that stands for it.\<close>

lemma escape_byte_disj:
  assumes "text_delimiter_ok d"
  shows "escape_byte d b = [b] \<and> b \<notin> {Backslash, d, NL, CR} \<or>
    (\<exists>c. escape_byte d b = [Backslash, c] \<and> unescape_byte c = b \<and> c \<notin> {NL, CR, 46})"
  using assms by (auto simp: escape_byte_def unescape_byte_def text_delimiter_ok_def gs_def)

lemma escape_byte_cases:
  assumes "text_delimiter_ok d"
  obtains "escape_byte d b = [b]" and "b \<notin> {Backslash, d, NL, CR}"
  | c where "escape_byte d b = [Backslash, c]" and "unescape_byte c = b" and "c \<notin> {NL, CR, 46}"
  using escape_byte_disj [OF assms] by blast

lemma escaped_simps [simp]: "escaped d [] = []" "escaped d (b # v) = escape_byte d b @ escaped d v"
  by (simp_all add: escaped_def)

lemma unescape_escaped: "text_delimiter_ok d \<Longrightarrow> unescapeTextField (escaped d v) = v"
proof (induction v)
  case (Cons b v)
  have plain: "c \<noteq> Backslash \<Longrightarrow> unescapeTextField (c # cs) = c # unescapeTextField cs" for c cs by (cases cs) auto
  show ?case using Cons by (cases rule: escape_byte_cases [OF Cons.prems, of b]) (auto simp: plain)
qed simp

lemma escaped_no_line_end: "text_delimiter_ok d \<Longrightarrow> NL \<notin> set (escaped d v) \<and> CR \<notin> set (escaped d v)"
proof (induction v)
  case (Cons b v)
  then show ?case by (cases rule: escape_byte_cases [OF Cons.prems, of b]) auto
qed simp

lemma escaped_not_null: "text_delimiter_ok d \<Longrightarrow> escaped d v \<noteq> defaultNullChar"
proof
  assume ok: "text_delimiter_ok d" and null: "escaped d v = defaultNullChar"
  have "v = [78]" using unescape_escaped [OF ok, of v] null by (simp add: defaultNullChar_def gs_def unescape_byte_def)
  moreover have "escape_byte d 78 = [78]" using ok by (auto simp: escape_byte_def text_delimiter_ok_def gs_def)
  ultimately show False using null by (simp add: defaultNullChar_def gs_def)
qed

section \<open>Fields and lines\<close>

definition text_field :: "byte \<Rightarrow> gostring option \<Rightarrow> gostring" where
  "text_field d val = (case val of None \<Rightarrow> defaultNullChar | Some v \<Rightarrow> escaped d v)"

text \<open>A field goes through the loop that splits a line.\<close>

lemma split_escaped:
  "text_delimiter_ok d \<Longrightarrow> split_loop [d] acc (escaped d v @ rest) = split_loop [d] (acc @ escaped d v) rest"
proof (induction v arbitrary: acc)
  case (Cons b v)
  then show ?case by (cases rule: escape_byte_cases [OF Cons.prems, of b]) auto
qed simp

lemma split_field: "text_delimiter_ok d \<Longrightarrow> split_loop [d] acc (text_field d val @ rest) = split_loop [d] (acc @ text_field d val) rest"
  by (auto simp: text_field_def split_escaped defaultNullChar_def gs_def split: option.split)

lemma split_delimited:
  "text_delimiter_ok d \<Longrightarrow> vals \<noteq> [] \<Longrightarrow> split_loop [d] [] (delimited [d] (map (text_field d) vals)) = map (text_field d) vals"
proof (induction vals rule: induct_list012)
  case (2 val)
  then show ?case using split_field [of d "[]" val "[]"] by simp
next
  case (3 val val' vals)
  have "d \<noteq> Backslash" using "3.prems"(1) by (simp add: text_delimiter_ok_def)
  then show ?case using 3 split_field [of d "[]" val "d # delimited [d] (map (text_field d) (val' # vals))"] by simp
qed simp

lemma field_no_line_end: "text_delimiter_ok d \<Longrightarrow> NL \<notin> set (text_field d val) \<and> CR \<notin> set (text_field d val)"
  using escaped_no_line_end by (auto simp: text_field_def defaultNullChar_def gs_def split: option.split)

lemma line_no_line_end:
  "text_delimiter_ok d \<Longrightarrow> NL \<notin> set (delimited [d] (map (text_field d) vals)) \<and> CR \<notin> set (delimited [d] (map (text_field d) vals))"
proof (induction vals rule: induct_list012)
  case (3 val val' vals)
  then show ?case using field_no_line_end [of d val] by (auto simp: text_delimiter_ok_def)
qed (use field_no_line_end in auto)

text \<open>No line starts with the end marker.\<close>

lemma field_not_marked:
  assumes "text_delimiter_ok d" and "rest = [] \<or> hd rest \<noteq> Backslash"
  shows "\<not> prefix end_marker (text_field d val @ rest)"
proof (cases val)
  case None
  then show ?thesis by (simp add: text_field_def end_marker_def defaultNullChar_def gs_def)
next
  case (Some v)
  then show ?thesis
  proof (cases v)
    case Nil
    then show ?thesis using assms(2) Some by (cases rest) (auto simp: text_field_def end_marker_def gs_def)
  next
    case (Cons b bs)
    then show ?thesis using Some
      by (cases rule: escape_byte_cases [OF assms(1), of b]) (auto simp: text_field_def end_marker_def gs_def)
  qed
qed

lemma line_not_marked:
  assumes "text_delimiter_ok d"
  shows "\<not> prefix end_marker (delimited [d] (map (text_field d) vals) @ NL # rest)"
proof (cases vals)
  case Nil
  then show ?thesis by (simp add: end_marker_def gs_def)
next
  case (Cons val vals')
  have "d \<noteq> Backslash" using assms by (simp add: text_delimiter_ok_def)
  then show ?thesis using field_not_marked [OF assms, of "NL # rest" val]
      field_not_marked [OF assms, of "d # delimited [d] (map (text_field d) vals') @ NL # rest" val] Cons
    by (cases vals') auto
qed

lemma marked_line:
  assumes "marked (w @ NL # rest)" and "NL \<notin> set w" and "\<not> prefix end_marker (w @ NL # rest)"
  shows "marked rest"
proof -
  obtain a b where ab: "w @ NL # rest = a @ (NL # end_marker) @ b" using assms(1,3) by (auto simp: marked_def sublist_def)
  then obtain us where us: "w = a @ us \<and> us @ NL # rest = (NL # end_marker) @ b \<or> w @ us = a \<and> NL # rest = us @ (NL # end_marker) @ b"
    unfolding append_eq_append_conv2 by blast
  show ?thesis
  proof (cases us)
    case Nil
    then show ?thesis using us by (auto simp: marked_def)
  next
    case (Cons u us')
    then have "rest = us' @ (NL # end_marker) @ b" using us assms(2) by auto
    then show ?thesis unfolding marked_def sublist_def by blast
  qed
qed

section \<open>Rows\<close>

lemma tab_WriteRow_fields:
  assumes "tdw_delimiterChar tdw = [d]" and "tdw_nullChar tdw = defaultNullChar"
  shows "tab_WriteRow tdw vals = Inr (delimited [d] (map (text_field d) vals) @ [NL])"
proof -
  have "(\<lambda>val. case val of None \<Rightarrow> tdw_nullChar tdw | Some v \<Rightarrow> writeEscaped tdw v) = text_field d"
    using assms by (auto simp: fun_eq_iff text_field_def writeEscaped_def escaped_def split: option.split)
  then show ?thesis using assms by (simp add: tab_WriteRow_def)
qed

lemma text_row_written:
  assumes "text_delimiter_ok d" and "tab_delimiterChar tdl = [d]" and "tab_nullChar tdl = defaultNullChar"
    and "length vals = length (tab_columns tdl)" and "vals \<noteq> []"
  shows "text_row tdl (delimited [d] (map (text_field d) vals)) = input_row (tab_columns tdl) vals"
proof -
  have "text_value tdl (text_field d val) = val" for val
    using escaped_not_null [OF assms(1)] unescape_escaped [OF assms(1)] assms(3)
    by (auto simp: text_value_def text_field_def split: option.split)
  then have "map (text_value tdl) (map (text_field d) vals) = vals" by (simp add: comp_def)
  moreover have "line_fields tdl (delimited [d] (map (text_field d) vals)) = map (text_field d) vals"
    using split_delimited [OF assms(1,5)] assms(2) by (auto simp: line_fields_def splitTextFields_def)
  ultimately show ?thesis using assms(4) by (simp add: text_row_def check_columns_def)
qed

lemma single_empty_line:
  assumes "delimited [d] fs = []" and "fs \<noteq> []"
  shows "length fs = 1"
  using assms by (cases "([d], fs)" rule: delimited.cases) auto

text \<open>A loader and a writer with the same delimiter and the default NULL marker; no header is pending.\<close>

definition text_pair :: "byte \<Rightarrow> 'v TabularDataLoader \<Rightarrow> TabularDataWriter \<Rightarrow> bool" where
  "text_pair d tdl tdw \<longleftrightarrow> text_delimiter_ok d \<and> tab_delimiterChar tdl = [d] \<and> tab_nullChar tdl = defaultNullChar \<and>
     tdw_delimiterChar tdw = [d] \<and> tdw_nullChar tdw = defaultNullChar \<and> \<not> tab_removeHeader tdl \<and> partialLine tdl = [] \<and>
     tab_columns tdl \<noteq> []"

lemma tab_Next_written:
  assumes "text_pair d tdl tdw" and "length vals = length (tab_columns tdl)" and "input_row (tab_columns tdl) vals = Inr row"
    and "tab_WriteRow tdw vals = Inr data"
  shows "tab_Next tdl (data @ rest) = (Inr row, tdl\<lparr>tab_RowsLoaded := tab_RowsLoaded tdl + 1\<rparr>, rest)"
proof -
  let ?line = "delimited [d] (map (text_field d) vals)"
  have ok: "text_delimiter_ok d" "vals \<noteq> []" and part: "partialLine tdl = []" using assms(1,2) by (auto simp: text_pair_def)
  have data: "data = ?line @ [NL]" using tab_WriteRow_fields [of tdw d vals] assms(1,4) by (simp add: text_pair_def)
  have ends: "NL \<notin> set ?line" "TrimSuffix CR ?line = ?line"
    using line_no_line_end [OF ok(1), of vals] unfolding TrimSuffix_def by (metis, metis last_in_set)
  have "?line \<noteq> end_marker" using line_not_marked [OF ok(1), of vals "[]"] by auto
  moreover have "?line = [] \<Longrightarrow> length (tab_columns tdl) = 1" using single_empty_line [of d "map (text_field d) vals"] ok(2) assms(2) by simp
  moreover have "text_row tdl ?line = Inr row" using text_row_written [OF ok(1) _ _ assms(2) ok(2)] assms(1,3) by (simp add: text_pair_def)
  moreover have "tdl\<lparr>partialLine := []\<rparr> = tdl" using part by (cases tdl) simp
  ultimately have "tab_loop tdl (?line @ NL # rest) = (Inr (Some row), tdl, rest)"
    unfolding tab_loop_line [OF ends(1)] ends(2) part by (auto simp: Let_def)
  then show ?thesis using assms(1) by (simp add: data text_pair_def tab_Next_def tab_nextRow_def)
qed

lemma text_pair_loaded [simp]: "text_pair d (tdl\<lparr>tab_RowsLoaded := n\<rparr>) tdw = text_pair d tdl tdw"
  by (simp add: text_pair_def)

lemma text_rows_written:
  assumes "text_pair d tdl tdw" and "write_rows (tab_WriteRow tdw) rows = Inr body"
    and "\<forall>row \<in> set rows. length row = length (tab_columns tdl)" and "map (input_row (tab_columns tdl)) rows = map Inr vals"
  shows "drain tab_Next (Suc (length (concat body))) tdl (concat body) =
    Some (vals, EndOfFile, tdl\<lparr>tab_RowsLoaded := tab_RowsLoaded tdl + of_nat (length rows)\<rparr>)"
  using assms
proof (induction rows arbitrary: body vals tdl)
  case Nil
  then have "tab_Next tdl [] = (Inl EndOfFile, tdl, [])"
    by (cases tdl) (simp add: text_pair_def tab_Next_def tab_nextRow_def tab_loop_partial)
  then show ?case using Nil.prems by simp
next
  case (Cons row rows)
  then obtain data body' where body: "tab_WriteRow tdw row = Inr data" "write_rows (tab_WriteRow tdw) rows = Inr body'" "body = data # body'"
    by (auto split: sum.splits)
  from Cons.prems(4) obtain v vals' where vals: "vals = v # vals'" "input_row (tab_columns tdl) row = Inr v" by (cases vals) auto
  let ?tdl = "tdl\<lparr>tab_RowsLoaded := tab_RowsLoaded tdl + 1\<rparr>"
  have nx: "tab_Next tdl (concat body) = (Inr v, ?tdl, concat body')"
    using tab_Next_written [OF Cons.prems(1) _ vals(2) body(1)] Cons.prems(3) by (simp add: body(3))
  have "drain tab_Next (Suc (length (concat body'))) ?tdl (concat body') =
      Some (vals', EndOfFile, ?tdl\<lparr>tab_RowsLoaded := tab_RowsLoaded ?tdl + of_nat (length rows)\<rparr>)"
    by (rule Cons.IH) (use body(2) Cons.prems vals(1) in auto)
  then show ?case unfolding tab.drain_row [OF nx] by (simp add: vals(1))
qed

lemma text_output_clean:
  assumes "text_delimiter_ok d" and "tdw_delimiterChar tdw = [d]" and "tdw_nullChar tdw = defaultNullChar"
    and "write_rows (tab_WriteRow tdw) rows = Inr body"
  shows "\<not> marked (concat body) \<and> CR \<notin> set (concat body) \<and> (concat body = [] \<longrightarrow> rows = [])"
  using assms(4)
proof (induction rows arbitrary: body)
  case Nil
  then show ?case by (simp add: marked_def end_marker_def gs_def)
next
  case (Cons row rows)
  let ?line = "delimited [d] (map (text_field d) row)"
  obtain body' where body: "write_rows (tab_WriteRow tdw) rows = Inr body'" "body = (?line @ [NL]) # body'"
    using Cons.prems tab_WriteRow_fields [OF assms(2,3), of row] by (auto split: sum.splits)
  show ?case using Cons.IH [OF body(1)] line_no_line_end [OF assms(1), of row] line_not_marked [OF assms(1), of row "concat body'"]
      marked_line [of ?line "concat body'"] by (auto simp: body(2))
qed

text \<open>C21. What a text \<open>COPY TO\<close> without a header line sends, a new loader of a text \<open>COPY FROM\<close> for the same columns, also
  without a header line, loads. Both have the default NULL marker and the same delimiter of one byte, which is no
  backslash, dot, carriage return or newline and none of the letters N, b, f, n, r, t and v of the escapes; there is at
  least one column, every row has one value or NULL per column and the columns' input functions accept the values.
  Then, whatever chunks the bytes arrive in, the loader returns every row with its values, which may hold
  delimiters, backslashes and line ends, and its NULLs, and \<open>Finish\<close> reports the number of rows.\<close>

theorem text_round_trip:
  assumes "NewTabularDataLoader index sch colNames [d] [] False = Inr tdl" and "text_delimiter_ok d" and "colNames \<noteq> []"
    and "tdw = NewTabularDataWriter colNames [d] [] False"
    and "copy_to (tab_WriteHeader tdw) (tab_WriteRow tdw) (tab_WriteFooter tdw) rows = Inr sent" and "concat chunks = concat sent"
    and "\<forall>row \<in> set rows. length row = length colNames" and "map (input_row (tab_columns tdl)) rows = map Inr vals"
  shows "\<exists>tdl'. load_chunks tab_RowIter tab_Next tdl chunks = Some (vals, EndOfFile, tdl') \<and> tab_Finish tdl' = Inr (of_nat (length rows))"
proof -
  have cols: "getColumnTypes index sch names = Inr cs \<Longrightarrow> length cs = length names" for names and cs :: "'a column list"
    by (induction names arbitrary: cs) (auto split: option.splits prod.splits sum.splits)
  have len: "length (tab_columns tdl) = length colNames"
    using assms(1) cols [of colNames "tab_columns tdl"] by (auto simp: NewTabularDataLoader_def split: sum.splits)
  then have "tab_columns tdl \<noteq> []" using assms(3) by auto
  then have pair: "text_pair d tdl tdw" and new: "tab_RowsLoaded tdl = 0"
    using assms(1-4) by (auto simp: text_pair_def NewTabularDataLoader_def NewTabularDataWriter_def split: sum.splits)
  obtain body where body: "write_rows (tab_WriteRow tdw) rows = Inr body" "concat chunks = concat body"
    using copy_to_concat [OF assms(5)] assms(4,6) by (auto simp: tab_WriteHeader_def tab_WriteFooter_def NewTabularDataWriter_def)
  have clean: "\<not> marked (concat body)" "CR \<notin> set (concat body)" "concat body = [] \<longrightarrow> rows = []"
    using text_output_clean [of d tdw rows body] body(1) pair by (auto simp: text_pair_def)
  let ?loaded = "tdl\<lparr>tab_RowsLoaded := tab_RowsLoaded tdl + of_nat (length rows)\<rparr>"
  have all: "load_chunk tab_RowIter tab_Next tdl (concat chunks) = Some (vals, EndOfFile, ?loaded)"
    unfolding load_chunk_def tab_RowIter_def prod.case body(2)
    by (rule text_rows_written [OF pair body(1)]) (use assms(7,8) len in auto)
  have "load_chunks tab_RowIter tab_Next tdl chunks = Some (vals, EndOfFile, ?loaded)"
  proof (cases "chunks = []")
    case True
    then show ?thesis using clean(3) body(2) assms(8) by simp
  next
    case False
    have "\<forall>c \<in> set chunks. c = [] \<or> last c \<noteq> CR" using clean(2) body(2) last_in_set by (metis UN_I set_concat)
    then show ?thesis using load_text_chunks [OF False, of tdl] all clean(1) pair body(2) by (simp add: text_pair_def)
  qed
  then show ?thesis using pair new by (auto simp: tab_Finish_def text_pair_def)
qed

theorem text_round_trip_witness:
  "\<exists>tdl'. load_chunks tab_RowIter tab_Next demo_text [[Backslash], [Backslash, 46, 9, Backslash], [78, NL]] =
    Some ([[Some [Backslash, 46], None]], EndOfFile, tdl') \<and> tab_Finish tdl' = Inr 1"
proof -
  let ?names = "[gs ''a'', gs ''b'']" and ?rows = "[[Some [Backslash, 46], None]] :: gostring option list list"
  let ?tdw = "NewTabularDataWriter ?names [9] [] False"
  let ?sch = "[(gs ''a'', Some Some), (gs ''b'', Some Some)] :: (gostring \<times> gostring io_input option) list"
  have "NewTabularDataLoader (map_of [(gs ''a'', 0), (gs ''b'', 1)]) ?sch ?names [9] [] False = Inr demo_text"
    by (simp add: NewTabularDataLoader_def demo_text_def defaultTextDelimiter_def gs_def)
  moreover have "text_delimiter_ok 9" by (simp add: text_delimiter_ok_def gs_def)
  moreover have "?names \<noteq> []" by simp
  moreover have "?tdw = ?tdw" by simp
  moreover have "copy_to (tab_WriteHeader ?tdw) (tab_WriteRow ?tdw) (tab_WriteFooter ?tdw) ?rows =
      Inr [[Backslash, Backslash, 46, 9, Backslash, 78, NL]]" by code_simp
  moreover have "concat [[Backslash], [Backslash, 46, 9, Backslash], [78, NL]] = concat [[Backslash, Backslash, 46, 9, Backslash, 78, NL]]"
    by simp
  moreover have "\<forall>row \<in> set ?rows. length row = length ?names" by simp
  moreover have "map (input_row (tab_columns demo_text)) ?rows = map Inr ?rows" by (simp add: demo_text_def)
  ultimately have "\<exists>tdl'. load_chunks tab_RowIter tab_Next demo_text [[Backslash], [Backslash, 46, 9, Backslash], [78, NL]] =
    Some (?rows, EndOfFile, tdl') \<and> tab_Finish tdl' = Inr (of_nat (length ?rows))"
    by (rule text_round_trip)
  then show ?thesis by simp
qed

end
