(* ===== verification/Copy_Binary.thy ===== *)
theory Copy_Binary
  imports Copy_Loader
begin

text \<open>
  \<open>COPY\<close> in the binary format: \<open>binarydataloader.go\<close> and \<open>binarydatawriter.go\<close> of \<open>src/core/dataloader\<close>. Reading a
  record keeps the bytes that were consumed for it, so that a record cut short by the end of a chunk is read
  again together with the next chunk.
\<close>

section \<open>Reading a record\<close>

datatype 'a partial = Cut | Failed load_error | Done 'a

text \<open>The record so far and the rest of the data.\<close>

type_synonym record_io = "byte list \<times> byte list"
type_synonym 'a record_reader = "record_io \<Rightarrow> 'a partial \<times> record_io"

definition return_record :: "'a \<Rightarrow> 'a record_reader" where
  "return_record x io = (Done x, io)"

definition fail_record :: "load_error \<Rightarrow> 'a record_reader" where
  "fail_record e io = (Failed e, io)"

definition bind_record :: "'a record_reader \<Rightarrow> ('a \<Rightarrow> 'b record_reader) \<Rightarrow> 'b record_reader" where
  "bind_record rd f io = (case rd io of
     (Cut, io') \<Rightarrow> (Cut, io')
   | (Failed e, io') \<Rightarrow> (Failed e, io')
   | (Done x, io') \<Rightarrow> f x io')"

text \<open>The closure \<open>readFull\<close> of \<open>nextRow\<close>.\<close>

definition readFull :: "nat \<Rightarrow> byte list record_reader" where
  "readFull n io = (case io of (rec, data) \<Rightarrow>
     if length data < n then (Cut, (rec @ data, []))
     else (Done (take n data), (rec @ take n data, drop n data)))"

definition be_word :: "byte list \<Rightarrow> 'a::len word" where
  "be_word bs = of_nat (be_val bs)"

definition binarySignature :: "byte list" where
  "binarySignature = gs ''PGCOPY'' @ [10, 255, 13, 10, 0]"

definition read_header :: "unit record_reader" where
  "read_header = bind_record (readFull (length binarySignature + 8)) (\<lambda>header.
     if take (length binarySignature) header \<noteq> binarySignature then fail_record BadSignature
     else
       let flags = be_word (take 4 (drop (length binarySignature) header)) :: uint32;
         extensionLen = be_word (take 4 (drop (length binarySignature + 4) header)) :: uint32 in
       if drop_bit 16 flags \<noteq> 0 then fail_record BadFlags
       else if sint extensionLen < 0 then fail_record BadExtensionLength
       else bind_record (readFull (nat (sint extensionLen))) (\<lambda>_. return_record ()))"

fun read_fields :: "'v column list \<Rightarrow> 'v option list record_reader" where
  "read_fields [] = return_record []"
| "read_fields ((_, t) # cols) = bind_record (readFull 4) (\<lambda>lengthBytes.
     let fieldLen = be_word lengthBytes :: uint32 in
     if sint fieldLen = -1 then bind_record (read_fields cols) (\<lambda>row. return_record (None # row))
     else if sint fieldLen < 0 then fail_record BadFieldSize
     else bind_record (readFull (nat (sint fieldLen))) (\<lambda>fieldData.
       case t fieldData of
         None \<Rightarrow> fail_record InputError
       | Some v \<Rightarrow> bind_record (read_fields cols) (\<lambda>row. return_record (Some v # row))))"

text \<open>A row, or the trailer word (\<open>None\<close>).\<close>

definition read_row :: "'v column list \<Rightarrow> 'v option list option record_reader" where
  "read_row cols = bind_record (readFull 2) (\<lambda>fieldCountBytes.
     let fieldCount = sint (be_word fieldCountBytes :: uint16) in
     if fieldCount = -1 then return_record None
     else if fieldCount \<noteq> int (length cols) then fail_record BadRowFieldCount
     else bind_record (read_fields cols) (\<lambda>row. return_record (Some row)))"

section \<open>The loader\<close>

record 'v BinaryDataLoader =
  bin_RowsLoaded :: uint32
  partialRecord :: "byte list"
  bin_columns :: "'v column list"
  headerRead :: bool
  sawTrailer :: bool

definition NewBinaryDataLoader ::
  "(gostring \<Rightarrow> nat option) \<Rightarrow> (gostring \<times> 'v io_input option) list \<Rightarrow> gostring list \<Rightarrow> load_error + 'v BinaryDataLoader" where
  "NewBinaryDataLoader index sch colNames = (case getColumnTypes index sch colNames of
     Inl e \<Rightarrow> Inl e
   | Inr cols \<Rightarrow> Inr \<lparr>bin_RowsLoaded = 0, partialRecord = [], bin_columns = cols, headerRead = False, sawTrailer = False\<rparr>)"

text \<open>The end of \<open>nextRow\<close> at the trailer, now or in an earlier call: nothing may follow.\<close>

definition after_trailer :: "'v BinaryDataLoader \<Rightarrow> byte list \<Rightarrow> (load_error + 'v option list option) \<times> 'v BinaryDataLoader \<times> byte list" where
  "after_trailer bdl data = (case data of [] \<Rightarrow> (Inr None, bdl, []) | _ # rest \<Rightarrow> (Inl DataAfterTrailer, bdl, rest))"

text \<open>\<open>nextRow\<close> behind the header: the record starts with an empty buffer.\<close>

definition bin_body :: "'v BinaryDataLoader \<Rightarrow> byte list \<Rightarrow> (load_error + 'v option list option) \<times> 'v BinaryDataLoader \<times> byte list" where
  "bin_body bdl data = (case read_row (bin_columns bdl) ([], data) of (r, io) \<Rightarrow> (case r of
     Cut \<Rightarrow> (Inr None, bdl\<lparr>partialRecord := fst io\<rparr>, snd io)
   | Failed e \<Rightarrow> (Inl e, bdl, snd io)
   | Done None \<Rightarrow> after_trailer (bdl\<lparr>sawTrailer := True, partialRecord := []\<rparr>) (snd io)
   | Done (Some row) \<Rightarrow> (Inr (Some row), bdl, snd io)))"

definition bin_nextRow :: "'v BinaryDataLoader \<Rightarrow> byte list \<Rightarrow> (load_error + 'v option list option) \<times> 'v BinaryDataLoader \<times> byte list" where
  "bin_nextRow bdl data =
     (if sawTrailer bdl then after_trailer bdl data
      else if headerRead bdl then bin_body bdl data
      else (case read_header ([], data) of (r, io) \<Rightarrow> (case r of
          Cut \<Rightarrow> (Inr None, bdl\<lparr>partialRecord := fst io\<rparr>, snd io)
        | Failed e \<Rightarrow> (Inl e, bdl, snd io)
        | Done _ \<Rightarrow> bin_body (bdl\<lparr>headerRead := True, partialRecord := []\<rparr>) (snd io))))"

definition bin_Next :: "('v BinaryDataLoader, 'v) next_row" where
  "bin_Next bdl data = (case bin_nextRow bdl data of
     (Inl e, r) \<Rightarrow> (Inl e, r)
   | (Inr None, r) \<Rightarrow> (Inl EndOfFile, r)
   | (Inr (Some row), bdl', rest) \<Rightarrow> (Inr row, bdl'\<lparr>bin_RowsLoaded := bin_RowsLoaded bdl' + 1\<rparr>, rest))"

text \<open>The reader of a chunk starts with what is left over of the chunk before.\<close>

definition bin_RowIter :: "'v BinaryDataLoader row_iter" where
  "bin_RowIter bdl chunk = (bdl\<lparr>partialRecord := []\<rparr>, partialRecord bdl @ chunk)"

definition bin_Finish :: "'v BinaryDataLoader \<Rightarrow> load_error + uint32" where
  "bin_Finish bdl =
     (if length (partialRecord bdl) > 0 then Inl PartialRecordAtEnd
      else if \<not> sawTrailer bdl then Inl MissingTrailer
      else Inr (bin_RowsLoaded bdl))"

section \<open>The writer\<close>

definition bin_WriteHeader :: "byte list option" where
  "bin_WriteHeader = Some (binarySignature @ be_put 4 (0 :: uint32) @ be_put 4 (0 :: uint32))"

fun bin_WriteFields :: "gostring option list \<Rightarrow> byte list" where
  "bin_WriteFields [] = []"
| "bin_WriteFields (None # vals) = be_put 4 (-1 :: uint32) @ bin_WriteFields vals"
| "bin_WriteFields (Some val # vals) = be_put 4 (of_nat (length val) :: uint32) @ val @ bin_WriteFields vals"

definition bin_WriteRow :: "gostring option list \<Rightarrow> load_error + byte list" where
  "bin_WriteRow vals =
     (if length vals > 32767 then Inl TooManyColumns
      else Inr (be_put 2 (of_nat (length vals) :: uint16) @ bin_WriteFields vals))"

definition bin_WriteFooter :: "byte list option" where
  "bin_WriteFooter = Some [0xff, 0xff]"

section \<open>Records and the rest of the data\<close>

text \<open>A reader of records treats data that goes on as it should: what it has read it reads again, an error
  stays, and when the data was cut short all of it is in the record.\<close>

definition resumes :: "'a record_reader \<Rightarrow> bool" where
  "resumes rd \<longleftrightarrow> (\<forall>rec data r rec' rest. rd (rec, data) = (r, (rec', rest)) \<longrightarrow>
     rec' @ rest = rec @ data \<and> length rest \<le> length data \<and> (case r of
       Cut \<Rightarrow> rest = []
     | Failed e \<Rightarrow> e \<noteq> EndOfFile \<and> (\<forall>later. rd (rec, data @ later) = (Failed e, (rec', rest @ later)))
     | Done x \<Rightarrow> (\<forall>later. rd (rec, data @ later) = (Done x, (rec', rest @ later)))))"

lemma resumesD:
  assumes "resumes rd" and "rd (rec, data) = (r, (rec', rest))"
  shows "rec' @ rest = rec @ data" and "length rest \<le> length data" and "r = Cut \<Longrightarrow> rest = []"
    and "r = Failed e \<Longrightarrow> rd (rec, data @ later) = (Failed e, (rec', rest @ later)) \<and> e \<noteq> EndOfFile"
    and "r = Done x \<Longrightarrow> rd (rec, data @ later) = (Done x, (rec', rest @ later))"
  using assms unfolding resumes_def by fastforce+

lemma resumes_return [intro, simp]: "resumes (return_record x)"
  by (simp add: resumes_def return_record_def)

lemma resumes_fail [intro, simp]: "e \<noteq> EndOfFile \<Longrightarrow> resumes (fail_record e)"
  by (simp add: resumes_def fail_record_def)

lemma resumes_readFull [intro, simp]: "resumes (readFull n)"
  by (auto simp: resumes_def readFull_def split: if_splits)

lemma resumes_bind [intro]:
  assumes rd: "resumes rd" and f: "\<And>x. resumes (f x)"
  shows "resumes (bind_record rd f)"
  unfolding resumes_def
proof (intro allI impI)
  fix rec data r rec' rest
  assume b: "bind_record rd f (rec, data) = (r, (rec', rest))"
  obtain q rec1 rest1 where q: "rd (rec, data) = (q, (rec1, rest1))" by (metis prod.exhaust)
  note first = resumesD [OF rd q]
  show "rec' @ rest = rec @ data \<and> length rest \<le> length data \<and> (case r of
       Cut \<Rightarrow> rest = []
     | Failed e \<Rightarrow> e \<noteq> EndOfFile \<and> (\<forall>later. bind_record rd f (rec, data @ later) = (Failed e, (rec', rest @ later)))
     | Done x \<Rightarrow> (\<forall>later. bind_record rd f (rec, data @ later) = (Done x, (rec', rest @ later))))"
  proof (cases q)
    case (Done x)
    then have fx: "f x (rec1, rest1) = (r, (rec', rest))" using b q by (simp add: bind_record_def)
    note second = resumesD [OF f fx]
    show ?thesis using first(1,2) first(5) [OF Done] second
      by (auto simp: bind_record_def split: partial.split)
  qed (use b q first in \<open>auto simp: bind_record_def split: partial.split\<close>)
qed

lemma resumes_read_header: "resumes read_header"
  unfolding read_header_def Let_def by (intro resumes_bind resumes_readFull) (auto intro!: resumes_bind)

lemma resumes_read_fields: "resumes (read_fields cols)"
proof (induction cols)
  case (Cons c cols)
  have row: "resumes (bind_record (read_fields cols) (\<lambda>row. return_record (f row)))" for f :: "'a option list \<Rightarrow> 'a option list"
    using Cons.IH by auto
  obtain name t where "c = (name, t)" by (cases c)
  then show ?case using row by (auto simp: Let_def intro!: resumes_bind split: option.split)
qed simp

lemma resumes_read_row: "resumes (read_row cols)"
  unfolding read_row_def Let_def using resumes_read_fields by (auto intro!: resumes_bind)

text \<open>A row has at least the bytes of its field count.\<close>

lemma read_row_shorter:
  assumes "read_row cols (rec, data) = (Done x, (rec', rest))"
  shows "length rest < length data"
proof -
  have second: "resumes (bind_record (read_fields cols) (\<lambda>row. return_record (Some row)))"
    using resumes_read_fields by auto
  have "length rest \<le> length (drop 2 data)" if "2 \<le> length data"
    using assms that resumesD(2) [OF second, of "rec @ take 2 data" "drop 2 data" "Done x" rec' rest]
    by (auto simp: read_row_def bind_record_def [of "readFull 2"] readFull_def Let_def return_record_def fail_record_def split: if_splits)
  moreover have "2 \<le> length data" using assms by (auto simp: read_row_def bind_record_def readFull_def split: if_splits)
  ultimately show ?thesis by simp
qed

end
