(* ===== verification/Copy_Binary_Props.thy ===== *)
theory Copy_Binary_Props
  imports Copy_Binary
begin

text \<open>
  The binary format: how rows are split into chunks does not matter, and what \<open>COPY TO\<close> sends is what \<open>COPY FROM\<close> loads.
\<close>

section \<open>Chunks\<close>

lemma after_trailer_append:
  "after_trailer bdl data = (Inl e, bdl', rest) \<Longrightarrow> after_trailer bdl (data @ later) = (Inl e, bdl', rest @ later) \<and> e \<noteq> EndOfFile"
  "after_trailer bdl data = (Inr None, bdl', rest) \<Longrightarrow> data = [] \<and> bdl' = bdl"
  "after_trailer bdl data \<noteq> (Inr (Some row), bdl', rest)"
  by (auto simp: after_trailer_def split: list.splits)

lemma bin_RowIter_resume:
  "partialRecord bdl = [] \<Longrightarrow> bin_RowIter (bdl\<lparr>partialRecord := data\<rparr>) later = (bdl, data @ later)"
  "partialRecord bdl = [] \<Longrightarrow> bin_RowIter bdl later = (bdl, later)"
  by (cases bdl; simp add: bin_RowIter_def)+

text \<open>What \<open>bin_body\<close> and \<open>bin_nextRow\<close> do on data that goes on, for each of their outcomes.\<close>

lemma bin_body_append:
  assumes "bin_body bdl data = (r, bdl', rest)" and "partialRecord bdl = []" and "\<not> sawTrailer bdl" and "headerRead bdl"
  shows "r = Inr (Some row) \<Longrightarrow> bin_body bdl (data @ later) = (Inr (Some row), bdl', rest @ later) \<and> bdl' = bdl \<and> length rest < length data"
    and "r = Inl e \<Longrightarrow> bin_body bdl (data @ later) = (Inl e, bdl', rest @ later) \<and> e \<noteq> EndOfFile"
    and "r = Inr None \<Longrightarrow> bin_body bdl (data @ later) = bin_nextRow (fst (bin_RowIter bdl' later)) (snd (bin_RowIter bdl' later))"
proof -
  obtain q rec1 rest1 where q: "read_row (bin_columns bdl) ([], data) = (q, (rec1, rest1))" by (metis prod.exhaust)
  note read = resumesD [OF resumes_read_row q]
  show "r = Inr (Some row) \<Longrightarrow> bin_body bdl (data @ later) = (Inr (Some row), bdl', rest @ later) \<and> bdl' = bdl \<and> length rest < length data"
    using assms(1) q read(5) read_row_shorter [of "bin_columns bdl" "[]" data]
    by (auto simp: bin_body_def after_trailer_append(3) split: partial.splits option.splits)
  show "r = Inl e \<Longrightarrow> bin_body bdl (data @ later) = (Inl e, bdl', rest @ later) \<and> e \<noteq> EndOfFile"
    using assms(1) q read(4,5) after_trailer_append(1) [of "bdl\<lparr>sawTrailer := True, partialRecord := []\<rparr>" rest1 e bdl' rest later]
    by (auto simp: bin_body_def split: partial.splits option.splits)
  show "bin_body bdl (data @ later) = bin_nextRow (fst (bin_RowIter bdl' later)) (snd (bin_RowIter bdl' later))" if r: "r = Inr None"
  proof (cases q)
    case Cut
    then have "bdl' = bdl\<lparr>partialRecord := data\<rparr>" using assms(1) q r read(1,3) by (simp add: bin_body_def)
    then have "bin_RowIter bdl' later = (bdl, data @ later)" using bin_RowIter_resume(1) [OF assms(2), of data later] by simp
    then show ?thesis using assms(3,4) by (simp add: bin_nextRow_def)
  next
    case (Failed e)
    then show ?thesis using assms(1) q r by (simp add: bin_body_def)
  next
    case (Done x)
    then have x: "x = None" using assms(1) q r by (auto simp: bin_body_def split: option.splits)
    then have b: "bdl' = bdl\<lparr>sawTrailer := True, partialRecord := []\<rparr>" "rest1 = []"
      using assms(1) q r Done after_trailer_append(2) [of "bdl\<lparr>sawTrailer := True, partialRecord := []\<rparr>" rest1 bdl' rest]
      by (auto simp: bin_body_def)
    then have "bin_RowIter bdl' later = (bdl', later)" using bin_RowIter_resume(2) [of bdl' later] by simp
    then show ?thesis using b read(5) [OF Done, of later] x by (simp add: bin_nextRow_def bin_body_def)
  qed
qed

lemma bin_nextRow_append:
  assumes "bin_nextRow bdl data = (r, bdl', rest)" and "partialRecord bdl = []"
  shows "r = Inr (Some row) \<Longrightarrow> bin_nextRow bdl (data @ later) = (Inr (Some row), bdl', rest @ later) \<and>
      partialRecord bdl' = [] \<and> length rest < length data"
    and "r = Inl e \<Longrightarrow> bin_nextRow bdl (data @ later) = (Inl e, bdl', rest @ later) \<and> e \<noteq> EndOfFile"
    and "r = Inr None \<Longrightarrow> bin_nextRow bdl (data @ later) = bin_nextRow (fst (bin_RowIter bdl' later)) (snd (bin_RowIter bdl' later))"
proof -
  obtain q rec1 rest1 where q: "read_header ([], data) = (q, (rec1, rest1))" by (metis prod.exhaust)
  note header = resumesD [OF resumes_read_header q]
  let ?bdl = "bdl\<lparr>headerRead := True, partialRecord := []\<rparr>"
  note body = bin_body_append [of bdl data r bdl' rest, OF _ assms(2)]
  note body' = bin_body_append [of ?bdl rest1 r bdl' rest]
  show "r = Inr (Some row) \<Longrightarrow> bin_nextRow bdl (data @ later) = (Inr (Some row), bdl', rest @ later) \<and>
      partialRecord bdl' = [] \<and> length rest < length data"
    using assms q header body(1) [of row later] body'(1) [of row later]
    by (auto simp: bin_nextRow_def after_trailer_append(3) split: if_splits partial.splits)
  show "r = Inl e \<Longrightarrow> bin_nextRow bdl (data @ later) = (Inl e, bdl', rest @ later) \<and> e \<noteq> EndOfFile"
    using assms q header body(2) [of e later] body'(2) [of e later] after_trailer_append(1) [of bdl data e bdl' rest later]
    by (auto simp: bin_nextRow_def split: if_splits partial.splits)
  show "bin_nextRow bdl (data @ later) = bin_nextRow (fst (bin_RowIter bdl' later)) (snd (bin_RowIter bdl' later))" if r: "r = Inr None"
  proof (cases "sawTrailer bdl \<or> headerRead bdl")
    case True
    then show ?thesis using r assms body(3) [of later] after_trailer_append(2) [of bdl data bdl' rest] bin_RowIter_resume(2) [of bdl later]
      by (auto simp: bin_nextRow_def [of bdl] split: if_splits)
  next
    case new: False
    show ?thesis
    proof (cases q)
      case Cut
      then have "bdl' = bdl\<lparr>partialRecord := data\<rparr>" using assms(1) q r header(1,3) new by (simp add: bin_nextRow_def)
      then show ?thesis using bin_RowIter_resume(1) [OF assms(2), of data later] by simp
    next
      case (Failed e)
      then show ?thesis using assms(1) q r new by (simp add: bin_nextRow_def)
    next
      case (Done x)
      then show ?thesis using assms(1) q r new body'(3) [of later] header(5) [OF Done, of later] by (simp add: bin_nextRow_def [of bdl])
    qed
  qed
qed

section \<open>The loader as a source of rows\<close>

lemma bin_Next_cases:
  "bin_Next bdl data = (Inr row, bdl', rest) \<Longrightarrow>
    \<exists>b. bin_nextRow bdl data = (Inr (Some row), b, rest) \<and> bdl' = b\<lparr>bin_RowsLoaded := bin_RowsLoaded b + 1\<rparr>"
  "bin_Next bdl data = (Inl e, bdl', rest) \<Longrightarrow>
    bin_nextRow bdl data = (Inl e, bdl', rest) \<or> e = EndOfFile \<and> bin_nextRow bdl data = (Inr None, bdl', rest)"
  by (auto simp: bin_Next_def split: prod.splits sum.splits option.splits)

lemma bin_body_shorter: "bin_body bdl data = (Inr (Some row), bdl', rest) \<Longrightarrow> length rest < length data"
  by (auto simp: bin_body_def after_trailer_append(3) split: prod.splits partial.splits option.splits dest: read_row_shorter)

lemma bin_nextRow_shorter:
  assumes "bin_nextRow bdl data = (Inr (Some row), bdl', rest)"
  shows "length rest < length data"
proof -
  obtain q rec1 rest1 where q: "read_header ([], data) = (q, (rec1, rest1))" by (metis prod.exhaust)
  have body: "bin_body b rest1 = (Inr (Some row), bdl', rest) \<Longrightarrow> length rest < length data" for b
    using bin_body_shorter [of b rest1 row bdl' rest] resumesD(2) [OF resumes_read_header q] by linarith
  show ?thesis using assms q body bin_body_shorter [of bdl data row bdl' rest]
    by (auto simp: bin_nextRow_def after_trailer_append(3) split: if_splits partial.splits)
qed

interpretation bin: resumable bin_Next bin_RowIter "\<lambda>bdl data. partialRecord bdl = []"
proof
  fix bdl bdl' bdl'' :: "'v BinaryDataLoader" and data data' rest chunk later row e
  show "bin_Next bdl data = (Inr row, bdl', rest) \<Longrightarrow> length rest < length data"
    by (auto dest!: bin_Next_cases(1) bin_nextRow_shorter)
  show "bin_RowIter bdl chunk = (bdl', data) \<Longrightarrow> bin_RowIter bdl (chunk @ later) = (bdl', data @ later)"
    by (auto simp: bin_RowIter_def)
  assume start: "partialRecord bdl = []"
  show "bin_Next bdl (data @ later) = (Inr row, bdl', rest @ later) \<and> partialRecord bdl' = []"
    if n: "bin_Next bdl data = (Inr row, bdl', rest)"
  proof -
    obtain b where b: "bin_nextRow bdl data = (Inr (Some row), b, rest)" "bdl' = b\<lparr>bin_RowsLoaded := bin_RowsLoaded b + 1\<rparr>"
      using bin_Next_cases(1) [OF n] by blast
    show ?thesis using bin_nextRow_append(1) [OF b(1) start refl, of later] b(2) by (simp add: bin_Next_def)
  qed
  show "\<exists>rest'. bin_Next bdl (data @ later) = (Inl e, bdl', rest')"
    if n: "bin_Next bdl data = (Inl e, bdl', rest)" and e: "e \<noteq> EndOfFile"
    using bin_Next_cases(2) [OF n] e bin_nextRow_append(2) [OF _ start refl, of data e bdl' rest later] by (auto simp: bin_Next_def)
  show "bin_Next bdl (data @ later) = bin_Next bdl'' data'"
    if n: "bin_Next bdl data = (Inl EndOfFile, bdl', rest)" and it: "bin_RowIter bdl' later = (bdl'', data')"
    using bin_Next_cases(2) [OF n] bin_nextRow_append(2) [OF _ start refl, of data EndOfFile bdl' rest later]
      bin_nextRow_append(3) [OF _ start refl, of data bdl' rest later] it by (auto simp: bin_Next_def)
qed

text \<open>C31. How the bytes of a binary \<open>COPY\<close> are split into messages does not matter: loading the chunks one after the
  other gives the same rows, the same error if there is one, and the same loader as loading all the bytes at once,
  from every state of the loader.\<close>

theorem binary_chunks_irrelevant:
  assumes "chunks \<noteq> []"
  shows "load_chunks bin_RowIter bin_Next bdl chunks = load_chunk bin_RowIter bin_Next bdl (concat chunks)"
  by (rule bin.load_chunks_concat [where good = "\<lambda>_ _. True"]) (simp_all add: assms bin_RowIter_def)

definition demo_binary :: "gostring BinaryDataLoader" where
  "demo_binary = \<lparr>bin_RowsLoaded = 0, partialRecord = [], bin_columns = [(gs ''a'', Some), (gs ''b'', Some)],
     headerRead = False, sawTrailer = False\<rparr>"

text \<open>At a concrete input: two chunks, the first ending inside the header.\<close>

theorem binary_chunks_irrelevant_witness:
  "load_chunks bin_RowIter bin_Next demo_binary [gs ''PGCO'', gs ''PY''] =
   load_chunk bin_RowIter bin_Next demo_binary (gs ''PGCOPY'')"
  using binary_chunks_irrelevant [of "[gs ''PGCO'', gs ''PY'']" demo_binary] by (simp add: gs_def)

section \<open>Round trip\<close>

lemma be_word_put [simp]: "LENGTH('a) \<le> 8 * k \<Longrightarrow> be_word (be_put k (v :: 'a::len word)) = v"
proof -
  assume k: "LENGTH('a) \<le> 8 * k"
  have "unat v < 2 ^ LENGTH('a)" by (rule unsigned_less)
  also have "... \<le> 2 ^ (8 * k)" using k by (intro power_increasing) auto
  also have "... = (256 :: nat) ^ k" by (simp add: power_mult)
  finally show ?thesis by (simp add: be_word_def be_val_be_put)
qed

lemma readFull_exact: "n = length xs \<Longrightarrow> readFull n (rec, xs @ rest) = (Done xs, (rec @ xs, rest))"
  by (simp add: readFull_def)

lemma sint_length32: "n < 2 ^ 31 \<Longrightarrow> sint (of_nat n :: uint32) = int n"
  using int_word_sint [where 'a = 32, of "int n"] by simp

lemma sint_length16: "n < 2 ^ 15 \<Longrightarrow> sint (of_nat n :: uint16) = int n"
  using int_word_sint [where 'a = 16, of "int n"] by simp

definition fits_int32 :: "gostring option list \<Rightarrow> bool" where
  "fits_int32 vals \<longleftrightarrow> (\<forall>val \<in> set vals. case val of None \<Rightarrow> True | Some v \<Rightarrow> length v < 2 ^ 31)"

lemma read_fields_written:
  assumes "length vals = length cols" and "input_row cols vals = Inr row" and "fits_int32 vals"
  shows "read_fields cols (rec, bin_WriteFields vals @ rest) = (Done row, (rec @ bin_WriteFields vals, rest))"
  using assms
proof (induction cols arbitrary: vals row rec)
  case Nil
  then show ?case by (simp add: return_record_def)
next
  case (Cons c cols)
  obtain name t where c: "c = (name, t)" by (cases c)
  obtain val vals' where vals: "vals = val # vals'" using Cons.prems(1) by (cases vals) auto
  have fits: "fits_int32 vals'" using Cons.prems(3) by (simp add: fits_int32_def vals)
  have len4: "4 = length (be_put 4 x)" for x :: uint32 by simp
  show ?case
  proof (cases val)
    case None
    then obtain row' where row: "input_row cols vals' = Inr row'" "row = None # row'"
      using Cons.prems(2) by (auto simp: vals c split: sum.splits)
    show ?thesis using Cons.IH [OF _ row(1) fits, of "rec @ be_put 4 (-1 :: uint32)"] Cons.prems(1) row(2)
      by (simp add: vals c None bind_record_def readFull_exact [OF len4] return_record_def)
  next
    case (Some v)
    then obtain x row' where row: "t v = Some x" "input_row cols vals' = Inr row'" "row = Some x # row'"
      using Cons.prems(2) by (auto simp: vals c split: sum.splits option.splits)
    have "length v < 2 ^ 31" using Cons.prems(3) by (simp add: fits_int32_def vals Some)
    then show ?thesis
      using Cons.IH [OF _ row(2) fits, of "rec @ be_put 4 (of_nat (length v) :: uint32) @ v"] Cons.prems(1) row(1,3)
      by (simp add: vals c Some bind_record_def readFull_exact [OF len4] readFull_exact sint_length32 return_record_def)
  qed
qed

lemma read_row_written:
  assumes "length vals = length cols" and "input_row cols vals = Inr row" and "fits_int32 vals" and "bin_WriteRow vals = Inr data"
  shows "read_row cols (rec, data @ rest) = (Done (Some row), (rec @ data, rest))"
proof -
  have data: "data = be_put 2 (of_nat (length vals) :: uint16) @ bin_WriteFields vals" and len: "length vals < 2 ^ 15"
    using assms(4) by (auto simp: bin_WriteRow_def split: if_splits)
  have len2: "2 = length (be_put 2 x)" for x :: uint16 by simp
  show ?thesis using read_fields_written [OF assms(1-3), of "rec @ be_put 2 (of_nat (length vals) :: uint16)" rest] len assms(1)
    by (simp add: data read_row_def bind_record_def readFull_exact [OF len2] sint_length16 return_record_def)
qed

lemma read_header_written:
  "bin_WriteHeader = Some h \<Longrightarrow> read_header ([], h @ rest) = (Done (), (h, rest))"
proof -
  assume "bin_WriteHeader = Some h"
  then have h: "h = binarySignature @ be_put 4 (0 :: uint32) @ be_put 4 (0 :: uint32)" by (simp add: bin_WriteHeader_def)
  have "readFull (length binarySignature + 8) ([], h @ rest) = (Done h, ([] @ h, rest))"
    by (rule readFull_exact) (simp add: h)
  then show ?thesis by (simp add: read_header_def bind_record_def h readFull_def return_record_def)
qed

text \<open>The trailer ends the load; the rows before it are taken one by one.\<close>

lemma bin_Next_trailer:
  assumes "headerRead bdl" and "\<not> sawTrailer bdl" and "bin_WriteFooter = Some f"
  shows "bin_Next bdl f = (Inl EndOfFile, bdl\<lparr>sawTrailer := True, partialRecord := []\<rparr>, [])"
proof -
  have "f = [0xff, 0xff]" using assms(3) by (simp add: bin_WriteFooter_def)
  moreover have "be_word [0xff, 0xff] = (-1 :: uint16)" by (simp add: be_word_def be_val_def)
  ultimately show ?thesis using assms(1,2)
    by (simp add: bin_Next_def bin_nextRow_def bin_body_def read_row_def bind_record_def readFull_def
        return_record_def after_trailer_def)
qed

lemma bin_rows_written:
  assumes "write_rows bin_WriteRow rows = Inr body" and "\<forall>row \<in> set rows. length row = length (bin_columns bdl) \<and> fits_int32 row"
    and "map (input_row (bin_columns bdl)) rows = map Inr vals" and "headerRead bdl" and "\<not> sawTrailer bdl" and "bin_WriteFooter = Some f"
  shows "drain bin_Next (Suc (length (concat body @ f))) bdl (concat body @ f) = Some (vals, EndOfFile,
    bdl\<lparr>bin_RowsLoaded := bin_RowsLoaded bdl + of_nat (length rows), sawTrailer := True, partialRecord := []\<rparr>)"
  using assms
proof (induction rows arbitrary: body vals bdl)
  case Nil
  then show ?case using bin_Next_trailer [OF Nil.prems(4-6)] by simp
next
  case (Cons row rows)
  then obtain data body' where body: "bin_WriteRow row = Inr data" "write_rows bin_WriteRow rows = Inr body'" "body = data # body'"
    by (auto split: sum.splits)
  from Cons.prems(3) obtain v vals' where vals: "vals = v # vals'" "input_row (bin_columns bdl) row = Inr v" by (cases vals) auto
  let ?bdl = "bdl\<lparr>bin_RowsLoaded := bin_RowsLoaded bdl + 1\<rparr>"
  have nx: "bin_Next bdl (concat body @ f) = (Inr v, ?bdl, concat body' @ f)"
    using read_row_written [OF _ vals(2) _ body(1), of "[]" "concat body' @ f"] Cons.prems(2,4,5)
    by (simp add: bin_Next_def bin_nextRow_def bin_body_def body(3))
  have "drain bin_Next (Suc (length (concat body' @ f))) ?bdl (concat body' @ f) = Some (vals', EndOfFile,
    ?bdl\<lparr>bin_RowsLoaded := bin_RowsLoaded ?bdl + of_nat (length rows), sawTrailer := True, partialRecord := []\<rparr>)"
    by (rule Cons.IH) (use body(2) Cons.prems vals(1) in auto)
  then show ?case unfolding bin.drain_row [OF nx] by (simp add: vals(1))
qed

text \<open>C23. What a binary \<open>COPY TO\<close> sends, a binary \<open>COPY FROM\<close> loads: whatever chunks the bytes arrive in, a new loader
  returns every row with its values and NULLs, and \<open>Finish\<close> reports the number of rows (an \<open>int32\<close>).\<close>

theorem binary_round_trip:
  assumes "copy_to bin_WriteHeader bin_WriteRow bin_WriteFooter rows = Inr sent" and "concat chunks = concat sent"
    and "NewBinaryDataLoader index sch colNames = Inr bdl"
    and "\<forall>row \<in> set rows. length row = length (bin_columns bdl) \<and> fits_int32 row"
    and "map (input_row (bin_columns bdl)) rows = map Inr vals"
  shows "\<exists>bdl'. load_chunks bin_RowIter bin_Next bdl chunks = Some (vals, EndOfFile, bdl') \<and>
    bin_Finish bdl' = Inr (of_nat (length rows))"
proof -
  obtain h f where hf: "bin_WriteHeader = Some h" "bin_WriteFooter = Some f" by (simp add: bin_WriteHeader_def bin_WriteFooter_def)
  obtain body where body: "write_rows bin_WriteRow rows = Inr body" and sent: "concat chunks = h @ concat body @ f"
    using copy_to_concat [OF assms(1)] assms(2) by (auto simp: hf)
  have new: "bin_RowsLoaded bdl = 0" "partialRecord bdl = []" "\<not> headerRead bdl" "\<not> sawTrailer bdl"
    using assms(3) by (auto simp: NewBinaryDataLoader_def split: sum.splits)
  let ?bdl = "bdl\<lparr>headerRead := True, partialRecord := []\<rparr>"
  have "bin_Next bdl (concat chunks) = bin_Next ?bdl (concat body @ f)"
    using new by (simp add: sent bin_Next_def bin_nextRow_def read_header_written [OF hf(1)])
  then have "load_chunk bin_RowIter bin_Next bdl (concat chunks) = drain bin_Next (Suc (length (concat body @ f))) ?bdl (concat body @ f)"
    unfolding load_chunk_def bin_RowIter_resume(2) [OF new(2)] prod.case by (rule bin.drain_same)
  moreover have "chunks \<noteq> []" using sent hf(2) by (auto simp: bin_WriteFooter_def)
  ultimately show ?thesis
    using bin.load_chunks_concat [where good = "\<lambda>_ _. True" and cs = chunks and s = bdl]
      bin_rows_written [OF body, of ?bdl vals f] assms(4,5) new hf(2) by (simp add: bin_RowIter_def bin_Finish_def)
qed

theorem binary_round_trip_witness:
  "\<exists>bdl'. load_chunks bin_RowIter bin_Next demo_binary
      [binarySignature @ [0, 0, 0, 0, 0, 0, 0], [0, 0, 2, 0, 0, 0], [1, 65, 255, 255, 255, 255, 255], [255]] =
      Some ([[Some [65], None]], EndOfFile, bdl') \<and> bin_Finish bdl' = Inr 1"
proof -
  let ?rows = "[[Some [65], None]] :: gostring option list list"
  let ?chunks = "[binarySignature @ [0, 0, 0, 0, 0, 0, 0], [0, 0, 2, 0, 0, 0], [1, 65, 255, 255, 255, 255, 255], [255]]"
  let ?sent = "[binarySignature @ [0, 0, 0, 0, 0, 0, 0, 0, 0, 2, 0, 0, 0, 1, 65, 255, 255, 255, 255], [255, 255]]"
  let ?sch = "[(gs ''a'', Some Some), (gs ''b'', Some Some)] :: (gostring \<times> gostring io_input option) list"
  have put: "be_put 4 (0 :: uint32) = [0, 0, 0, 0]" "be_put 4 (1 :: uint32) = [0, 0, 0, 1]" "be_put 2 (2 :: uint16) = [0, 2]"
    "be_put 4 (-1 :: uint32) = [255, 255, 255, 255]"
    by code_simp+
  have "copy_to bin_WriteHeader bin_WriteRow bin_WriteFooter ?rows = Inr ?sent"
    by (simp add: copy_to_def bin_WriteHeader_def bin_WriteRow_def bin_WriteFooter_def put)
  moreover have "concat ?chunks = concat ?sent" by simp
  moreover have "NewBinaryDataLoader (map_of [(gs ''a'', 0), (gs ''b'', 1)]) ?sch [gs ''a'', gs ''b''] = Inr demo_binary"
    by (simp add: NewBinaryDataLoader_def demo_binary_def gs_def)
  moreover have "\<forall>row \<in> set ?rows. length row = length (bin_columns demo_binary) \<and> fits_int32 row"
    by (simp add: demo_binary_def fits_int32_def)
  moreover have "map (input_row (bin_columns demo_binary)) ?rows = map Inr ?rows" by (simp add: demo_binary_def)
  ultimately have "\<exists>bdl'. load_chunks bin_RowIter bin_Next demo_binary ?chunks = Some (?rows, EndOfFile, bdl') \<and>
      bin_Finish bdl' = Inr (of_nat (length ?rows))"
    by (rule binary_round_trip)
  then show ?thesis by simp
qed

end
