(* ===== verification/Copy_Csv.thy ===== *)
theory Copy_Csv
  imports Copy_Text
begin

text \<open>
  \<open>COPY\<close> in the CSV format: \<open>csvreader.go\<close>, \<open>csvdataloader.go\<close> and \<open>csvdatawriter.go\<close> of \<open>src/core/dataloader\<close>. The reader works on lines; a quoted field may span several of them. Every chunk gets a
  new reader over the partial record of the chunk before and the chunk. Decoding a byte order mark at the start
  of it is done by \<open>golang.org/x/text\<close> and is a parameter. Positions in error messages are left out, and a
  delimiter is never empty.
\<close>

abbreviation (input) Quote :: byte where
  "Quote \<equiv> 34"

section \<open>Lines\<close>

datatype csv_line = CsvLine gostring | CsvPartial gostring | CsvEOF

definition lengthNL :: "gostring \<Rightarrow> nat" where
  "lengthNL b = (if length b > 0 \<and> last b = NL then 1 else 0)"

text \<open>Line endings of two bytes become newlines.\<close>

definition normalize_line :: "gostring \<Rightarrow> gostring" where
  "normalize_line line = (if suffix [CR, NL] line then take (length line - 2) line @ [NL] else line)"

definition readLine :: "byte list \<Rightarrow> csv_line \<times> byte list" where
  "readLine data = (case ReadString data of (complete, raw, rest) \<Rightarrow>
     if complete then (CsvLine (normalize_line raw), rest)
     else if raw = [] then (CsvEOF, rest)
     else
       let line = TrimSuffix CR raw in
       if length line > 0 \<and> lengthNL line = 0 then (CsvPartial line, rest) else (CsvLine line, rest))"

section \<open>Fields\<close>

datatype csv_error = CsvEnd | CsvIncomplete gostring | CsvBadQuote | CsvFieldCount "gostring option list"

text \<open>\<open>bytes.Index\<close>: what is before and behind the first occurrence.\<close>

fun cut_at :: "gostring \<Rightarrow> gostring \<Rightarrow> (gostring \<times> gostring) option" where
  "cut_at delim [] = None"
| "cut_at delim (c # cs) =
     (if delim \<noteq> [] \<and> prefix delim (c # cs) then Some ([], drop (length delim) (c # cs))
      else map_option (\<lambda>(a, b). (c # a, b)) (cut_at delim cs))"

text \<open>The field, and the rest of the line if a field follows.\<close>

definition parseField :: "gostring \<Rightarrow> gostring \<Rightarrow> gostring \<times> gostring option" where
  "parseField delim line = (case cut_at delim line of
     Some (field, rest) \<Rightarrow> (field, Some rest)
   | None \<Rightarrow> (take (length line - lengthNL line) line, None))"

text \<open>The loop of \<open>parseQuotedField\<close>, with the field so far, the rest of the line, the raw data of the record and the data behind
  the line. When a line is cut short by the end of the data, the partial record is the raw data.\<close>

function quoted_loop :: "gostring \<Rightarrow> gostring \<Rightarrow> gostring \<Rightarrow> gostring \<Rightarrow> byte list \<Rightarrow>
    (csv_error + gostring \<times> gostring option \<times> gostring) \<times> byte list" where
  "quoted_loop delim field line raw data =
     (if Quote \<in> set line then
        let field' = field @ takeWhile (\<lambda>b. b \<noteq> Quote) line; line' = tl (dropWhile (\<lambda>b. b \<noteq> Quote) line) in
        if prefix delim line' then (Inr (field', Some (drop (length delim) line'), raw), data)
        else if line' \<noteq> [] \<and> hd line' = Quote then quoted_loop delim (field' @ [Quote]) (tl line') raw data
        else if lengthNL line' = length line' then (Inr (field', None, raw), data)
        else (Inl CsvBadQuote, data)
      else if length line > 0 then
        (case readLine data of (r, rest) \<Rightarrow> (case r of
           CsvPartial _ \<Rightarrow> (Inl (CsvIncomplete raw), rest)
         | CsvEOF \<Rightarrow> quoted_loop delim (field @ line) [] raw rest
         | CsvLine line' \<Rightarrow> quoted_loop delim (field @ line) line' (raw @ line') rest))
      else (Inl (CsvIncomplete raw), data))"
  by pat_completeness auto

lemma normalize_line_shorter: "length (normalize_line line) \<le> length line"
proof -
  have "suffix [CR, NL] line \<Longrightarrow> 2 \<le> length line" by (auto simp: suffix_def)
  then show ?thesis by (auto simp: normalize_line_def)
qed

lemma ReadString_length: "ReadString data = (complete, raw, rest) \<Longrightarrow> length raw + length rest = length data"
proof -
  assume r: "ReadString data = (complete, raw, rest)"
  show ?thesis
  proof (cases "NL \<in> set data")
    case True
    then obtain w ys where "data = w @ NL # ys" "NL \<notin> set w" using split_list_first by metis
    moreover from this(2) have "takeWhile (\<lambda>b. b \<noteq> NL) (w @ NL # ys) = w" "dropWhile (\<lambda>b. b \<noteq> NL) (w @ NL # ys) = NL # ys"
      by (induction w) auto
    ultimately show ?thesis using r True by (auto simp: ReadString_def)
  qed (use r in \<open>auto simp: ReadString_def\<close>)
qed

lemma readLine_shorter:
  "readLine data = (CsvLine line, rest) \<Longrightarrow> length line + length rest \<le> length data \<and> length rest < length data"
  "readLine data = (CsvEOF, rest) \<Longrightarrow> rest = data"
proof -
  obtain complete raw rest0 where r: "ReadString data = (complete, raw, rest0)" by (cases "ReadString data")
  have len: "length raw + length rest0 = length data" using ReadString_length [OF r] .
  have trim: "length (TrimSuffix CR raw) \<le> length raw" by (simp add: TrimSuffix_def)
  have some: "raw \<noteq> [] \<Longrightarrow> length rest0 < length data" using len by (cases raw) auto
  show "readLine data = (CsvLine line, rest) \<Longrightarrow> length line + length rest \<le> length data \<and> length rest < length data"
    using r len some normalize_line_shorter [of raw] ReadString_shorter [of data raw rest0] trim
    by (auto simp: readLine_def Let_def split: if_splits)
  show "readLine data = (CsvEOF, rest) \<Longrightarrow> rest = data"
    using r len by (auto simp: readLine_def Let_def ReadString_def split: if_splits)
qed

termination quoted_loop
proof (relation "measure (\<lambda>(_, _, line, _, data). length line + length data)", goal_cases)
  case (2 delim field line raw data x xa)
  then have "length (dropWhile (\<lambda>b. b \<noteq> Quote) line) \<le> length line" "dropWhile (\<lambda>b. b \<noteq> Quote) line \<noteq> []"
    by (auto simp: length_dropWhile_le dropWhile_eq_Nil_conv)
  with 2 show ?case by (cases "dropWhile (\<lambda>b. b \<noteq> Quote) line"; cases xa) auto
next
  case (3 delim field line raw data x rest line')
  then show ?case using readLine_shorter(1) [of data line' rest] by (cases line) auto
next
  case (4 delim field line raw data x rest)
  then show ?case using readLine_shorter(2) [of data rest] by auto
qed simp

declare quoted_loop.simps [simp del]

text \<open>What is left of the line and the data never grows.\<close>

lemma after_quote_shorter: "Quote \<in> set line \<Longrightarrow> length (tl (dropWhile (\<lambda>b. b \<noteq> Quote) line)) < length line"
proof -
  assume "Quote \<in> set line"
  then have "dropWhile (\<lambda>b. b \<noteq> Quote) line \<noteq> []" by (auto simp: dropWhile_eq_Nil_conv)
  then show ?thesis using length_dropWhile_le [of "\<lambda>b. b \<noteq> Quote" line] by (cases "dropWhile (\<lambda>b. b \<noteq> Quote) line") auto
qed

lemma quoted_loop_shorter:
  "quoted_loop delim field line raw data = (r, data') \<Longrightarrow>
    length data' \<le> length data \<and>
    (\<forall>f line' raw'. r = Inr (f, Some line', raw') \<longrightarrow> length line' + length data' \<le> length line + length data)"
proof (induction delim field line raw data arbitrary: r rule: quoted_loop.induct)
  case (1 delim field line raw data)
  let ?line' = "tl (dropWhile (\<lambda>b. b \<noteq> Quote) line)"
  show ?case
  proof (cases "Quote \<in> set line")
    case True
    then show ?thesis using "1.prems" "1.IH"(1) [OF True refl refl] after_quote_shorter [OF True]
      by (subst (asm) quoted_loop.simps) (auto simp: Let_def split: if_splits)
  next
    case False
    show ?thesis
    proof (cases "length line > 0")
      case True
      obtain q rest where q: "readLine data = (q, rest)" by (cases "readLine data")
      have part: "q = CsvPartial p \<Longrightarrow> length rest \<le> length data" for p
        using q ReadString_length [of data] by (auto simp: readLine_def Let_def split: prod.splits if_splits)
      show ?thesis
        using "1.prems" False True q part readLine_shorter(1) [of data _ rest] readLine_shorter(2) [of data rest] "1.IH"(2,3) [OF False True q [symmetric]]
        by (subst (asm) quoted_loop.simps) (fastforce split: csv_line.splits)
    next
      case empty: False
      then show ?thesis using "1.prems" False by (subst (asm) quoted_loop.simps) auto
    qed
  qed
qed

text \<open>The loop of \<open>csvReadRecords\<close> over the fields of a record. An unquoted empty field is NULL.\<close>

function csv_fields :: "gostring \<Rightarrow> gostring option list \<Rightarrow> gostring \<Rightarrow> gostring \<Rightarrow> byte list \<Rightarrow>
    (csv_error + gostring option list) \<times> byte list" where
  "csv_fields delim fvals line raw data =
     (if line = [] \<or> hd line \<noteq> Quote then
        (case parseField delim line of (field, next) \<Rightarrow>
           let fvals' = fvals @ [if field = [] then None else Some field] in
           (case next of
             None \<Rightarrow> (Inr fvals', data)
           | Some line' \<Rightarrow> csv_fields delim fvals' line' raw data))
      else (case quoted_loop delim [] (tl line) raw data of
          (Inl e, data') \<Rightarrow> (Inl e, data')
        | (Inr (field, None, raw'), data') \<Rightarrow> (Inr (fvals @ [Some field]), data')
        | (Inr (field, Some line', raw'), data') \<Rightarrow> csv_fields delim (fvals @ [Some field]) line' raw' data'))"
  by pat_completeness auto

lemma cut_at_shorter: "cut_at delim line = Some (a, b) \<Longrightarrow> length b < length line"
  by (induction delim line arbitrary: a b rule: cut_at.induct) (auto split: if_splits simp: less_Suc_eq_le neq_Nil_conv)

termination csv_fields
proof (relation "measure (\<lambda>(_, _, line, _, data). length line + length data)", goal_cases)
  case (2 delim fvals line raw data field following fvals' line')
  then show ?case using cut_at_shorter [of delim line field line'] by (auto simp: parseField_def split: option.splits)
next
  case (3 delim fvals line raw data x data' b field c following raw' line')
  then have "length line' + length data' \<le> length (tl line) + length data"
    using quoted_loop_shorter [of delim "[]" "tl line" raw data x data'] by auto
  then show ?case using 3 by (cases line) auto
qed simp

declare csv_fields.simps [simp del]

section \<open>Records\<close>

record csvReader =
  csv_isDone :: bool
  delim :: gostring
  fieldsPerRecord :: nat
  singleColumn :: bool

definition newCsvReaderWithDelimiter :: "gostring \<Rightarrow> bool \<Rightarrow> csvReader" where
  "newCsvReaderWithDelimiter delimiter single = \<lparr>csv_isDone = False, delim = delimiter, fieldsPerRecord = 0, singleColumn = single\<rparr>"

text \<open>The first line of a record: empty lines are skipped unless the table has one column.\<close>

function record_line :: "bool \<Rightarrow> byte list \<Rightarrow> (csv_error + gostring) \<times> byte list" where
  "record_line single data = (case readLine data of (r, rest) \<Rightarrow> (case r of
     CsvEOF \<Rightarrow> (Inl CsvEnd, rest)
   | CsvPartial p \<Rightarrow> (Inl (CsvIncomplete p), rest)
   | CsvLine line \<Rightarrow>
       if length line = lengthNL line \<and> \<not> single then record_line single rest else (Inr line, rest)))"
  by pat_completeness auto
termination by (relation "measure (\<lambda>(_, data). length data)") (auto dest: readLine_shorter(1) [OF sym])

declare record_line.simps [simp del]

definition csvReadRecords :: "csvReader \<Rightarrow> byte list \<Rightarrow> (csv_error + gostring option list) \<times> csvReader \<times> byte list" where
  "csvReadRecords csvr data = (case record_line (singleColumn csvr) data of
     (Inl e, rest) \<Rightarrow> (Inl e, csvr, rest)
   | (Inr line, rest) \<Rightarrow> (case csv_fields (delim csvr) [] line line rest of
       (Inl e, rest') \<Rightarrow> (Inl e, csvr, rest')
     | (Inr dst, rest') \<Rightarrow>
         if fieldsPerRecord csvr > 0 then
           (if length dst \<noteq> fieldsPerRecord csvr then (Inl (CsvFieldCount dst), csvr, rest') else (Inr dst, csvr, rest'))
         else (Inr dst, csvr\<lparr>fieldsPerRecord := length dst\<rparr>, rest')))"

definition ReadSqlRow :: "csvReader \<Rightarrow> byte list \<Rightarrow> (csv_error + gostring option list) \<times> csvReader \<times> byte list" where
  "ReadSqlRow csvr data =
     (if csv_isDone csvr then (Inl CsvEnd, csvr, data)
      else (case csvReadRecords csvr data of
          (Inl CsvEnd, csvr', rest) \<Rightarrow> (Inl CsvEnd, csvr'\<lparr>csv_isDone := True\<rparr>, rest)
        | r \<Rightarrow> r))"

section \<open>The loader\<close>

text \<open>The state of the loader together with the reader that its iterator has for the chunk.\<close>

record 'v CsvDataLoader =
  csv_RowsLoaded :: uint32
  csv_partialRecord :: gostring
  csv_columns :: "'v column list"
  csv_removeHeader :: bool
  csv_delimiter :: gostring
  csv_reader :: csvReader

definition defaultCsvDelimiter :: gostring where
  "defaultCsvDelimiter = gs '',''"

definition NewCsvDataLoader ::
  "(gostring \<Rightarrow> nat option) \<Rightarrow> (gostring \<times> 'v io_input option) list \<Rightarrow> gostring list \<Rightarrow> gostring \<Rightarrow> bool \<Rightarrow>
   load_error + 'v CsvDataLoader" where
  "NewCsvDataLoader index sch colNames delimiter header = (case getColumnTypes index sch colNames of
     Inl e \<Rightarrow> Inl e
   | Inr cols \<Rightarrow>
       let delimiter' = (if delimiter = [] then defaultCsvDelimiter else delimiter) in
       Inr \<lparr>csv_RowsLoaded = 0, csv_partialRecord = [], csv_columns = cols, csv_removeHeader = header,
         csv_delimiter = delimiter', csv_reader = newCsvReaderWithDelimiter delimiter' (length cols = 1)\<rparr>)"

text \<open>The part of \<open>nextRow\<close> behind the header.\<close>

definition csv_record :: "'v CsvDataLoader \<Rightarrow> byte list \<Rightarrow> (load_error + 'v option list option) \<times> 'v CsvDataLoader \<times> byte list" where
  "csv_record cdl data = (case ReadSqlRow (csv_reader cdl) data of (r, csvr, rest) \<Rightarrow>
     let cdl' = cdl\<lparr>csv_reader := csvr\<rparr> in
     (case r of
       Inl (CsvIncomplete p) \<Rightarrow> (Inr None, cdl'\<lparr>csv_partialRecord := p\<rparr>, rest)
     | Inl CsvEnd \<Rightarrow> (Inr None, cdl'\<lparr>csv_partialRecord := []\<rparr>, rest)
     | Inl CsvBadQuote \<Rightarrow> (Inl BadQuote, cdl', rest)
     | Inl (CsvFieldCount rcd) \<Rightarrow>
         if rcd = [Some end_marker] then (Inr None, cdl', rest) else (Inl BadFieldCount, cdl', rest)
     | Inr rcd \<Rightarrow>
         if rcd = [Some end_marker] then (Inr None, cdl', rest)
         else (case check_columns (csv_columns cdl) rcd of
           Some e \<Rightarrow> (Inl e, cdl', rest)
         | None \<Rightarrow> (case input_row (csv_columns cdl) rcd of
             Inl e \<Rightarrow> (Inl e, cdl', rest)
           | Inr row \<Rightarrow> (Inr (Some row), cdl', rest)))))"

definition csv_nextRow :: "'v CsvDataLoader \<Rightarrow> byte list \<Rightarrow> (load_error + 'v option list option) \<times> 'v CsvDataLoader \<times> byte list" where
  "csv_nextRow cdl data =
     (if csv_removeHeader cdl then
        let cdl' = cdl\<lparr>csv_removeHeader := False\<rparr> in
        (case readLine data of
          (CsvEOF, rest) \<Rightarrow> (Inl EndOfFile, cdl', rest)
        | (CsvPartial p, rest) \<Rightarrow> (Inl (IncompleteRecord p), cdl', rest)
        | (CsvLine _, rest) \<Rightarrow> csv_record cdl' rest)
      else csv_record cdl data)"

definition csv_Next :: "('v CsvDataLoader, 'v) next_row" where
  "csv_Next cdl data = (case csv_nextRow cdl data of
     (Inl e, r) \<Rightarrow> (Inl e, r)
   | (Inr None, r) \<Rightarrow> (Inl EndOfFile, r)
   | (Inr (Some row), cdl', rest) \<Rightarrow> (Inr row, cdl'\<lparr>csv_RowsLoaded := csv_RowsLoaded cdl' + 1\<rparr>, rest))"

text \<open>The reader of a chunk: the partial record and the chunk, decoded.\<close>

definition csv_RowIter :: "(byte list \<Rightarrow> byte list) \<Rightarrow> 'v CsvDataLoader row_iter" where
  "csv_RowIter bom cdl chunk =
     (cdl\<lparr>csv_partialRecord := [], csv_reader := newCsvReaderWithDelimiter (csv_delimiter cdl) (length (csv_columns cdl) = 1)\<rparr>,
      bom (csv_partialRecord cdl @ chunk))"

definition csv_Finish :: "'v CsvDataLoader \<Rightarrow> load_error + uint32" where
  "csv_Finish cdl = (if csv_partialRecord cdl \<noteq> [] then Inl PartialRecordAtEnd else Inr (csv_RowsLoaded cdl))"

section \<open>The writer\<close>

record CsvDataWriter =
  cdw_colNames :: "gostring list"
  cdw_delimiterChar :: gostring
  cdw_header :: bool

definition NewCsvDataWriter :: "gostring list \<Rightarrow> gostring \<Rightarrow> bool \<Rightarrow> CsvDataWriter" where
  "NewCsvDataWriter colNames delimiterChar header = \<lparr>cdw_colNames = colNames,
     cdw_delimiterChar = (if delimiterChar = [] then defaultCsvDelimiter else delimiterChar), cdw_header = header\<rparr>"

definition needsQuoting :: "CsvDataWriter \<Rightarrow> gostring \<Rightarrow> bool \<Rightarrow> bool" where
  "needsQuoting cdw val single =
     (if length val = 0 then True
      else if single \<and> val = end_marker then True
      else
        let delimiterByte = (if length (cdw_delimiterChar cdw) = 1 then hd (cdw_delimiterChar cdw) else 0) in
        \<exists>b \<in> set val. b = Quote \<or> b = NL \<or> b = CR \<or> b = delimiterByte)"

definition writeField :: "CsvDataWriter \<Rightarrow> gostring \<Rightarrow> bool \<Rightarrow> gostring" where
  "writeField cdw val single =
     (if \<not> needsQuoting cdw val single then val
      else [Quote] @ concat (map (\<lambda>b. if b = Quote then [Quote, b] else [b]) val) @ [Quote])"

definition csv_WriteHeader :: "CsvDataWriter \<Rightarrow> gostring option" where
  "csv_WriteHeader cdw =
     (if \<not> cdw_header cdw then None
      else Some (delimited (cdw_delimiterChar cdw)
        (map (\<lambda>colName. writeField cdw colName (length (cdw_colNames cdw) = 1)) (cdw_colNames cdw)) @ [NL]))"

definition csv_WriteRow :: "CsvDataWriter \<Rightarrow> gostring option list \<Rightarrow> load_error + gostring" where
  "csv_WriteRow cdw vals = Inr (delimited (cdw_delimiterChar cdw)
     (map (\<lambda>val. case val of None \<Rightarrow> [] | Some v \<Rightarrow> writeField cdw v (length vals = 1)) vals) @ [NL])"

definition csv_WriteFooter :: "CsvDataWriter \<Rightarrow> gostring option" where
  "csv_WriteFooter cdw = None"

end
