(* ===== verification/Copy_Csv_Props.thy ===== *)
theory Copy_Csv_Props
  imports Copy_Csv
begin

text \<open>
  The CSV format: every chunk is read to its end, what \<open>COPY TO\<close> sends is what \<open>COPY FROM\<close> loads when messages hold whole
  rows, and what is lost otherwise.
\<close>

section \<open>The loader as a source of rows\<close>

lemma csv_fields_shorter: "csv_fields dl fvals line raw data = (r, data') \<Longrightarrow> length data' \<le> length data"
proof (induction dl fvals line raw data arbitrary: r rule: csv_fields.induct)
  case (1 dl fvals line raw data)
  show ?case
  proof (cases "line = [] \<or> hd line \<noteq> Quote")
    case True
    obtain f nx where p: "parseField dl line = (f, nx)" by (cases "parseField dl line")
    show ?thesis using "1.prems" True p "1.IH"(1) [OF True p [symmetric] refl]
      by (subst (asm) csv_fields.simps) (auto simp: Let_def split: option.splits)
  next
    case False
    obtain q rest where q: "quoted_loop dl [] (tl line) raw data = (q, rest)" by (cases "quoted_loop dl [] (tl line) raw data")
    have le: "length rest \<le> length data" using quoted_loop_shorter [OF q] by blast
    show ?thesis
    proof (cases q)
      case (Inl e)
      then show ?thesis using "1.prems" False q le by (subst (asm) csv_fields.simps) auto
    next
      case (Inr t)
      obtain f nx raw' where t: "t = (f, nx, raw')" by (cases t)
      show ?thesis
      proof (cases nx)
        case None
        then show ?thesis using "1.prems" False q le Inr t by (subst (asm) csv_fields.simps) auto
      next
        case (Some line')
        have "csv_fields dl (fvals @ [Some f]) line' raw' rest = (r, data')"
          using "1.prems" False q Inr t Some by (subst (asm) csv_fields.simps) auto
        then show ?thesis using "1.IH"(2) [OF False q [symmetric] Inr t [symmetric] refl Some] le by fastforce
      qed
    qed
  qed
qed

lemma readLine_rest: "readLine data = (r, rest) \<Longrightarrow> length rest \<le> length data"
  using ReadString_length [of data] by (auto simp: readLine_def Let_def split: prod.splits if_splits)

lemma record_line_shorter: "record_line single data = (Inr line, rest) \<Longrightarrow> length rest < length data"
proof (induction single data rule: record_line.induct)
  case (1 single data)
  obtain q rest0 where q: "readLine data = (q, rest0)" by (cases "readLine data")
  show ?case
  proof (cases q)
    case (CsvLine l)
    then show ?thesis using "1.prems" "1.IH" [OF q [symmetric] CsvLine] q readLine_shorter(1) [of data l rest0]
      by (subst (asm) record_line.simps) (auto split: if_splits)
  qed (use "1.prems" q in \<open>subst (asm) record_line.simps, simp\<close>)+
qed

lemma ReadSqlRow_shorter: "ReadSqlRow csvr data = (Inr dst, csvr', rest) \<Longrightarrow> length rest < length data"
  by (auto simp: ReadSqlRow_def csvReadRecords_def split: if_splits prod.splits sum.splits csv_error.splits
      dest!: record_line_shorter csv_fields_shorter)

lemma csv_record_shorter: "csv_record cdl data = (Inr (Some row), cdl', rest) \<Longrightarrow> length rest < length data"
  by (auto simp: csv_record_def Let_def split: prod.splits sum.splits csv_error.splits if_splits option.splits dest: ReadSqlRow_shorter)

lemma csv_nextRow_shorter: "csv_nextRow cdl data = (Inr (Some row), cdl', rest) \<Longrightarrow> length rest < length data"
  by (auto simp: csv_nextRow_def Let_def split: if_splits prod.splits csv_line.splits dest!: csv_record_shorter readLine_rest)

interpretation csv: row_source csv_Next
  by unfold_locales (auto simp: csv_Next_def split: prod.splits sum.splits option.splits dest: csv_nextRow_shorter)

section \<open>Lines of a stream\<close>

text \<open>The first line of a stream and the rest.\<close>

definition at_line :: "byte list \<Rightarrow> byte list \<Rightarrow> byte list \<Rightarrow> bool" where
  "at_line s line data \<longleftrightarrow> (\<exists>w. NL \<notin> set w \<and> line = w @ [NL] \<and> s = line @ data)"

lemma at_line_Cons: "b \<noteq> NL \<Longrightarrow> at_line (b # s) line data \<longleftrightarrow> (\<exists>line'. line = b # line' \<and> at_line s line' data)"
proof
  assume "b \<noteq> NL" and "at_line (b # s) line data"
  then obtain w where "NL \<notin> set w" "line = w @ [NL]" "b # s = line @ data" by (auto simp: at_line_def)
  with \<open>b \<noteq> NL\<close> show "\<exists>line'. line = b # line' \<and> at_line s line' data" by (cases w) (auto simp: at_line_def)
next
  assume "b \<noteq> NL" and "\<exists>line'. line = b # line' \<and> at_line s line' data"
  then obtain w where "NL \<notin> set w" "line = b # w @ [NL]" "s = w @ [NL] @ data" by (auto simp: at_line_def)
  then show "at_line (b # s) line data" unfolding at_line_def using \<open>b \<noteq> NL\<close> by (intro exI [of _ "b # w"]) auto
qed

lemma at_line_NL: "at_line (NL # s) line data \<longleftrightarrow> line = [NL] \<and> data = s"
proof
  assume "at_line (NL # s) line data"
  then obtain w where "NL \<notin> set w" "line = w @ [NL]" "NL # s = line @ data" by (auto simp: at_line_def)
  then show "line = [NL] \<and> data = s" by (cases w) auto
qed (auto simp: at_line_def)

lemma at_line_nonempty: "at_line s line data \<Longrightarrow> line \<noteq> []"
  by (auto simp: at_line_def)

lemma readLine_at:
  assumes "at_line s line data" and "\<not> sublist [CR, NL] s"
  shows "readLine s = (CsvLine line, data)"
proof -
  obtain w where w: "NL \<notin> set w" "line = w @ [NL]" "s = w @ NL # data" using assms(1) by (auto simp: at_line_def)
  have "takeWhile (\<lambda>b. b \<noteq> NL) s = w" "dropWhile (\<lambda>b. b \<noteq> NL) s = NL # data" using w(1) unfolding w(3) by (induction w) auto
  then have "ReadString s = (True, line, data)" using w by (simp add: ReadString_def)
  moreover have "\<not> suffix [CR, NL] line"
  proof
    assume "suffix [CR, NL] line"
    then obtain a where "line = a @ [CR, NL]" by (auto simp: suffix_def)
    then have "s = a @ [CR, NL] @ data" using w by auto
    then show False using assms(2) unfolding sublist_def by blast
  qed
  ultimately show ?thesis by (simp add: readLine_def normalize_line_def)
qed

lemma at_line_exists: "NL \<in> set s \<Longrightarrow> \<exists>line data. at_line s line data"
  using split_list_first [of NL s] by (fastforce simp: at_line_def)

lemma clean_suffix: "\<not> sublist [CR, NL] (a @ s) \<Longrightarrow> \<not> sublist [CR, NL] s"
  using sublist_order.order_trans [of "[CR, NL]" s "a @ s"] suffix_imp_sublist [of s "a @ s"] by auto

section \<open>Fields\<close>

definition csv_delimiter_ok :: "byte \<Rightarrow> bool" where
  "csv_delimiter_ok d \<longleftrightarrow> d \<notin> {Quote, NL, CR}"

definition doubled :: "gostring \<Rightarrow> gostring" where
  "doubled v = concat (map (\<lambda>b. if b = Quote then [Quote, b] else [b]) v)"

lemma doubled_simps [simp]:
  "doubled [] = []" "doubled (b # v) = (if b = Quote then Quote # Quote # doubled v else b # doubled v)"
  by (simp_all add: doubled_def)

text \<open>The loop on a byte that is no quote, on a doubled quote, at the end of a line, and at the closing quote.\<close>

lemma quoted_byte:
  assumes "b \<noteq> Quote" and "line \<noteq> []"
  shows "quoted_loop dl field (b # line) raw data = quoted_loop dl (field @ [b]) line raw data"
  using assms by (subst (1 2) quoted_loop.simps) (simp split: prod.split csv_line.split)

lemma quoted_double:
  "dl \<noteq> [] \<Longrightarrow> hd dl \<noteq> Quote \<Longrightarrow>
    quoted_loop dl field (Quote # Quote # line) raw data = quoted_loop dl (field @ [Quote]) line raw data"
  by (subst quoted_loop.simps) (cases dl; simp add: Let_def)

lemma quoted_line_end:
  "readLine data = (CsvLine line', rest) \<Longrightarrow>
    quoted_loop dl field [NL] raw data = quoted_loop dl (field @ [NL]) line' (raw @ line') rest"
  by (subst quoted_loop.simps) simp

lemma quoted_close:
  "quoted_loop [d] field (Quote # d # line) raw data = (Inr (field, Some line, raw), data)"
  "d \<noteq> NL \<Longrightarrow> quoted_loop [d] field [Quote, NL] raw data = (Inr (field, None, raw), data)"
  by (subst quoted_loop.simps; simp add: Let_def lengthNL_def)+

lemma quoted_value:
  assumes "csv_delimiter_ok d" and "at_line (doubled v @ Quote # t) line data" and "\<not> sublist [CR, NL] (doubled v @ Quote # t)"
    and "NL \<in> set t"
  shows "(\<forall>t'. t = d # t' \<longrightarrow> (\<exists>line' raw' data'. quoted_loop [d] field line raw data = (Inr (field @ v, Some line', raw'), data') \<and>
      at_line t' line' data')) \<and>
    (\<forall>t'. t = NL # t' \<longrightarrow> (\<exists>raw'. quoted_loop [d] field line raw data = (Inr (field @ v, None, raw'), t')))"
  using assms(2,3)
proof (induction v arbitrary: field line raw data)
  case Nil
  then show ?case using assms(1) by (auto simp: at_line_Cons at_line_NL csv_delimiter_ok_def quoted_close)
next
  case (Cons b v)
  have d: "[d] \<noteq> []" "hd [d] \<noteq> Quote" using assms(1) by (auto simp: csv_delimiter_ok_def)
  have clean: "\<not> sublist [CR, NL] (doubled v @ Quote # t)"
    using clean_suffix [of "[b]" "doubled v @ Quote # t"] clean_suffix [of "[b, b]" "doubled v @ Quote # t"] Cons.prems(2) by (auto split: if_splits)
  consider "b = Quote" | "b = NL" | "b \<noteq> Quote" "b \<noteq> NL" by blast
  then show ?case
  proof cases
    case 1
    then obtain l where l: "line = Quote # Quote # l" "at_line (doubled v @ Quote # t) l data"
      using Cons.prems(1) by (auto simp: at_line_Cons)
    show ?thesis using Cons.IH [OF l(2) clean, of "field @ [Quote]" raw] by (simp add: l(1) quoted_double [OF d] 1)
  next
    case 2
    then have l: "line = [NL]" "data = doubled v @ Quote # t" using Cons.prems(1) by (auto simp: at_line_NL)
    obtain line' rest where following: "at_line (doubled v @ Quote # t) line' rest"
      using at_line_exists [of "doubled v @ Quote # t"] assms(4) by auto
    have "quoted_loop [d] field line raw data = quoted_loop [d] (field @ [NL]) line' (raw @ line') rest"
      unfolding l by (rule quoted_line_end [OF readLine_at [OF following clean]])
    then show ?thesis using Cons.IH [OF following clean, of "field @ [NL]" "raw @ line'"] 2 by simp
  next
    case 3
    then obtain l where l: "line = b # l" "at_line (doubled v @ Quote # t) l data"
      using Cons.prems(1) by (auto simp: at_line_Cons)
    show ?thesis using Cons.IH [OF l(2) clean, of "field @ [b]" raw] by (simp add: l(1) quoted_byte [OF 3(1) at_line_nonempty [OF l(2)]])
  qed
qed

lemma at_line_append: "NL \<notin> set f \<Longrightarrow> at_line (f @ t) line data \<longleftrightarrow> (\<exists>l. line = f @ l \<and> at_line t l data)"
  by (induction f arbitrary: line) (auto simp: at_line_Cons)

lemma cut_at_field: "d \<notin> set f \<Longrightarrow> cut_at [d] (f @ d # l) = Some (f, l)" "d \<notin> set f \<Longrightarrow> d \<noteq> NL \<Longrightarrow> cut_at [d] (f @ [NL]) = None"
  by (induction f) auto

definition csv_field :: "CsvDataWriter \<Rightarrow> bool \<Rightarrow> gostring option \<Rightarrow> gostring" where
  "csv_field cdw single val = (case val of None \<Rightarrow> [] | Some v \<Rightarrow> writeField cdw v single)"

text \<open>A field as it is written: bare, or quoted.\<close>

definition bare_field :: "byte \<Rightarrow> gostring \<Rightarrow> gostring option \<Rightarrow> bool" where
  "bare_field d f val \<longleftrightarrow> set f \<inter> {Quote, NL, CR, d} = {} \<and> val = (if f = [] then None else Some f)"

lemma csv_field_form:
  assumes "cdw_delimiterChar cdw = [d]"
  shows "bare_field d (csv_field cdw single val) val \<or> (\<exists>v. csv_field cdw single val = Quote # doubled v @ [Quote] \<and> val = Some v)"
proof (cases val)
  case None
  then show ?thesis by (simp add: csv_field_def bare_field_def)
next
  case (Some v)
  show ?thesis
  proof (cases "needsQuoting cdw v single")
    case True
    then show ?thesis using Some by (simp add: csv_field_def writeField_def doubled_def)
  next
    case False
    then show ?thesis using Some assms
      by (auto simp: csv_field_def writeField_def bare_field_def needsQuoting_def Let_def split: if_splits)
  qed
qed

lemma csv_fields_bare:
  assumes "csv_delimiter_ok d" and "bare_field d f val"
  shows "csv_fields [d] fvals (f @ d # line) raw data = csv_fields [d] (fvals @ [val]) line raw data"
    and "csv_fields [d] fvals (f @ [NL]) raw data = (Inr (fvals @ [val]), data)"
proof -
  have d: "d \<noteq> NL" "d \<noteq> Quote" "d \<notin> set f" using assms by (auto simp: csv_delimiter_ok_def bare_field_def)
  have hd: "f @ t \<noteq> [] \<Longrightarrow> hd t \<noteq> Quote \<Longrightarrow> hd (f @ t) \<noteq> Quote" for t using assms(2) by (cases f) (auto simp: bare_field_def)
  have p: "parseField [d] (f @ d # line) = (f, Some line)" "parseField [d] (f @ [NL]) = (f, None)"
    using cut_at_field [OF d(3)] d(1) by (auto simp: parseField_def lengthNL_def)
  have val: "val = (if f = [] then None else Some f)" using assms(2) by (simp add: bare_field_def)
  show "csv_fields [d] fvals (f @ d # line) raw data = csv_fields [d] (fvals @ [val]) line raw data"
    using hd [of "d # line"] d(2) unfolding val by (subst csv_fields.simps) (simp add: p)
  show "csv_fields [d] fvals (f @ [NL]) raw data = (Inr (fvals @ [val]), data)"
    using hd [of "[NL]"] unfolding val by (subst csv_fields.simps) (simp add: p)
qed

lemma csv_fields_quoted:
  "quoted_loop dl [] line raw data = (Inr (v, Some line', raw'), data') \<Longrightarrow>
    csv_fields dl fvals (Quote # line) raw data = csv_fields dl (fvals @ [Some v]) line' raw' data'"
  "quoted_loop dl [] line raw data = (Inr (v, None, raw'), data') \<Longrightarrow>
    csv_fields dl fvals (Quote # line) raw data = (Inr (fvals @ [Some v]), data')"
  by (subst csv_fields.simps; simp)+

text \<open>A written field with a delimiter behind it, and one at the end of the record.\<close>

lemma csv_fields_delimiter:
  assumes ok: "csv_delimiter_ok d" "cdw_delimiterChar cdw = [d]" and nl: "NL \<in> set t"
    and at: "at_line (csv_field cdw single val @ d # t) line data" and clean: "\<not> sublist [CR, NL] (csv_field cdw single val @ d # t)"
  shows "\<exists>line' raw' data'. at_line t line' data' \<and>
    csv_fields [d] fvals line raw data = csv_fields [d] (fvals @ [val]) line' raw' data'"
proof (cases "bare_field d (csv_field cdw single val) val")
  case True
  then have "NL \<notin> set (csv_field cdw single val)" by (auto simp: bare_field_def)
  then obtain l where "line = csv_field cdw single val @ d # l" "at_line t l data"
    using at ok(1) by (auto simp: at_line_append at_line_Cons csv_delimiter_ok_def)
  then show ?thesis using csv_fields_bare(1) [OF ok(1) True, of fvals l raw data] by blast
next
  case False
  then obtain v where v: "csv_field cdw single val = Quote # doubled v @ [Quote]" "val = Some v" using csv_field_form [OF ok(2)] by blast
  then obtain l where l: "line = Quote # l" "at_line (doubled v @ Quote # d # t) l data" using at by (auto simp: at_line_Cons)
  have "\<not> sublist [CR, NL] (doubled v @ Quote # d # t)" using clean_suffix [of "[Quote]" "doubled v @ Quote # d # t"] clean [unfolded v(1)] by simp
  from quoted_value [OF ok(1) l(2) this, of "[]" raw] nl obtain line' raw' data' where
    "quoted_loop [d] [] l raw data = (Inr (v, Some line', raw'), data')" "at_line t line' data'" by auto
  then show ?thesis using csv_fields_quoted(1) [of "[d]" l raw data v line' raw' data' fvals] l(1) v(2) by blast
qed

lemma csv_fields_last:
  assumes ok: "csv_delimiter_ok d" "cdw_delimiterChar cdw = [d]"
    and at: "at_line (csv_field cdw single val @ NL # t) line data" and clean: "\<not> sublist [CR, NL] (csv_field cdw single val @ NL # t)"
  shows "csv_fields [d] fvals line raw data = (Inr (fvals @ [val]), t)"
proof (cases "bare_field d (csv_field cdw single val) val")
  case True
  then have "NL \<notin> set (csv_field cdw single val)" by (auto simp: bare_field_def)
  then have "line = csv_field cdw single val @ [NL]" "data = t" using at by (auto simp: at_line_append at_line_NL)
  then show ?thesis using csv_fields_bare(2) [OF ok(1) True, of fvals raw data] by simp
next
  case False
  then obtain v where v: "csv_field cdw single val = Quote # doubled v @ [Quote]" "val = Some v" using csv_field_form [OF ok(2)] by blast
  then obtain l where l: "line = Quote # l" "at_line (doubled v @ Quote # NL # t) l data" using at by (auto simp: at_line_Cons)
  have "\<not> sublist [CR, NL] (doubled v @ Quote # NL # t)" using clean_suffix [of "[Quote]" "doubled v @ Quote # NL # t"] clean [unfolded v(1)] by simp
  from quoted_value [OF ok(1) l(2) this, of "[]" raw] obtain raw' where
    "quoted_loop [d] [] l raw data = (Inr (v, None, raw'), t)" by auto
  then show ?thesis using csv_fields_quoted(2) [of "[d]" l raw data v raw' t fvals] l(1) v(2) by simp
qed

lemma csv_fields_written:
  assumes ok: "csv_delimiter_ok d" "cdw_delimiterChar cdw = [d]" and "vals \<noteq> []"
    and "at_line (delimited [d] (map (csv_field cdw single) vals) @ NL # rest) line data"
    and "\<not> sublist [CR, NL] (delimited [d] (map (csv_field cdw single) vals) @ NL # rest)"
  shows "csv_fields [d] fvals line raw data = (Inr (fvals @ vals), rest)"
  using assms(3-5)
proof (induction vals arbitrary: fvals line raw data rule: induct_list012)
  case (2 val)
  then show ?case using csv_fields_last [OF ok, of single val rest line data] by simp
next
  case (3 val val' vals)
  let ?t = "delimited [d] (map (csv_field cdw single) (val' # vals)) @ NL # rest"
  have s: "delimited [d] (map (csv_field cdw single) (val # val' # vals)) @ NL # rest = csv_field cdw single val @ d # ?t" by simp
  obtain line' raw' data' where step: "at_line ?t line' data'"
    "csv_fields [d] fvals line raw data = csv_fields [d] (fvals @ [val]) line' raw' data'"
    using csv_fields_delimiter [OF ok, of ?t single val line data fvals raw] "3.prems"(2,3) unfolding s by auto
  have "\<not> sublist [CR, NL] ?t"
    using clean_suffix [of "csv_field cdw single val @ [d]" ?t] "3.prems"(3) unfolding s by simp
  then show ?case using "3.IH"(2) [of line' data' "fvals @ [val]" raw'] step by simp
qed simp

end
