(* ===== verification/Copy_Csv_Round.thy ===== *)
theory Copy_Csv_Round
  imports Copy_Csv_Props
begin

text \<open>
  The CSV format round trip: the rows that \<open>COPY TO\<close> writes have no line ending of two bytes, so that the reader finds their
  fields again, in every chunk that holds whole rows.
\<close>

section \<open>Line endings\<close>

definition no_crlf :: "byte list \<Rightarrow> bool" where
  "no_crlf s \<longleftrightarrow> successively (\<lambda>x y. x = CR \<longrightarrow> y \<noteq> NL) s"

lemma no_crlf_iff: "no_crlf s \<longleftrightarrow> \<not> sublist [CR, NL] s"
proof (induction s rule: induct_list012)
  case (3 x y zs)
  then show ?case by (auto simp: no_crlf_def sublist_Cons_right)
qed (auto simp: no_crlf_def sublist_Cons_right)

lemma no_crlf_append: "no_crlf x \<Longrightarrow> no_crlf y \<Longrightarrow> x = [] \<or> last x \<noteq> CR \<Longrightarrow> no_crlf (x @ y)"
  by (auto simp: no_crlf_def successively_append_iff)

lemma no_crlf_no_CR: "CR \<notin> set s \<Longrightarrow> no_crlf s"
  unfolding no_crlf_def by (induction s rule: induct_list012) auto

lemma no_crlf_doubled: "no_crlf v \<Longrightarrow> no_crlf (doubled v)"
proof (induction v)
  case (Cons b v)
  have tail: "no_crlf v" using Cons.prems by (cases v) (auto simp: no_crlf_def)
  have hd: "v \<noteq> [] \<Longrightarrow> doubled v \<noteq> [] \<and> hd (doubled v) = hd v" by (cases v) auto
  show ?case using Cons.IH [OF tail] Cons.prems hd by (cases v) (auto simp: no_crlf_def successively_Cons)
qed (simp add: no_crlf_def)

definition csv_value_ok :: "gostring option list \<Rightarrow> bool" where
  "csv_value_ok vals \<longleftrightarrow> (\<forall>val \<in> set vals. case val of None \<Rightarrow> True | Some v \<Rightarrow> no_crlf v)"

lemma csv_field_no_crlf:
  assumes "cdw_delimiterChar cdw = [d]" and "case val of None \<Rightarrow> True | Some v \<Rightarrow> no_crlf v"
  shows "no_crlf (csv_field cdw single val)" and "csv_field cdw single val = [] \<or> last (csv_field cdw single val) \<noteq> CR"
proof -
  have quoted: "no_crlf (Quote # doubled v @ [Quote])" if "no_crlf v" for v
    using no_crlf_doubled [OF that] by (auto simp: no_crlf_def successively_Cons successively_append_iff)
  show "no_crlf (csv_field cdw single val)"
    using csv_field_form [OF assms(1), of single val] assms(2) quoted no_crlf_no_CR [of "csv_field cdw single val"]
    by (auto simp: bare_field_def)
  show "csv_field cdw single val = [] \<or> last (csv_field cdw single val) \<noteq> CR"
  proof (cases "bare_field d (csv_field cdw single val) val")
    case True
    then have "CR \<notin> set (csv_field cdw single val)" by (auto simp: bare_field_def)
    then show ?thesis by (metis last_in_set)
  next
    case False
    then show ?thesis using csv_field_form [OF assms(1), of single val] by auto
  qed
qed

lemma csv_line_no_crlf:
  assumes "csv_delimiter_ok d" and "cdw_delimiterChar cdw = [d]" and "csv_value_ok vals"
  shows "no_crlf (delimited [d] (map (csv_field cdw single) vals)) \<and>
    (delimited [d] (map (csv_field cdw single) vals) = [] \<or> last (delimited [d] (map (csv_field cdw single) vals)) \<noteq> CR)"
  using assms(3)
proof (induction vals rule: induct_list012)
  case (2 val)
  then show ?case using csv_field_no_crlf [OF assms(2), of val single] by (auto simp: csv_value_ok_def)
next
  case (3 val val' vals)
  have f: "case val of None \<Rightarrow> True | Some v \<Rightarrow> no_crlf v" and ok: "csv_value_ok (val' # vals)" using "3.prems" by (auto simp: csv_value_ok_def)
  have d: "d \<noteq> CR" using assms(1) by (simp add: csv_delimiter_ok_def)
  have "no_crlf (d # delimited [d] (map (csv_field cdw single) (val' # vals)))"
    using "3.IH"(2) [OF ok] d no_crlf_append [of "[d]"] by (auto simp: no_crlf_def)
  from no_crlf_append [OF csv_field_no_crlf(1) [OF assms(2) f, of single] this csv_field_no_crlf(2) [OF assms(2) f, of single]]
  show ?case using "3.IH"(2) [OF ok] d by auto
qed (simp add: no_crlf_def)

section \<open>Rows\<close>

lemma csv_WriteRow_fields:
  "cdw_delimiterChar cdw = [d] \<Longrightarrow>
    csv_WriteRow cdw vals = Inr (delimited [d] (map (csv_field cdw (length vals = 1)) vals) @ [NL])"
  by (simp only: csv_WriteRow_def csv_field_def [abs_def])

text \<open>The loader at the start of a row of a chunk.\<close>

definition csv_pair :: "byte \<Rightarrow> 'v CsvDataLoader \<Rightarrow> CsvDataWriter \<Rightarrow> bool" where
  "csv_pair d cdl cdw \<longleftrightarrow> csv_delimiter_ok d \<and> csv_delimiter cdl = [d] \<and> cdw_delimiterChar cdw = [d] \<and>
     csv_columns cdl \<noteq> [] \<and> \<not> csv_removeHeader cdl"

definition csv_ready :: "byte \<Rightarrow> 'v CsvDataLoader \<Rightarrow> bool" where
  "csv_ready d cdl \<longleftrightarrow> \<not> csv_isDone (csv_reader cdl) \<and> delim (csv_reader cdl) = [d] \<and>
     singleColumn (csv_reader cdl) = (length (csv_columns cdl) = 1) \<and>
     fieldsPerRecord (csv_reader cdl) \<in> {0, length (csv_columns cdl)} \<and> csv_partialRecord cdl = []"

lemma delimited_hd:
  assumes "csv_delimiter_ok d" and "cdw_delimiterChar cdw = [d]" and "length vals \<noteq> 1" and "vals \<noteq> []"
  shows "\<exists>b s. delimited [d] (map (csv_field cdw single) vals) = b # s \<and> b \<noteq> NL"
proof -
  obtain val val' vals' where vals: "vals = val # val' # vals'" using assms(3,4) by (cases vals; cases "tl vals") auto
  show ?thesis using csv_field_form [OF assms(2), of single val] assms(1)
    by (cases "csv_field cdw single val") (auto simp: vals bare_field_def csv_delimiter_ok_def)
qed

lemma csvReadRecords_written:
  assumes ok: "csv_delimiter_ok d" "cdw_delimiterChar cdw = [d]" and "vals \<noteq> []" and "delim csvr = [d]"
    and "singleColumn csvr = (length vals = 1)" and "fieldsPerRecord csvr \<in> {0, length vals}"
    and "csv_WriteRow cdw vals = Inr data" and "no_crlf (data @ rest)"
  shows "csvReadRecords csvr (data @ rest) = (Inr vals, csvr\<lparr>fieldsPerRecord := length vals\<rparr>, rest)"
proof -
  let ?s = "delimited [d] (map (csv_field cdw (length vals = 1)) vals) @ NL # rest"
  have s: "data @ rest = ?s" using assms(7) csv_WriteRow_fields [OF ok(2), of vals] by auto
  obtain line data' where at: "at_line ?s line data'" using at_line_exists [of ?s] by auto
  have clean: "\<not> sublist [CR, NL] ?s" using assms(8) unfolding s no_crlf_iff .
  have "\<not> (length line = lengthNL line \<and> length vals \<noteq> 1)"
  proof
    assume *: "length line = lengthNL line \<and> length vals \<noteq> 1"
    then obtain b t where "delimited [d] (map (csv_field cdw (length vals = 1)) vals) = b # t" "b \<noteq> NL"
      using delimited_hd [OF ok _ assms(3)] by metis
    then show False using at * by (auto simp: at_line_Cons lengthNL_def at_line_nonempty split: if_splits dest: at_line_nonempty)
  qed
  then have "record_line (singleColumn csvr) (data @ rest) = (Inr line, data')"
    using readLine_at [OF at clean] assms(5) unfolding s by (subst record_line.simps) auto
  moreover have "csv_fields [d] [] line line data' = (Inr vals, rest)"
    using csv_fields_written [OF ok assms(3) at clean, of "[]" line] by simp
  moreover have "csvr\<lparr>fieldsPerRecord := length vals\<rparr> = csvr" if "fieldsPerRecord csvr = length vals" using that by (cases csvr) simp
  ultimately show ?thesis using assms(3,4,6) by (auto simp: csvReadRecords_def)
qed

lemma csv_Next_written:
  assumes pair: "csv_pair d cdl cdw" and ready: "csv_ready d cdl" and len: "length vals = length (csv_columns cdl)"
    and input: "input_row (csv_columns cdl) vals = Inr row" and unmarked: "vals \<noteq> [Some end_marker]"
    and row: "csv_WriteRow cdw vals = Inr data" and clean: "no_crlf (data @ rest)"
  shows "\<exists>cdl'. csv_Next cdl (data @ rest) = (Inr row, cdl', rest) \<and> csv_ready d cdl' \<and>
    cdl' = cdl\<lparr>csv_RowsLoaded := csv_RowsLoaded cdl + 1, csv_reader := csv_reader cdl'\<rparr>"
proof -
  let ?csvr = "(csv_reader cdl)\<lparr>fieldsPerRecord := length vals\<rparr>"
  let ?cdl = "cdl\<lparr>csv_RowsLoaded := csv_RowsLoaded cdl + 1, csv_reader := ?csvr\<rparr>"
  have "csvReadRecords (csv_reader cdl) (data @ rest) = (Inr vals, ?csvr, rest)"
    by (rule csvReadRecords_written [where d = d and cdw = cdw]) (use pair ready len row clean in \<open>auto simp: csv_pair_def csv_ready_def\<close>)
  then have "csv_record cdl (data @ rest) = (Inr (Some row), cdl\<lparr>csv_reader := ?csvr\<rparr>, rest)"
    using ready len input unmarked by (simp add: csv_record_def ReadSqlRow_def csv_ready_def check_columns_def)
  then have "csv_Next cdl (data @ rest) = (Inr row, ?cdl, rest)"
    using pair by (simp add: csv_Next_def csv_nextRow_def csv_pair_def)
  moreover have "csv_ready d ?cdl" using ready len by (simp add: csv_ready_def)
  ultimately show ?thesis by (intro exI [of _ ?cdl]) simp
qed

definition csv_row_ok :: "'v CsvDataLoader \<Rightarrow> gostring option list \<Rightarrow> bool" where
  "csv_row_ok cdl row \<longleftrightarrow> length row = length (csv_columns cdl) \<and> csv_value_ok row \<and> row \<noteq> [Some end_marker]"

lemma csv_rows_no_crlf:
  assumes "csv_pair d cdl cdw" and "write_rows (csv_WriteRow cdw) rows = Inr body" and "\<forall>row \<in> set rows. csv_row_ok cdl row"
  shows "no_crlf (concat body)"
  using assms(2,3)
proof (induction rows arbitrary: body)
  case Nil
  then show ?case by (simp add: no_crlf_def)
next
  case (Cons row rows)
  let ?line = "delimited [d] (map (csv_field cdw (length row = 1)) row)"
  have d: "csv_delimiter_ok d" "cdw_delimiterChar cdw = [d]" using assms(1) by (auto simp: csv_pair_def)
  obtain body' where body: "write_rows (csv_WriteRow cdw) rows = Inr body'" "body = (?line @ [NL]) # body'"
    using Cons.prems(1) csv_WriteRow_fields [OF d(2), of row] by (auto split: sum.splits)
  have "no_crlf (?line @ NL # concat body')"
    using no_crlf_append [of ?line "NL # concat body'"] no_crlf_append [of "[NL]" "concat body'"] Cons.IH [OF body(1)] Cons.prems(2)
      csv_line_no_crlf [OF d, of row "length row = 1"] by (auto simp: csv_row_ok_def no_crlf_def)
  then show ?case by (simp add: body(2))
qed

lemma csv_Next_end:
  assumes "csv_pair d cdl cdw" and "csv_ready d cdl"
  shows "\<exists>csvr. csv_Next cdl [] = (Inl EndOfFile, cdl\<lparr>csv_reader := csvr\<rparr>, [])"
proof -
  have "record_line (singleColumn (csv_reader cdl)) [] = (Inl CsvEnd, [])"
    by (subst record_line.simps) (simp add: readLine_def ReadString_def)
  then have "csv_record cdl [] = (Inr None, cdl\<lparr>csv_reader := (csv_reader cdl)\<lparr>csv_isDone := True\<rparr>, csv_partialRecord := []\<rparr>, [])"
    using assms(2) by (simp add: csv_record_def ReadSqlRow_def csvReadRecords_def csv_ready_def)
  moreover have "cdl\<lparr>csv_reader := r, csv_partialRecord := []\<rparr> = cdl\<lparr>csv_reader := r\<rparr>" for r
    using assms(2) by (cases cdl) (simp add: csv_ready_def)
  ultimately show ?thesis using assms(1) by (auto simp: csv_Next_def csv_nextRow_def csv_pair_def)
qed

lemma csv_chunk_written:
  assumes "csv_pair d cdl cdw" and "csv_ready d cdl" and "write_rows (csv_WriteRow cdw) rows = Inr body"
    and "\<forall>row \<in> set rows. csv_row_ok cdl row" and "map (input_row (csv_columns cdl)) rows = map Inr vals"
  shows "\<exists>csvr. drain csv_Next (Suc (length (concat body))) cdl (concat body) =
    Some (vals, EndOfFile, cdl\<lparr>csv_RowsLoaded := csv_RowsLoaded cdl + of_nat (length rows), csv_reader := csvr\<rparr>)"
  using assms
proof (induction rows arbitrary: body vals cdl)
  case Nil
  then obtain csvr where "csv_Next cdl [] = (Inl EndOfFile, cdl\<lparr>csv_reader := csvr\<rparr>, [])" using csv_Next_end by blast
  then show ?case using Nil.prems by auto
next
  case (Cons row rows)
  then obtain data body' where body: "csv_WriteRow cdw row = Inr data" "write_rows (csv_WriteRow cdw) rows = Inr body'" "body = data # body'"
    by (auto split: sum.splits)
  from Cons.prems(5) obtain v vals' where vals: "vals = v # vals'" "input_row (csv_columns cdl) row = Inr v" by (cases vals) auto
  have clean: "no_crlf (data @ concat body')" using csv_rows_no_crlf [OF Cons.prems(1,3,4)] by (simp add: body(3))
  obtain cdl' where nx: "csv_Next cdl (concat body) = (Inr v, cdl', concat body')" and ready: "csv_ready d cdl'"
    and cdl': "cdl' = cdl\<lparr>csv_RowsLoaded := csv_RowsLoaded cdl + 1, csv_reader := csv_reader cdl'\<rparr>"
    using csv_Next_written [OF Cons.prems(1,2) _ vals(2) _ body(1) clean] Cons.prems(4) by (auto simp: csv_row_ok_def body(3))
  have same: "csv_columns cdl' = csv_columns cdl" "csv_delimiter cdl' = csv_delimiter cdl" "csv_removeHeader cdl' = csv_removeHeader cdl"
    "csv_RowsLoaded cdl' = csv_RowsLoaded cdl + 1" by (subst cdl', simp)+
  have "\<exists>csvr. drain csv_Next (Suc (length (concat body'))) cdl' (concat body') =
      Some (vals', EndOfFile, cdl'\<lparr>csv_RowsLoaded := csv_RowsLoaded cdl' + of_nat (length rows), csv_reader := csvr\<rparr>)"
    by (rule Cons.IH) (use body(2) Cons.prems vals(1) ready same in \<open>auto simp: csv_pair_def csv_row_ok_def\<close>)
  moreover have "cdl'\<lparr>csv_RowsLoaded := n, csv_reader := r\<rparr> = cdl\<lparr>csv_RowsLoaded := n, csv_reader := r\<rparr>" for n r
    by (subst cdl') simp
  ultimately show ?case unfolding csv.drain_row [OF nx] using same(4) by (auto simp: vals(1) add.assoc)
qed

section \<open>Messages\<close>

text \<open>The data starts with a byte order mark of UTF-8 or UTF-16.\<close>

definition has_bom :: "byte list \<Rightarrow> bool" where
  "has_bom data \<longleftrightarrow> prefix [0xEF, 0xBB, 0xBF] data \<or> prefix [0xFE, 0xFF] data \<or> prefix [0xFF, 0xFE] data"

lemma write_rows_append:
  "write_rows w rows = Inr (a @ b) \<Longrightarrow> \<exists>r1 r2. rows = r1 @ r2 \<and> write_rows w r1 = Inr a \<and> write_rows w r2 = Inr b"
proof (induction a arbitrary: rows)
  case Nil
  then show ?case by (intro exI [of _ "[]"] exI [of _ rows]) simp
next
  case (Cons x a)
  then obtain row rows' where rows: "rows = row # rows'" "w row = Inr x" "write_rows w rows' = Inr (a @ b)"
    by (cases rows) (auto split: sum.splits)
  from Cons.IH [OF rows(3)] obtain r1 r2 where "rows' = r1 @ r2" "write_rows w r1 = Inr a" "write_rows w r2 = Inr b" by blast
  then show ?case using rows by (intro exI [of _ "row # r1"] exI [of _ r2]) simp
qed

lemma csv_messages_written:
  assumes "csv_pair d cdl cdw" and "csv_partialRecord cdl = []" and "write_rows (csv_WriteRow cdw) rows = Inr (concat groups)"
    and "\<forall>row \<in> set rows. csv_row_ok cdl row" and "map (input_row (csv_columns cdl)) rows = map Inr vals"
    and bom: "\<forall>data. \<not> has_bom data \<longrightarrow> bom data = data" and "\<forall>g \<in> set groups. \<not> has_bom (concat g)"
  shows "\<exists>csvr. load_chunks (csv_RowIter bom) csv_Next cdl (map concat groups) =
    Some (vals, EndOfFile, cdl\<lparr>csv_RowsLoaded := csv_RowsLoaded cdl + of_nat (length rows), csv_reader := csvr\<rparr>)"
  using assms(1-5,7)
proof (induction groups arbitrary: rows vals cdl)
  case Nil
  then have "rows = []" by (cases rows) (auto split: sum.splits)
  then show ?case using Nil.prems(5) by (cases cdl) auto
next
  case (Cons g groups)
  obtain r1 r2 where r: "rows = r1 @ r2" "write_rows (csv_WriteRow cdw) r1 = Inr g" "write_rows (csv_WriteRow cdw) r2 = Inr (concat groups)"
    using write_rows_append [of "csv_WriteRow cdw" rows g "concat groups"] Cons.prems(3) by auto
  let ?vals = "take (length r1) vals" and ?vals' = "drop (length r1) vals"
  have "length vals = length rows" using Cons.prems(5) by (metis length_map)
  then have vals: "map (input_row (csv_columns cdl)) r1 = map Inr ?vals" "map (input_row (csv_columns cdl)) r2 = map Inr ?vals'"
    using Cons.prems(5) unfolding r(1) by (auto simp: take_map drop_map dest: arg_cong [where f = "take (length r1)"] arg_cong [where f = "drop (length r1)"])
  obtain c where iter: "csv_RowIter bom cdl (concat g) = (c, concat g)"
    and c: "c = cdl\<lparr>csv_partialRecord := [], csv_reader := newCsvReaderWithDelimiter [d] (length (csv_columns cdl) = 1)\<rparr>"
    using bom Cons.prems(1,2,6) by (simp add: csv_RowIter_def csv_pair_def)
  have cdl: "c\<lparr>csv_RowsLoaded := n, csv_reader := q\<rparr> = cdl\<lparr>csv_RowsLoaded := n, csv_reader := q\<rparr>" for n q
    using Cons.prems(2) by (cases cdl) (simp add: c)
  have pair: "csv_pair d c cdw" "csv_ready d c" using Cons.prems(1) by (auto simp: csv_pair_def csv_ready_def c newCsvReaderWithDelimiter_def)
  have "csv_row_ok c = csv_row_ok cdl" "csv_columns c = csv_columns cdl" "csv_RowsLoaded c = csv_RowsLoaded cdl"
    by (auto simp: csv_row_ok_def c fun_eq_iff)
  then obtain csvr where "drain csv_Next (Suc (length (concat g))) c (concat g) =
      Some (?vals, EndOfFile, c\<lparr>csv_RowsLoaded := csv_RowsLoaded cdl + of_nat (length r1), csv_reader := csvr\<rparr>)"
    using csv_chunk_written [OF pair r(2), of ?vals] vals(1) Cons.prems(4) r(1) by auto
  then have first: "load_chunk (csv_RowIter bom) csv_Next cdl (concat g) =
      Some (?vals, EndOfFile, cdl\<lparr>csv_RowsLoaded := csv_RowsLoaded cdl + of_nat (length r1), csv_reader := csvr\<rparr>)"
    unfolding load_chunk_def iter prod.case cdl .
  let ?c = "cdl\<lparr>csv_RowsLoaded := csv_RowsLoaded cdl + of_nat (length r1), csv_reader := csvr\<rparr>"
  have "\<exists>csvr. load_chunks (csv_RowIter bom) csv_Next ?c (map concat groups) =
      Some (?vals', EndOfFile, ?c\<lparr>csv_RowsLoaded := csv_RowsLoaded ?c + of_nat (length r2), csv_reader := csvr\<rparr>)"
    by (rule Cons.IH) (use Cons.prems r vals in \<open>auto simp: csv_pair_def csv_row_ok_def\<close>)
  then show ?case using first by (auto simp: r(1) add.assoc)
qed

text \<open>C22. What a CSV \<open>COPY TO\<close> without a header line sends, a new loader of a CSV \<open>COPY FROM\<close> for the same columns, also
  without a header line, loads. Both have the same delimiter of one byte, which is no quote, carriage return or newline;
  there is at least one column, every row has one value or NULL per column and the columns' input functions accept the
  values; every message holds whole rows, as the messages of \<open>COPY TO\<close> do, and none starts with a byte order mark
  (the reader's removal of the mark leaves other data alone); no value holds a carriage return directly before a newline,
  and the only value of a row is not the end marker. Then the loader returns every row with its values, which may hold
  delimiters, quotes and newlines, tells NULLs from empty strings, and \<open>Finish\<close> reports the number of rows.\<close>

theorem csv_round_trip:
  assumes "NewCsvDataLoader index sch colNames [d] False = Inr cdl" and "csv_delimiter_ok d" and "colNames \<noteq> []"
    and "cdw = NewCsvDataWriter colNames [d] False"
    and "copy_to (csv_WriteHeader cdw) (csv_WriteRow cdw) (csv_WriteFooter cdw) rows = Inr (concat groups)"
    and "\<forall>row \<in> set rows. csv_row_ok cdl row" and "map (input_row (csv_columns cdl)) rows = map Inr vals"
    and "\<forall>data. \<not> has_bom data \<longrightarrow> bom data = data" and "\<forall>g \<in> set groups. \<not> has_bom (concat g)"
  shows "\<exists>cdl'. load_chunks (csv_RowIter bom) csv_Next cdl (map concat groups) = Some (vals, EndOfFile, cdl') \<and>
    csv_Finish cdl' = Inr (of_nat (length rows))"
proof -
  have cols: "getColumnTypes index sch names = Inr cs \<Longrightarrow> length cs = length names" for names and cs :: "'a column list"
    by (induction names arbitrary: cs) (auto split: option.splits prod.splits sum.splits)
  have "length (csv_columns cdl) = length colNames"
    using assms(1) cols [of colNames "csv_columns cdl"] by (auto simp: NewCsvDataLoader_def Let_def split: sum.splits)
  then have "csv_columns cdl \<noteq> []" using assms(3) by auto
  then have pair: "csv_pair d cdl cdw" and new: "csv_RowsLoaded cdl = 0" "csv_partialRecord cdl = []"
    using assms(1-4) by (auto simp: csv_pair_def NewCsvDataLoader_def NewCsvDataWriter_def Let_def split: sum.splits)
  have body: "write_rows (csv_WriteRow cdw) rows = Inr (concat groups)"
    using assms(4,5) by (auto simp: copy_to_def csv_WriteHeader_def csv_WriteFooter_def NewCsvDataWriter_def split: sum.splits)
  obtain csvr where "load_chunks (csv_RowIter bom) csv_Next cdl (map concat groups) =
      Some (vals, EndOfFile, cdl\<lparr>csv_RowsLoaded := csv_RowsLoaded cdl + of_nat (length rows), csv_reader := csvr\<rparr>)"
    using csv_messages_written [OF pair new(2) body assms(6-9)] by blast
  then show ?thesis using new by (simp add: csv_Finish_def del: not_None_eq)
qed

definition demo_csv :: "gostring CsvDataLoader" where
  "demo_csv = \<lparr>csv_RowsLoaded = 0, csv_partialRecord = [], csv_columns = [(gs ''a'', Some), (gs ''b'', Some)],
     csv_removeHeader = False, csv_delimiter = [44], csv_reader = newCsvReaderWithDelimiter [44] False\<rparr>"

theorem csv_round_trip_witness:
  "\<exists>cdl'. load_chunks (csv_RowIter (\<lambda>data. data)) csv_Next demo_csv [[Quote, NL, 44, Quote, 44, NL], [65, 44, Quote, Quote, NL]] =
    Some ([[Some [NL, 44], None], [Some [65], Some []]], EndOfFile, cdl') \<and> csv_Finish cdl' = Inr 2"
proof -
  let ?names = "[gs ''a'', gs ''b'']" and ?rows = "[[Some [NL, 44], None], [Some [65], Some []]] :: gostring option list list"
  let ?cdw = "NewCsvDataWriter ?names [44] False"
  let ?sch = "[(gs ''a'', Some Some), (gs ''b'', Some Some)] :: (gostring \<times> gostring io_input option) list"
  let ?groups = "[[[Quote, NL, 44, Quote, 44, NL]], [[65, 44, Quote, Quote, NL]]]"
  have "NewCsvDataLoader (map_of [(gs ''a'', 0), (gs ''b'', 1)]) ?sch ?names [44] False = Inr demo_csv"
    by (simp add: NewCsvDataLoader_def demo_csv_def gs_def Let_def)
  moreover have "csv_delimiter_ok 44" by (simp add: csv_delimiter_ok_def)
  moreover have "?names \<noteq> []" by simp
  moreover have "?cdw = ?cdw" by simp
  moreover have "copy_to (csv_WriteHeader ?cdw) (csv_WriteRow ?cdw) (csv_WriteFooter ?cdw) ?rows = Inr (concat ?groups)" by code_simp
  moreover have "\<forall>row \<in> set ?rows. csv_row_ok demo_csv row"
    by (simp add: csv_row_ok_def csv_value_ok_def no_crlf_def demo_csv_def)
  moreover have "map (input_row (csv_columns demo_csv)) ?rows = map Inr ?rows" by (simp add: demo_csv_def)
  moreover have "\<forall>data. \<not> has_bom data \<longrightarrow> (\<lambda>data. data) data = data" by simp
  moreover have "\<forall>g \<in> set ?groups. \<not> has_bom (concat g)" by (simp add: has_bom_def)
  ultimately have "\<exists>cdl'. load_chunks (csv_RowIter (\<lambda>data. data)) csv_Next demo_csv (map concat ?groups) = Some (?rows, EndOfFile, cdl') \<and>
    csv_Finish cdl' = Inr (of_nat (length ?rows))"
    by (rule csv_round_trip)
  then show ?thesis by simp
qed

section \<open>What is lost\<close>

lemma quoted_cut:
  assumes "Quote \<notin> set line" and "line \<noteq> []" and "NL \<notin> set b"
  shows "quoted_loop dl field line raw b = (Inl (CsvIncomplete raw), [])"
proof -
  have stop: "quoted_loop dl f [] raw [] = (Inl (CsvIncomplete raw), [])" for f by (subst quoted_loop.simps) simp
  have "ReadString b = (False, b, [])" using assms(3) by (simp add: ReadString_def)
  moreover have "NL \<notin> set (TrimSuffix CR b)" using assms(3) by (auto simp: TrimSuffix_def dest: in_set_butlastD)
  then have "lengthNL (TrimSuffix CR b) = 0" unfolding lengthNL_def by (metis last_in_set length_greater_0_conv)
  ultimately show ?thesis using assms(1,2) stop by (subst quoted_loop.simps) (auto simp: readLine_def Let_def)
qed

lemma csv_Next_cut:
  assumes "\<not> csv_removeHeader cdl" and "\<not> csv_isDone (csv_reader cdl)"
    and "set a \<inter> {Quote, NL, CR} = {}" and "NL \<notin> set b"
  shows "csv_Next cdl (Quote # a @ NL # b) = (Inl EndOfFile, cdl\<lparr>csv_partialRecord := Quote # a @ [NL]\<rparr>, [])"
proof -
  let ?line = "Quote # a @ [NL]"
  have "takeWhile (\<lambda>b. b \<noteq> NL) (a @ NL # b) = a" "dropWhile (\<lambda>b. b \<noteq> NL) (a @ NL # b) = NL # b"
    using assms(3) by (induction a) auto
  then have "ReadString (Quote # a @ NL # b) = (True, ?line, b)" by (simp add: ReadString_def)
  moreover have "\<not> suffix [CR, NL] ?line" using assms(3) set_mono_suffix [of "[CR, NL]" ?line] by auto
  ultimately have "readLine (Quote # a @ NL # b) = (CsvLine ?line, b)" by (simp add: readLine_def normalize_line_def)
  then have "record_line single (Quote # a @ NL # b) = (Inr ?line, b)" for single by (subst record_line.simps) (simp add: lengthNL_def)
  moreover have "csv_fields dl [] ?line ?line b = (Inl (CsvIncomplete ?line), [])" for dl
    using quoted_cut [of "a @ [NL]" b dl "[]" ?line] assms(3,4) by (subst csv_fields.simps) auto
  moreover have "cdl\<lparr>csv_reader := csv_reader cdl, csv_partialRecord := p\<rparr> = cdl\<lparr>csv_partialRecord := p\<rparr>" for p by (cases cdl) simp
  ultimately show ?thesis
    using assms(1,2) by (simp add: csv_Next_def csv_nextRow_def csv_record_def ReadSqlRow_def csvReadRecords_def Let_def)
qed

text \<open>A message that ends inside a quoted value behind a newline of it loses data: what follows that newline in the
  message is dropped, so that the load goes on as if it had never been sent. The partial record that is kept for the next
  message holds only the complete lines of the record.\<close>

theorem csv_split_loses_data:
  assumes "\<not> csv_removeHeader cdl" and "csv_partialRecord cdl = []" and "set a \<inter> {Quote, NL, CR} = {}" and "NL \<notin> set b"
    and "\<forall>data. \<not> has_bom data \<longrightarrow> bom data = data"
  shows "load_chunks (csv_RowIter bom) csv_Next cdl ((Quote # a @ NL # b) # chunks) =
    load_chunks (csv_RowIter bom) csv_Next cdl ((Quote # a @ [NL]) # chunks)"
proof -
  let ?cdl = "cdl\<lparr>csv_reader := newCsvReaderWithDelimiter (csv_delimiter cdl) (length (csv_columns cdl) = 1)\<rparr>"
  have "\<not> has_bom (Quote # t)" for t by (simp add: has_bom_def)
  then have iter: "csv_RowIter bom cdl (Quote # t) = (?cdl, Quote # t)" for t
    using assms(2,5) by (cases cdl) (simp add: csv_RowIter_def)
  have "load_chunk (csv_RowIter bom) csv_Next cdl (Quote # a @ NL # t) =
      Some ([], EndOfFile, ?cdl\<lparr>csv_partialRecord := Quote # a @ [NL]\<rparr>)" if "NL \<notin> set t" for t
    using csv_Next_cut [of ?cdl a t] assms(1,3) that by (simp add: load_chunk_def iter newCsvReaderWithDelimiter_def)
  from this [OF assms(4)] this [of "[]"] show ?thesis by simp
qed

text \<open>At a concrete input: the bytes \<open>B\<close> and \<open>C\<close> of the first message are in no row.\<close>

theorem csv_split_loses_data_witness:
  "map_option fst (load_chunks (csv_RowIter (\<lambda>data. data)) csv_Next demo_csv [[Quote, 65, NL, 66, 67], [68, Quote, 44, 69, NL]]) =
    Some [[Some [65, NL, 68], Some [69]]]"
proof -
  have "map_option fst (load_chunks (csv_RowIter (\<lambda>data. data)) csv_Next demo_csv [Quote # [65] @ [NL], [68, Quote, 44, 69, NL]]) =
      Some [[Some [65, NL, 68], Some [69]]]" by code_simp
  then show ?thesis
    using csv_split_loses_data [of demo_csv "[65]" "[66, 67]" "\<lambda>data. data" "[[68, Quote, 44, 69, NL]]"] by (simp add: demo_csv_def)
qed

text \<open>Quoting does not protect the value that looks like the end marker: in a table of one column the writer quotes it, but
  the loader compares the value without its quotes, ends the load there and drops the rows behind it in the message.\<close>

theorem csv_quoted_marker_ends_load:
  assumes "\<not> csv_removeHeader cdl" and "csv_partialRecord cdl = []" and "csv_delimiter cdl = [d]" and "csv_delimiter_ok d"
    and "csv_WriteRow (NewCsvDataWriter colNames [d] False) [Some end_marker] = Inr data"
    and "\<forall>data. \<not> has_bom data \<longrightarrow> bom data = data"
  shows "map_option fst (load_chunk (csv_RowIter bom) csv_Next cdl (data @ rest)) = Some []"
proof -
  let ?csvr = "newCsvReaderWithDelimiter [d] (length (csv_columns cdl) = 1)"
  have data: "data = [Quote, Backslash, 46, Quote, NL]"
    using assms(5) by (simp add: csv_WriteRow_def writeField_def needsQuoting_def end_marker_def gs_def)
  have "d \<noteq> NL" "d \<noteq> Quote" using assms(4) by (auto simp: csv_delimiter_ok_def)
  then have q: "quoted_loop [d] [] [Backslash, 46, Quote, NL] raw r = (Inr ([Backslash, 46], None, raw), r)" for raw r
    by (subst quoted_loop.simps) (simp add: Let_def lengthNL_def)
  have "readLine (data @ rest) = (CsvLine data, rest)" by (simp add: data readLine_def ReadString_def normalize_line_def suffix_Cons)
  then have "record_line single (data @ rest) = (Inr data, rest)" for single by (subst record_line.simps) (simp add: data lengthNL_def)
  moreover have "csv_fields [d] [] data data rest = (Inr [Some end_marker], rest)"
    using csv_fields_quoted(2) [OF q] by (simp add: data end_marker_def gs_def)
  moreover have "csv_RowIter bom cdl (data @ rest) = (cdl\<lparr>csv_partialRecord := [], csv_reader := ?csvr\<rparr>, data @ rest)"
    using assms(2,3,6) by (simp add: csv_RowIter_def data has_bom_def)
  ultimately show ?thesis using assms(1)
    by (simp add: load_chunk_def csv_Next_def csv_nextRow_def csv_record_def ReadSqlRow_def csvReadRecords_def Let_def
        newCsvReaderWithDelimiter_def)
qed

theorem csv_quoted_marker_ends_load_witness:
  "map_option fst (load_chunk (csv_RowIter (\<lambda>data. data)) csv_Next
      (demo_csv\<lparr>csv_columns := [(gs ''a'', Some)]\<rparr>) ([Quote, Backslash, 46, Quote, NL] @ [65, NL])) = Some []"
  using csv_quoted_marker_ends_load [of "demo_csv\<lparr>csv_columns := [(gs ''a'', Some)]\<rparr>" 44 "[gs ''a'']" "[Quote, Backslash, 46, Quote, NL]"
      "\<lambda>data. data" "[65, NL]"]
  by (simp add: demo_csv_def csv_delimiter_ok_def csv_WriteRow_def writeField_def needsQuoting_def NewCsvDataWriter_def end_marker_def gs_def)

end
