(* ===== verification/Connection.thy ===== *)
theory Connection
  imports Prelude
begin

text \<open>
  The state machine of a connection: \<open>src/server/connection_handler.go\<close>. Messages of the client are handled one after the other;
  the model has the state of the handler, what was sent, and the messages that are still to come. The engine, the
  parser and the conversion of statements are parameters: \<open>ComQuery\<close> and its kin tell whether they succeed, what they
  send and how they change the state of the session. Sending never fails, and panics of the engine, which are handled like
  errors, are left out, as are row descriptions and the numbers of rows in tags.
\<close>

section \<open>Messages and statements\<close>

datatype statement =
    StBegin | StCommit | StRollback | StSavepoint | StRollbackSavepoint | StReleaseSavepoint
  | StDeallocate gostring | StDiscard | StCopyFromStdin | StCopyFromFile | StCopyTo | StDo | StOther

record ConvertedQuery =
  cq_String :: gostring
  cq_AST :: "statement option"
  StatementTag :: gostring

datatype frontend_message =
    Terminate | Sync | Flush
  | QueryMsg gostring
  | Parse gostring gostring
  | Describe bool gostring
  | Bind gostring gostring
  | Execute gostring
  | Close bool gostring
  | CopyData "byte list" | CopyDone | CopyFail
  | UnknownMessage

datatype transactionState = idleTransactionState | explicitTransactionState | implicitTransactionState | failedTransactionState

datatype tx_status = StatusIdle | StatusBlock | StatusFailed

datatype conn_error =
    ConvertError | EngineError | ContextError | TransactionAborted | NoActiveTransaction gostring
  | MultipleCommands | NoPreparedStatement gostring | NoPortal gostring
  | NoCopyInProgress | NoDataLoader | CopyFailed | UnhandledMessage

datatype backend_message =
    ReadyForQuery tx_status | ErrorResponse conn_error | CommandComplete gostring | EmptyQueryResponse
  | ParseComplete | BindComplete | CloseComplete | DescribeResponse | CopyInResponse | EngineRows

section \<open>The engine\<close>

text \<open>What the parser returns for a statement: its conversion (which may fail, or be no statement), its text and its tag.\<close>

record 'e engine =
  parser_Parse :: "gostring \<Rightarrow> ((statement option) option \<times> gostring \<times> gostring) list option"
  NewContext :: "'e \<Rightarrow> bool"
  ComQuery :: "ConvertedQuery \<Rightarrow> 'e \<Rightarrow> bool \<times> backend_message list \<times> 'e"
  ComPrepareParsed :: "ConvertedQuery \<Rightarrow> 'e \<Rightarrow> bool \<times> 'e"
  ComBind :: "ConvertedQuery \<Rightarrow> 'e \<Rightarrow> bool \<times> 'e"
  ComExecuteBound :: "ConvertedQuery \<Rightarrow> 'e \<Rightarrow> bool \<times> backend_message list \<times> 'e"
  ComResetConnection :: "'e \<Rightarrow> bool \<times> 'e"
  GetTransaction :: "'e \<Rightarrow> bool"
  SetIgnoreAutoCommit :: "bool \<Rightarrow> 'e \<Rightarrow> 'e"
  ClearTransactionLocalVariables :: "'e \<Rightarrow> 'e"
  copy_file :: "'e \<Rightarrow> bool \<times> backend_message list \<times> 'e"
  copy_out :: "'e \<Rightarrow> bool \<times> backend_message list \<times> 'e"
  copy_chunk :: "byte list \<Rightarrow> 'e \<Rightarrow> bool \<times> bool \<times> 'e"
  copy_finish :: "'e \<Rightarrow> (gostring option) \<times> 'e"

section \<open>The handler\<close>

record copyFromStdinState =
  dataLoader :: bool
  copyErr :: bool
  startedTransaction :: bool

record 'e ConnectionHandler =
  preparedStatements :: "(gostring, ConvertedQuery) gomap"
  portals :: "(gostring, ConvertedQuery) gomap"
  waitForSync :: bool
  copyState :: "copyFromStdinState option"
  txState :: transactionState
  session_state :: 'e
  sent :: "backend_message list"

definition inExplicitTransactionBlock :: "transactionState \<Rightarrow> bool" where
  "inExplicitTransactionBlock s \<longleftrightarrow> s = explicitTransactionState \<or> s = failedTransactionState"

definition send :: "backend_message list \<Rightarrow> 'e ConnectionHandler \<Rightarrow> 'e ConnectionHandler" where
  "send ms h = h\<lparr>sent := sent h @ ms\<rparr>"

definition convertQuery :: "'e engine \<Rightarrow> gostring \<Rightarrow> ConvertedQuery list option" where
  "convertQuery eng query = (case parser_Parse eng query of
     None \<Rightarrow> None
   | Some [] \<Rightarrow> Some [\<lparr>cq_String = query, cq_AST = None, StatementTag = []\<rparr>]
   | Some s \<Rightarrow>
       if \<exists>p \<in> set s. fst p = None then None
       else Some (map (\<lambda>(conv, text, tag). case conv of
           Some (Some stmt) \<Rightarrow> \<lparr>cq_String = query, cq_AST = Some stmt, StatementTag = tag\<rparr>
         | _ \<Rightarrow> \<lparr>cq_String = text, cq_AST = None, StatementTag = tag\<rparr>) s))"

definition rejectStatementIfTransactionFailed :: "ConvertedQuery \<Rightarrow> 'e ConnectionHandler \<Rightarrow> conn_error option" where
  "rejectStatementIfTransactionFailed query h =
     (if txState h \<noteq> failedTransactionState \<or> cq_AST query = None then None
      else if cq_AST query \<in> {Some StCommit, Some StRollback, Some StRollbackSavepoint} then None
      else Some TransactionAborted)"

definition clearTransactionLocalVars :: "'e engine \<Rightarrow> 'e ConnectionHandler \<Rightarrow> 'e ConnectionHandler" where
  "clearTransactionLocalVars eng h =
     (if NewContext eng (session_state h) then h\<lparr>session_state := ClearTransactionLocalVariables eng (session_state h)\<rparr> else h)"

definition restoredAutoCommitWithoutTransaction :: "'e engine \<Rightarrow> 'e ConnectionHandler \<Rightarrow> bool \<times> 'e ConnectionHandler" where
  "restoredAutoCommitWithoutTransaction eng h =
     (if \<not> NewContext eng (session_state h) then (False, h)
      else if GetTransaction eng (session_state h) then (False, h)
      else (True, h\<lparr>session_state := SetIgnoreAutoCommit eng False (session_state h)\<rparr>))"

text \<open>A list of converted queries is never empty.\<close>

definition runEngineTransactionControl :: "'e engine \<Rightarrow> gostring \<Rightarrow> 'e ConnectionHandler \<Rightarrow> conn_error option \<times> 'e ConnectionHandler" where
  "runEngineTransactionControl eng statement h = (case convertQuery eng statement of
     None \<Rightarrow> (Some ConvertError, h)
   | Some queries \<Rightarrow> (case ComQuery eng (hd queries) (session_state h) of (success, _, e) \<Rightarrow>
       (if success then None else Some EngineError, h\<lparr>session_state := e\<rparr>)))"

definition startImplicitTransaction :: "'e engine \<Rightarrow> ConvertedQuery \<Rightarrow> 'e ConnectionHandler \<Rightarrow> conn_error option \<times> 'e ConnectionHandler" where
  "startImplicitTransaction eng query h =
     (if txState h \<noteq> idleTransactionState then (None, h)
      else if cq_AST query \<in> {Some StBegin, Some StCommit, Some StRollback} then (None, h)
      else if \<not> NewContext eng (session_state h) then (Some ContextError, h)
      else (None, h\<lparr>session_state := SetIgnoreAutoCommit eng True (session_state h), txState := implicitTransactionState\<rparr>))"

definition commitImplicitTransaction :: "'e engine \<Rightarrow> 'e ConnectionHandler \<Rightarrow> conn_error option \<times> 'e ConnectionHandler" where
  "commitImplicitTransaction eng h =
     (if txState h \<noteq> implicitTransactionState then (None, h)
      else
        let h = clearTransactionLocalVars eng (h\<lparr>txState := idleTransactionState\<rparr>);
            (restored, h) = restoredAutoCommitWithoutTransaction eng h in
        if restored then (None, h)
        else (case runEngineTransactionControl eng (gs ''COMMIT'') h of
            (None, h) \<Rightarrow> (None, h)
          | (Some err, h) \<Rightarrow> (Some err, snd (runEngineTransactionControl eng (gs ''ROLLBACK'') h))))"

definition rollbackImplicitTransaction :: "'e engine \<Rightarrow> 'e ConnectionHandler \<Rightarrow> 'e ConnectionHandler" where
  "rollbackImplicitTransaction eng h =
     (if txState h \<noteq> implicitTransactionState then h
      else
        let h = clearTransactionLocalVars eng (h\<lparr>txState := idleTransactionState\<rparr>);
            (restored, h) = restoredAutoCommitWithoutTransaction eng h in
        if restored then h else snd (runEngineTransactionControl eng (gs ''ROLLBACK'') h))"

section \<open>Statements outside of the engine\<close>

definition deallocatePreparedStatement :: "gostring \<Rightarrow> ConvertedQuery \<Rightarrow> 'e ConnectionHandler \<Rightarrow> conn_error option \<times> 'e ConnectionHandler" where
  "deallocatePreparedStatement name query h =
     (if name = [] then (None, send [CommandComplete (StatementTag query)] (h\<lparr>preparedStatements := []\<rparr>))
      else if gm_get (preparedStatements h) name = None then (Some (NoPreparedStatement name), h)
      else (None, send [CommandComplete (StatementTag query)] (h\<lparr>preparedStatements := gm_del name (preparedStatements h)\<rparr>)))"

definition discardAll :: "'e engine \<Rightarrow> ConvertedQuery \<Rightarrow> 'e ConnectionHandler \<Rightarrow> conn_error option \<times> 'e ConnectionHandler" where
  "discardAll eng query h = (case ComResetConnection eng (session_state h) of (success, e) \<Rightarrow>
     let h = h\<lparr>session_state := e\<rparr> in
     if success then (None, send [CommandComplete (StatementTag query)] h) else (Some EngineError, h))"

definition handleCopyFromStdinQuery :: "'e ConnectionHandler \<Rightarrow> 'e ConnectionHandler" where
  "handleCopyFromStdinQuery h =
     send [CopyInResponse] (h\<lparr>copyState := Some \<lparr>dataLoader = False, copyErr = False, startedTransaction = False\<rparr>\<rparr>)"

text \<open>A call of the engine that sends its results itself.\<close>

definition engine_call :: "('e \<Rightarrow> bool \<times> backend_message list \<times> 'e) \<Rightarrow> 'e ConnectionHandler \<Rightarrow> conn_error option \<times> 'e ConnectionHandler" where
  "engine_call f h = (case f (session_state h) of (success, ms, e) \<Rightarrow>
     (if success then None else Some EngineError, send ms (h\<lparr>session_state := e\<rparr>)))"

text \<open>\<open>handled\<close>, \<open>endOfMessages\<close>, the error and the handler.\<close>

type_synonym 'e outside = "bool \<times> bool \<times> conn_error option \<times> 'e ConnectionHandler"

definition handleQueryOutsideEngine :: "'e engine \<Rightarrow> ConvertedQuery \<Rightarrow> 'e ConnectionHandler \<Rightarrow> 'e outside" where
  "handleQueryOutsideEngine eng query h = (case cq_AST query of
     Some StBegin \<Rightarrow>
       if txState h = explicitTransactionState then (True, True, None, send [CommandComplete (StatementTag query)] h)
       else if txState h = implicitTransactionState
       then (True, True, None, send [CommandComplete (StatementTag query)] (h\<lparr>txState := explicitTransactionState\<rparr>))
       else (False, True, None, h\<lparr>txState := explicitTransactionState\<rparr>)
   | Some StCommit \<Rightarrow>
       let h' = clearTransactionLocalVars eng (h\<lparr>txState := idleTransactionState\<rparr>) in
       if txState h = failedTransactionState then
         (case runEngineTransactionControl eng (gs ''ROLLBACK'') h' of
           (Some err, h') \<Rightarrow> (True, True, Some err, h')
         | (None, h') \<Rightarrow> (True, True, None, send [CommandComplete (gs ''ROLLBACK'')] h'))
       else (False, True, None, h')
   | Some StRollback \<Rightarrow> (False, True, None, clearTransactionLocalVars eng (h\<lparr>txState := idleTransactionState\<rparr>))
   | Some StSavepoint \<Rightarrow>
       if \<not> inExplicitTransactionBlock (txState h) then (True, True, Some (NoActiveTransaction (gs ''SAVEPOINT'')), h)
       else (False, True, None, h)
   | Some StRollbackSavepoint \<Rightarrow>
       if \<not> inExplicitTransactionBlock (txState h) then (True, True, Some (NoActiveTransaction (gs ''ROLLBACK TO SAVEPOINT'')), h)
       else (False, True, None, h\<lparr>txState := explicitTransactionState\<rparr>)
   | Some StReleaseSavepoint \<Rightarrow>
       if \<not> inExplicitTransactionBlock (txState h) then (True, True, Some (NoActiveTransaction (gs ''RELEASE SAVEPOINT'')), h)
       else (False, True, None, h)
   | Some (StDeallocate name) \<Rightarrow> (True, True, deallocatePreparedStatement name query h)
   | Some StDiscard \<Rightarrow> (True, True, discardAll eng query h)
   | Some StCopyFromStdin \<Rightarrow> (True, False, None, handleCopyFromStdinQuery h)
   | Some StCopyFromFile \<Rightarrow> (True, True, engine_call (copy_file eng) h)
   | Some StCopyTo \<Rightarrow> (True, True, engine_call (copy_out eng) h)
   | _ \<Rightarrow> (False, True, None, h))"

section \<open>Simple queries\<close>

definition run_query :: "'e engine \<Rightarrow> ConvertedQuery \<Rightarrow> 'e ConnectionHandler \<Rightarrow> conn_error option \<times> 'e ConnectionHandler" where
  "run_query eng query h = (case engine_call (ComQuery eng query) h of
     (Some err, h) \<Rightarrow> (Some err, h)
   | (None, h) \<Rightarrow> (None, send [CommandComplete (StatementTag query)] h))"

text \<open>The loop over the statements of a message with several; \<open>endOfMessages\<close>, the error and the handler.\<close>

fun run_statements :: "'e engine \<Rightarrow> ConvertedQuery list \<Rightarrow> 'e ConnectionHandler \<Rightarrow> bool \<times> conn_error option \<times> 'e ConnectionHandler" where
  "run_statements eng [] h = (case commitImplicitTransaction eng h of
     (Some err, h) \<Rightarrow> (False, Some err, h)
   | (None, h) \<Rightarrow> (True, None, h))"
| "run_statements eng (query # queries) h = (case rejectStatementIfTransactionFailed query h of
     Some err \<Rightarrow> (True, Some err, h)
   | None \<Rightarrow> (case handleQueryOutsideEngine eng query h of
       (_, _, Some err, h) \<Rightarrow> (True, Some err, h)
     | (True, _, None, h) \<Rightarrow> run_statements eng queries h
     | (False, _, None, h) \<Rightarrow> (case startImplicitTransaction eng query h of
         (Some err, h) \<Rightarrow> (True, Some err, h)
       | (None, h) \<Rightarrow>
           let last_idle = (queries = [] \<and> \<not> inExplicitTransactionBlock (txState h)) in
           if last_idle \<and> \<not> NewContext eng (session_state h) then (False, Some ContextError, h)
           else
             let h = (if last_idle then h\<lparr>session_state := SetIgnoreAutoCommit eng False (session_state h)\<rparr> else h) in
             (case run_query eng query h of
               (Some err, h) \<Rightarrow> (True, Some err, h)
             | (None, h) \<Rightarrow> run_statements eng queries h))))"

definition handleQuery :: "'e engine \<Rightarrow> gostring \<Rightarrow> 'e ConnectionHandler \<Rightarrow> bool \<times> conn_error option \<times> 'e ConnectionHandler" where
  "handleQuery eng message h = (case convertQuery eng message of
     None \<Rightarrow> (True, Some ConvertError, h)
   | Some queries \<Rightarrow>
       let h = h\<lparr>preparedStatements := gm_del [] (preparedStatements h), portals := gm_del [] (portals h)\<rparr> in
       (case queries of
         [query] \<Rightarrow>
           if cq_AST query = None then (True, None, send [EmptyQueryResponse] h)
           else (case rejectStatementIfTransactionFailed query h of
             Some err \<Rightarrow> (True, Some err, h)
           | None \<Rightarrow> (case handleQueryOutsideEngine eng query h of
               (True, eom, err, h) \<Rightarrow> (eom, err, h)
             | (False, _, _, h) \<Rightarrow>
                 if cq_AST query = Some StDo then (case startImplicitTransaction eng query h of
                     (Some err, h) \<Rightarrow> (True, Some err, h)
                   | (None, h) \<Rightarrow> (case run_query eng query h of
                       (Some err, h) \<Rightarrow> (True, Some err, h)
                     | (None, h) \<Rightarrow> (True, commitImplicitTransaction eng h)))
                 else (True, run_query eng query h)))
       | _ \<Rightarrow> run_statements eng queries h))"

section \<open>Extended queries\<close>

definition handleParse :: "'e engine \<Rightarrow> gostring \<Rightarrow> gostring \<Rightarrow> 'e ConnectionHandler \<Rightarrow> conn_error option \<times> 'e ConnectionHandler" where
  "handleParse eng name text h = (let h = h\<lparr>waitForSync := True\<rparr> in
     case convertQuery eng text of
       None \<Rightarrow> (Some ConvertError, h)
     | Some queries \<Rightarrow>
         if length queries \<noteq> 1 then (Some MultipleCommands, h)
         else
           let query = hd queries in
           (case rejectStatementIfTransactionFailed query h of
             Some err \<Rightarrow> (Some err, h)
           | None \<Rightarrow>
               let stored = h\<lparr>preparedStatements := gm_set name query (preparedStatements h)\<rparr> in
               if cq_AST query = None then (None, stored)
               else (case ComPrepareParsed eng query (session_state h) of (success, e) \<Rightarrow>
                 if success then (None, send [ParseComplete] (stored\<lparr>session_state := e\<rparr>))
                 else (Some EngineError, h\<lparr>session_state := e\<rparr>))))"

definition handleDescribe :: "bool \<Rightarrow> gostring \<Rightarrow> 'e ConnectionHandler \<Rightarrow> conn_error option \<times> 'e ConnectionHandler" where
  "handleDescribe is_statement name h = (let h = h\<lparr>waitForSync := True\<rparr> in
     if is_statement
     then (if gm_get (preparedStatements h) name = None then (Some (NoPreparedStatement name), h) else (None, send [DescribeResponse] h))
     else (if gm_get (portals h) name = None then (Some (NoPortal name), h) else (None, send [DescribeResponse] h)))"

definition handleBind :: "'e engine \<Rightarrow> gostring \<Rightarrow> gostring \<Rightarrow> 'e ConnectionHandler \<Rightarrow> conn_error option \<times> 'e ConnectionHandler" where
  "handleBind eng portal name h = (let h = h\<lparr>waitForSync := True\<rparr> in
     case gm_get (preparedStatements h) name of
       None \<Rightarrow> (Some (NoPreparedStatement name), h)
     | Some query \<Rightarrow> (case rejectStatementIfTransactionFailed query h of
         Some err \<Rightarrow> (Some err, h)
       | None \<Rightarrow>
           let bound = h\<lparr>portals := gm_set portal query (portals h)\<rparr> in
           if cq_AST query = None then (None, send [BindComplete] bound)
           else (case ComBind eng query (session_state h) of (success, e) \<Rightarrow>
             if success then (None, send [BindComplete] (bound\<lparr>session_state := e\<rparr>))
             else (Some EngineError, h\<lparr>session_state := e\<rparr>))))"

definition handleExecute :: "'e engine \<Rightarrow> gostring \<Rightarrow> 'e ConnectionHandler \<Rightarrow> conn_error option \<times> 'e ConnectionHandler" where
  "handleExecute eng portal h = (let h = h\<lparr>waitForSync := True\<rparr> in
     case gm_get (portals h) portal of
       None \<Rightarrow> (Some (NoPortal portal), h)
     | Some query \<Rightarrow>
         if cq_AST query = None then (None, send [EmptyQueryResponse] h)
         else (case rejectStatementIfTransactionFailed query h of
           Some err \<Rightarrow> (Some err, h)
         | None \<Rightarrow> (case startImplicitTransaction eng query h of
             (Some err, h) \<Rightarrow> (Some err, h)
           | (None, h) \<Rightarrow> (case handleQueryOutsideEngine eng query h of
               (True, _, err, h) \<Rightarrow> (err, h)
             | (False, _, _, h) \<Rightarrow> (case engine_call (ComExecuteBound eng query) h of
                 (Some err, h) \<Rightarrow> (Some err, h)
               | (None, h) \<Rightarrow> (None, send [CommandComplete (StatementTag query)] h))))))"

section \<open>COPY FROM STDIN\<close>

definition rollbackCopyTransaction :: "'e engine \<Rightarrow> bool \<Rightarrow> 'e ConnectionHandler \<Rightarrow> 'e ConnectionHandler" where
  "rollbackCopyTransaction eng started h =
     (if \<not> started \<or> txState h \<noteq> idleTransactionState then h
      else
        let (restored, h) = restoredAutoCommitWithoutTransaction eng h in
        if restored then h
        else snd (restoredAutoCommitWithoutTransaction eng (snd (runEngineTransactionControl eng (gs ''ROLLBACK'') h))))"

text \<open>A message with data: the loader is built for the first one; the rows are inserted by the engine.\<close>

definition handleCopyDataHelper :: "'e engine \<Rightarrow> byte list \<Rightarrow> 'e ConnectionHandler \<Rightarrow> bool \<times> conn_error option \<times> 'e ConnectionHandler" where
  "handleCopyDataHelper eng data h = (case copyState h of
     None \<Rightarrow> (True, Some NoCopyInProgress, h)
   | Some cs \<Rightarrow>
       if \<not> NewContext eng (session_state h) then (False, Some ContextError, h)
       else
         let cs = (if GetTransaction eng (session_state h) then cs else cs\<lparr>startedTransaction := True\<rparr>) in
         (case copy_chunk eng data (session_state h) of (loader, success, e) \<Rightarrow>
           (False, if success then None else Some EngineError,
            h\<lparr>session_state := e, copyState := Some (cs\<lparr>dataLoader := dataLoader cs \<or> loader\<rparr>)\<rparr>)))"

definition handleCopyData :: "'e engine \<Rightarrow> byte list \<Rightarrow> 'e ConnectionHandler \<Rightarrow> bool \<times> conn_error option \<times> 'e ConnectionHandler" where
  "handleCopyData eng data h =
     (if copyState h \<noteq> None \<and> copyErr (the (copyState h)) then (False, None, h)
      else (case handleCopyDataHelper eng data h of (eom, err, h) \<Rightarrow>
        (case copyState h of
          None \<Rightarrow> (eom, err, h)
        | Some cs \<Rightarrow>
            if err = None then (eom, err, h)
            else (eom, err, rollbackCopyTransaction eng (startedTransaction cs) (h\<lparr>copyState := Some (cs\<lparr>copyErr := True\<rparr>)\<rparr>)))))"

definition handleCopyDone :: "'e engine \<Rightarrow> 'e ConnectionHandler \<Rightarrow> bool \<times> conn_error option \<times> 'e ConnectionHandler" where
  "handleCopyDone eng h = (case copyState h of
     None \<Rightarrow> (True, Some NoCopyInProgress, h)
   | Some cs \<Rightarrow>
       let ended = h\<lparr>copyState := None\<rparr>; failed = rollbackCopyTransaction eng (startedTransaction cs) in
       if copyErr cs then (False, None, ended)
       else if \<not> dataLoader cs then (True, Some NoDataLoader, failed ended)
       else if \<not> NewContext eng (session_state h) then (False, Some ContextError, failed ended)
       else (case copy_finish eng (session_state h) of
           (None, e) \<Rightarrow> (False, Some CopyFailed, failed (ended\<lparr>session_state := e\<rparr>))
         | (Some tag, e) \<Rightarrow> (True, None, send [CommandComplete tag] (ended\<lparr>session_state := e\<rparr>))))"

definition handleCopyFail :: "'e engine \<Rightarrow> 'e ConnectionHandler \<Rightarrow> bool \<times> conn_error option \<times> 'e ConnectionHandler" where
  "handleCopyFail eng h = (case copyState h of
     None \<Rightarrow> (True, Some NoCopyInProgress, h)
   | Some cs \<Rightarrow>
       if \<not> dataLoader cs then (True, Some NoDataLoader, h)
       else (True, None, rollbackCopyTransaction eng (startedTransaction cs) (h\<lparr>copyState := None\<rparr>)))"

section \<open>The loop\<close>

text \<open>\<open>stop\<close>, \<open>endOfMessages\<close>, the error and the handler.\<close>

definition handleMessage :: "'e engine \<Rightarrow> frontend_message \<Rightarrow> 'e ConnectionHandler \<Rightarrow> bool \<times> bool \<times> conn_error option \<times> 'e ConnectionHandler" where
  "handleMessage eng msg h = (case msg of
     Terminate \<Rightarrow> (True, False, None, h)
   | Sync \<Rightarrow> (False, True, commitImplicitTransaction eng (h\<lparr>waitForSync := False\<rparr>))
   | Flush \<Rightarrow> (False, False, None, h)
   | QueryMsg text \<Rightarrow> (False, handleQuery eng text h)
   | Parse name text \<Rightarrow> (False, False, handleParse eng name text h)
   | Describe is_statement name \<Rightarrow> (False, False, handleDescribe is_statement name h)
   | Bind portal name \<Rightarrow> (False, False, handleBind eng portal name h)
   | Execute portal \<Rightarrow> (False, False, handleExecute eng portal h)
   | Close is_statement name \<Rightarrow> (False, False, None, send [CloseComplete]
       (if is_statement then h\<lparr>preparedStatements := gm_del name (preparedStatements h)\<rparr> else h\<lparr>portals := gm_del name (portals h)\<rparr>))
   | CopyData data \<Rightarrow> (False, handleCopyData eng data h)
   | CopyDone \<Rightarrow> (False, handleCopyDone eng h)
   | CopyFail \<Rightarrow> (False, handleCopyFail eng h)
   | UnknownMessage \<Rightarrow> (False, True, Some UnhandledMessage, h))"

definition tx_indicator :: "transactionState \<Rightarrow> tx_status" where
  "tx_indicator s = (case s of
     failedTransactionState \<Rightarrow> StatusFailed
   | explicitTransactionState \<Rightarrow> StatusBlock
   | implicitTransactionState \<Rightarrow> StatusBlock
   | idleTransactionState \<Rightarrow> StatusIdle)"

definition endOfMessages :: "'e engine \<Rightarrow> conn_error option \<Rightarrow> 'e ConnectionHandler \<Rightarrow> 'e ConnectionHandler" where
  "endOfMessages eng err h =
     (let h = (case err of
         None \<Rightarrow> h
       | Some e \<Rightarrow> send [ErrorResponse e] (case txState h of
           implicitTransactionState \<Rightarrow> rollbackImplicitTransaction eng h
         | explicitTransactionState \<Rightarrow> h\<lparr>txState := failedTransactionState\<rparr>
         | _ \<Rightarrow> h))
      in send [ReadyForQuery (tx_indicator (txState h))] h)"

text \<open>The messages behind the next \<open>Sync\<close>; without one, the handler waits for it.\<close>

definition discardToSync :: "frontend_message list \<Rightarrow> frontend_message list option" where
  "discardToSync ms = (if Sync \<in> set ms then Some (tl (dropWhile (\<lambda>m. m \<noteq> Sync) ms)) else None)"

datatype 'e received = Proceed "'e ConnectionHandler" "frontend_message list" | Closed "'e ConnectionHandler" | AwaitSync "'e ConnectionHandler"

definition receiveMessage :: "'e engine \<Rightarrow> 'e ConnectionHandler \<Rightarrow> frontend_message \<Rightarrow> frontend_message list \<Rightarrow> 'e received" where
  "receiveMessage eng h msg ms = (case handleMessage eng msg h of (stop, eom, err, h) \<Rightarrow>
     if err \<noteq> None \<and> \<not> eom \<and> waitForSync h then
       (case discardToSync ms of
         None \<Rightarrow> AwaitSync h
       | Some ms' \<Rightarrow> if stop then Closed (endOfMessages eng err h) else Proceed (endOfMessages eng err h) ms')
     else
       let h = (if err \<noteq> None \<or> eom then endOfMessages eng err h else h) in
       if stop then Closed h else Proceed h ms)"

lemma receiveMessage_shorter: "receiveMessage eng h msg ms = Proceed h' ms' \<Longrightarrow> length ms' \<le> length ms"
proof -
  have "length (tl (dropWhile P xs)) \<le> length xs" for P and xs :: "frontend_message list"
    using length_dropWhile_le [of P xs] by simp
  then show "receiveMessage eng h msg ms = Proceed h' ms' \<Longrightarrow> ?thesis"
    by (fastforce simp: receiveMessage_def discardToSync_def Let_def split: prod.splits if_splits option.splits)
qed

text \<open>The loop of \<open>HandleConnection\<close> over the messages that have arrived.\<close>

function run_connection :: "'e engine \<Rightarrow> 'e ConnectionHandler \<Rightarrow> frontend_message list \<Rightarrow> 'e received" where
  "run_connection eng h [] = Proceed h []"
| "run_connection eng h (msg # ms) = (case receiveMessage eng h msg ms of
     Proceed h' ms' \<Rightarrow> run_connection eng h' ms'
   | r \<Rightarrow> r)"
  by pat_completeness auto

termination by (relation "measure (\<lambda>(_, _, ms). length ms)") (auto dest: receiveMessage_shorter simp: less_Suc_eq_le)

end
