(* ===== verification/Connection_Demo.thy ===== *)
theory Connection_Demo
  imports Connection
begin

text \<open>
  A small engine on which the connection can be run: its data is a number, and each byte of a query is a statement that adds to it.
  The byte 0 is a statement that fails; \<open>COPY\<close> is a load whose empty messages are refused.
\<close>

text \<open>The number stored, the number of the open transaction, whether autocommit is ignored, and whether a transaction is open.\<close>

type_synonym counter = "nat \<times> nat \<times> bool \<times> bool"

fun counter_query :: "ConvertedQuery \<Rightarrow> counter \<Rightarrow> bool \<times> backend_message list \<times> counter" where
  "counter_query q (c, v, ign, tx) =
     (if cq_AST q = Some StRollback then (True, [], c, c, False, False)
      else if StatementTag q = [0] then (False, [], c, v, ign, tx)
      else
        let n = (if tx then v else c) + unat (hd (StatementTag q)) in
        if ign then (True, [EngineRows], c, n, ign, True) else (True, [EngineRows], n, n, ign, False))"

definition counter_parse :: "gostring \<Rightarrow> ((statement option) option \<times> gostring \<times> gostring) list option" where
  "counter_parse s =
     (if s = gs ''ROLLBACK'' then Some [(Some (Some StRollback), s, s)]
      else if s = gs ''COPY'' then Some [(Some (Some StCopyFromStdin), s, s)]
      else Some (map (\<lambda>b. (Some (Some StOther), [b], [b])) s))"

definition counter_engine :: "counter engine" where
  "counter_engine = \<lparr>parser_Parse = counter_parse, NewContext = (\<lambda>_. True), ComQuery = counter_query,
     ComPrepareParsed = (\<lambda>_ e. (True, e)), ComBind = (\<lambda>_ e. (True, e)), ComExecuteBound = counter_query, ComResetConnection = (\<lambda>e. (True, e)),
     GetTransaction = (\<lambda>(_, _, _, tx). tx), SetIgnoreAutoCommit = (\<lambda>b (c, v, _, tx). (c, v, b, tx)), ClearTransactionLocalVariables = id,
     copy_file = (\<lambda>e. (True, [], e)), copy_out = (\<lambda>e. (True, [], e)), copy_chunk = (\<lambda>data e. (True, data \<noteq> [], e)),
     copy_finish = (\<lambda>e. (Some (gs ''COPY''), e))\<rparr>"

definition counter_connection :: "counter ConnectionHandler" where
  "counter_connection = \<lparr>preparedStatements = [], portals = [], waitForSync = False, copyState = None, txState = idleTransactionState,
     session_state = (5, 0, False, False), sent = []\<rparr>"

lemma counter_engine_simps [simp]:
  "parser_Parse counter_engine = counter_parse" "NewContext counter_engine e" "ComQuery counter_engine = counter_query"
  "ComExecuteBound counter_engine = counter_query" "GetTransaction counter_engine (c, v, ign, tx) = tx"
  "SetIgnoreAutoCommit counter_engine b (c, v, ign, tx) = (c, v, b, tx)" "ClearTransactionLocalVariables counter_engine = id"
  "copy_file counter_engine e = (True, [], e)" "copy_out counter_engine e = (True, [], e)"
  "copy_chunk counter_engine data e = (True, data \<noteq> [], e)" "copy_finish counter_engine e = (Some (gs ''COPY''), e)"
  by (simp_all add: counter_engine_def)

lemma counter_connection_simps [simp]:
  "preparedStatements counter_connection = []" "portals counter_connection = []" "\<not> waitForSync counter_connection"
  "txState counter_connection = idleTransactionState" "session_state counter_connection = (5, 0, False, False)" "sent counter_connection = []"
  by (simp_all add: counter_connection_def)

lemma counter_copy: "convertQuery counter_engine (gs ''COPY'') = Some [\<lparr>cq_String = gs ''COPY'', cq_AST = Some StCopyFromStdin, StatementTag = gs ''COPY''\<rparr>]"
  by (simp add: convertQuery_def counter_parse_def gs_def of_char_def)

lemma counter_statements:
  "convertQuery counter_engine [1, 2] = Some [\<lparr>cq_String = [1, 2], cq_AST = Some StOther, StatementTag = [1]\<rparr>,
     \<lparr>cq_String = [1, 2], cq_AST = Some StOther, StatementTag = [2]\<rparr>]"
  by (simp add: convertQuery_def counter_parse_def gs_def)

end
