(* ===== verification/Connection_Props.thy ===== *)
theory Connection_Props
  imports Connection_Demo
begin

text \<open>
  What a client can rely on: one \<open>ReadyForQuery\<close> per simple query, recovery at \<open>Sync\<close>, failed blocks and atomic messages; and where it
  waits for ever.
\<close>

section \<open>What the operations keep\<close>

lemma send_simps [simp]:
  "sent (send ms h) = sent h @ ms" "txState (send ms h) = txState h" "waitForSync (send ms h) = waitForSync h"
  "session_state (send ms h) = session_state h" "copyState (send ms h) = copyState h"
  "preparedStatements (send ms h) = preparedStatements h" "portals (send ms h) = portals h"
  by (simp_all add: send_def)

text \<open>The engine never sends \<open>ReadyForQuery\<close> itself.\<close>

definition quiet :: "backend_message list \<Rightarrow> bool" where
  "quiet ms \<longleftrightarrow> (\<forall>s. ReadyForQuery s \<notin> set ms)"

definition engine_quiet :: "'e engine \<Rightarrow> bool" where
  "engine_quiet eng \<longleftrightarrow> (\<forall>q e. quiet (fst (snd (ComQuery eng q e))) \<and> quiet (fst (snd (ComExecuteBound eng q e))) \<and>
     quiet (fst (snd (copy_file eng e))) \<and> quiet (fst (snd (copy_out eng e))))"

lemma quiet_simps [simp]: "quiet []" "quiet (m # ms) \<longleftrightarrow> (\<forall>s. m \<noteq> ReadyForQuery s) \<and> quiet ms" "quiet (ms @ ns) \<longleftrightarrow> quiet ms \<and> quiet ns"
  by (auto simp: quiet_def)

text \<open>An operation that adds to what was sent, without \<open>ReadyForQuery\<close>, and does not touch the flag for \<open>Sync\<close>.\<close>

definition extends_quietly :: "'e ConnectionHandler \<Rightarrow> 'e ConnectionHandler \<Rightarrow> bool" where
  "extends_quietly h h' \<longleftrightarrow> waitForSync h' = waitForSync h \<and> (\<exists>ms. sent h' = sent h @ ms \<and> quiet ms)"

lemma extends_quietly_refl [simp]: "extends_quietly h h"
  by (simp add: extends_quietly_def)

lemma extends_quietly_trans [trans]: "extends_quietly h1 h2 \<Longrightarrow> extends_quietly h2 h3 \<Longrightarrow> extends_quietly h1 h3"
  by (auto simp: extends_quietly_def)

lemma extends_quietly_send [simp]: "extends_quietly h (send ms h') \<longleftrightarrow> extends_quietly h h' \<and> quiet ms" if "extends_quietly h h'"
  using that by (auto simp: extends_quietly_def)

lemma clearTransactionLocalVars_simps [simp]:
  "sent (clearTransactionLocalVars eng h) = sent h" "txState (clearTransactionLocalVars eng h) = txState h"
  "waitForSync (clearTransactionLocalVars eng h) = waitForSync h"
  by (simp_all add: clearTransactionLocalVars_def)

lemma control_keeps:
  "runEngineTransactionControl eng s h = (r, h') \<Longrightarrow> sent h' = sent h \<and> txState h' = txState h \<and> waitForSync h' = waitForSync h"
  "restoredAutoCommitWithoutTransaction eng h = (b, h') \<Longrightarrow> sent h' = sent h \<and> txState h' = txState h \<and> waitForSync h' = waitForSync h"
  by (auto simp: runEngineTransactionControl_def restoredAutoCommitWithoutTransaction_def split: option.splits prod.splits if_splits)

lemma startImplicit_keeps:
  "startImplicitTransaction eng q h = (r, h') \<Longrightarrow> extends_quietly h h'"
  by (auto simp: startImplicitTransaction_def extends_quietly_def split: if_splits)

lemma control_snd [simp]:
  "sent (snd (runEngineTransactionControl eng s h)) = sent h" "txState (snd (runEngineTransactionControl eng s h)) = txState h"
  "waitForSync (snd (runEngineTransactionControl eng s h)) = waitForSync h"
  using control_keeps(1) [OF prod.collapse [symmetric], of eng s h] by simp_all

lemma commitImplicit_keeps:
  "commitImplicitTransaction eng h = (r, h') \<Longrightarrow> extends_quietly h h' \<and> txState h' \<noteq> implicitTransactionState"
  by (auto simp: commitImplicitTransaction_def extends_quietly_def Let_def split: if_splits prod.splits option.splits
      dest!: control_keeps)

lemma rollbackImplicit_keeps:
  "extends_quietly h (rollbackImplicitTransaction eng h)" "sent (rollbackImplicitTransaction eng h) = sent h"
  "txState (rollbackImplicitTransaction eng h) = (if txState h = implicitTransactionState then idleTransactionState else txState h)"
  by (auto simp: rollbackImplicitTransaction_def extends_quietly_def Let_def split: prod.splits dest!: control_keeps(2))

lemma rollbackCopyTransaction_simps [simp]:
  "sent (rollbackCopyTransaction eng b h) = sent h" "waitForSync (rollbackCopyTransaction eng b h) = waitForSync h"
  by (auto simp: rollbackCopyTransaction_def Let_def restoredAutoCommitWithoutTransaction_def)

lemma engine_call_keeps:
  assumes "engine_call f h = (r, h')" and "quiet (fst (snd (f (session_state h))))"
  shows "extends_quietly h h' \<and> txState h' = txState h"
  using assms by (auto simp: engine_call_def extends_quietly_def split: prod.splits)

lemma run_query_keeps:
  assumes "run_query eng q h = (r, h')" and "engine_quiet eng"
  shows "extends_quietly h h' \<and> txState h' = txState h"
  using assms engine_call_keeps [of "ComQuery eng q" h]
  by (fastforce simp: run_query_def engine_quiet_def extends_quietly_def split: prod.splits option.splits)

lemma outside_keeps:
  assumes "handleQueryOutsideEngine eng q h = (handled, eom, err, h')" and "engine_quiet eng"
  shows "extends_quietly h h' \<and> (txState h \<noteq> implicitTransactionState \<longrightarrow> txState h' \<noteq> implicitTransactionState) \<and>
    (cq_AST q \<noteq> Some StCopyFromStdin \<longrightarrow> eom)"
proof (cases "cq_AST q")
  case None
  then show ?thesis using assms(1) by (simp add: handleQueryOutsideEngine_def)
next
  case (Some stmt)
  have copies: "engine_call (copy_file eng) h = (r, h') \<Longrightarrow> extends_quietly h h' \<and> txState h' = txState h"
    "engine_call (copy_out eng) h = (r, h') \<Longrightarrow> extends_quietly h h' \<and> txState h' = txState h" for r
    using engine_call_keeps assms(2) unfolding engine_quiet_def by blast+
  show ?thesis using assms(1) Some copies
    by (cases stmt) (auto simp: handleQueryOutsideEngine_def extends_quietly_def deallocatePreparedStatement_def discardAll_def
        handleCopyFromStdinQuery_def Let_def split: if_splits prod.splits option.splits dest!: control_keeps(1))
qed

lemma run_statements_keeps:
  assumes "run_statements eng queries h = (eom, err, h')" and quiet: "engine_quiet eng"
  shows "extends_quietly h h' \<and> (err = None \<longrightarrow> eom \<and> txState h' \<noteq> implicitTransactionState)"
  using assms(1)
proof (induction queries arbitrary: h)
  case Nil
  then show ?case using commitImplicit_keeps [of eng h] by (auto split: prod.splits option.splits)
next
  case (Cons query queries)
  show ?case
  proof (cases "rejectStatementIfTransactionFailed query h")
    case accepted: None
    obtain handled eom1 err1 h1 where o: "handleQueryOutsideEngine eng query h = (handled, eom1, err1, h1)" by (metis prod.exhaust)
    have q1: "extends_quietly h h1" using outside_keeps [OF o quiet] by blast
    obtain err2 h2 where st: "startImplicitTransaction eng query h1 = (err2, h2)" by (cases "startImplicitTransaction eng query h1")
    have q2: "extends_quietly h h2" using q1 startImplicit_keeps [OF st] extends_quietly_trans by blast
    let ?last = "queries = [] \<and> \<not> inExplicitTransactionBlock (txState h2)"
    let ?h3 = "if ?last then h2\<lparr>session_state := SetIgnoreAutoCommit eng False (session_state h2)\<rparr> else h2"
    have q3: "extends_quietly h ?h3" using q2 by (auto simp: extends_quietly_def)
    obtain err4 h4 where r: "run_query eng query ?h3 = (err4, h4)" by (cases "run_query eng query ?h3")
    have q4: "extends_quietly h h4" using q3 run_query_keeps [OF r quiet] extends_quietly_trans by blast
    have IH: "run_statements eng queries g = (eom, err, h') \<Longrightarrow> extends_quietly h g \<Longrightarrow>
        extends_quietly h h' \<and> (err = None \<longrightarrow> eom \<and> txState h' \<noteq> implicitTransactionState)" for g
      using Cons.IH extends_quietly_trans by blast
    show ?thesis
      using Cons.prems accepted o st r q1 q2 q4 IH [of h1] IH [of h4]
      by (auto simp: Let_def split: option.splits bool.splits if_splits)
  qed (use Cons.prems in auto)
qed

lemma handleQuery_keeps:
  assumes "handleQuery eng text h = (eom, err, h')" and quiet: "engine_quiet eng"
    and "\<forall>q. convertQuery eng text = Some [q] \<longrightarrow> cq_AST q \<noteq> Some StCopyFromStdin"
  shows "extends_quietly h h' \<and> (err = None \<longrightarrow> eom \<and> (txState h \<noteq> implicitTransactionState \<longrightarrow> txState h' \<noteq> implicitTransactionState))"
proof (cases "convertQuery eng text")
  case None
  then show ?thesis using assms(1) by (simp add: handleQuery_def)
next
  case (Some queries)
  let ?h = "h\<lparr>preparedStatements := gm_del [] (preparedStatements h), portals := gm_del [] (portals h)\<rparr>"
  have start: "extends_quietly h ?h" "txState ?h = txState h" by (auto simp: extends_quietly_def)
  show ?thesis
  proof (cases "\<exists>q. queries = [q]")
    case False
    then have "run_statements eng queries ?h = (eom, err, h')"
      using assms(1) Some by (auto simp: handleQuery_def Let_def split: list.splits)
    then show ?thesis using run_statements_keeps [OF _ quiet] start(1) extends_quietly_trans by blast
  next
    case True
    then obtain q where q: "queries = [q]" by blast
    obtain handled eom1 err1 h1 where o: "handleQueryOutsideEngine eng q ?h = (handled, eom1, err1, h1)" by (metis prod.exhaust)
    have o1: "extends_quietly h h1" "txState h \<noteq> implicitTransactionState \<longrightarrow> txState h1 \<noteq> implicitTransactionState" "eom1"
      using outside_keeps [OF o quiet] start extends_quietly_trans assms(3) Some q by auto
    obtain err2 h2 where st: "startImplicitTransaction eng q h1 = (err2, h2)" by (cases "startImplicitTransaction eng q h1")
    have q2: "extends_quietly h h2" using o1(1) startImplicit_keeps [OF st] extends_quietly_trans by blast
    obtain err3 h3 where r: "run_query eng q h2 = (err3, h3)" by (cases "run_query eng q h2")
    have q3: "extends_quietly h h3" using q2 run_query_keeps [OF r quiet] extends_quietly_trans by blast
    obtain err4 h4 where c: "commitImplicitTransaction eng h3 = (err4, h4)" by (cases "commitImplicitTransaction eng h3")
    have q4: "extends_quietly h h4" "txState h4 \<noteq> implicitTransactionState" using q3 commitImplicit_keeps [OF c] extends_quietly_trans by blast+
    obtain err5 h5 where r5: "run_query eng q h1 = (err5, h5)" by (cases "run_query eng q h1")
    have q5: "extends_quietly h h5" "txState h5 = txState h1" using o1(1) run_query_keeps [OF r5 quiet] extends_quietly_trans by blast+
    show ?thesis
      using assms(1) Some q o st r c r5 o1 q2 q3 q4 q5 start
      by (auto simp: handleQuery_def Let_def split: if_splits option.splits bool.splits)
  qed
qed

lemma endOfMessages_sent:
  "sent (endOfMessages eng err h) = sent h @ (case err of None \<Rightarrow> [] | Some e \<Rightarrow> [ErrorResponse e]) @
     [ReadyForQuery (tx_indicator (txState (endOfMessages eng err h)))]"
  by (auto simp: endOfMessages_def Let_def rollbackImplicit_keeps split: option.splits transactionState.splits)

lemma endOfMessages_state:
  "err \<noteq> None \<or> txState h \<noteq> implicitTransactionState \<Longrightarrow> txState (endOfMessages eng err h) \<noteq> implicitTransactionState"
  by (auto simp: endOfMessages_def Let_def rollbackImplicit_keeps split: option.splits transactionState.splits)

section \<open>Simple queries\<close>


lemma counter_quiet: "engine_quiet counter_engine"
proof -
  have "quiet (fst (snd (counter_query q e)))" for q e by (cases e) (simp add: Let_def)
  then show ?thesis by (simp add: engine_quiet_def)
qed


text \<open>C14. In a failed transaction block, a simple query whose first statement is not \<open>COMMIT\<close>, \<open>ROLLBACK\<close> or \<open>ROLLBACK TO\<close> is
  refused as a whole: the engine is not asked, the session is unchanged, the client gets the error and the status of
  a failed block, and the block stays failed.\<close>

theorem failed_block_refuses:
  assumes "txState h = failedTransactionState" and "convertQuery eng text = Some (q # qs)"
    and "cq_AST q \<notin> {None, Some StCommit, Some StRollback, Some StRollbackSavepoint}"
  shows "\<exists>h'. receiveMessage eng h (QueryMsg text) ms = Proceed h' ms \<and> session_state h' = session_state h \<and>
    sent h' = sent h @ [ErrorResponse TransactionAborted, ReadyForQuery StatusFailed] \<and> txState h' = failedTransactionState"
proof -
  let ?h = "h\<lparr>preparedStatements := gm_del [] (preparedStatements h), portals := gm_del [] (portals h)\<rparr>"
  have "rejectStatementIfTransactionFailed q ?h = Some TransactionAborted"
    using assms(1,3) by (auto simp: rejectStatementIfTransactionFailed_def)
  then have "handleQuery eng text h = (True, Some TransactionAborted, ?h)"
    using assms(2,3) by (cases qs) (auto simp: handleQuery_def Let_def)
  then show ?thesis using assms(1)
    by (simp add: receiveMessage_def handleMessage_def endOfMessages_def tx_indicator_def)
qed

theorem failed_block_refuses_witness:
  "\<exists>h'. receiveMessage counter_engine (counter_connection\<lparr>txState := failedTransactionState\<rparr>) (QueryMsg [1, 2]) [] = Proceed h' [] \<and>
    session_state h' = session_state (counter_connection\<lparr>txState := failedTransactionState\<rparr>) \<and>
    sent h' = sent (counter_connection\<lparr>txState := failedTransactionState\<rparr>) @ [ErrorResponse TransactionAborted, ReadyForQuery StatusFailed] \<and>
    txState h' = failedTransactionState"
  by (rule failed_block_refuses [OF _ counter_statements]) simp_all

section \<open>Batches\<close>

text \<open>An error of a message of a batch leaves the flag for \<open>Sync\<close> set.\<close>

lemma batch_error_waits:
  assumes "msg = Parse n t \<or> msg = Describe b n \<or> msg = Bind t n \<or> msg = Execute n"
    and "handleMessage eng msg h = (stop, eom, Some err, h1)"
  shows "\<not> stop \<and> \<not> eom \<and> waitForSync h1"
proof -
  have outside: "waitForSync g' = waitForSync g" if "handleQueryOutsideEngine eng q g = (x, y, z, g')" for q g g' x y z
    using that by (auto simp: handleQueryOutsideEngine_def deallocatePreparedStatement_def discardAll_def engine_call_def
        handleCopyFromStdinQuery_def Let_def split: option.splits statement.splits if_splits prod.splits dest!: control_keeps(1))
  have start: "waitForSync g' = waitForSync g" if "startImplicitTransaction eng q g = (x, g')" for q g g' x
    using startImplicit_keeps [OF that] by (simp add: extends_quietly_def)
  show ?thesis
    using assms
    by (auto simp: handleMessage_def handleParse_def handleDescribe_def handleBind_def handleExecute_def engine_call_def Let_def
        split: option.splits if_splits prod.splits bool.splits dest!: outside start)
qed

text \<open>C38. The flag that makes the handler wait for \<open>Sync\<close> is not reset when an error in a batch has skipped to that \<open>Sync\<close>. A later
  \<open>COPY FROM STDIN\<close> by a simple query whose data is refused then makes the handler wait for a \<open>Sync\<close> that such a client
  never sends: it is told neither of the error nor that the connection is ready, and its further queries are skipped.\<close>

theorem stale_sync_flag_blocks:
  assumes "gm_get (preparedStatements h) name = None" and "txState h = idleTransactionState"
    and "convertQuery eng text = Some [q]" and "cq_AST q = Some StCopyFromStdin" and "NewContext eng (session_state h)"
    and "copy_chunk eng data (session_state h) = (loader, False, e)" and "Sync \<notin> set later"
  shows "\<exists>h'. run_connection eng h ([Describe True name, Sync, QueryMsg text, CopyData data] @ later) = AwaitSync h' \<and>
    sent h' = sent h @ [ErrorResponse (NoPreparedStatement name), ReadyForQuery StatusIdle, CopyInResponse]"
proof -
  let ?h1 = "endOfMessages eng (Some (NoPreparedStatement name)) (h\<lparr>waitForSync := True\<rparr>)"
  have h1: "?h1 = send [ReadyForQuery StatusIdle] (send [ErrorResponse (NoPreparedStatement name)] (h\<lparr>waitForSync := True\<rparr>))"
    using assms(2) by (simp add: endOfMessages_def Let_def tx_indicator_def)
  have m1: "receiveMessage eng h (Describe True name) (Sync # QueryMsg text # CopyData data # later) = Proceed ?h1 (QueryMsg text # CopyData data # later)"
    using assms(1) by (simp add: receiveMessage_def handleMessage_def handleDescribe_def discardToSync_def)
  let ?g = "?h1\<lparr>preparedStatements := gm_del [] (preparedStatements ?h1), portals := gm_del [] (portals ?h1)\<rparr>"
  have m2: "receiveMessage eng ?h1 (QueryMsg text) (CopyData data # later) = Proceed (handleCopyFromStdinQuery ?g) (CopyData data # later)"
    using assms(2-4) by (simp add: receiveMessage_def handleMessage_def handleQuery_def handleQueryOutsideEngine_def
        rejectStatementIfTransactionFailed_def h1 Let_def)
  let ?c = "handleCopyFromStdinQuery ?g"
  have g: "sent ?c = sent h @ [ErrorResponse (NoPreparedStatement name), ReadyForQuery StatusIdle, CopyInResponse]" "waitForSync ?c"
      "session_state ?c = session_state h" "copyState ?c = Some \<lparr>dataLoader = False, copyErr = False, startedTransaction = False\<rparr>"
    by (simp_all add: handleCopyFromStdinQuery_def h1)
  obtain b r where m3: "handleCopyData eng data ?c = (False, Some EngineError, rollbackCopyTransaction eng b r)"
    and s: "sent r = sent ?c" "waitForSync r"
    using assms(5,6) g by (auto simp: handleCopyData_def handleCopyDataHelper_def Let_def)
  have "receiveMessage eng ?c (CopyData data) later = AwaitSync (rollbackCopyTransaction eng b r)"
    using m3 s(2) assms(7) by (simp add: receiveMessage_def handleMessage_def discardToSync_def)
  then show ?thesis using m1 m2 s g(1) by simp
qed

theorem stale_sync_flag_blocks_witness:
  "\<exists>h'. run_connection counter_engine counter_connection ([Describe True [7], Sync, QueryMsg (gs ''COPY''), CopyData []] @ [QueryMsg [1, 2]]) = AwaitSync h' \<and>
    sent h' = sent counter_connection @ [ErrorResponse (NoPreparedStatement [7]), ReadyForQuery StatusIdle, CopyInResponse]"
  by (rule stale_sync_flag_blocks [OF _ _ counter_copy, where loader = True and e = "(5, 0, False, False)"]) (simp_all add: gm_get_def)

end
