(* ===== verification/Connection_Atomic.thy ===== *)
theory Connection_Atomic
  imports Connection_Props
begin

text \<open>
  A message with several statements is one transaction. The engine is a parameter; \<open>transactional\<close> says what the handler relies on.
\<close>

section \<open>A transactional engine\<close>

text \<open>
  What is stored for other sessions (\<open>committed\<close>), what the session sees (\<open>view\<close>) and whether it ignores autocommit. A statement that
  succeeds has its effect on the view, which is stored at once unless autocommit is ignored; one that fails stores nothing. Without
  an open transaction the session sees what is stored. \<open>ROLLBACK\<close> ends an open transaction, stores nothing and restores autocommit.
\<close>

definition plain_call :: "('e \<Rightarrow> 'd) \<Rightarrow> ('e \<Rightarrow> 'd) \<Rightarrow> ('e \<Rightarrow> bool) \<Rightarrow> ('e \<Rightarrow> bool) \<Rightarrow> ('d \<Rightarrow> 'd) \<Rightarrow> 'e \<Rightarrow> bool \<Rightarrow> 'e \<Rightarrow> bool" where
  "plain_call committed view ignoring in_tx eff e success e' \<longleftrightarrow>
     (if success then view e' = eff (view e) \<and> ignoring e' = ignoring e \<and>
        (if ignoring e then committed e' = committed e else committed e' = view e' \<and> \<not> in_tx e')
      else committed e' = committed e)"

definition transactional :: "'e engine \<Rightarrow> ('e \<Rightarrow> 'd) \<Rightarrow> ('e \<Rightarrow> 'd) \<Rightarrow> ('e \<Rightarrow> bool) \<Rightarrow> (ConvertedQuery \<Rightarrow> 'd \<Rightarrow> 'd) \<Rightarrow> bool" where
  "transactional eng committed view ignoring eff \<longleftrightarrow>
     (\<forall>e. NewContext eng e) \<and>
     (\<forall>e. \<not> GetTransaction eng e \<longrightarrow> view e = committed e) \<and>
     (\<forall>b e. let e' = SetIgnoreAutoCommit eng b e in
        committed e' = committed e \<and> view e' = view e \<and> ignoring e' = b \<and> GetTransaction eng e' = GetTransaction eng e) \<and>
     (\<forall>e. let e' = ClearTransactionLocalVariables eng e in committed e' = committed e \<and> GetTransaction eng e' = GetTransaction eng e) \<and>
     (\<forall>q e. cq_AST q = Some StOther \<longrightarrow> (case ComQuery eng q e of (success, _, e') \<Rightarrow>
        plain_call committed view ignoring (GetTransaction eng) (eff q) e success e')) \<and>
     (\<exists>q. convertQuery eng (gs ''ROLLBACK'') = Some [q] \<and> (\<forall>e. GetTransaction eng e \<longrightarrow> (case ComQuery eng q e of (_, _, e') \<Rightarrow>
        committed e' = committed e \<and> \<not> ignoring e' \<and> \<not> GetTransaction eng e')))"

lemma transactional_settings:
  assumes "transactional eng committed view ignoring eff"
  shows "NewContext eng e" and "\<not> GetTransaction eng e \<Longrightarrow> view e = committed e"
    and "committed (SetIgnoreAutoCommit eng b e) = committed e" and "view (SetIgnoreAutoCommit eng b e) = view e"
    and "ignoring (SetIgnoreAutoCommit eng b e) = b" and "GetTransaction eng (SetIgnoreAutoCommit eng b e) = GetTransaction eng e"
    and "committed (ClearTransactionLocalVariables eng e) = committed e"
    and "GetTransaction eng (ClearTransactionLocalVariables eng e) = GetTransaction eng e"
  using assms by (simp_all add: transactional_def Let_def)

lemma transactional_call:
  assumes "transactional eng committed view ignoring eff" and "cq_AST q = Some StOther" and "ComQuery eng q e = (s, ms, e')"
  shows "plain_call committed view ignoring (GetTransaction eng) (eff q) e s e'"
proof -
  have "\<forall>q e. cq_AST q = Some StOther \<longrightarrow> (case ComQuery eng q e of (success, _, e') \<Rightarrow>
      plain_call committed view ignoring (GetTransaction eng) (eff q) e success e')"
    using assms(1) by (simp add: transactional_def)
  then show ?thesis using assms(2,3) by (metis (no_types, lifting) case_prod_conv)
qed

lemma rollback_ends:
  assumes "transactional eng committed view ignoring eff" and "GetTransaction eng (session_state h)"
    and "runEngineTransactionControl eng (gs ''ROLLBACK'') h = (r, h')"
  shows "committed (session_state h') = committed (session_state h) \<and> \<not> ignoring (session_state h') \<and> \<not> GetTransaction eng (session_state h')"
proof -
  obtain q where q: "convertQuery eng (gs ''ROLLBACK'') = Some [q]"
    and c: "\<forall>e. GetTransaction eng e \<longrightarrow> (case ComQuery eng q e of (_, _, e') \<Rightarrow> committed e' = committed e \<and> \<not> ignoring e' \<and> \<not> GetTransaction eng e')"
    using assms(1) unfolding transactional_def by blast
  show ?thesis using assms(3) q c [rule_format, OF assms(2)] by (auto simp: runEngineTransactionControl_def split: prod.splits)
qed

section \<open>The end of an implicit block\<close>

lemma rollbackImplicit_ends:
  assumes t: "transactional eng committed view ignoring eff" and "txState h = implicitTransactionState"
  defines "e' \<equiv> session_state (rollbackImplicitTransaction eng h)"
  shows "committed e' = committed (session_state h) \<and> \<not> ignoring e' \<and> \<not> GetTransaction eng e'"
proof -
  let ?h = "clearTransactionLocalVars eng (h\<lparr>txState := idleTransactionState\<rparr>)"
  have c: "committed (session_state ?h) = committed (session_state h)"
    by (simp add: clearTransactionLocalVars_def transactional_settings [OF t])
  show ?thesis
  proof (cases "GetTransaction eng (session_state ?h)")
    case True
    obtain r h' where r: "runEngineTransactionControl eng (gs ''ROLLBACK'') ?h = (r, h')"
      by (cases "runEngineTransactionControl eng (gs ''ROLLBACK'') ?h")
    have "rollbackImplicitTransaction eng h = h'"
      using True r assms(2) by (simp add: rollbackImplicitTransaction_def restoredAutoCommitWithoutTransaction_def transactional_settings [OF t])
    then show ?thesis using rollback_ends [OF t True r] c by (simp add: e'_def)
  next
    case False
    then have "rollbackImplicitTransaction eng h = ?h\<lparr>session_state := SetIgnoreAutoCommit eng False (session_state ?h)\<rparr>"
      using assms(2) by (simp add: rollbackImplicitTransaction_def restoredAutoCommitWithoutTransaction_def transactional_settings [OF t] Let_def)
    then show ?thesis using False c by (simp add: e'_def transactional_settings [OF t])
  qed
qed

lemma commitImplicit_closed:
  assumes t: "transactional eng committed view ignoring eff" and "txState h = implicitTransactionState"
    and "\<not> GetTransaction eng (session_state h)" and "commitImplicitTransaction eng h = (r, h')"
  shows "r = None \<and> txState h' = idleTransactionState \<and> sent h' = sent h \<and> committed (session_state h') = committed (session_state h) \<and>
    \<not> ignoring (session_state h') \<and> \<not> GetTransaction eng (session_state h')"
  using assms(2-4)
  by (auto simp: commitImplicitTransaction_def clearTransactionLocalVars_def restoredAutoCommitWithoutTransaction_def transactional_settings [OF t])

section \<open>The loop over the statements\<close>

text \<open>One plain statement of a message: the first opens the implicit block, the last restores autocommit.\<close>

definition plain_start :: "'e engine \<Rightarrow> bool \<Rightarrow> 'e ConnectionHandler \<Rightarrow> 'e ConnectionHandler" where
  "plain_start eng is_last h =
     (let h = (if txState h = idleTransactionState
        then h\<lparr>session_state := SetIgnoreAutoCommit eng True (session_state h), txState := implicitTransactionState\<rparr> else h)
      in if is_last then h\<lparr>session_state := SetIgnoreAutoCommit eng False (session_state h)\<rparr> else h)"

lemma run_plain:
  assumes "cq_AST q = Some StOther" and "txState h \<in> {idleTransactionState, implicitTransactionState}" and "\<forall>e. NewContext eng e"
  shows "run_statements eng (q # qs) h = (case run_query eng q (plain_start eng (qs = []) h) of
      (Some err, h) \<Rightarrow> (True, Some err, h) | (None, h) \<Rightarrow> run_statements eng qs h)"
  using assms by (auto simp: rejectStatementIfTransactionFailed_def handleQueryOutsideEngine_def startImplicitTransaction_def
      inExplicitTransactionBlock_def plain_start_def Let_def)

text \<open>What a message asks of the engine: one statement after the other, the last with autocommit restored, up to the first that fails. Whether all succeed, what is sent, and the
  session behind it.\<close>

fun engine_runs :: "'e engine \<Rightarrow> ConvertedQuery list \<Rightarrow> 'e \<Rightarrow> bool \<times> backend_message list \<times> 'e" where
  "engine_runs eng [] e = (True, [], e)"
| "engine_runs eng (q # qs) e = (case ComQuery eng q (if qs = [] then SetIgnoreAutoCommit eng False e else e) of
     (False, ms, e) \<Rightarrow> (False, ms, e)
   | (True, ms, e) \<Rightarrow> (case engine_runs eng qs e of (success, ms', e) \<Rightarrow> (success, ms @ CommandComplete (StatementTag q) # ms', e)))"

text \<open>Where a block stands: the message has committed everything, or it has failed and the block is still to be rolled back.\<close>

definition all_done :: "'e engine \<Rightarrow> ('e \<Rightarrow> 'd) \<Rightarrow> ('e \<Rightarrow> bool) \<Rightarrow> 'd \<Rightarrow> backend_message list \<Rightarrow> 'e ConnectionHandler \<Rightarrow> conn_error option \<Rightarrow> 'e ConnectionHandler \<Rightarrow> bool" where
  "all_done eng committed ignoring d out h err h' \<longleftrightarrow>
     err = None \<and> txState h' = idleTransactionState \<and> committed (session_state h') = d \<and> \<not> ignoring (session_state h') \<and>
     \<not> GetTransaction eng (session_state h') \<and> sent h' = sent h @ out"

definition part_failed :: "('e \<Rightarrow> 'd) \<Rightarrow> backend_message list \<Rightarrow> 'e ConnectionHandler \<Rightarrow> conn_error option \<Rightarrow> 'e ConnectionHandler \<Rightarrow> bool" where
  "part_failed committed out h err h' \<longleftrightarrow>
     err = Some EngineError \<and> txState h' = implicitTransactionState \<and> committed (session_state h') = committed (session_state h) \<and>
     sent h' = sent h @ out"

lemma run_query_cases:
  assumes "run_query eng q h = (r, h')"
  obtains (failed) ms e where "r = Some EngineError" "ComQuery eng q (session_state h) = (False, ms, e)"
      "session_state h' = e" "txState h' = txState h" "sent h' = sent h @ ms"
    | (succeeded) ms e where "r = None" "ComQuery eng q (session_state h) = (True, ms, e)"
      "session_state h' = e" "txState h' = txState h" "sent h' = sent h @ ms @ [CommandComplete (StatementTag q)]"
  using assms by (auto simp: run_query_def engine_call_def split: prod.splits if_splits)

text \<open>The session with which the first statement is asked: an idle connection opens the implicit block.\<close>

definition block_state :: "'e engine \<Rightarrow> 'e ConnectionHandler \<Rightarrow> 'e" where
  "block_state eng h = (if txState h = idleTransactionState then SetIgnoreAutoCommit eng True (session_state h) else session_state h)"

lemma plain_start_simps:
  assumes t: "transactional eng committed view ignoring eff"
    and "txState h = implicitTransactionState \<and> ignoring (session_state h) \<or> txState h = idleTransactionState"
  shows "txState (plain_start eng is_last h) = implicitTransactionState" "sent (plain_start eng is_last h) = sent h"
    "committed (session_state (plain_start eng is_last h)) = committed (session_state h)"
    "view (session_state (plain_start eng is_last h)) = view (session_state h)" "ignoring (session_state (plain_start eng is_last h)) \<longleftrightarrow> \<not> is_last"
    "session_state (plain_start eng is_last h) = (if is_last then SetIgnoreAutoCommit eng False (block_state eng h) else block_state eng h)"
  using assms(2) by (auto simp: plain_start_def block_state_def transactional_settings [OF t])

lemma plain_statements:
  assumes t: "transactional eng committed view ignoring eff"
  shows "\<forall>q \<in> set (q # qs). cq_AST q = Some StOther \<Longrightarrow>
    txState h = implicitTransactionState \<and> ignoring (session_state h) \<or> txState h = idleTransactionState \<and> qs \<noteq> [] \<Longrightarrow>
    engine_runs eng (q # qs) (block_state eng h) = (success, out, e') \<Longrightarrow>
    \<exists>err h'. run_statements eng (q # qs) h = (True, err, h') \<and>
      (if success then all_done eng committed ignoring (fold eff (q # qs) (view (session_state h))) out h err h' else part_failed committed out h err h')"
proof (induction qs arbitrary: q h out)
  case Nil
  let ?h = "plain_start eng True h"
  note h = plain_start_simps [OF t, of h True]
  obtain r h' where rq: "run_query eng q ?h = (r, h')" by (cases "run_query eng q ?h")
  have rs: "run_statements eng [q] h = (case (r, h') of (Some err, h) \<Rightarrow> (True, Some err, h) | (None, h) \<Rightarrow> run_statements eng [] h)"
    using run_plain [of q h eng "[]"] Nil.prems transactional_settings(1) [OF t] rq by auto
  show ?case using rq
  proof (cases rule: run_query_cases)
    case (failed ms e)
    then have "committed e = committed (session_state h)"
      using transactional_call [OF t _ failed(2)] Nil.prems h by (simp add: plain_call_def)
    then have "part_failed committed ms h r h'" using failed h Nil.prems by (simp add: part_failed_def)
    then show ?thesis using rs failed(1,2) h(6) Nil.prems by auto
  next
    case (succeeded ms e)
    then have e: "committed e = eff q (view (session_state h))" "\<not> GetTransaction eng e"
      using transactional_call [OF t _ succeeded(2)] Nil.prems h by (simp_all add: plain_call_def)
    obtain r2 h2 where c: "commitImplicitTransaction eng h' = (r2, h2)" by (cases "commitImplicitTransaction eng h'")
    have "all_done eng committed ignoring (eff q (view (session_state h))) (ms @ [CommandComplete (StatementTag q)]) h None h2 \<and> r2 = None"
      using commitImplicit_closed [OF t _ _ c] succeeded h e Nil.prems by (simp add: all_done_def)
    then show ?thesis using rs succeeded(1,2) h(6) c Nil.prems by auto
  qed
next
  case (Cons q' qs)
  let ?h = "plain_start eng False h"
  note h = plain_start_simps [OF t, of h False]
  obtain r h' where rq: "run_query eng q ?h = (r, h')" by (cases "run_query eng q ?h")
  have rs: "run_statements eng (q # q' # qs) h = (case (r, h') of (Some err, h) \<Rightarrow> (True, Some err, h) | (None, h) \<Rightarrow> run_statements eng (q' # qs) h)"
    using run_plain [of q h eng "q' # qs"] Cons.prems transactional_settings(1) [OF t] rq by auto
  show ?case using rq
  proof (cases rule: run_query_cases)
    case (failed ms e)
    then have "committed e = committed (session_state h)"
      using transactional_call [OF t _ failed(2)] Cons.prems h by (simp add: plain_call_def)
    then have "part_failed committed ms h r h'" using failed h Cons.prems by (simp add: part_failed_def)
    then show ?thesis using rs failed(1,2) h(6) Cons.prems by auto
  next
    case (succeeded ms e)
    then have e: "committed e = committed (session_state h)" "view e = eff q (view (session_state h))" "ignoring e"
      using transactional_call [OF t _ succeeded(2)] Cons.prems h by (auto simp: plain_call_def)
    have h': "txState h' = implicitTransactionState" "block_state eng h' = e" using succeeded h Cons.prems by (auto simp: block_state_def)
    obtain out' where out': "engine_runs eng (q' # qs) (block_state eng h') = (success, out', e')" "out = ms @ CommandComplete (StatementTag q) # out'"
      using Cons.prems(2,3) succeeded(2) h(6) h'(2) by (auto simp del: engine_runs.simps(2) simp: engine_runs.simps(2) [of eng q] split: prod.splits)
    have "\<exists>err h''. run_statements eng (q' # qs) h' = (True, err, h'') \<and>
      (if success then all_done eng committed ignoring (fold eff (q' # qs) (view (session_state h'))) out' h' err h'' else part_failed committed out' h' err h'')"
      using Cons.IH [OF _ _ out'(1)] Cons.prems(1) succeeded(3) h'(1) e(3) by auto
    then show ?thesis using rs succeeded h e out'(2) Cons.prems(2) by (auto simp: all_done_def part_failed_def split: if_splits)
  qed
qed

section \<open>The message\<close>

text \<open>C10. On an engine that is transactional (the contract \<open>transactional\<close>: statements that succeed take effect on what the session sees, are stored at once unless autocommit is ignored, a statement that
  fails stores nothing, and \<open>ROLLBACK\<close> ends an open transaction), a simple query with several plain statements, sent to an idle connection without an open transaction, is one transaction. The engine is asked for the statements in order, up to
  the first that fails. If all succeed, all their effects are stored, in order; if one fails, nothing is stored. The client gets exactly what the statements send, each one that succeeds with its \<open>CommandComplete\<close>, then an error
  exactly if one has failed, and one \<open>ReadyForQuery\<close> of the handler; the connection is idle, and the session has no open transaction and autocommits again.\<close>

theorem multi_statement_atomic:
  assumes "transactional eng committed view ignoring eff" and "convertQuery eng text = Some (q # q' # qs)"
    and "\<forall>p \<in> set (q # q' # qs). cq_AST p = Some StOther"
    and "txState h = idleTransactionState" and "\<not> GetTransaction eng (session_state h)"
    and "engine_runs eng (q # q' # qs) (SetIgnoreAutoCommit eng True (session_state h)) = (success, out, e')"
  shows "\<exists>h'. receiveMessage eng h (QueryMsg text) ms = Proceed h' ms \<and> txState h' = idleTransactionState \<and>
    \<not> ignoring (session_state h') \<and> \<not> GetTransaction eng (session_state h') \<and>
    committed (session_state h') = (if success then fold eff (q # q' # qs) (committed (session_state h)) else committed (session_state h)) \<and>
    sent h' = sent h @ out @ (if success then [] else [ErrorResponse EngineError]) @ [ReadyForQuery StatusIdle]"
proof -
  let ?h = "h\<lparr>preparedStatements := gm_del [] (preparedStatements h), portals := gm_del [] (portals h)\<rparr>"
  have seen: "view (session_state ?h) = committed (session_state h)" using transactional_settings(2) [OF assms(1,5)] by simp
  have idle: "txState ?h = implicitTransactionState \<and> ignoring (session_state ?h) \<or> txState ?h = idleTransactionState \<and> q' # qs \<noteq> []" using assms(4) by simp
  have runs: "engine_runs eng (q # q' # qs) (block_state eng ?h) = (success, out, e')" using assms(4,6) by (simp add: block_state_def)
  obtain err h1 where r: "run_statements eng (q # q' # qs) ?h = (True, err, h1)"
    and c: "if success then all_done eng committed ignoring (fold eff (q # q' # qs) (committed (session_state h))) out ?h err h1 else part_failed committed out ?h err h1"
    using plain_statements [OF assms(1,3) idle runs] unfolding seen by blast
  have "handleQuery eng text h = (True, err, h1)" using r assms(2) by (simp add: handleQuery_def Let_def)
  then have recv: "receiveMessage eng h (QueryMsg text) ms = Proceed (endOfMessages eng err h1) ms"
    by (simp add: receiveMessage_def handleMessage_def Let_def)
  show ?thesis
  proof (cases success)
    case True
    then show ?thesis using c unfolding recv by (auto simp: all_done_def endOfMessages_def tx_indicator_def Let_def)
  next
    case False
    then have f: "part_failed committed out ?h err h1" using c by simp
    then have "txState h1 = implicitTransactionState" by (simp add: part_failed_def)
    note ends = rollbackImplicit_ends [OF assms(1) this]
    show ?thesis unfolding recv using f ends False
      by (auto simp: part_failed_def endOfMessages_def tx_indicator_def rollbackImplicit_keeps Let_def)
  qed
qed

lemma counter_transactional:
  "transactional counter_engine fst (\<lambda>(c, v, _, tx). if tx then v else c) (\<lambda>(_, _, ign, _). ign) (\<lambda>q n. n + unat (hd (StatementTag q)))"
proof -
  have "convertQuery counter_engine (gs ''ROLLBACK'') = Some [\<lparr>cq_String = gs ''ROLLBACK'', cq_AST = Some StRollback, StatementTag = gs ''ROLLBACK''\<rparr>]"
    by (simp add: convertQuery_def counter_parse_def)
  then show ?thesis by (auto simp: transactional_def plain_call_def Let_def)
qed

theorem multi_statement_atomic_witness:
  "\<exists>h'. receiveMessage counter_engine counter_connection (QueryMsg [1, 2]) [] = Proceed h' [] \<and> fst (session_state h') = 8 \<and>
    sent h' = [EngineRows, CommandComplete [1], EngineRows, CommandComplete [2], ReadyForQuery StatusIdle]"
proof -
  let ?q = "\<lambda>tag. \<lparr>cq_String = [1, 2], cq_AST = Some StOther, StatementTag = [tag]\<rparr> :: ConvertedQuery"
  have "engine_runs counter_engine [?q 1, ?q 2] (SetIgnoreAutoCommit counter_engine True (session_state counter_connection)) =
    (True, [EngineRows, CommandComplete [1], EngineRows, CommandComplete [2]], 8, 8, False, False)" by simp
  from multi_statement_atomic [OF counter_transactional counter_statements _ _ _ this, of "[]"] show ?thesis by auto
qed

section \<open>Batches\<close>

text \<open>C13. An error in a batch of extended query messages (\<open>Parse\<close>, \<open>Describe\<close>, \<open>Bind\<close> or \<open>Execute\<close>) is reported once, the rest of the batch is skipped up to and with the
  next \<open>Sync\<close>, and the connection is ready again. If the handler stood in an implicit block, the connection is now idle, the transaction variables are cleared and the engine was asked for \<open>ROLLBACK\<close>, or, without an open
  transaction, autocommit was restored; on a transactional engine nothing of the block is stored, no transaction is open, and the session autocommits. An explicit block is failed,
  and the engine is not asked; outside of a block nothing changes.\<close>

theorem batch_error_recovers:
  assumes "msg = Parse n t \<or> msg = Describe b n \<or> msg = Bind t n \<or> msg = Execute n"
    and "handleMessage eng msg h = (stop, eom, Some err, h1)" and "Sync \<notin> set skipped"
  shows "\<exists>h'. receiveMessage eng h msg (skipped @ Sync # rest) = Proceed h' rest \<and>
    sent h' = sent h1 @ [ErrorResponse err, ReadyForQuery (tx_indicator (txState h'))] \<and>
    (if txState h1 = implicitTransactionState then
       txState h' = idleTransactionState \<and> session_state h' = session_state (rollbackImplicitTransaction eng h1) \<and>
       (transactional eng committed view ignoring eff \<longrightarrow>
         committed (session_state h') = committed (session_state h1) \<and> \<not> GetTransaction eng (session_state h') \<and> \<not> ignoring (session_state h'))
     else
       txState h' = (if txState h1 = explicitTransactionState then failedTransactionState else txState h1) \<and> session_state h' = session_state h1)"
proof -
  let ?h = "endOfMessages eng (Some err) h1"
  have "dropWhile (\<lambda>m. m \<noteq> Sync) (skipped @ Sync # rest) = Sync # rest" using assms(3) by (induction skipped) auto
  then have recv: "receiveMessage eng h msg (skipped @ Sync # rest) = Proceed ?h rest"
    using assms(2) batch_error_waits [OF assms(1,2)] by (simp add: receiveMessage_def discardToSync_def)
  have "txState ?h = idleTransactionState \<and> session_state ?h = session_state (rollbackImplicitTransaction eng h1)"
    if "txState h1 = implicitTransactionState"
    using that by (simp add: endOfMessages_def rollbackImplicit_keeps)
  moreover have "txState ?h = (if txState h1 = explicitTransactionState then failedTransactionState else txState h1) \<and> session_state ?h = session_state h1"
    if "txState h1 \<noteq> implicitTransactionState"
    using that by (simp add: endOfMessages_def split: transactionState.split)
  moreover have "committed (session_state ?h) = committed (session_state h1) \<and> \<not> GetTransaction eng (session_state ?h) \<and> \<not> ignoring (session_state ?h)"
    if "txState h1 = implicitTransactionState" "transactional eng committed view ignoring eff"
    using rollbackImplicit_ends [OF that(2,1)] that(1) by (simp add: endOfMessages_def)
  ultimately show ?thesis using recv endOfMessages_sent [of eng "Some err" h1] by auto
qed

theorem batch_error_recovers_witness:
  "\<exists>h'. receiveMessage counter_engine (counter_connection\<lparr>txState := implicitTransactionState, session_state := (5, 7, True, True)\<rparr>) (Execute [7]) ([Flush] @ Sync # [Terminate]) =
      Proceed h' [Terminate] \<and> sent h' = [ErrorResponse (NoPortal [7]), ReadyForQuery StatusIdle] \<and>
    fst (session_state h') = 5 \<and> \<not> GetTransaction counter_engine (session_state h')"
proof -
  let ?h = "counter_connection\<lparr>txState := implicitTransactionState, session_state := (5, 7, True, True)\<rparr>"
  have "handleMessage counter_engine (Execute [7]) ?h = (False, False, Some (NoPortal [7]), ?h\<lparr>waitForSync := True\<rparr>)"
    by (simp add: handleMessage_def handleExecute_def gm_get_def)
  from batch_error_recovers [where n = "[7]", OF _ this, of _ _ "[Flush]" "[Terminate]" fst "\<lambda>(c, v, _, tx). if tx then v else c" "\<lambda>(_, _, ign, _). ign" "\<lambda>q n. n + unat (hd (StatementTag q))"]
  show ?thesis using counter_transactional by (auto simp: tx_indicator_def)
qed

end
