(* ===== verification/Connection_Copy.thy ===== *)
theory Connection_Copy
  imports Connection_Props
begin

text \<open>
  The exchange of \<open>COPY FROM STDIN\<close>: how often the client is told that the connection is ready.
\<close>

section \<open>A load that has failed\<close>

definition readies :: "backend_message list \<Rightarrow> nat" where
  "readies ms = length (filter (\<lambda>m. case m of ReadyForQuery _ \<Rightarrow> True | _ \<Rightarrow> False) ms)"

lemma readies_simps [simp]:
  "readies [] = 0" "readies (ms @ ns) = readies ms + readies ns"
  "readies (ReadyForQuery s # ms) = Suc (readies ms)" "readies (ErrorResponse e # ms) = readies ms"
  "readies (CommandComplete t # ms) = readies ms" "readies (CopyInResponse # ms) = readies ms"
  by (simp_all add: readies_def)

lemma rollbackCopyTransaction_copyState [simp]: "copyState (rollbackCopyTransaction eng b h) = copyState h"
  by (auto simp: rollbackCopyTransaction_def Let_def restoredAutoCommitWithoutTransaction_def runEngineTransactionControl_def
      split: option.splits prod.splits)

lemma rollbackImplicit_copyState [simp]: "copyState (rollbackImplicitTransaction eng h) = copyState h"
  by (auto simp: rollbackImplicitTransaction_def Let_def clearTransactionLocalVars_def restoredAutoCommitWithoutTransaction_def
      runEngineTransactionControl_def split: option.splits prod.splits)

lemma endOfMessages_keeps:
  "copyState (endOfMessages eng err h) = copyState h" "waitForSync (endOfMessages eng err h) = waitForSync h"
  using rollbackImplicit_keeps(1) [of h eng]
  by (auto simp: endOfMessages_def Let_def extends_quietly_def split: option.splits transactionState.splits)

lemma endOfMessages_readies: "\<exists>out. sent (endOfMessages eng err h) = sent h @ out \<and> readies out = 1"
  using endOfMessages_sent [of eng err h] by (auto split: option.splits)

text \<open>The rest of the data is dropped, and \<open>CopyDone\<close> ends the load without a word.\<close>

lemma failed_load_silent:
  assumes "copyState h = Some cs" and "copyErr cs"
  shows "run_connection eng h (map CopyData chunks @ [CopyDone]) = Proceed (h\<lparr>copyState := None\<rparr>) []"
  using assms
  by (induction chunks) (simp_all add: receiveMessage_def handleMessage_def handleCopyData_def handleCopyDone_def Let_def)

section \<open>A load that goes on\<close>

lemma chunk_cases:
  assumes "copyState h = Some cs" and "\<not> copyErr cs" and "\<not> waitForSync h"
  obtains (more_data) h' cs' where "receiveMessage eng h (CopyData data) ms = Proceed h' ms" "sent h' = sent h"
      "copyState h' = Some cs'" "\<not> copyErr cs'" "\<not> waitForSync h'"
    | (failed) h' cs' out where "receiveMessage eng h (CopyData data) ms = Proceed h' ms" "sent h' = sent h @ out" "readies out = 1"
      "copyState h' = Some cs'" "copyErr cs'"
proof -
  obtain eom err h1 where r: "handleCopyDataHelper eng data h = (eom, err, h1)" by (metis prod.exhaust)
  have k: "sent h1 = sent h" "\<not> waitForSync h1" "\<not> eom" "\<exists>cs'. copyState h1 = Some cs' \<and> \<not> copyErr cs'"
    using r assms by (auto simp: handleCopyDataHelper_def Let_def split: if_splits prod.splits)
  then obtain cs' where cs': "copyState h1 = Some cs'" "\<not> copyErr cs'" by blast
  show ?thesis
  proof (cases err)
    case None
    then have "receiveMessage eng h (CopyData data) ms = Proceed h1 ms"
      using r assms k cs' by (simp add: receiveMessage_def handleMessage_def handleCopyData_def Let_def)
    then show ?thesis using more_data k cs' by blast
  next
    case (Some e)
    let ?h = "rollbackCopyTransaction eng (startedTransaction cs') (h1\<lparr>copyState := Some (cs'\<lparr>copyErr := True\<rparr>)\<rparr>)"
    have "receiveMessage eng h (CopyData data) ms = Proceed (endOfMessages eng err ?h) ms"
      using r assms k cs' Some by (simp add: receiveMessage_def handleMessage_def handleCopyData_def Let_def)
    moreover obtain out where "sent (endOfMessages eng err ?h) = sent ?h @ out" "readies out = 1" using endOfMessages_readies by blast
    ultimately show ?thesis using failed k by (simp add: endOfMessages_keeps)
  qed
qed

lemma done_ready:
  assumes "copyState h = Some cs" and "\<not> copyErr cs" and "\<not> waitForSync h"
  shows "\<exists>h' out. receiveMessage eng h CopyDone ms = Proceed h' ms \<and> sent h' = sent h @ out \<and> readies out = 1 \<and> copyState h' = None"
proof -
  obtain eom err h1 where r: "handleCopyDone eng h = (eom, err, h1)" by (metis prod.exhaust)
  have k: "\<not> waitForSync h1" "copyState h1 = None" "err \<noteq> None \<or> eom" "\<exists>out. sent h1 = sent h @ out \<and> readies out = 0"
    using r assms by (auto simp: handleCopyDone_def Let_def split: if_splits prod.splits option.splits)
  have "receiveMessage eng h CopyDone ms = Proceed (endOfMessages eng err h1) ms"
    using r k by (auto simp: receiveMessage_def handleMessage_def Let_def)
  moreover obtain out where "sent (endOfMessages eng err h1) = sent h1 @ out" "readies out = 1" using endOfMessages_readies by blast
  ultimately show ?thesis using k by (auto simp: endOfMessages_keeps)
qed

lemma load_answered:
  assumes "copyState h = Some cs" and "\<not> copyErr cs" and "\<not> waitForSync h"
  shows "\<exists>h' out. run_connection eng h (map CopyData chunks @ [CopyDone]) = Proceed h' [] \<and> sent h' = sent h @ out \<and>
    readies out = 1 \<and> copyState h' = None"
  using assms
proof (induction chunks arbitrary: h cs)
  case Nil
  then show ?case using done_ready [of h cs eng "[]"] by auto
next
  case (Cons data chunks)
  show ?case using Cons.prems
  proof (cases rule: chunk_cases [where eng = eng and data = data and ms = "map CopyData chunks @ [CopyDone]"])
    case (more_data h' cs')
    then show ?thesis using Cons.IH [of h' cs'] by simp
  next
    case (failed h' cs' out)
    then show ?thesis using failed_load_silent [of h' cs' eng chunks] by simp
  qed
qed

section \<open>The exchange\<close>

lemma copy_in_starts:
  assumes "convertQuery eng text = Some [q]" and "cq_AST q = Some StCopyFromStdin" and "txState h \<noteq> failedTransactionState"
  shows "\<exists>h'. receiveMessage eng h (QueryMsg text) ms = Proceed h' ms \<and> sent h' = sent h @ [CopyInResponse] \<and>
    waitForSync h' = waitForSync h \<and> txState h' = txState h \<and> session_state h' = session_state h \<and>
    copyState h' = Some \<lparr>dataLoader = False, copyErr = False, startedTransaction = False\<rparr>"
  using assms by (simp add: receiveMessage_def handleMessage_def handleQuery_def handleQueryOutsideEngine_def
      rejectStatementIfTransactionFailed_def handleCopyFromStdinQuery_def Let_def)

text \<open>C12. On a connection that has no stale flag for \<open>Sync\<close> and is not in a failed transaction block, a simple query with \<open>COPY FROM STDIN\<close> as its only statement whose client sends its data and then \<open>CopyDone\<close> gets exactly one \<open>ReadyForQuery\<close>,
  however many messages the data has and whether a row is refused, the load cannot be finished, or all goes well; then
  the load is over.\<close>

theorem copy_answered_once:
  assumes "convertQuery eng text = Some [q]" and "cq_AST q = Some StCopyFromStdin" and "txState h \<noteq> failedTransactionState"
    and "\<not> waitForSync h"
  shows "\<exists>h' out. run_connection eng h (QueryMsg text # map CopyData chunks @ [CopyDone]) = Proceed h' [] \<and>
    sent h' = sent h @ CopyInResponse # out \<and> readies out = 1 \<and> copyState h' = None"
proof -
  obtain h1 where "receiveMessage eng h (QueryMsg text) (map CopyData chunks @ [CopyDone]) = Proceed h1 (map CopyData chunks @ [CopyDone])"
    and h1: "sent h1 = sent h @ [CopyInResponse]" "\<not> waitForSync h1"
      "copyState h1 = Some \<lparr>dataLoader = False, copyErr = False, startedTransaction = False\<rparr>"
    using copy_in_starts [OF assms(1-3)] assms(4) by metis
  moreover from load_answered [OF h1(3) _ h1(2), of eng chunks] h1(1) obtain h' out where
    "run_connection eng h1 (map CopyData chunks @ [CopyDone]) = Proceed h' []" "sent h' = sent h @ CopyInResponse # out"
    "readies out = 1" "copyState h' = None" by auto
  ultimately show ?thesis by auto
qed

theorem copy_answered_once_witness:
  "\<exists>h' out. run_connection counter_engine counter_connection (QueryMsg (gs ''COPY'') # map CopyData [[1], [], [2]] @ [CopyDone]) = Proceed h' [] \<and>
    sent h' = sent counter_connection @ CopyInResponse # out \<and> readies out = 1 \<and> copyState h' = None"
  by (rule copy_answered_once [OF counter_copy]) simp_all

text \<open>A client that answers the error of a load by \<open>CopyFail\<close>, and not by \<open>CopyDone\<close>, is told twice that the connection is ready:
  the second one looks like the answer to its next query.\<close>

theorem copy_fail_answered_twice:
  assumes "convertQuery eng text = Some [q]" and "cq_AST q = Some StCopyFromStdin" and "txState h = idleTransactionState"
    and "\<not> waitForSync h" and "NewContext eng (session_state h)" and "copy_chunk eng data (session_state h) = (True, False, e)"
  shows "\<exists>h'. run_connection eng h [QueryMsg text, CopyData data, CopyFail] = Proceed h' [] \<and>
    sent h' = sent h @ [CopyInResponse, ErrorResponse EngineError, ReadyForQuery StatusIdle, ReadyForQuery StatusIdle]"
proof -
  obtain h1 where m1: "receiveMessage eng h (QueryMsg text) [CopyData data, CopyFail] = Proceed h1 [CopyData data, CopyFail]"
    and h1: "sent h1 = sent h @ [CopyInResponse]" "\<not> waitForSync h1" "txState h1 = idleTransactionState" "session_state h1 = session_state h"
      "copyState h1 = Some \<lparr>dataLoader = False, copyErr = False, startedTransaction = False\<rparr>"
    using copy_in_starts [OF assms(1,2)] assms(3,4) by (metis transactionState.distinct(5))
  have tx: "txState (rollbackCopyTransaction eng b g) = txState g" for b g
    by (auto simp: rollbackCopyTransaction_def Let_def restoredAutoCommitWithoutTransaction_def)
  obtain b where d: "handleCopyData eng data h1 = (False, Some EngineError, rollbackCopyTransaction eng b
      (h1\<lparr>session_state := e, copyState := Some \<lparr>dataLoader = True, copyErr = True, startedTransaction = b\<rparr>\<rparr>))"
    using h1 assms(5,6) by (cases "GetTransaction eng (session_state h)") (auto simp: handleCopyData_def handleCopyDataHelper_def Let_def)
  show ?thesis using m1 d h1
    by (simp add: receiveMessage_def handleMessage_def handleCopyFail_def endOfMessages_def tx tx_indicator_def Let_def)
qed

theorem copy_fail_answered_twice_witness:
  "\<exists>h'. run_connection counter_engine counter_connection [QueryMsg (gs ''COPY''), CopyData [], CopyFail] = Proceed h' [] \<and>
    sent h' = sent counter_connection @ [CopyInResponse, ErrorResponse EngineError, ReadyForQuery StatusIdle, ReadyForQuery StatusIdle]"
  by (rule copy_fail_answered_twice [OF counter_copy, where e = "(5, 0, False, False)"]) simp_all

end
