(* ===== verification/Plpgsql_Text.thy ===== *)
theory Plpgsql_Text
  imports Prelude
begin

text \<open>
  The functions on text that PL/pgSQL code uses: those of Go's \<open>strings\<close> and \<open>strconv\<close>, and the folding of identifiers in
  \<open>src/server/plpgsql/interpreter_stack.go\<close>. Letters are those of ASCII; numbers are far from the limits of \<open>int\<close>.
\<close>

section \<open>Strings\<close>

definition ToLower :: "gostring \<Rightarrow> gostring" where
  "ToLower s = map (\<lambda>b. if 65 \<le> b \<and> b \<le> 90 then b + 32 else b) s"

definition EqualFold :: "gostring \<Rightarrow> gostring \<Rightarrow> bool" where
  "EqualFold s t \<longleftrightarrow> ToLower s = ToLower t"

definition HasPrefix :: "gostring \<Rightarrow> gostring \<Rightarrow> bool" where
  "HasPrefix s p \<longleftrightarrow> take (length p) s = p"

text \<open>\<open>strings.ReplaceAll\<close> for a non-empty \<open>old\<close>: from left to right, without overlaps.\<close>

function ReplaceAll :: "gostring \<Rightarrow> gostring \<Rightarrow> gostring \<Rightarrow> gostring" where
  "ReplaceAll s old new =
     (case s of
       [] \<Rightarrow> []
     | b # r \<Rightarrow> if old \<noteq> [] \<and> HasPrefix s old then new @ ReplaceAll (drop (length old) s) old new else b # ReplaceAll r old new)"
  by pat_completeness auto
termination by (relation "measure (\<lambda>(s, _, _). length s)") auto

declare ReplaceAll.simps [simp del]

text \<open>\<open>strings.Index\<close>: the first position, \<open>None\<close> for \<open>-1\<close>.\<close>

fun Index_of :: "gostring \<Rightarrow> gostring \<Rightarrow> nat option" where
  "Index_of [] p = (if p = [] then Some 0 else None)"
| "Index_of (b # s) p = (if HasPrefix (b # s) p then Some 0 else map_option Suc (Index_of s p))"

fun Split_byte :: "byte \<Rightarrow> gostring \<Rightarrow> gostring list" where
  "Split_byte d [] = [[]]"
| "Split_byte d (b # s) = (if b = d then [] # Split_byte d s else (case Split_byte d s of [] \<Rightarrow> [[b]] | p # ps \<Rightarrow> (b # p) # ps))"

definition is_space :: "byte \<Rightarrow> bool" where
  "is_space b \<longleftrightarrow> b = 32 \<or> 9 \<le> b \<and> b \<le> 13"

definition TrimSpace :: "gostring \<Rightarrow> gostring" where
  "TrimSpace s = rev (dropWhile is_space (rev (dropWhile is_space s)))"

definition Trim_byte :: "byte \<Rightarrow> gostring \<Rightarrow> gostring" where
  "Trim_byte c s = rev (dropWhile (\<lambda>b. b = c) (rev (dropWhile (\<lambda>b. b = c) s)))"

section \<open>Numbers\<close>

fun itoa_nat :: "nat \<Rightarrow> gostring" where
  "itoa_nat n = (if n < 10 then [of_nat (48 + n)] else itoa_nat (n div 10) @ [of_nat (48 + n mod 10)])"

declare itoa_nat.simps [simp del]

definition Itoa :: "int \<Rightarrow> gostring" where
  "Itoa n = (if n < 0 then 45 # itoa_nat (nat (- n)) else itoa_nat (nat n))"

definition is_digit :: "byte \<Rightarrow> bool" where
  "is_digit b \<longleftrightarrow> 48 \<le> b \<and> b \<le> 57"

definition digits_value :: "gostring \<Rightarrow> nat" where
  "digits_value s = foldl (\<lambda>n b. 10 * n + (unat b - 48)) 0 s"

definition Atoi :: "gostring \<Rightarrow> int option" where
  "Atoi s =
     (let digits = (case s of b # r \<Rightarrow> if b = 45 \<or> b = 43 then r else s | [] \<Rightarrow> []) in
      if digits = [] \<or> \<not> list_all is_digit digits then None
      else Some (if hd s = 45 then - int (digits_value digits) else int (digits_value digits)))"

lemma digit_byte: "n < 10 \<Longrightarrow> unat (of_nat (48 + n) :: byte) = 48 + n"
  by (simp add: unat_of_nat take_bit_nat_eq_self del: of_nat_add)

lemma digit_is_digit: "n < 10 \<Longrightarrow> is_digit (of_nat (48 + n))"
  using digit_byte [of n] by (simp add: is_digit_def word_le_nat_alt)

lemma itoa_nat_digits: "list_all is_digit (itoa_nat n)" and itoa_nat_not_Nil [simp]: "itoa_nat n \<noteq> []"
  and itoa_nat_value: "digits_value (itoa_nat n) = n"
proof (induction n rule: itoa_nat.induct)
  case (1 n)
  { case 1 then show ?case using "1.IH"(1) digit_is_digit by (subst itoa_nat.simps) (simp del: of_nat_add) }
  { case 2 then show ?case by (subst itoa_nat.simps) simp }
  { case 3 then show ?case using "1.IH"(3) digit_byte [of n] digit_byte [of "n mod 10"]
      by (subst itoa_nat.simps) (simp add: digits_value_def del: of_nat_add) }
qed

lemma itoa_nat_inj: "itoa_nat m = itoa_nat n \<longleftrightarrow> m = n"
  using itoa_nat_value by metis

lemma Atoi_Itoa: "0 \<le> n \<Longrightarrow> Atoi (Itoa n) = Some n"
proof -
  assume n: "0 \<le> n"
  obtain b r where s: "itoa_nat (nat n) = b # r" by (cases "itoa_nat (nat n)") auto
  then have "is_digit b" using itoa_nat_digits [of "nat n"] by simp
  then have "b \<noteq> 45" "b \<noteq> 43" by (auto simp: is_digit_def)
  then show ?thesis using n s itoa_nat_digits [of "nat n"] itoa_nat_value [of "nat n"] by (simp add: Itoa_def Atoi_def)
qed

section \<open>Identifiers\<close>

abbreviation Quot :: byte where "Quot \<equiv> 34"

definition NormalizeIdentifier :: "gostring \<Rightarrow> gostring" where
  "NormalizeIdentifier ident =
     (if 2 \<le> length ident \<and> hd ident = Quot \<and> last ident = Quot
      then ReplaceAll (butlast (tl ident)) [Quot, Quot] [Quot]
      else ToLower ident)"

text \<open>A quoted identifier must have no quotes inside; others are of letters, digits, \<open>_\<close> and \<open>$\<close>.\<close>

definition ident_byte :: "bool \<Rightarrow> byte \<Rightarrow> bool" where
  "ident_byte is_first b \<longleftrightarrow>
     b = 95 \<or> 97 \<le> b \<and> b \<le> 122 \<or> 65 \<le> b \<and> b \<le> 90 \<or> \<not> is_first \<and> (b = 36 \<or> is_digit b)"

definition isIdentifier :: "gostring \<Rightarrow> bool" where
  "isIdentifier s \<longleftrightarrow> s \<noteq> [] \<and>
     (if hd s = Quot then 2 \<le> length s \<and> last s = Quot \<and> Quot \<notin> set (butlast (tl s))
      else ident_byte True (hd s) \<and> list_all (ident_byte False) (tl s))"

definition NormalizeIdentifierPath :: "gostring \<Rightarrow> gostring option" where
  "NormalizeIdentifierPath text =
     (let text = TrimSpace text in
      case Index_of text [46] of
        None \<Rightarrow> if isIdentifier text then Some (NormalizeIdentifier text) else None
      | Some i \<Rightarrow>
          let base = take i text; field = drop (Suc i) text in
          if isIdentifier base \<and> isIdentifier field then Some (NormalizeIdentifier base @ [46] @ field) else None)"

definition QuoteIdentifier :: "gostring \<Rightarrow> gostring" where
  "QuoteIdentifier name = [Quot] @ ReplaceAll name [Quot] [Quot, Quot] @ [Quot]"

lemma ReplaceAll_Nil [simp]: "ReplaceAll [] old new = []"
  by (simp add: ReplaceAll.simps)

lemma quotes_double: "ReplaceAll s [Quot] [Quot, Quot] = concat (map (\<lambda>b. if b = Quot then [Quot, Quot] else [b]) s)"
  by (induction s) (simp_all add: ReplaceAll.simps HasPrefix_def)

lemma quotes_undouble: "ReplaceAll (concat (map (\<lambda>b. if b = Quot then [Quot, Quot] else [b]) s)) [Quot, Quot] [Quot] = s"
proof (induction s)
  case (Cons b s)
  then show ?case by (cases "b = Quot") (simp_all add: ReplaceAll.simps [of "_ # _"] HasPrefix_def)
qed simp

text \<open>A name that is quoted for generated SQL is folded back to itself: quoting survives capitals and quotes in the name.\<close>

theorem quoted_name_survives: "NormalizeIdentifier (QuoteIdentifier name) = name"
  by (simp add: NormalizeIdentifier_def QuoteIdentifier_def quotes_double quotes_undouble)

end
