(* ===== verification/Plpgsql_Stack.thy ===== *)
theory Plpgsql_Stack
  imports Plpgsql_Text
begin

text \<open>
  The stack of the PL/pgSQL interpreter, \<open>src/server/plpgsql/interpreter_stack.go\<close> over \<open>src/utils/stack.go\<close>. Scopes hold pointers to variables,
  which an alias shares, so variables live in a heap and a scope maps names to addresses. The top scope is the head of the list.
  A scope is always there: the function base is pushed first; the interpreter guards the operations that would find none.
\<close>

section \<open>Values and types\<close>

text \<open>What the interpreter asks of a type; its id is only compared, and stands as its qualified name.\<close>

record DoltgresType =
  dt_ID :: gostring
  dt_Name :: gostring
  TypCategory :: byte
  IsCompositeType :: bool
  CompositeAttrs :: "gostring list"

datatype sql_type = GmsType gostring | Doltgres DoltgresType

record Column =
  col_Name :: gostring
  col_Type :: sql_type

type_synonym Schema = "Column list"

text \<open>What an \<open>any\<close> of the interpreter holds: nothing, a boolean, a value of another type, a row, or the values of a composite.\<close>

datatype 'v goany = GoNil | GoBool bool | GoVal 'v | GoRow "'v goany list" | GoRecord "('v goany \<times> DoltgresType) list"

type_synonym 'v sqlrow = "'v goany list"

datatype plerror =
    PlPanic
  | VariableNotFound gostring | RecordNotAssigned gostring | RecordHasNoField gostring gostring
  | NotPostgresType gostring gostring | NoColumn gostring gostring | RecordVariableNotFound gostring | NoDoltgresType gostring
  | ParameterCountMismatch | TypeDoesNotExist gostring | InputError | QueryError | NullQueryString | UsingNotOneValue
  | BadNumber | TooFewParameters | TooManyParameters | RaiseException gostring
  | NoAssignmentSign | NoWhenClause | UnhandledInto | NoLoopVariable | NoLoopQuery | InvalidRecordParent | UnhandledDatum | UnhandledStatement
  | ExitOutsideLoop | ContinueOutsideLoop | NoSuchLabel gostring | ScanError

section \<open>The stack\<close>

record 'v interpreterVariable =
  var_Record :: Schema
  var_Type :: "DoltgresType option"
  var_Value :: "'v goany"
  IsRecord :: bool

record InterpreterScopeDetails =
  scope_variables :: "(gostring, nat) gomap"
  scope_label :: gostring
  scope_cursor :: gostring
  reportsFound :: bool
  iterated :: bool

record 'v cursorState =
  cs_Schema :: Schema
  cs_Rows :: "'v sqlrow list"
  cs_Index :: nat

record 'v InterpreterStack =
  outParams :: "gostring list"
  scopes :: "InterpreterScopeDetails list"
  labelID :: nat
  returnQueryBuffer :: "('v goany \<times> DoltgresType) list list"
  cursors :: "(gostring, 'v cursorState) gomap"
  unfoldedNames :: "gostring list"
  heap :: "'v interpreterVariable list"

definition empty_scope :: InterpreterScopeDetails where
  "empty_scope = \<lparr>scope_variables = [], scope_label = [], scope_cursor = [], reportsFound = False, iterated = False\<rparr>"

definition NewInterpreterStack :: "'v InterpreterStack" where
  "NewInterpreterStack = \<lparr>outParams = [], scopes = [empty_scope], labelID = 0, returnQueryBuffer = [], cursors = [], unfoldedNames = [], heap = []\<rparr>"

definition update_top :: "(InterpreterScopeDetails \<Rightarrow> InterpreterScopeDetails) \<Rightarrow> 'v InterpreterStack \<Rightarrow> 'v InterpreterStack" where
  "update_top f st = (case scopes st of [] \<Rightarrow> st | s # r \<Rightarrow> st\<lparr>scopes := f s # r\<rparr>)"

definition PushScope :: "'v InterpreterStack \<Rightarrow> 'v InterpreterStack" where
  "PushScope st = st\<lparr>scopes := empty_scope # scopes st\<rparr>"

definition PopScope :: "'v InterpreterStack \<Rightarrow> 'v InterpreterStack" where
  "PopScope st = st\<lparr>scopes := tl (scopes st)\<rparr>"

definition GetCurrentLabel :: "'v InterpreterStack \<Rightarrow> gostring" where
  "GetCurrentLabel st = (case filter (\<lambda>l. l \<noteq> []) (map scope_label (scopes st)) of [] \<Rightarrow> [] | l # _ \<Rightarrow> l)"

definition SetLabel :: "gostring \<Rightarrow> 'v InterpreterStack \<Rightarrow> 'v InterpreterStack" where
  "SetLabel l = update_top (\<lambda>s. s\<lparr>scope_label := l\<rparr>)"

text \<open>A label of a tab and a number, which no label of a source has.\<close>

definition SetAnonymousLabel :: "'v InterpreterStack \<Rightarrow> 'v InterpreterStack" where
  "SetAnonymousLabel st = (update_top (\<lambda>s. s\<lparr>scope_label := 9 # itoa_nat (labelID st)\<rparr>) st)\<lparr>labelID := Suc (labelID st)\<rparr>"

section \<open>Variables\<close>

definition lookup_scopes :: "InterpreterScopeDetails list \<Rightarrow> gostring \<Rightarrow> nat option" where
  "lookup_scopes ss name = (case filter (\<lambda>a. a \<noteq> None) (map (\<lambda>s. gm_get (scope_variables s) name) ss) of [] \<Rightarrow> None | a # _ \<Rightarrow> a)"

definition findVariable :: "'v InterpreterStack \<Rightarrow> gostring \<Rightarrow> nat option" where
  "findVariable st name = (case lookup_scopes (scopes st) name of
     Some a \<Rightarrow> Some a
   | None \<Rightarrow>
       let folded = ToLower name in
       if folded = name \<or> folded \<notin> set (unfoldedNames st) then None else lookup_scopes (scopes st) folded)"

definition markUnfoldedName :: "gostring \<Rightarrow> 'v InterpreterStack \<Rightarrow> 'v InterpreterStack" where
  "markUnfoldedName name st = st\<lparr>unfoldedNames := List.insert name (unfoldedNames st)\<rparr>"

fun recordFieldIndex :: "Schema \<Rightarrow> gostring \<Rightarrow> nat option" where
  "recordFieldIndex [] fieldName = None"
| "recordFieldIndex (col # sch) fieldName =
     (if EqualFold (col_Name col) fieldName then Some 0 else map_option Suc (recordFieldIndex sch fieldName))"

text \<open>A reference points at a variable, at a field of its row, or at an attribute of its composite value.\<close>

datatype var_ref = WholeVar nat | RowField nat nat | CompositeAttr nat nat

fun position_of :: "'a \<Rightarrow> 'a list \<Rightarrow> nat option" where
  "position_of x [] = None"
| "position_of x (y # ys) = (if y = x then Some 0 else map_option Suc (position_of x ys))"

definition field_reference :: "nat \<Rightarrow> 'v interpreterVariable \<Rightarrow> gostring \<Rightarrow> gostring \<Rightarrow> plerror + (DoltgresType option \<times> var_ref)" where
  "field_reference a iv name fieldName =
     (if var_Record iv \<noteq> [] then
        (case recordFieldIndex (var_Record iv) fieldName of
          None \<Rightarrow> Inl (RecordHasNoField name fieldName)
        | Some i \<Rightarrow> (case col_Type (var_Record iv ! i) of
            GmsType _ \<Rightarrow> Inl (NotPostgresType fieldName name)
          | Doltgres t \<Rightarrow> (case var_Value iv of
              GoRow r \<Rightarrow> if i < length r then Inr (Some t, RowField a i) else Inl PlPanic
            | _ \<Rightarrow> Inl PlPanic)))
      else if IsRecord iv then Inl (RecordNotAssigned name)
      else (case var_Type iv of
        Some t \<Rightarrow>
          if IsCompositeType t then
            (case position_of fieldName (CompositeAttrs t) of
              None \<Rightarrow> Inl (RecordHasNoField name fieldName)
            | Some i \<Rightarrow> (case var_Value iv of
                GoRecord vals \<Rightarrow> if i < length vals then Inr (Some (snd (vals ! i)), CompositeAttr a i) else Inl PlPanic
              | _ \<Rightarrow> Inl PlPanic))
          else Inl (NoColumn fieldName name)
      | None \<Rightarrow> Inl (NoColumn fieldName name)))"

definition GetVariableWithError :: "'v InterpreterStack \<Rightarrow> gostring \<Rightarrow> plerror + (DoltgresType option \<times> var_ref)" where
  "GetVariableWithError st fullName =
     (let parts = Split_byte 46 fullName;
          dotted = (length parts = 2);
          name = (if dotted then parts ! 0 else fullName);
          fieldName = (if dotted then Trim_byte Quot (parts ! 1) else []) in
      case findVariable st name of
        None \<Rightarrow> Inl (VariableNotFound fullName)
      | Some a \<Rightarrow>
          let iv = heap st ! a in
          if fieldName = [] then Inr (var_Type iv, WholeVar a) else field_reference a iv name fieldName)"

text \<open>The type and the place, or nothing; a panic stays one.\<close>

definition GetVariable :: "'v InterpreterStack \<Rightarrow> gostring \<Rightarrow> plerror + (DoltgresType \<times> var_ref) option" where
  "GetVariable st name = (case GetVariableWithError st name of
     Inl err \<Rightarrow> if err = PlPanic then Inl PlPanic else Inr None
   | Inr (None, _) \<Rightarrow> Inr None
   | Inr (Some t, r) \<Rightarrow> Inr (Some (t, r)))"

definition read_ref :: "'v InterpreterStack \<Rightarrow> var_ref \<Rightarrow> 'v goany" where
  "read_ref st r = (case r of
     WholeVar a \<Rightarrow> var_Value (heap st ! a)
   | RowField a i \<Rightarrow> (case var_Value (heap st ! a) of GoRow vs \<Rightarrow> vs ! i | _ \<Rightarrow> GoNil)
   | CompositeAttr a i \<Rightarrow> (case var_Value (heap st ! a) of GoRecord vs \<Rightarrow> fst (vs ! i) | _ \<Rightarrow> GoNil))"

definition write_ref :: "var_ref \<Rightarrow> 'v goany \<Rightarrow> 'v InterpreterStack \<Rightarrow> 'v InterpreterStack" where
  "write_ref r val st =
     (let put = (\<lambda>a f. st\<lparr>heap := (heap st)[a := (heap st ! a)\<lparr>var_Value := f (var_Value (heap st ! a))\<rparr>]\<rparr>) in
      case r of
        WholeVar a \<Rightarrow> put a (\<lambda>_. val)
      | RowField a i \<Rightarrow> put a (\<lambda>v. case v of GoRow vs \<Rightarrow> GoRow (vs[i := val]) | v \<Rightarrow> v)
      | CompositeAttr a i \<Rightarrow> put a (\<lambda>v. case v of GoRecord vs \<Rightarrow> GoRecord (vs[i := (val, snd (vs ! i))]) | v \<Rightarrow> v))"

definition SetVariable :: "gostring \<Rightarrow> 'v goany \<Rightarrow> 'v InterpreterStack \<Rightarrow> plerror + 'v InterpreterStack" where
  "SetVariable name val st = (case GetVariable st name of
     Inl err \<Rightarrow> Inl err
   | Inr None \<Rightarrow> Inl (VariableNotFound name)
   | Inr (Some (_, r)) \<Rightarrow> Inr (write_ref r val st))"

definition ListVariables :: "'v InterpreterStack \<Rightarrow> gostring set" where
  "ListVariables st = \<Union> (set (map (\<lambda>s. fst ` set (scope_variables s)) (scopes st)))"

definition declare_variable :: "gostring \<Rightarrow> 'v interpreterVariable \<Rightarrow> 'v InterpreterStack \<Rightarrow> 'v InterpreterStack" where
  "declare_variable name iv st =
     update_top (\<lambda>s. s\<lparr>scope_variables := gm_set name (length (heap st)) (scope_variables s)\<rparr>) (st\<lparr>heap := heap st @ [iv]\<rparr>)"

definition copyRecordRow :: "Schema \<Rightarrow> 'v sqlrow option \<Rightarrow> 'v sqlrow" where
  "copyRecordRow sch val = (case val of None \<Rightarrow> replicate (length sch) GoNil | Some r \<Rightarrow> r)"

definition NewRecord :: "DoltgresType \<Rightarrow> gostring \<Rightarrow> Schema \<Rightarrow> 'v sqlrow option \<Rightarrow> 'v InterpreterStack \<Rightarrow> 'v InterpreterStack" where
  "NewRecord trigger_type name sch val =
     declare_variable name \<lparr>var_Record = sch, var_Type = Some trigger_type, var_Value = GoRow (copyRecordRow sch val), IsRecord = True\<rparr>"

definition NewVariableWithValue :: "gostring \<Rightarrow> DoltgresType option \<Rightarrow> 'v goany \<Rightarrow> 'v InterpreterStack \<Rightarrow> 'v InterpreterStack" where
  "NewVariableWithValue name typ val = declare_variable name \<lparr>var_Record = [], var_Type = typ, var_Value = val, IsRecord = False\<rparr>"

definition NewVariable :: "(DoltgresType \<Rightarrow> 'v goany) \<Rightarrow> gostring \<Rightarrow> DoltgresType \<Rightarrow> 'v InterpreterStack \<Rightarrow> 'v InterpreterStack" where
  "NewVariable Zero name typ = NewVariableWithValue name (Some typ) (Zero typ)"

definition NewVariableAlias :: "gostring \<Rightarrow> gostring \<Rightarrow> 'v InterpreterStack \<Rightarrow> 'v InterpreterStack" where
  "NewVariableAlias alias target st = (case findVariable st target of
     None \<Rightarrow> st
   | Some a \<Rightarrow> update_top (\<lambda>s. s\<lparr>scope_variables := gm_set alias a (scope_variables s)\<rparr>) st)"

section \<open>Results of queries\<close>

definition BufferReturnQueryResults :: "('v goany \<times> DoltgresType) list list \<Rightarrow> 'v InterpreterStack \<Rightarrow> 'v InterpreterStack" where
  "BufferReturnQueryResults results st = st\<lparr>returnQueryBuffer := returnQueryBuffer st @ results\<rparr>"

fun out_values :: "'v InterpreterStack \<Rightarrow> gostring list \<Rightarrow> ('v goany \<times> DoltgresType) list option" where
  "out_values st [] = Some []"
| "out_values st (p # ps) = (case (GetVariable st p, out_values st ps) of
     (Inr (Some (t, r)), Some vs) \<Rightarrow> Some ((read_ref st r, t) # vs)
   | _ \<Rightarrow> None)"

text \<open>A missing variable is a nil pointer that is read.\<close>

definition ReturnOutParamResults :: "'v InterpreterStack \<Rightarrow> 'v goany option" where
  "ReturnOutParamResults st = (case out_values st (outParams st) of
     None \<Rightarrow> None
   | Some [(v, _)] \<Rightarrow> Some v
   | Some vs \<Rightarrow> Some (GoRecord vs))"

definition InitCursor :: "gostring \<Rightarrow> Schema \<Rightarrow> 'v sqlrow list \<Rightarrow> 'v InterpreterStack \<Rightarrow> 'v InterpreterStack" where
  "InitCursor name sch rows st =
     update_top (\<lambda>s. s\<lparr>scope_cursor := name\<rparr>) (st\<lparr>cursors := gm_set name \<lparr>cs_Schema = sch, cs_Rows = rows, cs_Index = 0\<rparr> (cursors st)\<rparr>)"

definition AdvanceCursor :: "gostring \<Rightarrow> 'v InterpreterStack \<Rightarrow> (Schema \<times> 'v sqlrow) option \<times> 'v InterpreterStack" where
  "AdvanceCursor name st = (case gm_get (cursors st) name of
     None \<Rightarrow> (None, st)
   | Some cs \<Rightarrow>
       if cs_Index cs \<ge> length (cs_Rows cs) then (None, st)
       else (Some (cs_Schema cs, cs_Rows cs ! cs_Index cs), st\<lparr>cursors := gm_set name (cs\<lparr>cs_Index := Suc (cs_Index cs)\<rparr>) (cursors st)\<rparr>))"

definition CloseCursor :: "gostring \<Rightarrow> 'v InterpreterStack \<Rightarrow> 'v InterpreterStack" where
  "CloseCursor name st = st\<lparr>cursors := gm_del name (cursors st)\<rparr>"

definition MarkScopeLoop :: "bool \<Rightarrow> 'v InterpreterStack \<Rightarrow> 'v InterpreterStack" where
  "MarkScopeLoop advanced = update_top (\<lambda>s. s\<lparr>reportsFound := True, iterated := iterated s \<or> advanced\<rparr>)"

definition FoundVariableName :: gostring where "FoundVariableName = gs ''found''"

definition Bool_ID :: gostring where "Bool_ID = gs ''pg_catalog.bool''"

definition SetFound :: "bool \<Rightarrow> 'v InterpreterStack \<Rightarrow> plerror + 'v InterpreterStack" where
  "SetFound found st = (case GetVariable st FoundVariableName of
     Inl err \<Rightarrow> Inl err
   | Inr None \<Rightarrow> Inr st
   | Inr (Some (t, _)) \<Rightarrow> if dt_ID t \<noteq> Bool_ID then Inr st else SetVariable FoundVariableName (GoBool found) st)"

fun normalizeRecordSchema :: "(gostring \<Rightarrow> DoltgresType option) \<Rightarrow> Schema \<Rightarrow> plerror + Schema" where
  "normalizeRecordSchema conv [] = Inr []"
| "normalizeRecordSchema conv (col # sch) =
     (case (case col_Type col of Doltgres _ \<Rightarrow> Inr col | GmsType g \<Rightarrow> (case conv g of None \<Rightarrow> Inl (NoDoltgresType g) | Some t \<Rightarrow> Inr (col\<lparr>col_Type := Doltgres t\<rparr>))) of
       Inl err \<Rightarrow> Inl err
     | Inr col' \<Rightarrow> (case normalizeRecordSchema conv sch of Inl err \<Rightarrow> Inl err | Inr sch' \<Rightarrow> Inr (col' # sch')))"

definition UpdateRecord :: "(gostring \<Rightarrow> DoltgresType option) \<Rightarrow> gostring \<Rightarrow> Schema \<Rightarrow> 'v sqlrow option \<Rightarrow> 'v InterpreterStack \<Rightarrow> plerror + 'v InterpreterStack" where
  "UpdateRecord conv name sch val st = (case normalizeRecordSchema conv sch of
     Inl err \<Rightarrow> Inl err
   | Inr sch' \<Rightarrow> (case findVariable st name of
       None \<Rightarrow> Inl (RecordVariableNotFound name)
     | Some a \<Rightarrow> Inr (st\<lparr>heap := (heap st)[a := (heap st ! a)\<lparr>var_Record := sch', var_Value := GoRow (copyRecordRow sch' val), IsRecord := True\<rparr>]\<rparr>)))"

end
