(* ===== verification/Plpgsql_Statements.thy ===== *)
theory Plpgsql_Statements
  imports Plpgsql_Stack
begin

text \<open>
  From statements to operations: \<open>src/server/plpgsql/interpreter_operation.go\<close> and \<open>statements.go\<close>. A statement of a function becomes a stretch
  of operations with jumps; expressions are rewritten so that references to variables are numbered. The scanner of \<open>pg_query\<close> is a
  parameter. Numbers of operations are far below the limits of \<open>int32\<close>.
\<close>

section \<open>Operations\<close>

datatype OpCode =
    OpCode_Alias | OpCode_Assign | OpCode_Case | OpCode_Declare | OpCode_DeleteInto | OpCode_Exception | OpCode_Execute | OpCode_Get
  | OpCode_Goto | OpCode_If | OpCode_InsertInto | OpCode_Perform | OpCode_Raise | OpCode_Return | OpCode_ScopeBegin | OpCode_ScopeEnd
  | OpCode_SelectInto | OpCode_UpdateInto | OpCode_ReturnQuery | OpCode_ForQueryInit | OpCode_ForQueryNext | OpCode_DeclareRecord | OpCode_ExecuteInto

record InterpreterOperation =
  op_Code :: OpCode
  PrimaryData :: gostring
  SecondaryData :: "gostring list"
  Target :: gostring
  op_Index :: int
  Options :: "(gostring, gostring) gomap"

definition new_op :: "OpCode \<Rightarrow> InterpreterOperation" where
  "new_op c = \<lparr>op_Code = c, PrimaryData = [], SecondaryData = [], Target = [], op_Index = 0, Options = []\<rparr>"

definition OptionSetsFound :: gostring where "OptionSetsFound = gs ''sets_found''"

definition OptionDynamicExpression :: gostring where "OptionDynamicExpression = gs ''dynamic_expression''"

definition OptionDynamicBindingPrefix :: gostring where "OptionDynamicBindingPrefix = gs ''dynamic_binding_''"

definition OptionDynamicBindingCount :: gostring where "OptionDynamicBindingCount = gs ''dynamic_binding_count''"

definition OptionDynamicUsingCount :: gostring where "OptionDynamicUsingCount = gs ''dynamic_using_count''"

definition OptionDynamicUsingExpressionPrefix :: gostring where "OptionDynamicUsingExpressionPrefix = gs ''dynamic_using_expression_''"

definition OptionDynamicUsingBindingCountPrefix :: gostring where "OptionDynamicUsingBindingCountPrefix = gs ''dynamic_using_binding_count_''"

definition OptionDynamicUsingBindingPrefix :: gostring where "OptionDynamicUsingBindingPrefix = gs ''dynamic_using_binding_''"

definition OptionLoopCondition :: gostring where "OptionLoopCondition = gs ''loop_condition''"

definition continueTargetOption :: gostring where "continueTargetOption = gs ''continue_target''"

abbreviation option_true :: gostring where "option_true \<equiv> gs ''true''"

section \<open>Statements\<close>

record Variable =
  v_Name :: gostring
  v_Type :: gostring
  IsParameter :: bool
  v_Default :: gostring

record RecordDecl =
  rec_Name :: gostring
  rec_Fields :: "gostring list"
  IsTriggerRecord :: bool

definition IsDeclared :: "RecordDecl \<Rightarrow> bool" where
  "IsDeclared r \<longleftrightarrow> \<not> IsTriggerRecord r \<and> rec_Name r \<noteq> []"

datatype Statement =
    Assignment (VariableName: gostring) (Expression: gostring)
  | Block (Variables: "Variable list") (Records: "RecordDecl list") (Body: "Statement list") (Label: gostring) (IsLoop: bool) (ContinueTargetOffset: int)
  | ExecuteSQL gostring (ex_Target: gostring) (TargetIsRecord: bool) (SetsFound: bool)
  | DynamicExecute gostring (Params: "gostring list") gostring bool
  | ForQueryInit (CursorName: gostring) gostring
  | ForQueryNext gostring (RecordVar: gostring) int
  | Goto (Offset: int) gostring (NearestScopeOp: bool)
  | If (Condition: gostring) (GotoOffset: int) (IsLoopCondition: bool)
  | Perform gostring
  | Raise (Level: gostring) gostring "gostring list" "(gostring, gostring) gomap"
  | ReturnQuery gostring
  | Return gostring

fun OperationSize :: "Statement \<Rightarrow> int" and OperationSizeForStatements :: "Statement list \<Rightarrow> int" where
  "OperationSize (Block vars recs body l lp c) =
     2 + int (length (filter (\<lambda>v. \<not> IsParameter v) vars)) + int (length (filter IsDeclared recs)) + OperationSizeForStatements body"
| "OperationSize _ = 1"
| "OperationSizeForStatements [] = 0"
| "OperationSizeForStatements (s # ss) = OperationSize s + OperationSizeForStatements ss"

section \<open>References to variables\<close>

text \<open>A token: where it starts and ends, and its kind, which for a single character is that character.\<close>

type_synonym token = "nat \<times> nat \<times> int"

definition tok_text :: "gostring \<Rightarrow> token \<Rightarrow> gostring" where
  "tok_text e t = (case t of (start, stop, _) \<Rightarrow> take (stop - start) (drop start e))"

definition tok_kind :: "token \<Rightarrow> int" where
  "tok_kind t = snd (snd t)"

text \<open>The fields behind a reference: their text, the last token that belongs to it, and the tokens behind it.\<close>

fun field_path :: "gostring \<Rightarrow> token \<Rightarrow> token list \<Rightarrow> gostring \<times> token \<times> token list" where
  "field_path e t (d # f # ts) =
     (if tok_kind d = 46 then (case field_path e f ts of (s, l, r) \<Rightarrow> ([46] @ tok_text e f @ s, l, r)) else ([], t, d # f # ts))"
| "field_path e t ts = ([], t, ts)"

lemma field_path_shorter: "field_path e t ts = (s, l, r) \<Longrightarrow> length r \<le> length ts"
  by (induction e t ts arbitrary: s l r rule: field_path.induct) (fastforce split: if_splits prod.splits)+

definition triggerSpecialVariables :: "gostring list" where
  "triggerSpecialVariables = map gs [''tg_name'', ''tg_when'', ''tg_level'', ''tg_op'', ''tg_relid'', ''tg_relname'', ''tg_table_name'',
     ''tg_table_schema'', ''tg_nargs'', ''tg_argv[]'']"

definition reference_number :: "nat \<Rightarrow> gostring" where
  "reference_number n = [36] @ itoa_nat n @ [32]"

text \<open>One round of the loop: what is written, the references so far, the last token that was used and those behind it.\<close>

definition subst_token :: "gostring \<Rightarrow> gostring set \<Rightarrow> bool \<Rightarrow> gostring list \<Rightarrow> token \<Rightarrow> token list \<Rightarrow> gostring \<times> gostring list \<times> token \<times> token list" where
  "subst_token e vars isAfterDot refs t ts =
     (let substring = tok_text e t; normalized = NormalizeIdentifier substring in
      if isAfterDot then (substring @ [32], refs, t, ts)
      else if normalized \<in> vars then
        (case field_path e t ts of (path, l, r) \<Rightarrow>
          if r = [] \<or> tok_kind (hd r) \<noteq> 40 then (reference_number (Suc (length refs)), refs @ [normalized @ path], l, r)
          else (substring @ path @ [32], refs, l, r))
      else if normalized \<in> set triggerSpecialVariables then (reference_number (Suc (length refs)), refs @ [normalized], t, ts)
      else (substring @ [32], refs, t, ts))"

lemma subst_token_shorter: "subst_token e vars d refs t ts = (txt, refs', l, r) \<Longrightarrow> length r \<le> length ts"
  by (auto simp: subst_token_def Let_def split: if_splits prod.splits dest: field_path_shorter)

function subst_tokens :: "gostring \<Rightarrow> gostring set \<Rightarrow> bool \<Rightarrow> gostring list \<Rightarrow> token list \<Rightarrow> gostring \<times> gostring list" where
  "subst_tokens e vars isAfterDot refs [] = ([], refs)"
| "subst_tokens e vars isAfterDot refs (t # ts) =
     (case subst_token e vars isAfterDot refs t ts of (txt, refs, l, r) \<Rightarrow>
       (case subst_tokens e vars (tok_kind l = 46) refs r of (out, refs) \<Rightarrow> (txt @ out, refs)))"
  by pat_completeness auto
termination
  by (relation "measure (\<lambda>(_, _, _, _, ts). length ts)") (auto simp: less_Suc_eq_le dest!: subst_token_shorter [OF sym])

definition substituteVariableReferences :: "(gostring \<Rightarrow> token list option) \<Rightarrow> gostring \<Rightarrow> 'v InterpreterStack \<Rightarrow> plerror + (gostring \<times> gostring list)" where
  "substituteVariableReferences Scan expression st = (case Scan expression of
     None \<Rightarrow> Inl ScanError
   | Some tokens \<Rightarrow> Inr (subst_tokens expression (ListVariables st) False [] tokens))"

section \<open>Compiling a statement\<close>

definition executeOpCode :: "bool \<Rightarrow> OpCode" where
  "executeOpCode targetIsRecord = (if targetIsRecord then OpCode_ExecuteInto else OpCode_Execute)"

definition declare_ops :: "Variable list \<Rightarrow> InterpreterOperation list" where
  "declare_ops vars = map (\<lambda>v. (new_op OpCode_Declare)\<lparr>PrimaryData := v_Type v, Target := v_Name v,
     SecondaryData := (if v_Default v = [] then [] else [v_Default v])\<rparr>) (filter (\<lambda>v. \<not> IsParameter v) vars)"

definition declare_vars :: "Variable list \<Rightarrow> gostring InterpreterStack \<Rightarrow> gostring InterpreterStack" where
  "declare_vars = fold (\<lambda>v. NewVariableWithValue (v_Name v) None (if v_Default v = [] then GoNil else GoVal (v_Default v)))"

definition record_ops :: "RecordDecl list \<Rightarrow> InterpreterOperation list" where
  "record_ops recs = map (\<lambda>r. (new_op OpCode_DeclareRecord)\<lparr>Target := rec_Name r\<rparr>) (filter IsDeclared recs)"

text \<open>The schema only lists the names of the fields.\<close>

definition declare_records :: "DoltgresType \<Rightarrow> RecordDecl list \<Rightarrow> gostring InterpreterStack \<Rightarrow> gostring InterpreterStack" where
  "declare_records trigger_type =
     fold (\<lambda>r. NewRecord trigger_type (rec_Name r) (map (\<lambda>f. \<lparr>col_Name = f, col_Type = GmsType []\<rparr>) (rec_Fields r)) None)"

definition dynamic_bindings :: "gostring \<Rightarrow> gostring list \<Rightarrow> (gostring, gostring) gomap \<Rightarrow> (gostring, gostring) gomap" where
  "dynamic_bindings prefix bindings = fold (\<lambda>(i, b). gm_set (prefix @ itoa_nat i) b) (enumerate 0 bindings)"

fun dynamic_using :: "(gostring \<Rightarrow> token list option) \<Rightarrow> gostring InterpreterStack \<Rightarrow> nat \<Rightarrow> gostring list \<Rightarrow> (gostring, gostring) gomap
    \<Rightarrow> plerror + (gostring, gostring) gomap" where
  "dynamic_using Scan st i [] options = Inr options"
| "dynamic_using Scan st i (param # params) options = (case substituteVariableReferences Scan param st of
     Inl err \<Rightarrow> Inl err
   | Inr (expression, bindings) \<Rightarrow>
       let index = itoa_nat i;
           options = gm_set (OptionDynamicUsingExpressionPrefix @ index) expression options;
           options = gm_set (OptionDynamicUsingBindingCountPrefix @ index) (itoa_nat (length bindings)) options in
       dynamic_using Scan st (Suc i) params (dynamic_bindings (OptionDynamicUsingBindingPrefix @ index @ gs ''_'') bindings options))"

definition select_of :: "gostring \<Rightarrow> gostring" where
  "select_of expression = gs ''SELECT '' @ expression @ gs '';''"

text \<open>The operation of a simple statement; the last argument is its position.\<close>

fun simple_op :: "(gostring \<Rightarrow> token list option) \<Rightarrow> gostring InterpreterStack \<Rightarrow> int \<Rightarrow> Statement \<Rightarrow> plerror + InterpreterOperation" where
  "simple_op Scan st pos (Assignment v e) = (case substituteVariableReferences Scan e st of
     Inl err \<Rightarrow> Inl err
   | Inr (expression, refs) \<Rightarrow> Inr ((new_op OpCode_Assign)\<lparr>PrimaryData := select_of expression, SecondaryData := refs, Target := v\<rparr>))"
| "simple_op Scan st pos (ExecuteSQL q t is_rec sets) = (case substituteVariableReferences Scan q st of
     Inl err \<Rightarrow> Inl err
   | Inr (query, refs) \<Rightarrow> Inr ((new_op (executeOpCode is_rec))\<lparr>PrimaryData := query, SecondaryData := refs, Target := t,
       Options := (if sets then [(OptionSetsFound, option_true)] else [])\<rparr>))"
| "simple_op Scan st pos (DynamicExecute q params t is_rec) = (case substituteVariableReferences Scan q st of
     Inl err \<Rightarrow> Inl err
   | Inr (query, bindings) \<Rightarrow>
       let options = dynamic_bindings OptionDynamicBindingPrefix bindings
             [(OptionDynamicExpression, option_true), (OptionDynamicBindingCount, itoa_nat (length bindings))];
           options = gm_set OptionDynamicUsingCount (itoa_nat (length params)) options in
       (case dynamic_using Scan st 0 params options of
         Inl err \<Rightarrow> Inl err
       | Inr options \<Rightarrow> Inr ((new_op (executeOpCode is_rec))\<lparr>PrimaryData := query, Target := t, Options := options\<rparr>)))"
| "simple_op Scan st pos (ForQueryInit c q) = (case substituteVariableReferences Scan q st of
     Inl err \<Rightarrow> Inl err
   | Inr (query, refs) \<Rightarrow> Inr ((new_op OpCode_ForQueryInit)\<lparr>PrimaryData := query, SecondaryData := refs, Target := c\<rparr>))"
| "simple_op Scan st pos (ForQueryNext c r off) = Inr ((new_op OpCode_ForQueryNext)\<lparr>PrimaryData := c, Target := r, op_Index := pos + off\<rparr>)"
| "simple_op Scan st pos (Goto off l nearest) =
     (if l \<noteq> [] then Inr ((new_op OpCode_Goto)\<lparr>PrimaryData := l, op_Index := off\<rparr>)
      else if nearest then
        let label = GetCurrentLabel st in
        if label = [] then Inl (if off > 0 then ExitOutsideLoop else ContinueOutsideLoop)
        else Inr ((new_op OpCode_Goto)\<lparr>PrimaryData := label, op_Index := off\<rparr>)
      else Inr ((new_op OpCode_Goto)\<lparr>op_Index := pos + off\<rparr>))"
| "simple_op Scan st pos (If c off is_loop) = (case substituteVariableReferences Scan c st of
     Inl err \<Rightarrow> Inl err
   | Inr (condition, refs) \<Rightarrow> Inr ((new_op OpCode_If)\<lparr>PrimaryData := select_of condition, SecondaryData := refs, op_Index := pos + off,
       Options := (if is_loop then [(OptionLoopCondition, option_true)] else [])\<rparr>))"
| "simple_op Scan st pos (Perform q) = (case substituteVariableReferences Scan q st of
     Inl err \<Rightarrow> Inl err
   | Inr (query, refs) \<Rightarrow> Inr ((new_op OpCode_Perform)\<lparr>PrimaryData := query, SecondaryData := refs\<rparr>))"
| "simple_op Scan st pos (Raise lvl msg params opts) =
     Inr ((new_op OpCode_Raise)\<lparr>PrimaryData := lvl, SecondaryData := msg # params, Options := opts\<rparr>)"
| "simple_op Scan st pos (ReturnQuery q) = (case substituteVariableReferences Scan q st of
     Inl err \<Rightarrow> Inl err
   | Inr (query, refs) \<Rightarrow> Inr ((new_op OpCode_ReturnQuery)\<lparr>PrimaryData := query, SecondaryData := refs\<rparr>))"
| "simple_op Scan st pos (Return e) = (case substituteVariableReferences Scan e st of
     Inl err \<Rightarrow> Inl err
   | Inr (expression, refs) \<Rightarrow> Inr ((new_op OpCode_Return)\<lparr>PrimaryData := (if expression = [] then [] else select_of expression), SecondaryData := refs\<rparr>))"
| "simple_op Scan st pos (Block vars recs body l lp c) = Inl UnhandledStatement"

fun AppendOperations :: "(gostring \<Rightarrow> token list option) \<Rightarrow> DoltgresType \<Rightarrow> Statement \<Rightarrow> InterpreterOperation list \<Rightarrow> gostring InterpreterStack
    \<Rightarrow> plerror + InterpreterOperation list \<times> gostring InterpreterStack"
  and append_all :: "(gostring \<Rightarrow> token list option) \<Rightarrow> DoltgresType \<Rightarrow> Statement list \<Rightarrow> InterpreterOperation list \<Rightarrow> gostring InterpreterStack
    \<Rightarrow> plerror + InterpreterOperation list \<times> gostring InterpreterStack" where
  "AppendOperations Scan tt (Block vars recs body lbl is_loop cto) ops st =
     (let st = SetLabel lbl (PushScope st);
          st = (if is_loop \<and> lbl = [] then SetAnonymousLabel st else st);
          label = (if is_loop \<and> lbl = [] then GetCurrentLabel st else lbl);
          decls = declare_ops vars @ record_ops recs;
          st = declare_records tt recs (declare_vars vars st);
          begin_op = (new_op OpCode_ScopeBegin)\<lparr>PrimaryData := label, Target := (if is_loop then gs ''_'' else []),
            Options := (if is_loop then [(continueTargetOption, Itoa (1 + int (length decls) + cto))] else [])\<rparr> in
      case append_all Scan tt body (ops @ [begin_op] @ decls) st of
        Inl err \<Rightarrow> Inl err
      | Inr (ops, st) \<Rightarrow> Inr (ops @ [new_op OpCode_ScopeEnd], PopScope st))"
| "AppendOperations Scan tt s ops st = (case simple_op Scan st (int (length ops)) s of
     Inl err \<Rightarrow> Inl err
   | Inr op \<Rightarrow> Inr (ops @ [op], st))"
| "append_all Scan tt [] ops st = Inr (ops, st)"
| "append_all Scan tt (s # ss) ops st = (case AppendOperations Scan tt s ops st of
     Inl err \<Rightarrow> Inl err
   | Inr (ops, st) \<Rightarrow> append_all Scan tt ss ops st)"

end
