(* ===== verification/Plpgsql_Labels.thy ===== *)
theory Plpgsql_Labels
  imports Plpgsql_Statements
begin

text \<open>
  Resolving labels, \<open>src/server/plpgsql/reconcile_labels.go\<close>: one pass over the operations with a stack of the scopes that are open and the
  \<open>EXIT\<close>s that still wait for the end of theirs.
\<close>

record labelStackItem =
  ls_label :: gostring
  ls_start :: int
  ls_isLoop :: bool

text \<open>The stack of scopes (top first), the positions of the \<open>EXIT\<close>s, and the operations.\<close>

type_synonym label_state = "labelStackItem list \<times> nat list \<times> InterpreterOperation list"

definition set_goto :: "nat \<Rightarrow> int \<Rightarrow> InterpreterOperation list \<Rightarrow> InterpreterOperation list" where
  "set_goto i target ops = ops[i := (ops ! i)\<lparr>op_Index := target, PrimaryData := []\<rparr>]"

definition scope_start :: "nat \<Rightarrow> InterpreterOperation \<Rightarrow> plerror + int" where
  "scope_start opIndex operation = (case gm_get (Options operation) continueTargetOption of
     None \<Rightarrow> Inr (int opIndex + 1)
   | Some offset \<Rightarrow> (case Atoi offset of None \<Rightarrow> Inl BadNumber | Some n \<Rightarrow> Inr (int opIndex + n)))"

definition reconcile_op :: "nat \<Rightarrow> label_state \<Rightarrow> plerror + label_state" where
  "reconcile_op opIndex s = (case s of (labels, gotos, ops) \<Rightarrow>
     let operation = ops ! opIndex in
     if op_Code operation = OpCode_Goto then
       if PrimaryData operation = [] then Inr s
       else if op_Index operation < 0 then
         (case filter (\<lambda>i. ls_label i = PrimaryData operation) labels of
           [] \<Rightarrow> Inl (NoSuchLabel (PrimaryData operation))
         | item # _ \<Rightarrow>
             if \<not> ls_isLoop item then Inl ContinueOutsideLoop
             else Inr (labels, gotos, set_goto opIndex (ls_start item) ops))
       else Inr (labels, opIndex # gotos, ops)
     else if op_Code operation = OpCode_ScopeBegin then
       (case scope_start opIndex operation of
         Inl err \<Rightarrow> Inl err
       | Inr start \<Rightarrow>
           Inr (\<lparr>ls_label = PrimaryData operation, ls_start = start, ls_isLoop = (Target operation \<noteq> [])\<rparr> # labels, gotos,
             ops[opIndex := operation\<lparr>PrimaryData := [], Target := [], Options := gm_del continueTargetOption (Options operation)\<rparr>]))
     else if op_Code operation = OpCode_ScopeEnd then
       let label = (case labels of [] \<Rightarrow> [] | item # _ \<Rightarrow> ls_label item);
           (found, waiting) = partition (\<lambda>i. PrimaryData (ops ! i) = label) gotos in
       Inr (tl labels, waiting, fold (\<lambda>i. set_goto i (int opIndex)) found ops)
     else Inr s)"

fun reconcile_from :: "nat \<Rightarrow> nat \<Rightarrow> label_state \<Rightarrow> plerror + label_state" where
  "reconcile_from i 0 s = Inr s"
| "reconcile_from i (Suc n) s = (case reconcile_op i s of Inl err \<Rightarrow> Inl err | Inr s' \<Rightarrow> reconcile_from (Suc i) n s')"

text \<open>Of several labels that do not exist, which one is reported depends on the order of a Go map.\<close>

definition reconcileLabels :: "InterpreterOperation list \<Rightarrow> plerror + InterpreterOperation list" where
  "reconcileLabels ops = (case reconcile_from 0 (length ops) ([], [], ops) of
     Inl err \<Rightarrow> Inl err
   | Inr (_, gotos, ops) \<Rightarrow> (case gotos of [] \<Rightarrow> Inr ops | i # _ \<Rightarrow> Inl (NoSuchLabel (PrimaryData (ops ! i)))))"

end
