(* ===== verification/Plpgsql_Json.thy ===== *)
theory Plpgsql_Json
  imports Plpgsql_Labels
begin

text \<open>
  From the parse tree of \<open>pg_query\<close> to statements, and the whole compiler: \<open>src/server/plpgsql/json.go\<close>, \<open>json_convert.go\<close>, \<open>notice.go\<close> and \<open>parse.go\<close>.
  The tree is what the JSON decoder delivers; numbers of lines are kept where they are used. Whether a query modifies data is asked
  of the parser, a parameter.
\<close>

section \<open>The parse tree\<close>

text \<open>A datum is a union: a record, a field of a record, a row, a variable, or none of them.\<close>

datatype datum =
    D_rec gostring int
  | D_recfield gostring int
  | D_row gostring "gostring list"
  | D_var gostring gostring int gostring
  | D_none

datatype jstatement =
    J_assign gostring
  | J_block "jstatement list"
  | J_call gostring bool datum
  | J_case gostring int "jstatement list" bool "jstatement list"
  | J_dynexecute bool gostring datum "gostring list"
  | J_execsql gostring bool datum
  | J_exit gostring bool "gostring option"
  | J_fori gostring datum "gostring option" "gostring option" "gostring option" bool "jstatement list"
  | J_fors gostring datum "jstatement list" "gostring option" int
  | J_if gostring "jstatement list" "(gostring \<times> jstatement list) list" "jstatement list"
  | J_loop "jstatement list" gostring
  | J_perform gostring
  | J_raise int gostring "gostring list" "(int \<times> gostring) list"
  | J_return gostring
  | J_return_query gostring
  | J_when gostring "jstatement list"
  | J_while gostring "jstatement list" gostring
  | J_none

record plpgSQL_block =
  new_varno :: int
  old_varno :: int
  Datums :: "datum list"
  Action_Body :: "jstatement list"
  Action_Label :: gostring

section \<open>Simple statements\<close>

definition convert_assign :: "gostring \<Rightarrow> plerror + Statement" where
  "convert_assign query =
     (let cut = (\<lambda>i w. Inr (Assignment (NormalizeIdentifier (TrimSpace (take i query))) (TrimSpace (drop (i + w) query)))) in
      case Index_of query (gs '':='') of
        Some (Suc i) \<Rightarrow> cut (Suc i) 2
      | _ \<Rightarrow> (case Index_of query (gs ''='') of
          Some (Suc i) \<Rightarrow> cut (Suc i) 1
        | _ \<Rightarrow> Inl NoAssignmentSign))"

definition join_names :: "gostring list \<Rightarrow> gostring" where
  "join_names names = (case names of [] \<Rightarrow> [] | n # ns \<Rightarrow> n @ concat (map (\<lambda>m. 44 # m) ns))"

definition intoTarget :: "datum \<Rightarrow> plerror + gostring \<times> bool" where
  "intoTarget target = (case target of
     D_row _ names \<Rightarrow> Inr (join_names names, False)
   | D_var name _ _ _ \<Rightarrow> Inr (name, False)
   | D_rec name _ \<Rightarrow> Inr (name, True)
   | _ \<Rightarrow> Inl UnhandledInto)"

definition convert_call :: "gostring \<Rightarrow> bool \<Rightarrow> datum \<Rightarrow> plerror + Statement" where
  "convert_call query is_call target =
     (if \<not> is_call \<and> (case target of D_row _ _ \<Rightarrow> True | D_var _ _ _ _ \<Rightarrow> True | D_rec _ _ \<Rightarrow> True | _ \<Rightarrow> False)
      then (case intoTarget target of Inl err \<Rightarrow> Inl err | Inr (name, is_rec) \<Rightarrow> Inr (ExecuteSQL query name is_rec False))
      else Inr (ExecuteSQL query [] False False))"

definition fold_params :: "gostring list \<Rightarrow> gostring list" where
  "fold_params = map (\<lambda>q. case NormalizeIdentifierPath q of Some n \<Rightarrow> n | None \<Rightarrow> q)"

definition convert_dynexecute :: "bool \<Rightarrow> gostring \<Rightarrow> datum \<Rightarrow> gostring list \<Rightarrow> plerror + Statement" where
  "convert_dynexecute into query target params =
     (if into then (case intoTarget target of Inl err \<Rightarrow> Inl err | Inr (name, is_rec) \<Rightarrow> Inr (DynamicExecute query (fold_params params) name is_rec))
      else Inr (DynamicExecute query (fold_params params) [] False))"

definition convert_execsql :: "(gostring \<Rightarrow> bool) \<Rightarrow> gostring \<Rightarrow> bool \<Rightarrow> datum \<Rightarrow> plerror + Statement" where
  "convert_execsql isDataModifying query into target =
     (if into then (case intoTarget target of Inl err \<Rightarrow> Inl err | Inr (name, is_rec) \<Rightarrow> Inr (ExecuteSQL query name is_rec True))
      else Inr (ExecuteSQL query [] False (isDataModifying query)))"

definition plain_block :: "Statement list \<Rightarrow> gostring \<Rightarrow> bool \<Rightarrow> int \<Rightarrow> Statement" where
  "plain_block body = Block [] [] body"

abbreviation jump :: "int \<Rightarrow> Statement" where "jump off \<equiv> Goto off [] False"

definition convert_exit :: "gostring \<Rightarrow> bool \<Rightarrow> gostring option \<Rightarrow> Statement" where
  "convert_exit label is_exit cond =
     (let gotoStmt = Goto (if is_exit then 1 else -1) label (label = []) in
      case cond of
        None \<Rightarrow> gotoStmt
      | Some c \<Rightarrow> plain_block [If c 2 False, jump 2, gotoStmt] [] False 0)"

definition NoticeLevel_String :: "int \<Rightarrow> gostring" where
  "NoticeLevel_String level =
     (let nl = level mod 256 in
      if nl = 14 then gs ''DEBUG'' else if nl = 15 then gs ''LOG'' else if nl = 17 then gs ''INFO'' else if nl = 18 then gs ''NOTICE''
      else if nl = 19 then gs ''WARNING'' else if nl = 21 then gs ''EXCEPTION'' else gs ''UNKNOWN'')"

definition convert_raise :: "int \<Rightarrow> gostring \<Rightarrow> gostring list \<Rightarrow> (int \<times> gostring) list \<Rightarrow> Statement" where
  "convert_raise level message params options =
     Raise (NoticeLevel_String level) message (fold_params params) (fold (\<lambda>(t, e). gm_set (Itoa t) e) options [])"

section \<open>Control structures\<close>

text \<open>The body of a WHEN; the GOTO at its end is filled in later, its position is recorded.\<close>

definition case_when :: "gostring \<Rightarrow> Statement list \<Rightarrow> Statement list \<times> nat list \<Rightarrow> Statement list \<times> nat list" where
  "case_when expression whenBody acc = (case acc of (body, ends) \<Rightarrow>
     let body = body @ [If expression 2 False, jump (int (length whenBody) + 1 + 1)] @ whenBody @ [jump 0] in
     (body, ends @ [length body - 1]))"

definition case_block :: "Statement list \<times> nat list \<Rightarrow> Statement list \<Rightarrow> Statement" where
  "case_block acc elseBody = (case acc of (body, ends) \<Rightarrow>
     let body = body @ elseBody in
     plain_block (fold (\<lambda>i b. b[i := jump (int (length b) - int i)]) ends body) [] False 0)"

definition case_start :: "gostring \<Rightarrow> int \<Rightarrow> Statement list \<times> nat list" where
  "case_start query varno = (if query = [] then [] else [Assignment (gs ''__Case__Variable_'' @ Itoa varno @ gs ''__'') query], [])"

text \<open>A condition with its statements; the GOTO at the end is filled in later.\<close>

definition if_branch :: "gostring \<Rightarrow> Statement list \<Rightarrow> Statement list \<times> (nat \<times> int) list \<Rightarrow> Statement list \<times> (nat \<times> int) list" where
  "if_branch cond stmts acc = (case acc of (body, ends) \<Rightarrow>
     let body = body @ [If cond 2 False, jump (OperationSizeForStatements stmts + 2)] @ stmts in
     (body @ [jump 0], ends @ [(length body, OperationSizeForStatements body)]))"

definition if_block :: "Statement list \<times> (nat \<times> int) list \<Rightarrow> Statement list \<Rightarrow> Statement" where
  "if_block acc elseStmts = (case acc of (body, ends) \<Rightarrow>
     let body = body @ elseStmts in
     plain_block (fold (\<lambda>(i, g) b. b[i := jump (OperationSizeForStatements b - g)]) ends body) [] False 0)"

text \<open>The expressions of an integer loop: its start, its condition and its step.\<close>

definition bound_expr :: "gostring option \<Rightarrow> gostring" where
  "bound_expr e = (case e of None \<Rightarrow> gs ''1'' | Some e \<Rightarrow> e)"

definition fori_condition :: "gostring \<Rightarrow> gostring option \<Rightarrow> bool \<Rightarrow> gostring" where
  "fori_condition varName upper reverse = QuoteIdentifier varName @ gs (if reverse then '' >= ('' else '' <= ('') @ bound_expr upper @ gs '')''"

definition fori_increment :: "gostring \<Rightarrow> gostring option \<Rightarrow> bool \<Rightarrow> gostring" where
  "fori_increment varName step reverse = QuoteIdentifier varName @ gs (if reverse then '' - ('' else '' + ('') @ bound_expr step @ gs '')''"

definition fori_block :: "gostring \<Rightarrow> gostring \<Rightarrow> gostring option \<Rightarrow> gostring option \<Rightarrow> gostring option \<Rightarrow> bool \<Rightarrow> Statement list \<Rightarrow> Statement" where
  "fori_block label varName lower upper step reverse body =
     (let bodySize = OperationSizeForStatements body in
      plain_block ([Assignment varName (bound_expr lower), jump 2, Assignment varName (fori_increment varName step reverse),
        If (fori_condition varName upper reverse) 2 True, jump (2 + bodySize)] @ body @ [jump (- (3 + bodySize))]) label True 2)"

definition cursor_name :: "gostring \<Rightarrow> int \<Rightarrow> gostring" where
  "cursor_name varName lineno = gs ''__cursor_'' @ varName @ gs ''_'' @ Itoa lineno @ gs ''__''"

definition fors_variable :: "datum \<Rightarrow> gostring option" where
  "fors_variable v = (case v of D_rec n _ \<Rightarrow> Some n | D_var n _ _ _ \<Rightarrow> Some n | D_row n _ \<Rightarrow> Some n | _ \<Rightarrow> None)"

definition fors_block :: "gostring \<Rightarrow> gostring \<Rightarrow> gostring \<Rightarrow> int \<Rightarrow> Statement list \<Rightarrow> Statement" where
  "fors_block label varName query lineno body =
     (let cursorName = cursor_name varName lineno; bodySize = OperationSizeForStatements body in
      plain_block ([ForQueryInit cursorName query, ForQueryNext cursorName varName (bodySize + 2)] @ body @ [jump (- (1 + bodySize))]) label True 1)"

definition loop_block :: "gostring \<Rightarrow> Statement list \<Rightarrow> Statement" where
  "loop_block label body = plain_block (body @ [jump (- OperationSizeForStatements body)]) label True 0"

definition while_block :: "gostring \<Rightarrow> gostring \<Rightarrow> Statement list \<Rightarrow> Statement" where
  "while_block label cond body =
     (let bodySize = OperationSizeForStatements body in
      plain_block ([If cond 2 False, jump (1 + bodySize + 1)] @ body @ [jump (- (bodySize + 2))]) label True 0)"

fun jsonConvertStatement :: "(gostring \<Rightarrow> bool) \<Rightarrow> jstatement \<Rightarrow> plerror + Statement"
  and jsonConvertStatements :: "(gostring \<Rightarrow> bool) \<Rightarrow> jstatement list \<Rightarrow> plerror + Statement list"
  and convert_elsifs :: "(gostring \<Rightarrow> bool) \<Rightarrow> (gostring \<times> jstatement list) list \<Rightarrow> Statement list \<times> (nat \<times> int) list \<Rightarrow> plerror + Statement list \<times> (nat \<times> int) list"
  and convert_whens :: "(gostring \<Rightarrow> bool) \<Rightarrow> jstatement list \<Rightarrow> Statement list \<times> nat list \<Rightarrow> plerror + Statement list \<times> nat list" where
  "jsonConvertStatement dm (J_assign q) = convert_assign q"
| "jsonConvertStatement dm (J_block body) = (case jsonConvertStatements dm body of Inl err \<Rightarrow> Inl err | Inr b \<Rightarrow> Inr (plain_block b [] False 0))"
| "jsonConvertStatement dm (J_call q is_call target) = convert_call q is_call target"
| "jsonConvertStatement dm (J_case q varno whens has_else els) = (case convert_whens dm whens (case_start q varno) of
     Inl err \<Rightarrow> Inl err
   | Inr acc \<Rightarrow>
       if has_else then (case jsonConvertStatements dm els of Inl err \<Rightarrow> Inl err | Inr e \<Rightarrow> Inr (case_block acc e))
       else Inr (case_block acc []))"
| "jsonConvertStatement dm (J_dynexecute into q target params) = convert_dynexecute into q target params"
| "jsonConvertStatement dm (J_execsql q into target) = convert_execsql dm q into target"
| "jsonConvertStatement dm (J_exit label is_exit cond) = Inr (convert_exit label is_exit cond)"
| "jsonConvertStatement dm (J_fori label v lower upper step reverse body) = (case v of
     D_var varName _ _ _ \<Rightarrow> (case jsonConvertStatements dm body of
       Inl err \<Rightarrow> Inl err
     | Inr b \<Rightarrow> Inr (fori_block label varName lower upper step reverse b))
   | _ \<Rightarrow> Inl NoLoopVariable)"
| "jsonConvertStatement dm (J_fors label v body query lineno) = (case query of
     None \<Rightarrow> Inl NoLoopQuery
   | Some q \<Rightarrow> (case fors_variable v of
       None \<Rightarrow> Inl NoLoopVariable
     | Some varName \<Rightarrow> (case jsonConvertStatements dm body of
         Inl err \<Rightarrow> Inl err
       | Inr b \<Rightarrow> Inr (fors_block label varName q lineno b))))"
| "jsonConvertStatement dm (J_if c thn elsifs els) = (case jsonConvertStatements dm thn of
     Inl err \<Rightarrow> Inl err
   | Inr t \<Rightarrow> (case convert_elsifs dm elsifs (if_branch c t ([], [])) of
       Inl err \<Rightarrow> Inl err
     | Inr acc \<Rightarrow> (case jsonConvertStatements dm els of Inl err \<Rightarrow> Inl err | Inr e \<Rightarrow> Inr (if_block acc e))))"
| "jsonConvertStatement dm (J_loop body label) = (case jsonConvertStatements dm body of Inl err \<Rightarrow> Inl err | Inr b \<Rightarrow> Inr (loop_block label b))"
| "jsonConvertStatement dm (J_perform q) = Inr (Perform q)"
| "jsonConvertStatement dm (J_raise level message params options) = Inr (convert_raise level message params options)"
| "jsonConvertStatement dm (J_return e) = Inr (Return e)"
| "jsonConvertStatement dm (J_return_query q) = Inr (ReturnQuery q)"
| "jsonConvertStatement dm (J_while c body label) = (case jsonConvertStatements dm body of Inl err \<Rightarrow> Inl err | Inr b \<Rightarrow> Inr (while_block label c b))"
| "jsonConvertStatement dm (J_when e body) = Inl UnhandledStatement"
| "jsonConvertStatement dm J_none = Inl UnhandledStatement"
| "jsonConvertStatements dm [] = Inr []"
| "jsonConvertStatements dm (s # ss) = (case jsonConvertStatement dm s of
     Inl err \<Rightarrow> Inl err
   | Inr t \<Rightarrow> (case jsonConvertStatements dm ss of Inl err \<Rightarrow> Inl err | Inr ts \<Rightarrow> Inr (t # ts)))"
| "convert_elsifs dm [] acc = Inr acc"
| "convert_elsifs dm ((c, stmts) # es) acc = (case jsonConvertStatements dm stmts of
     Inl err \<Rightarrow> Inl err
   | Inr b \<Rightarrow> convert_elsifs dm es (if_branch c b acc))"
| "convert_whens dm [] acc = Inr acc"
| "convert_whens dm (J_when e stmts # ws) acc = (case jsonConvertStatements dm stmts of
     Inl err \<Rightarrow> Inl err
   | Inr b \<Rightarrow> convert_whens dm ws (case_when e b acc))"
| "convert_whens dm (w # ws) acc = Inl NoWhenClause"

section \<open>A function\<close>

definition lowest_record :: "datum list \<Rightarrow> int" where
  "lowest_record ds = fold (\<lambda>d n. case d of D_rec _ dno \<Rightarrow> min dno n | _ \<Rightarrow> n) ds 2147483647"

definition empty_record :: RecordDecl where
  "empty_record = \<lparr>rec_Name = [], rec_Fields = [], IsTriggerRecord = False\<rparr>"

text \<open>The variables, the records and the position of \<open>FOUND\<close>.\<close>

type_synonym datum_state = "Variable list \<times> RecordDecl list \<times> nat option"

definition add_datum :: "int \<Rightarrow> datum \<Rightarrow> datum_state \<Rightarrow> plerror + datum_state" where
  "add_datum offset d s = (case s of (vars, recs, found) \<Rightarrow> (case d of
     D_rec name dno \<Rightarrow>
       let n = nat (dno + offset); recs = recs @ replicate (Suc n - length recs) empty_record in
       Inr (vars, if dno > 0 then recs[n := (recs ! n)\<lparr>rec_Name := name\<rparr>] else recs, found)
   | D_recfield field parent \<Rightarrow>
       let n = parent + offset in
       if n \<ge> int (length recs) then Inl InvalidRecordParent
       else if n < 0 then Inl PlPanic
       else Inr (vars, recs[nat n := (recs ! nat n)\<lparr>rec_Fields := rec_Fields (recs ! nat n) @ [field]\<rparr>], found)
   | D_row _ _ \<Rightarrow> Inr s
   | D_var name typname lineno dflt \<Rightarrow>
       Inr (vars @ [\<lparr>v_Name = name, v_Type = ToLower typname, IsParameter = (lineno = 0), v_Default = dflt\<rparr>], recs,
         if lineno = 0 \<and> EqualFold name FoundVariableName then Some (length vars) else found)
   | D_none \<Rightarrow> Inl UnhandledDatum))"

fun add_datums :: "int \<Rightarrow> datum list \<Rightarrow> datum_state \<Rightarrow> plerror + datum_state" where
  "add_datums offset [] s = Inr s"
| "add_datums offset (d # ds) s = (case add_datum offset d s of Inl err \<Rightarrow> Inl err | Inr s \<Rightarrow> add_datums offset ds s)"

definition mark_trigger :: "int \<Rightarrow> int \<Rightarrow> RecordDecl list \<Rightarrow> RecordDecl list" where
  "mark_trigger offset varno recs =
     (let idx = varno + offset in
      if varno = 0 \<or> idx < 0 \<or> idx \<ge> int (length recs) then recs else recs[nat idx := (recs ! nat idx)\<lparr>IsTriggerRecord := True\<rparr>])"

definition jsonConvert :: "(gostring \<Rightarrow> bool) \<Rightarrow> plpgSQL_block \<Rightarrow> plerror + Statement" where
  "jsonConvert dm jb =
     (let offset = - lowest_record (Datums jb) in
      case add_datums offset (Datums jb) ([], [], None) of
        Inl err \<Rightarrow> Inl err
      | Inr (vars, recs, found) \<Rightarrow>
          let vars = (case found of
                None \<Rightarrow> vars
              | Some i \<Rightarrow> vars[i := (vars ! i)\<lparr>IsParameter := False, v_Default := gs ''false'', v_Type := gs ''pg_catalog.bool''\<rparr>]);
              recs = mark_trigger offset (old_varno jb) (mark_trigger offset (new_varno jb) recs) in
          (case jsonConvertStatements dm (Action_Body jb) of
            Inl err \<Rightarrow> Inl err
          | Inr body \<Rightarrow> Inr (Block vars recs body (Action_Label jb) False 0)))"

text \<open>The function of a text that \<open>pg_query\<close> has parsed into exactly one.\<close>

definition ParseFunction :: "(gostring \<Rightarrow> token list option) \<Rightarrow> (gostring \<Rightarrow> bool) \<Rightarrow> DoltgresType \<Rightarrow> plpgSQL_block \<Rightarrow> plerror + InterpreterOperation list" where
  "ParseFunction Scan dm tt jb = (case jsonConvert dm jb of
     Inl err \<Rightarrow> Inl err
   | Inr block \<Rightarrow> (case AppendOperations Scan tt block [] NewInterpreterStack of
       Inl err \<Rightarrow> Inl err
     | Inr (ops, _) \<Rightarrow> reconcileLabels ops))"

end
