(* ===== verification/Plpgsql_Interp.thy ===== *)
theory Plpgsql_Interp
  imports Plpgsql_Json
begin

text \<open>
  The interpreter, \<open>src/server/plpgsql/interpreter_logic.go\<close>, and the queries it runs, \<open>src/server/functions/framework/interpreted_function.go\<close>.
  The query engine, the types with their input, output and casts, and the catalog of types are a record of functions; what the
  engine changes is one value of type \<open>'w\<close>. A call that returns an error is over, so the scope that a failed dynamic statement
  would pop is left.
\<close>

section \<open>What the interpreter uses\<close>

record ('v, 'w) ifunc =
  GetAllNames :: "gostring list"
  OutputParameters :: "(gostring \<times> DoltgresType) list"
  InputParameters :: "(gostring \<times> DoltgresType) list"
  GetReturn :: DoltgresType
  IsSRF :: bool
  GetStatements :: "InterpreterOperation list"
  QueryWithBindings :: "gostring \<Rightarrow> 'w \<Rightarrow> (Schema \<times> 'v sqlrow list) option \<times> 'w"
  FormatValue :: "DoltgresType \<Rightarrow> 'v goany \<Rightarrow> gostring option"
  QuoteLiteral :: "gostring \<Rightarrow> gostring"
  cast_value :: "'v goany \<Rightarrow> sql_type \<Rightarrow> DoltgresType \<Rightarrow> 'v goany option"
  type_Zero :: "DoltgresType \<Rightarrow> 'v goany"
  IoInput :: "DoltgresType \<Rightarrow> gostring \<Rightarrow> 'v goany option"
  FromGmsType :: "gostring \<Rightarrow> DoltgresType option"
  TypeForNonKeywordTypeName :: "gostring \<Rightarrow> gostring option"
  GetType :: "gostring \<Rightarrow> gostring \<Rightarrow> DoltgresType option"
  OkResult :: "'v sqlrow \<Rightarrow> nat option"
  as_string :: "'v goany \<Rightarrow> gostring option"
  print_any :: "'v goany \<Rightarrow> gostring"
  BoolType :: DoltgresType
  TextType :: DoltgresType
  TriggerType :: DoltgresType

text \<open>What a \<open>RAISE\<close> below an exception sends to the client.\<close>

record NoticeResponse =
  Severity :: gostring
  nr_Message :: gostring
  nr_Code :: gostring
  Detail :: gostring
  Hint :: gostring
  ConstraintName :: gostring
  DataTypeName :: gostring
  TableName :: gostring
  SchemaName :: gostring

record ('v, 'w) istate =
  istack :: "'v InterpreterStack"
  iworld :: 'w
  notices :: "NoticeResponse list"

section \<open>Queries\<close>

definition quoted_category :: "byte \<Rightarrow> bool" where
  "quoted_category c \<longleftrightarrow> c \<in> {65, 67, 68, 83, 85}"

text \<open>The text that stands for a variable.\<close>

definition binding_text :: "('v, 'w) ifunc \<Rightarrow> bool \<Rightarrow> DoltgresType \<Rightarrow> 'v goany \<Rightarrow> gostring option" where
  "binding_text fn enforceType t v =
     (case (if v = GoNil then Some (gs ''NULL'')
            else map_option (\<lambda>s. if enforceType \<and> quoted_category (TypCategory t) then QuoteLiteral fn s else s) (FormatValue fn t v)) of
       None \<Rightarrow> None
     | Some s \<Rightarrow> Some
         (if \<not> enforceType then s
          else if TypCategory t = 67 then gs ''('' @ s @ gs ''::'' @ dt_Name t @ gs '')''
          else gs ''(('' @ s @ gs '')::'' @ dt_Name t @ gs '')''))"

text \<open>From the last binding to the first; whether the variable was found, and the text or the error.\<close>

fun apply_bindings :: "('v, 'w) ifunc \<Rightarrow> 'v InterpreterStack \<Rightarrow> bool \<Rightarrow> (nat \<times> gostring) list \<Rightarrow> gostring \<Rightarrow> bool \<times> (plerror + gostring)" where
  "apply_bindings fn st enforceType [] stmt = (True, Inr stmt)"
| "apply_bindings fn st enforceType ((i, name) # bs) stmt = (case GetVariableWithError st name of
     Inl err \<Rightarrow> (case err of VariableNotFound _ \<Rightarrow> False | _ \<Rightarrow> True, Inl err)
   | Inr (None, _) \<Rightarrow> (False, Inl (VariableNotFound name))
   | Inr (Some t, r) \<Rightarrow> (case binding_text fn enforceType t (read_ref st r) of
       None \<Rightarrow> (True, Inl InputError)
     | Some txt \<Rightarrow> apply_bindings fn st enforceType bs (ReplaceAll stmt (36 # itoa_nat (Suc i)) txt)))"

definition ApplyBindings :: "('v, 'w) ifunc \<Rightarrow> 'v InterpreterStack \<Rightarrow> gostring \<Rightarrow> gostring list \<Rightarrow> bool \<Rightarrow> bool \<times> (plerror + gostring)" where
  "ApplyBindings fn st stmt bindings enforceType =
     (if bindings = [] then (False, Inr stmt) else apply_bindings fn st enforceType (rev (enumerate 0 bindings)) stmt)"

definition QueryMultiReturn :: "('v, 'w) ifunc \<Rightarrow> 'v InterpreterStack \<Rightarrow> gostring \<Rightarrow> gostring list \<Rightarrow> 'w \<Rightarrow> (plerror + (Schema \<times> 'v sqlrow list)) \<times> 'w" where
  "QueryMultiReturn fn st stmt bindings w = (case snd (ApplyBindings fn st stmt bindings True) of
     Inl err \<Rightarrow> (Inl err, w)
   | Inr stmt \<Rightarrow> (case QueryWithBindings fn stmt w of
       (None, w) \<Rightarrow> (Inl QueryError, w)
     | (Some (sch, rows), w) \<Rightarrow> (Inr (sch, rows), w)))"

definition castQueryValue :: "('v, 'w) ifunc \<Rightarrow> 'v goany \<Rightarrow> sql_type \<Rightarrow> DoltgresType option \<Rightarrow> plerror + 'v goany" where
  "castQueryValue fn val columnType targetType = (case targetType of
     None \<Rightarrow> Inr val
   | Some t \<Rightarrow> if val = GoNil then Inr GoNil
       else (case cast_value fn val columnType t of None \<Rightarrow> Inl InputError | Some v \<Rightarrow> Inr v))"

definition QuerySingleReturn :: "('v, 'w) ifunc \<Rightarrow> 'v InterpreterStack \<Rightarrow> gostring \<Rightarrow> DoltgresType option \<Rightarrow> gostring list \<Rightarrow> 'w \<Rightarrow> (plerror + 'v goany) \<times> 'w" where
  "QuerySingleReturn fn st stmt targetType bindings w = (case QueryMultiReturn fn st stmt bindings w of
     (Inl err, w) \<Rightarrow> (Inl err, w)
   | (Inr (sch, rows), w) \<Rightarrow> (case (sch, rows) of
       ([col], [[val]]) \<Rightarrow> (castQueryValue fn val (col_Type col) targetType, w)
     | _ \<Rightarrow> (Inl QueryError, w)))"

fun cast_row :: "('v, 'w) ifunc \<Rightarrow> 'v sqlrow \<Rightarrow> Schema \<Rightarrow> DoltgresType list \<Rightarrow> plerror + 'v sqlrow" where
  "cast_row fn (v # vs) (c # cs) (t # ts) = (case castQueryValue fn v (col_Type c) (Some t) of
     Inl err \<Rightarrow> Inl err
   | Inr v' \<Rightarrow> (case cast_row fn vs cs ts of Inl err \<Rightarrow> Inl err | Inr r \<Rightarrow> Inr (v' # r)))"
| "cast_row fn vs cs [] = Inr []"
| "cast_row fn vs cs ts = Inl PlPanic"

text \<open>The first row, or none.\<close>

definition QueryRowReturn :: "('v, 'w) ifunc \<Rightarrow> 'v InterpreterStack \<Rightarrow> gostring \<Rightarrow> DoltgresType list \<Rightarrow> gostring list \<Rightarrow> 'w \<Rightarrow> (plerror + 'v sqlrow option) \<times> 'w" where
  "QueryRowReturn fn st stmt targetTypes bindings w = (case QueryMultiReturn fn st stmt bindings w of
     (Inl err, w) \<Rightarrow> (Inl err, w)
   | (Inr (sch, []), w) \<Rightarrow> (Inr None, w)
   | (Inr (sch, row # _), w) \<Rightarrow>
       if length row \<noteq> length targetTypes then (Inl QueryError, w)
       else (case cast_row fn row sch targetTypes of Inl err \<Rightarrow> (Inl err, w) | Inr r \<Rightarrow> (Inr (Some r), w)))"

definition queryProducedRow :: "('v, 'w) ifunc \<Rightarrow> 'v sqlrow list \<Rightarrow> bool" where
  "queryProducedRow fn rows = (case rows of
     [r] \<Rightarrow> (case OkResult fn r of Some n \<Rightarrow> n > 0 | None \<Rightarrow> True)
   | _ \<Rightarrow> rows \<noteq> [])"

section \<open>Leaving scopes\<close>

definition setsFound :: "InterpreterOperation \<Rightarrow> bool" where
  "setsFound operation \<longleftrightarrow> gm_get (Options operation) OptionSetsFound = Some option_true"

definition isLoopCondition :: "InterpreterOperation \<Rightarrow> bool" where
  "isLoopCondition operation \<longleftrightarrow> gm_get (Options operation) OptionLoopCondition = Some option_true"

definition exitScope :: "'v InterpreterStack \<Rightarrow> plerror + 'v InterpreterStack" where
  "exitScope st = (case scopes st of
     [] \<Rightarrow> Inl PlPanic
   | s # _ \<Rightarrow>
       let st = (if scope_cursor s = [] then st else CloseCursor (scope_cursor s) st) in
       (case (if reportsFound s then SetFound (iterated s) st else Inr st) of
         Inl err \<Rightarrow> Inl err
       | Inr st \<Rightarrow> Inr (PopScope st)))"

definition walk_op :: "bool \<Rightarrow> InterpreterOperation \<Rightarrow> 'v InterpreterStack \<Rightarrow> plerror + 'v InterpreterStack" where
  "walk_op forward operation st =
     (if op_Code operation = (if forward then OpCode_ScopeBegin else OpCode_ScopeEnd) then Inr (PushScope st)
      else if op_Code operation = (if forward then OpCode_ScopeEnd else OpCode_ScopeBegin) then exitScope st
      else Inr st)"

fun walk :: "bool \<Rightarrow> InterpreterOperation list \<Rightarrow> 'v InterpreterStack \<Rightarrow> plerror + 'v InterpreterStack" where
  "walk forward [] st = Inr st"
| "walk forward (op # ops) st = (case walk_op forward op st of Inl err \<Rightarrow> Inl err | Inr st \<Rightarrow> walk forward ops st)"

text \<open>A jump from \<open>counter\<close> to \<open>Index\<close>: forward it passes the operations from the jump itself up to but not including the one before the target,
  backward those from the jump down to and including the target. An operation that does not exist is an index out of range.\<close>

definition jump_scopes :: "InterpreterOperation list \<Rightarrow> int \<Rightarrow> int \<Rightarrow> 'v InterpreterStack \<Rightarrow> plerror + 'v InterpreterStack" where
  "jump_scopes ops counter target st =
     (if counter \<le> target then
        (if target - 1 > int (length ops) then Inl PlPanic
         else walk True (take (nat (target - 1 - counter)) (drop (nat counter) ops)) st)
      else if target < 0 then Inl PlPanic
      else walk False (rev (take (nat (counter + 1 - target)) (drop (nat target) ops))) st)"

section \<open>Statements with several parts\<close>

fun set_targets :: "(gostring \<times> 'v goany) list \<Rightarrow> 'v InterpreterStack \<Rightarrow> plerror + 'v InterpreterStack" where
  "set_targets [] st = Inr st"
| "set_targets ((name, val) # rest) st = (case SetVariable name val st of Inl err \<Rightarrow> Inl err | Inr st \<Rightarrow> set_targets rest st)"

fun target_types :: "'v InterpreterStack \<Rightarrow> gostring list \<Rightarrow> plerror + DoltgresType list" where
  "target_types st [] = Inr []"
| "target_types st (name # names) = (case GetVariable st name of
     Inl err \<Rightarrow> Inl err
   | Inr None \<Rightarrow> Inl (VariableNotFound name)
   | Inr (Some (t, _)) \<Rightarrow> (case target_types st names of Inl err \<Rightarrow> Inl err | Inr ts \<Rightarrow> Inr (t # ts)))"

definition option_count :: "InterpreterOperation \<Rightarrow> gostring \<Rightarrow> plerror + nat" where
  "option_count operation key = (case Atoi (case gm_get (Options operation) key of None \<Rightarrow> [] | Some v \<Rightarrow> v) of
     None \<Rightarrow> Inl BadNumber
   | Some n \<Rightarrow> if n < 0 then Inl PlPanic else Inr (nat n))"

definition option_bindings :: "InterpreterOperation \<Rightarrow> gostring \<Rightarrow> nat \<Rightarrow> gostring list" where
  "option_bindings operation prefix n =
     map (\<lambda>i. case gm_get (Options operation) (prefix @ itoa_nat i) of None \<Rightarrow> [] | Some b \<Rightarrow> b) [0..<n]"

definition evaluateDynamicQuery :: "('v, 'w) ifunc \<Rightarrow> InterpreterOperation \<Rightarrow> 'v InterpreterStack \<Rightarrow> 'w \<Rightarrow> (plerror + gostring) \<times> 'w" where
  "evaluateDynamicQuery fn operation st w = (case option_count operation OptionDynamicBindingCount of
     Inl err \<Rightarrow> (Inl err, w)
   | Inr n \<Rightarrow> (case QuerySingleReturn fn st (gs ''SELECT ('' @ PrimaryData operation @ gs '')::text'') (Some (TextType fn))
         (option_bindings operation OptionDynamicBindingPrefix n) w of
       (Inl err, w) \<Rightarrow> (Inl err, w)
     | (Inr v, w) \<Rightarrow>
         if v = GoNil then (Inl NullQueryString, w)
         else (case as_string fn v of None \<Rightarrow> (Inl PlPanic, w) | Some s \<Rightarrow> (Inr s, w))))"

text \<open>The values of the USING expressions with their types.\<close>

fun using_values :: "('v, 'w) ifunc \<Rightarrow> InterpreterOperation \<Rightarrow> 'v InterpreterStack \<Rightarrow> nat list \<Rightarrow> 'w \<Rightarrow> (plerror + (DoltgresType \<times> 'v goany) list) \<times> 'w" where
  "using_values fn operation st [] w = (Inr [], w)"
| "using_values fn operation st (i # is) w = (case option_count operation (OptionDynamicUsingBindingCountPrefix @ itoa_nat i) of
     Inl err \<Rightarrow> (Inl err, w)
   | Inr n \<Rightarrow>
       let bindings = option_bindings operation (OptionDynamicUsingBindingPrefix @ itoa_nat i @ gs ''_'') n;
           expression = (case gm_get (Options operation) (OptionDynamicUsingExpressionPrefix @ itoa_nat i) of None \<Rightarrow> [] | Some e \<Rightarrow> e) in
       (case QueryMultiReturn fn st (gs ''SELECT ('' @ expression @ gs '')'') bindings w of
         (Inl err, w) \<Rightarrow> (Inl err, w)
       | (Inr (sch, rows), w) \<Rightarrow> (case (sch, rows) of
           ([col], [[v]]) \<Rightarrow> (case (case col_Type col of Doltgres t \<Rightarrow> Some t | GmsType g \<Rightarrow> FromGmsType fn g) of
               None \<Rightarrow> (Inl InputError, w)
             | Some t \<Rightarrow> (case using_values fn operation st is w of
                 (Inl err, w) \<Rightarrow> (Inl err, w)
               | (Inr vs, w) \<Rightarrow> (Inr ((t, v) # vs), w)))
         | _ \<Rightarrow> (Inl UsingNotOneValue, w))))"

definition using_name :: "nat \<Rightarrow> gostring" where
  "using_name i = 0 # gs ''dynamic_using_'' @ itoa_nat i"

text \<open>The temporary variables in a scope of their own.\<close>

definition evaluateDynamicUsing :: "('v, 'w) ifunc \<Rightarrow> InterpreterOperation \<Rightarrow> 'v InterpreterStack \<Rightarrow> 'w \<Rightarrow> (plerror + gostring list \<times> 'v InterpreterStack) \<times> 'w" where
  "evaluateDynamicUsing fn operation st w = (case option_count operation OptionDynamicUsingCount of
     Inl err \<Rightarrow> (Inl err, w)
   | Inr n \<Rightarrow> (case using_values fn operation st [0..<n] w of
       (Inl err, w) \<Rightarrow> (Inl err, w)
     | (Inr vs, w) \<Rightarrow> (Inr (map using_name [0..<n],
         fold (\<lambda>(i, t, v). NewVariableWithValue (using_name i) (Some t) v) (enumerate 0 vs) (PushScope st)), w)))"

text \<open>The operation with its query and bindings, and whether it is dynamic.\<close>

definition dynamic_operation :: "('v, 'w) ifunc \<Rightarrow> InterpreterOperation \<Rightarrow> 'v InterpreterStack \<Rightarrow> 'w
    \<Rightarrow> (plerror + bool \<times> InterpreterOperation \<times> 'v InterpreterStack) \<times> 'w" where
  "dynamic_operation fn operation st w =
     (if gm_get (Options operation) OptionDynamicExpression \<noteq> Some option_true then (Inr (False, operation, st), w)
      else (case evaluateDynamicQuery fn operation st w of
        (Inl err, w) \<Rightarrow> (Inl err, w)
      | (Inr query, w) \<Rightarrow> (case evaluateDynamicUsing fn operation st w of
          (Inl err, w) \<Rightarrow> (Inl err, w)
        | (Inr (names, st), w) \<Rightarrow> (Inr (True, operation\<lparr>PrimaryData := query, SecondaryData := names\<rparr>, st), w))))"

text \<open>\<open>EXECUTE\<close> with a list of variables as its target.\<close>

definition execute_into_variables :: "('v, 'w) ifunc \<Rightarrow> InterpreterOperation \<Rightarrow> 'v InterpreterStack \<Rightarrow> 'w \<Rightarrow> (plerror + 'v InterpreterStack) \<times> 'w" where
  "execute_into_variables fn operation st w =
     (let vars = Split_byte 44 (Target operation) in
      case target_types st vars of
        Inl err \<Rightarrow> (Inl err, w)
      | Inr types \<Rightarrow> (case QueryRowReturn fn st (PrimaryData operation) types (SecondaryData operation) w of
          (Inl err, w) \<Rightarrow> (Inl err, w)
        | (Inr row, w) \<Rightarrow> (case set_targets (zip vars (case row of None \<Rightarrow> replicate (length vars) GoNil | Some r \<Rightarrow> r)) st of
            Inl err \<Rightarrow> (Inl err, w)
          | Inr st \<Rightarrow> (if setsFound operation then SetFound (row \<noteq> None) st else Inr st, w))))"

definition execute_plain :: "('v, 'w) ifunc \<Rightarrow> InterpreterOperation \<Rightarrow> 'v InterpreterStack \<Rightarrow> 'w \<Rightarrow> (plerror + 'v InterpreterStack) \<times> 'w" where
  "execute_plain fn operation st w = (case QueryMultiReturn fn st (PrimaryData operation) (SecondaryData operation) w of
     (Inl err, w) \<Rightarrow> (Inl err, w)
   | (Inr (_, rows), w) \<Rightarrow> (if setsFound operation then SetFound (queryProducedRow fn rows) st else Inr st, w))"

definition execute_into_record :: "('v, 'w) ifunc \<Rightarrow> InterpreterOperation \<Rightarrow> 'v InterpreterStack \<Rightarrow> 'w \<Rightarrow> (plerror + 'v InterpreterStack) \<times> 'w" where
  "execute_into_record fn operation st w = (case QueryMultiReturn fn st (PrimaryData operation) (SecondaryData operation) w of
     (Inl err, w) \<Rightarrow> (Inl err, w)
   | (Inr (sch, rows), w) \<Rightarrow> (case UpdateRecord (FromGmsType fn) (Target operation) sch (case rows of [] \<Rightarrow> None | r # _ \<Rightarrow> Some r) st of
       Inl err \<Rightarrow> (Inl err, w)
     | Inr st \<Rightarrow> (if setsFound operation then SetFound (rows \<noteq> []) st else Inr st, w)))"

definition run_execute :: "('v, 'w) ifunc \<Rightarrow> InterpreterOperation \<Rightarrow> 'v InterpreterStack \<Rightarrow> 'w \<Rightarrow> (plerror + 'v InterpreterStack) \<times> 'w" where
  "run_execute fn operation st w = (case dynamic_operation fn operation st w of
     (Inl err, w) \<Rightarrow> (Inl err, w)
   | (Inr (is_dynamic, operation, st), w) \<Rightarrow>
       (case (if op_Code operation = OpCode_ExecuteInto then execute_into_record fn operation st w
              else if Target operation \<noteq> [] then execute_into_variables fn operation st w
              else execute_plain fn operation st w) of
         (Inl err, w) \<Rightarrow> (Inl err, w)
       | (Inr st, w) \<Rightarrow> (Inr (if is_dynamic then PopScope st else st), w)))"

section \<open>Declarations\<close>

text \<open>The schema and the name of the type of a declaration.\<close>

definition declared_type :: "('v, 'w) ifunc \<Rightarrow> gostring \<Rightarrow> gostring \<times> gostring" where
  "declared_type fn primary =
     (let typeName = ReplaceAll primary [Quot] [];
          parts = Split_byte 46 typeName in
      if length parts < 2 then (gs ''pg_catalog'', typeName)
      else
        let schemaName = parts ! 0; typeName = parts ! 1 in
        if schemaName \<noteq> gs ''pg_catalog'' then (schemaName, typeName)
        else
          let is_array = HasPrefix typeName (gs ''_''); elementName = (if is_array then tl typeName else typeName) in
          (case TypeForNonKeywordTypeName fn elementName of
            None \<Rightarrow> (schemaName, typeName)
          | Some n \<Rightarrow> (schemaName, (if is_array then gs ''_'' else []) @ n)))"

definition run_declare :: "('v, 'w) ifunc \<Rightarrow> InterpreterOperation \<Rightarrow> 'v InterpreterStack \<Rightarrow> plerror + 'v InterpreterStack" where
  "run_declare fn operation st = (case declared_type fn (PrimaryData operation) of (schemaName, typeName) \<Rightarrow>
     (case GetType fn schemaName typeName of
       None \<Rightarrow> Inl (TypeDoesNotExist (PrimaryData operation))
     | Some t \<Rightarrow> (case SecondaryData operation of
         [] \<Rightarrow> Inr (NewVariable (type_Zero fn) (Target operation) t st)
       | defVal # _ \<Rightarrow>
           if defVal \<in> set (GetAllNames fn) then
             (case GetVariableWithError st defVal of
               Inr (_, r) \<Rightarrow> Inr (NewVariableWithValue (Target operation) (Some t) (read_ref st r) st)
             | Inl err \<Rightarrow> if err = PlPanic then Inl PlPanic else Inr (NewVariable (type_Zero fn) (Target operation) t st))
           else (case IoInput fn t (Trim_byte 39 defVal) of
               None \<Rightarrow> Inl InputError
             | Some v \<Rightarrow> Inr (NewVariableWithValue (Target operation) (Some t) v st)))))"

section \<open>Notices\<close>

text \<open>Each percent sign of a part stands for the next parameter; what is put in is searched again.\<close>

definition replace_first :: "byte \<Rightarrow> gostring \<Rightarrow> gostring \<Rightarrow> gostring" where
  "replace_first c new s = takeWhile (\<lambda>b. b \<noteq> c) s @ new @ tl (dropWhile (\<lambda>b. b \<noteq> c) s)"

definition notice_value :: "('v, 'w) ifunc \<Rightarrow> 'v InterpreterStack \<Rightarrow> gostring \<Rightarrow> 'w \<Rightarrow> (plerror + gostring) \<times> 'w" where
  "notice_value fn st param w =
     (let lookupName = (case NormalizeIdentifierPath param of Some n \<Rightarrow> n | None \<Rightarrow> param) in
      case ApplyBindings fn st (gs ''$1'') [lookupName] False of
        (True, r) \<Rightarrow> (r, w)
      | (False, _) \<Rightarrow> (case QuerySingleReturn fn st (gs ''SELECT ('' @ param @ gs '')::text'') None [] w of
          (Inl err, w) \<Rightarrow> (Inl err, w)
        | (Inr v, w) \<Rightarrow> (Inr (print_any fn v), w)))"

text \<open>One part, with the parameters that are left; every round takes one.\<close>

fun notice_part :: "('v, 'w) ifunc \<Rightarrow> 'v InterpreterStack \<Rightarrow> gostring \<Rightarrow> gostring list \<Rightarrow> 'w \<Rightarrow> (plerror + gostring \<times> gostring list) \<times> 'w" where
  "notice_part fn st part [] w = (if 37 \<in> set part then (Inl TooFewParameters, w) else (Inr (part, []), w))"
| "notice_part fn st part (param # params) w =
     (if 37 \<notin> set part then (Inr (part, param # params), w)
      else (case notice_value fn st param w of
        (Inl err, w) \<Rightarrow> (Inl err, w)
      | (Inr v, w) \<Rightarrow> notice_part fn st (replace_first 37 v part) params w))"

fun notice_parts :: "('v, 'w) ifunc \<Rightarrow> 'v InterpreterStack \<Rightarrow> gostring list \<Rightarrow> gostring list \<Rightarrow> 'w \<Rightarrow> (plerror + gostring list \<times> gostring list) \<times> 'w" where
  "notice_parts fn st [] params w = (Inr ([], params), w)"
| "notice_parts fn st (part # parts) params w = (case notice_part fn st part params w of
     (Inl err, w) \<Rightarrow> (Inl err, w)
   | (Inr (p, params), w) \<Rightarrow> (case notice_parts fn st parts params w of
       (Inl err, w) \<Rightarrow> (Inl err, w)
     | (Inr (ps, params), w) \<Rightarrow> (Inr (p # ps, params), w)))"

text \<open>\<open>strings.Split\<close> at \<open>%%\<close>.\<close>

fun split_percents :: "gostring \<Rightarrow> gostring list" where
  "split_percents (a # b # s) =
     (if a = 37 \<and> b = 37 then [] # split_percents s
      else (case split_percents (b # s) of [] \<Rightarrow> [[a]] | p # ps \<Rightarrow> (a # p) # ps))"
| "split_percents s = [s]"

definition join_percent :: "gostring list \<Rightarrow> gostring" where
  "join_percent ps = (case ps of [] \<Rightarrow> [] | p # ps \<Rightarrow> p @ concat (map (\<lambda>q. 37 # q) ps))"

definition evaluteNoticeMessage :: "('v, 'w) ifunc \<Rightarrow> InterpreterOperation \<Rightarrow> 'v InterpreterStack \<Rightarrow> 'w \<Rightarrow> (plerror + gostring) \<times> 'w" where
  "evaluteNoticeMessage fn operation st w = (case SecondaryData operation of
     [] \<Rightarrow> (Inl PlPanic, w)
   | [message] \<Rightarrow> (Inr message, w)
   | message # params \<Rightarrow> (case notice_parts fn st (split_percents message) params w of
       (Inl err, w) \<Rightarrow> (Inl err, w)
     | (Inr (ps, rest), w) \<Rightarrow> if rest \<noteq> [] then (Inl TooManyParameters, w) else (Inr (join_percent ps), w)))"

text \<open>The options of a notice; the number of an option is cut to a byte, and one that is not known is only logged.\<close>

definition notice_option :: "byte \<Rightarrow> gostring \<Rightarrow> NoticeResponse \<Rightarrow> NoticeResponse" where
  "notice_option i v n =
     (if i = 0 then n\<lparr>nr_Code := v\<rparr>
      else if i = 1 then n\<lparr>nr_Message := v\<rparr>
      else if i = 2 then n\<lparr>Detail := v\<rparr>
      else if i = 3 then n\<lparr>Hint := v\<rparr>
      else if i = 5 then n\<lparr>ConstraintName := v\<rparr>
      else if i = 6 then n\<lparr>DataTypeName := v\<rparr>
      else if i = 7 then n\<lparr>TableName := v\<rparr>
      else if i = 8 then n\<lparr>SchemaName := v\<rparr>
      else n)"

fun applyNoticeOptions :: "(gostring, gostring) gomap \<Rightarrow> NoticeResponse \<Rightarrow> plerror + NoticeResponse" where
  "applyNoticeOptions [] n = Inr n"
| "applyNoticeOptions ((key, v) # options) n = (case Atoi key of
     None \<Rightarrow> Inl BadNumber
   | Some i \<Rightarrow> applyNoticeOptions options (notice_option (word_of_int i) v n))"

definition new_notice :: "gostring \<Rightarrow> gostring \<Rightarrow> NoticeResponse" where
  "new_notice level message = \<lparr>Severity = level, nr_Message = message, nr_Code = [], Detail = [], Hint = [], ConstraintName = [],
     DataTypeName = [], TableName = [], SchemaName = []\<rparr>"

section \<open>One operation\<close>

datatype 'v call_result = ReturnAny "'v goany" | ReturnRows "'v sqlrow list"

datatype ('v, 'w) step_result =
    Proceed_at int "('v, 'w) istate"
  | Returned "'v call_result" "('v, 'w) istate"
  | Raised plerror "('v, 'w) istate"

text \<open>An operation that changes the stack and the database and then goes on, or fails.\<close>

definition go_on :: "int \<Rightarrow> ('v, 'w) istate \<Rightarrow> (plerror + 'v InterpreterStack) \<times> 'w \<Rightarrow> ('v, 'w) step_result" where
  "go_on counter s r = (case r of
     (Inl err, w) \<Rightarrow> Raised err (s\<lparr>iworld := w\<rparr>)
   | (Inr st, w) \<Rightarrow> Proceed_at counter (s\<lparr>istack := st, iworld := w\<rparr>))"

fun convertRowsToRecords :: "('v, 'w) ifunc \<Rightarrow> Schema \<Rightarrow> 'v sqlrow \<Rightarrow> plerror + ('v goany \<times> DoltgresType) list" where
  "convertRowsToRecords fn sch [] = Inr []"
| "convertRowsToRecords fn [] (v # vs) = Inl PlPanic"
| "convertRowsToRecords fn (c # cs) (v # vs) = (case (case col_Type c of Doltgres t \<Rightarrow> Some t | GmsType g \<Rightarrow> FromGmsType fn g) of
     None \<Rightarrow> Inl InputError
   | Some t \<Rightarrow> (case convertRowsToRecords fn cs vs of Inl err \<Rightarrow> Inl err | Inr r \<Rightarrow> Inr ((v, t) # r)))"

fun convert_rows :: "('v, 'w) ifunc \<Rightarrow> Schema \<Rightarrow> 'v sqlrow list \<Rightarrow> plerror + ('v goany \<times> DoltgresType) list list" where
  "convert_rows fn sch [] = Inr []"
| "convert_rows fn sch (r # rs) = (case convertRowsToRecords fn sch r of
     Inl err \<Rightarrow> Inl err
   | Inr x \<Rightarrow> (case convert_rows fn sch rs of Inl err \<Rightarrow> Inl err | Inr xs \<Rightarrow> Inr (x # xs)))"

definition run_return :: "('v, 'w) ifunc \<Rightarrow> InterpreterOperation \<Rightarrow> ('v, 'w) istate \<Rightarrow> ('v, 'w) step_result" where
  "run_return fn operation s = (let st = istack s in
     if returnQueryBuffer st \<noteq> [] then
       Returned (ReturnRows (map (\<lambda>rec. case rec of
           [(v, _)] \<Rightarrow> if TypCategory (GetReturn fn) \<noteq> 67 then [v] else [GoRecord rec]
         | _ \<Rightarrow> [GoRecord rec]) (returnQueryBuffer st))) s
     else if outParams st \<noteq> [] then
       (case ReturnOutParamResults st of None \<Rightarrow> Raised PlPanic s | Some v \<Rightarrow> Returned (ReturnAny v) s)
     else if PrimaryData operation = [] then Returned (ReturnAny GoNil) s
     else
       let is_ref = (dt_ID (GetReturn fn) = dt_ID (TriggerType fn) \<and> length (SecondaryData operation) = 1 \<and>
             filter (\<lambda>b. b \<noteq> 32) (ToLower (PrimaryData operation)) = gs ''select$1;'');
           rec_name = (if \<not> is_ref then []
             else if EqualFold (hd (SecondaryData operation)) (gs ''new'') then gs ''new''
             else if EqualFold (hd (SecondaryData operation)) (gs ''old'') then gs ''old'' else []) in
       if rec_name \<noteq> [] then
         (case GetVariableWithError st rec_name of Inr (_, r) \<Rightarrow> Returned (ReturnAny (read_ref st r)) s | Inl _ \<Rightarrow> Raised PlPanic s)
       else (case QuerySingleReturn fn st (PrimaryData operation) (Some (GetReturn fn)) (SecondaryData operation) (iworld s) of
           (Inl err, w) \<Rightarrow> Raised err (s\<lparr>iworld := w\<rparr>)
         | (Inr v, w) \<Rightarrow> Returned (if IsSRF fn then ReturnRows [[v]] else ReturnAny v) (s\<lparr>iworld := w\<rparr>)))"

definition run_assign :: "('v, 'w) ifunc \<Rightarrow> InterpreterOperation \<Rightarrow> 'v InterpreterStack \<Rightarrow> 'w \<Rightarrow> (plerror + 'v InterpreterStack) \<times> 'w" where
  "run_assign fn operation st w = (case GetVariable st (Target operation) of
     Inl err \<Rightarrow> (Inl err, w)
   | Inr None \<Rightarrow> (Inl (VariableNotFound (Target operation)), w)
   | Inr (Some (t, _)) \<Rightarrow> (case QuerySingleReturn fn st (PrimaryData operation) (Some t) (SecondaryData operation) w of
       (Inl err, w) \<Rightarrow> (Inl err, w)
     | (Inr v, w) \<Rightarrow> (SetVariable (Target operation) v st, w)))"

definition run_raise :: "('v, 'w) ifunc \<Rightarrow> int \<Rightarrow> InterpreterOperation \<Rightarrow> ('v, 'w) istate \<Rightarrow> ('v, 'w) step_result" where
  "run_raise fn counter operation s = (case evaluteNoticeMessage fn operation (istack s) (iworld s) of
     (Inl err, w) \<Rightarrow> Raised err (s\<lparr>iworld := w\<rparr>)
   | (Inr message, w) \<Rightarrow>
       let s = s\<lparr>iworld := w\<rparr> in
       if PrimaryData operation = gs ''EXCEPTION'' then Raised (RaiseException message) s
       else (case applyNoticeOptions (Options operation) (new_notice (PrimaryData operation) message) of
           Inl err \<Rightarrow> Raised err s
         | Inr n \<Rightarrow> Proceed_at counter (s\<lparr>notices := notices s @ [n]\<rparr>)))"

definition run_if :: "('v, 'w) ifunc \<Rightarrow> int \<Rightarrow> InterpreterOperation \<Rightarrow> ('v, 'w) istate \<Rightarrow> ('v, 'w) step_result" where
  "run_if fn counter operation s =
     (case QuerySingleReturn fn (istack s) (PrimaryData operation) (Some (BoolType fn)) (SecondaryData operation) (iworld s) of
       (Inl err, w) \<Rightarrow> Raised err (s\<lparr>iworld := w\<rparr>)
     | (Inr (GoBool conditionMet), w) \<Rightarrow>
         let st = (if isLoopCondition operation then MarkScopeLoop conditionMet (istack s) else istack s) in
         Proceed_at (if conditionMet then op_Index operation - 1 else counter) (s\<lparr>istack := st, iworld := w\<rparr>)
     | (Inr _, w) \<Rightarrow> Raised PlPanic (s\<lparr>iworld := w\<rparr>))"

definition run_for_next :: "('v, 'w) ifunc \<Rightarrow> int \<Rightarrow> InterpreterOperation \<Rightarrow> ('v, 'w) istate \<Rightarrow> ('v, 'w) step_result" where
  "run_for_next fn counter operation s = (case AdvanceCursor (PrimaryData operation) (istack s) of
     (None, st) \<Rightarrow> Proceed_at (op_Index operation - 1) (s\<lparr>istack := st\<rparr>)
   | (Some (sch, row), st) \<Rightarrow>
       go_on counter s (UpdateRecord (FromGmsType fn) (Target operation) sch (Some row) (MarkScopeLoop True st), iworld s))"

definition run_return_query :: "('v, 'w) ifunc \<Rightarrow> InterpreterOperation \<Rightarrow> 'v InterpreterStack \<Rightarrow> 'w \<Rightarrow> (plerror + 'v InterpreterStack) \<times> 'w" where
  "run_return_query fn operation st w = (case QueryMultiReturn fn st (PrimaryData operation) (SecondaryData operation) w of
     (Inl err, w) \<Rightarrow> (Inl err, w)
   | (Inr (sch, rows), w) \<Rightarrow> (case convert_rows fn sch rows of
       Inl err \<Rightarrow> (Inl err, w)
     | Inr records \<Rightarrow> (SetFound (rows \<noteq> []) (BufferReturnQueryResults records st), w)))"

text \<open>The operations that look at the top scope; without one they follow a nil pointer.\<close>

definition needs_scope :: "InterpreterOperation \<Rightarrow> bool" where
  "needs_scope operation \<longleftrightarrow> op_Code operation \<in> {OpCode_Alias, OpCode_Declare, OpCode_DeclareRecord, OpCode_ForQueryInit, OpCode_ForQueryNext} \<or>
     op_Code operation = OpCode_If \<and> isLoopCondition operation"

definition run_operation :: "('v, 'w) ifunc \<Rightarrow> int \<Rightarrow> InterpreterOperation \<Rightarrow> ('v, 'w) istate \<Rightarrow> ('v, 'w) step_result" where
  "run_operation fn counter operation s =
     (let st = istack s; w = iworld s in
      if needs_scope operation \<and> scopes st = [] then Raised PlPanic s
      else (case op_Code operation of
        OpCode_Alias \<Rightarrow> (case GetVariable st (PrimaryData operation) of
            Inl err \<Rightarrow> Raised err s
          | Inr None \<Rightarrow> Raised (VariableNotFound (PrimaryData operation)) s
          | Inr (Some _) \<Rightarrow> Proceed_at counter (s\<lparr>istack := NewVariableAlias (Target operation) (PrimaryData operation) st\<rparr>))
      | OpCode_Assign \<Rightarrow> go_on counter s (run_assign fn operation st w)
      | OpCode_Declare \<Rightarrow> go_on counter s (run_declare fn operation st, w)
      | OpCode_DeleteInto \<Rightarrow> Proceed_at counter s
      | OpCode_Exception \<Rightarrow> Proceed_at counter s
      | OpCode_Execute \<Rightarrow> go_on counter s (run_execute fn operation st w)
      | OpCode_ExecuteInto \<Rightarrow> go_on counter s (run_execute fn operation st w)
      | OpCode_DeclareRecord \<Rightarrow> Proceed_at counter (s\<lparr>istack := NewRecord (TriggerType fn) (Target operation) [] None st\<rparr>)
      | OpCode_Get \<Rightarrow> Proceed_at counter s
      | OpCode_Goto \<Rightarrow> go_on (if counter \<le> op_Index operation then max counter (op_Index operation - 1) else op_Index operation - 1) s
          (jump_scopes (GetStatements fn) counter (op_Index operation) st, w)
      | OpCode_If \<Rightarrow> run_if fn counter operation s
      | OpCode_InsertInto \<Rightarrow> Proceed_at counter s
      | OpCode_Perform \<Rightarrow> (case QueryMultiReturn fn st (PrimaryData operation) (SecondaryData operation) w of
            (Inl err, w) \<Rightarrow> Raised err (s\<lparr>iworld := w\<rparr>)
          | (Inr (_, rows), w) \<Rightarrow> go_on counter s (SetFound (queryProducedRow fn rows) st, w))
      | OpCode_Raise \<Rightarrow> run_raise fn counter operation s
      | OpCode_Return \<Rightarrow> run_return fn operation s
      | OpCode_ForQueryInit \<Rightarrow> (case QueryMultiReturn fn st (PrimaryData operation) (SecondaryData operation) w of
            (Inl err, w) \<Rightarrow> Raised err (s\<lparr>iworld := w\<rparr>)
          | (Inr (sch, rows), w) \<Rightarrow>
              Proceed_at counter (s\<lparr>istack := MarkScopeLoop False (InitCursor (Target operation) sch rows st), iworld := w\<rparr>))
      | OpCode_ForQueryNext \<Rightarrow> run_for_next fn counter operation s
      | OpCode_ReturnQuery \<Rightarrow> go_on counter s (run_return_query fn operation st w)
      | OpCode_ScopeBegin \<Rightarrow> Proceed_at counter (s\<lparr>istack := PushScope st\<rparr>)
      | OpCode_ScopeEnd \<Rightarrow> go_on counter s (exitScope st, w)
      | OpCode_SelectInto \<Rightarrow> Proceed_at counter s
      | OpCode_UpdateInto \<Rightarrow> Proceed_at counter s
      | OpCode_Case \<Rightarrow> Raised PlPanic s))"

section \<open>A call\<close>

text \<open>The loop, for at most so many rounds; \<open>None\<close> when they do not suffice.\<close>

fun call_loop :: "('v, 'w) ifunc \<Rightarrow> nat \<Rightarrow> int \<Rightarrow> ('v, 'w) istate \<Rightarrow> ((plerror + 'v call_result) \<times> ('v, 'w) istate) option" where
  "call_loop fn 0 counter s = None"
| "call_loop fn (Suc n) counter s =
     (let counter = counter + 1 in
      if counter \<ge> int (length (GetStatements fn)) then Some (Inr (ReturnAny GoNil), s)
      else if counter < 0 then Some (Inl PlPanic, s)
      else (case run_operation fn counter (GetStatements fn ! nat counter) s of
        Proceed_at counter s \<Rightarrow> call_loop fn n counter s
      | Returned v s \<Rightarrow> Some (Inr v, s)
      | Raised err s \<Rightarrow> Some (Inl err, s)))"

definition bind_parameters :: "('v, 'w) ifunc \<Rightarrow> 'v goany list \<Rightarrow> 'v InterpreterStack" where
  "bind_parameters fn vals =
     (let st = fold (\<lambda>(n, t). NewVariable (type_Zero fn) n t) (OutputParameters fn) NewInterpreterStack;
          st = st\<lparr>outParams := map fst (OutputParameters fn)\<rparr> in
      fold (\<lambda>((n, t), v). NewVariableWithValue n (Some t) v) (zip (InputParameters fn) vals) st)"

definition Call :: "('v, 'w) ifunc \<Rightarrow> nat \<Rightarrow> 'v goany list \<Rightarrow> 'w \<Rightarrow> ((plerror + 'v call_result) \<times> ('v, 'w) istate) option" where
  "Call fn n vals w =
     (let s = \<lparr>istack = bind_parameters fn vals, iworld = w, notices = []\<rparr> in
      if length vals \<noteq> length (InputParameters fn) then Some (Inl ParameterCountMismatch, s) else call_loop fn n (-1) s)"

definition trigger_stack :: "('v, 'w) ifunc \<Rightarrow> Schema \<Rightarrow> 'v sqlrow option \<Rightarrow> 'v sqlrow option \<Rightarrow> 'v InterpreterStack" where
  "trigger_stack fn sch oldRow newRow =
     markUnfoldedName (gs ''new'') (markUnfoldedName (gs ''old'')
       (NewRecord (TriggerType fn) (gs ''new'') sch newRow (NewRecord (TriggerType fn) (gs ''old'') sch oldRow NewInterpreterStack)))"

fun trigger_variables :: "(gostring \<Rightarrow> DoltgresType) \<Rightarrow> (gostring \<times> 'v goany) list \<Rightarrow> 'v InterpreterStack \<Rightarrow> plerror + 'v InterpreterStack" where
  "trigger_variables types [] st = Inr st"
| "trigger_variables types ((varName, val) # vars) st =
     (let normalized = NormalizeIdentifier varName in
      if normalized \<notin> set triggerSpecialVariables then Inl (VariableNotFound varName)
      else trigger_variables types vars (markUnfoldedName normalized (NewVariableWithValue normalized (Some (types normalized)) val st)))"

definition TriggerCall :: "('v, 'w) ifunc \<Rightarrow> (gostring \<Rightarrow> DoltgresType) \<Rightarrow> nat \<Rightarrow> Schema \<Rightarrow> 'v sqlrow option \<Rightarrow> 'v sqlrow option
    \<Rightarrow> (gostring \<times> 'v goany) list \<Rightarrow> 'w \<Rightarrow> ((plerror + 'v call_result) \<times> ('v, 'w) istate) option" where
  "TriggerCall fn types n sch oldRow newRow trigVars w = (case trigger_variables types trigVars (trigger_stack fn sch oldRow newRow) of
     Inl err \<Rightarrow> Some (Inl err, \<lparr>istack = trigger_stack fn sch oldRow newRow, iworld = w, notices = []\<rparr>)
   | Inr st \<Rightarrow> call_loop fn n (-1) \<lparr>istack = st, iworld = w, notices = []\<rparr>)"

end
