(* ===== verification/Plpgsql_Tree.thy ===== *)
theory Plpgsql_Tree
  imports Plpgsql_Interp
begin

text \<open>
  How the compiled code is laid out. The operations of a statement form a tree whose inner nodes are scopes: \<open>flat\<close> lists it as
  \<open>AppendOperations\<close> does, with labels, and \<open>resolved\<close> as it is when every label has become a position. The theorems show that the
  compiler emits the first, that the sizes it computes jumps with are exact, and that \<open>reconcileLabels\<close> turns the first into
  the second, unless a label is used again behind an \<open>EXIT\<close> that names it.
\<close>

section \<open>Trees of operations\<close>

lemma new_op_simps [simp]:
  "op_Code (new_op c) = c" "PrimaryData (new_op c) = []" "SecondaryData (new_op c) = []" "Target (new_op c) = []"
  "op_Index (new_op c) = 0" "Options (new_op c) = []"
  by (simp_all add: new_op_def)

datatype otree = Leaf InterpreterOperation | Scope (t_label: gostring) (t_loop: bool) (t_cto: int) (t_children: "otree list")

definition begin_raw :: "gostring \<Rightarrow> bool \<Rightarrow> int \<Rightarrow> InterpreterOperation" where
  "begin_raw l lp c = (new_op OpCode_ScopeBegin)\<lparr>PrimaryData := l, Target := (if lp then gs ''_'' else []),
     Options := (if lp then [(continueTargetOption, Itoa (1 + c))] else [])\<rparr>"

fun tsize :: "otree \<Rightarrow> nat" and tsizes :: "otree list \<Rightarrow> nat" where
  "tsize (Leaf op) = 1"
| "tsize (Scope l lp c ts) = 2 + tsizes ts"
| "tsizes [] = 0"
| "tsizes (t # ts) = tsize t + tsizes ts"

fun flat :: "otree \<Rightarrow> InterpreterOperation list" and flats :: "otree list \<Rightarrow> InterpreterOperation list" where
  "flat (Leaf op) = [op]"
| "flat (Scope l lp c ts) = [begin_raw l lp c] @ flats ts @ [new_op OpCode_ScopeEnd]"
| "flats [] = []"
| "flats (t # ts) = flat t @ flats ts"

lemma length_flat [simp]: "length (flat t) = tsize t" and length_flats [simp]: "length (flats ts) = tsizes ts"
  by (induction t and ts rule: flat_flats.induct) simp_all

section \<open>The tree of a statement\<close>

text \<open>A block without declarations, as control structures compile to.\<close>

fun plain :: "Statement \<Rightarrow> bool" and plains :: "Statement list \<Rightarrow> bool" where
  "plain (Block vars recs body l lp c) \<longleftrightarrow> vars = [] \<and> recs = [] \<and> plains body"
| "plain _ \<longleftrightarrow> True"
| "plains [] \<longleftrightarrow> True"
| "plains (s # ss) \<longleftrightarrow> plain s \<and> plains ss"

fun tree_of :: "(gostring \<Rightarrow> token list option) \<Rightarrow> gostring InterpreterStack \<Rightarrow> nat \<Rightarrow> Statement \<Rightarrow> plerror + otree \<times> gostring InterpreterStack"
  and trees_of :: "(gostring \<Rightarrow> token list option) \<Rightarrow> gostring InterpreterStack \<Rightarrow> nat \<Rightarrow> Statement list \<Rightarrow> plerror + otree list \<times> gostring InterpreterStack" where
  "tree_of Scan st p (Block vars recs body lbl is_loop cto) =
     (let st = SetLabel lbl (PushScope st);
          st = (if is_loop \<and> lbl = [] then SetAnonymousLabel st else st);
          label = (if is_loop \<and> lbl = [] then GetCurrentLabel st else lbl) in
      case trees_of Scan st (Suc p) body of
        Inl err \<Rightarrow> Inl err
      | Inr (ts, st) \<Rightarrow> Inr (Scope label is_loop cto ts, PopScope st))"
| "tree_of Scan st p s = (case simple_op Scan st (int p) s of Inl err \<Rightarrow> Inl err | Inr op \<Rightarrow> Inr (Leaf op, st))"
| "trees_of Scan st p [] = Inr ([], st)"
| "trees_of Scan st p (s # ss) = (case tree_of Scan st p s of
     Inl err \<Rightarrow> Inl err
   | Inr (t, st) \<Rightarrow> (case trees_of Scan st (p + tsize t) ss of Inl err \<Rightarrow> Inl err | Inr (ts, st) \<Rightarrow> Inr (t # ts, st)))"

lemma append_is_tree:
  "plain s \<Longrightarrow> AppendOperations Scan tt s ops st =
     (case tree_of Scan st (length ops) s of Inl err \<Rightarrow> Inl err | Inr (t, st) \<Rightarrow> Inr (ops @ flat t, st))"
  "plains ss \<Longrightarrow> append_all Scan tt ss ops st =
     (case trees_of Scan st (length ops) ss of Inl err \<Rightarrow> Inl err | Inr (ts, st) \<Rightarrow> Inr (ops @ flats ts, st))"
proof (induction s and ss arbitrary: ops st and ops st rule: plain_plains.induct)
  case (1 vars recs body l lp c)
  then show ?case
    by (auto simp: Let_def begin_raw_def declare_ops_def record_ops_def declare_vars_def declare_records_def split: sum.splits)
next
  case (4 s ss)
  then show ?case by (auto split: sum.splits)
qed (auto simp del: simple_op.simps split: sum.splits)

lemma tree_size:
  "tree_of Scan st p s = Inr (t, st') \<Longrightarrow> plain s \<Longrightarrow> int (tsize t) = OperationSize s"
  "trees_of Scan st p ss = Inr (ts, st') \<Longrightarrow> plains ss \<Longrightarrow> int (tsizes ts) = OperationSizeForStatements ss"
proof (induction s and ss arbitrary: p st t st' and p st ts st' rule: plain_plains.induct)
  case (1 vars recs body l lp c)
  then show ?case by (auto simp: Let_def split: sum.splits)
next
  case (4 s ss)
  then show ?case by (fastforce split: sum.splits)
qed (auto simp del: simple_op.simps split: sum.splits)

section \<open>Resolving labels, in one list\<close>

text \<open>A jump that names a label, and what the end of a scope makes of it.\<close>

definition waits :: "InterpreterOperation \<Rightarrow> bool" where
  "waits op \<longleftrightarrow> op_Code op = OpCode_Goto \<and> PrimaryData op \<noteq> []"

definition arrive :: "int \<Rightarrow> InterpreterOperation \<Rightarrow> InterpreterOperation" where
  "arrive target op = op\<lparr>op_Index := target, PrimaryData := []\<rparr>"

definition close_label :: "gostring \<Rightarrow> int \<Rightarrow> InterpreterOperation \<Rightarrow> InterpreterOperation" where
  "close_label l target op = (if waits op \<and> PrimaryData op = l then arrive target op else op)"

definition top_label :: "labelStackItem list \<Rightarrow> gostring" where
  "top_label L = (case L of [] \<Rightarrow> [] | item # _ \<Rightarrow> ls_label item)"

text \<open>The pass with the operations behind it as a list of their own.\<close>

fun pass :: "labelStackItem list \<Rightarrow> InterpreterOperation list \<Rightarrow> InterpreterOperation list \<Rightarrow> plerror + labelStackItem list \<times> InterpreterOperation list" where
  "pass L D [] = Inr (L, D)"
| "pass L D (op # R) =
     (if op_Code op = OpCode_Goto then
        if PrimaryData op = [] then pass L (D @ [op]) R
        else if op_Index op < 0 then
          (case filter (\<lambda>i. ls_label i = PrimaryData op) L of
            [] \<Rightarrow> Inl (NoSuchLabel (PrimaryData op))
          | item # _ \<Rightarrow> if \<not> ls_isLoop item then Inl ContinueOutsideLoop else pass L (D @ [arrive (ls_start item) op]) R)
        else pass L (D @ [op]) R
      else if op_Code op = OpCode_ScopeBegin then
        (case scope_start (length D) op of
          Inl err \<Rightarrow> Inl err
        | Inr start \<Rightarrow> pass (\<lparr>ls_label = PrimaryData op, ls_start = start, ls_isLoop = (Target op \<noteq> [])\<rparr> # L)
            (D @ [op\<lparr>PrimaryData := [], Target := [], Options := gm_del continueTargetOption (Options op)\<rparr>]) R)
      else if op_Code op = OpCode_ScopeEnd then pass (tl L) (map (close_label (top_label L) (int (length D))) D @ [op]) R
      else pass L (D @ [op]) R)"

lemma fold_set_goto:
  "length (fold (\<lambda>i. set_goto i t) F ops) = length ops"
  "j < length ops \<Longrightarrow> \<forall>i \<in> set F. i < length ops \<Longrightarrow>
     fold (\<lambda>i. set_goto i t) F ops ! j = (if j \<in> set F then arrive t (ops ! j) else ops ! j)"
proof (induction F arbitrary: ops)
  case (Cons i F)
  { case 1 show ?case using Cons.IH(1) by (simp add: set_goto_def) }
  { case 2 then show ?case using Cons.IH(2) [of "set_goto i t ops"]
      by (auto simp: set_goto_def nth_list_update arrive_def) }
qed simp_all

lemma closing_gotos:
  assumes "set G = {i. i < length D \<and> waits (D ! i)}"
  shows "fold (\<lambda>i. set_goto i t) (filter (\<lambda>i. PrimaryData ((D @ R) ! i) = l) G) (D @ R) = map (close_label l t) D @ R"
proof (rule nth_equalityI)
  show "length (fold (\<lambda>i. set_goto i t) (filter (\<lambda>i. PrimaryData ((D @ R) ! i) = l) G) (D @ R)) = length (map (close_label l t) D @ R)"
    by (simp add: fold_set_goto(1))
next
  fix j
  assume "j < length (fold (\<lambda>i. set_goto i t) (filter (\<lambda>i. PrimaryData ((D @ R) ! i) = l) G) (D @ R))"
  then have j: "j < length (D @ R)" by (simp add: fold_set_goto(1))
  have "fold (\<lambda>i. set_goto i t) (filter (\<lambda>i. PrimaryData ((D @ R) ! i) = l) G) (D @ R) ! j =
      (if j \<in> set (filter (\<lambda>i. PrimaryData ((D @ R) ! i) = l) G) then arrive t ((D @ R) ! j) else (D @ R) ! j)"
    by (rule fold_set_goto(2) [OF j]) (use assms in auto)
  also have "\<dots> = (map (close_label l t) D @ R) ! j"
    using assms j by (auto simp: nth_append close_label_def)
  finally show "fold (\<lambda>i. set_goto i t) (filter (\<lambda>i. PrimaryData ((D @ R) ! i) = l) G) (D @ R) ! j = (map (close_label l t) D @ R) ! j" .
qed

definition waiting :: "InterpreterOperation list \<Rightarrow> nat set" where
  "waiting D = {i. i < length D \<and> waits (D ! i)}"

lemma waiting_snoc: "waiting (D @ [op]) = waiting D \<union> (if waits op then {length D} else {})"
  by (auto simp: waiting_def nth_append less_Suc_eq)

lemma waiting_close: "waiting (map (close_label l t) D) = {i \<in> waiting D. PrimaryData (D ! i) \<noteq> l}"
  by (auto simp: waiting_def close_label_def waits_def arrive_def split: if_splits)

definition agrees :: "plerror + labelStackItem list \<times> InterpreterOperation list \<Rightarrow> plerror + label_state \<Rightarrow> bool" where
  "agrees r r' \<longleftrightarrow> (case r of
     Inl err \<Rightarrow> r' = Inl err
   | Inr (L, D) \<Rightarrow> (\<exists>G. r' = Inr (L, G, D) \<and> set G = waiting D))"

lemma reconcile_is_pass: "set G = waiting D \<Longrightarrow> agrees (pass L D R) (reconcile_from (length D) (length R) (L, G, D @ R))"
proof (induction R arbitrary: L G D)
  case Nil
  then show ?case by (simp add: agrees_def)
next
  case (Cons op R)
  have IH: "set G' = waiting (D' @ [op']) \<Longrightarrow> length D' = length D \<Longrightarrow>
      agrees (pass L' (D' @ [op']) R) (reconcile_from (Suc (length D)) (length R) (L', G', D' @ op' # R))" for L' G' D' op'
    using Cons.IH [of G' "D' @ [op']" L'] by simp
  have nth: "(D @ op # R) ! length D = op" by simp
  consider (ends) "op_Code op = OpCode_ScopeEnd"
    | (begins) "op_Code op = OpCode_ScopeBegin"
    | (continues) "op_Code op = OpCode_Goto" "PrimaryData op \<noteq> []" "op_Index op < 0"
    | (exits) "op_Code op = OpCode_Goto" "PrimaryData op \<noteq> []" "\<not> op_Index op < 0"
    | (other) "op_Code op \<notin> {OpCode_ScopeEnd, OpCode_ScopeBegin}" "\<not> waits op"
    by (auto simp: waits_def)
  then show ?case
  proof cases
    case ends
    let ?D = "map (close_label (top_label L) (int (length D))) D"
    let ?G = "filter (\<lambda>i. PrimaryData ((D @ op # R) ! i) \<noteq> top_label L) G"
    have "reconcile_op (length D) (L, G, D @ op # R) = Inr (tl L, ?G, ?D @ op # R)"
      using ends closing_gotos [of G D "int (length D)" "op # R" "top_label L"] Cons.prems
      by (simp add: reconcile_op_def Let_def top_label_def waiting_def comp_def)
    moreover have "set ?G = waiting (?D @ [op])"
      using Cons.prems ends by (auto simp: waiting_snoc waiting_close waits_def) (auto simp: waiting_def nth_append)
    ultimately show ?thesis using ends IH [of ?G ?D op "tl L"] by simp
  next
    case begins
    let ?op = "op\<lparr>PrimaryData := [], Target := [], Options := gm_del continueTargetOption (Options op)\<rparr>"
    have "set G = waiting (D @ [?op])" using Cons.prems begins by (simp add: waiting_snoc waits_def)
    from IH [OF this] begins show ?thesis
      by (cases "scope_start (length D) op") (simp_all add: reconcile_op_def nth agrees_def [of "Inl _"] del: waiting_snoc)
  next
    case continues
    have w: "set G = waiting (D @ [arrive t op])" for t using Cons.prems by (simp add: waiting_snoc waits_def arrive_def)
    show ?thesis
    proof (cases "filter (\<lambda>i. ls_label i = PrimaryData op) L")
      case Nil
      then show ?thesis using continues by (simp add: reconcile_op_def nth agrees_def)
    next
      case (Cons item items)
      have u: "(D @ op # R)[length D := x] = D @ x # R" for x by (simp add: list_update_append)
      from IH [OF w [of "ls_start item"]] Cons continues show ?thesis
        by (simp add: reconcile_op_def set_goto_def nth u agrees_def [of "Inl _"] flip: arrive_def)
    qed
  next
    case exits
    have "set (length D # G) = waiting (D @ [op])" using Cons.prems exits by (simp add: waiting_snoc waits_def)
    from IH [OF this] exits show ?thesis by (simp add: reconcile_op_def nth)
  next
    case other
    have "set G = waiting (D @ [op])" using Cons.prems other by (simp add: waiting_snoc)
    from IH [OF this] other show ?thesis by (auto simp: reconcile_op_def nth waits_def)
  qed
qed

lemma reconcileLabels_is_pass:
  "reconcileLabels ops = Inr ops' \<longleftrightarrow> (\<exists>L. pass [] [] ops = Inr (L, ops')) \<and> waiting ops' = {}"
proof -
  have "agrees (pass [] [] ops) (reconcile_from 0 (length ops) ([], [], ops))"
    using reconcile_is_pass [of "[]" "[]" "[]" ops] by (simp add: waiting_def)
  then show ?thesis by (auto simp: agrees_def reconcileLabels_def split: sum.splits list.splits)
qed

section \<open>Trees with resolved labels\<close>

definition resolve_leaf :: "labelStackItem list \<Rightarrow> (gostring \<Rightarrow> int option) \<Rightarrow> InterpreterOperation \<Rightarrow> InterpreterOperation" where
  "resolve_leaf L \<rho> op =
     (if \<not> waits op then op
      else if op_Index op < 0 then arrive (case filter (\<lambda>i. ls_label i = PrimaryData op) L of [] \<Rightarrow> op_Index op | item # _ \<Rightarrow> ls_start item) op
      else (case \<rho> (PrimaryData op) of None \<Rightarrow> op | Some t \<Rightarrow> arrive t op))"

definition scope_item :: "gostring \<Rightarrow> bool \<Rightarrow> int \<Rightarrow> nat \<Rightarrow> labelStackItem" where
  "scope_item l lp c p = \<lparr>ls_label = l, ls_start = (if lp then int p + (1 + c) else int p + 1), ls_isLoop = lp\<rparr>"

definition bind_exit :: "gostring \<Rightarrow> int \<Rightarrow> (gostring \<Rightarrow> int option) \<Rightarrow> gostring \<Rightarrow> int option" where
  "bind_exit l t \<rho> = (if l = [] then \<rho> else \<rho>(l \<mapsto> t))"

fun resolved :: "labelStackItem list \<Rightarrow> (gostring \<Rightarrow> int option) \<Rightarrow> nat \<Rightarrow> otree \<Rightarrow> InterpreterOperation list"
  and resolveds :: "labelStackItem list \<Rightarrow> (gostring \<Rightarrow> int option) \<Rightarrow> nat \<Rightarrow> otree list \<Rightarrow> InterpreterOperation list" where
  "resolved L \<rho> p (Leaf op) = [resolve_leaf L \<rho> op]"
| "resolved L \<rho> p (Scope l lp c ts) =
     [new_op OpCode_ScopeBegin] @ resolveds (scope_item l lp c p # L) (bind_exit l (int (p + 1 + tsizes ts)) \<rho>) (Suc p) ts @ [new_op OpCode_ScopeEnd]"
| "resolveds L \<rho> p [] = []"
| "resolveds L \<rho> p (t # ts) = resolved L \<rho> p t @ resolveds L \<rho> (p + tsize t) ts"

lemma length_resolved [simp]: "length (resolved L \<rho> p t) = tsize t" "length (resolveds L \<rho> p ts) = tsizes ts"
  by (induction L \<rho> p t and L \<rho> p ts rule: resolved_resolveds.induct) simp_all

text \<open>The labels that a tree binds, and those that its jumps to an end name from outside.\<close>

fun bound :: "otree \<Rightarrow> gostring set" and bounds :: "otree list \<Rightarrow> gostring set" where
  "bound (Leaf op) = {}"
| "bound (Scope l lp c ts) = (if l = [] then {} else {l}) \<union> bounds ts"
| "bounds [] = {}"
| "bounds (t # ts) = bound t \<union> bounds ts"

fun exits :: "otree \<Rightarrow> gostring set" and exitss :: "otree list \<Rightarrow> gostring set" where
  "exits (Leaf op) = (if waits op \<and> \<not> op_Index op < 0 then {PrimaryData op} else {})"
| "exits (Scope l lp c ts) = exitss ts - {l}"
| "exitss [] = {}"
| "exitss (t # ts) = exits t \<union> exitss ts"

text \<open>No scope binds again a label that an \<open>EXIT\<close> before it, outside of it, names.\<close>

fun unshadowed :: "otree \<Rightarrow> bool" and unshadoweds :: "otree list \<Rightarrow> bool" where
  "unshadowed (Leaf op) \<longleftrightarrow> True"
| "unshadowed (Scope l lp c ts) \<longleftrightarrow> unshadoweds ts"
| "unshadoweds [] \<longleftrightarrow> True"
| "unshadoweds (t # ts) \<longleftrightarrow> unshadowed t \<and> unshadoweds ts \<and> exits t \<inter> bounds ts = {}"

text \<open>Leaves are no scopes, and a loop goes on inside of itself.\<close>

fun tree_ok :: "otree \<Rightarrow> bool" and trees_ok :: "otree list \<Rightarrow> bool" where
  "tree_ok (Leaf op) \<longleftrightarrow> op_Code op \<notin> {OpCode_ScopeBegin, OpCode_ScopeEnd}"
| "tree_ok (Scope l lp c ts) \<longleftrightarrow> 0 \<le> c \<and> trees_ok ts"
| "trees_ok [] \<longleftrightarrow> True"
| "trees_ok (t # ts) \<longleftrightarrow> tree_ok t \<and> trees_ok ts"

lemma close_bound:
  "\<rho> l = Some t' \<Longrightarrow> map (close_label l t) (resolved L \<rho> p x) = resolved L \<rho> p x"
  "\<rho> l = Some t' \<Longrightarrow> map (close_label l t) (resolveds L \<rho> p xs) = resolveds L \<rho> p xs"
proof (induction L \<rho> p x and L \<rho> p xs arbitrary: t' and t' rule: resolved_resolveds.induct)
  case (1 L \<rho> p op)
  then show ?case by (auto simp: close_label_def resolve_leaf_def waits_def arrive_def split: option.splits)
next
  case (2 L \<rho> p l' lp c ts)
  then have "\<exists>t'. bind_exit l' (int (p + 1 + tsizes ts)) \<rho> l = Some t'" by (auto simp: bind_exit_def)
  then show ?case using "2.IH" by (auto simp: close_label_def waits_def new_op_def)
qed simp_all

lemma close_free:
  "\<rho> l = None \<Longrightarrow> l \<noteq> [] \<Longrightarrow> map (close_label l t) (resolved L \<rho> p x) = resolved L (\<rho>(l \<mapsto> t)) p x"
  "\<rho> l = None \<Longrightarrow> l \<noteq> [] \<Longrightarrow> map (close_label l t) (resolveds L \<rho> p xs) = resolveds L (\<rho>(l \<mapsto> t)) p xs"
proof (induction L \<rho> p x and L \<rho> p xs rule: resolved_resolveds.induct)
  case (1 L \<rho> p op)
  then show ?case by (auto simp: close_label_def resolve_leaf_def waits_def arrive_def split: option.splits)
next
  case (2 L \<rho> p l' lp c ts)
  let ?\<rho> = "bind_exit l' (int (p + 1 + tsizes ts)) \<rho>"
  have ends: "close_label l t (new_op c) = new_op c" for c by (simp add: close_label_def waits_def new_op_def)
  have "map (close_label l t) (resolveds (scope_item l' lp c p # L) ?\<rho> (Suc p) ts) =
      resolveds (scope_item l' lp c p # L) (bind_exit l' (int (p + 1 + tsizes ts)) (\<rho>(l \<mapsto> t))) (Suc p) ts"
  proof (cases "l' = l")
    case True
    then have "?\<rho> l = Some (int (p + 1 + tsizes ts))" using 2 by (simp add: bind_exit_def)
    from close_bound(2) [of ?\<rho>, OF this] True 2 show ?thesis by (simp add: bind_exit_def)
  next
    case False
    then have "bind_exit l' x (\<rho>(l \<mapsto> t)) = (bind_exit l' x \<rho>)(l \<mapsto> t)" "bind_exit l' x \<rho> l = None" for x
      using 2 by (auto simp: bind_exit_def fun_upd_twist)
    then show ?thesis using "2.IH" "2.prems"(2) by (simp del: fun_upd_apply)
  qed
  then show ?case by (simp add: ends del: fun_upd_apply)
qed simp_all

lemma close_other: "\<forall>op \<in> set D. waits op \<longrightarrow> PrimaryData op \<noteq> l \<Longrightarrow> map (close_label l t) D = D"
  by (induction D) (auto simp: close_label_def)

lemma resolved_waits:
  "op \<in> set (resolved L \<rho> p x) \<Longrightarrow> waits op \<Longrightarrow> PrimaryData op \<in> exits x \<and> \<rho> (PrimaryData op) = None"
  "op \<in> set (resolveds L \<rho> p xs) \<Longrightarrow> waits op \<Longrightarrow> PrimaryData op \<in> exitss xs \<and> \<rho> (PrimaryData op) = None"
proof (induction L \<rho> p x and L \<rho> p xs rule: resolved_resolveds.induct)
  case (1 L \<rho> p op')
  then show ?case by (auto simp: resolve_leaf_def waits_def arrive_def split: if_splits option.splits)
next
  case (2 L \<rho> p l' lp c ts)
  let ?\<rho> = "bind_exit l' (int (p + 1 + tsizes ts)) \<rho>"
  have "op \<in> set (resolveds (scope_item l' lp c p # L) ?\<rho> (Suc p) ts)" using 2 by (auto simp: waits_def new_op_def)
  with "2.IH" "2.prems"(2) have "PrimaryData op \<in> exitss ts" "?\<rho> (PrimaryData op) = None" by blast+
  then show ?case using "2.prems"(2) by (auto simp: bind_exit_def waits_def split: if_splits)
qed auto

lemma begin_raw_step:
  assumes "0 \<le> c"
  shows "pass L D (begin_raw l lp c # R) = pass (scope_item l lp c (length D) # L) (D @ [new_op OpCode_ScopeBegin]) R"
proof -
  have "scope_start (length D) (begin_raw l lp c) = Inr (ls_start (scope_item l lp c (length D)))"
    using assms Atoi_Itoa [of "1 + c"] by (simp add: scope_start_def begin_raw_def scope_item_def new_op_def gm_get_def)
  moreover have "(begin_raw l lp c)\<lparr>PrimaryData := [], Target := [], Options := gm_del continueTargetOption (Options (begin_raw l lp c))\<rparr> = new_op OpCode_ScopeBegin"
    by (simp add: begin_raw_def new_op_def gm_del_def)
  ultimately show ?thesis by (simp add: begin_raw_def new_op_def scope_item_def gs_def)
qed

text \<open>What is waiting before a tree is not bound in it, so it stays as it is.\<close>

lemma pass_tree:
  "pass L D (flat t @ R) = Inr r \<Longrightarrow> tree_ok t \<Longrightarrow> unshadowed t \<Longrightarrow> \<forall>op \<in> set D. waits op \<longrightarrow> PrimaryData op \<notin> bound t \<Longrightarrow>
     pass L (D @ resolved L Map.empty (length D) t) R = Inr r"
  "pass L D (flats ts @ R) = Inr r \<Longrightarrow> trees_ok ts \<Longrightarrow> unshadoweds ts \<Longrightarrow> \<forall>op \<in> set D. waits op \<longrightarrow> PrimaryData op \<notin> bounds ts \<Longrightarrow>
     pass L (D @ resolveds L Map.empty (length D) ts) R = Inr r"
proof (induction t and ts arbitrary: L D R and L D R rule: flat_flats.induct)
  case (1 op)
  then show ?case
    by (auto simp: resolve_leaf_def waits_def split: if_splits list.splits)
next
  case (2 l lp c ts)
  let ?L = "scope_item l lp c (length D) # L"
  let ?D = "D @ [new_op OpCode_ScopeBegin]"
  let ?X = "resolveds ?L Map.empty (Suc (length D)) ts"
  let ?t = "int (length D + 1 + tsizes ts)"
  have c: "0 \<le> c" "trees_ok ts" "unshadoweds ts" using 2 by simp_all
  have "pass ?L ?D (flats ts @ new_op OpCode_ScopeEnd # R) = Inr r"
    using "2.prems"(1) begin_raw_step [OF c(1)] by simp
  moreover have "\<forall>op \<in> set ?D. waits op \<longrightarrow> PrimaryData op \<notin> bounds ts"
    using "2.prems"(4) by (auto simp: waits_def new_op_def)
  ultimately have "pass ?L (?D @ ?X) (new_op OpCode_ScopeEnd # R) = Inr r"
    using "2.IH" [of ?L ?D "new_op OpCode_ScopeEnd # R"] c by (simp del: pass.simps)
  then have "pass L (map (close_label l ?t) (?D @ ?X) @ [new_op OpCode_ScopeEnd]) R = Inr r"
    by (simp add: top_label_def scope_item_def)
  moreover have "map (close_label l ?t) D = D"
    using "2.prems"(4) by (intro close_other) (auto simp: waits_def split: if_splits)
  moreover have "map (close_label l ?t) ?X = resolveds ?L (bind_exit l ?t Map.empty) (Suc (length D)) ts"
  proof (cases "l = []")
    case True
    have "map (close_label l ?t) ?X = ?X" by (rule close_other) (auto simp: waits_def True)
    then show ?thesis by (simp add: bind_exit_def True)
  next
    case False
    then show ?thesis using close_free(2) [of Map.empty l ?t] by (simp add: bind_exit_def)
  qed
  moreover have "close_label l ?t (new_op OpCode_ScopeBegin) = new_op OpCode_ScopeBegin" by (simp add: close_label_def waits_def new_op_def)
  ultimately show ?case by simp
next
  case 3
  then show ?case by simp
next
  case (4 t ts)
  have "pass L (D @ resolved L Map.empty (length D) t) (flats ts @ R) = Inr r"
    using "4.IH"(1) [of L D "flats ts @ R"] "4.prems" by auto
  moreover have "\<forall>op \<in> set (D @ resolved L Map.empty (length D) t). waits op \<longrightarrow> PrimaryData op \<notin> bounds ts"
    using "4.prems" resolved_waits(1) by fastforce
  ultimately show ?case using "4.IH"(2) [of L "D @ resolved L Map.empty (length D) t" R] "4.prems" by simp
qed

theorem reconcile_resolves:
  assumes "reconcileLabels (flat t) = Inr ops" and "tree_ok t" and "unshadowed t"
  shows "ops = resolved [] Map.empty 0 t"
proof -
  obtain L where "pass [] [] (flat t @ []) = Inr (L, ops)" using assms(1) reconcileLabels_is_pass by auto
  from pass_tree(1) [OF this assms(2,3)] show ?thesis by simp
qed

end
