(* ===== verification/Plpgsql_Sem.thy ===== *)
theory Plpgsql_Sem
  imports Plpgsql_Tree
begin

text \<open>
  What the control structures of PL/pgSQL mean, without jumps: a relation between a statement, the state before it, how it ends
  and the state after it. A block has a scope that is left on every way out; a loop is left by \<open>EXIT\<close> and goes on after \<open>CONTINUE\<close>, by
  the label or for the innermost one; leaving the scope of a \<open>FOR\<close> loop closes its cursor and reports \<open>FOUND\<close>. Simple statements have
  the effect of their operation.
\<close>

section \<open>Parts of statements\<close>

datatype 'v ending = Normal | Break gostring | Cont gostring | Ret "'v call_result" | Fail plerror

text \<open>A condition, with the mark it leaves on the scope of an integer loop.\<close>

definition eval_if :: "('v, 'w) ifunc \<Rightarrow> InterpreterOperation \<Rightarrow> ('v, 'w) istate \<Rightarrow> plerror \<times> ('v, 'w) istate + bool \<times> ('v, 'w) istate" where
  "eval_if fn op s =
     (if isLoopCondition op \<and> scopes (istack s) = [] then Inl (PlPanic, s)
      else (case QuerySingleReturn fn (istack s) (PrimaryData op) (Some (BoolType fn)) (SecondaryData op) (iworld s) of
        (Inl err, w) \<Rightarrow> Inl (err, s\<lparr>iworld := w\<rparr>)
      | (Inr (GoBool b), w) \<Rightarrow> Inr (b, s\<lparr>istack := (if isLoopCondition op then MarkScopeLoop b (istack s) else istack s), iworld := w\<rparr>)
      | (Inr _, w) \<Rightarrow> Inl (PlPanic, s\<lparr>iworld := w\<rparr>)))"

text \<open>The next row of a query loop.\<close>

definition fetch :: "('v, 'w) ifunc \<Rightarrow> InterpreterOperation \<Rightarrow> ('v, 'w) istate \<Rightarrow> plerror \<times> ('v, 'w) istate + bool \<times> ('v, 'w) istate" where
  "fetch fn op s =
     (if scopes (istack s) = [] then Inl (PlPanic, s)
      else (case AdvanceCursor (PrimaryData op) (istack s) of
        (None, st) \<Rightarrow> Inr (False, s\<lparr>istack := st\<rparr>)
      | (Some (sch, row), st) \<Rightarrow> (case UpdateRecord (FromGmsType fn) (Target op) sch (Some row) (MarkScopeLoop True st) of
          Inl err \<Rightarrow> Inl (err, s)
        | Inr st \<Rightarrow> Inr (True, s\<lparr>istack := st\<rparr>))))"

definition enter :: "('v, 'w) istate \<Rightarrow> ('v, 'w) istate" where
  "enter s = s\<lparr>istack := PushScope (istack s)\<rparr>"

fun leave :: "'v ending \<Rightarrow> ('v, 'w) istate \<Rightarrow> 'v ending \<times> ('v, 'w) istate" where
  "leave (Ret v) s = (Ret v, s)"
| "leave (Fail err) s = (Fail err, s)"
| "leave out s = (case exitScope (istack s) of Inl err \<Rightarrow> (Fail err, s) | Inr st \<Rightarrow> (out, s\<lparr>istack := st\<rparr>))"

text \<open>The four kinds of loops, by what is tested before a round and what is done before the next one.\<close>

datatype looper = Forever | WhileLoop InterpreterOperation | ForI InterpreterOperation InterpreterOperation | ForS InterpreterOperation

fun loop_test :: "('v, 'w) ifunc \<Rightarrow> looper \<Rightarrow> ('v, 'w) istate \<Rightarrow> plerror \<times> ('v, 'w) istate + bool \<times> ('v, 'w) istate" where
  "loop_test fn Forever s = Inr (True, s)"
| "loop_test fn (WhileLoop c) s = eval_if fn c s"
| "loop_test fn (ForI i c) s = eval_if fn c s"
| "loop_test fn (ForS n) s = fetch fn n s"

fun loop_next :: "('v, 'w) ifunc \<Rightarrow> looper \<Rightarrow> ('v, 'w) istate \<Rightarrow> ('v, 'w) step_result" where
  "loop_next fn (ForI i c) s = run_operation fn 0 i s"
| "loop_next fn _ s = Proceed_at 0 s"

text \<open>Whether a loop with this label goes on after such an end of its body, and how the loop ends otherwise.\<close>

fun resumes :: "gostring \<Rightarrow> 'v ending \<Rightarrow> bool" where
  "resumes l Normal \<longleftrightarrow> True"
| "resumes l (Cont m) \<longleftrightarrow> m = [] \<or> m = l"
| "resumes l _ \<longleftrightarrow> False"

fun escape :: "gostring \<Rightarrow> 'v ending \<Rightarrow> 'v ending" where
  "escape l (Break m) = (if m = [] \<or> m = l then Normal else Break m)"
| "escape l out = out"

section \<open>Statements\<close>

fun is_simple :: "Statement \<Rightarrow> bool" where
  "is_simple (Block _ _ _ _ _ _) \<longleftrightarrow> False"
| "is_simple (Goto _ _ _) \<longleftrightarrow> False"
| "is_simple (If _ _ _) \<longleftrightarrow> False"
| "is_simple (ForQueryInit _ _) \<longleftrightarrow> False"
| "is_simple (ForQueryNext _ _ _) \<longleftrightarrow> False"
| "is_simple _ \<longleftrightarrow> True"

text \<open>How an operation that does not jump ends.\<close>

fun op_ends :: "('v, 'w) step_result \<Rightarrow> 'v ending \<times> ('v, 'w) istate" where
  "op_ends (Proceed_at _ s) = (Normal, s)"
| "op_ends (Returned v s) = (Ret v, s)"
| "op_ends (Raised err s) = (Fail err, s)"

inductive sem :: "('v, 'w) ifunc \<Rightarrow> (Statement \<Rightarrow> plerror + InterpreterOperation) \<Rightarrow> (gostring \<Rightarrow> bool) \<Rightarrow> jstatement \<Rightarrow> ('v, 'w) istate \<Rightarrow> 'v ending \<Rightarrow> ('v, 'w) istate \<Rightarrow> bool"
  and sems :: "('v, 'w) ifunc \<Rightarrow> (Statement \<Rightarrow> plerror + InterpreterOperation) \<Rightarrow> (gostring \<Rightarrow> bool) \<Rightarrow> jstatement list \<Rightarrow> ('v, 'w) istate \<Rightarrow> 'v ending \<Rightarrow> ('v, 'w) istate \<Rightarrow> bool"
  and chain :: "('v, 'w) ifunc \<Rightarrow> (Statement \<Rightarrow> plerror + InterpreterOperation) \<Rightarrow> (gostring \<Rightarrow> bool) \<Rightarrow> (gostring \<times> jstatement list) list \<Rightarrow> jstatement list \<Rightarrow> ('v, 'w) istate \<Rightarrow> 'v ending \<Rightarrow> ('v, 'w) istate \<Rightarrow> bool"
  and rounds :: "('v, 'w) ifunc \<Rightarrow> (Statement \<Rightarrow> plerror + InterpreterOperation) \<Rightarrow> (gostring \<Rightarrow> bool) \<Rightarrow> looper \<Rightarrow> gostring \<Rightarrow> jstatement list \<Rightarrow> ('v, 'w) istate \<Rightarrow> 'v ending \<Rightarrow> ('v, 'w) istate \<Rightarrow> bool"
  for fn :: "('v, 'w) ifunc" and mk :: "Statement \<Rightarrow> plerror + InterpreterOperation" and dm :: "gostring \<Rightarrow> bool" where
  simple: "jsonConvertStatement dm j = Inr s \<Longrightarrow> is_simple s \<Longrightarrow> mk s = Inr op \<Longrightarrow> op_ends (run_operation fn 0 op \<sigma>) = (out, \<sigma>') \<Longrightarrow> sem fn mk dm j \<sigma> out \<sigma>'"
| block: "sems fn mk dm body (enter \<sigma>) out \<sigma>1 \<Longrightarrow> leave out \<sigma>1 = (out', \<sigma>') \<Longrightarrow> sem fn mk dm (J_block body) \<sigma> out' \<sigma>'"
| if_stmt: "chain fn mk dm ((c, thn) # elsifs) els (enter \<sigma>) out \<sigma>1 \<Longrightarrow> leave out \<sigma>1 = (out', \<sigma>') \<Longrightarrow> sem fn mk dm (J_if c thn elsifs els) \<sigma> out' \<sigma>'"
| exit_now: "sem fn mk dm (J_exit l is_exit None) \<sigma> (if is_exit then Break l else Cont l) \<sigma>"
| exit_when: "mk (If c 2 False) = Inr op \<Longrightarrow> eval_if fn op (enter \<sigma>) = Inr (b, \<sigma>1) \<Longrightarrow>
    leave (if b then if is_exit then Break l else Cont l else Normal) \<sigma>1 = (out, \<sigma>') \<Longrightarrow> sem fn mk dm (J_exit l is_exit (Some c)) \<sigma> out \<sigma>'"
| exit_fails: "mk (If c 2 False) = Inr op \<Longrightarrow> eval_if fn op (enter \<sigma>) = Inl (err, \<sigma>') \<Longrightarrow> sem fn mk dm (J_exit l is_exit (Some c)) \<sigma> (Fail err) \<sigma>'"
| loop: "rounds fn mk dm Forever l body (enter \<sigma>) out \<sigma>1 \<Longrightarrow> leave out \<sigma>1 = (out', \<sigma>') \<Longrightarrow> sem fn mk dm (J_loop body l) \<sigma> out' \<sigma>'"
| while_loop: "mk (If c 2 False) = Inr op \<Longrightarrow> rounds fn mk dm (WhileLoop op) l body (enter \<sigma>) out \<sigma>1 \<Longrightarrow> leave out \<sigma>1 = (out', \<sigma>') \<Longrightarrow>
    sem fn mk dm (J_while c body l) \<sigma> out' \<sigma>'"
| fori: "mk (Assignment v (bound_expr lower)) = Inr op0 \<Longrightarrow> mk (Assignment v (fori_increment v stp rv)) = Inr op1 \<Longrightarrow> mk (If (fori_condition v upper rv) 2 True) = Inr op2 \<Longrightarrow>
    op_ends (run_operation fn 0 op0 (enter \<sigma>)) = (Normal, \<sigma>0) \<Longrightarrow> rounds fn mk dm (ForI op1 op2) l body \<sigma>0 out \<sigma>1 \<Longrightarrow> leave out \<sigma>1 = (out', \<sigma>') \<Longrightarrow>
    sem fn mk dm (J_fori l (D_var v ty ln df) lower upper stp rv body) \<sigma> out' \<sigma>'"
| fori_fails: "mk (Assignment v (bound_expr lower)) = Inr op0 \<Longrightarrow> mk (Assignment v (fori_increment v stp rv)) = Inr op1 \<Longrightarrow> mk (If (fori_condition v upper rv) 2 True) = Inr op2 \<Longrightarrow>
    op_ends (run_operation fn 0 op0 (enter \<sigma>)) = (out, \<sigma>') \<Longrightarrow> out \<noteq> Normal \<Longrightarrow>
    sem fn mk dm (J_fori l (D_var v ty ln df) lower upper stp rv body) \<sigma> out \<sigma>'"
| fors: "fors_variable d = Some v \<Longrightarrow> mk (ForQueryInit (cursor_name v ln) q) = Inr op0 \<Longrightarrow> mk (ForQueryNext (cursor_name v ln) v 0) = Inr op1 \<Longrightarrow>
    op_ends (run_operation fn 0 op0 (enter \<sigma>)) = (Normal, \<sigma>0) \<Longrightarrow> rounds fn mk dm (ForS op1) l body \<sigma>0 out \<sigma>1 \<Longrightarrow> leave out \<sigma>1 = (out', \<sigma>') \<Longrightarrow>
    sem fn mk dm (J_fors l d body (Some q) ln) \<sigma> out' \<sigma>'"
| fors_fails: "fors_variable d = Some v \<Longrightarrow> mk (ForQueryInit (cursor_name v ln) q) = Inr op0 \<Longrightarrow> mk (ForQueryNext (cursor_name v ln) v 0) = Inr op1 \<Longrightarrow>
    op_ends (run_operation fn 0 op0 (enter \<sigma>)) = (out, \<sigma>') \<Longrightarrow> out \<noteq> Normal \<Longrightarrow>
    sem fn mk dm (J_fors l d body (Some q) ln) \<sigma> out \<sigma>'"
| no_statement: "sems fn mk dm [] \<sigma> Normal \<sigma>"
| seq: "sem fn mk dm j \<sigma> Normal \<sigma>1 \<Longrightarrow> sems fn mk dm js \<sigma>1 out \<sigma>' \<Longrightarrow> sems fn mk dm (j # js) \<sigma> out \<sigma>'"
| seq_ends: "sem fn mk dm j \<sigma> out \<sigma>' \<Longrightarrow> out \<noteq> Normal \<Longrightarrow> sems fn mk dm (j # js) \<sigma> out \<sigma>'"
| else_branch: "sems fn mk dm els \<sigma> out \<sigma>' \<Longrightarrow> chain fn mk dm [] els \<sigma> out \<sigma>'"
| branch: "mk (If c 2 False) = Inr op \<Longrightarrow> eval_if fn op \<sigma> = Inr (True, \<sigma>1) \<Longrightarrow> sems fn mk dm thn \<sigma>1 out \<sigma>' \<Longrightarrow> chain fn mk dm ((c, thn) # bs) els \<sigma> out \<sigma>'"
| no_branch: "mk (If c 2 False) = Inr op \<Longrightarrow> eval_if fn op \<sigma> = Inr (False, \<sigma>1) \<Longrightarrow> chain fn mk dm bs els \<sigma>1 out \<sigma>' \<Longrightarrow> chain fn mk dm ((c, thn) # bs) els \<sigma> out \<sigma>'"
| branch_fails: "mk (If c 2 False) = Inr op \<Longrightarrow> eval_if fn op \<sigma> = Inl (err, \<sigma>') \<Longrightarrow> chain fn mk dm ((c, thn) # bs) els \<sigma> (Fail err) \<sigma>'"
| stop: "loop_test fn k \<sigma> = Inr (False, \<sigma>') \<Longrightarrow> rounds fn mk dm k l body \<sigma> Normal \<sigma>'"
| test_fails: "loop_test fn k \<sigma> = Inl (err, \<sigma>') \<Longrightarrow> rounds fn mk dm k l body \<sigma> (Fail err) \<sigma>'"
| again: "loop_test fn k \<sigma> = Inr (True, \<sigma>1) \<Longrightarrow> sems fn mk dm body \<sigma>1 out \<sigma>2 \<Longrightarrow> resumes l out \<Longrightarrow>
    op_ends (loop_next fn k \<sigma>2) = (Normal, \<sigma>3) \<Longrightarrow> rounds fn mk dm k l body \<sigma>3 out' \<sigma>' \<Longrightarrow> rounds fn mk dm k l body \<sigma> out' \<sigma>'"
| next_fails: "loop_test fn k \<sigma> = Inr (True, \<sigma>1) \<Longrightarrow> sems fn mk dm body \<sigma>1 out \<sigma>2 \<Longrightarrow> resumes l out \<Longrightarrow>
    op_ends (loop_next fn k \<sigma>2) = (out', \<sigma>') \<Longrightarrow> out' \<noteq> Normal \<Longrightarrow> rounds fn mk dm k l body \<sigma> out' \<sigma>'"
| left: "loop_test fn k \<sigma> = Inr (True, \<sigma>1) \<Longrightarrow> sems fn mk dm body \<sigma>1 out \<sigma>' \<Longrightarrow> \<not> resumes l out \<Longrightarrow> rounds fn mk dm k l body \<sigma> (escape l out) \<sigma>'"

end
