(* ===== verification/Plpgsql_Depth.thy ===== *)
theory Plpgsql_Depth
  imports Plpgsql_Sem
begin

text \<open>
  Scopes are balanced: an operation that is no scope keeps their number, so a statement leaves as many as it found, however it ends, and
  leaving a scope never fails.
\<close>

section \<open>Operations keep the number of scopes\<close>

abbreviation depth :: "('v, 'w) istate \<Rightarrow> nat" where
  "depth s \<equiv> length (scopes (istack s))"

lemma update_top_depth [simp]: "length (scopes (update_top f st)) = length (scopes st)"
  by (simp add: update_top_def split: list.splits)

lemma write_ref_scopes [simp]: "scopes (write_ref r v st) = scopes st"
  by (simp add: write_ref_def Let_def split: var_ref.splits)

lemma SetVariable_scopes: "SetVariable n v st = Inr st' \<Longrightarrow> scopes st' = scopes st"
  by (auto simp: SetVariable_def split: sum.splits option.splits)

lemma SetFound_scopes: "SetFound b st = Inr st' \<Longrightarrow> scopes st' = scopes st"
  by (auto simp: SetFound_def dest: SetVariable_scopes split: sum.splits option.splits if_splits)

lemma UpdateRecord_scopes: "UpdateRecord conv n sch v st = Inr st' \<Longrightarrow> scopes st' = scopes st"
  by (auto simp: UpdateRecord_def split: sum.splits option.splits)

lemma set_targets_scopes: "set_targets ts st = Inr st' \<Longrightarrow> scopes st' = scopes st"
  by (induction ts st rule: set_targets.induct) (auto dest: SetVariable_scopes split: sum.splits)

lemma declare_variable_depth [simp]: "length (scopes (declare_variable n iv st)) = length (scopes st)"
  by (simp add: declare_variable_def)

lemma new_variable_depth [simp]:
  "length (scopes (NewVariableWithValue n t v st)) = length (scopes st)" "length (scopes (NewVariable Z n ty st)) = length (scopes st)"
  "length (scopes (NewRecord tt n sch row st)) = length (scopes st)" "length (scopes (NewVariableAlias a n st)) = length (scopes st)"
  "length (scopes (MarkScopeLoop b st)) = length (scopes st)" "length (scopes (InitCursor n sch rows st)) = length (scopes st)"
  by (simp_all add: NewVariableWithValue_def NewVariable_def NewRecord_def NewVariableAlias_def MarkScopeLoop_def InitCursor_def split: option.splits)

lemma AdvanceCursor_depth: "AdvanceCursor n st = (r, st') \<Longrightarrow> length (scopes st') = length (scopes st)"
  by (auto simp: AdvanceCursor_def split: option.splits if_splits)

lemma fold_new_depth: "length (scopes (fold (\<lambda>(i, t, v). NewVariableWithValue (f i) (Some t) v) vs st)) = length (scopes st)"
  by (induction vs arbitrary: st) auto

lemmas keeps_scopes = SetVariable_scopes SetFound_scopes UpdateRecord_scopes set_targets_scopes

lemma dynamic_depth:
  "dynamic_operation fn op st w = (Inr (d, op', st'), w') \<Longrightarrow> length (scopes st') = (if d then Suc (length (scopes st)) else length (scopes st))"
  by (auto simp: dynamic_operation_def evaluateDynamicUsing_def fold_new_depth PushScope_def split: if_splits prod.splits sum.splits)

lemma execute_scopes:
  "execute_into_record fn op st w = (Inr st', w') \<Longrightarrow> scopes st' = scopes st"
  "execute_into_variables fn op st w = (Inr st', w') \<Longrightarrow> scopes st' = scopes st"
  "execute_plain fn op st w = (Inr st', w') \<Longrightarrow> scopes st' = scopes st"
  by (auto simp: execute_into_record_def execute_into_variables_def execute_plain_def Let_def
      split: sum.splits prod.splits if_splits option.splits list.splits dest!: keeps_scopes)

lemma run_execute_depth: "run_execute fn op st w = (Inr st', w') \<Longrightarrow> length (scopes st') = length (scopes st)"
  by (auto simp: run_execute_def PopScope_def split: sum.splits prod.splits if_splits dest!: dynamic_depth execute_scopes)

lemma run_assign_depth: "run_assign fn op st w = (Inr st', w') \<Longrightarrow> length (scopes st') = length (scopes st)"
  by (auto simp: run_assign_def split: sum.splits prod.splits option.splits dest!: keeps_scopes)

lemma run_declare_depth: "run_declare fn op st = Inr st' \<Longrightarrow> length (scopes st') = length (scopes st)"
  by (auto simp: run_declare_def split: sum.splits prod.splits option.splits list.splits if_splits)

lemma run_return_query_depth: "run_return_query fn op st w = (Inr st', w') \<Longrightarrow> length (scopes st') = length (scopes st)"
  by (auto simp: run_return_query_def BufferReturnQueryResults_def split: sum.splits prod.splits dest!: keeps_scopes)

lemma go_on_depth: "go_on c s (r, w) = Proceed_at i s' \<Longrightarrow> \<exists>st. r = Inr st \<and> istack s' = st"
  by (auto simp: go_on_def split: sum.splits)

lemma run_depth:
  assumes "run_operation fn c op s = Proceed_at i s'" and "op_Code op \<notin> {OpCode_ScopeBegin, OpCode_ScopeEnd, OpCode_Goto}"
  shows "depth s' = depth s"
  using assms
  by (cases "op_Code op")
    (auto simp: run_operation_def Let_def run_raise_def run_if_def run_for_next_def run_return_def go_on_def
      split: sum.splits prod.splits option.splits if_splits goany.splits list.splits
      dest!: keeps_scopes run_execute_depth run_assign_depth run_declare_depth run_return_query_depth AdvanceCursor_depth)

section \<open>Statements leave the scopes as they found them\<close>

lemma found_place: "GetVariable st FoundVariableName \<noteq> Inl err"
proof -
  have "length (Split_byte 46 FoundVariableName) = 1" by (code_simp)
  then show ?thesis by (auto simp: GetVariable_def GetVariableWithError_def Let_def split: option.splits)
qed

lemma SetFound_total: "\<exists>st'. SetFound b st = Inr st'"
  using found_place [of st] by (auto simp: SetFound_def SetVariable_def split: sum.splits option.splits)

lemma exitScope_total: "scopes st \<noteq> [] \<Longrightarrow> \<exists>st'. exitScope st = Inr st' \<and> length (scopes st') = length (scopes st) - 1"
proof (cases "scopes st")
  case (Cons s r)
  let ?st = "if scope_cursor s = [] then st else CloseCursor (scope_cursor s) st"
  have sc: "scopes ?st = scopes st" by (simp add: CloseCursor_def)
  obtain st' where "(if reportsFound s then SetFound (iterated s) ?st else Inr ?st) = Inr st'" and "scopes st' = scopes st"
    using SetFound_total [of "iterated s" ?st] SetFound_scopes [of "iterated s" ?st] sc by (metis (no_types, lifting))
  then show ?thesis by (simp add: exitScope_def Cons Let_def PopScope_def)
qed simp

definition stays :: "'v ending \<Rightarrow> bool" where
  "stays out \<longleftrightarrow> (case out of Ret _ \<Rightarrow> False | Fail _ \<Rightarrow> False | _ \<Rightarrow> True)"

lemma stays_simps [simp]: "stays Normal" "stays (Break m)" "stays (Cont m)" "\<not> stays (Ret v)" "\<not> stays (Fail err)"
  by (simp_all add: stays_def)

lemma leave_balance: "leave out s = (out', s') \<Longrightarrow> stays out' \<Longrightarrow> out' = out \<and> depth s' = depth s - 1 \<and> depth s \<noteq> 0"
  using exitScope_total [of "istack s"]
  by (cases out; cases "scopes (istack s)") (auto simp: exitScope_def [of "istack s"] split: sum.splits)

lemma enter_depth [simp]: "depth (enter s) = Suc (depth s)"
  by (simp add: enter_def PushScope_def)

lemma eval_if_depth: "eval_if fn op s = Inr (b, s') \<Longrightarrow> depth s' = depth s"
  by (auto simp: eval_if_def split: if_splits prod.splits sum.splits goany.splits)

lemma fetch_depth: "fetch fn op s = Inr (b, s') \<Longrightarrow> depth s' = depth s"
  by (auto simp: fetch_def split: if_splits prod.splits sum.splits option.splits dest!: AdvanceCursor_depth UpdateRecord_scopes)

lemma op_ends_depth:
  "op_ends (run_operation fn c op s) = (out, s') \<Longrightarrow> op_Code op \<notin> {OpCode_ScopeBegin, OpCode_ScopeEnd, OpCode_Goto} \<Longrightarrow> stays out \<Longrightarrow> depth s' = depth s"
  by (cases "run_operation fn c op s") (auto dest: run_depth)

lemma op_ends_stays: "op_ends x = (out, s) \<Longrightarrow> out \<noteq> Normal \<Longrightarrow> \<not> stays out"
  by (cases x) auto

lemma plain_code: "simple_op Scan st p s = Inr op \<Longrightarrow> (\<forall>i l n. s \<noteq> Goto i l n) \<Longrightarrow> op_Code op \<notin> {OpCode_ScopeBegin, OpCode_ScopeEnd, OpCode_Goto}"
  by (cases s) (auto simp: executeOpCode_def Let_def split: sum.splits if_splits)

text \<open>The operations of a loop.\<close>

fun looper_ok :: "looper \<Rightarrow> bool" where
  "looper_ok (ForI i c) \<longleftrightarrow> op_Code i \<notin> {OpCode_ScopeBegin, OpCode_ScopeEnd, OpCode_Goto}"
| "looper_ok _ \<longleftrightarrow> True"

lemma loop_test_depth: "loop_test fn k s = Inr (b, s') \<Longrightarrow> depth s' = depth s"
  by (cases k) (auto dest: eval_if_depth fetch_depth)

lemma loop_next_depth: "op_ends (loop_next fn k s) = (out, s') \<Longrightarrow> looper_ok k \<Longrightarrow> stays out \<Longrightarrow> depth s' = depth s"
  by (cases k) (auto dest: op_ends_depth)

lemma escape_stays [simp]: "stays (escape l out) \<longleftrightarrow> stays out"
  by (cases out) simp_all

lemma resumes_stays: "resumes l out \<Longrightarrow> stays out"
  by (cases out) simp_all

lemma sem_depth:
  "sem fn (simple_op Scan st p) dm j \<sigma> out \<sigma>' \<Longrightarrow> stays out \<Longrightarrow> depth \<sigma>' = depth \<sigma>"
  "sems fn (simple_op Scan st p) dm js \<sigma> out \<sigma>' \<Longrightarrow> stays out \<Longrightarrow> depth \<sigma>' = depth \<sigma>"
  "chain fn (simple_op Scan st p) dm bs els \<sigma> out \<sigma>' \<Longrightarrow> stays out \<Longrightarrow> depth \<sigma>' = depth \<sigma>"
  "rounds fn (simple_op Scan st p) dm k l body \<sigma> out \<sigma>' \<Longrightarrow> looper_ok k \<Longrightarrow> stays out \<Longrightarrow> depth \<sigma>' = depth \<sigma>"
proof (induct rule: sem_sems_chain_rounds.inducts)
  case (simple j s op \<sigma> out \<sigma>')
  have "\<forall>i l n. s \<noteq> Goto i l n" using simple by auto
  then show ?case using op_ends_depth [of fn 0 op \<sigma> out] plain_code [of Scan st p s op] simple by blast
next
  case (exit_when c op \<sigma> b \<sigma>1 is_exit l out \<sigma>')
  then show ?case using leave_balance [OF exit_when.hyps(3)] eval_if_depth [OF exit_when.hyps(2)] by simp
next
  case (fori v lower op0 stp rv op1 upper op2 \<sigma> \<sigma>0 l body out \<sigma>1 out' \<sigma>' ty ln df)
  have "depth \<sigma>0 = depth (enter \<sigma>)" using op_ends_depth [OF fori.hyps(4)] plain_code [OF fori.hyps(1)] by simp
  moreover have "looper_ok (ForI op1 op2)" using plain_code [OF fori.hyps(2)] by simp
  ultimately show ?case using leave_balance [OF fori.hyps(7)] fori by auto
next
  case (fors d v ln q op0 op1 \<sigma> \<sigma>0 l body out \<sigma>1 out' \<sigma>')
  have "depth \<sigma>0 = depth (enter \<sigma>)" using op_ends_depth [OF fors.hyps(4)] plain_code [OF fors.hyps(2)] by simp
  then show ?case using leave_balance [OF fors.hyps(7)] fors by auto
next
  case (again k \<sigma> \<sigma>1 body out \<sigma>2 l \<sigma>3 out' \<sigma>')
  then show ?case using loop_test_depth [OF again.hyps(1)] loop_next_depth [OF again.hyps(5)] resumes_stays [OF again.hyps(4)] by simp
qed (auto dest!: leave_balance eval_if_depth loop_test_depth dest: op_ends_stays simp del: simple_op.simps)

end
