(* ===== verification/Plpgsql_Machine.thy ===== *)
theory Plpgsql_Machine
  imports Plpgsql_Depth
begin

text \<open>
  Runs of the interpreter from a position of the code, and jumps that are halfway: what is still to be passed before the target.
  Passing the code of a whole statement changes nothing, forward or backward.
\<close>

section \<open>Runs\<close>

text \<open>What a call leaves to be seen: its result, the database and the notices.\<close>

type_synonym ('v, 'w) seen = "(plerror + 'v call_result) \<times> 'w \<times> NoticeResponse list"

definition seen_of :: "plerror + 'v call_result \<Rightarrow> ('v, 'w) istate \<Rightarrow> ('v, 'w) seen" where
  "seen_of res s = (res, iworld s, notices s)"

definition runs :: "('v, 'w) ifunc \<Rightarrow> nat \<Rightarrow> ('v, 'w) istate \<Rightarrow> ('v, 'w) seen \<Rightarrow> bool" where
  "runs fn c s r \<longleftrightarrow> (\<exists>n res s'. call_loop fn n (int c - 1) s = Some (res, s') \<and> r = seen_of res s')"

definition jumps_forward :: "('v, 'w) ifunc \<Rightarrow> nat \<Rightarrow> nat \<Rightarrow> ('v, 'w) istate \<Rightarrow> ('v, 'w) seen \<Rightarrow> bool" where
  "jumps_forward fn q T s r \<longleftrightarrow> (case walk True (take (T - 1 - q) (drop q (GetStatements fn))) (istack s) of
     Inl err \<Rightarrow> r = seen_of (Inl err) s
   | Inr st \<Rightarrow> runs fn T (s\<lparr>istack := st\<rparr>) r)"

definition jumps_back :: "('v, 'w) ifunc \<Rightarrow> nat \<Rightarrow> nat \<Rightarrow> ('v, 'w) istate \<Rightarrow> ('v, 'w) seen \<Rightarrow> bool" where
  "jumps_back fn q T s r \<longleftrightarrow> (case walk False (rev (take (q - T) (drop T (GetStatements fn)))) (istack s) of
     Inl err \<Rightarrow> r = seen_of (Inl err) s
   | Inr st \<Rightarrow> runs fn T (s\<lparr>istack := st\<rparr>) r)"

text \<open>A stretch of code at its place.\<close>

definition placed :: "('v, 'w) ifunc \<Rightarrow> nat \<Rightarrow> InterpreterOperation list \<Rightarrow> bool" where
  "placed fn p seg \<longleftrightarrow> p + length seg \<le> length (GetStatements fn) \<and> take (length seg) (drop p (GetStatements fn)) = seg"

lemma placed_Cons [simp]: "placed fn p (x # xs) \<longleftrightarrow> p < length (GetStatements fn) \<and> GetStatements fn ! p = x \<and> placed fn (Suc p) xs"
proof (cases "p < length (GetStatements fn)")
  case True
  then have "drop p (GetStatements fn) = GetStatements fn ! p # drop (Suc p) (GetStatements fn)" by (simp add: Cons_nth_drop_Suc)
  then show ?thesis using True by (auto simp: placed_def)
qed (auto simp: placed_def)

lemma placed_append [simp]: "placed fn p (xs @ ys) \<longleftrightarrow> placed fn p xs \<and> placed fn (p + length xs) ys"
  by (induction xs arbitrary: p) (simp_all, auto simp: placed_def)

lemma placed_room: "placed fn p seg \<Longrightarrow> p + length seg \<le> length (GetStatements fn)"
  by (simp add: placed_def)

lemma placed_take: "placed fn p seg \<Longrightarrow> n \<ge> length seg \<Longrightarrow> take n (drop p (GetStatements fn)) = seg @ take (n - length seg) (drop (p + length seg) (GetStatements fn))"
  unfolding placed_def by (metis add.commute drop_drop le_add_diff_inverse take_add)

lemma runs_end: "length (GetStatements fn) \<le> c \<Longrightarrow> runs fn c s (seen_of (Inr (ReturnAny GoNil)) s)"
  unfolding runs_def by (intro exI [of _ "Suc 0"]) simp

lemma runs_op:
  assumes "placed fn c (op # rest)" and "run_operation fn (int c) op s = Proceed_at (int c' - 1) s'" and "runs fn c' s' r"
  shows "runs fn c s r"
proof -
  obtain n res s'' where "call_loop fn n (int c' - 1) s' = Some (res, s'')" and r: "r = seen_of res s''" using assms(3) by (auto simp: runs_def)
  then have "call_loop fn (Suc n) (int c - 1) s = Some (res, s'')" using assms(1,2) by simp
  then show ?thesis unfolding runs_def using r by blast
qed

lemma runs_stops:
  assumes "placed fn c (op # rest)"
  shows "run_operation fn (int c) op s = Returned v s' \<Longrightarrow> runs fn c s (seen_of (Inr v) s')"
    and "run_operation fn (int c) op s = Raised err s' \<Longrightarrow> runs fn c s (seen_of (Inl err) s')"
  unfolding runs_def by (intro exI [of _ "Suc 0"], use assms in simp)+

section \<open>Passing code\<close>

lemma take_one: "q < length xs \<Longrightarrow> take (Suc n) (drop q xs) = xs ! q # take n (drop (Suc q) xs)"
  by (simp flip: Cons_nth_drop_Suc)

lemma take_last: "T \<le> q \<Longrightarrow> q < length xs \<Longrightarrow> take (Suc (q - T)) (drop T xs) = take (q - T) (drop T xs) @ [xs ! q]"
  by (simp add: take_Suc_conv_app_nth)

lemma walk_append: "walk b (xs @ ys) st = (case walk b xs st of Inl err \<Rightarrow> Inl err | Inr st \<Rightarrow> walk b ys st)"
  by (induction xs arbitrary: st) (auto split: sum.splits)

lemma exit_pushed [simp]: "exitScope (PushScope st) = Inr st"
  by (simp add: exitScope_def PushScope_def PopScope_def empty_scope_def)

lemma walk_leaf: "op_Code op \<notin> {OpCode_ScopeBegin, OpCode_ScopeEnd} \<Longrightarrow> walk_op b op st = Inr st"
  by (auto simp: walk_op_def)

lemma resolve_leaf_code [simp]: "op_Code (resolve_leaf L \<rho> op) = op_Code op"
  by (auto simp: resolve_leaf_def arrive_def split: option.splits)

lemma walk_tree:
  "tree_ok t \<Longrightarrow> walk True (resolved L \<rho> p t) st = Inr st" "trees_ok ts \<Longrightarrow> walk True (resolveds L \<rho> p ts) st = Inr st"
proof (induction L \<rho> p t and L \<rho> p ts arbitrary: st and st rule: resolved_resolveds.induct)
  case (1 L \<rho> p op)
  then show ?case using walk_leaf [of "resolve_leaf L \<rho> op" True st] by simp
next
  case (2 L \<rho> p l lp c ts)
  then show ?case by (simp add: walk_append walk_op_def)
qed (simp_all add: walk_append)

lemma walk_tree_back:
  "tree_ok t \<Longrightarrow> walk False (rev (resolved L \<rho> p t)) st = Inr st" "trees_ok ts \<Longrightarrow> walk False (rev (resolveds L \<rho> p ts)) st = Inr st"
proof (induction L \<rho> p t and L \<rho> p ts arbitrary: st and st rule: resolved_resolveds.induct)
  case (1 L \<rho> p op)
  then show ?case using walk_leaf [of "resolve_leaf L \<rho> op" False st] by simp
next
  case (2 L \<rho> p l lp c ts)
  then show ?case by (simp add: walk_append walk_op_def)
qed (simp_all add: walk_append)

lemma forward_over:
  fixes fn :: "('v, 'w) ifunc"
  assumes "placed fn q seg" and "\<And>st :: 'v InterpreterStack. walk True seg st = Inr st" and "q + length seg < T" and "jumps_forward fn (q + length seg) T s r"
  shows "jumps_forward fn q T s r"
proof -
  have "take (T - 1 - q) (drop q (GetStatements fn)) = seg @ take (T - 1 - (q + length seg)) (drop (q + length seg) (GetStatements fn))"
    using placed_take [OF assms(1), of "T - 1 - q"] assms(3) by simp
  then show ?thesis using assms(2,4) by (simp add: jumps_forward_def walk_append)
qed

lemma back_over:
  fixes fn :: "('v, 'w) ifunc"
  assumes "placed fn q seg" and "\<And>st :: 'v InterpreterStack. walk False (rev seg) st = Inr st" and "T \<le> q" and "jumps_back fn q T s r"
  shows "jumps_back fn (q + length seg) T s r"
proof -
  have q: "T + (q - T) = q" and n: "q + length seg - T = (q - T) + length seg" using assms(3) by simp_all
  have "take (q + length seg - T) (drop T (GetStatements fn)) = take (q - T) (drop T (GetStatements fn)) @ seg"
    unfolding n take_add using assms(1) q by (simp add: placed_def)
  then show ?thesis using assms(2,4) by (simp add: jumps_back_def walk_append)
qed

lemma forward_arrives: "T \<le> Suc q \<Longrightarrow> jumps_forward fn q T s r \<longleftrightarrow> runs fn T s r"
  by (simp add: jumps_forward_def)

lemma back_arrives: "jumps_back fn T T s r \<longleftrightarrow> runs fn T s r"
  by (simp add: jumps_back_def)

lemma forward_leaves:
  assumes "placed fn q (new_op OpCode_ScopeEnd # rest)" and "Suc q < T"
  shows "exitScope (istack s) = Inl err \<Longrightarrow> jumps_forward fn q T s (seen_of (Inl err) s)"
    and "exitScope (istack s) = Inr st \<Longrightarrow> jumps_forward fn (Suc q) T (s\<lparr>istack := st\<rparr>) r \<Longrightarrow> jumps_forward fn q T s r"
proof -
  have "take (T - 1 - q) (drop q (GetStatements fn)) = new_op OpCode_ScopeEnd # take (T - 1 - Suc q) (drop (Suc q) (GetStatements fn))"
    using take_one [of q "GetStatements fn" "T - 1 - Suc q"] assms by (simp add: Suc_diff_Suc)
  then show "exitScope (istack s) = Inl err \<Longrightarrow> jumps_forward fn q T s (seen_of (Inl err) s)"
    and "exitScope (istack s) = Inr st \<Longrightarrow> jumps_forward fn (Suc q) T (s\<lparr>istack := st\<rparr>) r \<Longrightarrow> jumps_forward fn q T s r"
    by (simp_all add: jumps_forward_def walk_op_def seen_of_def split: sum.splits)
qed

lemma back_leaves:
  assumes "placed fn q (new_op OpCode_ScopeBegin # rest)" and "T \<le> q"
  shows "exitScope (istack s) = Inl err \<Longrightarrow> jumps_back fn (Suc q) T s (seen_of (Inl err) s)"
    and "exitScope (istack s) = Inr st \<Longrightarrow> jumps_back fn q T (s\<lparr>istack := st\<rparr>) r \<Longrightarrow> jumps_back fn (Suc q) T s r"
proof -
  have "take (Suc q - T) (drop T (GetStatements fn)) = take (q - T) (drop T (GetStatements fn)) @ [new_op OpCode_ScopeBegin]"
    using take_last [of T q "GetStatements fn"] assms by (simp add: Suc_diff_le)
  then show "exitScope (istack s) = Inl err \<Longrightarrow> jumps_back fn (Suc q) T s (seen_of (Inl err) s)"
    and "exitScope (istack s) = Inr st \<Longrightarrow> jumps_back fn q T (s\<lparr>istack := st\<rparr>) r \<Longrightarrow> jumps_back fn (Suc q) T s r"
    by (simp_all add: jumps_back_def walk_op_def seen_of_def split: sum.splits)
qed

section \<open>Jumps\<close>

definition goto_op :: "int \<Rightarrow> InterpreterOperation" where
  "goto_op t = (new_op OpCode_Goto)\<lparr>op_Index := t\<rparr>"

lemma goto_forward:
  assumes "placed fn c (goto_op (int T) # rest)" and "c < T" and "T \<le> length (GetStatements fn)" and "jumps_forward fn (Suc c) T s r"
  shows "runs fn c s r"
proof -
  have seg: "jump_scopes (GetStatements fn) (int c) (int T) (istack s) = walk True (take (T - 1 - Suc c) (drop (Suc c) (GetStatements fn))) (istack s)"
  proof (cases "T = Suc c")
    case False
    have n: "nat (int T - 1 - int c) = Suc (T - 1 - Suc c)" using assms(2) False by simp
    have "take (Suc (T - 1 - Suc c)) (drop c (GetStatements fn)) = goto_op (int T) # take (T - 1 - Suc c) (drop (Suc c) (GetStatements fn))"
      using take_one [of c "GetStatements fn"] assms(1) by simp
    then show ?thesis using assms(2,3) by (simp add: jump_scopes_def n walk_op_def goto_op_def)
  qed (use assms(3) in \<open>simp add: jump_scopes_def\<close>)
  have op: "run_operation fn (int c) (goto_op (int T)) s = go_on (int T - 1) s (jump_scopes (GetStatements fn) (int c) (int T) (istack s), iworld s)"
    using assms(2) by (simp add: run_operation_def goto_op_def needs_scope_def max_def)
  show ?thesis
  proof (cases "walk True (take (T - 1 - Suc c) (drop (Suc c) (GetStatements fn))) (istack s)")
    case (Inl err)
    then have "run_operation fn (int c) (goto_op (int T)) s = Raised err s" using op seg by (simp add: go_on_def)
    then show ?thesis using runs_stops(2) [OF assms(1)] Inl assms(4) by (simp add: jumps_forward_def)
  next
    case (Inr st)
    then have "run_operation fn (int c) (goto_op (int T)) s = Proceed_at (int T - 1) (s\<lparr>istack := st\<rparr>)" using op seg by (simp add: go_on_def)
    from runs_op [OF assms(1) this] show ?thesis using Inr assms(4) by (simp add: jumps_forward_def)
  qed
qed

lemma goto_back:
  assumes "placed fn c (goto_op (int T) # rest)" and "T < c" and "jumps_back fn c T s r"
  shows "runs fn c s r"
proof -
  have n: "nat (int c + 1 - int T) = Suc (c - T)" using assms(2) by simp
  have "take (Suc (c - T)) (drop T (GetStatements fn)) = take (c - T) (drop T (GetStatements fn)) @ [goto_op (int T)]"
    using take_last [of T c "GetStatements fn"] assms(1,2) by simp
  then have seg: "jump_scopes (GetStatements fn) (int c) (int T) (istack s) = walk False (rev (take (c - T) (drop T (GetStatements fn)))) (istack s)"
    using assms(2) by (simp add: jump_scopes_def n walk_op_def goto_op_def)
  have op: "run_operation fn (int c) (goto_op (int T)) s = go_on (int T - 1) s (jump_scopes (GetStatements fn) (int c) (int T) (istack s), iworld s)"
    using assms(2) by (simp add: run_operation_def goto_op_def needs_scope_def)
  show ?thesis
  proof (cases "walk False (rev (take (c - T) (drop T (GetStatements fn)))) (istack s)")
    case (Inl err)
    then have "run_operation fn (int c) (goto_op (int T)) s = Raised err s" using op seg by (simp add: go_on_def)
    then show ?thesis using runs_stops(2) [OF assms(1)] Inl assms(3) by (simp add: jumps_back_def)
  next
    case (Inr st)
    then have "run_operation fn (int c) (goto_op (int T)) s = Proceed_at (int T - 1) (s\<lparr>istack := st\<rparr>)" using op seg by (simp add: go_on_def)
    from runs_op [OF assms(1) this] show ?thesis using Inr assms(3) by (simp add: jumps_back_def)
  qed
qed

end
