(* ===== verification/Plpgsql_Shape.thy ===== *)
theory Plpgsql_Shape
  imports Plpgsql_Machine
begin

text \<open>
  The shape of compiled statements: converted statements declare nothing, the compiler's stack is the same behind a statement as
  before it, and the list that an \<open>IF\<close> becomes.
\<close>

section \<open>Converted statements\<close>

text \<open>
  A label of the source does not start with a tab, as those of the compiler do. Statements that declare nothing, whose loops do not reuse the label
  of a loop around them and whose jumps name only such labels.
\<close>

definition source_label :: "gostring \<Rightarrow> bool" where
  "source_label l \<longleftrightarrow> l \<noteq> [] \<and> hd l \<noteq> 9"

definition loop_label :: "gostring set \<Rightarrow> gostring \<Rightarrow> bool" where
  "loop_label E l \<longleftrightarrow> l = [] \<or> source_label l \<and> l \<notin> E"

definition inner :: "gostring \<Rightarrow> gostring set \<Rightarrow> gostring set" where
  "inner l E = (if l = [] then E else insert l E)"

fun sfine :: "gostring set \<Rightarrow> Statement \<Rightarrow> bool" and sfines :: "gostring set \<Rightarrow> Statement list \<Rightarrow> bool" where
  "sfine E (Block vars recs body l lp c) \<longleftrightarrow> vars = [] \<and> recs = [] \<and> 0 \<le> c \<and> loop_label E l \<and> (\<not> lp \<longrightarrow> l = []) \<and> sfines (inner l E) body"
| "sfine E (Goto off l nearest) \<longleftrightarrow> l = [] \<or> source_label l \<and> l \<in> E"
| "sfine E _ \<longleftrightarrow> True"
| "sfines E [] \<longleftrightarrow> True"
| "sfines E (s # ss) \<longleftrightarrow> sfine E s \<and> sfines E ss"

lemma fine_plain: "sfine E s \<Longrightarrow> plain s" "sfines E ss \<Longrightarrow> plains ss"
  by (induction E s and E ss rule: sfine_sfines.induct) auto

lemma sizes_append [simp]: "OperationSizeForStatements (a @ b) = OperationSizeForStatements a + OperationSizeForStatements b"
  by (induction a) simp_all

lemma sfines_append [simp]: "sfines E (a @ b) \<longleftrightarrow> sfines E a \<and> sfines E b"
  by (induction a) auto

text \<open>The list of an \<open>IF\<close>, with every jump in place; \<open>E\<close> is its whole size and \<open>g\<close> that of what is before.\<close>

fun if_stmts :: "int \<Rightarrow> int \<Rightarrow> (gostring \<times> Statement list) list \<Rightarrow> Statement list \<Rightarrow> Statement list" where
  "if_stmts E g [] els = els"
| "if_stmts E g ((c, ss) # bs) els =
     [If c 2 False, jump (OperationSizeForStatements ss + 2)] @ ss @ [jump (E - (g + 2 + OperationSizeForStatements ss))] @
     if_stmts E (g + 3 + OperationSizeForStatements ss) bs els"

fun branches_size :: "(gostring \<times> Statement list) list \<Rightarrow> int" where
  "branches_size [] = 0"
| "branches_size ((c, ss) # bs) = 3 + OperationSizeForStatements ss + branches_size bs"

lemma if_stmts_size: "OperationSizeForStatements (if_stmts E g bs els) = branches_size bs + OperationSizeForStatements els"
  by (induction E g bs els rule: if_stmts.induct) simp_all

text \<open>The list as it is built, with placeholders, and where they are.\<close>

fun if_raw :: "(gostring \<times> Statement list) list \<Rightarrow> Statement list" where
  "if_raw [] = []"
| "if_raw ((c, ss) # bs) = [If c 2 False, jump (OperationSizeForStatements ss + 2)] @ ss @ [jump 0] @ if_raw bs"

fun if_ends :: "nat \<Rightarrow> int \<Rightarrow> (gostring \<times> Statement list) list \<Rightarrow> (nat \<times> int) list" where
  "if_ends n g [] = []"
| "if_ends n g ((c, ss) # bs) = (Suc (Suc (n + length ss)), g + 2 + OperationSizeForStatements ss) #
     if_ends (Suc (Suc (Suc (n + length ss)))) (g + 3 + OperationSizeForStatements ss) bs"

lemma fold_if_branch:
  "fold (\<lambda>(c, ss). if_branch c ss) bs (b, es) = (b @ if_raw bs, es @ if_ends (length b) (OperationSizeForStatements b) bs)"
proof (induction bs arbitrary: b es)
  case (Cons x bs)
  obtain c ss where x: "x = (c, ss)" by (cases x)
  have "if_branch c ss (b, es) = (b @ [If c 2 False, jump (OperationSizeForStatements ss + 2)] @ ss @ [jump 0],
     es @ [(length b + 2 + length ss, OperationSizeForStatements b + 2 + OperationSizeForStatements ss)])"
    by (simp add: if_branch_def Let_def)
  then show ?case using Cons.IH by (simp add: x add.assoc)
qed simp

lemma fill_with:
  "fold (\<lambda>(i, g) b. b[i := jump (E - g)]) (if_ends (length b) (OperationSizeForStatements b) bs) (b @ if_raw bs @ els) =
     b @ if_stmts E (OperationSizeForStatements b) bs els"
proof (induction bs arbitrary: b)
  case (Cons x bs)
  obtain c ss where x: "x = (c, ss)" by (cases x)
  let ?j = "jump (E - (OperationSizeForStatements b + 2 + OperationSizeForStatements ss))"
  let ?b = "b @ [If c 2 False, jump (OperationSizeForStatements ss + 2)] @ ss @ [?j]"
  have "(b @ if_raw (x # bs) @ els)[Suc (Suc (length b + length ss)) := ?j] = ?b @ if_raw bs @ els"
    by (simp add: x list_update_append)
  then show ?case using Cons.IH [of ?b] by (simp add: x add.assoc)
qed simp

lemma if_raw_size: "OperationSizeForStatements (if_raw bs) = branches_size bs"
  by (induction bs rule: if_raw.induct) simp_all

lemma size_update_jump:
  "i < length b \<Longrightarrow> b ! i = jump x \<Longrightarrow> OperationSizeForStatements (b[i := jump y]) = OperationSizeForStatements b"
proof (induction b arbitrary: i)
  case (Cons s b)
  then show ?case by (cases i) auto
qed simp

text \<open>The size does not change while the jumps are filled in.\<close>

lemma fill_constant:
  "OperationSizeForStatements (b @ if_raw bs @ els) = E \<Longrightarrow>
   fold (\<lambda>(i, g) b. b[i := jump (OperationSizeForStatements b - g)]) (if_ends (length b) (OperationSizeForStatements b) bs) (b @ if_raw bs @ els) =
   fold (\<lambda>(i, g) b. b[i := jump (E - g)]) (if_ends (length b) (OperationSizeForStatements b) bs) (b @ if_raw bs @ els)"
proof (induction bs arbitrary: b)
  case (Cons x bs)
  obtain c ss where x: "x = (c, ss)" by (cases x)
  let ?j = "jump (E - (OperationSizeForStatements b + 2 + OperationSizeForStatements ss))"
  let ?b = "b @ [If c 2 False, jump (OperationSizeForStatements ss + 2)] @ ss @ [?j]"
  have "(b @ if_raw (x # bs) @ els)[Suc (Suc (length b + length ss)) := ?j] = ?b @ if_raw bs @ els"
    by (simp add: x list_update_append)
  then show ?case using Cons.IH [of ?b] Cons.prems by (simp add: x add.assoc)
qed simp

lemma if_block_stmts:
  "if_block (fold (\<lambda>(c, ss). if_branch c ss) bs ([], [])) els = plain_block (if_stmts (branches_size bs + OperationSizeForStatements els) 0 bs els) [] False 0"
  using fill_constant [of "[]" bs els] fill_with [of _ "[]" bs els]
  by (simp add: if_block_def fold_if_branch if_raw_size)

text \<open>The branches of an \<open>IF\<close>, converted.\<close>

fun convert_branches :: "(gostring \<Rightarrow> bool) \<Rightarrow> (gostring \<times> jstatement list) list \<Rightarrow> plerror + (gostring \<times> Statement list) list" where
  "convert_branches dm [] = Inr []"
| "convert_branches dm ((c, js) # bs) = (case jsonConvertStatements dm js of
     Inl err \<Rightarrow> Inl err
   | Inr ss \<Rightarrow> (case convert_branches dm bs of Inl err \<Rightarrow> Inl err | Inr r \<Rightarrow> Inr ((c, ss) # r)))"

lemma convert_elsifs_branches:
  "convert_elsifs dm es acc = (case convert_branches dm es of Inl err \<Rightarrow> Inl err | Inr bs \<Rightarrow> Inr (fold (\<lambda>(c, ss). if_branch c ss) bs acc))"
proof (induction es arbitrary: acc)
  case (Cons e es)
  then show ?case by (cases e; cases "jsonConvertStatements dm (snd e)") (simp_all split: sum.splits)
qed simp

lemma converted_if:
  "jsonConvertStatement dm (J_if c thn elsifs els) = Inr s \<longleftrightarrow> (\<exists>bs e. convert_branches dm ((c, thn) # elsifs) = Inr bs \<and>
     jsonConvertStatements dm els = Inr e \<and> s = plain_block (if_stmts (branches_size bs + OperationSizeForStatements e) 0 bs e) [] False 0)"
proof -
  have "if_block (fold (\<lambda>(c, ss). if_branch c ss) bs (if_branch c t ([], []))) e =
      plain_block (if_stmts (branches_size ((c, t) # bs) + OperationSizeForStatements e) 0 ((c, t) # bs) e) [] False 0" for t bs e
    using if_block_stmts [of "(c, t) # bs" e] by simp
  then show ?thesis
    by (cases "jsonConvertStatements dm thn"; cases "convert_branches dm elsifs"; cases "jsonConvertStatements dm els")
      (auto simp: convert_elsifs_branches simp del: if_stmts.simps branches_size.simps)
qed

lemma fines_if: "sfines F (if_stmts E g bs els) \<longleftrightarrow> sfines F els \<and> (\<forall>(c, ss) \<in> set bs. sfines F ss)"
  by (induction E g bs els rule: if_stmts.induct) auto

section \<open>Programs of the fragment\<close>

text \<open>
  Programs for which the compiled code is shown to be right. Labels: a loop does not reuse the label of a loop around it (a label that
  starts with a tab is the compiler's), and \<open>EXIT\<close> and \<open>CONTINUE\<close> name a label around them. An \<open>ELSE\<close> part does not end in a statement that is compiled to
  a scope, a plain loop is not empty and does not start by \<open>CONTINUE\<close>, and there is no \<open>CASE\<close>; the theorems below show what goes
  wrong otherwise.
\<close>

fun scoped :: "jstatement \<Rightarrow> bool" where
  "scoped (J_block _) \<longleftrightarrow> True" | "scoped (J_if _ _ _ _) \<longleftrightarrow> True" | "scoped (J_case _ _ _ _ _) \<longleftrightarrow> True" | "scoped (J_loop _ _) \<longleftrightarrow> True"
| "scoped (J_while _ _ _) \<longleftrightarrow> True" | "scoped (J_fori _ _ _ _ _ _ _) \<longleftrightarrow> True" | "scoped (J_fors _ _ _ _ _) \<longleftrightarrow> True"
| "scoped (J_exit _ _ (Some _)) \<longleftrightarrow> True" | "scoped _ \<longleftrightarrow> False"

fun plain_continue :: "jstatement \<Rightarrow> bool" where
  "plain_continue (J_exit _ False None) \<longleftrightarrow> True" | "plain_continue _ \<longleftrightarrow> False"

fun jfine :: "gostring set \<Rightarrow> jstatement \<Rightarrow> bool" and jfines :: "gostring set \<Rightarrow> jstatement list \<Rightarrow> bool"
  and bfines :: "gostring set \<Rightarrow> (gostring \<times> jstatement list) list \<Rightarrow> bool" where
  "jfine E (J_block b) \<longleftrightarrow> jfines E b"
| "jfine E (J_if c t es e) \<longleftrightarrow> jfines E t \<and> bfines E es \<and> jfines E e \<and> (e = [] \<or> \<not> scoped (last e))"
| "jfine E (J_case q n ws h e) \<longleftrightarrow> False"
| "jfine E (J_exit l x c) \<longleftrightarrow> l = [] \<or> source_label l \<and> l \<in> E"
| "jfine E (J_loop b l) \<longleftrightarrow> loop_label E l \<and> jfines (inner l E) b \<and> b \<noteq> [] \<and> \<not> plain_continue (hd b)"
| "jfine E (J_while c b l) \<longleftrightarrow> loop_label E l \<and> jfines (inner l E) b"
| "jfine E (J_fori l v lo up st rv b) \<longleftrightarrow> loop_label E l \<and> jfines (inner l E) b"
| "jfine E (J_fors l v b q n) \<longleftrightarrow> loop_label E l \<and> jfines (inner l E) b"
| "jfine E _ \<longleftrightarrow> True"
| "jfines E [] \<longleftrightarrow> True"
| "jfines E (j # js) \<longleftrightarrow> jfine E j \<and> jfines E js"
| "bfines E [] \<longleftrightarrow> True"
| "bfines E ((c, js) # bs) \<longleftrightarrow> jfines E js \<and> bfines E bs"

lemma converted_fine:
  "jsonConvertStatement dm j = Inr s \<Longrightarrow> jfine E j \<Longrightarrow> sfine E s"
  "jsonConvertStatements dm js = Inr ss \<Longrightarrow> jfines E js \<Longrightarrow> sfines E ss"
  "convert_branches dm bs = Inr bs' \<Longrightarrow> bfines E bs \<Longrightarrow> \<forall>(c, ss) \<in> set bs'. sfines E ss"
proof (induction E j and E js and E bs arbitrary: s and ss and bs' rule: jfine_jfines_bfines.induct)
  case (2 E c t es e)
  obtain bs r where bs: "convert_branches dm ((c, t) # es) = Inr bs" and r: "jsonConvertStatements dm e = Inr r"
    and s: "s = plain_block (if_stmts (branches_size bs + OperationSizeForStatements r) 0 bs r) [] False 0"
    using 2 converted_if by metis
  have "\<forall>(c, ss) \<in> set bs. sfines E ss" using 2 bs by (auto split: sum.splits)
  moreover have "sfines E r" using 2 r by simp
  ultimately show ?case using s by (auto simp: plain_block_def fines_if inner_def loop_label_def)
qed (auto simp: inner_def loop_label_def plain_block_def loop_block_def while_block_def fori_block_def fors_block_def convert_assign_def convert_call_def convert_exit_def
    convert_dynexecute_def convert_execsql_def convert_raise_def Let_def split: sum.splits option.splits nat.splits datum.splits if_splits prod.splits)

end
