(* ===== verification/Plpgsql_Layout.thy ===== *)
theory Plpgsql_Layout
  imports Plpgsql_Shape
begin

text \<open>
  The tree of a statement without the compiler's counter of labels: a scope of a loop without a label has one of the compiler's, and every
  such label is new, so that no label of a tree is bound again behind a jump that names it.
\<close>

section \<open>The compiler's stack\<close>

definition anonymous :: "nat \<Rightarrow> gostring" where
  "anonymous k = 9 # itoa_nat k"

lemma anonymous_simps [simp]: "anonymous k \<noteq> []" "\<not> source_label (anonymous k)" "anonymous j = anonymous k \<longleftrightarrow> j = k"
  by (simp_all add: anonymous_def source_label_def itoa_nat_inj)

lemma labelID_keeps [simp]:
  "ListVariables (st\<lparr>labelID := k\<rparr>) = ListVariables st" "GetCurrentLabel (st\<lparr>labelID := k\<rparr>) = GetCurrentLabel st"
  "PushScope (st\<lparr>labelID := k\<rparr>) = (PushScope st)\<lparr>labelID := k\<rparr>" "PopScope (st\<lparr>labelID := k\<rparr>) = (PopScope st)\<lparr>labelID := k\<rparr>"
  "SetLabel l (st\<lparr>labelID := k\<rparr>) = (SetLabel l st)\<lparr>labelID := k\<rparr>"
  by (simp_all add: ListVariables_def GetCurrentLabel_def PushScope_def PopScope_def SetLabel_def update_top_def split: list.splits)

lemma labelled_scope [simp]:
  "ListVariables (SetLabel l (PushScope st)) = ListVariables st" "PopScope (SetLabel l (PushScope st)) = st"
  "GetCurrentLabel (SetLabel l (PushScope st)) = (if l = [] then GetCurrentLabel st else l)"
  "labelID (SetLabel l (PushScope st)) = labelID st"
  by (simp_all add: ListVariables_def GetCurrentLabel_def PushScope_def PopScope_def SetLabel_def update_top_def empty_scope_def)

lemma anonymous_scope:
  "SetAnonymousLabel (SetLabel l (PushScope st)) = (SetLabel (anonymous (labelID st)) (PushScope st))\<lparr>labelID := Suc (labelID st)\<rparr>"
  by (simp add: SetAnonymousLabel_def PushScope_def SetLabel_def update_top_def anonymous_def)

lemma substitute_cong:
  "ListVariables st = ListVariables st' \<Longrightarrow> substituteVariableReferences Scan e st = substituteVariableReferences Scan e st'"
  by (simp add: substituteVariableReferences_def split: option.split)

lemma dynamic_using_cong: "ListVariables st = ListVariables st' \<Longrightarrow> dynamic_using Scan st i ps os = dynamic_using Scan st' i ps os"
  by (induction ps arbitrary: i os) (simp_all add: substitute_cong [of st st'] Let_def split: sum.split)

lemma simple_op_cong:
  "ListVariables st = ListVariables st' \<Longrightarrow> GetCurrentLabel st = GetCurrentLabel st' \<Longrightarrow> simple_op Scan st p s = simple_op Scan st' p s"
  by (cases s) (simp_all add: substitute_cong [of st st'] dynamic_using_cong [of st st'] split: sum.split)

lemma simple_op_labelID [simp]: "simple_op Scan (st\<lparr>labelID := k\<rparr>) p s = simple_op Scan st p s"
  by (rule simple_op_cong) simp_all

text \<open>Which label a scope gets.\<close>

definition scope_label_ok :: "gostring \<Rightarrow> bool \<Rightarrow> gostring \<Rightarrow> bool" where
  "scope_label_ok l lp l' \<longleftrightarrow> (if lp \<and> l = [] then \<exists>k. l' = anonymous k else l' = l)"

fun shape :: "(gostring \<Rightarrow> token list option) \<Rightarrow> gostring InterpreterStack \<Rightarrow> nat \<Rightarrow> Statement \<Rightarrow> otree \<Rightarrow> bool"
  and shapes :: "(gostring \<Rightarrow> token list option) \<Rightarrow> gostring InterpreterStack \<Rightarrow> nat \<Rightarrow> Statement list \<Rightarrow> otree list \<Rightarrow> bool" where
  "shape Scan st p (Block vars recs body l lp c) t \<longleftrightarrow> (case t of
     Leaf _ \<Rightarrow> False
   | Scope l' lp' c' ts \<Rightarrow> lp' = lp \<and> c' = c \<and> scope_label_ok l lp l' \<and> shapes Scan (SetLabel l' (PushScope st)) (Suc p) body ts)"
| "shape Scan st p s t \<longleftrightarrow> (case t of Leaf op \<Rightarrow> simple_op Scan st (int p) s = Inr op | Scope _ _ _ _ \<Rightarrow> False)"
| "shapes Scan st p [] ts \<longleftrightarrow> ts = []"
| "shapes Scan st p (s # ss) ts \<longleftrightarrow> (case ts of [] \<Rightarrow> False | t # ts \<Rightarrow> shape Scan st p s t \<and> shapes Scan st (p + tsize t) ss ts)"

lemma shape_labelID [simp]:
  "shape Scan (st\<lparr>labelID := k\<rparr>) p s t \<longleftrightarrow> shape Scan st p s t" "shapes Scan (st\<lparr>labelID := k\<rparr>) p ss ts \<longleftrightarrow> shapes Scan st p ss ts"
  by (induction Scan st p s t and Scan st p ss ts rule: shape_shapes.induct) (auto simp del: simple_op.simps split: otree.splits list.splits)

lemma tree_block:
  "tree_of Scan st p (Block vars recs body l lp c) =
     (let l' = (if lp \<and> l = [] then anonymous (labelID st) else l);
          st' = (SetLabel l' (PushScope st))\<lparr>labelID := (if lp \<and> l = [] then Suc (labelID st) else labelID st)\<rparr> in
      case trees_of Scan st' (Suc p) body of Inl err \<Rightarrow> Inl err | Inr (ts, st) \<Rightarrow> Inr (Scope l' lp c ts, PopScope st))"
proof (cases "lp \<and> l = []")
  case True
  have "GetCurrentLabel (SetAnonymousLabel (SetLabel [] (PushScope st))) = anonymous (labelID st)" by (simp add: anonymous_scope)
  with True show ?thesis by (simp add: Let_def anonymous_scope split: sum.split)
next
  case False
  have eq: "(SetLabel l (PushScope st))\<lparr>labelID := labelID st\<rparr> = SetLabel l (PushScope st)" by (simp add: SetLabel_def PushScope_def update_top_def)
  show ?thesis by (simp add: Let_def if_not_P [OF False] eq)
qed

lemma tree_keeps:
  "tree_of Scan st p s = Inr (t, st') \<Longrightarrow> \<exists>k \<ge> labelID st. st' = st\<lparr>labelID := k\<rparr>"
  "trees_of Scan st p ss = Inr (ts, st') \<Longrightarrow> \<exists>k \<ge> labelID st. st' = st\<lparr>labelID := k\<rparr>"
proof (induction s and ss arbitrary: p st t st' and p st ts st' rule: plain_plains.induct)
  case (1 vars recs body l lp c)
  define l' where "l' = (if lp \<and> l = [] then anonymous (labelID st) else l)"
  define k where "k = (if lp \<and> l = [] then Suc (labelID st) else labelID st)"
  from "1.prems" obtain ts st1 where ts: "trees_of Scan ((SetLabel l' (PushScope st))\<lparr>labelID := k\<rparr>) (Suc p) body = Inr (ts, st1)" and st': "st' = PopScope st1"
    by (auto simp: tree_block Let_def l'_def k_def simp del: tree_of.simps(1) split: sum.splits if_splits)
  have "labelID st \<le> k" by (simp add: k_def)
  moreover obtain j where "k \<le> j" "st1 = (SetLabel l' (PushScope st))\<lparr>labelID := j\<rparr>" using "1.IH" [OF ts] by auto
  ultimately show ?case using st' by (intro exI [of _ j]) simp
next
  case (4 s ss)
  from "4.prems" obtain t ts' st1 where t: "tree_of Scan st p s = Inr (t, st1)" and ts: "trees_of Scan st1 (p + tsize t) ss = Inr (ts', st')"
    by (auto split: sum.splits)
  obtain j where j: "labelID st \<le> j" "st1 = st\<lparr>labelID := j\<rparr>" using "4.IH"(1) [OF t] by blast
  obtain k where "labelID st1 \<le> k" "st' = st1\<lparr>labelID := k\<rparr>" using "4.IH"(2) [OF ts] by blast
  then show ?case using j by (intro exI [of _ k]) simp
qed (auto simp del: simple_op.simps split: sum.splits intro: exI [of _ "labelID st" for st])

lemma tree_shape:
  "tree_of Scan st p s = Inr (t, st') \<Longrightarrow> shape Scan st p s t"
  "trees_of Scan st p ss = Inr (ts, st') \<Longrightarrow> shapes Scan st p ss ts"
proof (induction s and ss arbitrary: p st t st' and p st ts st' rule: plain_plains.induct)
  case (1 vars recs body l lp c)
  then show ?case
    by (auto simp: tree_block Let_def scope_label_ok_def simp del: tree_of.simps(1) split: sum.splits if_splits dest!: "1.IH")
next
  case (4 s ss)
  from "4.prems" obtain t ts' st1 where t: "tree_of Scan st p s = Inr (t, st1)" and ts: "trees_of Scan st1 (p + tsize t) ss = Inr (ts', st')" "ts = t # ts'"
    by (auto split: sum.splits)
  obtain k where "st1 = st\<lparr>labelID := k\<rparr>" using tree_keeps(1) [OF t] by blast
  then show ?case using "4.IH"(1) [OF t] "4.IH"(2) [OF ts(1)] ts(2) by simp
qed (auto simp del: simple_op.simps split: sum.splits)

section \<open>Lists of trees\<close>

lemma tsizes_append [simp]: "tsizes (a @ b) = tsizes a + tsizes b"
  by (induction a) simp_all

lemma resolveds_append [simp]: "resolveds L \<rho> p (a @ b) = resolveds L \<rho> p a @ resolveds L \<rho> (p + tsizes a) b"
  by (induction a arbitrary: p) (simp_all add: add.assoc)

lemma trees_ok_append [simp]: "trees_ok (a @ b) \<longleftrightarrow> trees_ok a \<and> trees_ok b"
  by (induction a) simp_all

lemma shapes_append:
  "shapes Scan st p (a @ b) ts \<longleftrightarrow> (\<exists>ta tb. ts = ta @ tb \<and> shapes Scan st p a ta \<and> shapes Scan st (p + tsizes ta) b tb)"
proof (induction a arbitrary: p ts)
  case (Cons s a)
  have "shapes Scan st p ((s # a) @ b) ts \<longleftrightarrow> (\<exists>t ts'. ts = t # ts' \<and> shape Scan st p s t \<and> shapes Scan st (p + tsize t) (a @ b) ts')"
    by (cases ts) simp_all
  also have "\<dots> \<longleftrightarrow> (\<exists>t ta tb. ts = t # ta @ tb \<and> shape Scan st p s t \<and> shapes Scan st (p + tsize t) a ta \<and> shapes Scan st (p + tsize t + tsizes ta) b tb)"
    unfolding Cons.IH by blast
  also have "\<dots> \<longleftrightarrow> (\<exists>ta tb. ts = ta @ tb \<and> shapes Scan st p (s # a) ta \<and> shapes Scan st (p + tsizes ta) b tb)" (is "_ \<longleftrightarrow> ?R")
  proof
    assume "\<exists>t ta tb. ts = t # ta @ tb \<and> shape Scan st p s t \<and> shapes Scan st (p + tsize t) a ta \<and> shapes Scan st (p + tsize t + tsizes ta) b tb"
    then obtain t ta tb where "ts = (t # ta) @ tb" "shapes Scan st p (s # a) (t # ta)" "shapes Scan st (p + tsizes (t # ta)) b tb"
      by (auto simp: add.assoc)
    then show ?R by blast
  next
    assume ?R
    then obtain ta tb where "ts = ta @ tb" "shapes Scan st p (s # a) ta" "shapes Scan st (p + tsizes ta) b tb" by blast
    then show "\<exists>t ta tb. ts = t # ta @ tb \<and> shape Scan st p s t \<and> shapes Scan st (p + tsize t) a ta \<and> shapes Scan st (p + tsize t + tsizes ta) b tb"
      by (cases ta) (auto simp: add.assoc)
  qed
  finally show ?case .
qed simp

lemma simple_not_scope: "simple_op Scan st p s = Inr op \<Longrightarrow> op_Code op \<notin> {OpCode_ScopeBegin, OpCode_ScopeEnd}"
  by (cases s) (auto simp: executeOpCode_def Let_def split: sum.splits if_splits)

lemma shape_ok:
  "shape Scan st p s t \<Longrightarrow> sfine E s \<Longrightarrow> tree_ok t" "shapes Scan st p ss ts \<Longrightarrow> sfines E ss \<Longrightarrow> trees_ok ts"
  by (induction Scan st p s t and Scan st p ss ts arbitrary: E and E rule: shape_shapes.induct)
    (auto simp del: simple_op.simps split: otree.splits list.splits dest!: simple_not_scope)

lemma shape_size:
  "shape Scan st p s t \<Longrightarrow> plain s \<Longrightarrow> int (tsize t) = OperationSize s" "shapes Scan st p ss ts \<Longrightarrow> plains ss \<Longrightarrow> int (tsizes ts) = OperationSizeForStatements ss"
  by (induction Scan st p s t and Scan st p ss ts rule: shape_shapes.induct) (auto simp del: simple_op.simps split: otree.splits list.splits)

section \<open>No label is bound again\<close>

definition current_ok :: "gostring set \<Rightarrow> gostring InterpreterStack \<Rightarrow> bool" where
  "current_ok E st \<longleftrightarrow> GetCurrentLabel st \<in> E \<or> GetCurrentLabel st = [] \<or> GetCurrentLabel st \<in> anonymous ` {..<labelID st}"

text \<open>The labels that a statement may bind.\<close>

definition fresh_labels :: "gostring set \<Rightarrow> nat \<Rightarrow> nat \<Rightarrow> gostring set" where
  "fresh_labels E i j = {l. source_label l \<and> l \<notin> E} \<union> anonymous ` {i..<j}"

lemma fresh_mono: "fresh_labels E i j \<subseteq> fresh_labels E' i' j'" if "E' \<subseteq> E" "i' \<le> i" "j \<le> j'"
  using that unfolding fresh_labels_def by (intro Un_mono image_mono) auto

lemma leaf_exits: "simple_op Scan st p s = Inr op \<Longrightarrow> sfine E s \<Longrightarrow> exits (Leaf op) \<subseteq> E \<union> {GetCurrentLabel st}"
  by (cases s) (auto simp: executeOpCode_def Let_def waits_def split: sum.splits if_splits)

lemma tree_labels:
  "tree_of Scan st p s = Inr (t, st') \<Longrightarrow> sfine E s \<Longrightarrow> bound t \<subseteq> fresh_labels E (labelID st) (labelID st') \<and> exits t \<subseteq> E \<union> {GetCurrentLabel st}"
  "trees_of Scan st p ss = Inr (ts, st') \<Longrightarrow> sfines E ss \<Longrightarrow> bounds ts \<subseteq> fresh_labels E (labelID st) (labelID st') \<and> exitss ts \<subseteq> E \<union> {GetCurrentLabel st}"
proof (induction s and ss arbitrary: E p st t st' and E p st ts st' rule: plain_plains.induct)
  case (1 vars recs body l lp c)
  define l' where "l' = (if lp \<and> l = [] then anonymous (labelID st) else l)"
  define k where "k = (if lp \<and> l = [] then Suc (labelID st) else labelID st)"
  let ?st = "(SetLabel l' (PushScope st))\<lparr>labelID := k\<rparr>"
  from "1.prems"(1) obtain ts st1 where ts: "trees_of Scan ?st (Suc p) body = Inr (ts, st1)" and t: "t = Scope l' lp c ts" "st' = PopScope st1"
    by (auto simp: tree_block Let_def l'_def k_def simp del: tree_of.simps(1) split: sum.splits if_splits)
  have fine: "loop_label E l" "sfines (inner l E) body" using "1.prems"(2) by simp_all
  have k: "labelID st \<le> k" "k \<le> labelID st'" using tree_keeps(2) [OF ts] t(2) by (auto simp: k_def)
  have ih: "bounds ts \<subseteq> fresh_labels (inner l E) k (labelID st')" "exitss ts \<subseteq> inner l E \<union> {GetCurrentLabel ?st}"
    using "1.IH" [OF ts fine(2)] t(2) tree_keeps(2) [OF ts] by auto
  have "bounds ts \<subseteq> fresh_labels E (labelID st) (labelID st')"
    using ih(1) fresh_mono [of E "inner l E" "labelID st" k "labelID st'" "labelID st'"] k by (auto simp: inner_def split: if_splits)
  moreover have "(if l' = [] then {} else {l'}) \<subseteq> fresh_labels E (labelID st) (labelID st')"
    using fine(1) k by (auto simp: l'_def k_def fresh_labels_def loop_label_def)
  moreover have "exitss ts - {l'} \<subseteq> E \<union> {GetCurrentLabel st}"
    using ih(2) by (auto simp: inner_def l'_def split: if_splits)
  ultimately show ?case using t(1) by simp
next
  case (4 s ss)
  from "4.prems"(1) obtain t ts' st1 where t: "tree_of Scan st p s = Inr (t, st1)" and ts: "trees_of Scan st1 (p + tsize t) ss = Inr (ts', st')" "ts = t # ts'"
    by (auto split: sum.splits)
  obtain j k where j: "st1 = st\<lparr>labelID := j\<rparr>" "labelID st \<le> j" and k: "st' = st1\<lparr>labelID := k\<rparr>" "j \<le> k"
    using tree_keeps(1) [OF t] tree_keeps(2) [OF ts(1)] by auto
  have "bound t \<subseteq> fresh_labels E (labelID st) (labelID st')" "bounds ts' \<subseteq> fresh_labels E (labelID st) (labelID st')"
    using "4.IH"(1) [OF t, of E] "4.IH"(2) [OF ts(1), of E] "4.prems"(2) fresh_mono [of E E "labelID st" "labelID st" j k] fresh_mono [of E E "labelID st" j k k] j k by auto
  then show ?case using "4.IH"(1) [OF t, of E] "4.IH"(2) [OF ts(1), of E] "4.prems"(2) ts(2) j by auto
qed (auto simp del: simple_op.simps exits.simps sfine.simps split: sum.splits dest: leaf_exits [THEN subsetD])

lemma tree_unshadowed:
  "tree_of Scan st p s = Inr (t, st') \<Longrightarrow> sfine E s \<Longrightarrow> E \<subseteq> Collect source_label \<Longrightarrow> current_ok E st \<Longrightarrow> unshadowed t"
  "trees_of Scan st p ss = Inr (ts, st') \<Longrightarrow> sfines E ss \<Longrightarrow> E \<subseteq> Collect source_label \<Longrightarrow> current_ok E st \<Longrightarrow> unshadoweds ts"
proof (induction s and ss arbitrary: E p st t st' and E p st ts st' rule: plain_plains.induct)
  case (1 vars recs body l lp c)
  define l' where "l' = (if lp \<and> l = [] then anonymous (labelID st) else l)"
  define k where "k = (if lp \<and> l = [] then Suc (labelID st) else labelID st)"
  let ?st = "(SetLabel l' (PushScope st))\<lparr>labelID := k\<rparr>"
  from "1.prems"(1) obtain ts st1 where ts: "trees_of Scan ?st (Suc p) body = Inr (ts, st1)" and t: "t = Scope l' lp c ts"
    by (auto simp: tree_block Let_def l'_def k_def simp del: tree_of.simps(1) split: sum.splits if_splits)
  have "inner l E \<subseteq> Collect source_label" using "1.prems" by (auto simp: inner_def loop_label_def)
  moreover have "current_ok (inner l E) ?st"
    using "1.prems"(4) by (auto simp: current_ok_def inner_def l'_def k_def less_Suc_eq)
  ultimately show ?case using "1.IH" [OF ts, of "inner l E"] "1.prems"(2) t by simp
next
  case (4 s ss)
  from "4.prems"(1) obtain t ts' st1 where t: "tree_of Scan st p s = Inr (t, st1)" and ts: "trees_of Scan st1 (p + tsize t) ss = Inr (ts', st')" "ts = t # ts'"
    by (auto split: sum.splits)
  obtain j where j: "st1 = st\<lparr>labelID := j\<rparr>" "labelID st \<le> j" using tree_keeps(1) [OF t] by auto
  have "exits t \<subseteq> E \<union> {GetCurrentLabel st}" "bounds ts' \<subseteq> fresh_labels E j (labelID st')"
    using tree_labels(1) [OF t, of E] tree_labels(2) [OF ts(1), of E] "4.prems"(2) j by auto
  moreover have "(E \<union> {GetCurrentLabel st}) \<inter> fresh_labels E j (labelID st') = {}"
    using "4.prems"(3,4) j(2) by (auto simp: fresh_labels_def current_ok_def source_label_def [of "[]"])
  ultimately have "exits t \<inter> bounds ts' = {}" by blast
  moreover have "current_ok E st1" using "4.prems"(4) j by (auto simp: current_ok_def)
  ultimately show ?case using "4.IH"(1) [OF t, of E] "4.IH"(2) [OF ts(1), of E] "4.prems" ts(2) by simp
qed (auto simp del: simple_op.simps split: sum.splits)

end
