(* ===== verification/Plpgsql_Code.thy ===== *)
theory Plpgsql_Code
  imports Plpgsql_Layout
begin

text \<open>
  Compiled code at its place in the program, how a run goes on behind it for every way in which a statement can end, and what single
  operations do there.
\<close>

section \<open>Code that jumps may pass\<close>

definition passable :: "('v, 'w) ifunc \<Rightarrow> nat \<Rightarrow> nat \<Rightarrow> bool" where
  "passable fn p q \<longleftrightarrow> (\<exists>seg. placed fn p seg \<and> q = p + length seg \<and>
     (\<forall>st :: 'v InterpreterStack. walk True seg st = Inr st \<and> walk False (rev seg) st = Inr st))"

lemma passable_refl [simp]: "p \<le> length (GetStatements fn) \<Longrightarrow> passable fn p p"
  unfolding passable_def by (intro exI [of _ "[]"]) (simp add: placed_def)

lemma passable_trans: "passable fn p m \<Longrightarrow> passable fn m q \<Longrightarrow> passable fn p q"
proof -
  assume "passable fn p m" "passable fn m q"
  then obtain a b where ab: "placed fn p a" "m = p + length a" "placed fn m b" "q = m + length b"
    and w: "walk True a st = Inr st" "walk False (rev a) st = Inr st" "walk True b st = Inr st" "walk False (rev b) st = Inr st" for st :: "'a InterpreterStack"
    unfolding passable_def by blast
  then have "placed fn p (a @ b) \<and> q = p + length (a @ b) \<and> (\<forall>st :: 'a InterpreterStack. walk True (a @ b) st = Inr st \<and> walk False (rev (a @ b)) st = Inr st)"
    by (simp add: walk_append)
  then show ?thesis unfolding passable_def by blast
qed

lemma passable_le: "passable fn p q \<Longrightarrow> p \<le> q"
  by (auto simp: passable_def)

lemma passable_op: "placed fn p (op # rest) \<Longrightarrow> op_Code op \<notin> {OpCode_ScopeBegin, OpCode_ScopeEnd} \<Longrightarrow> passable fn p (Suc p)"
  unfolding passable_def by (intro exI [of _ "[op]"]) (simp add: walk_leaf, simp add: placed_def)

lemma forward_pass: "passable fn q q' \<Longrightarrow> q' < T \<Longrightarrow> jumps_forward fn q' T s r \<Longrightarrow> jumps_forward fn q T s r"
  unfolding passable_def using forward_over [of fn q _ T s r] by blast

lemma back_pass: "passable fn p p' \<Longrightarrow> T \<le> p \<Longrightarrow> jumps_back fn p T s r \<Longrightarrow> jumps_back fn p' T s r"
  unfolding passable_def using back_over [of fn p _ T s r] by blast

section \<open>Behind a statement\<close>

text \<open>The labels around: the scopes of the jumps back, and the ends of the scopes. Targets are behind or before the code.\<close>

definition fits :: "('v, 'w) ifunc \<Rightarrow> labelStackItem list \<Rightarrow> (gostring \<Rightarrow> int option) \<Rightarrow> nat \<Rightarrow> nat \<Rightarrow> bool" where
  "fits fn L \<rho> p q \<longleftrightarrow> (\<forall>l T. \<rho> l = Some T \<longrightarrow> int q < T \<and> T \<le> int (length (GetStatements fn))) \<and>
     (\<forall>i \<in> set L. ls_label i \<noteq> [] \<longrightarrow> 0 \<le> ls_start i \<and> ls_start i \<le> int p)"

lemma fits_mono: "fits fn L \<rho> p q \<Longrightarrow> p \<le> p' \<Longrightarrow> q' \<le> q \<Longrightarrow> fits fn L \<rho> p' q'"
  by (fastforce simp: fits_def)

definition strict :: "labelStackItem list \<Rightarrow> nat \<Rightarrow> bool" where
  "strict L p \<longleftrightarrow> (\<forall>i \<in> set L. ls_label i \<noteq> [] \<longrightarrow> ls_start i < int p)"

lemma strict_behind: "fits fn L \<rho> p q \<Longrightarrow> p < p' \<Longrightarrow> strict L p'"
  by (fastforce simp: fits_def strict_def)

text \<open>The label that \<open>EXIT\<close> and \<open>CONTINUE\<close> mean; without one it is the nearest.\<close>

definition meant :: "gostring \<Rightarrow> gostring \<Rightarrow> gostring" where
  "meant lab m = (if m = [] then lab else m)"

fun proceeds :: "('v, 'w) ifunc \<Rightarrow> labelStackItem list \<Rightarrow> (gostring \<Rightarrow> int option) \<Rightarrow> gostring \<Rightarrow> nat \<Rightarrow> nat \<Rightarrow> 'v ending \<Rightarrow> ('v, 'w) istate \<Rightarrow> ('v, 'w) seen \<Rightarrow> bool" where
  "proceeds fn L \<rho> lab p q Normal s r \<longleftrightarrow> runs fn q s r"
| "proceeds fn L \<rho> lab p q (Break m) s r \<longleftrightarrow> (m = [] \<or> source_label m) \<and> meant lab m \<noteq> [] \<and>
     (case \<rho> (meant lab m) of None \<Rightarrow> False | Some T \<Rightarrow> jumps_forward fn q (nat T) s r)"
| "proceeds fn L \<rho> lab p q (Cont m) s r \<longleftrightarrow> (m = [] \<or> source_label m) \<and> meant lab m \<noteq> [] \<and>
     (case filter (\<lambda>i. ls_label i = meant lab m) L of [] \<Rightarrow> False | i # _ \<Rightarrow> jumps_back fn p (nat (ls_start i)) s r)"
| "proceeds fn L \<rho> lab p q (Ret v) s r \<longleftrightarrow> r = seen_of (Inr v) s"
| "proceeds fn L \<rho> lab p q (Fail err) s r \<longleftrightarrow> r = seen_of (Inl err) s"

lemma filter_head: "filter P xs = y # ys \<Longrightarrow> y \<in> set xs \<and> P y"
  using Cons_eq_filter_iff [of y ys P xs] by auto

lemma proceeds_inner:
  assumes "proceeds fn L \<rho> lab p q out s r" and "passable fn p p'" and "passable fn q' q" and "fits fn L \<rho> p q"
    and "out = Normal \<Longrightarrow> runs fn q' s r"
  shows "proceeds fn L \<rho> lab p' q' out s r"
proof (cases out)
  case (Break m)
  then obtain T where T: "\<rho> (meant lab m) = Some T" "jumps_forward fn q (nat T) s r" "m = [] \<or> source_label m" "meant lab m \<noteq> []"
    using assms(1) by (auto split: option.splits)
  then have "q < nat T" using assms(4) by (force simp: fits_def)
  then show ?thesis using Break T forward_pass [OF assms(3)] by simp
next
  case (Cont m)
  then obtain i rest where i: "filter (\<lambda>i. ls_label i = meant lab m) L = i # rest" "jumps_back fn p (nat (ls_start i)) s r" "m = [] \<or> source_label m" "meant lab m \<noteq> []"
    using assms(1) by (auto split: list.splits)
  then have "nat (ls_start i) \<le> p" using assms(4) filter_head [OF i(1)] by (force simp: fits_def)
  then show ?thesis using Cont i back_pass [OF assms(2)] by simp
qed (use assms in simp_all)

text \<open>A scope without a label hides none.\<close>

lemma unlabelled [simp]:
  "proceeds fn (scope_item [] lp c n # L) \<rho> lab p q out s r \<longleftrightarrow> proceeds fn L \<rho> lab p q out s r"
  "fits fn (scope_item [] lp c n # L) \<rho> p q \<longleftrightarrow> fits fn L \<rho> p q"
  by (cases out) (auto simp: fits_def scope_item_def)

section \<open>Operations at their place\<close>

lemma run_counter:
  "op_Code op \<notin> {OpCode_Goto, OpCode_If, OpCode_ForQueryNext} \<Longrightarrow> run_operation fn c op s =
     (case run_operation fn 0 op s of Proceed_at _ s' \<Rightarrow> Proceed_at c s' | Returned v s' \<Rightarrow> Returned v s' | Raised err s' \<Rightarrow> Raised err s')"
  by (cases "op_Code op")
    (auto simp: run_operation_def Let_def go_on_def run_return_def run_raise_def split: sum.splits prod.splits option.splits list.splits)

lemma runs_simple:
  assumes "placed fn c (op # rest)" and "op_Code op \<notin> {OpCode_Goto, OpCode_If, OpCode_ForQueryNext}"
    and "op_ends (run_operation fn 0 op s) = (out, s')" and "proceeds fn L \<rho> lab p (Suc c) out s' r"
  shows "runs fn c s r"
proof (cases "run_operation fn 0 op s")
  case (Proceed_at i t)
  then have "run_operation fn (int c) op s = Proceed_at (int (Suc c) - 1) t" using run_counter [OF assms(2), of fn "int c"] by simp
  from runs_op [OF assms(1) this] show ?thesis using Proceed_at assms(3,4) by auto
next
  case (Returned v t)
  then show ?thesis using run_counter [OF assms(2), of fn "int c" s] runs_stops(1) [OF assms(1)] assms(3,4) by auto
next
  case (Raised err t)
  then show ?thesis using run_counter [OF assms(2), of fn "int c" s] runs_stops(2) [OF assms(1)] assms(3,4) by auto
qed

lemma eval_if_Index [simp]: "eval_if fn (op\<lparr>op_Index := i\<rparr>) s = eval_if fn op s"
proof -
  have "isLoopCondition (op\<lparr>op_Index := i\<rparr>) = isLoopCondition op" by (simp add: isLoopCondition_def)
  then show ?thesis by (simp add: eval_if_def split: prod.split sum.split goany.split)
qed

lemma runs_if:
  assumes "placed fn p (op # rest)" and "op_Code op = OpCode_If" and "op_Index op = int p + 2"
  shows "eval_if fn op s = Inr (b, s') \<Longrightarrow> runs fn (if b then p + 2 else Suc p) s' r \<Longrightarrow> runs fn p s r"
    and "eval_if fn op s = Inl (err, s') \<Longrightarrow> runs fn p s (seen_of (Inl err) s')"
proof -
  have op: "run_operation fn (int p) op s = (case eval_if fn op s of
      Inl (err, s') \<Rightarrow> Raised err s' | Inr (b, s') \<Rightarrow> Proceed_at (int (if b then p + 2 else Suc p) - 1) s')" for s
    using assms(2,3) by (auto simp: run_operation_def run_if_def eval_if_def needs_scope_def Let_def split: prod.splits sum.splits goany.splits)
  show "eval_if fn op s = Inr (b, s') \<Longrightarrow> runs fn (if b then p + 2 else Suc p) s' r \<Longrightarrow> runs fn p s r"
    using op [of s] runs_op [OF assms(1)] by simp
  show "eval_if fn op s = Inl (err, s') \<Longrightarrow> runs fn p s (seen_of (Inl err) s')"
    using op [of s] runs_stops(2) [OF assms(1)] by simp
qed

lemma fetch_Index [simp]: "fetch fn (op\<lparr>op_Index := i\<rparr>) s = fetch fn op s"
  by (simp add: fetch_def split: prod.split sum.split option.split)

lemma runs_fetch:
  assumes "placed fn p (op # rest)" and "op_Code op = OpCode_ForQueryNext" and "op_Index op = int q"
  shows "fetch fn op s = Inr (b, s') \<Longrightarrow> runs fn (if b then Suc p else q) s' r \<Longrightarrow> runs fn p s r"
    and "fetch fn op s = Inl (err, s') \<Longrightarrow> runs fn p s (seen_of (Inl err) s')"
proof -
  have op: "run_operation fn (int p) op s = (case fetch fn op s of
      Inl (err, s') \<Rightarrow> Raised err s' | Inr (b, s') \<Rightarrow> Proceed_at (int (if b then Suc p else q) - 1) s')" for s
    using assms(2,3) by (auto simp: run_operation_def run_for_next_def fetch_def go_on_def needs_scope_def Let_def split: prod.splits sum.splits option.splits)
  show "fetch fn op s = Inr (b, s') \<Longrightarrow> runs fn (if b then Suc p else q) s' r \<Longrightarrow> runs fn p s r"
    using op [of s] runs_op [OF assms(1)] by simp
  show "fetch fn op s = Inl (err, s') \<Longrightarrow> runs fn p s (seen_of (Inl err) s')"
    using op [of s] runs_stops(2) [OF assms(1)] by simp
qed

lemma runs_enter: "placed fn p (new_op OpCode_ScopeBegin # rest) \<Longrightarrow> runs fn (Suc p) (enter s) r \<Longrightarrow> runs fn p s r"
  by (rule runs_op [of fn p "new_op OpCode_ScopeBegin" rest _ "Suc p" "enter s"])
    (simp_all add: run_operation_def needs_scope_def enter_def)

lemma runs_leave:
  assumes "placed fn q (new_op OpCode_ScopeEnd # rest)"
  shows "exitScope (istack s) = Inr st \<Longrightarrow> runs fn (Suc q) (s\<lparr>istack := st\<rparr>) r \<Longrightarrow> runs fn q s r"
    and "exitScope (istack s) = Inl err \<Longrightarrow> runs fn q s (seen_of (Inl err) s)"
proof -
  have op: "run_operation fn (int q) (new_op OpCode_ScopeEnd) s = go_on (int (Suc q) - 1) s (exitScope (istack s), iworld s)"
    by (simp add: run_operation_def needs_scope_def)
  show "exitScope (istack s) = Inr st \<Longrightarrow> runs fn (Suc q) (s\<lparr>istack := st\<rparr>) r \<Longrightarrow> runs fn q s r"
    using op runs_op [OF assms, of s "Suc q"] by (simp add: go_on_def)
  show "exitScope (istack s) = Inl err \<Longrightarrow> runs fn q s (seen_of (Inl err) s)"
    using op runs_stops(2) [OF assms] by (simp add: go_on_def)
qed

text \<open>Leaving a scope, on every way out.\<close>

lemma leave_stays: "scopes (istack s) \<noteq> [] \<Longrightarrow> stays out \<Longrightarrow> \<exists>st. exitScope (istack s) = Inr st \<and> leave out s = (out, s\<lparr>istack := st\<rparr>)"
  using exitScope_total [of "istack s"] by (cases out) auto

lemma proceeds_leave:
  assumes b: "placed fn p (new_op OpCode_ScopeBegin # rest)" and e: "placed fn q (new_op OpCode_ScopeEnd # rest')" and fits: "fits fn L \<rho> p (Suc q)"
    and leave: "leave out s = (out', s')" and out: "proceeds fn L \<rho> lab p (Suc q) out' s' r" and sc: "stays out \<Longrightarrow> scopes (istack s) \<noteq> []"
  shows "proceeds fn L \<rho> lab (Suc p) q out s r"
proof (cases "stays out")
  case True
  from leave_stays [OF sc [OF True] True] obtain st where st: "exitScope (istack s) = Inr st" and o: "out' = out" "s' = s\<lparr>istack := st\<rparr>"
    using leave by auto
  show ?thesis
  proof (cases out)
    case Normal
    then show ?thesis using runs_leave(1) [OF e st] out o by simp
  next
    case (Break m)
    then obtain T where T: "\<rho> (meant lab m) = Some T" "jumps_forward fn (Suc q) (nat T) s' r" and m: "m = [] \<or> source_label m" "meant lab m \<noteq> []"
      using out o by (auto split: option.splits)
    have "Suc q < nat T" using fits T(1) by (force simp: fits_def)
    then show ?thesis using Break m T forward_leaves(2) [OF e _ st] o(2) by simp
  next
    case (Cont m)
    then obtain i rest where i: "filter (\<lambda>i. ls_label i = meant lab m) L = i # rest" "jumps_back fn p (nat (ls_start i)) s' r" and m: "m = [] \<or> source_label m" "meant lab m \<noteq> []"
      using out o by (auto split: list.splits)
    have "nat (ls_start i) \<le> p" using fits filter_head [OF i(1)] m by (force simp: fits_def)
    then show ?thesis using Cont m i back_leaves(2) [OF b _ st] o(2) by simp
  qed (use True in simp_all)
next
  case False
  then show ?thesis using leave out by (cases out) auto
qed

end
