(* ===== verification/Plpgsql_Coded.thy ===== *)
theory Plpgsql_Coded
  imports Plpgsql_Code
begin

text \<open>
  The code of a list of statements between two positions, taken apart into that of its statements, and the code of loops.
\<close>

section \<open>The code of statements\<close>

definition coded :: "(gostring \<Rightarrow> token list option) \<Rightarrow> ('v, 'w) ifunc \<Rightarrow> labelStackItem list \<Rightarrow> (gostring \<Rightarrow> int option) \<Rightarrow>
    gostring InterpreterStack \<Rightarrow> nat \<Rightarrow> Statement list \<Rightarrow> nat \<Rightarrow> bool" where
  "coded Scan fn L \<rho> st p ss q \<longleftrightarrow> plains ss \<and>
     (\<exists>ts. shapes Scan st p ss ts \<and> trees_ok ts \<and> placed fn p (resolveds L \<rho> p ts) \<and> q = p + tsizes ts)"

lemma plains_append [simp]: "plains (a @ b) \<longleftrightarrow> plains a \<and> plains b"
  by (induction a) auto

lemma coded_append: "coded Scan fn L \<rho> st p (a @ b) q \<Longrightarrow> \<exists>m. coded Scan fn L \<rho> st p a m \<and> coded Scan fn L \<rho> st m b q"
  by (fastforce simp: coded_def shapes_append)

lemma coded_Cons: "coded Scan fn L \<rho> st p (s # ss) q \<Longrightarrow> \<exists>m. coded Scan fn L \<rho> st p [s] m \<and> coded Scan fn L \<rho> st m ss q"
  using coded_append [of Scan fn L \<rho> st p "[s]" ss q] by simp

lemma coded_Nil [simp]: "coded Scan fn L \<rho> st p [] q \<longleftrightarrow> q = p \<and> p \<le> length (GetStatements fn)"
  by (auto simp: coded_def placed_def)

lemma coded_passable: "coded Scan fn L \<rho> st p ss q \<Longrightarrow> passable fn p q"
  unfolding coded_def passable_def using walk_tree(2) walk_tree_back(2) by (metis length_resolved(2))

lemma coded_size: "coded Scan fn L \<rho> st p ss q \<Longrightarrow> int q = int p + OperationSizeForStatements ss"
  using shape_size(2) by (fastforce simp: coded_def)

lemma coded_room: "coded Scan fn L \<rho> st p ss q \<Longrightarrow> q \<le> length (GetStatements fn)"
  by (auto simp: coded_def dest: placed_room)

lemma shapes_one: "shapes Scan st p [s] ts \<longleftrightarrow> (\<exists>t. ts = [t] \<and> shape Scan st p s t)"
  by (cases ts) auto

lemma shape_leaf:
  "\<forall>vars recs body l lp c. s \<noteq> Block vars recs body l lp c \<Longrightarrow> shape Scan st p s t \<longleftrightarrow> (\<exists>op. t = Leaf op \<and> simple_op Scan st (int p) s = Inr op)"
  by (cases s; cases t) (auto simp del: simple_op.simps)

lemma shape_scope:
  "shape Scan st p (Block vars recs body l lp c) t \<longleftrightarrow>
     (\<exists>l' ts. t = Scope l' lp c ts \<and> scope_label_ok l lp l' \<and> shapes Scan (SetLabel l' (PushScope st)) (Suc p) body ts)"
  by (cases t) auto

lemma coded_leaf:
  assumes "coded Scan fn L \<rho> st p [s] q" and "\<forall>vars recs body l lp c. s \<noteq> Block vars recs body l lp c"
  shows "\<exists>op. simple_op Scan st (int p) s = Inr op \<and> placed fn p [resolve_leaf L \<rho> op] \<and> q = Suc p"
  using assms(1) by (auto simp: coded_def shapes_one shape_leaf [OF assms(2)] simp del: simple_op.simps shape.simps shapes.simps)

lemma resolve_other [simp]: "op_Code op \<noteq> OpCode_Goto \<or> PrimaryData op = [] \<Longrightarrow> resolve_leaf L \<rho> op = op"
  by (auto simp: resolve_leaf_def waits_def)

lemma coded_jump: "coded Scan fn L \<rho> st p [jump off] q \<Longrightarrow> placed fn p [goto_op (int p + off)] \<and> q = Suc p"
  using coded_leaf [of Scan fn L \<rho> st p "jump off" q] by (auto simp: goto_op_def)

lemma coded_block:
  assumes "coded Scan fn L \<rho> st p [plain_block body l lp c] q"
  shows "\<exists>l' m. scope_label_ok l lp l' \<and> q = Suc m \<and> placed fn p [new_op OpCode_ScopeBegin] \<and> placed fn m [new_op OpCode_ScopeEnd] \<and>
     coded Scan fn (scope_item l' lp c p # L) (bind_exit l' (int m) \<rho>) (SetLabel l' (PushScope st)) (Suc p) body m"
proof -
  obtain l' ts where sh: "scope_label_ok l lp l'" "shapes Scan (SetLabel l' (PushScope st)) (Suc p) body ts" and ok: "trees_ok ts" "plains body"
    and pl: "placed fn p (resolved L \<rho> p (Scope l' lp c ts))" and q: "q = p + (2 + tsizes ts)"
    using assms by (auto simp: coded_def plain_block_def shapes_one shape_scope simp del: resolved.simps shape.simps shapes.simps)
  have "coded Scan fn (scope_item l' lp c p # L) (bind_exit l' (int (p + 1 + tsizes ts)) \<rho>) (SetLabel l' (PushScope st)) (Suc p) body (p + 1 + tsizes ts)"
    using sh ok pl by (auto simp: coded_def)
  moreover have "placed fn p [new_op OpCode_ScopeBegin]" "placed fn (p + 1 + tsizes ts) [new_op OpCode_ScopeEnd]"
    using pl by (simp_all, simp_all add: placed_def)
  ultimately show ?thesis using sh(1) q by (intro exI [of _ l'] exI [of _ "p + 1 + tsizes ts"]) simp
qed

text \<open>The operation of a simple statement depends on the variables only.\<close>

lemma simple_op_place:
  "ListVariables st = ListVariables st0 \<Longrightarrow> is_simple s \<or> (\<exists>c q. s = ForQueryInit c q) \<Longrightarrow> simple_op Scan st p s = simple_op Scan st0 0 s"
  by (cases s) (auto simp: substitute_cong [of st st0] dynamic_using_cong [of st st0] split: sum.split)

lemma simple_op_code: "simple_op Scan st p s = Inr op \<Longrightarrow> is_simple s \<or> (\<exists>c q. s = ForQueryInit c q) \<Longrightarrow> op_Code op \<notin> {OpCode_Goto, OpCode_If, OpCode_ForQueryNext}"
  by (cases s) (auto simp: executeOpCode_def Let_def split: sum.splits if_splits)

lemma coded_simple:
  assumes "coded Scan fn L \<rho> st p [s] q" and "is_simple s \<or> (\<exists>c q. s = ForQueryInit c q)" and "ListVariables st = ListVariables st0"
  shows "\<exists>op. simple_op Scan st0 0 s = Inr op \<and> placed fn p [op] \<and> q = Suc p \<and> op_Code op \<notin> {OpCode_Goto, OpCode_If, OpCode_ForQueryNext}"
proof -
  have "\<forall>vars recs body l lp c. s \<noteq> Block vars recs body l lp c" using assms(2) by auto
  from coded_leaf [OF assms(1) this] obtain op where op: "simple_op Scan st (int p) s = Inr op" "placed fn p [resolve_leaf L \<rho> op]" "q = Suc p" by blast
  then show ?thesis using simple_op_place [OF assms(3,2), of Scan "int p"] simple_op_code [OF op(1) assms(2)] by auto
qed

lemma coded_if:
  assumes "coded Scan fn L \<rho> st p [If c off lp] q" and "ListVariables st = ListVariables st0" and "simple_op Scan st0 0 (If c off lp) = Inr op"
  shows "placed fn p [op\<lparr>op_Index := int p + off\<rparr>] \<and> q = Suc p \<and> op_Code op = OpCode_If"
  using coded_leaf [OF assms(1)] assms(3) by (auto simp: substitute_cong [OF assms(2)] split: sum.splits)

lemma coded_next:
  assumes "coded Scan fn L \<rho> st p [ForQueryNext c v off] q" and "simple_op Scan st0 0 (ForQueryNext c v 0) = Inr op"
  shows "placed fn p [op\<lparr>op_Index := int p + off\<rparr>] \<and> q = Suc p \<and> op_Code op = OpCode_ForQueryNext"
  using coded_leaf [OF assms(1)] assms(2) by auto

section \<open>Jumps with a label\<close>

lemma coded_exit:
  assumes code: "coded Scan fn L \<rho> st p [Goto 1 m (m = [])] q" and fits: "fits fn L \<rho> p q" and "m = [] \<or> source_label m"
    and out: "proceeds fn L \<rho> (GetCurrentLabel st) p q (Break m) s r"
  shows "runs fn p s r"
proof -
  obtain T where T: "\<rho> (meant (GetCurrentLabel st) m) = Some T" "jumps_forward fn q (nat T) s r" and ne: "meant (GetCurrentLabel st) m \<noteq> []"
    using out by (auto split: option.splits)
  have "placed fn p [goto_op T]" and q: "q = Suc p"
    using coded_leaf [OF code] T(1) ne by (auto simp: meant_def resolve_leaf_def waits_def arrive_def goto_op_def new_op_def Let_def split: if_splits)
  moreover have "int q < T" "T \<le> int (length (GetStatements fn))" using fits T(1) by (auto simp: fits_def)
  ultimately show ?thesis using goto_forward [of fn p "nat T" "[]" s r] T(2) by simp
qed

lemma coded_continue:
  assumes code: "coded Scan fn L \<rho> st p [Goto (-1) m (m = [])] q" and fits: "fits fn L \<rho> p q" and strict: "strict L p"
    and out: "proceeds fn L \<rho> (GetCurrentLabel st) p q (Cont m) s r"
  shows "runs fn p s r"
proof -
  obtain i rest where i: "filter (\<lambda>i. ls_label i = meant (GetCurrentLabel st) m) L = i # rest" "jumps_back fn p (nat (ls_start i)) s r"
    and ne: "meant (GetCurrentLabel st) m \<noteq> []"
    using out by (auto split: list.splits)
  have "placed fn p [goto_op (ls_start i)]" and q: "q = Suc p"
    using coded_leaf [OF code] i(1) ne by (auto simp: meant_def resolve_leaf_def waits_def arrive_def goto_op_def new_op_def Let_def split: if_splits)
  moreover have "ls_start i < int p" "0 \<le> ls_start i" using fits strict filter_head [OF i(1)] ne by (auto simp: fits_def strict_def)
  ultimately show ?thesis using goto_back [of fn p "nat (ls_start i)" "[]" s r] i(2) by simp
qed

end
