(* ===== verification/Plpgsql_Loops.thy ===== *)
theory Plpgsql_Loops
  imports Plpgsql_Coded
begin

text \<open>
  The code of the four kinds of loops: what the rounds need of it, and that the compiled blocks have it.
\<close>

section \<open>A loop's code\<close>

text \<open>
  The scope begins at \<open>p\<close>; the test is at \<open>tp\<close>, what is done before the next round at \<open>np\<close>, the body between \<open>pb\<close> and \<open>qb\<close>, where the
  jump back is; the scope ends behind it.
\<close>

definition loop_code :: "('v, 'w) ifunc \<Rightarrow> looper \<Rightarrow> nat \<Rightarrow> nat \<Rightarrow> nat \<Rightarrow> nat \<Rightarrow> nat \<Rightarrow> bool" where
  "loop_code fn k p tp np pb qb \<longleftrightarrow>
     np < qb \<and> placed fn qb [goto_op (int np)] \<and> passable fn (Suc p) np \<and> passable fn np pb \<and>
     (\<forall>s s' r. loop_test fn k s = Inr (True, s') \<longrightarrow> runs fn pb s' r \<longrightarrow> runs fn tp s r) \<and>
     (\<forall>s s' r. loop_test fn k s = Inr (False, s') \<longrightarrow> runs fn (Suc qb) s' r \<longrightarrow> runs fn tp s r) \<and>
     (\<forall>s err s'. loop_test fn k s = Inl (err, s') \<longrightarrow> runs fn tp s (seen_of (Inl err) s')) \<and>
     (\<forall>s out s' r. op_ends (loop_next fn k s) = (out, s') \<longrightarrow> proceeds fn [] Map.empty [] 0 tp out s' r \<longrightarrow> runs fn np s r)"

lemma op_ends_cases: "op_ends x = (out, s) \<Longrightarrow> out = Normal \<or> (\<exists>v. out = Ret v) \<or> (\<exists>err. out = Fail err)"
  by (cases x) auto

lemma proceeds_ends: "op_ends x = (out, s) \<Longrightarrow> proceeds fn L \<rho> lab p q out s' r \<longleftrightarrow> proceeds fn L' \<rho>' lab' p' q out s' r"
  using op_ends_cases by fastforce

lemma goto_passable: "placed fn q [goto_op t] \<Longrightarrow> passable fn q (Suc q)"
  by (rule passable_op [of fn q "goto_op t" "[]"]) (simp_all add: goto_op_def)

section \<open>Behind the body of a loop\<close>

text \<open>When the loop goes on, and when it is left.\<close>

lemma body_resumes:
  assumes loop: "loop_code fn k p tp np pb qb" and body: "passable fn pb qb" and item: "ls_label item = ll" "ls_start item = int np"
    and label: "scope_label_ok l True ll" "l = [] \<or> source_label l" and out: "resumes l out" and r: "runs fn np s r"
  shows "proceeds fn (item # L) \<rho> ll pb qb out s r"
proof (cases out)
  case Normal
  have np: "np < qb" "placed fn qb [goto_op (int np)]" "passable fn np qb" using loop body passable_trans by (auto simp: loop_code_def)
  have "jumps_back fn qb np s r" using back_pass [OF np(3)] r by (simp add: back_arrives)
  then show ?thesis using Normal goto_back [OF np(2,1)] by simp
next
  case (Cont m)
  have "jumps_back fn pb np s r" using loop back_pass [of fn np pb] r by (simp add: loop_code_def back_arrives)
  moreover have "meant ll m = ll" "m = [] \<or> source_label m" "ll \<noteq> []"
    using Cont out label by (auto simp: meant_def scope_label_ok_def source_label_def split: if_splits)
  ultimately show ?thesis using Cont item by simp
qed (use out in simp_all)

lemma body_leaves:
  assumes loop: "loop_code fn k p tp np pb qb" and fits: "fits fn L \<rho> (Suc p) (Suc qb)" and item: "ls_label item = ll"
    and label: "scope_label_ok l True ll" "l = [] \<or> source_label l" and out: "\<not> resumes l out"
    and r: "proceeds fn L \<rho> lab (Suc p) (Suc qb) (escape l out) s r"
  shows "proceeds fn (item # L) (bind_exit ll (int (Suc qb)) \<rho>) ll pb qb out s r"
proof -
  have ll: "ll \<noteq> []" "l \<noteq> [] \<Longrightarrow> ll = l" "l = [] \<Longrightarrow> \<not> source_label ll"
    using label by (auto simp: scope_label_ok_def split: if_splits)
  have pass: "passable fn (Suc p) pb" "passable fn qb (Suc qb)"
    using loop passable_trans goto_passable by (fastforce simp: loop_code_def)+
  show ?thesis
  proof (cases out)
    case (Break m)
    show ?thesis
    proof (cases "m = [] \<or> m = l")
      case True
      then have "meant ll m = ll" "m = [] \<or> source_label m" using ll(2) label(2) by (auto simp: meant_def)
      then show ?thesis using Break True r ll(1) by (simp add: bind_exit_def forward_arrives del: of_nat_Suc)
    next
      case False
      then have "source_label m" "m \<noteq> ll" using Break r ll(2,3) by (auto simp: scope_label_ok_def)
      then have same: "proceeds fn (item # L) (bind_exit ll (int (Suc qb)) \<rho>) ll pb qb out s r \<longleftrightarrow> proceeds fn L \<rho> lab pb qb out s r"
        using Break False by (simp add: meant_def bind_exit_def)
      show ?thesis unfolding same using r Break False by (intro proceeds_inner [OF _ pass fits]) simp_all
    qed
  next
    case (Cont m)
    then have m: "m \<noteq> []" "m \<noteq> l" using out by simp_all
    then have "source_label m" "m \<noteq> ll" using Cont r ll(2,3) by (auto simp: scope_label_ok_def)
    then have same: "proceeds fn (item # L) (bind_exit ll (int (Suc qb)) \<rho>) ll pb qb out s r \<longleftrightarrow> proceeds fn L \<rho> lab pb qb out s r"
      using Cont m item by (simp add: meant_def)
    show ?thesis unfolding same using r Cont by (intro proceeds_inner [OF _ pass fits]) simp_all
  qed (use out r in simp_all)
qed

section \<open>The compiled loops\<close>

lemma jump_runs:
  assumes "placed fn p [goto_op (int T)]" and "T = Suc (Suc p) \<or> T = Suc p" and "T \<le> length (GetStatements fn)" and "runs fn T s r"
  shows "runs fn p s r"
  using goto_forward [OF assms(1) _ assms(3), of s r] assms(2,4) by (auto simp: forward_arrives)

text \<open>A jump over passable code to the operation behind a single other one, which is not looked at.\<close>

lemma jump_over:
  assumes "placed fn p [goto_op (int (Suc q))]" and "passable fn (Suc p) q" and "Suc q \<le> length (GetStatements fn)" and "runs fn (Suc q) s r"
  shows "runs fn p s r"
proof -
  have "jumps_forward fn q (Suc q) s r" using assms(4) by (simp add: forward_arrives)
  then have "jumps_forward fn (Suc p) (Suc q) s r" using forward_pass [OF assms(2)] by simp
  then show ?thesis using goto_forward [OF assms(1)] passable_le [OF assms(2)] assms(3) by simp
qed

lemma loop_coded:
  assumes code: "coded Scan fn L \<rho> st (Suc p) (body @ [jump (- OperationSizeForStatements body)]) m" and body: "0 < OperationSizeForStatements body"
  shows "\<exists>qb. m = Suc qb \<and> coded Scan fn L \<rho> st (Suc p) body qb \<and> loop_code fn Forever p (Suc p) (Suc p) (Suc p) qb"
proof -
  obtain qb where b: "coded Scan fn L \<rho> st (Suc p) body qb" and j: "coded Scan fn L \<rho> st qb [jump (- OperationSizeForStatements body)] m"
    using coded_append [OF code] by blast
  have size: "int qb = int (Suc p) + OperationSizeForStatements body" using coded_size [OF b] .
  have g: "placed fn qb [goto_op (int (Suc p))]" and m: "m = Suc qb" using coded_jump [OF j] size by simp_all
  have "Suc p \<le> length (GetStatements fn)" using coded_passable [OF b] passable_le coded_room [OF b] by fastforce
  then have "loop_code fn Forever p (Suc p) (Suc p) (Suc p) qb" using g size body by (auto simp: loop_code_def)
  then show ?thesis using b m by blast
qed

lemma while_coded:
  assumes code: "coded Scan fn L \<rho> st (Suc p)
      ([If c 2 False, jump (1 + OperationSizeForStatements body + 1)] @ body @ [jump (- (OperationSizeForStatements body + 2))]) m"
    and op: "simple_op Scan st0 0 (If c 2 False) = Inr op" and vars: "ListVariables st = ListVariables st0"
  shows "\<exists>pb qb. Suc p < pb \<and> m = Suc qb \<and> coded Scan fn L \<rho> st pb body qb \<and> loop_code fn (WhileLoop op) p (Suc p) (Suc p) pb qb"
proof -
  let ?op = "op\<lparr>op_Index := int (Suc p) + 2\<rparr>"
  obtain a b qb where i: "coded Scan fn L \<rho> st (Suc p) [If c 2 False] a" and j: "coded Scan fn L \<rho> st a [jump (1 + OperationSizeForStatements body + 1)] b"
    and bd: "coded Scan fn L \<rho> st b body qb" and g: "coded Scan fn L \<rho> st qb [jump (- (OperationSizeForStatements body + 2))] m"
    using code by (metis coded_append append_Cons append_Nil)
  have i': "placed fn (Suc p) [?op]" "a = Suc (Suc p)" "op_Code ?op = OpCode_If" using coded_if [OF i vars op] by simp_all
  have ab: "b = Suc a" using coded_jump [OF j] by simp
  have size: "int qb = int b + OperationSizeForStatements body" using coded_size [OF bd] .
  have m: "m = Suc qb" using coded_jump [OF g] by simp
  have room: "m \<le> length (GetStatements fn)" using coded_room [OF g] .
  have j': "placed fn a [goto_op (int (Suc qb))]" using coded_jump [OF j] ab size by (simp add: algebra_simps)
  have g': "placed fn qb [goto_op (int (Suc p))]" using coded_jump [OF g] size i'(2) ab by (simp add: algebra_simps)
  have pb: "passable fn (Suc p) b" using passable_op [OF i'(1)] i'(3) goto_passable [OF j'] passable_trans ab i'(2) by fastforce
  have bq: "passable fn b qb" using coded_passable [OF bd] .
  have "runs fn (Suc p) s r" if "eval_if fn op s = Inr (True, s')" "runs fn b s' r" for s s' r
    using runs_if(1) [OF i'(1,3), of s True s' r] that i'(2) ab by simp
  moreover have "runs fn (Suc p) s r" if "eval_if fn op s = Inr (False, s')" "runs fn (Suc qb) s' r" for s s' r
  proof -
    have "runs fn a s' r" using jump_over [OF j' _ _ that(2)] bq ab m room by simp
    then show ?thesis using runs_if(1) [OF i'(1,3), of s False s' r] that i'(2) by simp
  qed
  moreover have "runs fn (Suc p) s (seen_of (Inl err) s')" if "eval_if fn op s = Inl (err, s')" for s err s'
    using runs_if(2) [OF i'(1,3), of s err s'] that by simp
  ultimately have "loop_code fn (WhileLoop op) p (Suc p) (Suc p) b qb"
    using g' pb passable_le [OF bq] ab i'(2) room m by (auto simp: loop_code_def)
  then show ?thesis using bd m ab i'(2) by (intro exI [of _ b] exI [of _ qb]) simp
qed

lemma fors_coded:
  assumes code: "coded Scan fn L \<rho> st (Suc p) ([ForQueryInit cn q, ForQueryNext cn v (OperationSizeForStatements body + 2)] @ body @ [jump (- (1 + OperationSizeForStatements body))]) m"
    and op0: "simple_op Scan st0 0 (ForQueryInit cn q) = Inr op0" and op1: "simple_op Scan st0 0 (ForQueryNext cn v 0) = Inr op1"
    and vars: "ListVariables st = ListVariables st0"
  shows "\<exists>pb qb. Suc (Suc p) < pb \<and> m = Suc qb \<and> coded Scan fn L \<rho> st pb body qb \<and> loop_code fn (ForS op1) p (Suc (Suc p)) (Suc (Suc p)) pb qb \<and>
     placed fn (Suc p) [op0] \<and> op_Code op0 \<notin> {OpCode_Goto, OpCode_If, OpCode_ForQueryNext}"
proof -
  obtain a b qb where i: "coded Scan fn L \<rho> st (Suc p) [ForQueryInit cn q] a" and n: "coded Scan fn L \<rho> st a [ForQueryNext cn v (OperationSizeForStatements body + 2)] b"
    and bd: "coded Scan fn L \<rho> st b body qb" and g: "coded Scan fn L \<rho> st qb [jump (- (1 + OperationSizeForStatements body))] m"
    using code by (metis coded_append append_Cons append_Nil)
  have i': "placed fn (Suc p) [op0]" "a = Suc (Suc p)" "op_Code op0 \<notin> {OpCode_Goto, OpCode_If, OpCode_ForQueryNext}"
    using coded_simple [OF i _ vars] op0 by auto
  let ?op = "op1\<lparr>op_Index := int a + (OperationSizeForStatements body + 2)\<rparr>"
  have n': "placed fn a [?op]" "b = Suc a" "op_Code ?op = OpCode_ForQueryNext" using coded_next [OF n op1] by simp_all
  have size: "int qb = int b + OperationSizeForStatements body" using coded_size [OF bd] .
  have m: "m = Suc qb" using coded_jump [OF g] by simp
  have room: "m \<le> length (GetStatements fn)" using coded_room [OF g] .
  have idx: "op_Index ?op = int (Suc qb)" using size n'(2) by simp
  have g': "placed fn qb [goto_op (int a)]" using coded_jump [OF g] size n'(2) by (simp add: algebra_simps)
  have pass: "passable fn (Suc p) a" "passable fn a b" "passable fn b qb"
    using coded_passable [OF i] coded_passable [OF n] coded_passable [OF bd] by auto
  have "runs fn a s r" if "fetch fn op1 s = Inr (True, s')" "runs fn b s' r" for s s' r
    using runs_fetch(1) [OF n'(1,3) idx, of s True s' r] that n'(2) by simp
  moreover have "runs fn a s r" if "fetch fn op1 s = Inr (False, s')" "runs fn (Suc qb) s' r" for s s' r
    using runs_fetch(1) [OF n'(1,3) idx, of s False s' r] that by simp
  moreover have "runs fn a s (seen_of (Inl err) s')" if "fetch fn op1 s = Inl (err, s')" for s err s'
    using runs_fetch(2) [OF n'(1,3) idx, of s err s'] that by simp
  ultimately have "loop_code fn (ForS op1) p a a b qb"
    using g' pass passable_le [OF pass(3)] n'(2) by (auto simp: loop_code_def)
  then show ?thesis using bd m n'(2) i' by (intro exI [of _ b] exI [of _ qb]) simp
qed

lemma fori_coded:
  assumes code: "coded Scan fn L \<rho> st (Suc p) ([Assignment v e0, jump 2, Assignment v e1, If c 2 True, jump (2 + OperationSizeForStatements body)] @ body @
      [jump (- (3 + OperationSizeForStatements body))]) m"
    and op0: "simple_op Scan st0 0 (Assignment v e0) = Inr op0" and op1: "simple_op Scan st0 0 (Assignment v e1) = Inr op1"
    and op2: "simple_op Scan st0 0 (If c 2 True) = Inr op2" and vars: "ListVariables st = ListVariables st0"
  shows "\<exists>tp np pb qb. np = p + 3 \<and> np < pb \<and> m = Suc qb \<and> coded Scan fn L \<rho> st pb body qb \<and> loop_code fn (ForI op1 op2) p tp np pb qb \<and>
     placed fn (Suc p) [op0] \<and> op_Code op0 \<notin> {OpCode_Goto, OpCode_If, OpCode_ForQueryNext} \<and>
     (\<forall>s r. runs fn tp s r \<longrightarrow> runs fn (Suc (Suc p)) s r)"
proof -
  obtain a np tp b pb qb where i: "coded Scan fn L \<rho> st (Suc p) [Assignment v e0] a" and j: "coded Scan fn L \<rho> st a [jump 2] np"
    and n: "coded Scan fn L \<rho> st np [Assignment v e1] tp" and t: "coded Scan fn L \<rho> st tp [If c 2 True] b"
    and x: "coded Scan fn L \<rho> st b [jump (2 + OperationSizeForStatements body)] pb"
    and bd: "coded Scan fn L \<rho> st pb body qb" and g: "coded Scan fn L \<rho> st qb [jump (- (3 + OperationSizeForStatements body))] m"
    using code by (metis coded_append append_Cons append_Nil)
  have i': "placed fn (Suc p) [op0]" "a = Suc (Suc p)" "op_Code op0 \<notin> {OpCode_Goto, OpCode_If, OpCode_ForQueryNext}"
    using coded_simple [OF i _ vars] op0 by auto
  have n': "placed fn np [op1]" "tp = Suc np" "op_Code op1 \<notin> {OpCode_Goto, OpCode_If, OpCode_ForQueryNext}"
    using coded_simple [OF n _ vars] op1 by auto
  let ?op = "op2\<lparr>op_Index := int tp + 2\<rparr>"
  have t': "placed fn tp [?op]" "b = Suc tp" "op_Code ?op = OpCode_If" "op_Index ?op = int tp + 2" using coded_if [OF t vars op2] by simp_all
  have ab: "np = Suc a" "pb = Suc b" using coded_jump [OF j] coded_jump [OF x] by simp_all
  have size: "int qb = int pb + OperationSizeForStatements body" using coded_size [OF bd] .
  have m: "m = Suc qb" "Suc qb \<le> length (GetStatements fn)" using coded_jump [OF g] coded_room [OF g] by simp_all
  have j': "placed fn a [goto_op (int tp)]" using coded_jump [OF j] ab n'(2) by (simp add: algebra_simps)
  have x': "placed fn b [goto_op (int (Suc qb))]" using coded_jump [OF x] ab size by (simp add: algebra_simps)
  have g': "placed fn qb [goto_op (int np)]" using coded_jump [OF g] size ab t'(2) n'(2) by (simp add: algebra_simps)
  have pass: "passable fn (Suc p) np" "passable fn np pb" "passable fn pb qb"
    using coded_passable [OF i] coded_passable [OF j] coded_passable [OF n] coded_passable [OF t] coded_passable [OF x] coded_passable [OF bd] passable_trans by blast+
  have "tp \<le> length (GetStatements fn)" using passable_le [OF pass(3)] ab t'(2) m by simp
  then have start: "runs fn a s r" if "runs fn tp s r" for s r using jump_runs [OF j' _ _ that] ab n'(2) by simp
  have "runs fn tp s r" if "eval_if fn op2 s = Inr (True, s')" "runs fn pb s' r" for s s' r
    using runs_if(1) [OF t'(1,3,4), of s True s' r] that t'(2) ab by simp
  moreover have "runs fn tp s r" if "eval_if fn op2 s = Inr (False, s')" "runs fn (Suc qb) s' r" for s s' r
  proof -
    have "runs fn b s' r" using jump_over [OF x' _ m(2) that(2)] pass(3) ab by simp
    then show ?thesis using runs_if(1) [OF t'(1,3,4), of s False s' r] that t'(2) by simp
  qed
  moreover have "runs fn tp s (seen_of (Inl err) s')" if "eval_if fn op2 s = Inl (err, s')" for s err s'
    using runs_if(2) [OF t'(1,3,4), of s err s'] that by simp
  moreover have "runs fn np s r" if "op_ends (run_operation fn 0 op1 s) = (out, s')" "proceeds fn [] Map.empty [] 0 tp out s' r" for s out s' r
    using runs_simple [OF n'(1,3) that(1)] that(2) n'(2) by simp
  ultimately have "loop_code fn (ForI op1 op2) p tp np pb qb"
    using g' pass passable_le [OF pass(3)] ab t'(2) n'(2) by (auto simp: loop_code_def)
  then show ?thesis using bd m ab n'(2) t'(2) i' start by (intro exI [of _ tp] exI [of _ np] exI [of _ pb] exI [of _ qb]) simp
qed

end
