(* ===== verification/Plpgsql_Correct.thy ===== *)
theory Plpgsql_Correct
  imports Plpgsql_Loops
begin

text \<open>
  The compiled code does what the statements mean: from the code of a statement a run goes on as the structured semantics says it ends.
\<close>

section \<open>The simulation\<close>

definition sim_stmt :: "(gostring \<Rightarrow> token list option) \<Rightarrow> ('v, 'w) ifunc \<Rightarrow> gostring InterpreterStack \<Rightarrow> (gostring \<Rightarrow> bool) \<Rightarrow>
    jstatement \<Rightarrow> ('v, 'w) istate \<Rightarrow> 'v ending \<Rightarrow> ('v, 'w) istate \<Rightarrow> bool" where
  "sim_stmt Scan fn st0 dm j \<sigma> out \<sigma>' \<longleftrightarrow> (\<forall>E st L \<rho> p q s r.
     jsonConvertStatement dm j = Inr s \<longrightarrow> jfine E j \<longrightarrow> ListVariables st = ListVariables st0 \<longrightarrow> coded Scan fn L \<rho> st p [s] q \<longrightarrow> fits fn L \<rho> p q \<longrightarrow>
     (plain_continue j \<longrightarrow> strict L p) \<longrightarrow> proceeds fn L \<rho> (GetCurrentLabel st) p q out \<sigma>' r \<longrightarrow> runs fn p \<sigma> r)"

definition sim_list :: "(gostring \<Rightarrow> token list option) \<Rightarrow> ('v, 'w) ifunc \<Rightarrow> gostring InterpreterStack \<Rightarrow> (gostring \<Rightarrow> bool) \<Rightarrow>
    jstatement list \<Rightarrow> ('v, 'w) istate \<Rightarrow> 'v ending \<Rightarrow> ('v, 'w) istate \<Rightarrow> bool" where
  "sim_list Scan fn st0 dm js \<sigma> out \<sigma>' \<longleftrightarrow> (\<forall>E st L \<rho> p q ss r.
     jsonConvertStatements dm js = Inr ss \<longrightarrow> jfines E js \<longrightarrow> ListVariables st = ListVariables st0 \<longrightarrow> coded Scan fn L \<rho> st p ss q \<longrightarrow> fits fn L \<rho> p q \<longrightarrow>
     (js \<noteq> [] \<and> plain_continue (hd js) \<longrightarrow> strict L p) \<longrightarrow> proceeds fn L \<rho> (GetCurrentLabel st) p q out \<sigma>' r \<longrightarrow> runs fn p \<sigma> r)"

definition sim_chain :: "(gostring \<Rightarrow> token list option) \<Rightarrow> ('v, 'w) ifunc \<Rightarrow> gostring InterpreterStack \<Rightarrow> (gostring \<Rightarrow> bool) \<Rightarrow>
    (gostring \<times> jstatement list) list \<Rightarrow> jstatement list \<Rightarrow> ('v, 'w) istate \<Rightarrow> 'v ending \<Rightarrow> ('v, 'w) istate \<Rightarrow> bool" where
  "sim_chain Scan fn st0 dm bs els \<sigma> out \<sigma>' \<longleftrightarrow> (\<forall>E st L \<rho> p q bs' es S g r.
     convert_branches dm bs = Inr bs' \<longrightarrow> jsonConvertStatements dm els = Inr es \<longrightarrow> bfines E bs \<longrightarrow> jfines E els \<longrightarrow> els = [] \<or> \<not> scoped (last els) \<longrightarrow>
     ListVariables st = ListVariables st0 \<longrightarrow> coded Scan fn L \<rho> st p (if_stmts S g bs' es) q \<longrightarrow> int q = int p + S - g \<longrightarrow> fits fn L \<rho> p q \<longrightarrow> strict L p \<longrightarrow>
     proceeds fn L \<rho> (GetCurrentLabel st) p q out \<sigma>' r \<longrightarrow> runs fn p \<sigma> r)"

text \<open>A loop's code with all that is around it: the scope's label \<open>ll\<close> and the item that stands for it.\<close>

definition in_loop :: "(gostring \<Rightarrow> token list option) \<Rightarrow> ('v, 'w) ifunc \<Rightarrow> gostring InterpreterStack \<Rightarrow> (gostring \<Rightarrow> bool) \<Rightarrow> looper \<Rightarrow> gostring \<Rightarrow> jstatement list \<Rightarrow>
    labelStackItem list \<Rightarrow> (gostring \<Rightarrow> int option) \<Rightarrow> nat \<Rightarrow> nat \<Rightarrow> nat \<Rightarrow> bool" where
  "in_loop Scan fn st0 dm k l body L \<rho> p tp qb \<longleftrightarrow> (\<exists>E st np pb item ll bs.
     jsonConvertStatements dm body = Inr bs \<and> jfines E body \<and> ListVariables st = ListVariables st0 \<and> GetCurrentLabel st = ll \<and>
     loop_code fn k p tp np pb qb \<and> coded Scan fn (item # L) (bind_exit ll (int (Suc qb)) \<rho>) st pb bs qb \<and> fits fn L \<rho> p (Suc qb) \<and>
     ls_label item = ll \<and> ls_start item = int np \<and> scope_label_ok l True ll \<and> (l = [] \<or> source_label l) \<and>
     (body \<noteq> [] \<and> plain_continue (hd body) \<longrightarrow> np < pb))"

definition sim_loop :: "(gostring \<Rightarrow> token list option) \<Rightarrow> ('v, 'w) ifunc \<Rightarrow> gostring InterpreterStack \<Rightarrow> (gostring \<Rightarrow> bool) \<Rightarrow>
    looper \<Rightarrow> gostring \<Rightarrow> jstatement list \<Rightarrow> ('v, 'w) istate \<Rightarrow> 'v ending \<Rightarrow> ('v, 'w) istate \<Rightarrow> bool" where
  "sim_loop Scan fn st0 dm k l body \<sigma> out \<sigma>' \<longleftrightarrow> (\<forall>L \<rho> p tp qb lab r.
     in_loop Scan fn st0 dm k l body L \<rho> p tp qb \<longrightarrow> proceeds fn L \<rho> lab (Suc p) (Suc qb) out \<sigma>' r \<longrightarrow> runs fn tp \<sigma> r)"

lemma sim_stmtD:
  "sim_stmt Scan fn st0 dm j \<sigma> out \<sigma>' \<Longrightarrow> jsonConvertStatement dm j = Inr s \<Longrightarrow> jfine E j \<Longrightarrow> ListVariables st = ListVariables st0 \<Longrightarrow>
   coded Scan fn L \<rho> st p [s] q \<Longrightarrow> fits fn L \<rho> p q \<Longrightarrow> (plain_continue j \<Longrightarrow> strict L p) \<Longrightarrow> proceeds fn L \<rho> (GetCurrentLabel st) p q out \<sigma>' r \<Longrightarrow> runs fn p \<sigma> r"
  unfolding sim_stmt_def by blast

lemma sim_listD:
  "sim_list Scan fn st0 dm js \<sigma> out \<sigma>' \<Longrightarrow> jsonConvertStatements dm js = Inr ss \<Longrightarrow> jfines E js \<Longrightarrow> ListVariables st = ListVariables st0 \<Longrightarrow>
   coded Scan fn L \<rho> st p ss q \<Longrightarrow> fits fn L \<rho> p q \<Longrightarrow> (js \<noteq> [] \<Longrightarrow> plain_continue (hd js) \<Longrightarrow> strict L p) \<Longrightarrow>
   proceeds fn L \<rho> (GetCurrentLabel st) p q out \<sigma>' r \<Longrightarrow> runs fn p \<sigma> r"
  unfolding sim_list_def by blast

lemma size_pos: "1 \<le> OperationSize s" "0 \<le> OperationSizeForStatements ss"
  by (induction s and ss rule: OperationSize_OperationSizeForStatements.induct) simp_all

section \<open>Lists of statements\<close>

lemma sim_nothing: "sim_list Scan fn st0 dm [] \<sigma> Normal \<sigma>"
  by (simp add: sim_list_def)

lemma convert_Cons:
  "jsonConvertStatements dm (j # js) = Inr ss \<longleftrightarrow> (\<exists>s r. ss = s # r \<and> jsonConvertStatement dm j = Inr s \<and> jsonConvertStatements dm js = Inr r)"
  by (auto split: sum.splits)

lemma sim_seq:
  assumes "sim_stmt Scan fn st0 dm j \<sigma> Normal \<sigma>1" and "sim_list Scan fn st0 dm js \<sigma>1 out \<sigma>'"
  shows "sim_list Scan fn st0 dm (j # js) \<sigma> out \<sigma>'"
  unfolding sim_list_def
proof (intro allI impI)
  fix E st L \<rho> p q ss r
  assume c: "jsonConvertStatements dm (j # js) = Inr ss" and fine: "jfines E (j # js)" and vars: "ListVariables st = ListVariables st0"
    and code: "coded Scan fn L \<rho> st p ss q" and fits: "fits fn L \<rho> p q" and st: "j # js \<noteq> [] \<and> plain_continue (hd (j # js)) \<longrightarrow> strict L p"
    and out: "proceeds fn L \<rho> (GetCurrentLabel st) p q out \<sigma>' r"
  obtain s ss' where s: "ss = s # ss'" "jsonConvertStatement dm j = Inr s" "jsonConvertStatements dm js = Inr ss'" using c convert_Cons by blast
  obtain m where m: "coded Scan fn L \<rho> st p [s] m" "coded Scan fn L \<rho> st m ss' q" using coded_Cons code s(1) by blast
  have pm: "passable fn p m" "passable fn m q" using m coded_passable by blast+
  have lt: "p < m" using coded_size [OF m(1)] size_pos(1) [of s] by simp
  have "proceeds fn L \<rho> (GetCurrentLabel st) m q out \<sigma>' r"
    using proceeds_inner [OF out pm(1) _ fits] coded_room [OF m(2)] out by (cases "out = Normal") simp_all
  then have "runs fn m \<sigma>1 r"
    using sim_listD [where E = E, OF assms(2) s(3) _ vars m(2)] fine fits_mono [OF fits] lt strict_behind [OF fits lt] by simp
  then show "runs fn p \<sigma> r"
    using sim_stmtD [where E = E, OF assms(1) s(2) _ vars m(1)] fine fits_mono [OF fits order_refl passable_le [OF pm(2)]] st by simp
qed

lemma sim_seq_ends:
  assumes "sim_stmt Scan fn st0 dm j \<sigma> out \<sigma>'" and "out \<noteq> Normal"
  shows "sim_list Scan fn st0 dm (j # js) \<sigma> out \<sigma>'"
  unfolding sim_list_def
proof (intro allI impI)
  fix E st L \<rho> p q ss r
  assume c: "jsonConvertStatements dm (j # js) = Inr ss" and fine: "jfines E (j # js)" and vars: "ListVariables st = ListVariables st0"
    and code: "coded Scan fn L \<rho> st p ss q" and fits: "fits fn L \<rho> p q" and st: "j # js \<noteq> [] \<and> plain_continue (hd (j # js)) \<longrightarrow> strict L p"
    and out: "proceeds fn L \<rho> (GetCurrentLabel st) p q out \<sigma>' r"
  obtain s ss' where s: "ss = s # ss'" "jsonConvertStatement dm j = Inr s" using c convert_Cons by blast
  obtain m where m: "coded Scan fn L \<rho> st p [s] m" "coded Scan fn L \<rho> st m ss' q" using coded_Cons code s(1) by blast
  have pm: "passable fn p m" "passable fn m q" using m coded_passable by blast+
  have "p \<le> length (GetStatements fn)" using passable_le [OF pm(1)] coded_room [OF m(1)] by simp
  then have "proceeds fn L \<rho> (GetCurrentLabel st) p m out \<sigma>' r" using proceeds_inner [OF out _ pm(2) fits] assms(2) by simp
  then show "runs fn p \<sigma> r"
    using sim_stmtD [where E = E, OF assms(1) s(2) _ vars m(1)] fine fits_mono [OF fits order_refl passable_le [OF pm(2)]] st by simp
qed

section \<open>Statements\<close>

lemma sim_simple:
  assumes "jsonConvertStatement dm j = Inr s" and "is_simple s" and "simple_op Scan st0 0 s = Inr op" and "op_ends (run_operation fn 0 op \<sigma>) = (out, \<sigma>')"
  shows "sim_stmt Scan fn st0 dm j \<sigma> out \<sigma>'"
  unfolding sim_stmt_def
proof (intro allI impI)
  fix E st L \<rho> p q s' r
  assume s': "jsonConvertStatement dm j = Inr s'" and vars: "ListVariables st = ListVariables st0" and code: "coded Scan fn L \<rho> st p [s'] q"
    and out: "proceeds fn L \<rho> (GetCurrentLabel st) p q out \<sigma>' r"
  have "placed fn p [op]" "q = Suc p" "op_Code op \<notin> {OpCode_Goto, OpCode_If, OpCode_ForQueryNext}"
    using coded_simple [OF code _ vars] s' assms(1-3) by auto
  then show "runs fn p \<sigma> r" using runs_simple [OF _ _ assms(4)] out by blast
qed

text \<open>A scope around the code of its body.\<close>

lemma scope_runs:
  assumes code: "coded Scan fn L \<rho> st p [plain_block body l lp c] q" and fits: "fits fn L \<rho> p q"
    and leave: "leave out \<sigma>1 = (out', \<sigma>')" and out: "proceeds fn L \<rho> lab p q out' \<sigma>' r" and depth: "stays out \<Longrightarrow> depth \<sigma>1 = depth (enter \<sigma>)"
    and inside: "\<And>l' m. scope_label_ok l lp l' \<Longrightarrow> q = Suc m \<Longrightarrow>
       coded Scan fn (scope_item l' lp c p # L) (bind_exit l' (int m) \<rho>) (SetLabel l' (PushScope st)) (Suc p) body m \<Longrightarrow>
       fits fn L \<rho> (Suc p) m \<Longrightarrow> strict L (Suc p) \<Longrightarrow> proceeds fn L \<rho> lab (Suc p) m out \<sigma>1 r \<Longrightarrow> runs fn (Suc p) (enter \<sigma>) r"
  shows "runs fn p \<sigma> r"
proof -
  obtain l' m where l': "scope_label_ok l lp l'" and q: "q = Suc m" and b: "placed fn p [new_op OpCode_ScopeBegin]" and e: "placed fn m [new_op OpCode_ScopeEnd]"
    and body: "coded Scan fn (scope_item l' lp c p # L) (bind_exit l' (int m) \<rho>) (SetLabel l' (PushScope st)) (Suc p) body m"
    using coded_block [OF code] by blast
  have "stays out \<Longrightarrow> scopes (istack \<sigma>1) \<noteq> []" using depth by auto
  then have "proceeds fn L \<rho> lab (Suc p) m out \<sigma>1 r" using proceeds_leave [OF b e _ leave] fits out q by simp
  then have "runs fn (Suc p) (enter \<sigma>) r"
    using inside [OF l' q body] fits_mono [OF fits] strict_behind [OF fits] q by simp
  then show ?thesis by (rule runs_enter [OF b])
qed

lemma unlabelled_scope [simp]: "scope_label_ok [] False l \<longleftrightarrow> l = []" "bind_exit [] t \<rho> = \<rho>" "strict (scope_item [] lp c n # L) p \<longleftrightarrow> strict L p"
  by (auto simp: scope_label_ok_def bind_exit_def strict_def scope_item_def)

lemma sim_block:
  assumes "sim_list Scan fn st0 dm body (enter \<sigma>) out \<sigma>1" and "stays out \<Longrightarrow> depth \<sigma>1 = depth (enter \<sigma>)" and "leave out \<sigma>1 = (out', \<sigma>')"
  shows "sim_stmt Scan fn st0 dm (J_block body) \<sigma> out' \<sigma>'"
  unfolding sim_stmt_def
proof (intro allI impI)
  fix E st L \<rho> p q s r
  assume s: "jsonConvertStatement dm (J_block body) = Inr s" and fine: "jfine E (J_block body)" and vars: "ListVariables st = ListVariables st0"
    and code: "coded Scan fn L \<rho> st p [s] q" and fits: "fits fn L \<rho> p q" and out: "proceeds fn L \<rho> (GetCurrentLabel st) p q out' \<sigma>' r"
  obtain b where b: "jsonConvertStatements dm body = Inr b" and s': "s = plain_block b [] False 0" using s by (auto split: sum.splits)
  show "runs fn p \<sigma> r"
  proof (rule scope_runs [OF code [unfolded s'] fits assms(3) out assms(2)])
    fix l' m
    assume "scope_label_ok [] False l'" and q: "q = Suc m" and c: "coded Scan fn (scope_item l' False 0 p # L) (bind_exit l' (int m) \<rho>) (SetLabel l' (PushScope st)) (Suc p) b m"
      and f: "fits fn L \<rho> (Suc p) m" and st: "strict L (Suc p)" and o: "proceeds fn L \<rho> (GetCurrentLabel st) (Suc p) m out \<sigma>1 r"
    then show "runs fn (Suc p) (enter \<sigma>) r"
      using fine vars by (intro sim_listD [where E = E, OF assms(1) b, of "SetLabel [] (PushScope st)" "scope_item [] False 0 p # L" \<rho> "Suc p" m]) simp_all
  qed
qed

lemma goto_coded:
  assumes "coded Scan fn L \<rho> st p [Goto (if is_exit then 1 else -1) l (l = [])] q" and "fits fn L \<rho> p q" and "\<not> is_exit \<Longrightarrow> strict L p" and "l = [] \<or> source_label l"
    and "proceeds fn L \<rho> (GetCurrentLabel st) p q (if is_exit then Break l else Cont l) s r"
  shows "runs fn p s r"
  using assms coded_exit [of Scan fn L \<rho> st p l q s r] coded_continue [of Scan fn L \<rho> st p l q s r] by (cases is_exit) simp_all

lemma sim_exit_now: "sim_stmt Scan fn st0 dm (J_exit l is_exit None) \<sigma> (if is_exit then Break l else Cont l) \<sigma>"
  unfolding sim_stmt_def
proof (intro allI impI)
  fix E st L \<rho> p q s r
  assume s: "jsonConvertStatement dm (J_exit l is_exit None) = Inr s" and fine: "jfine E (J_exit l is_exit None)" and code: "coded Scan fn L \<rho> st p [s] q"
    and fits: "fits fn L \<rho> p q" and st: "plain_continue (J_exit l is_exit None) \<longrightarrow> strict L p"
    and out: "proceeds fn L \<rho> (GetCurrentLabel st) p q (if is_exit then Break l else Cont l) \<sigma> r"
  have s': "s = Goto (if is_exit then 1 else -1) l (l = [])" using s by (simp add: convert_exit_def)
  show "runs fn p \<sigma> r" by (rule goto_coded [OF code [unfolded s'] fits _ _ out]) (use st fine in auto)
qed

text \<open>\<open>EXIT\<close> and \<open>CONTINUE\<close> with a condition.\<close>

lemma exit_coded:
  assumes "coded Scan fn L \<rho> st p [If c 2 False, jump 2, g] m" and "ListVariables st = ListVariables st0" and "simple_op Scan st0 0 (If c 2 False) = Inr op"
  shows "placed fn p [op\<lparr>op_Index := int p + 2\<rparr>]" "op_Code op = OpCode_If" "placed fn (Suc p) [goto_op (int (p + 3))]" "coded Scan fn L \<rho> st (p + 2) [g] m"
proof -
  obtain a b where i: "coded Scan fn L \<rho> st p [If c 2 False] a" and j: "coded Scan fn L \<rho> st a [jump 2] b" and g: "coded Scan fn L \<rho> st b [g] m"
    using assms(1) by (metis coded_append append_Cons append_Nil)
  show "placed fn p [op\<lparr>op_Index := int p + 2\<rparr>]" "op_Code op = OpCode_If" "placed fn (Suc p) [goto_op (int (p + 3))]" "coded Scan fn L \<rho> st (p + 2) [g] m"
    using coded_if [OF i assms(2,3)] coded_jump [OF j] g by (simp_all add: algebra_simps)
qed

lemma sim_exit_when:
  assumes op: "simple_op Scan st0 0 (If c 2 False) = Inr op" and test: "eval_if fn op (enter \<sigma>) = Inr (b, \<sigma>1)"
    and leave: "leave (if b then if is_exit then Break l else Cont l else Normal) \<sigma>1 = (out, \<sigma>')"
  shows "sim_stmt Scan fn st0 dm (J_exit l is_exit (Some c)) \<sigma> out \<sigma>'"
  unfolding sim_stmt_def
proof (intro allI impI)
  fix E st L \<rho> p q s r
  assume s: "jsonConvertStatement dm (J_exit l is_exit (Some c)) = Inr s" and fine: "jfine E (J_exit l is_exit (Some c))" and vars: "ListVariables st = ListVariables st0"
    and code: "coded Scan fn L \<rho> st p [s] q" and fits: "fits fn L \<rho> p q" and out: "proceeds fn L \<rho> (GetCurrentLabel st) p q out \<sigma>' r"
  let ?g = "Goto (if is_exit then 1 else -1) l (l = [])"
  have s': "s = plain_block [If c 2 False, jump 2, ?g] [] False 0" using s by (simp add: convert_exit_def Let_def)
  show "runs fn p \<sigma> r"
  proof (rule scope_runs [OF code [unfolded s'] fits leave out])
    fix l' m
    let ?L = "scope_item [] False 0 p # L" let ?st = "SetLabel [] (PushScope st)"
    assume "scope_label_ok [] False l'" "coded Scan fn (scope_item l' False 0 p # L) (bind_exit l' (int m) \<rho>) (SetLabel l' (PushScope st)) (Suc p) [If c 2 False, jump 2, ?g] m"
    then have c: "coded Scan fn ?L \<rho> ?st (Suc p) [If c 2 False, jump 2, ?g] m" by simp
    assume q: "q = Suc m" and f: "fits fn L \<rho> (Suc p) m" and st: "strict L (Suc p)"
      and o: "proceeds fn L \<rho> (GetCurrentLabel st) (Suc p) m (if b then if is_exit then Break l else Cont l else Normal) \<sigma>1 r"
    have "ListVariables ?st = ListVariables st0" using vars by simp
    note code = exit_coded [OF c this op]
    have m: "m = p + 4" "m \<le> length (GetStatements fn)" using coded_size [OF code(4)] coded_room [OF code(4)] by simp_all
    have pass: "passable fn (Suc p) (p + 3)"
      using passable_op [OF code(1)] goto_passable [OF code(3)] passable_trans code(2) by (fastforce simp: numeral_3_eq_3)
    have "runs fn (if b then Suc p + 2 else Suc (Suc p)) \<sigma>1 r"
    proof (cases b)
      case True
      have "proceeds fn L \<rho> (GetCurrentLabel st) (p + 3) m (if is_exit then Break l else Cont l) \<sigma>1 r"
        using o True m by (intro proceeds_inner [OF _ pass _ f]) auto
      moreover have "fits fn ?L \<rho> (p + 3) m" "strict ?L (p + 3)" using fits_mono [OF f] strict_behind [OF f] by simp_all
      ultimately show ?thesis
        using True fine code(4) goto_coded [of Scan fn ?L \<rho> ?st "p + 3" is_exit l m \<sigma>1 r] by (auto simp: numeral_3_eq_3 numeral_2_eq_2 simp del: proceeds.simps)
    next
      case False
      then show ?thesis using jump_runs [OF code(3)] o m by (simp add: algebra_simps)
    qed
    then show "runs fn (Suc p) (enter \<sigma>) r" using runs_if(1) [OF code(1)] code(2) test by simp
  qed (use eval_if_depth [OF test] in simp)
qed

lemma sim_exit_fails:
  assumes op: "simple_op Scan st0 0 (If c 2 False) = Inr op" and test: "eval_if fn op (enter \<sigma>) = Inl (err, \<sigma>')"
  shows "sim_stmt Scan fn st0 dm (J_exit l is_exit (Some c)) \<sigma> (Fail err) \<sigma>'"
  unfolding sim_stmt_def
proof (intro allI impI)
  fix E st L \<rho> p q s r
  assume s: "jsonConvertStatement dm (J_exit l is_exit (Some c)) = Inr s" and vars: "ListVariables st = ListVariables st0"
    and code: "coded Scan fn L \<rho> st p [s] q" and fits: "fits fn L \<rho> p q" and out: "proceeds fn L \<rho> (GetCurrentLabel st) p q (Fail err) \<sigma>' r"
  let ?g = "Goto (if is_exit then 1 else -1) l (l = [])"
  have s': "s = plain_block [If c 2 False, jump 2, ?g] [] False 0" using s by (simp add: convert_exit_def Let_def)
  show "runs fn p \<sigma> r"
  proof (rule scope_runs [OF code [unfolded s'] fits leave.simps(2) out])
    fix l' m
    assume "coded Scan fn (scope_item l' False 0 p # L) (bind_exit l' (int m) \<rho>) (SetLabel l' (PushScope st)) (Suc p) [If c 2 False, jump 2, ?g] m"
    from exit_coded [OF this _ op] vars have "placed fn (Suc p) [op\<lparr>op_Index := int (Suc p) + 2\<rparr>]" "op_Code op = OpCode_If" by simp_all
    then show "runs fn (Suc p) (enter \<sigma>) r" using runs_if(2) [of fn "Suc p" _ "[]" "enter \<sigma>" err \<sigma>'] test out by simp
  qed simp_all
qed

section \<open>Conditionals\<close>

definition is_block :: "Statement \<Rightarrow> bool" where
  "is_block s \<longleftrightarrow> (case s of Block _ _ _ _ _ _ \<Rightarrow> True | _ \<Rightarrow> False)"

lemma is_block_simps [simp]: "\<not> is_block (Goto off l n)" "\<not> is_block (If c off lp)"
  by (simp_all add: is_block_def)

lemma unscoped_no_block: "jsonConvertStatement dm j = Inr s \<Longrightarrow> \<not> scoped j \<Longrightarrow> \<not> is_block s"
  by (cases j rule: scoped.cases)
    (auto simp: is_block_def convert_assign_def convert_call_def convert_dynexecute_def convert_execsql_def convert_exit_def convert_raise_def Let_def
      split: sum.splits option.splits nat.splits datum.splits if_splits prod.splits)

lemma unscoped_last:
  "jsonConvertStatements dm js = Inr ss \<Longrightarrow> js = [] \<or> \<not> scoped (last js) \<Longrightarrow> ss = [] \<or> \<not> is_block (last ss)"
proof (induction js arbitrary: ss)
  case (Cons j js)
  obtain s r where s: "ss = s # r" "jsonConvertStatement dm j = Inr s" "jsonConvertStatements dm js = Inr r" using Cons.prems(1) convert_Cons by blast
  have "js = [] \<longleftrightarrow> r = []" using s(3) by (cases js) (auto split: sum.splits)
  then show ?case using Cons.IH [OF s(3)] Cons.prems(2) s unscoped_no_block by (cases "js = []") auto
qed simp

lemma if_last: "es = [] \<or> \<not> is_block (last es) \<Longrightarrow> if_stmts S g bs es = [] \<or> \<not> is_block (last (if_stmts S g bs es))"
  by (induction S g bs es rule: if_stmts.induct) auto

lemma coded_last:
  assumes "coded Scan fn L \<rho> st p ss q" and "ss = [] \<or> \<not> is_block (last ss)"
  shows "q = p \<or> (\<exists>q'. q = Suc q' \<and> passable fn p q')"
proof (cases "ss = []")
  case False
  then have "coded Scan fn L \<rho> st p (butlast ss @ [last ss]) q" using assms(1) by simp
  from coded_append [OF this] obtain m where m: "coded Scan fn L \<rho> st p (butlast ss) m" "coded Scan fn L \<rho> st m [last ss] q" by blast
  have "\<forall>vars recs body l lp c. last ss \<noteq> Block vars recs body l lp c" using assms(2) False by (auto simp: is_block_def)
  then have "q = Suc m" using coded_leaf [OF m(2)] by blast
  then show ?thesis using coded_passable [OF m(1)] by blast
qed (use assms(1) in simp)

lemma branch_coded:
  assumes code: "coded Scan fn L \<rho> st p (if_stmts S g ((c, ss) # bs) es) q" and size: "int q = int p + S - g"
    and vars: "ListVariables st = ListVariables st0" and op: "simple_op Scan st0 0 (If c 2 False) = Inr op"
  shows "\<exists>m. placed fn p [op\<lparr>op_Index := int p + 2\<rparr>] \<and> op_Code op = OpCode_If \<and> placed fn (Suc p) [goto_op (int (Suc m))] \<and> coded Scan fn L \<rho> st (p + 2) ss m \<and>
     placed fn m [goto_op (int q)] \<and> coded Scan fn L \<rho> st (Suc m) (if_stmts S (g + 3 + OperationSizeForStatements ss) bs es) q \<and>
     int q = int (Suc m) + S - (g + 3 + OperationSizeForStatements ss)"
proof -
  let ?n = "OperationSizeForStatements ss"
  obtain a b m d where i: "coded Scan fn L \<rho> st p [If c 2 False] a" and j: "coded Scan fn L \<rho> st a [jump (?n + 2)] b" and t: "coded Scan fn L \<rho> st b ss m"
    and x: "coded Scan fn L \<rho> st m [jump (S - (g + 2 + ?n))] d" and r: "coded Scan fn L \<rho> st d (if_stmts S (g + 3 + ?n) bs es) q"
    using code unfolding if_stmts.simps by (metis coded_append append_Cons append_Nil)
  have i': "placed fn p [op\<lparr>op_Index := int p + 2\<rparr>]" "a = Suc p" "op_Code op = OpCode_If" using coded_if [OF i vars op] by simp_all
  have b: "b = Suc a" "d = Suc m" using coded_jump [OF j] coded_jump [OF x] by simp_all
  have m: "int m = int b + ?n" using coded_size [OF t] .
  have "placed fn (Suc p) [goto_op (int (Suc m))]" using coded_jump [OF j] m b i'(2) by (simp add: algebra_simps)
  moreover have "int m + (S - (g + 2 + ?n)) = int q" using m b i'(2) size by simp
  then have "placed fn m [goto_op (int q)]" using coded_jump [OF x] by (simp only:)
  moreover have "int q = int (Suc m) + S - (g + 3 + ?n)" using m b i'(2) size by simp
  moreover have "coded Scan fn L \<rho> st (p + 2) ss m" using t b i'(2) by simp
  ultimately show ?thesis using i' b(2) r by blast
qed

lemma sim_else: "sim_list Scan fn st0 dm els \<sigma> out \<sigma>' \<Longrightarrow> sim_chain Scan fn st0 dm [] els \<sigma> out \<sigma>'"
  unfolding sim_chain_def using sim_listD by fastforce

lemma strict_mono: "strict L p \<Longrightarrow> p \<le> p' \<Longrightarrow> strict L p'"
  by (fastforce simp: strict_def)

lemma sim_branch:
  assumes op: "simple_op Scan st0 0 (If c 2 False) = Inr op" and test: "eval_if fn op \<sigma> = Inr (True, \<sigma>1)" and body: "sim_list Scan fn st0 dm thn \<sigma>1 out \<sigma>'"
  shows "sim_chain Scan fn st0 dm ((c, thn) # bs) els \<sigma> out \<sigma>'"
  unfolding sim_chain_def
proof (intro allI impI)
  fix E st L \<rho> p q bs' es S g r
  assume conv: "convert_branches dm ((c, thn) # bs) = Inr bs'" "jsonConvertStatements dm els = Inr es" and fine: "bfines E ((c, thn) # bs)" and els: "els = [] \<or> \<not> scoped (last els)"
    and vars: "ListVariables st = ListVariables st0" and code: "coded Scan fn L \<rho> st p (if_stmts S g bs' es) q" and size: "int q = int p + S - g"
    and fits: "fits fn L \<rho> p q" and st: "strict L p" and out: "proceeds fn L \<rho> (GetCurrentLabel st) p q out \<sigma>' r"
  obtain ss bs'' where ss: "jsonConvertStatements dm thn = Inr ss" and bs': "bs' = (c, ss) # bs''" using conv(1) by (auto split: sum.splits)
  obtain m where i: "placed fn p [op\<lparr>op_Index := int p + 2\<rparr>]" "op_Code op = OpCode_If" and t: "coded Scan fn L \<rho> st (p + 2) ss m" and x: "placed fn m [goto_op (int q)]"
    and j: "placed fn (Suc p) [goto_op (int (Suc m))]" and rest: "coded Scan fn L \<rho> st (Suc m) (if_stmts S (g + 3 + OperationSizeForStatements ss) bs'' es) q"
    using branch_coded [OF code [unfolded bs'] size vars op] by blast
  have room: "q \<le> length (GetStatements fn)" using coded_room [OF rest] .
  have behind: "q = Suc m \<or> (\<exists>q'. q = Suc q' \<and> passable fn (Suc m) q')" using coded_last [OF rest if_last] unscoped_last [OF conv(2) els] by blast
  have "runs fn m \<sigma>' r" if "runs fn q \<sigma>' r" 
    using behind
  proof (elim disjE exE conjE)
    assume "q = Suc m"
    then show ?thesis using jump_runs [OF x _ room that] by simp
  next
    fix q' assume "q = Suc q'" "passable fn (Suc m) q'"
    then show ?thesis using jump_over [of fn m q' \<sigma>' r] x room that by simp
  qed
  moreover have "passable fn p (p + 2)" using passable_op [OF i(1)] i(2) goto_passable [OF j] passable_trans by (fastforce simp: numeral_2_eq_2)
  moreover have "passable fn m q" using goto_passable [OF x] coded_passable [OF rest] passable_trans by blast
  ultimately have "proceeds fn L \<rho> (GetCurrentLabel st) (p + 2) m out \<sigma>' r" using proceeds_inner [OF out _ _ fits] out by (cases "out = Normal") auto
  moreover have "m \<le> q" using passable_le [OF coded_passable [OF rest]] by simp
  ultimately have "runs fn (p + 2) \<sigma>1 r"
    using fine strict_mono [OF st] fits_mono [OF fits] by (intro sim_listD [where E = E, OF body ss _ vars t]) simp_all
  then show "runs fn p \<sigma> r" using runs_if(1) [OF i(1)] i(2) test by simp
qed

lemma sim_no_branch:
  assumes op: "simple_op Scan st0 0 (If c 2 False) = Inr op" and test: "eval_if fn op \<sigma> = Inr (False, \<sigma>1)" and chain: "sim_chain Scan fn st0 dm bs els \<sigma>1 out \<sigma>'"
  shows "sim_chain Scan fn st0 dm ((c, thn) # bs) els \<sigma> out \<sigma>'"
  unfolding sim_chain_def
proof (intro allI impI)
  fix E st L \<rho> p q bs' es S g r
  assume conv: "convert_branches dm ((c, thn) # bs) = Inr bs'" "jsonConvertStatements dm els = Inr es" and fine: "bfines E ((c, thn) # bs)" "jfines E els"
    and els: "els = [] \<or> \<not> scoped (last els)"
    and vars: "ListVariables st = ListVariables st0" and code: "coded Scan fn L \<rho> st p (if_stmts S g bs' es) q" and size: "int q = int p + S - g"
    and fits: "fits fn L \<rho> p q" and st: "strict L p" and out: "proceeds fn L \<rho> (GetCurrentLabel st) p q out \<sigma>' r"
  obtain ss bs'' where bs: "convert_branches dm bs = Inr bs''" and bs': "bs' = (c, ss) # bs''" using conv(1) by (auto split: sum.splits)
  obtain m where i: "placed fn p [op\<lparr>op_Index := int p + 2\<rparr>]" "op_Code op = OpCode_If" and t: "coded Scan fn L \<rho> st (p + 2) ss m" and x: "placed fn m [goto_op (int q)]"
    and j: "placed fn (Suc p) [goto_op (int (Suc m))]" and rest: "coded Scan fn L \<rho> st (Suc m) (if_stmts S (g + 3 + OperationSizeForStatements ss) bs'' es) q"
    and size': "int q = int (Suc m) + S - (g + 3 + OperationSizeForStatements ss)"
    using branch_coded [OF code [unfolded bs'] size vars op] by blast
  have pass: "passable fn p (p + 2)" "passable fn (p + 2) m" "passable fn m (Suc m)"
    using passable_op [OF i(1)] i(2) goto_passable [OF j] passable_trans goto_passable [OF x] coded_passable [OF t] by (fastforce simp: numeral_2_eq_2)+
  have room: "q \<le> length (GetStatements fn)" "Suc m \<le> q" using coded_room [OF rest] passable_le [OF coded_passable [OF rest]] by simp_all
  have pm: "passable fn p (Suc m)" using pass passable_trans by blast
  have "proceeds fn L \<rho> (GetCurrentLabel st) (Suc m) q out \<sigma>' r" using proceeds_inner [OF out pm _ fits] out room by (cases "out = Normal") simp_all
  then have "runs fn (Suc m) \<sigma>1 r"
    using chain [unfolded sim_chain_def, rule_format, OF bs conv(2) _ fine(2) els vars rest size'] fine(1) strict_mono [OF st passable_le [OF pm]] fits_mono [OF fits passable_le [OF pm] order_refl] by simp
  then have "runs fn (Suc p) \<sigma>1 r" using jump_over [OF j] pass(2) room by simp
  then show "runs fn p \<sigma> r" using runs_if(1) [OF i(1), of \<sigma> False] i(2) test by simp
qed

lemma sim_branch_fails:
  assumes op: "simple_op Scan st0 0 (If c 2 False) = Inr op" and test: "eval_if fn op \<sigma> = Inl (err, \<sigma>')"
  shows "sim_chain Scan fn st0 dm ((c, thn) # bs) els \<sigma> (Fail err) \<sigma>'"
  unfolding sim_chain_def
proof (intro allI impI)
  fix E st L \<rho> p q bs' es S g r
  assume conv: "convert_branches dm ((c, thn) # bs) = Inr bs'" and vars: "ListVariables st = ListVariables st0"
    and code: "coded Scan fn L \<rho> st p (if_stmts S g bs' es) q" and size: "int q = int p + S - g" and out: "proceeds fn L \<rho> (GetCurrentLabel st) p q (Fail err) \<sigma>' r"
  obtain ss bs'' where bs': "bs' = (c, ss) # bs''" using conv by (auto split: sum.splits)
  have "placed fn p [op\<lparr>op_Index := int p + 2\<rparr>]" "op_Code op = OpCode_If" using branch_coded [OF code [unfolded bs'] size vars op] by blast+
  then show "runs fn p \<sigma> r" using runs_if(2) [of fn p _ "[]" \<sigma> err \<sigma>'] test out by simp
qed

lemma sim_if:
  assumes chain: "sim_chain Scan fn st0 dm ((c, thn) # elsifs) els (enter \<sigma>) out \<sigma>1" and depth: "stays out \<Longrightarrow> depth \<sigma>1 = depth (enter \<sigma>)" and leave: "leave out \<sigma>1 = (out', \<sigma>')"
  shows "sim_stmt Scan fn st0 dm (J_if c thn elsifs els) \<sigma> out' \<sigma>'"
  unfolding sim_stmt_def
proof (intro allI impI)
  fix E st L \<rho> p q s r
  assume s: "jsonConvertStatement dm (J_if c thn elsifs els) = Inr s" and fine: "jfine E (J_if c thn elsifs els)" and vars: "ListVariables st = ListVariables st0"
    and code: "coded Scan fn L \<rho> st p [s] q" and fits: "fits fn L \<rho> p q" and out: "proceeds fn L \<rho> (GetCurrentLabel st) p q out' \<sigma>' r"
  obtain bs e where bs: "convert_branches dm ((c, thn) # elsifs) = Inr bs" and e: "jsonConvertStatements dm els = Inr e"
    and s': "s = plain_block (if_stmts (branches_size bs + OperationSizeForStatements e) 0 bs e) [] False 0" using s converted_if by metis
  have "bfines E ((c, thn) # elsifs)" "jfines E els" "els = [] \<or> \<not> scoped (last els)" using fine by simp_all
  note chain' = chain [unfolded sim_chain_def, rule_format, OF bs e this]
  show "runs fn p \<sigma> r"
  proof (rule scope_runs [OF code [unfolded s'] fits leave out depth])
    fix l' m
    let ?L = "scope_item [] False 0 p # L" and ?st = "SetLabel [] (PushScope st)" and ?S = "branches_size bs + OperationSizeForStatements e"
    assume "scope_label_ok [] False l'" "coded Scan fn (scope_item l' False 0 p # L) (bind_exit l' (int m) \<rho>) (SetLabel l' (PushScope st)) (Suc p) (if_stmts ?S 0 bs e) m"
    then have c: "coded Scan fn ?L \<rho> ?st (Suc p) (if_stmts ?S 0 bs e) m" by simp
    assume "fits fn L \<rho> (Suc p) m" and "strict L (Suc p)" and "proceeds fn L \<rho> (GetCurrentLabel st) (Suc p) m out \<sigma>1 r"
    then show "runs fn (Suc p) (enter \<sigma>) r" using chain' [OF _ c] coded_size [OF c] vars by (simp add: if_stmts_size)
  qed
qed

section \<open>Loops\<close>

lemma sim_loopD:
  "sim_loop Scan fn st0 dm k l body \<sigma> out \<sigma>' \<Longrightarrow> in_loop Scan fn st0 dm k l body L \<rho> p tp qb \<Longrightarrow> proceeds fn L \<rho> lab (Suc p) (Suc qb) out \<sigma>' r \<Longrightarrow> runs fn tp \<sigma> r"
  unfolding sim_loop_def by blast

lemma fits_loop:
  assumes "fits fn L \<rho> p (Suc qb)" and "loop_code fn k p tp np pb qb" and "ls_start item = int np"
  shows "fits fn (item # L) (bind_exit (ls_label item) (int (Suc qb)) \<rho>) pb qb" and "np < pb \<Longrightarrow> strict (item # L) pb"
proof -
  have pb: "Suc p \<le> np" "np \<le> pb" "Suc qb \<le> length (GetStatements fn)" using assms(2) passable_le by (fastforce simp: loop_code_def)+
  have "fits fn L \<rho> pb qb" using fits_mono [OF assms(1)] pb by simp
  then show "fits fn (item # L) (bind_exit (ls_label item) (int (Suc qb)) \<rho>) pb qb"
    using assms(3) pb by (auto simp: fits_def bind_exit_def)
  show "np < pb \<Longrightarrow> strict (item # L) pb" using strict_behind [OF assms(1), of pb] pb assms(3) by (auto simp: strict_def)
qed

text \<open>One round: from the test through the body. It goes on at \<open>np\<close>, or the loop is left.\<close>

lemma round_runs:
  assumes loop: "in_loop Scan fn st0 dm k l body L \<rho> p tp qb" and test: "loop_test fn k \<sigma> = Inr (True, \<sigma>1)" and body: "sim_list Scan fn st0 dm body \<sigma>1 out \<sigma>2"
  shows "resumes l out \<Longrightarrow> op_ends (loop_next fn k \<sigma>2) = (out', \<sigma>3) \<Longrightarrow> proceeds fn [] Map.empty [] 0 tp out' \<sigma>3 r \<Longrightarrow> runs fn tp \<sigma> r"
    and "\<not> resumes l out \<Longrightarrow> proceeds fn L \<rho> lab (Suc p) (Suc qb) (escape l out) \<sigma>2 r \<Longrightarrow> runs fn tp \<sigma> r"
proof -
  obtain E st np pb item bs where conv: "jsonConvertStatements dm body = Inr bs" "jfines E body" and vars: "ListVariables st = ListVariables st0"
    and code: "loop_code fn k p tp np pb qb" "coded Scan fn (item # L) (bind_exit (ls_label item) (int (Suc qb)) \<rho>) st pb bs qb" and fits: "fits fn L \<rho> p (Suc qb)"
    and item: "GetCurrentLabel st = ls_label item" "ls_start item = int np" and label: "scope_label_ok l True (ls_label item)" "l = [] \<or> source_label l"
    and first: "body \<noteq> [] \<and> plain_continue (hd body) \<longrightarrow> np < pb"
    using loop unfolding in_loop_def by metis
  have go: "runs fn tp \<sigma> r" if "proceeds fn (item # L) (bind_exit (ls_label item) (int (Suc qb)) \<rho>) (ls_label item) pb qb out \<sigma>2 r" for r
  proof -
    have "runs fn pb \<sigma>1 r"
      by (rule sim_listD [OF body conv vars code(2)]) (use that fits_loop [OF fits code(1) item(2)] first item in simp_all)
    then show ?thesis using code(1) test unfolding loop_code_def by blast
  qed
  show "runs fn tp \<sigma> r" if "resumes l out" "op_ends (loop_next fn k \<sigma>2) = (out', \<sigma>3)" "proceeds fn [] Map.empty [] 0 tp out' \<sigma>3 r"
  proof -
    have "runs fn np \<sigma>2 r" using code(1) that(2,3) unfolding loop_code_def by blast
    then show ?thesis by (intro go body_resumes [OF code(1) coded_passable [OF code(2)] _ item(2) label that(1)]) simp_all
  qed
  show "runs fn tp \<sigma> r" if "\<not> resumes l out" "proceeds fn L \<rho> lab (Suc p) (Suc qb) (escape l out) \<sigma>2 r"
    using fits_mono [OF fits, of "Suc p"] by (intro go body_leaves [OF code(1) _ _ label that]) simp_all
qed

lemma sim_stop: "loop_test fn k \<sigma> = Inr (False, \<sigma>') \<Longrightarrow> sim_loop Scan fn st0 dm k l body \<sigma> Normal \<sigma>'"
  by (auto simp: sim_loop_def in_loop_def loop_code_def)

lemma sim_test_fails: "loop_test fn k \<sigma> = Inl (err, \<sigma>') \<Longrightarrow> sim_loop Scan fn st0 dm k l body \<sigma> (Fail err) \<sigma>'"
  by (auto simp: sim_loop_def in_loop_def loop_code_def)

lemma sim_again:
  assumes "loop_test fn k \<sigma> = Inr (True, \<sigma>1)" and "sim_list Scan fn st0 dm body \<sigma>1 out \<sigma>2" and "resumes l out"
    and "op_ends (loop_next fn k \<sigma>2) = (Normal, \<sigma>3)" and "sim_loop Scan fn st0 dm k l body \<sigma>3 out' \<sigma>'"
  shows "sim_loop Scan fn st0 dm k l body \<sigma> out' \<sigma>'"
  using assms(5) round_runs(1) [OF _ assms(1-4)] unfolding sim_loop_def by simp

lemma sim_next_fails:
  assumes "loop_test fn k \<sigma> = Inr (True, \<sigma>1)" and "sim_list Scan fn st0 dm body \<sigma>1 out \<sigma>2" and "resumes l out"
    and "op_ends (loop_next fn k \<sigma>2) = (out', \<sigma>')" and "out' \<noteq> Normal"
  shows "sim_loop Scan fn st0 dm k l body \<sigma> out' \<sigma>'"
  unfolding sim_loop_def using round_runs(1) [OF _ assms(1-4)] op_ends_cases [OF assms(4)] assms(5) by auto

lemma sim_left:
  assumes "loop_test fn k \<sigma> = Inr (True, \<sigma>1)" and "sim_list Scan fn st0 dm body \<sigma>1 out \<sigma>'" and "\<not> resumes l out"
  shows "sim_loop Scan fn st0 dm k l body \<sigma> (escape l out) \<sigma>'"
  using round_runs(2) [OF _ assms] unfolding sim_loop_def by blast

text \<open>What the scope of a loop needs of its inside, once the code is taken apart.\<close>

lemma loop_scope [simp]: "scope_label_ok l True ll \<Longrightarrow> GetCurrentLabel (SetLabel ll (PushScope st)) = ll" "ls_label (scope_item ll lp c n) = ll"
  by (auto simp: scope_label_ok_def scope_item_def split: if_splits)

lemma in_loop_intro:
  assumes "scope_label_ok l True ll" and "coded Scan fn (scope_item ll True c p # L) (bind_exit ll (int (Suc qb)) \<rho>) (SetLabel ll (PushScope st)) pb bs qb"
    and "loop_code fn k p tp np pb qb" and "int np = int p + (1 + c)" and "jsonConvertStatements dm body = Inr bs" and "loop_label E l" and "jfines (inner l E) body"
    and "ListVariables st = ListVariables st0" and "fits fn L \<rho> p (Suc (Suc qb))" and "body \<noteq> [] \<and> plain_continue (hd body) \<longrightarrow> np < pb"
  shows "in_loop Scan fn st0 dm k l body L \<rho> p tp qb"
proof -
  have "ls_start (scope_item ll True c p) = int np" using assms(4) by (simp add: scope_item_def)
  moreover have "fits fn L \<rho> p (Suc qb)" using fits_mono [OF assms(9)] by simp
  ultimately show ?thesis
    unfolding in_loop_def using assms(1-3,5-8,10) loop_scope(1) [OF assms(1), of st] labelled_scope(1) [of ll st]
    by (intro exI [of _ "inner l E"] exI [of _ "SetLabel ll (PushScope st)"] exI [of _ np] exI [of _ pb] exI [of _ "scope_item ll True c p"] exI [of _ ll] exI [of _ bs])
      (auto simp: loop_label_def)
qed

lemma sim_while:
  assumes op: "simple_op Scan st0 0 (If c 2 False) = Inr op" and loop: "sim_loop Scan fn st0 dm (WhileLoop op) l body (enter \<sigma>) out \<sigma>1"
    and depth: "stays out \<Longrightarrow> depth \<sigma>1 = depth (enter \<sigma>)" and leave: "leave out \<sigma>1 = (out', \<sigma>')"
  shows "sim_stmt Scan fn st0 dm (J_while c body l) \<sigma> out' \<sigma>'"
  unfolding sim_stmt_def
proof (intro allI impI)
  fix E st L \<rho> p q s r
  assume s: "jsonConvertStatement dm (J_while c body l) = Inr s" and fine: "jfine E (J_while c body l)" and vars: "ListVariables st = ListVariables st0"
    and code: "coded Scan fn L \<rho> st p [s] q" and fits: "fits fn L \<rho> p q" and out: "proceeds fn L \<rho> (GetCurrentLabel st) p q out' \<sigma>' r"
  obtain b where b: "jsonConvertStatements dm body = Inr b" and s': "s = while_block l c b" using s by (auto split: sum.splits)
  show "runs fn p \<sigma> r"
  proof (rule scope_runs [OF code [unfolded s' while_block_def Let_def] fits leave out depth])
    fix ll m
    assume ll: "scope_label_ok l True ll" and q: "q = Suc m" and p: "proceeds fn L \<rho> (GetCurrentLabel st) (Suc p) m out \<sigma>1 r"
      and c: "coded Scan fn (scope_item ll True 0 p # L) (bind_exit ll (int m) \<rho>) (SetLabel ll (PushScope st)) (Suc p)
        ([If c 2 False, jump (1 + OperationSizeForStatements b + 1)] @ b @ [jump (- (OperationSizeForStatements b + 2))]) m"
    obtain pb qb where m: "Suc p < pb" "m = Suc qb" "loop_code fn (WhileLoop op) p (Suc p) (Suc p) pb qb"
      and body: "coded Scan fn (scope_item ll True 0 p # L) (bind_exit ll (int m) \<rho>) (SetLabel ll (PushScope st)) pb b qb"
      using while_coded [OF c op] vars by auto
    have "in_loop Scan fn st0 dm (WhileLoop op) l body L \<rho> p (Suc p) qb"
      by (rule in_loop_intro [where E = E, OF ll body [unfolded m(2)] m(3) _ b]) (use fine vars fits q m in simp_all)
    then show "runs fn (Suc p) (enter \<sigma>) r" using loop p m(2) unfolding sim_loop_def by blast
  qed
qed

lemma sim_loop_stmt:
  assumes loop: "sim_loop Scan fn st0 dm Forever l body (enter \<sigma>) out \<sigma>1"
    and depth: "stays out \<Longrightarrow> depth \<sigma>1 = depth (enter \<sigma>)" and leave: "leave out \<sigma>1 = (out', \<sigma>')"
  shows "sim_stmt Scan fn st0 dm (J_loop body l) \<sigma> out' \<sigma>'"
  unfolding sim_stmt_def
proof (intro allI impI)
  fix E st L \<rho> p q s r
  assume s: "jsonConvertStatement dm (J_loop body l) = Inr s" and fine: "jfine E (J_loop body l)" and vars: "ListVariables st = ListVariables st0"
    and code: "coded Scan fn L \<rho> st p [s] q" and fits: "fits fn L \<rho> p q" and out: "proceeds fn L \<rho> (GetCurrentLabel st) p q out' \<sigma>' r"
  obtain b where b: "jsonConvertStatements dm body = Inr b" and s': "s = loop_block l b" using s by (auto split: sum.splits)
  have "b \<noteq> []" using b fine by (cases body) (auto split: sum.splits)
  then have size: "0 < OperationSizeForStatements b" using size_pos(1) [of "hd b"] size_pos(2) [of "tl b"] by (cases b) simp_all
  show "runs fn p \<sigma> r"
  proof (rule scope_runs [OF code [unfolded s' loop_block_def Let_def] fits leave out depth])
    fix ll m
    assume ll: "scope_label_ok l True ll" and q: "q = Suc m" and p: "proceeds fn L \<rho> (GetCurrentLabel st) (Suc p) m out \<sigma>1 r"
      and c: "coded Scan fn (scope_item ll True 0 p # L) (bind_exit ll (int m) \<rho>) (SetLabel ll (PushScope st)) (Suc p) (b @ [jump (- OperationSizeForStatements b)]) m"
    obtain qb where m: "m = Suc qb" "loop_code fn Forever p (Suc p) (Suc p) (Suc p) qb"
      and body: "coded Scan fn (scope_item ll True 0 p # L) (bind_exit ll (int m) \<rho>) (SetLabel ll (PushScope st)) (Suc p) b qb"
      using loop_coded [OF c size] by auto
    have "in_loop Scan fn st0 dm Forever l body L \<rho> p (Suc p) qb"
      by (rule in_loop_intro [where E = E, OF ll body [unfolded m(1)] m(2) _ b]) (use fine vars fits q m in simp_all)
    then show "runs fn (Suc p) (enter \<sigma>) r" using loop p m(1) unfolding sim_loop_def by blast
  qed
qed

lemma sim_fori:
  assumes op0: "simple_op Scan st0 0 (Assignment v (bound_expr lower)) = Inr op0" and op1: "simple_op Scan st0 0 (Assignment v (fori_increment v stp rv)) = Inr op1"
    and op2: "simple_op Scan st0 0 (If (fori_condition v upper rv) 2 True) = Inr op2" and init: "op_ends (run_operation fn 0 op0 (enter \<sigma>)) = (out0, \<sigma>0)"
    and loop: "out0 = Normal \<Longrightarrow> sim_loop Scan fn st0 dm (ForI op1 op2) l body \<sigma>0 out \<sigma>1" and other: "out0 \<noteq> Normal \<Longrightarrow> out = out0 \<and> \<sigma>1 = \<sigma>0"
    and depth: "stays out \<Longrightarrow> depth \<sigma>1 = depth (enter \<sigma>)" and leave: "leave out \<sigma>1 = (out', \<sigma>')"
  shows "sim_stmt Scan fn st0 dm (J_fori l (D_var v ty ln df) lower upper stp rv body) \<sigma> out' \<sigma>'"
  unfolding sim_stmt_def
proof (intro allI impI)
  fix E st L \<rho> p q s r
  assume s: "jsonConvertStatement dm (J_fori l (D_var v ty ln df) lower upper stp rv body) = Inr s" and fine: "jfine E (J_fori l (D_var v ty ln df) lower upper stp rv body)"
    and vars: "ListVariables st = ListVariables st0"
    and code: "coded Scan fn L \<rho> st p [s] q" and fits: "fits fn L \<rho> p q" and out: "proceeds fn L \<rho> (GetCurrentLabel st) p q out' \<sigma>' r"
  obtain b where b: "jsonConvertStatements dm body = Inr b" and s': "s = fori_block l v lower upper stp rv b" using s by (auto split: sum.splits)
  show "runs fn p \<sigma> r"
  proof (rule scope_runs [OF code [unfolded s' fori_block_def Let_def] fits leave out depth])
    fix ll m
    assume ll: "scope_label_ok l True ll" and q: "q = Suc m" and p: "proceeds fn L \<rho> (GetCurrentLabel st) (Suc p) m out \<sigma>1 r"
      and c: "coded Scan fn (scope_item ll True 2 p # L) (bind_exit ll (int m) \<rho>) (SetLabel ll (PushScope st)) (Suc p)
        ([Assignment v (bound_expr lower), jump 2, Assignment v (fori_increment v stp rv), If (fori_condition v upper rv) 2 True, jump (2 + OperationSizeForStatements b)] @ b @
          [jump (- (3 + OperationSizeForStatements b))]) m"
    obtain tp np pb qb where m: "np = p + 3" "np < pb" "m = Suc qb" "loop_code fn (ForI op1 op2) p tp np pb qb"
      and body: "coded Scan fn (scope_item ll True 2 p # L) (bind_exit ll (int m) \<rho>) (SetLabel ll (PushScope st)) pb b qb"
      and i: "placed fn (Suc p) [op0]" "op_Code op0 \<notin> {OpCode_Goto, OpCode_If, OpCode_ForQueryNext}" "\<And>s r. runs fn tp s r \<Longrightarrow> runs fn (Suc (Suc p)) s r"
      using fori_coded [OF c op0 op1 op2] vars by auto
    have "in_loop Scan fn st0 dm (ForI op1 op2) l body L \<rho> p tp qb"
      by (rule in_loop_intro [where E = E, OF ll body [unfolded m(3)] m(4) _ b]) (use fine vars fits q m in simp_all)
    then have "proceeds fn L \<rho> (GetCurrentLabel st) (Suc p) (Suc (Suc p)) out0 \<sigma>0 r"
      using sim_loopD [OF loop, of L \<rho> p _ qb "GetCurrentLabel st" r] other p m(3) i(3) op_ends_cases [OF init] by (cases "out0 = Normal") auto
    then show "runs fn (Suc p) (enter \<sigma>) r" by (rule runs_simple [OF i(1,2) init])
  qed
qed

lemma sim_fors:
  assumes d: "fors_variable d = Some v" and op0: "simple_op Scan st0 0 (ForQueryInit (cursor_name v ln) qu) = Inr op0"
    and op1: "simple_op Scan st0 0 (ForQueryNext (cursor_name v ln) v 0) = Inr op1" and init: "op_ends (run_operation fn 0 op0 (enter \<sigma>)) = (out0, \<sigma>0)"
    and loop: "out0 = Normal \<Longrightarrow> sim_loop Scan fn st0 dm (ForS op1) l body \<sigma>0 out \<sigma>1" and other: "out0 \<noteq> Normal \<Longrightarrow> out = out0 \<and> \<sigma>1 = \<sigma>0"
    and depth: "stays out \<Longrightarrow> depth \<sigma>1 = depth (enter \<sigma>)" and leave: "leave out \<sigma>1 = (out', \<sigma>')"
  shows "sim_stmt Scan fn st0 dm (J_fors l d body (Some qu) ln) \<sigma> out' \<sigma>'"
  unfolding sim_stmt_def
proof (intro allI impI)
  fix E st L \<rho> p q s r
  assume s: "jsonConvertStatement dm (J_fors l d body (Some qu) ln) = Inr s" and fine: "jfine E (J_fors l d body (Some qu) ln)" and vars: "ListVariables st = ListVariables st0"
    and code: "coded Scan fn L \<rho> st p [s] q" and fits: "fits fn L \<rho> p q" and out: "proceeds fn L \<rho> (GetCurrentLabel st) p q out' \<sigma>' r"
  obtain b where b: "jsonConvertStatements dm body = Inr b" and s': "s = fors_block l v qu ln b" using s d by (auto split: sum.splits)
  show "runs fn p \<sigma> r"
  proof (rule scope_runs [OF code [unfolded s' fors_block_def Let_def] fits leave out depth])
    fix ll m
    assume ll: "scope_label_ok l True ll" and q: "q = Suc m" and p: "proceeds fn L \<rho> (GetCurrentLabel st) (Suc p) m out \<sigma>1 r"
      and c: "coded Scan fn (scope_item ll True 1 p # L) (bind_exit ll (int m) \<rho>) (SetLabel ll (PushScope st)) (Suc p)
        ([ForQueryInit (cursor_name v ln) qu, ForQueryNext (cursor_name v ln) v (OperationSizeForStatements b + 2)] @ b @ [jump (- (1 + OperationSizeForStatements b))]) m"
    obtain pb qb where m: "Suc (Suc p) < pb" "m = Suc qb" "loop_code fn (ForS op1) p (Suc (Suc p)) (Suc (Suc p)) pb qb"
      and body: "coded Scan fn (scope_item ll True 1 p # L) (bind_exit ll (int m) \<rho>) (SetLabel ll (PushScope st)) pb b qb"
      and i: "placed fn (Suc p) [op0]" "op_Code op0 \<notin> {OpCode_Goto, OpCode_If, OpCode_ForQueryNext}"
      using fors_coded [OF c op0 op1] vars by auto
    have "in_loop Scan fn st0 dm (ForS op1) l body L \<rho> p (Suc (Suc p)) qb"
      by (rule in_loop_intro [where E = E, OF ll body [unfolded m(2)] m(3) _ b]) (use fine vars fits q m in simp_all)
    then have "proceeds fn L \<rho> (GetCurrentLabel st) (Suc p) (Suc (Suc p)) out0 \<sigma>0 r"
      using sim_loopD [OF loop, of L \<rho> p _ qb "GetCurrentLabel st" r] other p m(2) op_ends_cases [OF init] by (cases "out0 = Normal") auto
    then show "runs fn (Suc p) (enter \<sigma>) r" by (rule runs_simple [OF i(1,2) init])
  qed
qed

section \<open>The code simulates the statements\<close>

lemma leave_not_staying: "op_ends x = (out, \<sigma>) \<Longrightarrow> out \<noteq> Normal \<Longrightarrow> leave out \<sigma>' = (out, \<sigma>')"
  using op_ends_cases [of x out \<sigma>] by auto

lemma code_simulates:
  "sem fn (simple_op Scan st0 0) dm j \<sigma> out \<sigma>' \<Longrightarrow> sim_stmt Scan fn st0 dm j \<sigma> out \<sigma>'"
  "sems fn (simple_op Scan st0 0) dm js \<sigma> out \<sigma>' \<Longrightarrow> sim_list Scan fn st0 dm js \<sigma> out \<sigma>'"
  "chain fn (simple_op Scan st0 0) dm bs els \<sigma> out \<sigma>' \<Longrightarrow> sim_chain Scan fn st0 dm bs els \<sigma> out \<sigma>'"
  "rounds fn (simple_op Scan st0 0) dm k l body \<sigma> out \<sigma>' \<Longrightarrow> sim_loop Scan fn st0 dm k l body \<sigma> out \<sigma>'"
proof (induct rule: sem_sems_chain_rounds.inducts)
  case (simple j s op \<sigma> out \<sigma>')
  then show ?case by (rule sim_simple)
next
  case (block body \<sigma> out \<sigma>1 out' \<sigma>')
  then show ?case using sem_depth(2) by (intro sim_block [of Scan fn st0 dm body \<sigma> out \<sigma>1])
next
  case (if_stmt c thn elsifs els \<sigma> out \<sigma>1 out' \<sigma>')
  then show ?case using sem_depth(3) by (intro sim_if [of Scan fn st0 dm c thn elsifs els \<sigma> out \<sigma>1])
next
  case (exit_when c op \<sigma> b \<sigma>1 is_exit l out \<sigma>')
  then show ?case by (rule sim_exit_when)
next
  case (loop l body \<sigma> out \<sigma>1 out' \<sigma>')
  then show ?case using sem_depth(4) [OF loop.hyps(1)] by (intro sim_loop_stmt [of Scan fn st0 dm l body \<sigma> out \<sigma>1]) auto
next
  case (while_loop c op l body \<sigma> out \<sigma>1 out' \<sigma>')
  then show ?case using sem_depth(4) [OF while_loop.hyps(2)] by (intro sim_while [of Scan st0 c op fn dm l body \<sigma> out \<sigma>1]) auto
next
  case (fori v lower op0 stp rv op1 upper op2 \<sigma> \<sigma>0 l body out \<sigma>1 out' \<sigma>' ty ln df)
  have "depth \<sigma>1 = depth (enter \<sigma>)" if "stays out"
    using sem_depth(4) [OF fori.hyps(5)] that op_ends_depth [OF fori.hyps(4)] plain_code [OF fori.hyps(1)] plain_code [OF fori.hyps(2)] by simp
  then show ?case using fori by (intro sim_fori [OF fori.hyps(1,2,3,4)]) auto
next
  case (fori_fails v lower op0 stp rv op1 upper op2 \<sigma> out \<sigma>' l ty ln df body)
  show ?case by (rule sim_fori [OF fori_fails.hyps(1-4) _ _ _ leave_not_staying [OF fori_fails.hyps(4,5)]])
      (use fori_fails.hyps(5) op_ends_stays [OF fori_fails.hyps(4,5)] in simp_all)
next
  case (fors d v ln q op0 op1 \<sigma> \<sigma>0 l body out \<sigma>1 out' \<sigma>')
  have "depth \<sigma>1 = depth (enter \<sigma>)" if "stays out"
    using sem_depth(4) [OF fors.hyps(5)] that op_ends_depth [OF fors.hyps(4)] plain_code [OF fors.hyps(2)] by simp
  then show ?case using fors by (intro sim_fors [OF fors.hyps(1,2,3,4)]) auto
next
  case (fors_fails d v ln q op0 op1 \<sigma> out \<sigma>' l body)
  show ?case by (rule sim_fors [OF fors_fails.hyps(1-4) _ _ _ leave_not_staying [OF fors_fails.hyps(4,5)]])
      (use fors_fails.hyps(5) op_ends_stays [OF fors_fails.hyps(4,5)] in simp_all)
next
  case (again k \<sigma> \<sigma>1 body out \<sigma>2 l \<sigma>3 out' \<sigma>')
  then show ?case by (intro sim_again [OF again.hyps(1,3,4,5)])
next
  case (next_fails k \<sigma> \<sigma>1 body out \<sigma>2 l out' \<sigma>')
  then show ?case by (intro sim_next_fails [OF next_fails.hyps(1,3,4,5)])
qed (simp_all add: sim_exit_now sim_exit_fails sim_nothing sim_seq sim_seq_ends sim_else sim_branch sim_no_branch sim_branch_fails sim_stop sim_test_fails sim_left del: simple_op.simps)

end
