(* ===== verification/Plpgsql_Function.thy ===== *)
theory Plpgsql_Function
  imports Plpgsql_Correct
begin

text \<open>
  A whole function: what it means, and that the operations of \<open>ParseFunction\<close>, run by \<open>Call\<close>, return just that.
\<close>

section \<open>What a function means\<close>

text \<open>Its declarations in their order, up to one that fails.\<close>

fun run_decls :: "('v, 'w) ifunc \<Rightarrow> InterpreterOperation list \<Rightarrow> ('v, 'w) istate \<Rightarrow> 'v ending \<times> ('v, 'w) istate" where
  "run_decls fn [] s = (Normal, s)"
| "run_decls fn (op # ops) s = (case op_ends (run_operation fn 0 op s) of (out, s') \<Rightarrow> if out = Normal then run_decls fn ops s' else (out, s'))"

text \<open>The variables that its expressions may name.\<close>

definition declared_stack :: "DoltgresType \<Rightarrow> Variable list \<Rightarrow> RecordDecl list \<Rightarrow> gostring InterpreterStack" where
  "declared_stack tt vars recs = declare_records tt recs (declare_vars vars (SetLabel [] (PushScope NewInterpreterStack)))"

inductive function_sem :: "(gostring \<Rightarrow> token list option) \<Rightarrow> (gostring \<Rightarrow> bool) \<Rightarrow> DoltgresType \<Rightarrow> ('v, 'w) ifunc \<Rightarrow> plpgSQL_block \<Rightarrow>
    ('v, 'w) istate \<Rightarrow> 'v ending \<Rightarrow> ('v, 'w) istate \<Rightarrow> bool"
  for Scan :: "gostring \<Rightarrow> token list option" and dm :: "gostring \<Rightarrow> bool" and tt :: DoltgresType and fn :: "('v, 'w) ifunc" and jb :: plpgSQL_block where
  declaration_fails: "jsonConvert dm jb = Inr (Block vars recs body l lp c) \<Longrightarrow> run_decls fn (declare_ops vars @ record_ops recs) (enter \<sigma>) = (out, \<sigma>') \<Longrightarrow> out \<noteq> Normal \<Longrightarrow>
    function_sem Scan dm tt fn jb \<sigma> out \<sigma>'"
| body_runs: "jsonConvert dm jb = Inr (Block vars recs body l lp c) \<Longrightarrow> run_decls fn (declare_ops vars @ record_ops recs) (enter \<sigma>) = (Normal, \<sigma>0) \<Longrightarrow>
    sems fn (simple_op Scan (declared_stack tt vars recs) 0) dm (Action_Body jb) \<sigma>0 out \<sigma>1 \<Longrightarrow> leave out \<sigma>1 = (out', \<sigma>') \<Longrightarrow>
    function_sem Scan dm tt fn jb \<sigma> out' \<sigma>'"

text \<open>The result of a call; a function that ends without \<open>RETURN\<close> returns nothing.\<close>

fun result_of :: "'v ending \<Rightarrow> (plerror + 'v call_result) option" where
  "result_of Normal = Some (Inr (ReturnAny GoNil))"
| "result_of (Ret v) = Some (Inr v)"
| "result_of (Fail err) = Some (Inl err)"
| "result_of _ = None"

section \<open>Its declarations\<close>

lemma declaration_codes: "op \<in> set (declare_ops vars @ record_ops recs) \<Longrightarrow> op_Code op \<in> {OpCode_Declare, OpCode_DeclareRecord}"
  by (auto simp: declare_ops_def record_ops_def)

lemma decls_run:
  assumes "placed fn c ops" and "\<forall>op \<in> set ops. op_Code op \<in> {OpCode_Declare, OpCode_DeclareRecord}" and "run_decls fn ops s = (out, s')"
    and "proceeds fn L \<rho> lab p (c + length ops) out s' r"
  shows "runs fn c s r"
  using assms
proof (induction ops arbitrary: c s)
  case (Cons op ops)
  obtain out1 s1 where o: "op_ends (run_operation fn 0 op s) = (out1, s1)" by (cases "op_ends (run_operation fn 0 op s)")
  have "proceeds fn L \<rho> lab p (Suc c) out1 s1 r"
  proof (cases "out1 = Normal")
    case True
    then have "runs fn (Suc c) s1 r" using Cons.IH [of "Suc c" s1] Cons.prems o by simp
    then show ?thesis using True by simp
  next
    case False
    then show ?thesis using Cons.prems(3,4) o op_ends_cases [OF o] by auto
  qed
  moreover have "op_Code op \<notin> {OpCode_Goto, OpCode_If, OpCode_ForQueryNext}" using Cons.prems(2) by auto
  ultimately show ?case using runs_simple [OF Cons.prems(1) _ o] by blast
qed simp

lemma decls_depth:
  "run_decls fn ops s = (Normal, s') \<Longrightarrow> \<forall>op \<in> set ops. op_Code op \<in> {OpCode_Declare, OpCode_DeclareRecord} \<Longrightarrow> depth s' = depth s"
proof (induction ops arbitrary: s)
  case (Cons op ops)
  obtain out1 s1 where o: "op_ends (run_operation fn 0 op s) = (out1, s1)" by (cases "op_ends (run_operation fn 0 op s)")
  then have "out1 = Normal" "run_decls fn ops s1 = (Normal, s')" using Cons.prems(1) by (auto split: if_splits)
  then show ?case using Cons.IH [of s1] Cons.prems(2) op_ends_depth [OF o] by auto
qed simp

lemma declare_labels:
  "map scope_label (scopes (declare_variable n iv st)) = map scope_label (scopes st)" "labelID (declare_variable n iv st) = labelID st"
  by (simp_all add: declare_variable_def update_top_def split: list.splits)

lemma fold_declare_labels:
  "map scope_label (scopes (fold (\<lambda>x. declare_variable (f x) (g x)) xs st)) = map scope_label (scopes st)"
  by (induction xs arbitrary: st) (simp_all add: declare_labels)

lemma declared_label: "GetCurrentLabel (declared_stack tt vars recs) = []"
proof -
  have "map scope_label (scopes (declared_stack tt vars recs)) = map scope_label (scopes (SetLabel [] (PushScope (NewInterpreterStack :: gostring InterpreterStack))))"
    unfolding declared_stack_def declare_records_def declare_vars_def NewRecord_def NewVariableWithValue_def fold_declare_labels ..
  then show ?thesis by (simp add: GetCurrentLabel_def SetLabel_def update_top_def PushScope_def NewInterpreterStack_def empty_scope_def)
qed

section \<open>Its code\<close>

lemma leaves_flat: "flats (map Leaf ops @ ts) = ops @ flats ts" "tsizes (map Leaf ops) = length ops" "trees_ok (map Leaf ops) \<longleftrightarrow> (\<forall>op \<in> set ops. op_Code op \<notin> {OpCode_ScopeBegin, OpCode_ScopeEnd})"
  by (induction ops) simp_all

lemma leaves_resolved: "\<forall>op \<in> set ops. op_Code op \<noteq> OpCode_Goto \<Longrightarrow> resolveds L \<rho> p (map Leaf ops) = ops"
  by (induction ops arbitrary: p) simp_all

lemma leaves_unshadowed: "\<forall>op \<in> set ops. op_Code op \<noteq> OpCode_Goto \<Longrightarrow> unshadoweds (map Leaf ops @ ts) \<longleftrightarrow> unshadoweds ts"
  by (induction ops) (auto simp: waits_def)

lemma parsed_function:
  assumes parse: "ParseFunction Scan dm tt jb = Inr ops" and fine: "jfines {} (Action_Body jb)" and label: "Action_Label jb = []"
  shows "\<exists>vars recs body ts. jsonConvert dm jb = Inr (Block vars recs body [] False 0) \<and> jsonConvertStatements dm (Action_Body jb) = Inr body \<and>
     shapes Scan (declared_stack tt vars recs) (Suc (length (declare_ops vars @ record_ops recs))) body ts \<and> trees_ok ts \<and> plains body \<and>
     ops = [new_op OpCode_ScopeBegin] @ (declare_ops vars @ record_ops recs) @
       resolveds [scope_item [] False 0 0] Map.empty (Suc (length (declare_ops vars @ record_ops recs))) ts @ [new_op OpCode_ScopeEnd]"
proof -
  obtain vars recs body where conv: "jsonConvert dm jb = Inr (Block vars recs body [] False 0)" "jsonConvertStatements dm (Action_Body jb) = Inr body"
    using parse label by (auto simp: ParseFunction_def jsonConvert_def Let_def split: sum.splits prod.splits option.splits)
  let ?ds = "declare_ops vars @ record_ops recs"
  have sf: "sfines {} body" using converted_fine(2) [OF conv(2) fine] .
  have pl: "plains body" using fine_plain(2) [OF sf] .
  have ds: "\<forall>op \<in> set ?ds. op_Code op \<notin> {OpCode_Goto, OpCode_ScopeBegin, OpCode_ScopeEnd}" using declaration_codes by fastforce
  let ?b = "begin_raw [] False 0" and ?st = "declared_stack tt vars recs"
  have "AppendOperations Scan tt (Block vars recs body [] False 0) [] NewInterpreterStack = (case append_all Scan tt body (?b # ?ds) ?st of
      Inl err \<Rightarrow> Inl err | Inr (ops, st) \<Rightarrow> Inr (ops @ [new_op OpCode_ScopeEnd], PopScope st))"
    by (simp add: Let_def declared_stack_def begin_raw_def)
  then obtain o1 st where o1: "append_all Scan tt body (?b # ?ds) ?st = Inr (o1, st)" and rec: "reconcileLabels (o1 @ [new_op OpCode_ScopeEnd]) = Inr ops"
    using parse conv(1) by (auto simp: ParseFunction_def simp del: AppendOperations.simps split: sum.splits)
  obtain ts where ts: "trees_of Scan ?st (Suc (length ?ds)) body = Inr (ts, st)" and "o1 = ?b # ?ds @ flats ts"
    using append_is_tree(2) [OF pl, of Scan tt "?b # ?ds" ?st] o1 by (auto split: sum.splits)
  then have rec: "reconcileLabels (flat (Scope [] False 0 (map Leaf ?ds @ ts))) = Inr ops" using rec by (simp add: leaves_flat del: map_append)
  have sh: "shapes Scan (declared_stack tt vars recs) (Suc (length ?ds)) body ts" using tree_shape(2) [OF ts] .
  have ok: "trees_ok ts" using shape_ok(2) [OF sh sf] .
  have "current_ok {} (declared_stack tt vars recs)" using declared_label [of tt vars recs] by (simp add: current_ok_def)
  then have un: "unshadoweds ts" using tree_unshadowed(2) [OF ts sf] by simp
  have "ops = resolved [] Map.empty 0 (Scope [] False 0 (map Leaf ?ds @ ts))"
    using ds ok un by (intro reconcile_resolves [OF rec]) (simp_all add: leaves_flat leaves_unshadowed del: map_append)
  then show ?thesis using conv sh ok pl ds
    by (intro exI [of _ vars] exI [of _ recs] exI [of _ body] exI [of _ ts]) (simp add: leaves_flat leaves_resolved bind_exit_def del: map_append)
qed

text \<open>The parts of the code at their places; \<open>m\<close> is the end of the outer scope.\<close>

lemma function_code:
  assumes parse: "ParseFunction Scan dm tt jb = Inr (GetStatements fn)" and fine: "jfines {} (Action_Body jb)" and label: "Action_Label jb = []"
  shows "\<exists>vars recs body m. jsonConvert dm jb = Inr (Block vars recs body [] False 0) \<and> jsonConvertStatements dm (Action_Body jb) = Inr body \<and>
     placed fn 0 [new_op OpCode_ScopeBegin] \<and> placed fn 1 (declare_ops vars @ record_ops recs) \<and> placed fn m [new_op OpCode_ScopeEnd] \<and>
     length (GetStatements fn) = Suc m \<and> coded Scan fn [scope_item [] False 0 0] Map.empty (declared_stack tt vars recs) (1 + length (declare_ops vars @ record_ops recs)) body m"
proof -
  obtain vars recs body ts where conv: "jsonConvert dm jb = Inr (Block vars recs body [] False 0)" "jsonConvertStatements dm (Action_Body jb) = Inr body"
    and sh: "shapes Scan (declared_stack tt vars recs) (Suc (length (declare_ops vars @ record_ops recs))) body ts" "trees_ok ts" "plains body"
    and ops: "GetStatements fn = [new_op OpCode_ScopeBegin] @ (declare_ops vars @ record_ops recs) @
       resolveds [scope_item [] False 0 0] Map.empty (Suc (length (declare_ops vars @ record_ops recs))) ts @ [new_op OpCode_ScopeEnd]"
    using parsed_function [OF assms] by blast
  let ?ds = "declare_ops vars @ record_ops recs" let ?m = "Suc (length ?ds) + tsizes ts"
  have "placed fn 0 (GetStatements fn)" by (simp add: placed_def)
  then have pl: "placed fn 0 ([new_op OpCode_ScopeBegin] @ ?ds @ resolveds [scope_item [] False 0 0] Map.empty (Suc (length ?ds)) ts @ [new_op OpCode_ScopeEnd])"
    unfolding ops .
  have len: "length (GetStatements fn) = Suc ?m" unfolding ops by simp
  have at: "placed fn 0 [new_op OpCode_ScopeBegin]" "placed fn 1 ?ds" "placed fn (Suc (length ?ds)) (resolveds [scope_item [] False 0 0] Map.empty (Suc (length ?ds)) ts)"
    "placed fn ?m [new_op OpCode_ScopeEnd]"
    using pl len by (simp_all add: add.assoc) (simp add: placed_def)
  then have "coded Scan fn [scope_item [] False 0 0] Map.empty (declared_stack tt vars recs) (1 + length ?ds) body ?m"
    using sh unfolding coded_def by (intro conjI exI [of _ ts]) simp_all
  then show ?thesis using conv len at by blast
qed

lemma function_runs:
  assumes parse: "ParseFunction Scan dm tt jb = Inr (GetStatements fn)" and fine: "jfines {} (Action_Body jb)" and label: "Action_Label jb = []"
    and sem: "function_sem Scan dm tt fn jb \<sigma> out \<sigma>'" and res: "result_of out = Some res"
  shows "runs fn 0 \<sigma> (seen_of res \<sigma>')"
proof -
  obtain vars recs body m where conv: "jsonConvert dm jb = Inr (Block vars recs body [] False 0)" "jsonConvertStatements dm (Action_Body jb) = Inr body"
    and b: "placed fn 0 [new_op OpCode_ScopeBegin]" and d: "placed fn 1 (declare_ops vars @ record_ops recs)" and e: "placed fn m [new_op OpCode_ScopeEnd]"
    and len: "length (GetStatements fn) = Suc m"
    and code: "coded Scan fn [scope_item [] False 0 0] Map.empty (declared_stack tt vars recs) (1 + length (declare_ops vars @ record_ops recs)) body m"
    using function_code [OF parse fine label] by blast
  let ?ds = "declare_ops vars @ record_ops recs" and ?st = "declared_stack tt vars recs"
  have ds: "\<forall>op \<in> set ?ds. op_Code op \<in> {OpCode_Declare, OpCode_DeclareRecord}" using declaration_codes by blast
  have fits: "fits fn [] Map.empty p q" for p q by (simp add: fits_def)
  have end_ok: "proceeds fn [] Map.empty (GetCurrentLabel ?st) p (Suc m) out \<sigma>' (seen_of res \<sigma>')" for p
    using res runs_end [of fn "Suc m" \<sigma>'] len by (cases out) auto
  have inner: "runs fn 1 (enter \<sigma>) (seen_of res \<sigma>')"
    using sem
  proof cases
    case (declaration_fails vars' recs' body' l lp c)
    then have "run_decls fn ?ds (enter \<sigma>) = (out, \<sigma>')" using conv(1) by simp
    moreover have "proceeds fn [] Map.empty [] 0 q out \<sigma>' (seen_of res \<sigma>')" for q
      using declaration_fails(3) res by (cases out) auto
    ultimately show ?thesis using decls_run [OF d ds] by blast
  next
    case (body_runs vars' recs' body' l lp c \<sigma>0 out1 \<sigma>1)
    then have dec: "run_decls fn ?ds (enter \<sigma>) = (Normal, \<sigma>0)" and bd: "sems fn (simple_op Scan ?st 0) dm (Action_Body jb) \<sigma>0 out1 \<sigma>1" and lv: "leave out1 \<sigma>1 = (out, \<sigma>')"
      using conv(1) by simp_all
    have "scopes (istack \<sigma>1) \<noteq> []" if "stays out1" using sem_depth(2) [OF bd that] decls_depth [OF dec ds] by auto
    then have before: "proceeds fn [] Map.empty (GetCurrentLabel ?st) (Suc 0) m out1 \<sigma>1 (seen_of res \<sigma>')"
      by (intro proceeds_leave [OF b e fits lv end_ok])
    have "passable fn (Suc 0) (1 + length ?ds)"
      unfolding passable_def
    proof (intro exI [of _ ?ds] conjI allI)
      have "op_Code op \<notin> {OpCode_ScopeBegin, OpCode_ScopeEnd}" if "op \<in> set ?ds" for op using ds that by fastforce
      then have "walk f xs st = Inr st" if "set xs \<subseteq> set ?ds" for f xs and st :: "'a InterpreterStack"
        using that by (induction xs) (auto simp: walk_leaf simp del: set_append)
      then show "walk True ?ds st = Inr st" "walk False (rev ?ds) st = Inr st" for st :: "'a InterpreterStack" by (simp_all del: set_append rev_append)
    qed (use d in simp_all)
    moreover have "m \<le> length (GetStatements fn)" using len by simp
    ultimately have "proceeds fn [] Map.empty (GetCurrentLabel ?st) (1 + length ?ds) m out1 \<sigma>1 (seen_of res \<sigma>')"
      using before by (intro proceeds_inner [OF before _ _ fits]) simp_all
    then have "runs fn (1 + length ?ds) \<sigma>0 (seen_of res \<sigma>')"
      by (intro sim_listD [OF code_simulates(2) [OF bd] conv(2) fine refl code]) (simp_all add: fits, simp add: strict_def scope_item_def)
    then show ?thesis using decls_run [OF d ds dec] by simp
  qed
  then show ?thesis using runs_enter [OF b] by simp
qed

lemma call_loop_more: "call_loop fn n c s = Some r \<Longrightarrow> n \<le> n' \<Longrightarrow> call_loop fn n' c s = Some r"
proof (induction n arbitrary: n' c s)
  case (Suc n)
  then obtain k where k: "n' = Suc k" "n \<le> k" by (metis Suc_le_D Suc_le_mono)
  show ?case using Suc.prems(1) Suc.IH [OF _ k(2)] by (auto simp: k(1) Let_def split: step_result.splits if_splits)
qed simp

end
