(* ===== verification/Plpgsql_Demo.thy ===== *)
theory Plpgsql_Demo
  imports Plpgsql_Function
begin

text \<open>
  A small engine for examples: it writes down the queries it is asked and answers with one boolean, which is true for \<open>t\<close> always and for a query with an
  \<open>n\<close> as long as less than three queries were asked. Every expression is one token.
\<close>

definition demo_bool :: DoltgresType where
  "demo_bool = \<lparr>dt_ID = Bool_ID, dt_Name = gs ''bool'', TypCategory = 66, IsCompositeType = False, CompositeAttrs = []\<rparr>"

definition demo_scan :: "gostring \<Rightarrow> token list option" where
  "demo_scan e = Some [(0, length e, 1)]"

definition demo_answer :: "gostring \<Rightarrow> gostring list \<Rightarrow> bool" where
  "demo_answer q log \<longleftrightarrow> q = gs ''SELECT t ;'' \<or> 110 \<in> set q \<and> length log < 3"

definition demo_engine :: "gostring \<Rightarrow> gostring list \<Rightarrow> (Schema \<times> unit sqlrow list) option \<times> gostring list" where
  "demo_engine q log = (Some ([\<lparr>col_Name = [], col_Type = Doltgres demo_bool\<rparr>], [[GoBool (demo_answer q log)]]), log @ [q])"

definition demo_function :: "InterpreterOperation list \<Rightarrow> (unit, gostring list) ifunc" where
  "demo_function ops = \<lparr>GetAllNames = [], OutputParameters = [], InputParameters = [], GetReturn = demo_bool, IsSRF = False, GetStatements = ops,
     QueryWithBindings = demo_engine, FormatValue = (\<lambda>_ v. Some (if v = GoBool True then gs ''true'' else gs ''false'')), QuoteLiteral = (\<lambda>s. s),
     cast_value = (\<lambda>v _ _. Some v), type_Zero = (\<lambda>_. GoNil), IoInput = (\<lambda>_ s. Some (GoBool (s = gs ''true''))), FromGmsType = (\<lambda>_. Some demo_bool),
     TypeForNonKeywordTypeName = (\<lambda>_. None), GetType = (\<lambda>_ _. Some demo_bool), OkResult = (\<lambda>_. None), as_string = (\<lambda>_. None), print_any = (\<lambda>_. []),
     BoolType = demo_bool, TextType = demo_bool, TriggerType = demo_bool\<rparr>"

definition demo_body :: "jstatement list \<Rightarrow> plpgSQL_block" where
  "demo_body js = \<lparr>new_varno = 0, old_varno = 0, Datums = [D_var (gs ''found'') (gs ''boolean'') 0 [], D_var (gs ''i'') (gs ''boolean'') 1 []], Action_Body = js, Action_Label = []\<rparr>"

definition demo_code :: "jstatement list \<Rightarrow> InterpreterOperation list" where
  "demo_code js = (case ParseFunction demo_scan (\<lambda>_. False) demo_bool (demo_body js) of Inl _ \<Rightarrow> [] | Inr ops \<Rightarrow> ops)"

text \<open>What is left after a run: the result, the queries and the variable \<open>FOUND\<close> of the function.\<close>

definition demo_run :: "nat \<Rightarrow> jstatement list \<Rightarrow> ((plerror + unit call_result) \<times> gostring list \<times> unit goany list) option" where
  "demo_run n js = map_option (\<lambda>(res, s). (res, iworld s, map var_Value (heap (istack s)))) (Call (demo_function (demo_code js)) n [] [])"

end
