(* ===== verification/Plpgsql_Bindings.thy ===== *)
theory Plpgsql_Bindings
  imports Plpgsql_Demo
begin

text \<open>
  Putting values into a query, \<open>ApplyBindings\<close> of \<open>src/server/functions/framework/interpreted_function.go\<close>: every numbered reference is replaced by the text of its variable,
  as long as no text has a dollar sign.
\<close>

section \<open>Queries with references\<close>

datatype piece = Txt gostring | Ref nat

text \<open>The text of a query whose references from number \<open>k\<close> on are filled in.\<close>

fun fill_piece :: "nat \<Rightarrow> gostring list \<Rightarrow> piece \<Rightarrow> gostring" where
  "fill_piece k vals (Txt s) = s"
| "fill_piece k vals (Ref i) = (if k \<le> i then vals ! i @ [32] else reference_number (Suc i))"

definition fill :: "nat \<Rightarrow> gostring list \<Rightarrow> piece list \<Rightarrow> gostring" where
  "fill k vals ps = concat (map (fill_piece k vals) ps)"

fun piece_ok :: "nat \<Rightarrow> piece \<Rightarrow> bool" where
  "piece_ok n (Txt s) \<longleftrightarrow> 36 \<notin> set s"
| "piece_ok n (Ref i) \<longleftrightarrow> i < n"

text \<open>The text that stands for a variable.\<close>

definition variable_text :: "('v, 'w) ifunc \<Rightarrow> 'v InterpreterStack \<Rightarrow> bool \<Rightarrow> gostring \<Rightarrow> gostring option" where
  "variable_text fn st e name = (case GetVariableWithError st name of Inr (Some t, r) \<Rightarrow> binding_text fn e t (read_ref st r) | _ \<Rightarrow> None)"

lemma variable_text_cases:
  "(case x of Inr (Some t, r) \<Rightarrow> f t r | _ \<Rightarrow> None) = Some v \<Longrightarrow> \<exists>t r. x = Inr (Some t, r) \<and> f t r = Some v"
  by (auto split: sum.splits option.splits)

section \<open>Replacing one number\<close>

lemma replace_none: "36 \<notin> set s \<Longrightarrow> ReplaceAll (s @ t) (36 # n) new = s @ ReplaceAll t (36 # n) new"
  by (induction s) (simp_all add: ReplaceAll.simps [of "_ # _"] HasPrefix_def)

lemma replace_here: "ReplaceAll (36 # n @ t) (36 # n) new = new @ ReplaceAll t (36 # n) new"
  by (simp add: ReplaceAll.simps [of "_ # _"] HasPrefix_def)

lemma digits_not: "36 \<notin> set (itoa_nat n)" "32 \<notin> set (itoa_nat n)"
  using itoa_nat_digits [of n] by (auto simp: list_all_iff is_digit_def)

lemma digits_value_prefix: "digits_value a \<le> digits_value (a @ b)"
proof (induction b rule: rev_induct)
  case (snoc x b)
  then show ?case by (simp add: digits_value_def flip: append_assoc)
qed simp

lemma other_number:
  assumes "j < k"
  shows "\<not> HasPrefix (36 # itoa_nat j @ 32 # t) (36 # itoa_nat k)"
proof
  assume "HasPrefix (36 # itoa_nat j @ 32 # t) (36 # itoa_nat k)"
  then have p: "take (length (itoa_nat k)) (itoa_nat j @ 32 # t) = itoa_nat k" by (simp add: HasPrefix_def)
  show False
  proof (cases "length (itoa_nat k) \<le> length (itoa_nat j)")
    case True
    then have "itoa_nat j = itoa_nat k @ drop (length (itoa_nat k)) (itoa_nat j)" using p by (metis append_take_drop_id take_append diff_is_0_eq take_0 append_Nil2)
    then have "k \<le> j" using digits_value_prefix [of "itoa_nat k"] itoa_nat_value by metis
    then show False using assms by simp
  next
    case False
    then obtain d where d: "length (itoa_nat k) = length (itoa_nat j) + Suc d" using less_iff_Suc_add [of "length (itoa_nat j)"] by (auto simp: not_le)
    have "32 \<in> set (take (length (itoa_nat k)) (itoa_nat j @ 32 # t))" by (simp add: d)
    then show False unfolding p using digits_not(2) by simp
  qed
qed

lemma replace_other: "j < k \<Longrightarrow> ReplaceAll (36 # itoa_nat j @ 32 # t) (36 # itoa_nat k) new = 36 # itoa_nat j @ 32 # ReplaceAll t (36 # itoa_nat k) new"
  using other_number [of j k t] replace_none [of "itoa_nat j @ [32]" t "itoa_nat k" new] digits_not(1)
  by (subst ReplaceAll.simps) simp

lemma fill_step:
  assumes "\<forall>p \<in> set ps. piece_ok n p" and "\<forall>v \<in> set vals. 36 \<notin> set v" and "length vals = n"
  shows "ReplaceAll (fill (Suc k) vals ps) (36 # itoa_nat (Suc k)) (vals ! k) = fill k vals ps"
  using assms(1)
proof (induction ps)
  case (Cons p ps)
  then have IH: "ReplaceAll (fill (Suc k) vals ps) (36 # itoa_nat (Suc k)) (vals ! k) = fill k vals ps" by simp
  have f: "fill i vals (x # ps) = fill_piece i vals x @ fill i vals ps" for i x by (simp add: fill_def)
  show ?case
  proof (cases p)
    case (Txt s)
    then show ?thesis using IH Cons.prems by (simp add: f replace_none)
  next
    case (Ref i)
    consider "i < k" | "i = k" | "k < i" by linarith
    then show ?thesis
    proof cases
      case 1
      then show ?thesis using Ref IH replace_other [of "Suc i" "Suc k"] by (simp add: f reference_number_def)
    next
      case 2
      then show ?thesis using Ref IH replace_here [of "itoa_nat (Suc k)" "32 # fill (Suc k) vals ps"] replace_none [of "[32]" "fill (Suc k) vals ps"]
        by (simp add: f reference_number_def)
    next
      case 3
      then have "36 \<notin> set (vals ! i @ [32])" using assms(2,3) Ref Cons.prems by simp
      then show ?thesis using Ref 3 IH replace_none [of "vals ! i @ [32]"] by (simp add: f)
    qed
  qed
qed (simp add: fill_def)

section \<open>All of them\<close>

lemma apply_from:
  assumes ok: "\<forall>p \<in> set ps. piece_ok (length vals) p" "\<forall>v \<in> set vals. 36 \<notin> set v"
    and texts: "list_all2 (\<lambda>name v. variable_text fn st e name = Some v) names vals"
  shows "k \<le> length names \<Longrightarrow> apply_bindings fn st e (rev (enumerate 0 (take k names))) (fill k vals ps) = (True, Inr (fill 0 vals ps))"
proof (induction k)
  case (Suc k)
  have "take (Suc k) names = take k names @ [names ! k]" using Suc.prems by (simp add: take_Suc_conv_app_nth)
  then have split: "rev (enumerate 0 (take (Suc k) names)) = (k, names ! k) # rev (enumerate 0 (take k names))"
    using Suc.prems by (simp add: enumerate_append_eq)
  obtain t r where "GetVariableWithError st (names ! k) = Inr (Some t, r)" "binding_text fn e t (read_ref st r) = Some (vals ! k)"
    using list_all2_nthD [OF texts, of k] Suc.prems by (auto simp: variable_text_def dest!: variable_text_cases)
  then show ?case using Suc fill_step [OF ok refl, of k] by (simp add: split)
qed simp

text \<open>C7. A query whose references are numbered as the compiler numbers them, put together from texts without a dollar sign, becomes the query with the
  text of each variable in the place of its number, if no variable's text has a dollar sign. In particular \<open>$1\<close> never takes a part of \<open>$10\<close>.\<close>

theorem bindings_replaced:
  assumes "names \<noteq> []" and "\<forall>p \<in> set ps. piece_ok (length names) p" and "\<forall>v \<in> set vals. 36 \<notin> set v"
    and "list_all2 (\<lambda>name v. variable_text fn st enforceType name = Some v) names vals"
  shows "ApplyBindings fn st (fill (length names) [] ps) names enforceType = (True, Inr (fill 0 vals ps))"
proof -
  have len: "length vals = length names" using list_all2_lengthD [OF assms(4)] by simp
  have "fill_piece (length names) [] p = fill_piece (length names) vals p" if "p \<in> set ps" for p using assms(2) that by (cases p) force+
  then have "fill (length names) [] ps = fill (length names) vals ps" by (simp add: fill_def cong: map_cong)
  then show ?thesis using apply_from [OF _ assms(3,4), of ps "length names"] assms(1,2) len by (simp add: ApplyBindings_def)
qed

section \<open>At work\<close>

text \<open>Two text variables; the function quotes their texts.\<close>

definition demo_text :: DoltgresType where
  "demo_text = demo_bool\<lparr>dt_Name := gs ''text'', TypCategory := 83\<rparr>"

definition demo_quoting :: "(unit goany \<Rightarrow> gostring) \<Rightarrow> (unit, gostring list) ifunc" where
  "demo_quoting f = (demo_function [])\<lparr>FormatValue := (\<lambda>_ v. Some (f v)), QuoteLiteral := (\<lambda>s. [39] @ s @ [39])\<rparr>"

definition text_literal :: "gostring \<Rightarrow> gostring" where
  "text_literal s = gs ''(('' @ [39] @ s @ [39] @ gs '')::text)''"

definition demo_two :: "unit InterpreterStack" where
  "demo_two = NewVariableWithValue (gs ''b'') (Some demo_text) (GoBool True) (NewVariableWithValue (gs ''a'') (Some demo_text) (GoBool False) NewInterpreterStack)"

theorem bindings_replaced_witness:
  "ApplyBindings (demo_quoting (\<lambda>v. if v = GoBool True then gs ''x'' else gs ''y'')) demo_two (fill (length [gs ''a'', gs ''b'']) [] [Txt (gs ''SELECT ''), Ref 0, Txt (gs ''|| ''), Ref 1]) [gs ''a'', gs ''b''] True =
     (True, Inr (fill 0 [text_literal (gs ''y''), text_literal (gs ''x'')] [Txt (gs ''SELECT ''), Ref 0, Txt (gs ''|| ''), Ref 1]))"
proof (rule bindings_replaced)
  show "list_all2 (\<lambda>name v. variable_text (demo_quoting (\<lambda>v. if v = GoBool True then gs ''x'' else gs ''y'')) demo_two True name = Some v)
      [gs ''a'', gs ''b''] [text_literal (gs ''y''), text_literal (gs ''x'')]"
    by code_simp
qed (simp, code_simp, code_simp)

text \<open>A value that has the text of another reference is changed: when the second variable holds \<open>$1\<close>, the first variable is put inside of its quotes, and
  its own quotes end the literal.\<close>

theorem value_taken_for_reference:
  "ApplyBindings (demo_quoting (\<lambda>v. if v = GoBool True then gs ''$1'' else gs ''y'')) demo_two (gs ''SELECT $1 || $2 '') [gs ''a'', gs ''b''] True =
     (True, Inr (gs ''SELECT '' @ text_literal (gs ''y'') @ gs '' || '' @ text_literal (text_literal (gs ''y'')) @ gs '' ''))"
  by code_simp

end
