(* ===== verification/Plpgsql_Exec.thy ===== *)
theory Plpgsql_Exec
  imports Plpgsql_Demo
begin

text \<open>
  The structured semantics as a function that stops after so many nested steps, for examples: what it computes is what the relation says. Loops over
  integers and queries are left to the relation.
\<close>

datatype task = Do jstatement | Do_all "jstatement list" | Do_first "(gostring \<times> jstatement list) list" "jstatement list" | Do_rounds looper gostring "jstatement list"

definition then_leave :: "('v ending \<times> ('v, 'w) istate) option \<Rightarrow> ('v ending \<times> ('v, 'w) istate) option" where
  "then_leave x = map_option (\<lambda>(out, s). leave out s) x"

definition exec_simple :: "('v, 'w) ifunc \<Rightarrow> (Statement \<Rightarrow> plerror + InterpreterOperation) \<Rightarrow> (gostring \<Rightarrow> bool) \<Rightarrow> jstatement \<Rightarrow> ('v, 'w) istate \<Rightarrow>
    ('v ending \<times> ('v, 'w) istate) option" where
  "exec_simple fn mk dm j s = (case jsonConvertStatement dm j of
     Inl _ \<Rightarrow> None
   | Inr t \<Rightarrow> (case mk t of Inl _ \<Rightarrow> None | Inr op \<Rightarrow> if is_simple t then Some (op_ends (run_operation fn 0 op s)) else None))"

primrec exec :: "('v, 'w) ifunc \<Rightarrow> (Statement \<Rightarrow> plerror + InterpreterOperation) \<Rightarrow> (gostring \<Rightarrow> bool) \<Rightarrow> nat \<Rightarrow> task \<Rightarrow> ('v, 'w) istate \<Rightarrow> ('v ending \<times> ('v, 'w) istate) option" where
  "exec fn mk dm 0 t s = None"
| "exec fn mk dm (Suc n) t s = (case t of
     Do j \<Rightarrow> (case j of
         J_block body \<Rightarrow> then_leave (exec fn mk dm n (Do_all body) (enter s))
       | J_if c thn elsifs els \<Rightarrow> then_leave (exec fn mk dm n (Do_first ((c, thn) # elsifs) els) (enter s))
       | J_exit l is_exit c \<Rightarrow> if c = None then Some (if is_exit then Break l else Cont l, s) else None
       | J_while c body l \<Rightarrow> (case mk (If c 2 False) of Inl _ \<Rightarrow> None | Inr op \<Rightarrow> then_leave (exec fn mk dm n (Do_rounds (WhileLoop op) l body) (enter s)))
       | J_loop body l \<Rightarrow> then_leave (exec fn mk dm n (Do_rounds Forever l body) (enter s))
       | _ \<Rightarrow> exec_simple fn mk dm j s)
   | Do_all js \<Rightarrow> (case js of
         [] \<Rightarrow> Some (Normal, s)
       | j # js \<Rightarrow> (case exec fn mk dm n (Do j) s of
           None \<Rightarrow> None
         | Some (out, s) \<Rightarrow> if out = Normal then exec fn mk dm n (Do_all js) s else Some (out, s)))
   | Do_first bs els \<Rightarrow> (case bs of
         [] \<Rightarrow> exec fn mk dm n (Do_all els) s
       | (c, thn) # bs \<Rightarrow> (case mk (If c 2 False) of
           Inl _ \<Rightarrow> None
         | Inr op \<Rightarrow> (case eval_if fn op s of
             Inl (err, s) \<Rightarrow> Some (Fail err, s)
           | Inr (b, s) \<Rightarrow> exec fn mk dm n (if b then Do_all thn else Do_first bs els) s)))
   | Do_rounds k l body \<Rightarrow> (case loop_test fn k s of
         Inl (err, s) \<Rightarrow> Some (Fail err, s)
       | Inr (b, s) \<Rightarrow>
           if \<not> b then Some (Normal, s)
           else (case exec fn mk dm n (Do_all body) s of
             None \<Rightarrow> None
           | Some (out, s) \<Rightarrow>
               if \<not> resumes l out then Some (escape l out, s)
               else (case op_ends (loop_next fn k s) of
                 (out, s) \<Rightarrow> if out = Normal then exec fn mk dm n (Do_rounds k l body) s else Some (out, s)))))"

fun task_sem :: "('v, 'w) ifunc \<Rightarrow> (Statement \<Rightarrow> plerror + InterpreterOperation) \<Rightarrow> (gostring \<Rightarrow> bool) \<Rightarrow> task \<Rightarrow> ('v, 'w) istate \<Rightarrow> 'v ending \<Rightarrow> ('v, 'w) istate \<Rightarrow> bool" where
  "task_sem fn mk dm (Do j) = sem fn mk dm j"
| "task_sem fn mk dm (Do_all js) = sems fn mk dm js"
| "task_sem fn mk dm (Do_first bs els) = chain fn mk dm bs els"
| "task_sem fn mk dm (Do_rounds k l body) = rounds fn mk dm k l body"

lemma then_leave: "then_leave x = Some (out', s') \<longleftrightarrow> (\<exists>out s. x = Some (out, s) \<and> leave out s = (out', s'))"
  by (cases x) (auto simp: then_leave_def)

lemma exec_simple_sound: "exec_simple fn mk dm j s = Some (out, s') \<Longrightarrow> sem fn mk dm j s out s'"
  by (auto simp: exec_simple_def split: sum.splits if_splits intro: simple)

lemma exec_sound: "exec fn mk dm n t s = Some (out, s') \<Longrightarrow> task_sem fn mk dm t s out s'"
proof (induction n arbitrary: t s out s')
  case (Suc n)
  note IH = Suc.IH [of "Do _", simplified] Suc.IH [of "Do_all _", simplified] Suc.IH [of "Do_first _ _", simplified] Suc.IH [of "Do_rounds _ _ _", simplified]
  show ?case
  proof (cases t)
    case (Do j)
    show ?thesis
    proof (cases j)
      case (J_exit l is_exit c)
      then show ?thesis using Suc.prems Do exit_now [of fn mk dm l is_exit s] by (auto split: if_splits)
    next
      case (J_while c body l)
      then show ?thesis using Suc.prems Do by (auto simp: then_leave split: sum.splits intro: while_loop IH)
    qed (use Suc.prems Do in \<open>auto simp: then_leave intro: exec_simple_sound block if_stmt loop IH\<close>)
  next
    case (Do_all js)
    show ?thesis
    proof (cases js)
      case Nil
      then have eq: "task_sem fn mk dm t s out s' = sems fn mk dm [] s Normal s" using Suc.prems Do_all by simp
      show ?thesis unfolding eq by (rule no_statement)
    next
      case (Cons j r)
      then obtain out1 s1 where one: "exec fn mk dm n (Do j) s = Some (out1, s1)"
        and rest: "(if out1 = Normal then exec fn mk dm n (Do_all r) s1 else Some (out1, s1)) = Some (out, s')" using Suc.prems Do_all by (auto split: option.splits)
      have "sems fn mk dm (j # r) s out s'"
      proof (cases "out1 = Normal")
        case True
        then show ?thesis using seq [OF IH(1) [OF one [unfolded True]] IH(2)] rest by simp
      next
        case False
        then show ?thesis using seq_ends [OF IH(1) [OF one]] rest by simp
      qed
      then show ?thesis using Do_all Cons by simp
    qed
  next
    case (Do_first bs els)
    show ?thesis
    proof (cases bs)
      case Nil
      then show ?thesis using Suc.prems Do_first by (auto intro: else_branch IH)
    next
      case (Cons b r)
      obtain c thn where b: "b = (c, thn)" by (cases b)
      then obtain op where op: "mk (If c 2 False) = Inr op" using Suc.prems Do_first Cons by (auto split: sum.splits)
      show ?thesis
      proof (cases "eval_if fn op s")
        case (Inl x)
        then show ?thesis using Suc.prems Do_first Cons b op branch_fails [where mk = mk, OF op] by (cases x) auto
      next
        case (Inr x)
        obtain d s1 where x: "x = (d, s1)" by (cases x)
        then have go: "exec fn mk dm n (if d then Do_all thn else Do_first r els) s1 = Some (out, s')" using Suc.prems Do_first Cons b op Inr by simp
        have "chain fn mk dm ((c, thn) # r) els s out s'"
        proof (cases d)
          case True
          then show ?thesis using branch [where mk = mk, OF op _ IH(2)] Inr x go by simp
        next
          case False
          then show ?thesis using no_branch [where mk = mk, OF op _ IH(3)] Inr x go by simp
        qed
        then show ?thesis using Do_first Cons b by simp
      qed
    qed
  next
    case (Do_rounds k l body)
    then show ?thesis using Suc.prems
      by (auto split: sum.splits if_splits option.splits prod.splits intro: stop test_fails again next_fails left IH)
  qed
qed simp

end
