(* ===== verification/Plpgsql_Props.thy ===== *)
theory Plpgsql_Props
  imports Plpgsql_Bindings Plpgsql_Exec
begin

text \<open>
  What is claimed of PL/pgSQL functions, with examples for it: the sizes and labels of compiled code, the correctness of compiled calls at work, and
  programs outside of the fragment that go wrong.
\<close>

section \<open>Compiled code\<close>

lemma append_size:
  "AppendOperations Scan tt s ops st = Inr (ops', st') \<Longrightarrow> int (length ops') = int (length ops) + OperationSize s"
  "append_all Scan tt ss ops st = Inr (ops', st') \<Longrightarrow> int (length ops') = int (length ops) + OperationSizeForStatements ss"
proof (induction Scan tt s ops st and Scan tt ss ops st arbitrary: ops' st' and ops' st' rule: AppendOperations_append_all.induct)
  case (1 Scan tt vars recs body lbl is_loop cto ops st)
  then show ?case by (fastforce simp: Let_def declare_ops_def record_ops_def split: sum.splits)
next
  case (4 Scan tt s ss ops st)
  then show ?case by (fastforce split: sum.splits)
qed (auto simp del: simple_op.simps split: sum.splits)

text \<open>The size of a statement is exactly the number of operations that it is compiled to, declarations and scopes of blocks included; all
  jumps are computed with it.\<close>

theorem operation_size_exact:
  "AppendOperations Scan tt s ops st = Inr (ops', st') \<Longrightarrow> int (length ops') = int (length ops) + OperationSize s"
  by (rule append_size(1))

text \<open>The code of a loop that is left when \<open>t\<close> is true, before its labels are resolved.\<close>

definition demo_raw :: "InterpreterOperation list" where
  "demo_raw = (case AppendOperations demo_scan demo_bool (loop_block [] [convert_exit [] True (Some (gs ''t''))]) [] NewInterpreterStack of Inl _ \<Rightarrow> [] | Inr (ops, st) \<Rightarrow> ops)"

lemma demo_appended:
  "\<exists>st. AppendOperations demo_scan demo_bool (loop_block [] [convert_exit [] True (Some (gs ''t''))]) [] NewInterpreterStack = Inr (demo_raw, st)"
proof -
  have "case AppendOperations demo_scan demo_bool (loop_block [] [convert_exit [] True (Some (gs ''t''))]) [] NewInterpreterStack of Inl _ \<Rightarrow> False | Inr _ \<Rightarrow> True"
    by code_simp
  then show ?thesis by (auto simp: demo_raw_def simp del: AppendOperations.simps split: sum.splits)
qed

theorem operation_size_exact_witness: "int (length demo_raw) = int (length ([] :: InterpreterOperation list)) + OperationSize (loop_block [] [convert_exit [] True (Some (gs ''t''))])"
  using demo_appended operation_size_exact by blast

section \<open>A compiled call\<close>

text \<open>C1. For a function of the fragment that \<open>ParseFunction\<close> compiles, whenever its statements have a meaning from the bound parameters, the call
  returns exactly that: with enough steps the interpreter stops with the result, the database and the notices that the structured
  semantics gives. Jumps, scopes, labels and loop ends of the compiled code are right.\<close>

theorem compiled_call_correct:
  assumes "ParseFunction Scan dm tt jb = Inr (GetStatements fn)" and "jfines {} (Action_Body jb)" and "Action_Label jb = []"
    and "length vals = length (InputParameters fn)"
    and "function_sem Scan dm tt fn jb \<lparr>istack = bind_parameters fn vals, iworld = w, notices = []\<rparr> out \<sigma>'" and "result_of out = Some res"
  shows "\<exists>N s'. (\<forall>n \<ge> N. Call fn n vals w = Some (res, s')) \<and> iworld s' = iworld \<sigma>' \<and> notices s' = notices \<sigma>'"
proof -
  obtain N s' where "call_loop fn N (-1) \<lparr>istack = bind_parameters fn vals, iworld = w, notices = []\<rparr> = Some (res, s')" and s': "iworld s' = iworld \<sigma>'" "notices s' = notices \<sigma>'"
    using function_runs [OF assms(1-3,5,6)] by (auto simp: runs_def seen_of_def)
  then have "\<forall>n \<ge> N. Call fn n vals w = Some (res, s')" using call_loop_more assms(4) by (fastforce simp: Call_def)
  then show ?thesis using s' by blast
qed

definition demo_loop :: "jstatement list" where
  "demo_loop = [J_while (gs ''n'') [J_if (gs ''f'') [J_perform (gs ''x'')] [] [J_perform (gs ''y'')], J_exit [] False None] []]"

abbreviation demo_fn :: "(unit, gostring list) ifunc" where
  "demo_fn \<equiv> demo_function (demo_code demo_loop)"

definition demo_start :: "(unit, gostring list) istate" where
  "demo_start = \<lparr>istack = bind_parameters demo_fn [], iworld = [], notices = []\<rparr>"

definition demo_vars :: "Variable list" where
  "demo_vars = [\<lparr>v_Name = gs ''found'', v_Type = gs ''pg_catalog.bool'', IsParameter = False, v_Default = gs ''false''\<rparr>,
     \<lparr>v_Name = gs ''i'', v_Type = gs ''boolean'', IsParameter = False, v_Default = []\<rparr>]"

definition demo_declared :: "(unit, gostring list) istate" where
  "demo_declared = snd (run_decls demo_fn (declare_ops demo_vars @ record_ops []) (enter demo_start))"

definition demo_ended :: "(unit ending \<times> (unit, gostring list) istate) option" where
  "demo_ended = exec demo_fn (simple_op demo_scan (declared_stack demo_bool demo_vars []) 0) (\<lambda>_. False) 12 (Do_all demo_loop) demo_declared"

lemma demo_converts: "case jsonConvert (\<lambda>_. False) (demo_body demo_loop) of Inr (Block vars recs body l lp c) \<Rightarrow> vars = demo_vars \<and> recs = [] | _ \<Rightarrow> False"
  by code_simp

lemma demo_ends: "case demo_ended of None \<Rightarrow> False | Some (out, s) \<Rightarrow> out = Normal \<and> iworld (snd (leave Normal s)) = [gs ''SELECT n ;'', gs ''SELECT f ;'', gs ''y '', gs ''SELECT n ;''] \<and>
    notices (snd (leave Normal s)) = [] \<and> fst (leave Normal s) = Normal"
  by code_simp

lemma demo_parsed: "ParseFunction demo_scan (\<lambda>_. False) demo_bool (demo_body demo_loop) = Inr (GetStatements demo_fn)"
  by code_simp

lemma demo_decls: "run_decls demo_fn (declare_ops demo_vars @ record_ops []) (enter demo_start) = (Normal, demo_declared)"
  by code_simp

lemma demo_meaning:
  "\<exists>s. function_sem demo_scan (\<lambda>_. False) demo_bool demo_fn (demo_body demo_loop) demo_start Normal s \<and>
     iworld s = [gs ''SELECT n ;'', gs ''SELECT f ;'', gs ''y '', gs ''SELECT n ;''] \<and> notices s = []"
proof -
  obtain body l lp c where conv: "jsonConvert (\<lambda>_. False) (demo_body demo_loop) = Inr (Block demo_vars [] body l lp c)"
    using demo_converts by (auto split: sum.splits Statement.splits)
  obtain s where e: "demo_ended = Some (Normal, s)" and s: "iworld (snd (leave Normal s)) = [gs ''SELECT n ;'', gs ''SELECT f ;'', gs ''y '', gs ''SELECT n ;'']"
    "notices (snd (leave Normal s)) = []" "leave Normal s = (Normal, snd (leave Normal s))"
    using demo_ends by (auto split: option.splits prod.splits simp: prod_eq_iff)
  have "sems demo_fn (simple_op demo_scan (declared_stack demo_bool demo_vars []) 0) (\<lambda>_. False) (Action_Body (demo_body demo_loop)) demo_declared Normal s"
    using exec_sound [OF e [unfolded demo_ended_def]] by (simp add: demo_body_def)
  from body_runs [OF conv demo_decls this s(3)] show ?thesis using s by blast
qed

theorem compiled_call_correct_witness:
  "\<exists>N s'. (\<forall>n \<ge> N. Call demo_fn n [] [] = Some (Inr (ReturnAny GoNil), s')) \<and>
     iworld s' = [gs ''SELECT n ;'', gs ''SELECT f ;'', gs ''y '', gs ''SELECT n ;''] \<and> notices s' = []"
proof -
  obtain s where sem: "function_sem demo_scan (\<lambda>_. False) demo_bool demo_fn (demo_body demo_loop) \<lparr>istack = bind_parameters demo_fn [], iworld = [], notices = []\<rparr> Normal s"
    and s: "iworld s = [gs ''SELECT n ;'', gs ''SELECT f ;'', gs ''y '', gs ''SELECT n ;'']" "notices s = []"
    using demo_meaning unfolding demo_start_def by blast
  have "jfines {} (Action_Body (demo_body demo_loop))" "Action_Label (demo_body demo_loop) = []" "length [] = length (InputParameters demo_fn)"
    by (simp_all add: demo_body_def demo_loop_def loop_label_def demo_function_def)
  from compiled_call_correct [OF demo_parsed this sem] s show ?thesis by simp
qed

section \<open>Programs that go wrong\<close>

text \<open>A loop over integers that runs its body once, and then asks for \<open>FOUND\<close>.\<close>

definition demo_for :: "jstatement list \<Rightarrow> jstatement list" where
  "demo_for body = [J_fori [] (D_var (gs ''i'') [] 1 []) None (Some (gs ''n'')) None False body, J_return (gs ''found'')]"

definition last_query :: "((plerror + unit call_result) \<times> gostring list \<times> unit goany list) option \<Rightarrow> gostring option" where
  "last_query r = map_option (\<lambda>(_, log, _). last log) r"

text \<open>A jump out of the \<open>THEN\<close> part looks at all operations that it passes but the last one. When the \<open>ELSE\<close> part ends in a statement with a scope, the end of that
  scope is not seen and one scope is left open; then a \<open>FOR\<close> loop that ran reports \<open>FOUND\<close> as false, although with a plain statement in the \<open>ELSE\<close> part, which is not
  executed either, it is true.\<close>

theorem else_scope_loses_found:
  "last_query (demo_run 60 (demo_for [J_if (gs ''t'') [J_perform (gs ''x'')] [] [J_perform (gs ''y'')]])) = Some (gs ''SELECT ((true)::bool) ;'') \<and>
   last_query (demo_run 60 (demo_for [J_if (gs ''t'') [J_perform (gs ''x'')] [] [J_if (gs ''f'') [] [] []]])) = Some (gs ''SELECT ((false)::bool) ;'')"
  by code_simp

text \<open>\<open>CASE\<close> counts statements where it should count operations: when the condition of a \<open>WHEN\<close> is false the jump lands inside of its block, and
  the second statement of the block is executed.\<close>

theorem case_enters_skipped_block:
  "map_option (\<lambda>(res, log, _). (res, log)) (demo_run 60 [J_case [] 0 [J_when (gs ''f'') [J_block [J_perform (gs ''x''), J_perform (gs ''y'')]]] False []]) =
     Some (Inr (ReturnAny GoNil), [gs ''SELECT f ;'', gs ''y ''])"
  by code_simp

text \<open>An \<open>EXIT\<close> of an outer loop is resolved at the first end of a scope with that label: with an inner loop of the same name behind it, \<open>EXIT\<close> only
  jumps to the end of the inner loop, and the rest of the outer body is executed.\<close>

theorem exit_caught_by_inner_loop:
  "map_option (\<lambda>(res, log, _). (res, log)) (demo_run 60 [J_loop [J_exit (gs ''a'') True None,
       J_loop [J_perform (gs ''x''), J_exit [] True None] (gs ''a''), J_perform (gs ''y''), J_exit [] True None] (gs ''a''), J_perform (gs ''z'')]) =
     Some (Inr (ReturnAny GoNil), [gs ''y '', gs ''z ''])"
  by code_simp

end
