(* ===== verification/Plpgsql_Resolve.thy ===== *)
theory Plpgsql_Resolve
  imports Plpgsql_Labels
begin

text \<open>
  What resolving labels does to every operation, said without the pass: the scopes that are open at a position, the scope a \<open>CONTINUE\<close> means, and the
  scope end at which an \<open>EXIT\<close> is resolved.
\<close>

section \<open>The specification\<close>

text \<open>The positions of the scopes that are open before a position, the innermost first.\<close>

primrec scopes_open :: "InterpreterOperation list \<Rightarrow> nat \<Rightarrow> nat list" where
  "scopes_open ops 0 = []"
| "scopes_open ops (Suc i) =
     (if op_Code (ops ! i) = OpCode_ScopeBegin then i # scopes_open ops i
      else if op_Code (ops ! i) = OpCode_ScopeEnd then tl (scopes_open ops i) else scopes_open ops i)"

text \<open>The operation at \<open>j\<close> ends a scope with the label; an end without a scope counts as one with the empty label.\<close>

definition ends_scope :: "InterpreterOperation list \<Rightarrow> gostring \<Rightarrow> nat \<Rightarrow> bool" where
  "ends_scope ops l j \<longleftrightarrow> op_Code (ops ! j) = OpCode_ScopeEnd \<and>
     (case scopes_open ops j of [] \<Rightarrow> [] | k # _ \<Rightarrow> PrimaryData (ops ! k)) = l"

definition exits :: "InterpreterOperation \<Rightarrow> bool" where
  "exits op \<longleftrightarrow> op_Code op = OpCode_Goto \<and> PrimaryData op \<noteq> [] \<and> 0 \<le> op_Index op"

definition continues :: "InterpreterOperation \<Rightarrow> bool" where
  "continues op \<longleftrightarrow> op_Code op = OpCode_Goto \<and> PrimaryData op \<noteq> [] \<and> op_Index op < 0"

definition goes_to :: "int \<Rightarrow> InterpreterOperation \<Rightarrow> InterpreterOperation" where
  "goes_to t op = op\<lparr>op_Index := t, PrimaryData := []\<rparr>"

definition plain_begin :: "InterpreterOperation \<Rightarrow> InterpreterOperation" where
  "plain_begin op = op\<lparr>PrimaryData := [], Target := [], Options := gm_del continueTargetOption (Options op)\<rparr>"

text \<open>The operation that stands at \<open>i\<close> in the resolved code.\<close>

definition resolved_as :: "InterpreterOperation list \<Rightarrow> nat \<Rightarrow> InterpreterOperation \<Rightarrow> bool" where
  "resolved_as ops i op' \<longleftrightarrow>
     (if continues (ops ! i) then
        \<exists>k t. find (\<lambda>k. PrimaryData (ops ! k) = PrimaryData (ops ! i)) (scopes_open ops i) = Some k \<and>
          Target (ops ! k) \<noteq> [] \<and> scope_start k (ops ! k) = Inr t \<and> op' = goes_to t (ops ! i)
      else if exits (ops ! i) then
        \<exists>j. i < j \<and> j < length ops \<and> ends_scope ops (PrimaryData (ops ! i)) j \<and>
          (\<forall>j'. i < j' \<and> j' < j \<longrightarrow> \<not> ends_scope ops (PrimaryData (ops ! i)) j') \<and> op' = goes_to (int j) (ops ! i)
      else if op_Code (ops ! i) = OpCode_ScopeBegin then op' = plain_begin (ops ! i)
      else op' = ops ! i)"

section \<open>The pass\<close>

definition item_of :: "InterpreterOperation list \<Rightarrow> labelStackItem \<Rightarrow> nat \<Rightarrow> bool" where
  "item_of ops item k \<longleftrightarrow> ls_label item = PrimaryData (ops ! k) \<and> scope_start k (ops ! k) = Inr (ls_start item) \<and>
     ls_isLoop item = (Target (ops ! k) \<noteq> [])"

text \<open>What holds of the state before the operation at \<open>i\<close>.\<close>

definition pass_inv :: "InterpreterOperation list \<Rightarrow> nat \<Rightarrow> label_state \<Rightarrow> bool" where
  "pass_inv ops i s \<longleftrightarrow> (case s of (labels, gotos, ops') \<Rightarrow>
     length ops' = length ops \<and> list_all2 (item_of ops) labels (scopes_open ops i) \<and>
     (\<forall>k. i \<le> k \<and> k < length ops \<longrightarrow> ops' ! k = ops ! k) \<and>
     (\<forall>k \<in> set gotos. k < i \<and> exits (ops ! k) \<and> ops' ! k = ops ! k \<and>
        (\<forall>j. k < j \<and> j < i \<longrightarrow> \<not> ends_scope ops (PrimaryData (ops ! k)) j)) \<and>
     (\<forall>k. k < i \<and> k \<notin> set gotos \<longrightarrow> resolved_as ops k (ops' ! k)))"

lemma find_item:
  assumes "list_all2 (item_of ops) labels ks"
  shows "(filter (\<lambda>item. ls_label item = l) labels = [] \<longrightarrow> find (\<lambda>k. PrimaryData (ops ! k) = l) ks = None) \<and>
    (\<forall>item rest. filter (\<lambda>item. ls_label item = l) labels = item # rest \<longrightarrow>
      (\<exists>k. find (\<lambda>k. PrimaryData (ops ! k) = l) ks = Some k \<and> item_of ops item k))"
  using assms by (induction rule: list_all2_induct) (auto simp: item_of_def)

lemma set_gotos:
  "\<forall>i \<in> set is. i < length ops \<Longrightarrow> k < length ops \<Longrightarrow>
   fold (\<lambda>i. set_goto i t) is ops ! k = (if k \<in> set is then goes_to t (ops ! k) else ops ! k)"
  "length (fold (\<lambda>i. set_goto i t) is ops) = length ops"
  by (induction "is" arbitrary: ops) (auto simp: set_goto_def goes_to_def nth_list_update)

lemma pass_invD:
  assumes "pass_inv ops i (labels, gotos, ops')"
  shows "length ops' = length ops" "list_all2 (item_of ops) labels (scopes_open ops i)"
    "\<And>k. i \<le> k \<Longrightarrow> k < length ops \<Longrightarrow> ops' ! k = ops ! k"
    "\<And>k. k \<in> set gotos \<Longrightarrow> k < i \<and> exits (ops ! k) \<and> ops' ! k = ops ! k"
    "\<And>k j. k \<in> set gotos \<Longrightarrow> k < j \<Longrightarrow> j < i \<Longrightarrow> \<not> ends_scope ops (PrimaryData (ops ! k)) j"
    "\<And>k. k < i \<Longrightarrow> k \<notin> set gotos \<Longrightarrow> resolved_as ops k (ops' ! k)"
  using assms by (auto simp: pass_inv_def)

lemma pass_inv_end:
  assumes inv: "pass_inv ops i (labels, gotos, ops')" and i: "i < length ops" and step: "reconcile_op i (labels, gotos, ops') = Inr s"
    and ending: "op_Code (ops ! i) = OpCode_ScopeEnd"
  shows "pass_inv ops (Suc i) s"
proof -
  note len = pass_invD(1) [OF inv] and labels = pass_invD(2) [OF inv] and later = pass_invD(3) [OF inv]
    and waiting = pass_invD(4,5) [OF inv] and settled = pass_invD(6) [OF inv]
  have here: "ops' ! i = ops ! i" using later i by simp
  let ?label = "case labels of [] \<Rightarrow> [] | item # _ \<Rightarrow> ls_label item"
  let ?ends = "\<lambda>k. PrimaryData (ops ! k) = ?label"
  have label: "ends_scope ops l i \<longleftrightarrow> ?label = l" for l
    using ending labels by (auto simp: ends_scope_def item_of_def list_all2_Cons1 list_all2_Cons2 split: list.splits)
  have "filter (\<lambda>k. PrimaryData (ops' ! k) = ?label) gotos = filter ?ends gotos" "filter (\<lambda>k. PrimaryData (ops' ! k) \<noteq> ?label) gotos = filter (\<lambda>k. \<not> ?ends k) gotos"
    by (auto intro!: filter_cong simp: waiting(1))
  then have s: "s = (tl labels, filter (\<lambda>k. \<not> ?ends k) gotos, fold (\<lambda>k. set_goto k (int i)) (filter ?ends gotos) ops')"
    using step here ending by (simp add: reconcile_op_def Let_def comp_def)
  let ?new = "fold (\<lambda>k. set_goto k (int i)) (filter ?ends gotos) ops'"
  have new: "?new ! k = (if k \<in> set gotos \<and> ?ends k then goes_to (int i) (ops' ! k) else ops' ! k)" if "k < length ops" for k
  proof -
    have "\<forall>j \<in> set (filter ?ends gotos). j < length ops'" using waiting(1) i len by fastforce
    then show ?thesis using that set_gotos(1) [of "filter ?ends gotos" ops' k "int i"] len by simp
  qed
  have "resolved_as ops k (goes_to (int i) (ops ! k))" if "k \<in> set gotos" "?ends k" for k
  proof -
    have k: "k < i" "exits (ops ! k)" "\<not> continues (ops ! k)" using waiting(1) [OF that(1)] by (auto simp: exits_def continues_def)
    moreover have "ends_scope ops (PrimaryData (ops ! k)) i" using label that(2) by metis
    ultimately show ?thesis using waiting(2) [OF that(1)] i unfolding resolved_as_def by auto
  qed
  moreover have "resolved_as ops i (ops ! i)" using ending by (simp add: resolved_as_def continues_def exits_def)
  moreover have "list_all2 (item_of ops) (tl labels) (tl (scopes_open ops i))" using labels by (cases labels) (auto simp: list_all2_Cons1)
  moreover have "k < length ops" "\<not> Suc i \<le> k" if "k \<in> set gotos" for k using waiting(1) [OF that] i by simp_all
  ultimately show ?thesis using ending waiting settled later len i label here unfolding s
    by (auto simp: pass_inv_def set_gotos(2) new less_Suc_eq)
qed

lemma pass_inv_step:
  assumes inv: "pass_inv ops i (labels, gotos, ops')" and i: "i < length ops" and step: "reconcile_op i (labels, gotos, ops') = Inr s"
  shows "pass_inv ops (Suc i) s"
proof -
  note len = pass_invD(1) [OF inv] and labels = pass_invD(2) [OF inv] and later = pass_invD(3) [OF inv]
    and waiting = pass_invD(4,5) [OF inv] and settled = pass_invD(6) [OF inv]
  have here: "ops' ! i = ops ! i" using later i by simp
  have skip: "\<not> ends_scope ops l i" if "op_Code (ops ! i) \<noteq> OpCode_ScopeEnd" for l using that by (simp add: ends_scope_def)
  consider (again) "continues (ops ! i)" | (leaving) "exits (ops ! i)" | (scope) "op_Code (ops ! i) = OpCode_ScopeBegin"
    | (ending) "op_Code (ops ! i) = OpCode_ScopeEnd"
    | (other) "\<not> continues (ops ! i)" "\<not> exits (ops ! i)" "op_Code (ops ! i) \<noteq> OpCode_ScopeBegin" "op_Code (ops ! i) \<noteq> OpCode_ScopeEnd"
    by blast
  then show ?thesis
  proof cases
    case again
    then obtain item rest where item: "filter (\<lambda>item. ls_label item = PrimaryData (ops ! i)) labels = item # rest" "ls_isLoop item"
      and s: "s = (labels, gotos, ops'[i := goes_to (ls_start item) (ops ! i)])"
      using step here by (auto simp: reconcile_op_def continues_def set_goto_def goes_to_def Let_def split: list.splits if_splits)
    have "resolved_as ops i (goes_to (ls_start item) (ops ! i))"
      using again item find_item [OF labels, of "PrimaryData (ops ! i)"] by (auto simp: resolved_as_def item_of_def)
    then show ?thesis using again labels waiting settled later len i skip unfolding s
      by (auto simp: pass_inv_def continues_def nth_list_update less_Suc_eq)
  next
    case leaving
    then have s: "s = (labels, i # gotos, ops')" using step here by (auto simp: reconcile_op_def exits_def Let_def)
    show ?thesis using leaving labels waiting settled later len i here skip unfolding s
      by (auto simp: pass_inv_def exits_def less_Suc_eq)
  next
    case scope
    then obtain start where start: "scope_start i (ops ! i) = Inr start"
      and s: "s = (\<lparr>ls_label = PrimaryData (ops ! i), ls_start = start, ls_isLoop = (Target (ops ! i) \<noteq> [])\<rparr> # labels, gotos, ops'[i := plain_begin (ops ! i)])"
      using step here by (auto simp: reconcile_op_def plain_begin_def Let_def split: sum.splits)
    have "resolved_as ops i (plain_begin (ops ! i))" using scope by (simp add: resolved_as_def continues_def exits_def)
    then show ?thesis using scope labels waiting settled later len i skip start unfolding s
      by (auto simp: pass_inv_def nth_list_update less_Suc_eq item_of_def)
  next
    case ending
    then show ?thesis by (rule pass_inv_end [OF inv i step])
  next
    case other
    then have s: "s = (labels, gotos, ops')"
      using step here by (auto simp: reconcile_op_def continues_def exits_def Let_def split: if_splits)
    have "resolved_as ops i (ops ! i)" using other by (simp add: resolved_as_def)
    then show ?thesis using other labels waiting settled later len i here skip unfolding s
      by (auto simp: pass_inv_def less_Suc_eq)
  qed
qed

lemma pass_inv_run:
  "pass_inv ops i s \<Longrightarrow> i + n \<le> length ops \<Longrightarrow> reconcile_from i n s = Inr s' \<Longrightarrow> pass_inv ops (i + n) s'"
proof (induction i n s rule: reconcile_from.induct)
  case (2 i n s)
  obtain labels gotos ops' where s: "s = (labels, gotos, ops')" by (cases s)
  obtain s1 where "reconcile_op i s = Inr s1" "reconcile_from (Suc i) n s1 = Inr s'" using "2.prems"(3) by (auto split: sum.splits)
  then show ?case using "2.IH" [of s1] pass_inv_step [of ops i labels gotos ops' s1] "2.prems" s by simp
qed simp

section \<open>The result\<close>

text \<open>C6. When labels can be resolved, the code has as many operations as before, and each is known exactly. A \<open>CONTINUE\<close> goes to the start of the innermost open scope with its label, which
  is a loop: the operation that the scope's option for this names, or else the one behind its beginning. An \<open>EXIT\<close> goes to the first end of a scope with its label that stands behind it, whether that scope contains the \<open>EXIT\<close> or not. The
  beginnings of scopes lose their label and the mark of a loop. Every other operation, and all other data of these, is unchanged.\<close>

theorem reconciled_code:
  assumes "reconcileLabels ops = Inr ops'"
  shows "length ops' = length ops \<and> (\<forall>i < length ops.
    if continues (ops ! i) then
      \<exists>k t. find (\<lambda>k. PrimaryData (ops ! k) = PrimaryData (ops ! i)) (scopes_open ops i) = Some k \<and>
        Target (ops ! k) \<noteq> [] \<and> scope_start k (ops ! k) = Inr t \<and> ops' ! i = (ops ! i)\<lparr>op_Index := t, PrimaryData := []\<rparr>
    else if exits (ops ! i) then
      \<exists>j. i < j \<and> j < length ops \<and> ends_scope ops (PrimaryData (ops ! i)) j \<and>
        (\<forall>j'. i < j' \<and> j' < j \<longrightarrow> \<not> ends_scope ops (PrimaryData (ops ! i)) j') \<and> ops' ! i = (ops ! i)\<lparr>op_Index := int j, PrimaryData := []\<rparr>
    else if op_Code (ops ! i) = OpCode_ScopeBegin then
      ops' ! i = (ops ! i)\<lparr>PrimaryData := [], Target := [], Options := gm_del continueTargetOption (Options (ops ! i))\<rparr>
    else ops' ! i = ops ! i)"
proof -
  obtain labels where run: "reconcile_from 0 (length ops) ([], [], ops) = Inr (labels, [], ops')"
    using assms by (auto simp: reconcileLabels_def split: sum.splits list.splits)
  have "pass_inv ops 0 ([], [], ops)" by (simp add: pass_inv_def)
  from pass_inv_run [OF this _ run] have "length ops' = length ops" "\<forall>i < length ops. resolved_as ops i (ops' ! i)"
    by (simp_all add: pass_inv_def)
  then show ?thesis unfolding resolved_as_def goes_to_def plain_begin_def by blast
qed

text \<open>A loop with a \<open>CONTINUE\<close> and an \<open>EXIT\<close> in front of an inner loop of the same label.\<close>

definition shadowed :: "InterpreterOperation list" where
  "shadowed =
     (let scope = (new_op OpCode_ScopeBegin)\<lparr>PrimaryData := gs ''a'', Target := gs ''loop''\<rparr>;
          jump = (\<lambda>i. (new_op OpCode_Goto)\<lparr>PrimaryData := gs ''a'', op_Index := i\<rparr>) in
      [scope, jump (-1), jump 0, scope, jump (-1), new_op OpCode_ScopeEnd, new_op OpCode_Return, new_op OpCode_ScopeEnd])"

theorem reconciled_code_witness:
  "\<exists>ops'. reconcileLabels shadowed = Inr ops' \<and> length ops' = 8 \<and> ops' ! 2 = (shadowed ! 2)\<lparr>op_Index := 5, PrimaryData := []\<rparr>"
proof -
  have "case reconcileLabels shadowed of Inl _ \<Rightarrow> False | Inr _ \<Rightarrow> True" by code_simp
  then obtain ops' where ops': "reconcileLabels shadowed = Inr ops'" by (auto split: sum.splits)
  have facts: "length shadowed = 8" "exits (shadowed ! 2)" "\<not> continues (shadowed ! 2)" "ends_scope shadowed (PrimaryData (shadowed ! 2)) 5"
    "\<not> ends_scope shadowed (PrimaryData (shadowed ! 2)) 3" "\<not> ends_scope shadowed (PrimaryData (shadowed ! 2)) 4" by code_simp+
  obtain j where j: "2 < j" "ends_scope shadowed (PrimaryData (shadowed ! 2)) j"
    "\<forall>j'. 2 < j' \<and> j' < j \<longrightarrow> \<not> ends_scope shadowed (PrimaryData (shadowed ! 2)) j'" "ops' ! 2 = (shadowed ! 2)\<lparr>op_Index := int j, PrimaryData := []\<rparr>"
    using spec [OF conjunct2 [OF reconciled_code [OF ops']], of 2] facts by auto
  have "\<not> 5 < j" using j(3) facts(4) by auto
  moreover have "j \<noteq> 3" "j \<noteq> 4" using j(2) facts by auto
  ultimately have "j = 5" using j(1) by linarith
  then show ?thesis using ops' j(4) reconciled_code [OF ops'] facts(1) by auto
qed

end
