(* ===== verification/Pg_Types.thy ===== *)
theory Pg_Types
  imports Id_Wrappers
begin

text \<open>
  The types of PostgreSQL as far as casts and the resolution of functions look at them: \<open>src/server/types/type.go\<close> with the
  pseudo-types of \<open>any.go\<close>, \<open>any_array.go\<close>, \<open>any_element.go\<close>, \<open>any_nonarray.go\<close>, \<open>unknown.go\<close> and \<open>text.go\<close>. A pointer to the
  null type is \<open>None\<close>. The array type of a type points back to it, so it is only known by whether it exists; a record of
  functions supplies it, together with the output function of type modifiers.
\<close>

section \<open>Types\<close>

datatype doltgres_type = PgType
  (ty_ID: Id)
  (ty_TypType: byte)
  (ty_TypCategory: byte)
  (ty_IsPreferred: bool)
  (ty_Elem: "doltgres_type option")
  (ty_has_Array: bool)
  (ty_BaseTypeType: "doltgres_type option")
  (ty_CompositeAttrs: "(gostring \<times> doltgres_type) list")
  (ty_attTypMod: int)
  (ty_InternalName: gostring)

record type_system =
  TypModOut :: "doltgres_type \<Rightarrow> int \<Rightarrow> gostring option"
  array_type :: "doltgres_type \<Rightarrow> doltgres_type"
  internal_type :: "doltgres_type \<Rightarrow> doltgres_type option"

text \<open>The name of a type; ids of types always have two segments.\<close>

definition ty_Name :: "doltgres_type \<Rightarrow> gostring" where
  "ty_Name t = (case Type_TypeName (ty_ID t) of Some n \<Rightarrow> n | None \<Rightarrow> [])"

definition ty_String :: "type_system \<Rightarrow> doltgres_type \<Rightarrow> gostring" where
  "ty_String ts t =
     (let str = (if ty_InternalName t = [] then ty_Name t else ty_InternalName t) in
      if ty_attTypMod t \<noteq> - 1 then (case TypModOut ts t (ty_attTypMod t) of Some l \<Rightarrow> str @ l | None \<Rightarrow> str) else str)"

fun WithAttTypMod :: "int \<Rightarrow> doltgres_type \<Rightarrow> doltgres_type" where
  "WithAttTypMod tm (PgType i tt c p e a b at _ n) = PgType i tt c p e a b at tm n"

section \<open>Built-in types\<close>

definition toInternal :: "gostring \<Rightarrow> Id" where
  "toInternal typeName = NewType (gs ''pg_catalog'') typeName"

text \<open>The categories are the letters of \<open>doltgres_type\<close>: A array, C composite, E enum, N numeric, P pseudo, R range, S string, X unknown.\<close>

definition pseudo_type :: "gostring \<Rightarrow> doltgres_type" where
  "pseudo_type n = PgType (toInternal n) 112 80 False None False None [] (- 1) []"

definition Any_type :: doltgres_type where "Any_type = pseudo_type (gs ''any'')"

definition AnyElement :: doltgres_type where "AnyElement = pseudo_type (gs ''anyelement'')"

definition AnyArray :: doltgres_type where "AnyArray = pseudo_type (gs ''anyarray'')"

definition AnyNonArray :: doltgres_type where "AnyNonArray = pseudo_type (gs ''anynonarray'')"

definition Internal_type :: doltgres_type where "Internal_type = pseudo_type (gs ''internal'')"

definition Unknown :: doltgres_type where "Unknown = PgType (toInternal (gs ''unknown'')) 112 88 False None False None [] (- 1) []"

definition Text_type :: doltgres_type where "Text_type = PgType (toInternal (gs ''text'')) 98 83 True None True None [] (- 1) []"

section \<open>Questions about a type\<close>

definition IsRecordType :: "doltgres_type \<Rightarrow> bool" where
  "IsRecordType t \<longleftrightarrow> ty_TypType t = 112 \<and> ty_Name t = gs ''record''"

definition IsCompositeType :: "doltgres_type \<Rightarrow> bool" where
  "IsCompositeType t \<longleftrightarrow> ty_TypType t = 99 \<or> IsRecordType t"

definition IsArrayType :: "doltgres_type \<Rightarrow> bool" where
  "IsArrayType t \<longleftrightarrow> ty_TypCategory t = 65 \<and> ty_Elem t \<noteq> None \<and> \<not> ty_has_Array t \<or>
     ty_TypCategory t = 80 \<and> ty_Name t = gs ''anyarray''"

definition IsPolymorphicType :: "doltgres_type \<Rightarrow> bool" where
  "IsPolymorphicType t \<longleftrightarrow>
     ty_Name t \<in> {gs ''anyelement'', gs ''anyarray'', gs ''anynonarray'', gs ''anyenum'', gs ''anyrange''}"

definition IsValidForPolymorphicType :: "doltgres_type \<Rightarrow> doltgres_type \<Rightarrow> bool" where
  "IsValidForPolymorphicType t target =
     (if ty_Name t = gs ''any'' then True
      else if ty_Name t = gs ''anyelement'' then True
      else if ty_Name t = gs ''anyarray'' then ty_TypCategory target = 65
      else if ty_Name t = gs ''anynonarray'' then ty_TypCategory target \<noteq> 65
      else if ty_Name t = gs ''anyenum'' then ty_TypCategory target = 69
      else if ty_Name t = gs ''anyrange'' then ty_TypCategory target = 82
      else False)"

definition ArrayBaseType :: "doltgres_type \<Rightarrow> doltgres_type" where
  "ArrayBaseType t =
     (if ty_ID t = ty_ID AnyArray then AnyElement
      else (case ty_Elem t of None \<Rightarrow> t | Some e \<Rightarrow> WithAttTypMod (ty_attTypMod t) e))"

definition ToArrayType :: "type_system \<Rightarrow> doltgres_type \<Rightarrow> doltgres_type" where
  "ToArrayType ts t = (if IsArrayType t then t else array_type ts t)"

text \<open>A domain always has a base type.\<close>

fun DomainUnderlyingBaseType :: "doltgres_type \<Rightarrow> doltgres_type" where
  "DomainUnderlyingBaseType (PgType i tt c p e a (Some b) at tm n) =
     (if ty_TypType b = 100 then DomainUnderlyingBaseType b else b)"
| "DomainUnderlyingBaseType (PgType i tt c p e a None at tm n) = PgType i tt c p e a None at tm n"

section \<open>Lemmas\<close>

lemma WithAttTypMod_simps [simp]:
  "ty_ID (WithAttTypMod tm t) = ty_ID t" "ty_TypType (WithAttTypMod tm t) = ty_TypType t"
  "ty_TypCategory (WithAttTypMod tm t) = ty_TypCategory t" "ty_Elem (WithAttTypMod tm t) = ty_Elem t"
  "ty_Name (WithAttTypMod tm t) = ty_Name t" "size (WithAttTypMod tm t) = size t"
  by (cases t; simp add: ty_Name_def)+

lemma elem_smaller: "ty_Elem t = Some e \<Longrightarrow> size e < size t"
  by (cases t) auto

text \<open>A measure that \<open>ArrayBaseType\<close> decreases, unless it is the identity.\<close>

definition array_rank :: "doltgres_type \<Rightarrow> nat" where
  "array_rank t = 2 * size t + (if ty_ID t = ty_ID AnyArray then 1 else 0)"

lemma AnyElement_rank: "array_rank AnyElement < array_rank t" if "ty_ID t = ty_ID AnyArray"
proof -
  have "ty_ID AnyElement \<noteq> ty_ID AnyArray" by code_simp
  moreover have "size AnyElement \<le> size t"
    by (cases t; cases "ty_Elem t"; cases "ty_BaseTypeType t") (simp_all add: AnyElement_def pseudo_type_def)
  ultimately show ?thesis using that by (simp add: array_rank_def)
qed

lemma ArrayBaseType_rank: "ArrayBaseType t = t \<or> array_rank (ArrayBaseType t) < array_rank t"
proof (cases "ty_ID t = ty_ID AnyArray")
  case True
  then show ?thesis using AnyElement_rank [of t] by (simp add: ArrayBaseType_def)
next
  case False
  then show ?thesis using elem_smaller [of t] by (cases "ty_Elem t") (simp_all add: ArrayBaseType_def array_rank_def)
qed

end
