(* ===== verification/Casts.thy ===== *)
theory Casts
  imports Pg_Types Plpgsql_Text Codec_Instances
begin

text \<open>
  The collection of casts: \<open>src/core/casts\<close> (\<open>collection.go\<close>, \<open>serialization.go\<close>, \<open>root_object.go\<close>, \<open>collection_funcs.go\<close>). The
  built-in casts are a map that \<open>src/server/cast\<close> fills; user-defined ones are stored by id in a map of the node store of Dolt,
  here from an id to the stored bytes. The functions behind a cast (input, output, built-in conversions, functions in SQL) are
  parameters. Go recurses for ever on a pair of array types that are their own base types; that is the error \<open>Endless\<close>.
\<close>

section \<open>Casts\<close>

abbreviation (input) CastType_Explicit :: byte where "CastType_Explicit \<equiv> 0"
abbreviation (input) CastType_Assignment :: byte where "CastType_Assignment \<equiv> 1"
abbreviation (input) CastType_Implicit :: byte where "CastType_Implicit \<equiv> 2"

text \<open>A conversion in Go is a function of the package \<open>cast\<close>, the closure for arrays with the cast of the elements, or the closure
  for records with the kind of cast that was asked for.\<close>

datatype 'f Cast = Cast
  (c_ID: Id)
  (c_CastType: byte)
  (c_Function: Id)
  (c_BuiltIn: "'f cast_fn option")
  (c_UseInOut: bool)
  (c_request: byte)
and 'f cast_fn = BuiltInFn 'f | ArrayFn "'f Cast" | RecordFn byte

abbreviation (input) NullFunction :: Id where "NullFunction \<equiv> []"

definition no_cast :: "'f Cast" where
  "no_cast = Cast [] 0 NullFunction None False 0"

definition new_cast :: "Id \<Rightarrow> byte \<Rightarrow> 'f cast_fn option \<Rightarrow> bool \<Rightarrow> 'f Cast" where
  "new_cast castID castType fn useInOut = Cast castID castType NullFunction fn useInOut castType"

abbreviation cast_valid :: "'f Cast \<Rightarrow> bool" where
  "cast_valid c \<equiv> Id_IsValid (c_ID c)"

record 'f Collection =
  builtInCasts :: "(Id, 'f Cast) gomap"
  Contents :: "(Id, byte list) gomap"

datatype cast_error =
    CastExists Id
  | CannotCreateBuiltIn Id
  | CannotDeleteBuiltIn Id
  | CastDoesNotExist Id
  | CastVersion uint64
  | CastExtraData
  | CastReaderPanic
  | Endless
  | InvalidId
  | DifferentCasts
  | UnableToMerge
  | IoError
  | TypePanic
  | RecordInput
  | RecordArity
  | GmsTypeInRecord
  | NoColumnCast nat
  | FunctionNotFound Id
  | BadParameterCount
  | FunctionError
  | Mislabeled Id

section \<open>The stored form\<close>

definition Cast_Serialize :: "'f Cast \<Rightarrow> byte list" where
  "Cast_Serialize c = (if \<not> cast_valid c then [] else
     let writer = NewWriter 256;
         writer = Writer_VariableUint 0 writer;
         writer = Writer_Id (c_ID c) writer;
         writer = Writer_Uint8 (c_CastType c) writer;
         writer = Writer_Id (c_Function c) writer;
         writer = Writer_Bool (c_UseInOut c) writer
     in Writer_Data writer)"

definition read_cast :: "'f Cast rd" where
  "read_cast r = do {
     (i, r) \<leftarrow> Reader_Id r;
     (ct, r) \<leftarrow> Reader_Uint8 r;
     (fn, r) \<leftarrow> Reader_Id r;
     (io, r) \<leftarrow> Reader_Bool r;
     Some (Cast i ct fn None io 0, r)
   }"

definition DeserializeCast :: "byte list \<Rightarrow> cast_error + 'f Cast" where
  "DeserializeCast data =
     (if length data = 0 then Inr no_cast
      else (case Reader_VariableUint (NewReader data []) of
        None \<Rightarrow> Inl CastReaderPanic
      | Some (version, r) \<Rightarrow>
          if version \<noteq> 0 then Inl (CastVersion version)
          else (case read_cast r of
            None \<Rightarrow> Inl CastReaderPanic
          | Some (c, r) \<Rightarrow> if \<not> Reader_IsEmpty r then Inl CastExtraData else Inr c)))"

section \<open>Finding a cast\<close>

definition getSizingOrIdentityCast :: "Id \<Rightarrow> doltgres_type \<Rightarrow> doltgres_type \<Rightarrow> byte \<Rightarrow> 'f Cast" where
  "getSizingOrIdentityCast castID sourceType targetType castType =
     (if ty_ID sourceType \<noteq> ty_ID targetType then no_cast
      else new_cast castID castType None (ty_attTypMod sourceType \<noteq> ty_attTypMod targetType))"

definition getRecordCast :: "doltgres_type \<Rightarrow> doltgres_type \<Rightarrow> byte \<Rightarrow> 'f Cast" where
  "getRecordCast sourceType targetType castType =
     (if IsRecordType sourceType \<and> IsCompositeType targetType then
        new_cast (NewCast (ty_ID sourceType) (ty_ID targetType)) castType (if IsRecordType targetType then None else Some (RecordFn castType)) False
      else no_cast)"

text \<open>What the three functions do with the cast that was found; the last argument is it.\<close>

definition identity_or_record :: "doltgres_type \<Rightarrow> doltgres_type \<Rightarrow> byte \<Rightarrow> 'f Cast" where
  "identity_or_record sourceType targetType castType =
     (let c = getSizingOrIdentityCast (NewCast (ty_ID sourceType) (ty_ID targetType)) sourceType targetType castType in
      if cast_valid c then c else getRecordCast sourceType targetType castType)"

definition explicit_after :: "doltgres_type \<Rightarrow> doltgres_type \<Rightarrow> 'f Cast \<Rightarrow> 'f Cast" where
  "explicit_after sourceType targetType c =
     (if cast_valid c then c
      else let c = identity_or_record sourceType targetType CastType_Explicit in
        if cast_valid c then c
        else if ty_TypCategory sourceType = 83 \<or> ty_TypCategory targetType = 83 \<or> ty_ID sourceType = ty_ID Unknown
        then new_cast (NewCast (ty_ID sourceType) (ty_ID targetType)) CastType_Explicit None True
        else no_cast)"

definition assignment_after :: "doltgres_type \<Rightarrow> doltgres_type \<Rightarrow> 'f Cast \<Rightarrow> 'f Cast" where
  "assignment_after sourceType targetType c =
     (if cast_valid c then (if c_CastType c = CastType_Explicit then no_cast else c)
      else let c = identity_or_record sourceType targetType CastType_Assignment in
        if cast_valid c then c
        else if ty_TypCategory targetType = 83 \<or> ty_ID sourceType = ty_ID Unknown
        then new_cast (NewCast (ty_ID sourceType) (ty_ID targetType)) CastType_Assignment None True
        else no_cast)"

definition implicit_after :: "doltgres_type \<Rightarrow> doltgres_type \<Rightarrow> 'f Cast \<Rightarrow> 'f Cast" where
  "implicit_after sourceType targetType c =
     (if cast_valid c then (if c_CastType c = CastType_Implicit then c else no_cast)
      else let c = identity_or_record sourceType targetType CastType_Implicit in
        if cast_valid c then c
        else if ty_ID sourceType = ty_ID Unknown
        then new_cast (NewCast (ty_ID sourceType) (ty_ID targetType)) CastType_Implicit None True
        else no_cast)"

definition cast_after :: "byte \<Rightarrow> doltgres_type \<Rightarrow> doltgres_type \<Rightarrow> 'f Cast \<Rightarrow> 'f Cast" where
  "cast_after castType sourceType targetType c =
     (if castType = CastType_Explicit then explicit_after sourceType targetType c
      else if castType = CastType_Assignment then assignment_after sourceType targetType c
      else if castType = CastType_Implicit then implicit_after sourceType targetType c
      else no_cast)"

text \<open>The types are not known when a cast is fetched by its id.\<close>

function getCast :: "'f Collection \<Rightarrow> Id \<Rightarrow> (doltgres_type \<times> doltgres_type) option \<Rightarrow> byte \<Rightarrow> cast_error + 'f Cast" where
  "getCast cs castID types castType =
     (case gm_get (builtInCasts cs) castID of
       Some c \<Rightarrow> Inr c
     | None \<Rightarrow> (case gm_get (Contents cs) castID of
         Some data \<Rightarrow> (case DeserializeCast data of
             Inl err \<Rightarrow> Inl err
           | Inr c \<Rightarrow> Inr (Cast (c_ID c) (c_CastType c) (c_Function c) (c_BuiltIn c) (c_UseInOut c) castType))
       | None \<Rightarrow> (case types of
           None \<Rightarrow> Inr no_cast
         | Some (sourceType, targetType) \<Rightarrow>
             if IsArrayType sourceType \<and> IsArrayType targetType then
               let fromBaseType = ArrayBaseType sourceType; toBaseType = ArrayBaseType targetType in
               if fromBaseType = sourceType \<and> toBaseType = targetType then Inl Endless
               else (case getCast cs (NewCast (ty_ID fromBaseType) (ty_ID toBaseType)) (Some (fromBaseType, toBaseType)) castType of
                   Inl err \<Rightarrow> Inl err
                 | Inr c \<Rightarrow>
                     let baseCast = cast_after castType fromBaseType toBaseType c in
                     Inr (if cast_valid baseCast then new_cast castID castType (Some (ArrayFn baseCast)) False else no_cast))
             else Inr no_cast)))"
  by pat_completeness auto

termination
proof (relation "measure (\<lambda>(_, _, types, _). case types of None \<Rightarrow> 0 | Some (s, t) \<Rightarrow> array_rank s + array_rank t)")
qed (use ArrayBaseType_rank in \<open>auto intro: add_less_le_mono add_le_less_mono less_imp_le, (metis add_less_mono add_less_cancel_left add_less_cancel_right)+\<close>)

declare getCast.simps [simp del]

definition GetExplicitCast :: "'f Collection \<Rightarrow> doltgres_type \<Rightarrow> doltgres_type \<Rightarrow> cast_error + 'f Cast" where
  "GetExplicitCast cs sourceType targetType =
     (case getCast cs (NewCast (ty_ID sourceType) (ty_ID targetType)) (Some (sourceType, targetType)) CastType_Explicit of
       Inl err \<Rightarrow> Inl err | Inr c \<Rightarrow> Inr (explicit_after sourceType targetType c))"

definition GetAssignmentCast :: "'f Collection \<Rightarrow> doltgres_type \<Rightarrow> doltgres_type \<Rightarrow> cast_error + 'f Cast" where
  "GetAssignmentCast cs sourceType targetType =
     (case getCast cs (NewCast (ty_ID sourceType) (ty_ID targetType)) (Some (sourceType, targetType)) CastType_Assignment of
       Inl err \<Rightarrow> Inl err | Inr c \<Rightarrow> Inr (assignment_after sourceType targetType c))"

definition GetImplicitCast :: "'f Collection \<Rightarrow> doltgres_type \<Rightarrow> doltgres_type \<Rightarrow> cast_error + 'f Cast" where
  "GetImplicitCast cs sourceType targetType =
     (case getCast cs (NewCast (ty_ID sourceType) (ty_ID targetType)) (Some (sourceType, targetType)) CastType_Implicit of
       Inl err \<Rightarrow> Inl err | Inr c \<Rightarrow> Inr (implicit_after sourceType targetType c))"

section \<open>Evaluating a cast\<close>

text \<open>Values: nil, a plain value, a slice, or the fields of a record with their types, which are missing for types of the
  engine.\<close>

datatype 'v cast_val = V_nil | V_val 'v | V_array "'v cast_val list" | V_record "('v cast_val \<times> doltgres_type option) list"

datatype 'v cast_arg = ArgValue "'v cast_val" doltgres_type | ArgInt32 int | ArgBool bool

record ('f, 'v) cast_env =
  IoOutput :: "doltgres_type \<Rightarrow> 'v cast_val \<Rightarrow> gostring option"
  IoInput :: "doltgres_type \<Rightarrow> gostring \<Rightarrow> 'v cast_val option"
  call_builtin :: "'f \<Rightarrow> 'v cast_val \<Rightarrow> doltgres_type \<Rightarrow> doltgres_type \<Rightarrow> 'v cast_val option"
  function_known :: "Id \<Rightarrow> bool"
  function_strict :: "Id \<Rightarrow> bool"
  call_function :: "Id \<Rightarrow> 'v cast_arg list \<Rightarrow> 'v cast_val option"
  Convert :: "doltgres_type \<Rightarrow> 'v cast_val \<Rightarrow> bool"

fun first_error :: "('e + 'a) list \<Rightarrow> 'e + 'a list" where
  "first_error [] = Inr []"
| "first_error (Inl e # rs) = Inl e"
| "first_error (Inr x # rs) = (case first_error rs of Inl e \<Rightarrow> Inl e | Inr xs \<Rightarrow> Inr (x # xs))"

definition function_arguments :: "'f Cast \<Rightarrow> 'v cast_val \<Rightarrow> doltgres_type \<Rightarrow> doltgres_type \<Rightarrow> 'v cast_arg list option" where
  "function_arguments c v sourceType targetType =
     (let args = [ArgValue v sourceType, ArgInt32 (ty_attTypMod targetType), ArgBool (c_request c = CastType_Explicit)] in
      (case Function_ParameterCount (c_Function c) of
        Some n \<Rightarrow> if n = 1 \<or> n = 2 \<or> n = 3 then Some (take (nat n) args) else None
      | None \<Rightarrow> None))"

definition eval_function :: "('f, 'v) cast_env \<Rightarrow> 'f Cast \<Rightarrow> 'v cast_val \<Rightarrow> doltgres_type \<Rightarrow> doltgres_type \<Rightarrow> cast_error + 'v cast_val" where
  "eval_function env c v sourceType targetType =
     (if \<not> function_known env (c_Function c) then Inl (FunctionNotFound (c_Function c))
      else (case function_arguments c v sourceType targetType of
        None \<Rightarrow> Inl BadParameterCount
      | Some args \<Rightarrow>
          if v = V_nil \<and> function_strict env (c_Function c) then Inr V_nil
          else (case call_function env (c_Function c) args of None \<Rightarrow> Inl FunctionError | Some w \<Rightarrow> Inr w)))"

definition eval_in_out :: "('f, 'v) cast_env \<Rightarrow> 'v cast_val \<Rightarrow> doltgres_type \<Rightarrow> doltgres_type \<Rightarrow> cast_error + 'v cast_val" where
  "eval_in_out env v sourceType targetType =
     (if v = V_nil then Inr V_nil
      else (case IoOutput env sourceType v of
        None \<Rightarrow> Inl IoError
      | Some str \<Rightarrow> (case IoInput env targetType str of None \<Rightarrow> Inl IoError | Some w \<Rightarrow> Inr w)))"

definition position_cast :: "'f Collection \<Rightarrow> byte \<Rightarrow> doltgres_type \<Rightarrow> doltgres_type \<Rightarrow> cast_error + 'f Cast" where
  "position_cast cs castType valType outputType =
     (if castType = CastType_Explicit then GetExplicitCast cs valType outputType
      else if castType = CastType_Assignment then GetAssignmentCast cs valType outputType
      else if castType = CastType_Implicit then GetImplicitCast cs valType outputType
      else Inr no_cast)"

lemma element_smaller: "x \<in> set xs \<Longrightarrow> size x < size (V_array xs)"
  by (induction xs) auto

lemma record_field_smaller: "(x, ty) \<in> set xs \<Longrightarrow> size x < size (V_record xs)"
  by (induction xs) auto

lemma enumerated_field: "(i, (x, ty), out) \<in> set (enumerate n (zip xs ys)) \<Longrightarrow> (x, ty) \<in> set xs"
  unfolding enumerate_eq_zip by (blast dest: set_zip_rightD set_zip_leftD)

text \<open>The conversions of the elements and of the fields have no effects, so that the first error is the error, whether the
  loop stops there, as it does for records, or goes on, as it does for arrays.\<close>

function cast_Eval :: "('f, 'v) cast_env \<Rightarrow> 'f Collection \<Rightarrow> 'f Cast \<Rightarrow> 'v cast_val \<Rightarrow> doltgres_type \<Rightarrow> doltgres_type \<Rightarrow> cast_error + 'v cast_val" where
  "cast_Eval env cs c v sourceType targetType =
     (if c_UseInOut c then eval_in_out env v sourceType targetType
      else (case c_BuiltIn c of
        Some fn \<Rightarrow>
          if v = V_nil then Inr V_nil
          else (case fn of
            BuiltInFn f \<Rightarrow> (case call_builtin env f v sourceType targetType of None \<Rightarrow> Inl FunctionError | Some w \<Rightarrow> Inr w)
          | ArrayFn baseCast \<Rightarrow> (case v of
              V_array oldVals \<Rightarrow> (case first_error (map (\<lambda>oldVal. if oldVal = V_nil then Inr V_nil
                    else cast_Eval env cs baseCast oldVal (ArrayBaseType sourceType) (ArrayBaseType targetType)) oldVals) of
                  Inl err \<Rightarrow> Inl err | Inr newVals \<Rightarrow> Inr (V_array newVals))
            | _ \<Rightarrow> Inl TypePanic)
          | RecordFn castType \<Rightarrow> (case v of
              V_record vals \<Rightarrow>
                if length (ty_CompositeAttrs targetType) \<noteq> length vals then Inl RecordArity
                else (case first_error (map (\<lambda>(i, (val, valType), outputType). case valType of
                      None \<Rightarrow> Inl GmsTypeInRecord
                    | Some valType \<Rightarrow>
                        if val = V_nil then Inr (V_nil, Some outputType)
                        else (case position_cast cs castType valType outputType of
                          Inl err \<Rightarrow> Inl err
                        | Inr positionCast \<Rightarrow>
                            if \<not> cast_valid positionCast then Inl (NoColumnCast (i + 1))
                            else (case cast_Eval env cs positionCast val valType outputType of
                              Inl err \<Rightarrow> Inl err | Inr w \<Rightarrow> Inr (w, Some outputType))))
                    (enumerate 0 (zip vals (map snd (ty_CompositeAttrs targetType))))) of
                  Inl err \<Rightarrow> Inl err | Inr outputVals \<Rightarrow> Inr (V_record outputVals))
            | _ \<Rightarrow> Inl RecordInput))
      | None \<Rightarrow>
          if c_Function c \<noteq> NullFunction then eval_function env c v sourceType targetType
          else if Convert env targetType v then Inr v
          else Inl (Mislabeled (c_ID c))))"
  by pat_completeness auto

termination
  by (relation "measure (\<lambda>(_, _, _, v, _). size v)") (auto dest!: enumerated_field intro: element_smaller record_field_smaller simp del: cast_val.size)

declare cast_Eval.simps [simp del]

section \<open>Changing the collection\<close>

definition HasCast :: "'f Collection \<Rightarrow> Id \<Rightarrow> bool" where
  "HasCast cs castID \<longleftrightarrow> gm_get (builtInCasts cs) castID \<noteq> None \<or> gm_get (Contents cs) castID \<noteq> None"

definition AddCast :: "'f Cast \<Rightarrow> 'f Collection \<Rightarrow> cast_error + 'f Collection" where
  "AddCast c cs =
     (if HasCast cs (c_ID c) then Inl (CastExists (c_ID c))
      else if c_BuiltIn c \<noteq> None then Inl (CannotCreateBuiltIn (c_ID c))
      else Inr (cs\<lparr>Contents := gm_set (c_ID c) (Cast_Serialize c) (Contents cs)\<rparr>))"

fun drop_casts_check :: "'f Collection \<Rightarrow> Id list \<Rightarrow> cast_error option" where
  "drop_casts_check cs [] = None"
| "drop_casts_check cs (i # ids) =
     (if gm_get (builtInCasts cs) i \<noteq> None then Some (CannotDeleteBuiltIn i)
      else if gm_get (Contents cs) i = None then Some (CastDoesNotExist i)
      else drop_casts_check cs ids)"

definition DropCast :: "Id list \<Rightarrow> 'f Collection \<Rightarrow> cast_error + 'f Collection" where
  "DropCast ids cs = (case drop_casts_check cs ids of
     Some err \<Rightarrow> Inl err
   | None \<Rightarrow> Inr (cs\<lparr>Contents := fold gm_del ids (Contents cs)\<rparr>))"

section \<open>The collection as a set of root objects\<close>

definition DropRootObject :: "Id \<Rightarrow> 'f Collection \<Rightarrow> cast_error + 'f Collection" where
  "DropRootObject i cs = (if Id_Section i \<noteq> Section_Cast then Inl (CastDoesNotExist i) else DropCast [i] cs)"

definition GetRootObject :: "'f Collection \<Rightarrow> Id \<Rightarrow> cast_error + 'f Cast option" where
  "GetRootObject cs i =
     (if Id_Section i \<noteq> Section_Cast then Inr None
      else (case getCast cs i None CastType_Explicit of
        Inl err \<Rightarrow> Inl err | Inr c \<Rightarrow> Inr (if cast_valid c then Some c else None)))"

definition HasRootObject :: "'f Collection \<Rightarrow> Id \<Rightarrow> bool" where
  "HasRootObject cs i \<longleftrightarrow> Id_Section i = Section_Cast \<and> HasCast cs i"

definition PutRootObject :: "'f Cast \<Rightarrow> 'f Collection \<Rightarrow> cast_error + 'f Collection" where
  "PutRootObject c cs = AddCast c cs"

text \<open>The collection after a renaming comes with the error too, since it may have changed before.\<close>

definition RenameRootObject :: "Id \<Rightarrow> Id \<Rightarrow> 'f Collection \<Rightarrow> cast_error option \<times> 'f Collection" where
  "RenameRootObject oldName newName cs =
     (if \<not> Id_IsValid oldName \<or> \<not> Id_IsValid newName \<or> Id_Section oldName \<noteq> Id_Section newName \<or> Id_Section oldName \<noteq> Section_Cast
      then (Some InvalidId, cs)
      else (case getCast cs oldName None CastType_Explicit of
        Inl err \<Rightarrow> (Some err, cs)
      | Inr c \<Rightarrow> (case DropCast [newName] cs of
          Inl err \<Rightarrow> (Some err, cs)
        | Inr cs \<Rightarrow> (case AddCast (Cast newName (c_CastType c) (c_Function c) (c_BuiltIn c) (c_UseInOut c) (c_request c)) cs of
            Inl err \<Rightarrow> (Some err, cs) | Inr cs \<Rightarrow> (None, cs)))))"

text \<open>Equal hashes are equal bytes.\<close>

definition Cast_HandleMerge :: "'f Cast \<Rightarrow> 'f Cast \<Rightarrow> cast_error + 'f Cast" where
  "Cast_HandleMerge ourCast theirCast =
     (if c_ID ourCast \<noteq> c_ID theirCast then Inl DifferentCasts
      else if Cast_Serialize ourCast = Cast_Serialize theirCast then Inr ourCast
      else Inl UnableToMerge)"

section \<open>Names\<close>

definition segment_or_empty :: "gostring option \<Rightarrow> gostring" where
  "segment_or_empty s = (case s of Some x \<Rightarrow> x | None \<Rightarrow> [])"

definition CastIDToTableName :: "Id \<Rightarrow> gostring" where
  "CastIDToTableName castID =
     (let source = segment_or_empty (Cast_SourceType castID); target = segment_or_empty (Cast_TargetType castID) in
      gs ''('' @ segment_or_empty (Type_SchemaName source) @ gs '')|('' @ segment_or_empty (Type_TypeName source) @ gs '')|('' @
      segment_or_empty (Type_SchemaName target) @ gs '')|('' @ segment_or_empty (Type_TypeName target) @ gs '')'')"

lemma Index_of_fits: "Index_of s p = Some i \<Longrightarrow> i + length p \<le> length s"
  by (induction s p arbitrary: i rule: Index_of.induct)
    (auto simp: HasPrefix_def split: if_splits dest!: arg_cong [where f = length])

text \<open>\<open>strings.Split\<close> for a separator that is not empty.\<close>

function Split_on :: "gostring \<Rightarrow> gostring \<Rightarrow> gostring list" where
  "Split_on sep s = (case (if sep = [] then None else Index_of s sep) of
     None \<Rightarrow> [s]
   | Some i \<Rightarrow> take i s # Split_on sep (drop (i + length sep) s))"
  by pat_completeness auto

termination
  by (relation "measure (\<lambda>(_, s). length s)") (auto split: if_splits dest!: Index_of_fits simp flip: length_greater_0_conv)

declare Split_on.simps [simp del]

definition TrimPrefix :: "gostring \<Rightarrow> gostring \<Rightarrow> gostring" where
  "TrimPrefix p s = (if take (length p) s = p then drop (length p) s else s)"

definition TrimSuffix :: "gostring \<Rightarrow> gostring \<Rightarrow> gostring" where
  "TrimSuffix p s = (if length p \<le> length s \<and> drop (length s - length p) s = p then take (length s - length p) s else s)"

definition tableNameToID :: "gostring \<Rightarrow> Id" where
  "tableNameToID formattedName =
     (case Split_on (gs '')|('') (TrimSuffix (gs '')'') (TrimPrefix (gs ''('') formattedName)) of
       [ss, sn, ts, tn] \<Rightarrow> NewCast (NewType ss sn) (NewType ts tn)
     | _ \<Rightarrow> Null_Id)"

end
