(* ===== verification/Overloads.thy ===== *)
theory Overloads
  imports Casts
begin

text \<open>
  The overloads of a function and how a call chooses one: \<open>src/server/functions/framework/overloads.go\<close> and the resolution in
  \<open>compiled_function.go\<close>. A match without a function is \<open>None\<close>. The collection of casts is that of \<open>Casts\<close>.
\<close>

section \<open>Functions and their overloads\<close>

text \<open>What the resolution asks of a function: for a function in SQL also, for each parameter, whether it is an output, and its default.\<close>

record fn_info =
  fn_Name :: gostring
  fn_Params :: "doltgres_type list"
  fn_Return :: doltgres_type
  fn_VariadicIndex :: int
  fn_CVariadic :: bool
  fn_Strict :: bool
  fn_AllParams :: "(bool \<times> gostring) list option"

record Overloads =
  ByParamType :: "(gostring, fn_info) gomap"
  AllOverloads :: "fn_info list"

definition NewOverloads :: Overloads where
  "NewOverloads = \<lparr>ByParamType = [], AllOverloads = []\<rparr>"

datatype overload_error = DuplicateOverload gostring | VariadicNotArray gostring | VariadicOutOfRange

fun keyForParamTypes :: "type_system \<Rightarrow> doltgres_type list \<Rightarrow> gostring" where
  "keyForParamTypes ts [] = []"
| "keyForParamTypes ts [t] = ty_String ts t"
| "keyForParamTypes ts (t # u # us) = ty_String ts t @ gs '','' @ keyForParamTypes ts (u # us)"

text \<open>A variadic index outside of the parameters is a panic.\<close>

definition Overloads_Add :: "type_system \<Rightarrow> fn_info \<Rightarrow> Overloads \<Rightarrow> overload_error + Overloads" where
  "Overloads_Add ts fn os =
     (let key = keyForParamTypes ts (fn_Params fn) in
      if gm_get (ByParamType os) key \<noteq> None then Inl (DuplicateOverload (fn_Name fn))
      else if fn_VariadicIndex fn \<ge> 0 \<and> nat (fn_VariadicIndex fn) \<ge> length (fn_Params fn) then Inl VariadicOutOfRange
      else if fn_VariadicIndex fn \<ge> 0 \<and> \<not> IsArrayType (fn_Params fn ! nat (fn_VariadicIndex fn)) then Inl (VariadicNotArray (fn_Name fn))
      else Inr (os\<lparr>ByParamType := gm_set key fn (ByParamType os), AllOverloads := AllOverloads os @ [fn]\<rparr>))"

definition ExactMatchForTypes :: "type_system \<Rightarrow> Overloads \<Rightarrow> doltgres_type list \<Rightarrow> fn_info option" where
  "ExactMatchForTypes ts os types = gm_get (ByParamType os) (keyForParamTypes ts types)"

record Overload =
  ov_function :: fn_info
  ov_paramTypes :: "doltgres_type list"
  ov_argTypes :: "doltgres_type list"
  ov_variadic :: int

text \<open>The parameters of a variadic function, with the variadic one repeated to fill the number of arguments.\<close>

definition variadic_base :: "type_system \<Rightarrow> doltgres_type \<Rightarrow> doltgres_type" where
  "variadic_base ts paramType = (if paramType = AnyArray then AnyElement else ArrayBaseType (ToArrayType ts paramType))"

definition extended_params :: "type_system \<Rightarrow> doltgres_type list \<Rightarrow> nat \<Rightarrow> nat \<Rightarrow> doltgres_type list" where
  "extended_params ts params variadicIndex numParams =
     take variadicIndex params @ replicate (1 + (numParams - length params)) (variadic_base ts (params ! variadicIndex)) @ drop (variadicIndex + 1) params"

definition rest_is_default :: "(bool \<times> gostring) list \<Rightarrow> nat \<Rightarrow> bool" where
  "rest_is_default params numParams \<longleftrightarrow> list_all (\<lambda>(is_out, def). is_out \<or> def \<noteq> []) (drop numParams params)"

definition overload_for :: "type_system \<Rightarrow> nat \<Rightarrow> fn_info \<Rightarrow> Overload option" where
  "overload_for ts numParams fn =
     (let params = fn_Params fn in
      if fn_CVariadic fn then
        (if length params \<le> numParams then
           let types = params @ replicate (numParams - length params) Any_type in
           Some \<lparr>ov_function = fn, ov_paramTypes = types, ov_argTypes = types, ov_variadic = - 1\<rparr>
         else None)
      else if fn_VariadicIndex fn \<ge> 0 \<and> length params \<le> numParams then
        Some \<lparr>ov_function = fn, ov_paramTypes = params, ov_argTypes = extended_params ts params (nat (fn_VariadicIndex fn)) numParams,
          ov_variadic = fn_VariadicIndex fn\<rparr>
      else if length params = numParams then
        Some \<lparr>ov_function = fn, ov_paramTypes = params, ov_argTypes = params, ov_variadic = - 1\<rparr>
      else (case fn_AllParams fn of
        Some all \<Rightarrow> if length params > numParams \<and> rest_is_default all numParams
          then Some \<lparr>ov_function = fn, ov_paramTypes = params, ov_argTypes = params, ov_variadic = - 1\<rparr> else None
      | None \<Rightarrow> None))"

definition overloadsForParams :: "type_system \<Rightarrow> Overloads \<Rightarrow> nat \<Rightarrow> Overload list" where
  "overloadsForParams ts os numParams = List.map_filter (overload_for ts numParams) (AllOverloads os)"

text \<open>The values of a call with the variadic ones put into one slice.\<close>

definition coalesceVariadicValues :: "Overload \<Rightarrow> 'v cast_val list \<Rightarrow> 'v cast_val list" where
  "coalesceVariadicValues ovl returnValues =
     (if ov_variadic ovl < 0 then returnValues
      else let variadic = nat (ov_variadic ovl);
               firstValueAfterVariadic = variadic + 1 + (length (ov_argTypes ovl) - length (ov_paramTypes ovl)) in
        take variadic returnValues @ [V_array (drop variadic (take firstValueAfterVariadic returnValues))] @ drop firstValueAfterVariadic returnValues)"

section \<open>Compatible overloads\<close>

text \<open>All expression types whose parameter is polymorphic, up to arrays, are one type; \<open>base\<close> is the one that was seen.\<close>

fun same_base :: "doltgres_type option \<Rightarrow> (doltgres_type \<times> doltgres_type) list \<Rightarrow> bool" where
  "same_base base [] = True"
| "same_base base ((paramType, exprType) # ps) =
     (if IsPolymorphicType paramType \<and> ty_ID exprType \<noteq> ty_ID Unknown then
        let baseExprType = (if IsArrayType exprType then ArrayBaseType exprType else exprType) in
        IsValidForPolymorphicType paramType exprType \<and>
        (case base of None \<Rightarrow> same_base (Some baseExprType) ps
         | Some b \<Rightarrow> ty_ID b = ty_ID baseExprType \<and> same_base base ps)
      else same_base base ps)"

definition polymorphicTypesCompatible :: "doltgres_type list \<Rightarrow> doltgres_type list \<Rightarrow> bool" where
  "polymorphicTypesCompatible paramTypes exprTypes =
     (if length paramTypes \<noteq> length exprTypes then False
      else if length paramTypes < 2 then True
      else let paramTypes = (if \<exists>t \<in> set paramTypes. ty_ID t = ty_ID AnyArray
               then map (\<lambda>t. if ty_ID t = ty_ID AnyElement then AnyNonArray else t) paramTypes else paramTypes) in
        same_base None (zip paramTypes exprTypes))"

text \<open>The casts of the arguments of one overload; \<open>None\<close> when an argument cannot be converted. The pairs are the polymorphic
  parameters with their arguments.\<close>

fun argument_casts :: "'f Collection \<Rightarrow> (doltgres_type \<times> doltgres_type) list \<Rightarrow> cast_error + ('f Cast list \<times> (doltgres_type \<times> doltgres_type) list) option" where
  "argument_casts cs [] = Inr (Some ([], []))"
| "argument_casts cs ((argType, paramType) # ps) =
     (let bare = Cast (NewCast (ty_ID argType) (ty_ID paramType)) CastType_Explicit NullFunction None False 0 in
      if IsValidForPolymorphicType paramType argType then
        (case argument_casts cs ps of
          Inr (Some (casts, poly)) \<Rightarrow> Inr (Some (bare # casts, (paramType, argType) # poly)) | r \<Rightarrow> r)
      else if IsRecordType paramType \<and> IsCompositeType argType then
        (case argument_casts cs ps of Inr (Some (casts, poly)) \<Rightarrow> Inr (Some (bare # casts, poly)) | r \<Rightarrow> r)
      else (case GetImplicitCast cs argType paramType of
          Inl err \<Rightarrow> Inl err
        | Inr c \<Rightarrow>
            if \<not> cast_valid c then Inr None
            else (case argument_casts cs ps of Inr (Some (casts, poly)) \<Rightarrow> Inr (Some (c # casts, poly)) | r \<Rightarrow> r)))"

type_synonym 'f overloadMatch = "Overload \<times> 'f Cast list"

fun typeCompatibleOverloads :: "'f Collection \<Rightarrow> Overload list \<Rightarrow> doltgres_type list \<Rightarrow> cast_error + 'f overloadMatch list" where
  "typeCompatibleOverloads cs [] argTypes = Inr []"
| "typeCompatibleOverloads cs (ovl # os) argTypes =
     (case argument_casts cs (zip argTypes (ov_argTypes ovl)) of
       Inl err \<Rightarrow> Inl err
     | Inr r \<Rightarrow> (case typeCompatibleOverloads cs os argTypes of
         Inl err \<Rightarrow> Inl err
       | Inr ms \<Rightarrow> (case r of
           Some (casts, poly) \<Rightarrow> if polymorphicTypesCompatible (map fst poly) (map snd poly) then Inr ((ovl, casts) # ms) else Inr ms
         | None \<Rightarrow> Inr ms)))"

section \<open>Ranking\<close>

text \<open>The loops of \<open>closestTypeMatches\<close> and \<open>preferredTypeMatches\<close> keep the candidates with the largest count seen so far.\<close>

fun keep_best :: "('a \<Rightarrow> nat) \<Rightarrow> nat \<Rightarrow> 'a list \<Rightarrow> 'a list \<Rightarrow> 'a list" where
  "keep_best count best kept [] = kept"
| "keep_best count best kept (c # cs) =
     (if count c > best then keep_best count (count c) [c] cs
      else if count c = best then keep_best count best (kept @ [c]) cs
      else keep_best count best kept cs)"

definition exact_count :: "doltgres_type list \<Rightarrow> 'f overloadMatch \<Rightarrow> nat" where
  "exact_count argTypes cand = length (filter (\<lambda>(t, argType).
     ty_ID t = ty_ID argType \<or> ty_ID t = ty_ID Unknown \<and> ty_ID argType = ty_ID Text_type) (zip argTypes (ov_argTypes (fst cand))))"

definition preferred_count :: "doltgres_type list \<Rightarrow> 'f overloadMatch \<Rightarrow> nat" where
  "preferred_count argTypes cand = length (filter (\<lambda>(t, argType).
     ty_ID t \<noteq> ty_ID argType \<and> ty_IsPreferred argType) (zip argTypes (ov_argTypes (fst cand))))"

definition closestTypeMatches :: "doltgres_type list \<Rightarrow> 'f overloadMatch list \<Rightarrow> 'f overloadMatch list" where
  "closestTypeMatches argTypes candidates = keep_best (exact_count argTypes) 0 [] candidates"

definition preferredTypeMatches :: "doltgres_type list \<Rightarrow> 'f overloadMatch list \<Rightarrow> 'f overloadMatch list" where
  "preferredTypeMatches argTypes candidates = keep_best (preferred_count argTypes) 0 [] candidates"

definition string_matches :: "nat \<Rightarrow> 'f overloadMatch list \<Rightarrow> 'f overloadMatch list" where
  "string_matches argIdx ms =
     (let newMatches = filter (\<lambda>m. ty_TypCategory (ov_argTypes (fst m) ! argIdx) = 83) ms in
      if newMatches \<noteq> [] then newMatches else ms)"

definition unknownTypeCategoryMatches :: "doltgres_type list \<Rightarrow> 'f overloadMatch list \<Rightarrow> 'f overloadMatch list" where
  "unknownTypeCategoryMatches argTypes candidates =
     fold string_matches (filter (\<lambda>i. ty_ID (argTypes ! i) = ty_ID Unknown) [0..<length argTypes]) candidates"

section \<open>Resolution\<close>

definition resolveFunction :: "'f Collection \<Rightarrow> doltgres_type list \<Rightarrow> Overload list \<Rightarrow> cast_error + 'f overloadMatch option" where
  "resolveFunction cs argTypes overloads = (case typeCompatibleOverloads cs overloads argTypes of
     Inl err \<Rightarrow> Inl err
   | Inr compatible \<Rightarrow>
       (case compatible of
         [] \<Rightarrow> Inr None
       | [m] \<Rightarrow> Inr (Some m)
       | _ \<Rightarrow> (case closestTypeMatches argTypes compatible of
           [m] \<Rightarrow> Inr (Some m)
         | closest \<Rightarrow> (case preferredTypeMatches argTypes closest of
             [m] \<Rightarrow> Inr (Some m)
           | preferred \<Rightarrow> (case unknownTypeCategoryMatches argTypes preferred of
               [m] \<Rightarrow> Inr (Some m)
             | _ \<Rightarrow> Inr None)))))"

definition exact_overload :: "fn_info \<Rightarrow> doltgres_type list \<Rightarrow> Overload" where
  "exact_overload fn types = \<lparr>ov_function = fn, ov_paramTypes = types, ov_argTypes = types, ov_variadic = - 1\<rparr>"

text \<open>A literal of unknown type takes the type of the other operand.\<close>

definition operator_match :: "type_system \<Rightarrow> Overloads \<Rightarrow> doltgres_type list \<Rightarrow> 'f overloadMatch option" where
  "operator_match ts os argTypes = (case argTypes of
     [l, r] \<Rightarrow>
       let leftUnknown = (ty_ID l = ty_ID Unknown); rightUnknown = (ty_ID r = ty_ID Unknown);
           identity = (\<lambda>io. Cast (NewCast (ty_ID l) (ty_ID r)) CastType_Explicit NullFunction None io 0);
           typ = (if leftUnknown then r else l) in
       if leftUnknown \<noteq> rightUnknown then
         map_option (\<lambda>fn. (exact_overload fn [typ, typ], [identity leftUnknown, identity rightUnknown])) (ExactMatchForTypes ts os [typ, typ])
       else None
   | _ \<Rightarrow> None)"

definition resolveOperator :: "type_system \<Rightarrow> 'f Collection \<Rightarrow> doltgres_type list \<Rightarrow> Overloads \<Rightarrow> Overload list \<Rightarrow> cast_error + 'f overloadMatch option" where
  "resolveOperator ts cs argTypes overloads fnOverloads = (case operator_match ts overloads argTypes of
     Some m \<Rightarrow> Inr (Some m)
   | None \<Rightarrow> resolveFunction cs argTypes fnOverloads)"

definition resolve :: "type_system \<Rightarrow> 'f Collection \<Rightarrow> bool \<Rightarrow> Overloads \<Rightarrow> Overload list \<Rightarrow> doltgres_type list \<Rightarrow> cast_error + 'f overloadMatch option" where
  "resolve ts cs isOperator overloads fnOverloads argTypes = (case ExactMatchForTypes ts overloads argTypes of
     Some fn \<Rightarrow> Inr (Some (exact_overload fn argTypes, []))
   | None \<Rightarrow> if isOperator then resolveOperator ts cs argTypes overloads fnOverloads else resolveFunction cs argTypes fnOverloads)"

end
