(* ===== verification/Function_Call.thy ===== *)
theory Function_Call
  imports Overloads
begin

text \<open>
  Compiling and evaluating a call: \<open>src/server/functions/framework/compiled_function.go\<close>. Expressions and the functions that are called are
  parameters; they may change the state of the session (\<open>nextval\<close> does), so evaluation passes it on. Conversions have no
  effects. An error of the compilation is stashed and returned by the evaluation. Panics are the error \<open>CallPanic\<close>.
\<close>

section \<open>Expressions and compiled functions\<close>

datatype expr_type = DoltgresT doltgres_type | GmsT gostring

datatype call_error =
    CastFailed cast_error
  | OperatorDoesNotExist
  | FunctionDoesNotExist
  | NoPolymorphicInput
  | GmsTypeError
  | ArgumentFailed
  | CallFailed
  | MissingImplicitCast
  | VariadicArgument
  | CallPanic

record ('v, 'w) expr =
  ex_Type :: expr_type
  ex_Eval :: "'w \<Rightarrow> (call_error + 'v cast_val) \<times> 'w"

record ('f, 'v, 'w) call_env =
  ce_types :: type_system
  ce_casts :: "'f Collection"
  ce_eval :: "('f, 'v) cast_env"
  FromGmsType :: "gostring \<Rightarrow> doltgres_type option"
  ConvertGMSValue :: "gostring \<Rightarrow> 'v cast_val \<Rightarrow> 'v cast_val option"
  is_Function2 :: "fn_info \<Rightarrow> bool"
  Callable :: "fn_info \<Rightarrow> doltgres_type option list \<Rightarrow> 'v cast_val list \<Rightarrow> 'w \<Rightarrow> (call_error + 'v cast_val) \<times> 'w"

record ('f, 'v, 'w) CompiledFunction =
  cf_Name :: gostring
  cf_Arguments :: "('v, 'w) expr list"
  cf_IsOperator :: bool
  cf_overload :: "'f overloadMatch option"
  cf_originalTypes :: "doltgres_type list"
  cf_callResolved :: "doltgres_type option list"
  cf_stashedErr :: "call_error option"

section \<open>Compiling\<close>

definition argument_type :: "('f, 'v, 'w) call_env \<Rightarrow> expr_type \<Rightarrow> call_error + doltgres_type" where
  "argument_type env t = (case t of
     DoltgresT t \<Rightarrow> Inr (if ty_TypType t = 100 then DomainUnderlyingBaseType t else t)
   | GmsT g \<Rightarrow> (case FromGmsType env g of None \<Rightarrow> Inl GmsTypeError | Some t \<Rightarrow> Inr t))"

definition analyzeParameters :: "('f, 'v, 'w) call_env \<Rightarrow> ('v, 'w) expr list \<Rightarrow> call_error + doltgres_type list" where
  "analyzeParameters env args = first_error (map (argument_type env \<circ> ex_Type) args)"

text \<open>The first argument of a known type that goes to a polymorphic parameter; \<open>None\<close> is an index out of range.\<close>

fun first_polymorphic :: "doltgres_type list \<Rightarrow> doltgres_type list \<Rightarrow> doltgres_type option option" where
  "first_polymorphic [] types = Some None"
| "first_polymorphic (p # ps) types =
     (if IsPolymorphicType p then (case types of
        [] \<Rightarrow> None
      | t # types \<Rightarrow> if ty_ID t \<noteq> ty_ID Unknown then Some (Some t) else first_polymorphic ps types)
      else first_polymorphic ps (tl types))"

definition resolvePolymorphicReturnType :: "type_system \<Rightarrow> doltgres_type list \<Rightarrow> doltgres_type list \<Rightarrow> doltgres_type \<Rightarrow> doltgres_type option" where
  "resolvePolymorphicReturnType ts functionInterfaceTypes originalTypes returnType =
     (if \<not> IsPolymorphicType returnType then Some returnType
      else (case first_polymorphic functionInterfaceTypes originalTypes of
        None \<Rightarrow> None
      | Some first \<Rightarrow>
          let firstPolymorphicType = (case first of None \<Rightarrow> Text_type | Some t \<Rightarrow> t) in
          if ty_ID returnType = ty_ID AnyElement \<or> ty_ID returnType = ty_ID AnyNonArray then
            Some (if IsArrayType firstPolymorphicType then ArrayBaseType firstPolymorphicType else firstPolymorphicType)
          else if ty_ID returnType = ty_ID AnyArray then
            (if IsArrayType firstPolymorphicType then Some firstPolymorphicType
             else if ty_ID firstPolymorphicType = ty_ID Internal_type then internal_type ts firstPolymorphicType
             else Some (ToArrayType ts firstPolymorphicType))
          else None))"

text \<open>The types that the function is called with; a parameter without an argument keeps a nil pointer.\<close>

fun resolved_params :: "doltgres_type list \<Rightarrow> doltgres_type list \<Rightarrow> expr_type list \<Rightarrow> doltgres_type option list option" where
  "resolved_params [] originalTypes argTypes = Some []"
| "resolved_params (param # params) originalTypes argTypes =
     (case (if IsPolymorphicType param \<or> ty_ID param = ty_ID Any_type then (case originalTypes of [] \<Rightarrow> None | t # _ \<Rightarrow> Some (Some t))
            else Some (case argTypes of
                [] \<Rightarrow> None
              | DoltgresT d # _ \<Rightarrow> Some (if IsRecordType param \<and> IsCompositeType d then d else WithAttTypMod (ty_attTypMod d) param)
              | GmsT _ # _ \<Rightarrow> Some param)) of
       None \<Rightarrow> None
     | Some p \<Rightarrow> map_option ((#) p) (resolved_params params (tl originalTypes) (tl argTypes)))"

definition oid_typed :: "gostring \<Rightarrow> bool" where
  "oid_typed name \<longleftrightarrow> name \<in> gs ` {''array_in'', ''array_recv'', ''enum_in'', ''enum_recv'', ''anyenum_in'', ''anyenum_recv''}"

definition resolved_return :: "type_system \<Rightarrow> gostring \<Rightarrow> Overload \<Rightarrow> doltgres_type list \<Rightarrow> call_error + doltgres_type" where
  "resolved_return ts name ovl originalTypes =
     (let returnType = fn_Return (ov_function ovl) in
      if \<not> IsPolymorphicType returnType then Inr returnType
      else if \<exists>p \<in> set (ov_paramTypes ovl). IsPolymorphicType p then
        (case resolvePolymorphicReturnType ts (ov_paramTypes ovl) originalTypes returnType of None \<Rightarrow> Inl CallPanic | Some t \<Rightarrow> Inr t)
      else if oid_typed name then Inr returnType
      else Inl NoPolymorphicInput)"

definition newCompiledFunctionInternal :: "('f, 'v, 'w) call_env \<Rightarrow> gostring \<Rightarrow> ('v, 'w) expr list \<Rightarrow> Overloads \<Rightarrow> Overload list \<Rightarrow> bool
    \<Rightarrow> ('f, 'v, 'w) CompiledFunction" where
  "newCompiledFunctionInternal env name args overloads fnOverloads isOperator =
     (let c = \<lparr>cf_Name = name, cf_Arguments = args, cf_IsOperator = isOperator, cf_overload = None, cf_originalTypes = [], cf_callResolved = [], cf_stashedErr = None\<rparr>;
          stash = (\<lambda>err. c\<lparr>cf_stashedErr := Some err\<rparr>) in
      (case analyzeParameters env args of
        Inl err \<Rightarrow> stash err
      | Inr originalTypes \<Rightarrow> (case resolve (ce_types env) (ce_casts env) isOperator overloads fnOverloads originalTypes of
          Inl err \<Rightarrow> stash (CastFailed err)
        | Inr None \<Rightarrow> stash (if isOperator \<and> (HasPrefix name (gs ''internal_binary_operator_func_'') \<or> HasPrefix name (gs ''internal_unary_operator_func_''))
            then OperatorDoesNotExist else FunctionDoesNotExist)
        | Inr (Some (ovl, casts)) \<Rightarrow> (case resolved_params (ov_paramTypes ovl) originalTypes (map ex_Type args) of
            None \<Rightarrow> stash CallPanic
          | Some params \<Rightarrow> (case resolved_return (ce_types env) name ovl originalTypes of
              Inl err \<Rightarrow> c\<lparr>cf_stashedErr := Some err, cf_callResolved := params @ [Some (fn_Return (ov_function ovl))]\<rparr>
            | Inr returnType \<Rightarrow> c\<lparr>cf_overload := Some (ovl, casts), cf_originalTypes := originalTypes, cf_callResolved := params @ [Some returnType]\<rparr>)))))"

definition NewCompiledFunction :: "('f, 'v, 'w) call_env \<Rightarrow> gostring \<Rightarrow> ('v, 'w) expr list \<Rightarrow> Overloads \<Rightarrow> bool \<Rightarrow> ('f, 'v, 'w) CompiledFunction" where
  "NewCompiledFunction env name args functions isOperator =
     newCompiledFunctionInternal env name args functions (overloadsForParams (ce_types env) functions (length args)) isOperator"

section \<open>Evaluating\<close>

text \<open>The value of an argument with its type, converted when it is one of the engine.\<close>

definition eval_typed :: "('f, 'v, 'w) call_env \<Rightarrow> ('v, 'w) expr \<Rightarrow> 'w \<Rightarrow> (call_error + 'v cast_val \<times> doltgres_type) \<times> 'w" where
  "eval_typed env arg w = (case ex_Eval arg w of
     (Inl err, w) \<Rightarrow> (Inl err, w)
   | (Inr v, w) \<Rightarrow> (case ex_Type arg of
       DoltgresT t \<Rightarrow> (Inr (v, t), w)
     | GmsT g \<Rightarrow> (case (FromGmsType env g, ConvertGMSValue env g v) of
         (Some t, Some v) \<Rightarrow> (Inr (v, t), w) | _ \<Rightarrow> (Inl GmsTypeError, w))))"

definition eval_cast :: "('f, 'v, 'w) call_env \<Rightarrow> 'f Cast \<Rightarrow> 'v cast_val \<Rightarrow> doltgres_type \<Rightarrow> doltgres_type \<Rightarrow> call_error + 'v cast_val" where
  "eval_cast env c v sourceType targetType = (case cast_Eval (ce_eval env) (ce_casts env) c v sourceType targetType of
     Inl err \<Rightarrow> Inl (CastFailed err) | Inr v \<Rightarrow> Inr v)"

definition evalArg :: "('f, 'v, 'w) call_env \<Rightarrow> ('v, 'w) expr \<Rightarrow> ('f Cast \<times> doltgres_type) option \<Rightarrow> 'w \<Rightarrow> (call_error + 'v cast_val) \<times> 'w" where
  "evalArg env arg cast w = (case eval_typed env arg w of
     (Inl err, w) \<Rightarrow> (Inl err, w)
   | (Inr (v, t), w) \<Rightarrow> ((case cast of None \<Rightarrow> Inr v | Some (c, targetTyp) \<Rightarrow> eval_cast env c v t targetTyp), w))"

text \<open>The short way for two arguments; \<open>Inr None\<close> when it does not apply.\<close>

definition func2FastPath :: "('f, 'v, 'w) call_env \<Rightarrow> ('f, 'v, 'w) CompiledFunction \<Rightarrow> Overload \<Rightarrow> 'f Cast list \<Rightarrow> bool \<Rightarrow> 'w
    \<Rightarrow> (call_error + 'v cast_val option) \<times> 'w" where
  "func2FastPath env c ovl casts isStrict w =
     (let cast = (\<lambda>i. if length casts = 2 then Some (casts ! i, ov_paramTypes ovl ! i) else None) in
      if length casts = 2 \<and> (ty_ID (ov_paramTypes ovl ! 0) = ty_ID AnyArray \<or> ty_ID (ov_paramTypes ovl ! 1) = ty_ID AnyArray) then (Inr None, w)
      else (case evalArg env (cf_Arguments c ! 0) (cast 0) w of
        (Inl err, w) \<Rightarrow> (Inl err, w)
      | (Inr arg0, w) \<Rightarrow>
          if isStrict \<and> arg0 = V_nil then (Inr None, w)
          else (case evalArg env (cf_Arguments c ! 1) (cast 1) w of
            (Inl err, w) \<Rightarrow> (Inl err, w)
          | (Inr arg1, w) \<Rightarrow>
              if isStrict \<and> arg1 = V_nil then (Inr None, w)
              else (case Callable env (ov_function ovl) (cf_callResolved c) [arg0, arg1] w of
                (Inl err, w) \<Rightarrow> (Inl err, w)
              | (Inr v, w) \<Rightarrow> (Inr (Some v), w)))))"

text \<open>All arguments in turn; \<open>Inr None\<close> when one is NULL and the function is strict.\<close>

fun eval_arguments :: "('f, 'v, 'w) call_env \<Rightarrow> bool \<Rightarrow> ('v, 'w) expr list \<Rightarrow> 'w \<Rightarrow> (call_error + ('v cast_val \<times> doltgres_type) list option) \<times> 'w" where
  "eval_arguments env isStrict [] w = (Inr (Some []), w)"
| "eval_arguments env isStrict (arg # args) w = (case eval_typed env arg w of
     (Inl err, w) \<Rightarrow> (Inl err, w)
   | (Inr (v, t), w) \<Rightarrow>
       if v = V_nil \<and> isStrict then (Inr None, w)
       else (case eval_arguments env isStrict args w of
         (Inr (Some vs), w) \<Rightarrow> (Inr (Some ((v, t) # vs)), w) | r \<Rightarrow> r))"

definition target_type :: "type_system \<Rightarrow> Overload \<Rightarrow> doltgres_type list \<Rightarrow> nat \<Rightarrow> call_error + doltgres_type" where
  "target_type ts ovl exprTypes i =
     (let params = ov_paramTypes ovl in
      if ov_variadic ovl \<ge> 0 \<and> int i \<ge> int (length params) - 1 then
        (let t = params ! nat (ov_variadic ovl) in if IsArrayType t then Inr (ArrayBaseType t) else Inl VariadicArgument)
      else if ty_ID (params ! i) = ty_ID AnyArray then
        (case resolvePolymorphicReturnType ts params exprTypes (params ! i) of None \<Rightarrow> Inl CallPanic | Some t \<Rightarrow> Inr t)
      else Inr (params ! i))"

definition cast_argument :: "('f, 'v, 'w) call_env \<Rightarrow> Overload \<Rightarrow> 'f Cast list \<Rightarrow> doltgres_type list \<Rightarrow> nat \<times> 'v cast_val \<times> doltgres_type \<Rightarrow> call_error + 'v cast_val" where
  "cast_argument env ovl casts exprTypes a = (case a of (i, v, t) \<Rightarrow>
     (case target_type (ce_types env) ovl exprTypes i of
       Inl err \<Rightarrow> Inl err
     | Inr targetType \<Rightarrow> if i \<ge> length casts then Inl CallPanic
         else if cast_valid (casts ! i) then eval_cast env (casts ! i) v t targetType else Inl MissingImplicitCast))"

definition eval_slowly :: "('f, 'v, 'w) call_env \<Rightarrow> ('f, 'v, 'w) CompiledFunction \<Rightarrow> Overload \<Rightarrow> 'f Cast list \<Rightarrow> 'w \<Rightarrow> (call_error + 'v cast_val) \<times> 'w" where
  "eval_slowly env c ovl casts w = (case eval_arguments env (fn_Strict (ov_function ovl)) (cf_Arguments c) w of
     (Inl err, w) \<Rightarrow> (Inl err, w)
   | (Inr None, w) \<Rightarrow> (Inr V_nil, w)
   | (Inr (Some vs), w) \<Rightarrow>
       (case (if casts = [] then Inr (map fst vs) else first_error (map (cast_argument env ovl casts (map snd vs)) (enumerate 0 vs))) of
         Inl err \<Rightarrow> (Inl err, w)
       | Inr args \<Rightarrow> Callable env (ov_function ovl) (cf_callResolved c) (coalesceVariadicValues ovl args) w))"

definition evalRaw :: "('f, 'v, 'w) call_env \<Rightarrow> ('f, 'v, 'w) CompiledFunction \<Rightarrow> 'w \<Rightarrow> (call_error + 'v cast_val) \<times> 'w" where
  "evalRaw env c w = (case cf_stashedErr c of
     Some err \<Rightarrow> (Inl err, w)
   | None \<Rightarrow> (case cf_overload c of
       None \<Rightarrow> (Inl CallPanic, w)
     | Some (ovl, casts) \<Rightarrow>
         if is_Function2 env (ov_function ovl) \<and> length (cf_Arguments c) = 2 \<and> ov_variadic ovl = - 1 then
           (case func2FastPath env c ovl casts (fn_Strict (ov_function ovl)) w of
             (Inl err, w) \<Rightarrow> (Inl err, w)
           | (Inr (Some v), w) \<Rightarrow> (Inr v, w)
           | (Inr None, w) \<Rightarrow> eval_slowly env c ovl casts w)
         else eval_slowly env c ovl casts w))"

end
