(* ===== verification/Cast_Props.thy ===== *)
theory Cast_Props
  imports Casts
begin

text \<open>
  Properties of the collection of casts: a cast that may be used implicitly may be used in an assignment and explicitly; a cast
  that is added is found as it was, for the stored form loses nothing; a renaming drops the new name instead of the
  old one; and the printed name of a cast is read back.
\<close>

section \<open>Levels of casts\<close>

lemma new_cast_simps [simp]:
  "c_ID (new_cast i ct fn io) = i" "c_CastType (new_cast i ct fn io) = ct" "c_BuiltIn (new_cast i ct fn io) = fn"
  "c_UseInOut (new_cast i ct fn io) = io" "c_request (new_cast i ct fn io) = ct" "c_Function (new_cast i ct fn io) = []"
  by (simp_all add: new_cast_def)

lemma no_cast_simps [simp]: "\<not> cast_valid no_cast" "c_BuiltIn no_cast = None"
  by (simp_all add: no_cast_def Id_IsValid_def)

lemma identity_valid: "cast_valid (identity_or_record s t ct) \<longleftrightarrow> cast_valid (identity_or_record s t ct')"
  by (simp add: identity_or_record_def getSizingOrIdentityCast_def getRecordCast_def Let_def)

lemma after_no_cast:
  "cast_valid (implicit_after s t no_cast) \<Longrightarrow> cast_valid (assignment_after s t no_cast)"
  "cast_valid (assignment_after s t no_cast) \<Longrightarrow> cast_valid (explicit_after s t no_cast)"
  using identity_valid [of s t 2 1] identity_valid [of s t 1 0]
  by (auto simp: implicit_after_def assignment_after_def explicit_after_def Let_def split: if_splits)

lemma after_cast:
  assumes "cast_valid c"
  shows "cast_valid (explicit_after s t c)" "cast_valid (assignment_after s t c) \<longleftrightarrow> c_CastType c \<noteq> 0"
    "cast_valid (implicit_after s t c) \<longleftrightarrow> c_CastType c = 2"
  using assms by (simp_all add: implicit_after_def assignment_after_def explicit_after_def)

lemma after_invalid:
  assumes "\<not> cast_valid c"
  shows "explicit_after s t c = explicit_after s t no_cast" "assignment_after s t c = assignment_after s t no_cast"
    "implicit_after s t c = implicit_after s t no_cast"
  using assms by (simp_all add: implicit_after_def assignment_after_def explicit_after_def)

lemma after_ordered:
  assumes "c_ID c' = c_ID c" "c_CastType c' = c_CastType c"
  shows "cast_valid (implicit_after s t c) \<Longrightarrow> cast_valid (assignment_after s t c')"
    and "cast_valid (assignment_after s t c) \<Longrightarrow> cast_valid (explicit_after s t c')"
  using assms after_cast [of c s t] after_cast [of c' s t] after_invalid [of c s t] after_invalid [of c' s t] after_no_cast [of s t]
  by (cases "cast_valid c"; auto)+

lemma after_weaker:
  assumes "cast_valid c \<Longrightarrow> cast_valid c'"
  shows "cast_valid c' \<longrightarrow> c_CastType c' \<noteq> 0 \<Longrightarrow> cast_valid (implicit_after s t c) \<Longrightarrow> cast_valid (assignment_after s t c')"
    and "cast_valid (assignment_after s t c) \<Longrightarrow> cast_valid (explicit_after s t c')"
proof -
  have no: "\<not> cast_valid c' \<Longrightarrow> \<not> cast_valid c" using assms by blast
  show "cast_valid c' \<longrightarrow> c_CastType c' \<noteq> 0 \<Longrightarrow> cast_valid (implicit_after s t c) \<Longrightarrow> cast_valid (assignment_after s t c')"
    by (cases "cast_valid c'") (simp_all add: after_cast after_invalid [of c] after_invalid [of c'] no after_no_cast)
  show "cast_valid (assignment_after s t c) \<Longrightarrow> cast_valid (explicit_after s t c')"
    by (cases "cast_valid c'") (simp_all add: after_cast after_invalid [of c] after_invalid [of c'] no after_no_cast)
qed

text \<open>Whether the lookup fails does not depend on the kind of cast, and what it finds is ordered by kind.\<close>

definition levels :: "'f Collection \<Rightarrow> doltgres_type \<Rightarrow> doltgres_type \<Rightarrow> bool" where
  "levels cs s t \<longleftrightarrow>
     (\<exists>err. \<forall>ct. getCast cs (NewCast (ty_ID s) (ty_ID t)) (Some (s, t)) ct = Inl err) \<or>
     (\<exists>f. (\<forall>ct. getCast cs (NewCast (ty_ID s) (ty_ID t)) (Some (s, t)) ct = Inr (f ct)) \<and>
        (cast_valid (implicit_after s t (f 2)) \<longrightarrow> cast_valid (assignment_after s t (f 1))) \<and>
        (cast_valid (assignment_after s t (f 1)) \<longrightarrow> cast_valid (explicit_after s t (f 0))))"

lemma levelsI:
  assumes "\<And>ct. getCast cs (NewCast (ty_ID s) (ty_ID t)) (Some (s, t)) ct = Inr (f ct)"
    and "cast_valid (implicit_after s t (f 2)) \<Longrightarrow> cast_valid (assignment_after s t (f 1))"
    and "cast_valid (assignment_after s t (f 1)) \<Longrightarrow> cast_valid (explicit_after s t (f 0))"
  shows "levels cs s t"
  unfolding levels_def using assms by blast

lemma cast_levels_hold: "levels cs s t"
proof (induction "array_rank s + array_rank t" arbitrary: s t rule: less_induct)
  case less
  let ?id = "NewCast (ty_ID s) (ty_ID t)"
  let ?s = "ArrayBaseType s" and ?t = "ArrayBaseType t"
  note [simp] = getCast.simps [of cs ?id]
  consider (builtin) c where "gm_get (builtInCasts cs) ?id = Some c"
    | (stored) data where "gm_get (builtInCasts cs) ?id = None" "gm_get (Contents cs) ?id = Some data"
    | (array) "gm_get (builtInCasts cs) ?id = None" "gm_get (Contents cs) ?id = None" "IsArrayType s" "IsArrayType t" "\<not> (?s = s \<and> ?t = t)"
    | (endless) "gm_get (builtInCasts cs) ?id = None" "gm_get (Contents cs) ?id = None" "IsArrayType s" "IsArrayType t" "?s = s" "?t = t"
    | (none) "gm_get (builtInCasts cs) ?id = None" "gm_get (Contents cs) ?id = None" "\<not> (IsArrayType s \<and> IsArrayType t)"
    by (cases "gm_get (builtInCasts cs) ?id"; cases "gm_get (Contents cs) ?id") blast+
  then show ?case
  proof cases
    case builtin
    show ?thesis
      by (rule levelsI [where f = "\<lambda>_. c"])
        (use builtin after_ordered [of c c s t] in auto)
  next
    case stored
    show ?thesis
    proof (cases "DeserializeCast data :: cast_error + 'a Cast")
      case (Inr c)
      let ?f = "\<lambda>ct. Cast (c_ID c) (c_CastType c) (c_Function c) (c_BuiltIn c) (c_UseInOut c) ct"
      show ?thesis
        by (rule levelsI [where f = ?f])
          (use stored Inr after_ordered [of "?f 1" "?f 2" s t] after_ordered [of "?f 0" "?f 1" s t] in auto)
    qed (use stored in \<open>simp add: levels_def\<close>)
  next
    case array
    have rank: "array_rank ?s + array_rank ?t < array_rank s + array_rank t"
      using array(5) ArrayBaseType_rank [of s] ArrayBaseType_rank [of t] by auto
    show ?thesis using less [OF rank] unfolding levels_def [of cs ?s ?t]
    proof (elim disjE exE conjE)
      fix err assume "\<forall>ct. getCast cs (NewCast (ty_ID ?s) (ty_ID ?t)) (Some (?s, ?t)) ct = Inl err"
      then show ?thesis using array by (auto simp: levels_def Let_def)
    next
      fix f assume f: "\<forall>ct. getCast cs (NewCast (ty_ID ?s) (ty_ID ?t)) (Some (?s, ?t)) ct = Inr (f ct)"
        "cast_valid (implicit_after ?s ?t (f 2)) \<longrightarrow> cast_valid (assignment_after ?s ?t (f 1))"
        "cast_valid (assignment_after ?s ?t (f 1)) \<longrightarrow> cast_valid (explicit_after ?s ?t (f 0))"
      let ?g = "\<lambda>ct. if cast_valid (cast_after ct ?s ?t (f ct)) then new_cast ?id ct (Some (ArrayFn (cast_after ct ?s ?t (f ct)))) False else no_cast"
      show ?thesis
      proof (rule levelsI [where f = ?g])
        fix ct show "getCast cs ?id (Some (s, t)) ct = Inr (?g ct)" using array f(1) by (auto simp: Let_def)
      next
        assume "cast_valid (implicit_after s t (?g 2))"
        then show "cast_valid (assignment_after s t (?g 1))"
          by (rule after_weaker(1) [rotated 2]) (use f in \<open>auto simp: cast_after_def split: if_splits\<close>)
      next
        assume "cast_valid (assignment_after s t (?g 1))"
        then show "cast_valid (explicit_after s t (?g 0))"
          by (rule after_weaker(2) [rotated]) (use f in \<open>auto simp: cast_after_def split: if_splits\<close>)
      qed
    qed
  next
    case endless
    then show ?thesis by (auto simp: levels_def Let_def)
  next
    case none
    show ?thesis
      by (rule levelsI [where f = "\<lambda>_. no_cast"]) (use none after_no_cast [of s t] in auto)
  qed
qed

text \<open>C18. The kinds of casts are ordered: where a cast may be used implicitly there is one for assignments, and where there is one for assignments there is an explicit
  one, for built-in and stored casts, arrays of any nesting, records, and types that have no cast of their own.\<close>

theorem cast_kinds_ordered:
  "(GetImplicitCast cs s t = Inr c \<and> cast_valid c \<longrightarrow> (\<exists>c'. GetAssignmentCast cs s t = Inr c' \<and> cast_valid c')) \<and>
   (GetAssignmentCast cs s t = Inr c \<and> cast_valid c \<longrightarrow> (\<exists>c'. GetExplicitCast cs s t = Inr c' \<and> cast_valid c'))"
  using cast_levels_hold [of cs s t]
  by (auto simp: levels_def GetImplicitCast_def GetAssignmentCast_def GetExplicitCast_def)

text \<open>Types for the examples, and a collection in which integers and texts convert to each other.\<close>

definition demo_type :: "string \<Rightarrow> byte \<Rightarrow> bool \<Rightarrow> doltgres_type" where
  "demo_type n cat pref = PgType (toInternal (gs n)) 98 cat pref None True None [] (- 1) []"

definition demo_array :: "doltgres_type \<Rightarrow> doltgres_type" where
  "demo_array t = PgType (toInternal (95 # ty_Name t)) 98 65 False (Some t) False None [] (- 1) []"

definition Int32_type :: doltgres_type where "Int32_type = demo_type ''int4'' 78 False"

definition demo_casts :: "(doltgres_type \<times> doltgres_type \<times> byte) list \<Rightarrow> unit Collection" where
  "demo_casts l = \<lparr>builtInCasts = map (\<lambda>(s, t, ct). let i = NewCast (ty_ID s) (ty_ID t) in (i, Cast i ct [] (Some (BuiltInFn ())) False 0)) l, Contents = []\<rparr>"

theorem cast_kinds_ordered_witness:
  "\<exists>c. GetExplicitCast (demo_casts [(Int32_type, Text_type, 1)]) (demo_array Int32_type) (demo_array Text_type) = Inr c \<and> cast_valid c"
proof -
  have "(case GetAssignmentCast (demo_casts [(Int32_type, Text_type, 1)]) (demo_array Int32_type) (demo_array Text_type) of
      Inr c \<Rightarrow> cast_valid c | Inl _ \<Rightarrow> False)" by code_simp
  then show ?thesis
    using cast_kinds_ordered [of "demo_casts [(Int32_type, Text_type, 1)]" "demo_array Int32_type" "demo_array Text_type"]
    by (cases "GetAssignmentCast (demo_casts [(Int32_type, Text_type, 1)]) (demo_array Int32_type) (demo_array Text_type)") auto
qed

section \<open>Storing casts\<close>

lemma Serialize_cast_enc:
  "cast_valid c \<Longrightarrow> Cast_Serialize c =
     PutUvarint 0 @ string_enc (c_ID c) @ [c_CastType c] @ string_enc (c_Function c) @ [if c_UseInOut c then 1 else 0]"
  by (simp add: Cast_Serialize_def Let_def Writer_Data_def codec_writes NewWriter_def)

lemma reads_cast:
  "reads read_cast (string_enc i @ [ct] @ string_enc fn @ [if io then 1 else 0]) (Cast i ct fn None io 0)"
  unfolding read_cast_def [abs_def]
  by ((rule reads_bind, (rule codec_reads, rule TrueI))+, rule reads_map, rule codec_reads, simp_all)

lemma cast_bytes_round_trip:
  assumes "cast_valid c" "length (Cast_Serialize c) < 2 ^ 63"
  shows "DeserializeCast (Cast_Serialize c) = Inr (Cast (c_ID c) (c_CastType c) (c_Function c) None (c_UseInOut c) 0 :: 'b Cast)"
proof -
  let ?p = "PutUvarint 0"
  define sb where "sb = string_enc (c_ID c) @ [c_CastType c] @ string_enc (c_Function c) @ [if c_UseInOut c then 1 else 0]"
  have eq: "Cast_Serialize c = ?p @ sb" unfolding sb_def by (rule Serialize_cast_enc [OF assms(1)])
  have len: "length (?p @ sb) < 2 ^ 63" using assms(2) eq by simp
  have "Reader_VariableUint (NewReader (?p @ sb) []) = Some (0, reader_at ?p sb [])"
    using readsD [OF variable_uint_codec.rd_enc [OF TrueI], of "[]" 0 sb "[]"] len by (simp add: NewReader_at)
  moreover have "read_cast (reader_at ?p sb []) = Some (Cast (c_ID c) (c_CastType c) (c_Function c) None (c_UseInOut c) 0 :: 'b Cast, reader_at (?p @ sb) [] [])"
    using readsD [OF reads_cast [of "c_ID c" "c_CastType c" "c_Function c" "c_UseInOut c", folded sb_def], of ?p "[]" "[]"] len by simp
  moreover have "Reader_IsEmpty (reader_at (?p @ sb) [] [])"
    by (simp add: Reader_IsEmpty_def reader_at_def)
  ultimately show ?thesis by (simp add: DeserializeCast_def eq PutUvarint_not_Nil)
qed

lemma getCast_by_id:
  "getCast cs i None ct = (case gm_get (builtInCasts cs) i of
     Some c \<Rightarrow> Inr c
   | None \<Rightarrow> (case gm_get (Contents cs) i of
       Some data \<Rightarrow> (case DeserializeCast data of
           Inl err \<Rightarrow> Inl err
         | Inr c \<Rightarrow> Inr (Cast (c_ID c) (c_CastType c) (c_Function c) (c_BuiltIn c) (c_UseInOut c) ct))
     | None \<Rightarrow> Inr no_cast))"
  by (simp add: getCast.simps [where types = None] split: option.split)

lemma getCast_same:
  "builtInCasts cs' = builtInCasts cs \<Longrightarrow> gm_get (Contents cs') i = gm_get (Contents cs) i \<Longrightarrow> getCast cs' i None ct = getCast cs i None ct"
  by (simp add: getCast_by_id split: option.split)

text \<open>C19. A cast that is added is found under its id as it was, for the stored form loses nothing but what the collection fills in; every other
  cast is found as before. Dropping it brings the old collection back, and neither a second addition nor a drop of an absent or built-in cast is
  accepted.\<close>

theorem added_cast_found:
  assumes "cast_valid c" and "length (Cast_Serialize c) < 2 ^ 63" and "AddCast c cs = Inr cs'"
  shows "getCast cs' (c_ID c) types ct = Inr (Cast (c_ID c) (c_CastType c) (c_Function c) None (c_UseInOut c) ct) \<and>
    (\<forall>i. i \<noteq> c_ID c \<longrightarrow> getCast cs' i None ct = getCast cs i None ct) \<and>
    (\<exists>cs2. DropCast [c_ID c] cs' = Inr cs2 \<and> builtInCasts cs2 = builtInCasts cs \<and> (\<forall>i. gm_get (Contents cs2) i = gm_get (Contents cs) i)) \<and>
    AddCast c cs' = Inl (CastExists (c_ID c)) \<and>
    (\<forall>i. \<not> HasCast cs i \<longrightarrow> DropCast [i] cs = Inl (CastDoesNotExist i)) \<and>
    (\<forall>i. gm_get (builtInCasts cs) i \<noteq> None \<longrightarrow> DropCast [i] cs = Inl (CannotDeleteBuiltIn i))"
proof -
  have cs': "cs' = cs\<lparr>Contents := gm_set (c_ID c) (Cast_Serialize c) (Contents cs)\<rparr>" and fresh: "\<not> HasCast cs (c_ID c)"
    using assms(3) by (auto simp: AddCast_def split: if_splits)
  have "getCast cs' (c_ID c) types ct = Inr (Cast (c_ID c) (c_CastType c) (c_Function c) None (c_UseInOut c) ct)"
    using fresh by (simp add: getCast.simps cs' HasCast_def cast_bytes_round_trip [OF assms(1,2)])
  moreover have "\<forall>i. i \<noteq> c_ID c \<longrightarrow> getCast cs' i None ct = getCast cs i None ct"
    by (auto simp: cs' intro!: getCast_same)
  moreover have "\<exists>cs2. DropCast [c_ID c] cs' = Inr cs2 \<and> builtInCasts cs2 = builtInCasts cs \<and> (\<forall>i. gm_get (Contents cs2) i = gm_get (Contents cs) i)"
    using fresh by (auto simp: DropCast_def cs' HasCast_def)
  moreover have "AddCast c cs' = Inl (CastExists (c_ID c))" by (simp add: AddCast_def HasCast_def cs')
  ultimately show ?thesis by (simp add: DropCast_def HasCast_def)
qed

definition demo_cast :: "unit Cast" where
  "demo_cast = Cast (NewCast (ty_ID Int32_type) (ty_ID Text_type)) 1 [] None True 0"

theorem added_cast_found_witness:
  "getCast (demo_casts []\<lparr>Contents := [(c_ID demo_cast, Cast_Serialize demo_cast)]\<rparr>) (c_ID demo_cast) None 2 =
     Inr (Cast (c_ID demo_cast) 1 [] None True 2)"
proof -
  have "cast_valid demo_cast" "length (Cast_Serialize demo_cast) < 200" by code_simp+
  moreover have "AddCast demo_cast (demo_casts []) = Inr (demo_casts []\<lparr>Contents := [(c_ID demo_cast, Cast_Serialize demo_cast)]\<rparr>)"
    by (simp add: AddCast_def HasCast_def demo_casts_def demo_cast_def gm_set_def)
  ultimately show ?thesis using added_cast_found [of demo_cast "demo_casts []" _ None 2] by (simp add: demo_cast_def)
qed

section \<open>Renaming\<close>

text \<open>Renaming a cast drops the new name where it should drop the old one. So it fails whenever the new name is free, with an error about the new name and nothing
  changed; and when the new name is taken by another stored cast it replaces that one and leaves the old cast where it was.\<close>

theorem rename_drops_the_new_name:
  assumes "Id_IsValid old" "Id_IsValid new" "Id_Section old = Section_Cast" "Id_Section new = Section_Cast" and "old \<noteq> new"
    and "getCast cs old None CastType_Explicit = Inr c" "cast_valid c" "c_BuiltIn c = None"
  shows "(\<not> HasCast cs new \<longrightarrow> RenameRootObject old new cs = (Some (CastDoesNotExist new), cs)) \<and>
    (gm_get (builtInCasts cs) new = None \<and> gm_get (Contents cs) new \<noteq> None \<longrightarrow>
      (\<exists>cs'. RenameRootObject old new cs = (None, cs') \<and> getCast cs' old None CastType_Explicit = Inr c))"
proof -
  have "\<not> HasCast cs new \<Longrightarrow> RenameRootObject old new cs = (Some (CastDoesNotExist new), cs)"
    using assms by (simp add: RenameRootObject_def DropCast_def HasCast_def)
  moreover have "gm_get (builtInCasts cs) new = None \<Longrightarrow> gm_get (Contents cs) new \<noteq> None \<Longrightarrow>
      \<exists>cs'. RenameRootObject old new cs = (None, cs') \<and> getCast cs' old None CastType_Explicit = Inr c"
    using assms by (auto simp: RenameRootObject_def DropCast_def AddCast_def HasCast_def intro!: trans [OF getCast_same assms(6)])
  ultimately show ?thesis by blast
qed

definition demo_two_casts :: "unit Collection" where
  "demo_two_casts = demo_casts []\<lparr>Contents := [(c_ID demo_cast, Cast_Serialize demo_cast)]\<rparr>"

theorem rename_drops_the_new_name_witness:
  "RenameRootObject (c_ID demo_cast) (NewCast (ty_ID Text_type) (ty_ID Int32_type)) demo_two_casts =
     (Some (CastDoesNotExist (NewCast (ty_ID Text_type) (ty_ID Int32_type))), demo_two_casts)"
proof -
  let ?new = "NewCast (ty_ID Text_type) (ty_ID Int32_type)"
  have "Id_IsValid (c_ID demo_cast)" "Id_IsValid ?new" "Id_Section (c_ID demo_cast) = 2" "Id_Section ?new = 2" "c_ID demo_cast \<noteq> ?new" by code_simp+
  moreover have "getCast demo_two_casts (c_ID demo_cast) None 0 = Inr demo_cast" by code_simp
  moreover have "cast_valid demo_cast" "c_BuiltIn demo_cast = None" "\<not> HasCast demo_two_casts ?new" by code_simp+
  ultimately show ?thesis using rename_drops_the_new_name [of "c_ID demo_cast" ?new demo_two_casts demo_cast] by blast
qed

end
