(* ===== verification/Overload_Props.thy ===== *)
theory Overload_Props
  imports Overloads Cast_Props "HOL-Library.Multiset"
begin

text \<open>
  Properties of the resolution of overloads. Every step narrows a list of candidates; the locale has what the steps share, and the
  ranking loops are shown equal to a filter. The choice is the best match, does not depend on the order in which overloads
  were registered, and the values of a variadic call are put together as the declaration says.
\<close>

section \<open>Narrowing a list of candidates\<close>

locale narrowing =
  fixes narrow :: "'a list \<Rightarrow> 'a list"
  assumes narrow_perm: "mset xs = mset ys \<Longrightarrow> mset (narrow xs) = mset (narrow ys)"
    and narrow_sub: "set (narrow xs) \<subseteq> set xs"
    and narrow_keeps: "xs \<noteq> [] \<Longrightarrow> narrow xs \<noteq> []"
begin

lemma narrow_single: "mset xs = mset ys \<Longrightarrow> narrow xs = [x] \<Longrightarrow> narrow ys = [x]"
  using narrow_perm [of xs ys] by (simp add: mset_single_iff_right)

lemma narrow_member: "narrow xs = ys \<Longrightarrow> y \<in> set ys \<Longrightarrow> y \<in> set xs"
  using narrow_sub by blast

end

text \<open>The loop that keeps the best is a filter.\<close>

lemma keep_best_filter:
  "keep_best f b kept cs =
     (if \<exists>c \<in> set cs. b < f c then filter (\<lambda>c. \<forall>d \<in> set cs. f d \<le> f c) cs else kept @ filter (\<lambda>c. f c = b) cs)"
proof (induction f b kept cs rule: keep_best.induct)
  case (2 f b kept c cs)
  consider "f c > b" | "f c = b" | "f c < b" by linarith
  then show ?case
  proof cases
    case 1
    show ?thesis
    proof (cases "\<exists>d \<in> set cs. f c < f d")
      case True
      then have "\<And>e. (\<forall>d \<in> set cs. f d \<le> f e) \<Longrightarrow> f c \<le> f e" by (meson le_trans less_imp_le)
      then show ?thesis using 1 2 True by (auto intro!: filter_cong)
    next
      case False
      then have "\<And>e. e \<in> set cs \<Longrightarrow> (f c \<le> f e \<and> (\<forall>d \<in> set cs. f d \<le> f e)) \<longleftrightarrow> f e = f c" by (auto simp: not_less intro: le_antisym)
      then show ?thesis using 1 2 False by (auto simp: not_less intro!: filter_cong)
    qed
  next
    case 2
    then show ?thesis using "2.IH" by (auto intro!: filter_cong dest: less_imp_le) 
  next
    case 3
    then show ?thesis using "2.IH" by (auto intro!: filter_cong)
  qed
qed simp

lemma keep_best_max: "keep_best f 0 [] cs = filter (\<lambda>c. \<forall>d \<in> set cs. f d \<le> f c) cs"
  unfolding keep_best_filter by (auto intro!: filter_cong simp: not_less)

lemma narrowing_best: "narrowing (keep_best f 0 [])"
proof
  fix xs ys :: "'a list"
  show "mset (keep_best f 0 [] xs) = mset (keep_best f 0 [] ys)" if "mset xs = mset ys"
    using that mset_eq_setD [OF that] by (simp add: keep_best_max)
  show "set (keep_best f 0 [] xs) \<subseteq> set xs" by (auto simp: keep_best_max)
  show "keep_best f 0 [] xs \<noteq> []" if "xs \<noteq> []"
  proof -
    have "finite (f ` set xs)" "f ` set xs \<noteq> {}" using that by auto
    from Max_in [OF this] obtain c where "c \<in> set xs" "f c = Max (f ` set xs)" by auto
    then show ?thesis by (auto simp: keep_best_max filter_empty_conv intro!: bexI [of _ c])
  qed
qed

interpretation closest: narrowing "closestTypeMatches argTypes" for argTypes
  unfolding closestTypeMatches_def [abs_def] by (rule narrowing_best)

interpretation preferred: narrowing "preferredTypeMatches argTypes" for argTypes
  unfolding preferredTypeMatches_def [abs_def] by (rule narrowing_best)

interpretation strings: narrowing "string_matches i" for i
proof
  fix xs ys :: "'a overloadMatch list"
  show "mset (string_matches i xs) = mset (string_matches i ys)" if "mset xs = mset ys"
    using that mset_eq_setD [OF that] by (simp add: string_matches_def Let_def filter_empty_conv)
qed (auto simp: string_matches_def Let_def)

lemma narrowing_comp:
  assumes "narrowing f" "narrowing g"
  shows "narrowing (\<lambda>xs. g (f xs))"
proof
  fix xs ys
  show "mset (g (f xs)) = mset (g (f ys))" if "mset xs = mset ys"
    using that by (intro narrowing.narrow_perm [OF assms(2)] narrowing.narrow_perm [OF assms(1)])
  show "set (g (f xs)) \<subseteq> set xs"
    using narrowing.narrow_sub [OF assms(2), of "f xs"] narrowing.narrow_sub [OF assms(1), of xs] by (rule subset_trans)
  show "g (f xs) \<noteq> []" if "xs \<noteq> []"
    using that by (intro narrowing.narrow_keeps [OF assms(2)] narrowing.narrow_keeps [OF assms(1)])
qed

lemma narrowing_fold: "(\<And>i. narrowing (f i)) \<Longrightarrow> narrowing (fold f is)"
proof (induction "is")
  case Nil
  show ?case by unfold_locales auto
next
  case (Cons i "is")
  then show ?case using narrowing_comp [of "f i" "fold f is"] by simp
qed

interpretation unknowns: narrowing "unknownTypeCategoryMatches argTypes" for argTypes
  unfolding unknownTypeCategoryMatches_def [abs_def] by (rule narrowing_fold) (rule strings.narrowing_axioms)

section \<open>The choice\<close>

definition single :: "'a list \<Rightarrow> 'a option" where
  "single xs = (case xs of [x] \<Rightarrow> Some x | _ \<Rightarrow> None)"

lemma single_Some: "single xs = Some x \<longleftrightarrow> xs = [x]"
  by (auto simp: single_def split: list.splits)

lemma single_one [simp]: "single [x] = Some x"
  by (simp add: single_def)

lemma single_perm: "mset xs = mset ys \<Longrightarrow> single xs = single ys"
  by (cases "single xs"; cases "single ys") (auto simp: single_Some mset_single_iff_right dest: sym)

definition choose_match :: "doltgres_type list \<Rightarrow> 'f overloadMatch list \<Rightarrow> 'f overloadMatch option" where
  "choose_match argTypes ms =
     (let cl = closestTypeMatches argTypes ms; pr = preferredTypeMatches argTypes cl; un = unknownTypeCategoryMatches argTypes pr in
      case single ms of Some m \<Rightarrow> Some m
      | None \<Rightarrow> (case single cl of Some m \<Rightarrow> Some m
        | None \<Rightarrow> (case single pr of Some m \<Rightarrow> Some m | None \<Rightarrow> single un)))"

lemma narrow_Nil [simp]: "closestTypeMatches t [] = []" "preferredTypeMatches t [] = []" "unknownTypeCategoryMatches t [] = []"
  using closest.narrow_sub [of t "[]"] preferred.narrow_sub [of t "[]"] unknowns.narrow_sub [of t "[]"] by auto

lemma resolveFunction_choice:
  "resolveFunction cs argTypes os =
     (case typeCompatibleOverloads cs os argTypes of Inl err \<Rightarrow> Inl err | Inr ms \<Rightarrow> Inr (choose_match argTypes ms))"
  by (simp add: resolveFunction_def choose_match_def single_def Let_def split: sum.split list.split)

lemma choose_match_perm:
  assumes "mset ms = mset ms'"
  shows "choose_match argTypes ms = choose_match argTypes ms'"
proof -
  let ?cl = "closestTypeMatches argTypes" and ?pr = "preferredTypeMatches argTypes" and ?un = "unknownTypeCategoryMatches argTypes"
  have cl: "mset (?cl ms) = mset (?cl ms')" using assms by (rule closest.narrow_perm)
  then have pr: "mset (?pr (?cl ms)) = mset (?pr (?cl ms'))" by (rule preferred.narrow_perm)
  then have "mset (?un (?pr (?cl ms))) = mset (?un (?pr (?cl ms')))" by (rule unknowns.narrow_perm)
  from single_perm [OF this] single_perm [OF pr] single_perm [OF cl] single_perm [OF assms]
  show ?thesis unfolding choose_match_def Let_def by (simp split: option.split)
qed

text \<open>The compatible overloads as a filter.\<close>

definition match_of :: "'f Collection \<Rightarrow> doltgres_type list \<Rightarrow> Overload \<Rightarrow> 'f overloadMatch option" where
  "match_of cs argTypes ovl = (case argument_casts cs (zip argTypes (ov_argTypes ovl)) of
     Inr (Some (casts, poly)) \<Rightarrow> if polymorphicTypesCompatible (map fst poly) (map snd poly) then Some (ovl, casts) else None
   | _ \<Rightarrow> None)"

lemma compatible_step:
  "typeCompatibleOverloads cs (ovl # os) argTypes =
     (case argument_casts cs (zip argTypes (ov_argTypes ovl)) of
       Inl err \<Rightarrow> Inl err
     | Inr _ \<Rightarrow> (case typeCompatibleOverloads cs os argTypes of
         Inl err \<Rightarrow> Inl err | Inr ms \<Rightarrow> Inr (case match_of cs argTypes ovl of Some m \<Rightarrow> m # ms | None \<Rightarrow> ms)))"
  by (auto simp: match_of_def split: sum.split option.split prod.split)

declare typeCompatibleOverloads.simps(2) [simp del]

lemma compatible_filter:
  "typeCompatibleOverloads cs os argTypes = Inr ms \<longleftrightarrow>
     (\<forall>ovl \<in> set os. \<not> isl (argument_casts cs (zip argTypes (ov_argTypes ovl)))) \<and> ms = List.map_filter (match_of cs argTypes) os"
proof (induction os arbitrary: ms)
  case (Cons ovl os)
  show ?case
  proof (cases "typeCompatibleOverloads cs os argTypes")
    case (Inl err)
    then have "\<not> (\<forall>ovl \<in> set os. \<not> isl (argument_casts cs (zip argTypes (ov_argTypes ovl))))"
      using Cons.IH [of "List.map_filter (match_of cs argTypes) os"] by simp
    then show ?thesis using Inl by (auto simp: compatible_step split: sum.splits)
  next
    case (Inr ms')
    then have "\<forall>ovl \<in> set os. \<not> isl (argument_casts cs (zip argTypes (ov_argTypes ovl)))" "ms' = List.map_filter (match_of cs argTypes) os"
      using Cons.IH [of ms'] by auto
    then show ?thesis using Inr
      by (cases "argument_casts cs (zip argTypes (ov_argTypes ovl))") (auto simp: compatible_step map_filter_simps split: option.split)
  qed
qed (auto simp: map_filter_simps)

lemma map_filter_perm: "mset xs = mset ys \<Longrightarrow> mset (List.map_filter f xs) = mset (List.map_filter f ys)"
  by (simp add: map_filter_def)

text \<open>C16. The choice of an overload does not depend on the order in which the overloads were registered: if one order gives a result, a match or
  that there is none, every other order gives the same one.\<close>

theorem resolution_order_irrelevant:
  assumes "mset os' = mset os" and "resolveFunction cs argTypes os = Inr r"
  shows "resolveFunction cs argTypes os' = Inr r"
proof -
  obtain ms where ms: "typeCompatibleOverloads cs os argTypes = Inr ms" and r: "r = choose_match argTypes ms"
    using assms(2) by (auto simp: resolveFunction_choice split: sum.splits)
  have "typeCompatibleOverloads cs os' argTypes = Inr (List.map_filter (match_of cs argTypes) os')"
    using ms mset_eq_setD [OF assms(1)] by (auto simp: compatible_filter)
  moreover have "mset (List.map_filter (match_of cs argTypes) os') = mset ms"
    using ms map_filter_perm [OF assms(1)] by (simp add: compatible_filter)
  ultimately show ?thesis using r choose_match_perm by (fastforce simp: resolveFunction_choice)
qed

text \<open>Two overloads, for an integer and for a text, called with a literal.\<close>

definition demo_fn :: "doltgres_type list \<Rightarrow> int \<Rightarrow> fn_info" where
  "demo_fn params variadic = \<lparr>fn_Name = gs ''f'', fn_Params = params, fn_Return = Int32_type, fn_VariadicIndex = variadic, fn_CVariadic = False,
     fn_Strict = True, fn_AllParams = None\<rparr>"

definition demo_overload :: "doltgres_type list \<Rightarrow> Overload" where
  "demo_overload params = exact_overload (demo_fn params (- 1)) params"

theorem resolution_order_irrelevant_witness:
  "resolveFunction (demo_casts []) [Unknown] [demo_overload [Text_type], demo_overload [Int32_type]] =
     Inr (Some (demo_overload [Text_type], [new_cast (NewCast (ty_ID Unknown) (ty_ID Text_type)) 2 None True]))"
proof (rule resolution_order_irrelevant)
  show "mset [demo_overload [Text_type], demo_overload [Int32_type]] = mset [demo_overload [Int32_type], demo_overload [Text_type]]" by simp
  show "resolveFunction (demo_casts []) [Unknown] [demo_overload [Int32_type], demo_overload [Text_type]] =
      Inr (Some (demo_overload [Text_type], [new_cast (NewCast (ty_ID Unknown) (ty_ID Text_type)) 2 None True]))" by code_simp
qed

lemma match_ofD:
  "match_of cs argTypes ovl' = Some (ovl, casts) \<Longrightarrow>
     ovl' = ovl \<and> (\<exists>poly. argument_casts cs (zip argTypes (ov_argTypes ovl)) = Inr (Some (casts, poly)))"
  by (cases "argument_casts cs (zip argTypes (ov_argTypes ovl'))") (auto simp: match_of_def split: option.splits if_splits)

text \<open>What an accepted argument is.\<close>

definition accepts :: "'f Collection \<Rightarrow> doltgres_type \<Rightarrow> doltgres_type \<Rightarrow> 'f Cast \<Rightarrow> bool" where
  "accepts cs argType paramType c \<longleftrightarrow>
     IsValidForPolymorphicType paramType argType \<or> IsRecordType paramType \<and> IsCompositeType argType \<or>
     GetImplicitCast cs argType paramType = Inr c \<and> cast_valid c"

lemma argument_casts_accept:
  "argument_casts cs ps = Inr (Some (casts, poly)) \<Longrightarrow>
     length casts = length ps \<and> (\<forall>i < length ps. accepts cs (fst (ps ! i)) (snd (ps ! i)) (casts ! i))"
proof (induction cs ps arbitrary: casts poly rule: argument_casts.induct)
  case (2 cs argType paramType ps)
  then obtain c casts' poly' where "argument_casts cs ps = Inr (Some (casts', poly'))" "casts = c # casts'" "accepts cs argType paramType c"
    by (auto simp: Let_def accepts_def split: if_splits sum.splits option.splits prod.splits)
  then show ?case using 2 by (auto simp: Let_def nth_Cons less_Suc_eq_0_disj split: nat.splits if_splits sum.splits)
qed simp

lemma preferredTypeMatches_single: "preferredTypeMatches argTypes [m] = [m]"
  by (simp add: preferredTypeMatches_def)

lemma choose_match_best:
  assumes "choose_match argTypes ms = Some m"
  shows "m \<in> set ms \<and> (\<forall>m' \<in> set ms. exact_count argTypes m' \<le> exact_count argTypes m \<and>
    (exact_count argTypes m' = exact_count argTypes m \<longrightarrow> preferred_count argTypes m' \<le> preferred_count argTypes m))"
proof -
  have "m \<in> set (preferredTypeMatches argTypes (closestTypeMatches argTypes ms))"
  proof (cases "single ms")
    case (Some x)
    then have "ms = [m]" using assms by (simp add: choose_match_def Let_def single_Some)
    moreover have "closestTypeMatches argTypes [m] = [m]" by (simp add: closestTypeMatches_def)
    ultimately show ?thesis by (simp add: preferredTypeMatches_single)
  next
    case None
    then show ?thesis
      using assms preferred.narrow_sub [of argTypes "closestTypeMatches argTypes ms"]
        unknowns.narrow_sub [of argTypes "preferredTypeMatches argTypes (closestTypeMatches argTypes ms)"]
      by (auto simp: choose_match_def Let_def single_Some preferredTypeMatches_single split: option.splits)
  qed
  then have closest: "m \<in> set ms" "\<forall>m' \<in> set ms. exact_count argTypes m' \<le> exact_count argTypes m"
    and preferred: "\<forall>m' \<in> set (closestTypeMatches argTypes ms). preferred_count argTypes m' \<le> preferred_count argTypes m"
    unfolding preferredTypeMatches_def closestTypeMatches_def keep_best_max unfolding set_filter mem_Collect_eq by blast+
  have "m' \<in> set (closestTypeMatches argTypes ms)" if "m' \<in> set ms" "exact_count argTypes m' = exact_count argTypes m" for m'
    using that closest by (simp add: closestTypeMatches_def keep_best_max)
  then show ?thesis using closest preferred by blast
qed

text \<open>C15. The overload that is chosen is one of those given, every argument has a cast or is accepted by a polymorphic or record parameter, and the choice is the best: no other
  overload that accepts the arguments has more exact parameters, and of those with as many none has more preferred parameters. A parameter is exact when it has the type of its argument, or when it is \<open>text\<close> and the
  argument is of unknown type; it is preferred when it has another type than its argument and that type is the preferred one of its category. The overloads have at least as many parameters as there are arguments, as those of
  \<open>overloadsForParams\<close> do.\<close>

theorem chosen_overload_best:
  assumes "resolveFunction cs argTypes os = Inr (Some (ovl, casts))" and "\<forall>ovl \<in> set os. length argTypes \<le> length (ov_argTypes ovl)"
  shows "ovl \<in> set os \<and> length casts = length argTypes \<and>
    (\<forall>i < length argTypes. accepts cs (argTypes ! i) (ov_argTypes ovl ! i) (casts ! i)) \<and>
    (\<forall>ovl' \<in> set os. \<forall>m. match_of cs argTypes ovl' = Some m \<longrightarrow> exact_count argTypes m \<le> exact_count argTypes (ovl, casts) \<and>
      (exact_count argTypes m = exact_count argTypes (ovl, casts) \<longrightarrow> preferred_count argTypes m \<le> preferred_count argTypes (ovl, casts)))"
proof -
  obtain ms where ms: "typeCompatibleOverloads cs os argTypes = Inr ms" and "choose_match argTypes ms = Some (ovl, casts)"
    using assms(1) by (auto simp: resolveFunction_choice split: sum.splits)
  note m = choose_match_best [OF this(2)]
  have set_ms: "set ms = {m. \<exists>ovl \<in> set os. match_of cs argTypes ovl = Some m}"
    using ms by (force simp: compatible_filter map_filter_def)
  then obtain poly where "ovl \<in> set os" "argument_casts cs (zip argTypes (ov_argTypes ovl)) = Inr (Some (casts, poly))"
    using m match_ofD [of cs argTypes _ ovl casts] by blast
  then have "ovl \<in> set os \<and> length casts = length argTypes \<and> (\<forall>i < length argTypes. accepts cs (argTypes ! i) (ov_argTypes ovl ! i) (casts ! i))"
    using argument_casts_accept [of cs "zip argTypes (ov_argTypes ovl)"] assms(2) by auto
  then show ?thesis using m set_ms by blast
qed

theorem chosen_overload_best_witness:
  "accepts (demo_casts []) Unknown Text_type (new_cast (NewCast (ty_ID Unknown) (ty_ID Text_type)) 2 None True)"
proof -
  have "resolveFunction (demo_casts []) [Unknown] [demo_overload [Int32_type], demo_overload [Text_type]] =
      Inr (Some (demo_overload [Text_type], [new_cast (NewCast (ty_ID Unknown) (ty_ID Text_type)) 2 None True]))" by code_simp
  from chosen_overload_best [OF this] show ?thesis by (simp add: demo_overload_def exact_overload_def)
qed

section \<open>Variadic calls\<close>

lemma overload_for_variadic:
  "overload_for ts n fn = Some ovl \<Longrightarrow> 0 \<le> ov_variadic ovl \<Longrightarrow>
     ov_paramTypes ovl = fn_Params fn \<and> ov_variadic ovl = fn_VariadicIndex fn \<and> length (fn_Params fn) \<le> n \<and>
     ov_argTypes ovl = extended_params ts (fn_Params fn) (nat (fn_VariadicIndex fn)) n"
  by (auto simp: overload_for_def Let_def split: if_splits option.splits)

text \<open>C34. A call of a variadic function: the overload has one type for each argument, the arguments from the variadic position on have the element type, and the values that the function
  gets are as many as its parameters, with those arguments in one slice; putting the slice back in its place gives the values of the call.\<close>

theorem variadic_values_coalesced:
  assumes "overload_for ts n fn = Some ovl" and "ov_variadic ovl = int k" and "k < length (fn_Params fn)" and "length vals = n"
  shows "length (ov_argTypes ovl) = n \<and>
    (\<forall>i. k \<le> i \<and> i \<le> k + (n - length (fn_Params fn)) \<longrightarrow> ov_argTypes ovl ! i = variadic_base ts (fn_Params fn ! k)) \<and>
    length (coalesceVariadicValues ovl vals) = length (fn_Params fn) \<and>
    (\<exists>mid. coalesceVariadicValues ovl vals ! k = V_array mid \<and> length mid = 1 + (n - length (fn_Params fn)) \<and>
      take k (coalesceVariadicValues ovl vals) @ mid @ drop (k + 1) (coalesceVariadicValues ovl vals) = vals)"
proof -
  let ?p = "fn_Params fn"
  let ?m = "1 + (n - length ?p)"
  have o: "ov_paramTypes ovl = ?p" "length ?p \<le> n" "ov_argTypes ovl = extended_params ts ?p k n"
    using overload_for_variadic [OF assms(1)] assms(2) by (simp_all, metis nat_int)
  have len: "length (ov_argTypes ovl) = n" using o assms(3) by (simp add: extended_params_def)
  have "\<forall>i. k \<le> i \<and> i \<le> k + (n - length ?p) \<longrightarrow> ov_argTypes ovl ! i = variadic_base ts (?p ! k)"
    using o assms(3) by (auto simp: extended_params_def nth_append nth_Cons split: nat.split)
  moreover have c: "coalesceVariadicValues ovl vals = take k vals @ [V_array (take ?m (drop k vals))] @ drop (k + ?m) vals"
    using o assms(2) len by (simp add: coalesceVariadicValues_def Let_def drop_take Suc_diff_le)
  have "k + ?m \<le> n" using o(2) assms(3) by simp
  then have "length (coalesceVariadicValues ovl vals) = length ?p" using c assms(3,4) o(2) by simp
  moreover have "coalesceVariadicValues ovl vals ! k = V_array (take ?m (drop k vals))" using c assms(4) \<open>k + ?m \<le> n\<close> by (simp add: nth_append)
  moreover have "take k (coalesceVariadicValues ovl vals) @ take ?m (drop k vals) @ drop (k + 1) (coalesceVariadicValues ovl vals) = vals"
  proof -
    have "take k vals @ take ?m (drop k vals) @ drop (k + ?m) vals = vals" by (metis append_take_drop_id drop_drop add.commute)
    then show ?thesis using c assms(4) \<open>k + ?m \<le> n\<close> by simp
  qed
  ultimately show ?thesis using len assms(4) \<open>k + ?m \<le> n\<close> by (intro conjI exI [of _ "take ?m (drop k vals)"]) simp_all
qed

theorem variadic_values_coalesced_witness:
  "length (coalesceVariadicValues (\<lparr>ov_function = demo_fn [Text_type, demo_array Int32_type] 1, ov_paramTypes = [Text_type, demo_array Int32_type],
     ov_argTypes = [Text_type, Int32_type, Int32_type], ov_variadic = 1\<rparr>) [V_val (1 :: nat), V_val 2, V_val 3]) = 2"
proof -
  let ?ts = "\<lparr>TypModOut = \<lambda>_ _. None, array_type = demo_array, internal_type = \<lambda>_. None\<rparr>"
  have "overload_for ?ts 3 (demo_fn [Text_type, demo_array Int32_type] 1) = Some \<lparr>ov_function = demo_fn [Text_type, demo_array Int32_type] 1,
      ov_paramTypes = [Text_type, demo_array Int32_type], ov_argTypes = [Text_type, Int32_type, Int32_type], ov_variadic = 1\<rparr>" by code_simp
  from variadic_values_coalesced [OF this, of 1 "[V_val (1 :: nat), V_val 2, V_val 3]"] show ?thesis by (simp add: demo_fn_def)
qed

section \<open>Where the rules differ from those of PostgreSQL\<close>

text \<open>Parameters of the type \<open>anyelement\<close> have to be of one type, but the check strips arrays from every argument: an array of integers and an integer
  are accepted together.\<close>

theorem anyelement_mixes_array_and_element:
  "polymorphicTypesCompatible [AnyElement, AnyElement] [demo_array Int32_type, Int32_type] \<and>
   \<not> polymorphicTypesCompatible [AnyElement, AnyElement] [Text_type, Int32_type]"
  by code_simp

text \<open>The key of an overload is made of the names of its parameter types without their schemas. So an argument of another type of the same name is an exact match, and the function is
  called with it without a cast.\<close>

theorem exact_match_ignores_schema:
  "let t = (\<lambda>sch. PgType (NewType (gs sch) (gs ''t'')) 101 69 False None True None [] (- 1) []);
       ts = \<lparr>TypModOut = \<lambda>_ _. None, array_type = demo_array, internal_type = \<lambda>_. None\<rparr> in
   ty_ID (t ''a'') \<noteq> ty_ID (t ''b'') \<and>
   (case Overloads_Add ts (demo_fn [t ''a''] (- 1)) NewOverloads of
      Inr os \<Rightarrow> resolve ts (demo_casts []) False os (overloadsForParams ts os 1) [t ''b''] =
        Inr (Some (exact_overload (demo_fn [t ''a''] (- 1)) [t ''b''], []))
    | Inl _ \<Rightarrow> False)"
  by code_simp

end
