(* ===== verification/Function_Call_Props.thy ===== *)
theory Function_Call_Props
  imports Function_Call Overload_Props
begin

text \<open>
  Properties of compiled calls: the short way for functions of two arguments gives what the general way gives, except that it evaluates the
  arguments a second time when a strict function gets NULL; and the type that a polymorphic call returns agrees with all of its arguments.
\<close>

section \<open>The short way\<close>

lemma two_arguments: "length xs = 2 \<Longrightarrow> xs = [xs ! 0, xs ! 1]"
  by (cases xs; cases "tl xs") auto

text \<open>The run behind a value of the short way with conversions.\<close>

lemma evalArg_InrE:
  assumes "evalArg env a (Some (d, p)) w = (Inr x', w')"
  obtains x s where "eval_typed env a w = (Inr (x, s), w')" "eval_cast env d x s p = Inr x'"
  using assms by (auto simp: evalArg_def split: prod.splits sum.splits)

lemma fast_path_runs:
  assumes "func2FastPath env c ovl [d, e] strict w = (Inr (Some v), w')" and "cf_Arguments c = [a, b]"
  shows "\<exists>x s w1 x' y t w2 y'. eval_typed env a w = (Inr (x, s), w1) \<and> eval_cast env d x s (ov_paramTypes ovl ! 0) = Inr x' \<and>
    eval_typed env b w1 = (Inr (y, t), w2) \<and> eval_cast env e y t (ov_paramTypes ovl ! 1) = Inr y' \<and>
    (strict \<longrightarrow> x' \<noteq> V_nil) \<and> (strict \<longrightarrow> y' \<noteq> V_nil) \<and> Callable env (ov_function ovl) (cf_callResolved c) [x', y'] w2 = (Inr v, w')"
proof -
  let ?p = "ov_paramTypes ovl"
  have fast: "(case evalArg env a (Some (d, ?p ! 0)) w of (Inl err, w) \<Rightarrow> (Inl err, w)
    | (Inr arg0, w) \<Rightarrow> if strict \<and> arg0 = V_nil then (Inr None, w)
        else (case evalArg env b (Some (e, ?p ! 1)) w of (Inl err, w) \<Rightarrow> (Inl err, w)
          | (Inr arg1, w) \<Rightarrow> if strict \<and> arg1 = V_nil then (Inr None, w)
              else (case Callable env (ov_function ovl) (cf_callResolved c) [arg0, arg1] w of
                (Inl err, w) \<Rightarrow> (Inl err, w) | (Inr v, w) \<Rightarrow> (Inr (Some v), w)))) = (Inr (Some v), w')"
    using assms by (simp add: func2FastPath_def cong: prod.case_cong sum.case_cong if_cong split: if_split_asm)
  then obtain x' w1 where x': "evalArg env a (Some (d, ?p ! 0)) w = (Inr x', w1)" and sx: "\<not> (strict \<and> x' = V_nil)"
    by (auto split: prod.splits sum.splits if_splits)
  with fast obtain y' w2 where y': "evalArg env b (Some (e, ?p ! 1)) w1 = (Inr y', w2)" and sy: "\<not> (strict \<and> y' = V_nil)"
    by (auto simp only: prod.case sum.case if_not_P split: prod.splits sum.splits if_splits)
  with fast x' sx have "Callable env (ov_function ovl) (cf_callResolved c) [x', y'] w2 = (Inr v, w')"
    by (cases strict) (simp_all split: prod.splits sum.splits)
  moreover obtain x s where "eval_typed env a w = (Inr (x, s), w1)" "eval_cast env d x s (?p ! 0) = Inr x'" using evalArg_InrE [OF x'] .
  moreover obtain y t where "eval_typed env b w1 = (Inr (y, t), w2)" "eval_cast env e y t (?p ! 1) = Inr y'" using evalArg_InrE [OF y'] .
  ultimately show ?thesis using sx sy by blast
qed

text \<open>C17. When the short way for functions of two arguments gives a value, the general way from the same state gives the same value and the same state, with and without
  conversions of the arguments; the casts are those of a resolution, and take NULL to NULL.\<close>

theorem fast_path_agrees:
  assumes "func2FastPath env c ovl casts (fn_Strict (ov_function ovl)) w = (Inr (Some v), w')"
    and "length (cf_Arguments c) = 2" and "ov_variadic ovl = - 1"
    and "casts = [] \<or> length casts = 2 \<and> (\<forall>c \<in> set casts. cast_valid c)"
    and "\<forall>c \<in> set casts. \<forall>s t. eval_cast env c V_nil s t = Inr V_nil"
  shows "eval_slowly env c ovl casts w = (Inr v, w')"
proof -
  obtain a b where ab: "cf_Arguments c = [a, b]" using two_arguments [OF assms(2)] by blast
  let ?strict = "fn_Strict (ov_function ovl)"
  from assms(4) show ?thesis
  proof
    assume "casts = []"
    then show ?thesis using assms(1,3) ab
      by (auto simp: func2FastPath_def eval_slowly_def evalArg_def Let_def coalesceVariadicValues_def split: prod.splits sum.splits if_splits)
  next
    assume "length casts = 2 \<and> (\<forall>c \<in> set casts. cast_valid c)"
    then obtain d e where de: "casts = [d, e]" "cast_valid d" "cast_valid e" using two_arguments [of casts] by (metis list.set_intros(1,2))
    have nil: "\<And>s t. eval_cast env d V_nil s t = Inr V_nil" "\<And>s t. eval_cast env e V_nil s t = Inr V_nil"
      using assms(5) de by auto
    let ?p = "ov_paramTypes ovl"
    have any: "ty_ID (?p ! 0) \<noteq> ty_ID AnyArray" "ty_ID (?p ! 1) \<noteq> ty_ID AnyArray"
      using assms(1) de by (auto simp: func2FastPath_def)
    obtain x s w1 x' y t w2 y' where a: "eval_typed env a w = (Inr (x, s), w1)" and x': "eval_cast env d x s (?p ! 0) = Inr x'"
      and b: "eval_typed env b w1 = (Inr (y, t), w2)" and y': "eval_cast env e y t (?p ! 1) = Inr y'"
      and strict: "?strict \<longrightarrow> x' \<noteq> V_nil" "?strict \<longrightarrow> y' \<noteq> V_nil"
      and call: "Callable env (ov_function ovl) (cf_callResolved c) [x', y'] w2 = (Inr v, w')"
      using fast_path_runs [OF assms(1) [unfolded de(1)] ab] by blast
    note ev = a x' b y'
    have "?strict \<longrightarrow> x \<noteq> V_nil" "?strict \<longrightarrow> y \<noteq> V_nil" using strict nil x' y' by force+
    then have "eval_arguments env ?strict (cf_Arguments c) w = (Inr (Some [(x, s), (y, t)]), w2)"
      by (cases ?strict) (simp_all add: ab a b)
    moreover have "target_type (ce_types env) ovl [s, t] 0 = Inr (?p ! 0)" "target_type (ce_types env) ovl [s, t] (Suc 0) = Inr (?p ! Suc 0)"
      using assms(3) any by (simp_all add: target_type_def Let_def)
    then have "first_error (map (cast_argument env ovl casts (map snd [(x, s), (y, t)])) (enumerate 0 [(x, s), (y, t)])) = Inr [x', y']"
      using de ev by (simp add: cast_argument_def)
    ultimately show ?thesis using call assms(3) de by (simp add: eval_slowly_def coalesceVariadicValues_def)
  qed
qed

text \<open>C39. A call of a strict function of exactly two arguments, resolved without casts or with a cast for both, neither of which goes to
  \<open>anyarray\<close>: if the first argument never is NULL, also after its cast, and the second is NULL without an effect, and stays NULL
  after its cast, then the short way gives up after both arguments were evaluated, and the general way evaluates both again. The call gives NULL, but
  the effect of the first argument has happened twice: \<open>nextval('s') + NULL\<close> advances the sequence by two numbers.\<close>

theorem strict_null_evaluates_twice:
  assumes "cf_stashedErr c = None" and "cf_overload c = Some (ovl, casts)" and "cf_Arguments c = [a, b]"
    and "is_Function2 env (ov_function ovl)" and "fn_Strict (ov_function ovl)" and "ov_variadic ovl = - 1"
    and "casts = [] \<or> length casts = 2 \<and> ty_ID (ov_paramTypes ovl ! 0) \<noteq> ty_ID AnyArray \<and> ty_ID (ov_paramTypes ovl ! 1) \<noteq> ty_ID AnyArray"
    and "\<forall>w. \<exists>v. v \<noteq> V_nil \<and> eval_typed env a w = (Inr (v, s), next_state w) \<and>
      (casts \<noteq> [] \<longrightarrow> (\<exists>v'. v' \<noteq> V_nil \<and> eval_cast env (casts ! 0) v s (ov_paramTypes ovl ! 0) = Inr v'))"
    and "\<forall>w. eval_typed env b w = (Inr (V_nil, t), w)"
    and "casts \<noteq> [] \<longrightarrow> eval_cast env (casts ! 1) V_nil t (ov_paramTypes ovl ! 1) = Inr V_nil"
  shows "evalRaw env c w = (Inr V_nil, next_state (next_state w))"
proof -
  have runs: "\<exists>v. v \<noteq> V_nil \<and> eval_typed env a w = (Inr (v, s), next_state w) \<and>
      (casts \<noteq> [] \<longrightarrow> (\<exists>v'. v' \<noteq> V_nil \<and> eval_cast env (casts ! 0) v s (ov_paramTypes ovl ! 0) = Inr v'))" for w
    using assms(8) by blast
  obtain v where v: "v \<noteq> V_nil" "eval_typed env a w = (Inr (v, s), next_state w)"
    and cast: "casts \<noteq> [] \<longrightarrow> (\<exists>v'. v' \<noteq> V_nil \<and> eval_cast env (casts ! 0) v s (ov_paramTypes ovl ! 0) = Inr v')" using runs by blast
  obtain v' where v': "v' \<noteq> V_nil" "eval_typed env a (next_state w) = (Inr (v', s), next_state (next_state w))" using runs by blast
  have "func2FastPath env c ovl casts True w = (Inr None, next_state w)"
    using assms(3,7,9,10) v cast by (auto simp: func2FastPath_def evalArg_def Let_def)
  moreover have "eval_slowly env c ovl casts (next_state w) = (Inr V_nil, next_state (next_state w))"
    using assms(3,5,9) v' by (simp add: eval_slowly_def)
  ultimately show ?thesis using assms by (simp add: evalRaw_def)
qed

text \<open>A strict sum whose left operand, an integer, counts how often it was evaluated, and whose right operand is a literal, so that the call resolves
  with a cast for both operands. A literal that is not NULL is read by the input function.\<close>

definition demo_env :: "(unit, nat, nat) call_env" where
  "demo_env = \<lparr>ce_types = \<lparr>TypModOut = \<lambda>_ _. None, array_type = demo_array, internal_type = \<lambda>_. None\<rparr>, ce_casts = demo_casts [],
     ce_eval = \<lparr>IoOutput = \<lambda>_ _. Some (gs ''4''), IoInput = \<lambda>_ _. Some (V_val 4), call_builtin = \<lambda>_ _ _ _. None, function_known = \<lambda>_. False, function_strict = \<lambda>_. True,
       call_function = \<lambda>_ _. None, Convert = \<lambda>_ _. True\<rparr>,
     FromGmsType = \<lambda>_. None, ConvertGMSValue = \<lambda>_ _. None, is_Function2 = \<lambda>_. True,
     Callable = \<lambda>_ _ vs w. (case vs of [V_val x, V_val y] \<Rightarrow> Inr (V_val (x + y)) | _ \<Rightarrow> Inl CallFailed, w)\<rparr>"

definition demo_sum :: Overloads where
  "demo_sum = (let fn = demo_fn [Int32_type, Int32_type] (- 1) in
     \<lparr>ByParamType = [(keyForParamTypes (ce_types demo_env) [Int32_type, Int32_type], fn)], AllOverloads = [fn]\<rparr>)"

definition demo_operands :: "nat cast_val \<Rightarrow> (nat, nat) expr list" where
  "demo_operands right = [\<lparr>ex_Type = DoltgresT Int32_type, ex_Eval = \<lambda>w. (Inr (V_val w), w + 1)\<rparr>, \<lparr>ex_Type = DoltgresT Unknown, ex_Eval = \<lambda>w. (Inr right, w)\<rparr>]"

definition demo_call :: "nat cast_val \<Rightarrow> (unit, nat, nat) CompiledFunction" where
  "demo_call right = NewCompiledFunction demo_env (gs ''internal_binary_operator_func_+'') (demo_operands right) demo_sum True"

abbreviation demo_conversion :: "bool \<Rightarrow> unit Cast" where
  "demo_conversion inout \<equiv> Cast (NewCast (ty_ID Int32_type) (ty_ID Unknown)) CastType_Explicit NullFunction None inout 0"

lemma demo_resolved:
  "resolve (ce_types demo_env) (ce_casts demo_env) True demo_sum (overloadsForParams (ce_types demo_env) demo_sum 2) [Int32_type, Unknown] =
     Inr (Some (demo_overload [Int32_type, Int32_type], [demo_conversion False, demo_conversion True]))"
  by code_simp

lemma demo_call_eq:
  "demo_call right = \<lparr>cf_Name = gs ''internal_binary_operator_func_+'', cf_Arguments = demo_operands right, cf_IsOperator = True,
     cf_overload = Some (demo_overload [Int32_type, Int32_type], [demo_conversion False, demo_conversion True]), cf_originalTypes = [Int32_type, Unknown],
     cf_callResolved = [Some Int32_type, Some Int32_type, Some Int32_type], cf_stashedErr = None\<rparr>"
proof -
  have "analyzeParameters demo_env (demo_operands right) = Inr [Int32_type, Unknown]"
    by (simp add: analyzeParameters_def argument_type_def demo_operands_def Int32_type_def demo_type_def Unknown_def)
  moreover have "resolved_params [Int32_type, Int32_type] [Int32_type, Unknown] [DoltgresT Int32_type, DoltgresT Unknown] = Some [Some Int32_type, Some Int32_type]"
    "resolved_return (ce_types demo_env) (gs ''internal_binary_operator_func_+'') (demo_overload [Int32_type, Int32_type]) [Int32_type, Unknown] = Inr Int32_type"
    by code_simp+
  moreover have "ov_paramTypes (demo_overload [Int32_type, Int32_type]) = [Int32_type, Int32_type]" by (simp add: demo_overload_def exact_overload_def)
  moreover have "length (demo_operands right) = 2" "map ex_Type (demo_operands right) = [DoltgresT Int32_type, DoltgresT Unknown]"
    by (simp_all add: demo_operands_def)
  ultimately show ?thesis using demo_resolved by (simp add: demo_call_def NewCompiledFunction_def newCompiledFunctionInternal_def del: Cast.inject)
qed

lemma demo_conversions:
  "eval_cast demo_env (demo_conversion False) v s t = Inr v" "eval_cast demo_env (demo_conversion True) V_nil s t = Inr V_nil"
  "eval_cast demo_env (demo_conversion True) (V_val n) s t = Inr (V_val 4)"
  by (simp_all add: eval_cast_def cast_Eval.simps eval_in_out_def demo_env_def)

lemma demo_not_AnyArray: "ty_ID Int32_type \<noteq> ty_ID AnyArray"
  by code_simp

lemma demo_cast_id_valid: "Id_IsValid (NewCast (ty_ID Int32_type) (ty_ID Unknown))"
  by code_simp

lemma demo_Function2: "is_Function2 demo_env fn"
  by (simp add: demo_env_def)

lemmas demo_call_simps = demo_call_eq demo_cast_id_valid demo_Function2 demo_conversions demo_not_AnyArray demo_operands_def demo_overload_def exact_overload_def demo_fn_def

theorem fast_path_agrees_witness:
  "eval_slowly demo_env (demo_call (V_val 7)) (demo_overload [Int32_type, Int32_type]) [demo_conversion False, demo_conversion True] 1 = (Inr (V_val 5), 2)"
proof (rule fast_path_agrees)
  let ?ovl = "demo_overload [Int32_type, Int32_type]"
  show "func2FastPath demo_env (demo_call (V_val 7)) ?ovl [demo_conversion False, demo_conversion True] (fn_Strict (ov_function ?ovl)) 1 = (Inr (Some (V_val 5)), 2)"
    by (simp add: demo_call_simps func2FastPath_def evalArg_def eval_typed_def) (simp add: demo_env_def)
qed (simp_all add: demo_call_simps)

theorem strict_null_evaluates_twice_witness:
  "evalRaw demo_env (demo_call V_nil) 1 = (Inr V_nil, 3)"
proof -
  let ?args = "demo_operands V_nil"
  have "evalRaw demo_env (demo_call V_nil) 1 = (Inr V_nil, Suc (Suc 1))"
    by (rule strict_null_evaluates_twice [where a = "?args ! 0" and b = "?args ! 1" and s = Int32_type and t = Unknown])
      (auto simp: demo_call_simps eval_typed_def)
  then show ?thesis by simp
qed

section \<open>Polymorphic calls\<close>

definition element_type :: "doltgres_type \<Rightarrow> doltgres_type" where
  "element_type t = (if IsArrayType t then ArrayBaseType t else t)"

definition binds :: "doltgres_type \<times> doltgres_type \<Rightarrow> bool" where
  "binds pe \<longleftrightarrow> IsPolymorphicType (fst pe) \<and> ty_ID (snd pe) \<noteq> ty_ID Unknown"

lemma same_base_Some: "same_base (Some b) ps \<Longrightarrow> pe \<in> set ps \<Longrightarrow> binds pe \<Longrightarrow> ty_ID (element_type (snd pe)) = ty_ID b"
  by (induction "Some b" ps rule: same_base.induct) (auto simp: binds_def element_type_def Let_def split: if_splits)

lemma first_polymorphic_base:
  "length ps = length es \<Longrightarrow> same_base None (zip ps es) \<Longrightarrow> first_polymorphic ps es = Some first \<Longrightarrow> pe \<in> set (zip ps es) \<Longrightarrow> binds pe \<Longrightarrow>
     \<exists>t. first = Some t \<and> ty_ID (element_type (snd pe)) = ty_ID (element_type t)"
proof (induction ps es rule: list_induct2)
  case (Cons p ps e es)
  show ?case
  proof (cases "binds (p, e)")
    case True
    then have "first = Some e" "same_base (Some (element_type e)) (zip ps es)"
      using Cons.prems by (auto simp: binds_def element_type_def Let_def)
    then show ?thesis using Cons.prems same_base_Some by fastforce
  next
    case False
    then show ?thesis using Cons by (auto simp: binds_def split: if_splits)
  qed
qed simp

lemma polymorphic_by_name: "ty_ID t = ty_ID u \<Longrightarrow> IsPolymorphicType t = IsPolymorphicType u"
  by (simp add: IsPolymorphicType_def ty_Name_def)

lemma compatible_same_base:
  assumes "polymorphicTypesCompatible ps es" "length ps \<ge> 2"
  shows "\<exists>f. (\<forall>p. IsPolymorphicType (f p) = IsPolymorphicType p) \<and> same_base None (zip (map f ps) es)"
proof -
  let ?f = "\<lambda>t. if ty_ID t = ty_ID AnyElement then AnyNonArray else t"
  have "IsPolymorphicType AnyNonArray" "IsPolymorphicType AnyElement" by code_simp+
  then have "\<forall>p. IsPolymorphicType (?f p) = IsPolymorphicType p" by (auto dest: polymorphic_by_name)
  moreover have "same_base None (zip (map ?f ps) es) \<or> same_base None (zip (map id ps) es)"
    using assms by (auto simp: polymorphicTypesCompatible_def Let_def split: if_splits)
  ultimately show ?thesis by (elim disjE) (rule exI [of _ ?f], blast, rule exI [of _ id], simp)
qed

lemma first_polymorphic_map: "(\<And>p. IsPolymorphicType (f p) = IsPolymorphicType p) \<Longrightarrow> first_polymorphic (map f ps) es = first_polymorphic ps es"
  by (induction ps es rule: first_polymorphic.induct) (auto split: list.split)

text \<open>C32. A call whose polymorphic parameters are compatible and that returns \<open>anyelement\<close> returns the element type of every argument of a known type that goes to a
  polymorphic parameter.\<close>

theorem polymorphic_return_agrees:
  assumes "polymorphicTypesCompatible ps es" and "resolvePolymorphicReturnType ts ps es AnyElement = Some t"
  shows "\<forall>i < length ps. IsPolymorphicType (ps ! i) \<and> ty_ID (es ! i) \<noteq> ty_ID Unknown \<longrightarrow> ty_ID t = ty_ID (element_type (es ! i))"
proof (intro allI impI)
  fix i assume i: "i < length ps" and known: "IsPolymorphicType (ps ! i) \<and> ty_ID (es ! i) \<noteq> ty_ID Unknown"
  have len: "length ps = length es" using assms(1) by (auto simp: polymorphicTypesCompatible_def split: if_splits)
  have "IsPolymorphicType AnyElement" by code_simp
  then obtain first where first: "first_polymorphic ps es = Some first" and t: "t = element_type (case first of None \<Rightarrow> Text_type | Some t \<Rightarrow> t)"
    using assms(2) by (auto simp: resolvePolymorphicReturnType_def Let_def element_type_def split: option.splits)
  obtain f where f: "\<And>p. IsPolymorphicType (f p) = IsPolymorphicType p" "same_base None (zip (map f ps) es)"
  proof (cases "length ps \<ge> 2")
    case True
    then show ?thesis using compatible_same_base [OF assms(1)] that by blast
  next
    case False
    then obtain p e where "ps = [p]" "es = [e]" using i len by (cases ps; cases es; cases "tl ps"; cases "tl es") auto
    moreover have "ty_Name AnyElement = gs ''anyelement''" by code_simp
    then have "IsValidForPolymorphicType AnyElement e" by (simp add: IsValidForPolymorphicType_def)
    ultimately show ?thesis using that [of "\<lambda>p. if IsPolymorphicType p then AnyElement else p"] \<open>IsPolymorphicType AnyElement\<close>
      by (simp add: Let_def)
  qed
  have "(f (ps ! i), es ! i) \<in> set (zip (map f ps) es)" using i len by (auto simp: in_set_zip intro!: exI [of _ i])
  moreover have "binds (f (ps ! i), es ! i)" using f(1) known by (simp add: binds_def)
  ultimately obtain u where "first = Some u" "ty_ID (element_type (es ! i)) = ty_ID (element_type u)"
    using first_polymorphic_base [of "map f ps" es first "(f (ps ! i), es ! i)"] f(2) first_polymorphic_map [OF f(1)] first len by auto
  then show "ty_ID t = ty_ID (element_type (es ! i))" using t by simp
qed

theorem polymorphic_return_agrees_witness:
  "ty_ID Int32_type = ty_ID (element_type (demo_array Int32_type))"
proof -
  have "polymorphicTypesCompatible [AnyArray, AnyElement] [demo_array Int32_type, Int32_type]"
    "resolvePolymorphicReturnType \<lparr>TypModOut = \<lambda>_ _. None, array_type = demo_array, internal_type = \<lambda>_. None\<rparr> [AnyArray, AnyElement]
       [demo_array Int32_type, Int32_type] AnyElement = Some Int32_type" by code_simp+
  from polymorphic_return_agrees [OF this]
  have "IsPolymorphicType AnyArray \<and> ty_ID (demo_array Int32_type) \<noteq> ty_ID Unknown \<longrightarrow> ty_ID Int32_type = ty_ID (element_type (demo_array Int32_type))" by fastforce
  moreover have "IsPolymorphicType AnyArray" "ty_ID (demo_array Int32_type) \<noteq> ty_ID Unknown" by code_simp+
  ultimately show ?thesis by blast
qed

end
