(* ===== verification/Common_Type.thy ===== *)
theory Common_Type
  imports Cast_Props
begin

text \<open>
  The common type of several expressions (\<open>UNION\<close>, \<open>VALUES\<close>, \<open>COALESCE\<close>, arrays): \<open>src/server/functions/framework/common_type.go\<close>, its four loops one
  after the other. The type that comes out is one to which every argument converts; which one it is depends on the order in two ways
  that the comments of the code do not mean.
\<close>

section \<open>The loops\<close>

datatype common_error = CannotMatch doltgres_type doltgres_type | CastLookup cast_error | NoImplicitCast doltgres_type doltgres_type

fun one_type :: "doltgres_type \<Rightarrow> bool \<Rightarrow> doltgres_type list \<Rightarrow> doltgres_type \<times> bool" where
  "one_type candidateType differentTypes [] = (candidateType, differentTypes)"
| "one_type candidateType differentTypes (typ # types) =
     (if ty_ID typ = ty_ID candidateType then one_type candidateType differentTypes types
      else if ty_ID candidateType = ty_ID Unknown then one_type typ differentTypes types
      else one_type Unknown True types)"

fun one_category :: "doltgres_type \<Rightarrow> doltgres_type list \<Rightarrow> common_error + doltgres_type" where
  "one_category candidateType [] = Inr candidateType"
| "one_category candidateType (typ # types) =
     (let candidateType = (if ty_ID candidateType = ty_ID Unknown then typ else candidateType) in
      if ty_ID typ \<noteq> ty_ID Unknown \<and> ty_TypCategory candidateType \<noteq> ty_TypCategory typ then Inl (CannotMatch candidateType typ)
      else one_category candidateType types)"

fun most_general :: "'f Collection \<Rightarrow> doltgres_type \<Rightarrow> doltgres_type list \<Rightarrow> common_error + doltgres_type" where
  "most_general cs candidateType [] = Inr candidateType"
| "most_general cs candidateType (typ # types) =
     (if ty_ID typ = ty_ID Unknown \<or> ty_ID typ = ty_ID candidateType then most_general cs candidateType types
      else (case GetImplicitCast cs typ candidateType of
        Inl err \<Rightarrow> Inl (CastLookup err)
      | Inr c \<Rightarrow>
          if cast_valid c then most_general cs candidateType types
          else (case GetImplicitCast cs candidateType typ of
            Inl err \<Rightarrow> Inl (CastLookup err)
          | Inr c \<Rightarrow>
              if cast_valid c then (if ty_IsPreferred typ then Inr typ else most_general cs typ types)
              else most_general cs candidateType types)))"

fun all_convert :: "'f Collection \<Rightarrow> doltgres_type \<Rightarrow> doltgres_type list \<Rightarrow> common_error option" where
  "all_convert cs candidateType [] = None"
| "all_convert cs candidateType (typ # types) =
     (if ty_ID typ = ty_ID Unknown \<or> ty_ID typ = ty_ID candidateType then all_convert cs candidateType types
      else (case GetImplicitCast cs typ candidateType of
        Inl err \<Rightarrow> Some (CastLookup err)
      | Inr c \<Rightarrow> if cast_valid c then all_convert cs candidateType types else Some (NoImplicitCast candidateType typ)))"

definition FindCommonType :: "'f Collection \<Rightarrow> doltgres_type list \<Rightarrow> common_error + doltgres_type \<times> bool" where
  "FindCommonType cs types = (case one_type Unknown False types of (candidateType, differentTypes) \<Rightarrow>
     if \<not> differentTypes then Inr (if ty_ID candidateType = ty_ID Unknown then (Text_type, True) else (candidateType, False))
     else (case one_category candidateType types of
       Inl err \<Rightarrow> Inl err
     | Inr candidateType \<Rightarrow> (case most_general cs candidateType types of
         Inl err \<Rightarrow> Inl err
       | Inr candidateType \<Rightarrow> (case all_convert cs candidateType types of
           Some err \<Rightarrow> Inl err | None \<Rightarrow> Inr (candidateType, True)))))"

section \<open>The result\<close>

definition converts :: "'f Collection \<Rightarrow> doltgres_type \<Rightarrow> doltgres_type \<Rightarrow> bool" where
  "converts cs typ t \<longleftrightarrow> ty_ID typ = ty_ID Unknown \<or> ty_ID typ = ty_ID t \<or> (\<exists>c. GetImplicitCast cs typ t = Inr c \<and> cast_valid c)"

lemma all_convert_None: "all_convert cs t types = None \<Longrightarrow> \<forall>typ \<in> set types. converts cs typ t"
  by (induction types) (auto simp: converts_def split: if_splits sum.splits)

lemma one_type_keeps: "one_type u d types = (t, False) \<Longrightarrow> \<not> d \<and> (t = u \<or> t \<in> set types) \<and>
    (\<forall>typ \<in> set types. ty_ID typ = ty_ID Unknown \<or> ty_ID typ = ty_ID t) \<and> (ty_ID u = ty_ID Unknown \<or> ty_ID u = ty_ID t)"
  by (induction u d types rule: one_type.induct) (auto split: if_splits)

lemma one_type_member: "one_type u d types = (t, d') \<Longrightarrow> ty_ID t = ty_ID Unknown \<or> t = u \<or> t \<in> set types"
  by (induction u d types rule: one_type.induct) (auto split: if_splits)

lemma one_category_member: "one_category u types = Inr t \<Longrightarrow> ty_ID t = ty_ID Unknown \<or> t = u \<or> t \<in> set types"
  by (induction u types rule: one_category.induct) (auto simp: Let_def split: if_splits)

lemma most_general_member: "most_general cs u types = Inr t \<Longrightarrow> t = u \<or> t \<in> set types"
  by (induction cs u types rule: most_general.induct) (auto split: if_splits sum.splits)

lemma one_type_different: "one_type u False types = (t, True) \<Longrightarrow> \<exists>typ \<in> insert u (set types). ty_ID typ \<noteq> ty_ID Unknown"
  by (induction u False types rule: one_type.induct) (auto split: if_splits)

lemma one_category_known:
  "one_category u types = Inr t \<Longrightarrow> ty_ID u \<noteq> ty_ID Unknown \<or> (\<exists>typ \<in> set types. ty_ID typ \<noteq> ty_ID Unknown) \<Longrightarrow> ty_ID t \<noteq> ty_ID Unknown"
  by (induction u types rule: one_category.induct) (auto simp: Let_def split: if_splits)

lemma most_general_known: "most_general cs u types = Inr t \<Longrightarrow> ty_ID u \<noteq> ty_ID Unknown \<Longrightarrow> ty_ID t \<noteq> ty_ID Unknown"
  by (induction cs u types rule: most_general.induct) (auto split: if_splits sum.splits)

text \<open>C33. The common type is never the unknown type, is \<open>text\<close> or one of the types given, and every type given is unknown, is that type, or has an implicit cast to it;
  when no casts are said to be needed, every type that is known is that type.\<close>

theorem common_type_sound:
  assumes "FindCommonType cs types = Inr (t, requiresCasts)"
  shows "(\<forall>typ \<in> set types. converts cs typ t) \<and> (t = Text_type \<or> t \<in> set types) \<and> ty_ID t \<noteq> ty_ID Unknown \<and>
    (\<not> requiresCasts \<longrightarrow> (\<forall>typ \<in> set types. ty_ID typ = ty_ID Unknown \<or> ty_ID typ = ty_ID t))"
proof -
  obtain u d where u: "one_type Unknown False types = (u, d)" by fastforce
  have "ty_ID Text_type \<noteq> ty_ID Unknown" by code_simp
  show ?thesis
  proof (cases d)
    case False
    then show ?thesis using one_type_keeps [of Unknown False types u] u assms \<open>ty_ID Text_type \<noteq> ty_ID Unknown\<close>
      by (auto simp: FindCommonType_def converts_def split: if_splits)
  next
    case True
    then obtain v where v: "one_category u types = Inr v" "most_general cs v types = Inr t" "all_convert cs t types = None" and r: "requiresCasts"
      using assms u by (auto simp: FindCommonType_def split: sum.splits option.splits)
    have "\<exists>typ \<in> set types. ty_ID typ \<noteq> ty_ID Unknown" using one_type_different [of Unknown types u] u True by auto
    then have known: "ty_ID v \<noteq> ty_ID Unknown" "ty_ID t \<noteq> ty_ID Unknown"
      using one_category_known [OF v(1)] most_general_known [OF v(2)] by auto
    then have "v \<in> set types" using one_category_member [OF v(1)] one_type_member [OF u] by auto
    then show ?thesis using all_convert_None [OF v(3)] most_general_member [OF v(2)] known r by auto
  qed
qed

definition demo_strings :: "unit Collection" where
  "demo_strings = demo_casts [(Text_type, demo_type ''varchar'' 83 False, 2), (demo_type ''varchar'' 83 False, Text_type, 2),
     (Text_type, demo_type ''bpchar'' 83 False, 2), (demo_type ''bpchar'' 83 False, Text_type, 2),
     (demo_type ''varchar'' 83 False, demo_type ''bpchar'' 83 False, 2), (demo_type ''bpchar'' 83 False, demo_type ''varchar'' 83 False, 2)]"

theorem common_type_sound_witness:
  "converts demo_strings (demo_type ''varchar'' 83 False) Text_type"
proof -
  have "FindCommonType demo_strings [Text_type, demo_type ''varchar'' 83 False] = Inr (Text_type, True)" by code_simp
  from common_type_sound [OF this] show ?thesis by simp
qed

section \<open>Two dependences on the order\<close>

text \<open>Whether casts are needed depends on where the literal of unknown type stands: behind an integer casts are needed, in front of it they are said not to be, and \<open>VALUES\<close>
  then leaves the text as it is.\<close>

theorem unknown_first_needs_no_cast:
  "FindCommonType cs [Unknown, Int32_type] = Inr (Int32_type, False) \<and> FindCommonType cs [Int32_type, Unknown] = Inr (Int32_type, True)"
proof -
  have "ty_ID Int32_type \<noteq> ty_ID Unknown" "ty_ID Unknown \<noteq> ty_ID Int32_type" by code_simp+
  then show ?thesis by (simp add: FindCommonType_def)
qed

text \<open>With three types the first of them is forgotten: \<open>text\<close>, \<open>varchar\<close> and \<open>bpchar\<close>, which convert to each other as in the built-in casts, give \<open>bpchar\<close>, although
  \<open>text\<close> comes first and is the preferred type, and \<open>text\<close> and \<open>varchar\<close> alone give \<open>text\<close>.\<close>

theorem third_type_becomes_candidate:
  "FindCommonType demo_strings [Text_type, demo_type ''varchar'' 83 False] = Inr (Text_type, True) \<and>
   FindCommonType demo_strings [Text_type, demo_type ''varchar'' 83 False, demo_type ''bpchar'' 83 False] = Inr (demo_type ''bpchar'' 83 False, True)"
  by code_simp

end
