(* ===== verification/Spec2Isabelle.thy ===== *)
theory Spec2Isabelle
  imports Codec_Props Id_Props Id_Cache_Props Sequence_Props Sequence_Codec Auth_Store Auth_Handler_Props
    Grant_Props Role_Statement_Props Copy_Text_Round Copy_Binary_Props Copy_Csv_Round
    Connection_Atomic Connection_Copy Plpgsql_Props Plpgsql_Resolve Function_Call_Props Common_Type
begin

text \<open>
  A verification of the core of Doltgres, a server that speaks the protocol of PostgreSQL on top of the versioned
  storage of Dolt. The program is written in Go; the storage, the query engine and the syntax tree come from other
  repositories. What is its own and carries state or a format of bytes is modelled here. Everything is a function
  on explicit state; a panic is \<open>None\<close> (or the ending \<open>Panic\<close> of a statement), a returned error is a value.

  \<^bold>\<open>The parts and their theories.\<close>

  \<^item> \<open>Prelude\<close>: machine integers, strings as lists of bytes, Go maps as association lists in the order one loop visits them.

  \<^item> The byte codec of \<open>src/utils/writer.go\<close> and \<open>reader.go\<close>: \<open>Byte_Writer\<close> and \<open>Byte_Reader\<close> have one definition per method,
    \<open>Codec\<close> the locale of a value that is written and read back, \<open>Codec_Instances\<close> its interpretations, \<open>Codec_Order\<close>
    the order of encoded numbers, \<open>Codec_Stream\<close> sequences of operations. \<open>Codec_Props\<close> shows that any sequence of writes
    is read back, that encoded numbers compare as bytes, and that the unrolled decoder of variable-length integers is the loop.

  \<^item> Internal ids, \<open>src/core/id\<close>: \<open>Ids\<close> (\<open>id.go\<close>, \<open>section.go\<close>: both formats), \<open>Id_Wrappers\<close> (\<open>id_wrappers.go\<close>), \<open>Id_Cache\<close>
    (\<open>cache.go\<close>: the assignment of OIDs, also step by step for interleaved callers) and \<open>Id_Registry\<close> (\<open>registry.go\<close>).
    \<open>Id_Props\<close> and \<open>Id_Cache_Props\<close> show when the segments of an id come back, and that OIDs are a numbering of ids under
    every interleaving.

  \<^item> Sequences, \<open>src/core/sequences\<close>: \<open>Sequences\<close> is the state machine of \<open>nextval\<close>, \<open>setval\<close> and merging; \<open>Sequence_Props\<close>
    states its contract over unbounded integers and shows that the 64-bit code implements it, that merging is a
    semilattice, and what a run of calls returns; \<open>Sequence_Codec\<close> the stored form.

  \<^item> Authorization, \<open>src/server/auth\<close>: \<open>Auth_Roles\<close> (\<open>role.go\<close>, \<open>privileges.go\<close>, \<open>database.go\<close>), \<open>Auth_Membership\<close>
    (\<open>role_membership.go\<close>), \<open>Auth_Privileges\<close> (the five privilege tables, one generic definition per operation that the
    tables instantiate), \<open>Auth_Serial\<close> (the stored form), \<open>Auth_Handler\<close> (\<open>auth_handler.go\<close>: which privileges a statement needs).
    \<open>Graph_Search\<close> and \<open>Auth_Access\<close> have the specification: reachability through groups. \<open>Auth_Props\<close>, \<open>Auth_Role_Props\<close>,
    \<open>Auth_Codec\<close>, \<open>Auth_Store\<close> and \<open>Auth_Handler_Props\<close> show that the checks decide access, that the database is stored and
    loaded without loss, which invariants the operations keep, and where they do not.

  \<^item> Statements on roles and privileges, \<open>src/server/node\<close>: \<open>Auth_Server\<close> is the state they change (the database in
    memory, the counter of role ids, the file) and how it is stored; \<open>Grant_Statements\<close> models \<open>GRANT\<close> and \<open>REVOKE\<close>
    (\<open>grant.go\<close>, \<open>revoke.go\<close>), \<open>Role_Statements\<close> \<open>CREATE\<close>, \<open>ALTER\<close> and \<open>DROP ROLE\<close> as sequences of critical sections, alone
    and interleaved. \<open>Grant_Store\<close> has the locale of a privilege table with an interpretation for each of the five;
    \<open>Grant_Props\<close> and \<open>Role_Statement_Props\<close> show the exact effect of each statement on success, who may run it, that
    it is durable, and what errors and races leave behind.

  \<^item> \<open>COPY\<close>, \<open>src/core/dataloader\<close> and its use in \<open>src/server/connection_handler.go\<close>: \<open>Copy_Loader\<close> has what \<open>COPY TO\<close> sends, how
    the rows of one message after the other are taken, and two locales: a source of rows that always ends, and one for
    which the boundaries of messages do not matter. \<open>Copy_Text\<close>, \<open>Copy_Csv\<close> and \<open>Copy_Binary\<close> model the loaders and writers of the
    three formats. \<open>Copy_Text_Props\<close>, \<open>Copy_Text_Round\<close>, \<open>Copy_Csv_Props\<close>, \<open>Copy_Csv_Round\<close> and \<open>Copy_Binary_Props\<close> interpret the
    locales, show that what is sent is what is loaded, and where a boundary changes what is loaded.

  \<^item> Connections, \<open>src/server/connection_handler.go\<close>: \<open>Connection\<close> is the state machine of a client's messages, with transaction blocks,
    batches of extended queries and the exchange of \<open>COPY\<close>; the engine is a record of functions. \<open>Connection_Props\<close> shows
    that every simple query is answered once (and where the handler waits for
    ever), \<open>Connection_Atomic\<close> that a message with several statements is one transaction on every engine that is transactional, and that errors in a batch roll its block back and end at the next \<open>Sync\<close>,
    \<open>Connection_Copy\<close> how often the client of a load is told that it may go on. \<open>Connection_Demo\<close> is a small engine for witnesses.

  \<^item> PL/pgSQL, \<open>src/server/plpgsql\<close> and \<open>src/server/functions/framework/interpreted_function.go\<close>. The model: \<open>Plpgsql_Text\<close> (identifiers and
    the functions on strings), \<open>Plpgsql_Stack\<close> (\<open>interpreter_stack.go\<close>; variables are addresses, so that aliases are shared), \<open>Plpgsql_Statements\<close>
    (\<open>statements.go\<close>, \<open>interpreter_operation.go\<close>), \<open>Plpgsql_Labels\<close> (\<open>reconcile_labels.go\<close>), \<open>Plpgsql_Json\<close> (\<open>json.go\<close>, \<open>json_convert.go\<close>,
    \<open>parse.go\<close>) and \<open>Plpgsql_Interp\<close> (\<open>interpreter_logic.go\<close>, the queries of \<open>interpreted_function.go\<close>). The compiler is shown correct against a
    structured semantics: \<open>Plpgsql_Tree\<close> resolves labels on the tree, \<open>Plpgsql_Sem\<close> is the big-step semantics of the statements, \<open>Plpgsql_Depth\<close>, \<open>Plpgsql_Machine\<close>,
    \<open>Plpgsql_Shape\<close>, \<open>Plpgsql_Layout\<close>, \<open>Plpgsql_Code\<close>, \<open>Plpgsql_Coded\<close>, \<open>Plpgsql_Loops\<close>, \<open>Plpgsql_Correct\<close> and \<open>Plpgsql_Function\<close> relate it to the jumps of the
    compiled operations, and \<open>Plpgsql_Props\<close> states the result for a call. \<open>Plpgsql_Resolve\<close> says of every operation what resolving labels makes of it. \<open>Plpgsql_Bindings\<close> shows when the values of variables get into the text
    of a query as they are; \<open>Plpgsql_Demo\<close> and \<open>Plpgsql_Exec\<close> run small functions. The fragment of the theorem (\<open>jfine\<close>) leaves out what the code
    gets wrong: \<open>CASE\<close> (its jumps count statements for operations), an \<open>ELSE\<close> part that ends in a scope, a loop with an
    empty body or a \<open>CONTINUE\<close> at its start, and an inner loop with the label of an outer one; \<open>Plpgsql_Props\<close> has runs that show these errors.

  \<^item> Casts and function calls, \<open>src/core/casts\<close> and \<open>src/server/functions/framework\<close>. \<open>Pg_Types\<close> has what they read of a type (\<open>src/server/types/type.go\<close>), \<open>Casts\<close> the
    collection of casts (finding one for an explicit, an assignment and an implicit context, evaluating it, changing the collection, the stored form),
    \<open>Overloads\<close> the table of overloads and the resolution of functions and operators (\<open>overloads.go\<close>, \<open>compiled_function.go\<close>), \<open>Function_Call\<close> the
    compiled call, its polymorphic types and its evaluation, and \<open>Common_Type\<close> the common type of several (\<open>common_type.go\<close>). \<open>Cast_Props\<close> shows that every cast
    of a narrower context is one of the wider ones, that an added cast is found, and what renaming does. \<open>Overload_Props\<close> has the locale of a step that narrows the
    candidates, interpreted by the four steps of the code; it shows that the choice does not depend on the order in which overloads were registered, that the chosen overload is the best one, and how
    variadic values are collected. \<open>Function_Call_Props\<close> shows that the short way for two arguments agrees with the general one (except that NULL evaluates the arguments twice), and
    that a polymorphic result agrees with the arguments.

  \<^bold>\<open>How the parts interact.\<close> Sequences, privileges and roles are stored through the byte codec, so their round trips rest on
  the interpretations of its locale. The handler and the statements ask the privilege tables, whose checks recurse over
  memberships; the statements write the database with the stored form. Ids are the keys of sequences, casts and other objects. Resolution
  asks the casts for conversions, and a call evaluates them.

  \<^bold>\<open>Bounds and fuel.\<close> \<open>IsRoleAMember\<close> and the privilege checks recurse over groups and do not end on a cycle; they take a depth
  of calls and give \<open>None\<close> when it does not suffice. Without cycles the number of roles is enough, which the theorems
  prove, and with a cycle no depth is. The loop over the rows of a message takes one more round than the message has
  bytes, which is enough because every row takes a byte. The interpreter of PL/pgSQL
  takes a number of steps; the theorem on compiled functions says that every number from some one on gives the result. Finding a cast between arrays descends to their element types; a type that is its own element has no end, which is an error of its own. All other recursions end by themselves. Lengths that the code
  keeps in 64 bits are assumed to fit where a theorem needs it.

  \<^bold>\<open>Parameters.\<close> The session (user, database, search path), the catalog, listeners, input functions of types, password hashing,
  parsing of timestamps, writing of the file, the query engine of a connection and of a PL/pgSQL function, formatting, casts and
  zero values of types, the map of built-in casts, the functions behind casts and calls, the expressions of arguments, the scanner of pg_query and the decoding of byte order marks are arguments; hypotheses about them are stated
  in the theorems that use them.

  \<^bold>\<open>Not modelled.\<close> The parser and its tree are generated or taken over from CockroachDB. Root values and collections are thin layers
  over the maps of Dolt. The built-in functions, casts and operators and the values of types wrap libraries for decimals, times and JSON;
  of function calls, set-returning results, default values and windows are left out. The tables of
  built-in items in \<open>src/core/id\<close> are data; one of them is translated as an example. Login is cryptography, and the
  start-up of connections is input and output. The collection of sequences is a map
  of the node store of Dolt. The scanner and parser of PL/pgSQL are those of pg_query, which is not part of the repository.
\<close>

end
